(* ===== verification/Prelude.thy ===== *)
theory Prelude
  imports Main "HOL-Library.Word"
begin

text \<open>
  Shared vocabulary of the development.  The tools under \<^verbatim>\<open>src/tools\<close> are Python programs
  that read byte strings, check them and raise an exception at the first violated condition.
  This theory provides

  \<^item> the exception values and the result type \<open>'a res\<close> (\<open>Inl\<close> an exception, \<open>Inr\<close> a value)
    with \<open>require\<close> (the \<^verbatim>\<open>require(condition, message)\<close> helper the tools define), \<open>bindE\<close>
    (evaluate, propagate an exception), \<open>reraise\<close> (\<^verbatim>\<open>except ... as error: raise X from error\<close>),
    and \<open>for_each\<close> (a \<^verbatim>\<open>for\<close> loop whose body may raise);
  \<^item> Python slices \<open>pslice xs a b\<close> (\<^verbatim>\<open>xs[a:b]\<close> with non-negative indices, clamped) and slice
    assignment on a \<^verbatim>\<open>bytearray\<close>, \<open>set_slice\<close> (\<^verbatim>\<open>xs[a:b] = ys\<close>, which resizes when the
    lengths differ);
  \<^item> the interface \<open>region_memory\<close> of a memory read and written by regions, with the facts a
    client needs about a sequence of writes, and its interpretation on slices.

  The messages of the source are Chinese sentences; an exception here carries its class and a
  short English tag for the raise site, so that every raise of the source stays a separate branch.
\<close>

named_theorems res_simps \<open>inversion of require, bindE and reraise at a successful result\<close>
named_theorems slice_simps \<open>reading slices of concatenations and updated memories\<close>

subsection \<open>Exceptions and results\<close>

datatype exc_class =
    ValueError | UnicodeError | TypeError | KeyError | IndexError | OSError | TimeoutError
  | RuntimeError | SubprocessError | StopIteration | AttributeError | SystemExit
  | PreflightError | MigrationError | ArchiveError | PreparationError

datatype exn = Raise (exc: exc_class) (tag: string)

type_synonym 'a res = "exn + 'a"

text \<open>The exception classes the tools declare for themselves.\<close>

abbreviation preflight :: "string \<Rightarrow> exn" where
  "preflight t \<equiv> Raise PreflightError t"

abbreviation migration :: "string \<Rightarrow> exn" where
  "migration t \<equiv> Raise MigrationError t"

abbreviation archive_error :: "string \<Rightarrow> exn" where
  "archive_error t \<equiv> Raise ArchiveError t"

text \<open>\<^verbatim>\<open>UnicodeError\<close> is a subclass of \<^verbatim>\<open>ValueError\<close>: \<^verbatim>\<open>except ValueError\<close> catches both.\<close>

definition is_value_error :: "exn \<Rightarrow> bool" where
  "is_value_error e = (exc e = ValueError \<or> exc e = UnicodeError)"

definition require :: "bool \<Rightarrow> exn \<Rightarrow> 'a res \<Rightarrow> 'a res" where
  "require c e k = (if c then k else Inl e)"

definition bindE :: "'a res \<Rightarrow> ('a \<Rightarrow> 'b res) \<Rightarrow> 'b res" where
  "bindE m f = (case m of Inl e \<Rightarrow> Inl e | Inr x \<Rightarrow> f x)"

definition reraise :: "(exn \<Rightarrow> bool) \<Rightarrow> exn \<Rightarrow> 'a res \<Rightarrow> 'a res" where
  "reraise caught e m = (case m of Inl e' \<Rightarrow> Inl (if caught e' then e else e') | Inr x \<Rightarrow> Inr x)"

definition of_option :: "exn \<Rightarrow> 'a option \<Rightarrow> 'a res" where
  "of_option e m = (case m of None \<Rightarrow> Inl e | Some x \<Rightarrow> Inr x)"

fun for_each :: "('s \<Rightarrow> 'a \<Rightarrow> 's res) \<Rightarrow> 's \<Rightarrow> 'a list \<Rightarrow> 's res" where
  "for_each f s [] = Inr s"
| "for_each f s (x # xs) = bindE (f s x) (\<lambda>s'. for_each f s' xs)"

definition returns :: "'a res \<Rightarrow> bool" where
  "returns m = (case m of Inl _ \<Rightarrow> False | Inr _ \<Rightarrow> True)"

lemma require_True [simp]: "require True e k = k"
  by (simp add: require_def)

lemma require_False [simp]: "require False e k = Inl e"
  by (simp add: require_def)

lemma bindE_Inl [simp]: "bindE (Inl e) f = Inl e"
  by (simp add: bindE_def)

lemma bindE_Inr [simp]: "bindE (Inr x) f = f x"
  by (simp add: bindE_def)

lemma reraise_Inr [simp]: "reraise c e (Inr x) = Inr x"
  by (simp add: reraise_def)

lemma of_option_Some [simp]: "of_option e (Some x) = Inr x"
  by (simp add: of_option_def)

lemma of_option_None [simp]: "of_option e None = Inl e"
  by (simp add: of_option_def)

lemma require_eq_Inr [res_simps]: "require c e k = Inr v \<longleftrightarrow> c \<and> k = Inr v"
  by (simp add: require_def)

lemma bindE_eq_Inr [res_simps]: "bindE m f = Inr v \<longleftrightarrow> (\<exists>x. m = Inr x \<and> f x = Inr v)"
  by (cases m) auto

lemma reraise_eq_Inr [res_simps]: "reraise c e m = Inr v \<longleftrightarrow> m = Inr v"
  by (cases m) (auto simp: reraise_def)

lemma of_option_eq_Inr [res_simps]: "of_option e m = Inr v \<longleftrightarrow> m = Some v"
  by (cases m) auto

lemma returns_iff: "returns m \<longleftrightarrow> (\<exists>v. m = Inr v)"
  by (cases m) (auto simp: returns_def)

lemma returns_Inr [simp]: "returns (Inr v)"
  by (simp add: returns_def)

lemma returns_Inl [simp]: "\<not> returns (Inl e)"
  by (simp add: returns_def)

lemma for_each_append:
  "for_each f s (xs @ ys) = bindE (for_each f s xs) (\<lambda>s'. for_each f s' ys)"
proof (induction xs arbitrary: s)
  case Nil
  show ?case by simp
next
  case (Cons x xs)
  show ?case
    by (cases "f s x") (simp_all add: Cons.IH)
qed

text \<open>The loop rule: an invariant indexed by the elements already consumed.\<close>

lemma for_each_inv:
  assumes "for_each f s xs = Inr s'" and "I [] s"
    and "\<And>done x t t'. I done t \<Longrightarrow> f t x = Inr t' \<Longrightarrow> x \<in> set xs \<Longrightarrow> I (done @ [x]) t'"
  shows "I xs s'"
proof -
  have "I (pre @ xs) s'"
    if "for_each f s xs = Inr s'" "I pre s"
      and "\<And>done x t t'. I done t \<Longrightarrow> f t x = Inr t' \<Longrightarrow> x \<in> set xs \<Longrightarrow> I (done @ [x]) t'" for pre
    using that
  proof (induction xs arbitrary: pre s)
    case Nil
    then show ?case by simp
  next
    case (Cons x xs)
    then obtain t where t: "f s x = Inr t" and rest: "for_each f t xs = Inr s'"
      by (auto simp: res_simps)
    have "I (pre @ [x]) t"
      using Cons.prems(2,3) t by simp
    then have "I ((pre @ [x]) @ xs) s'"
      by (rule Cons.IH [OF rest]) (auto intro: Cons.prems(3))
    then show ?case by simp
  qed
  from this [of "[]"] assms show ?thesis by simp
qed

lemma list_all2_in_set2: "list_all2 P xs ys \<Longrightarrow> y \<in> set ys \<Longrightarrow> \<exists>x \<in> set xs. P x y"
  by (induction xs ys rule: list_all2_induct) auto

subsection \<open>Slices and slice assignment\<close>

definition pslice :: "'a list \<Rightarrow> nat \<Rightarrow> nat \<Rightarrow> 'a list" where
  "pslice xs a b = drop a (take b xs)"

definition set_slice :: "'a list \<Rightarrow> nat \<Rightarrow> nat \<Rightarrow> 'a list \<Rightarrow> 'a list" where
  "set_slice xs a b ys = take a xs @ ys @ drop (max a b) xs"

lemma length_pslice [simp]: "length (pslice xs a b) = min b (length xs) - a"
  by (auto simp: pslice_def)

lemma nth_pslice: "a + i < b \<Longrightarrow> a + i < length xs \<Longrightarrow> pslice xs a b ! i = xs ! (a + i)"
  by (simp add: pslice_def)

lemma pslice_0 [simp]: "pslice xs 0 b = take b xs"
  by (simp add: pslice_def)

lemma pslice_empty [simp]: "b \<le> a \<Longrightarrow> pslice xs a b = []"
  by (simp add: pslice_def)

lemma pslice_Nil [simp]: "pslice [] a b = []"
  by (simp add: pslice_def)

lemma pslice_whole [simp]: "length xs \<le> b \<Longrightarrow> pslice xs a b = drop a xs"
  by (simp add: pslice_def)

lemma pslice_take: "pslice (take n xs) a b = pslice xs a (min b n)"
  by (simp add: pslice_def)

lemma pslice_drop: "pslice (drop n xs) a b = pslice xs (n + a) (n + b)"
  by (simp add: pslice_def take_drop add.commute)

lemma pslice_pslice: "pslice (pslice xs a b) c d = pslice xs (a + c) (min b (a + d))"
  by (simp add: pslice_def take_drop add.commute min.commute)

lemma take_eq_append_pslice: "b \<le> c \<Longrightarrow> take c xs = take b xs @ pslice xs b c"
  using append_take_drop_id [of b "take c xs"] by (simp add: pslice_def min_def)

lemma pslice_join:
  assumes "a \<le> b" "b \<le> c"
  shows "pslice xs a b @ pslice xs b c = pslice xs a c"
proof (cases "a \<le> length xs")
  case True
  then have "a \<le> length (take b xs)"
    using assms by simp
  then show ?thesis
    using assms(2) by (simp add: pslice_def [of xs a] take_eq_append_pslice [of b c])
qed (use assms in \<open>simp add: pslice_def\<close>)

lemma pslice_drop_join: "a \<le> b \<Longrightarrow> pslice xs a b @ drop b xs = drop a xs"
  using pslice_join [of a b "max b (length xs)" xs] by simp

lemma pslice_append_left [slice_simps]: "b \<le> length xs \<Longrightarrow> pslice (xs @ ys) a b = pslice xs a b"
  by (simp add: pslice_def)

lemma pslice_append_right [slice_simps]:
  "length xs \<le> a \<Longrightarrow> pslice (xs @ ys) a b = pslice ys (a - length xs) (b - length xs)"
  by (cases "length xs \<le> b") (simp_all add: pslice_def)

lemma pslice_Cons [slice_simps]:
  "0 < a \<Longrightarrow> 0 < b \<Longrightarrow> pslice (x # xs) a b = pslice xs (a - 1) (b - 1)"
  by (simp add: pslice_def drop_Cons' take_Cons')

lemma pslice_replicate [slice_simps]: "pslice (replicate n x) a b = replicate (min b n - a) x"
  by (simp add: pslice_def)

lemma length_set_slice:
  "a \<le> b \<Longrightarrow> b \<le> length xs \<Longrightarrow> length ys = b - a \<Longrightarrow> length (set_slice xs a b ys) = length xs"
  by (simp add: set_slice_def)

lemma pslice_set_slice_same:
  "a \<le> length xs \<Longrightarrow> length ys = b - a \<Longrightarrow> pslice (set_slice xs a b ys) a b = ys"
  by (cases "a \<le> b") (simp_all add: pslice_def set_slice_def)

lemma pslice_set_slice_below:
  "d \<le> a \<Longrightarrow> a \<le> length xs \<Longrightarrow> pslice (set_slice xs a b ys) c d = pslice xs c d"
  by (simp add: pslice_def set_slice_def min_def)

lemma pslice_set_slice_above:
  assumes "a \<le> b" "b \<le> c" "b \<le> length xs" "length ys = b - a"
  shows "pslice (set_slice xs a b ys) c d = pslice xs c d"
proof (cases "c \<le> d")
  case True
  have "drop c (set_slice xs a b ys) = drop c xs"
    using assms by (simp add: set_slice_def)
  moreover have "pslice zs c d = take (d - c) (drop c zs)" for zs :: "'a list"
    using True by (simp add: pslice_def drop_take)
  ultimately show ?thesis by simp
qed simp

subsection \<open>A memory read and written by regions\<close>

text \<open>
  What a client of a flash image relies on: a write to \<open>[a, b)\<close> is read back, leaves every
  disjoint region alone and keeps the size.  The client's lemmas are about a whole sequence of
  writes: a region no write touches keeps its bytes, and a region reads back the last write to it.
\<close>

locale region_memory =
  fixes rd :: "'m \<Rightarrow> nat \<Rightarrow> nat \<Rightarrow> 'v list"
    and wr :: "'m \<Rightarrow> nat \<Rightarrow> nat \<Rightarrow> 'v list \<Rightarrow> 'm"
    and size :: "'m \<Rightarrow> nat"
  assumes rd_wr_same: "a \<le> b \<Longrightarrow> b \<le> size m \<Longrightarrow> length ys = b - a \<Longrightarrow> rd (wr m a b ys) a b = ys"
    and rd_wr_other: "a \<le> b \<Longrightarrow> b \<le> size m \<Longrightarrow> length ys = b - a \<Longrightarrow> d \<le> a \<or> b \<le> c \<Longrightarrow>
      rd (wr m a b ys) c d = rd m c d"
    and size_wr: "a \<le> b \<Longrightarrow> b \<le> size m \<Longrightarrow> length ys = b - a \<Longrightarrow> size (wr m a b ys) = size m"
begin

lemma size_writes:
  assumes "list_all (\<lambda>(a, b, ys). a \<le> b \<and> b \<le> size m \<and> length ys = b - a) ws"
  shows "size (foldl (\<lambda>m (a, b, ys). wr m a b ys) m ws) = size m"
  using assms by (induction ws arbitrary: m) (auto simp: size_wr split: prod.splits)

lemma rd_writes_other:
  assumes "list_all (\<lambda>(a, b, ys). a \<le> b \<and> b \<le> size m \<and> length ys = b - a \<and> (d \<le> a \<or> b \<le> c)) ws"
  shows "rd (foldl (\<lambda>m (a, b, ys). wr m a b ys) m ws) c d = rd m c d"
  using assms by (induction ws arbitrary: m) (auto simp: size_wr rd_wr_other split: prod.splits)

lemma rd_writes_last:
  assumes "list_all (\<lambda>(a, b, ys). a \<le> b \<and> b \<le> size m \<and> length ys = b - a) (us @ [(c, d, zs)])"
    and "list_all (\<lambda>(a, b, ys). a \<le> b \<and> b \<le> size m \<and> length ys = b - a \<and> (d \<le> a \<or> b \<le> c)) vs"
  shows "rd (foldl (\<lambda>m (a, b, ys). wr m a b ys) m (us @ (c, d, zs) # vs)) c d = zs"
proof -
  let ?n = "foldl (\<lambda>m (a, b, ys). wr m a b ys) m us"
  let ?n' = "wr ?n c d zs"
  have n: "size ?n = size m"
    using assms(1) by (intro size_writes) auto
  with assms(1) have n': "size ?n' = size m" and zs: "rd ?n' c d = zs"
    by (simp_all add: size_wr rd_wr_same)
  from assms(2) n' have "rd (foldl (\<lambda>m (a, b, ys). wr m a b ys) ?n' vs) c d = rd ?n' c d"
    by (intro rd_writes_other) simp
  with zs show ?thesis by simp
qed

end

interpretation flash: region_memory pslice set_slice length
proof (unfold_locales, goal_cases)
  case 1
  then show ?case by (simp add: pslice_set_slice_same)
next
  case 2
  then show ?case by (auto simp: pslice_set_slice_below pslice_set_slice_above)
next
  case 3
  then show ?case by (simp add: length_set_slice)
qed

end
