(* ===== verification/Octets.thy ===== *)
theory Octets
  imports Prelude
begin

text \<open>
  Byte strings (\<^verbatim>\<open>bytes\<close>) as lists of 8-bit words and Python text (\<^verbatim>\<open>str\<close>) as lists of code
  points, with the conversions of the language the tools use: \<^verbatim>\<open>int.from_bytes\<close> and
  \<^verbatim>\<open>int.to_bytes\<close> in both byte orders, \<^verbatim>\<open>bytes.hex\<close>, and the \<^verbatim>\<open>ascii\<close>, \<^verbatim>\<open>latin1\<close> and strict
  \<^verbatim>\<open>utf-8\<close> codecs.  The interface \<open>byte_codec\<close> states what a client of an encoding relies on;
  it is interpreted on every codec of this theory.
\<close>

type_synonym bytes = "8 word list"
type_synonym pystr = "nat list"

definition ascii :: "string \<Rightarrow> bytes" where
  "ascii s = map of_char s"

definition str :: "string \<Rightarrow> pystr" where
  "str s = map of_char s"

lemma length_ascii [simp]: "length (ascii s) = length s"
  by (simp add: ascii_def)

lemma length_str [simp]: "length (str s) = length s"
  by (simp add: str_def)

definition any_byte :: "bytes \<Rightarrow> bool" where
  "any_byte bs = list_ex (\<lambda>b. b \<noteq> 0) bs"

definition zeros :: "nat \<Rightarrow> bytes" where
  "zeros n = replicate n 0"

definition erased :: "nat \<Rightarrow> bytes" where
  "erased n = replicate n 0xff"

lemma length_zeros [simp]: "length (zeros n) = n"
  by (simp add: zeros_def)

lemma length_erased [simp]: "length (erased n) = n"
  by (simp add: erased_def)

lemma any_byte_zeros [simp]: "\<not> any_byte (zeros n)"
  by (simp add: any_byte_def zeros_def list_ex_iff)

lemma not_any_byte_iff: "\<not> any_byte bs \<longleftrightarrow> bs = zeros (length bs)"
proof
  assume "\<not> any_byte bs"
  then have "\<forall>b \<in> set bs. b = 0"
    by (simp add: any_byte_def list_ex_iff)
  then show "bs = zeros (length bs)"
    by (simp add: zeros_def replicate_length_same)
next
  assume "bs = zeros (length bs)"
  then show "\<not> any_byte bs"
    by (metis any_byte_zeros)
qed

subsection \<open>Codecs\<close>

text \<open>
  \<open>enc\<close> may refuse a value (\<open>OverflowError\<close>, \<open>UnicodeEncodeError\<close>) and \<open>dec\<close> may refuse a byte
  string; each undoes the other where it succeeds.
\<close>

locale byte_codec =
  fixes enc :: "'a \<Rightarrow> bytes option"
    and dec :: "bytes \<Rightarrow> 'a option"
  assumes dec_enc: "enc v = Some bs \<Longrightarrow> dec bs = Some v"
    and enc_dec: "dec bs = Some v \<Longrightarrow> enc v = Some bs"
begin

lemma enc_inj: "enc v = Some bs \<Longrightarrow> enc w = Some bs \<Longrightarrow> v = w"
  using dec_enc [of v] dec_enc [of w] by simp

lemma dec_inj: "dec bs = Some v \<Longrightarrow> dec cs = Some v \<Longrightarrow> bs = cs"
  using enc_dec [of bs] enc_dec [of cs] by simp

lemma accepts_iff: "(\<exists>v. dec bs = Some v) \<longleftrightarrow> (\<exists>v. enc v = Some bs)"
  using dec_enc enc_dec by blast

end

locale fixed_codec = byte_codec +
  fixes width :: nat
  assumes width: "enc v = Some bs \<Longrightarrow> length bs = width"
begin

text \<open>Two records whose first field has a fixed width agree only if the field and the rest do.\<close>

lemma field_inj:
  assumes "enc v = Some bs" "enc w = Some cs" "bs @ r = cs @ s"
  shows "v = w \<and> r = s"
  using assms width enc_inj by (metis append_eq_append_conv)

lemma split_field: "enc v = Some bs \<Longrightarrow> dec (take width (bs @ r)) = Some v \<and> drop width (bs @ r) = r"
  using width dec_enc by auto

end

subsection \<open>Integers in little- and big-endian order\<close>

fun from_le :: "bytes \<Rightarrow> nat" where
  "from_le [] = 0"
| "from_le (b # bs) = unat b + 256 * from_le bs"

fun to_le :: "nat \<Rightarrow> nat \<Rightarrow> bytes" where
  "to_le 0 v = []"
| "to_le (Suc n) v = word_of_nat v # to_le n (v div 256)"

definition from_be :: "bytes \<Rightarrow> nat" where
  "from_be bs = from_le (rev bs)"

definition to_be :: "nat \<Rightarrow> nat \<Rightarrow> bytes" where
  "to_be n v = rev (to_le n v)"

text \<open>The checked conversions: \<^verbatim>\<open>to_bytes\<close> overflows beyond the width, and a field of a fixed width
  is read from exactly that many bytes.\<close>

definition to_le_opt :: "nat \<Rightarrow> nat \<Rightarrow> bytes option" where
  "to_le_opt n v = (if v < 256 ^ n then Some (to_le n v) else None)"

definition from_le_opt :: "nat \<Rightarrow> bytes \<Rightarrow> nat option" where
  "from_le_opt n bs = (if length bs = n then Some (from_le bs) else None)"

definition to_be_opt :: "nat \<Rightarrow> nat \<Rightarrow> bytes option" where
  "to_be_opt n v = (if v < 256 ^ n then Some (to_be n v) else None)"

definition from_be_opt :: "nat \<Rightarrow> bytes \<Rightarrow> nat option" where
  "from_be_opt n bs = (if length bs = n then Some (from_be bs) else None)"

lemma length_to_le [simp]: "length (to_le n v) = n"
  by (induction n arbitrary: v) auto

lemma length_to_be [simp]: "length (to_be n v) = n"
  by (simp add: to_be_def)

lemma unat_byte_less: "unat (b :: 8 word) < 256"
  using unsigned_less [of b, where ?'a = nat] by simp

lemma from_le_less: "from_le bs < 256 ^ length bs"
proof (induction bs)
  case (Cons b bs)
  have "unat b < 256"
    by (rule unat_byte_less)
  with Cons show ?case
    by simp
qed simp

lemma from_le_to_le: "v < 256 ^ n \<Longrightarrow> from_le (to_le n v) = v"
proof (induction n arbitrary: v)
  case (Suc n)
  have "unat (word_of_nat v :: 8 word) = v mod 256"
    by (simp add: unat_of_nat)
  moreover have "v div 256 < 256 ^ n"
    using Suc.prems by (simp add: less_mult_imp_div_less mult.commute)
  ultimately show ?case
    using Suc.IH by simp
qed simp

lemma to_le_from_le: "to_le (length bs) (from_le bs) = bs"
proof (induction bs)
  case (Cons b bs)
  have "(unat b + 256 * from_le bs) div 256 = from_le bs"
    using unat_byte_less [of b] by simp
  moreover have "word_of_nat (256 * from_le bs) = (0 :: 8 word)"
    by (simp del: of_nat_mult add: word_of_nat_eq_0_iff)
  then have "word_of_nat (unat b + 256 * from_le bs) = b"
    by (simp del: of_nat_mult)
  ultimately show ?case
    using Cons.IH by simp
qed simp

lemma from_be_to_be: "v < 256 ^ n \<Longrightarrow> from_be (to_be n v) = v"
  by (simp add: from_be_def to_be_def from_le_to_le)

lemma to_be_from_be: "to_be (length bs) (from_be bs) = bs"
  using to_le_from_le [of "rev bs"] by (simp add: from_be_def to_be_def rev_swap)

interpretation le: fixed_codec "to_le_opt n" "from_le_opt n" n for n
  by unfold_locales
    (auto simp: to_le_opt_def from_le_opt_def from_le_to_le to_le_from_le from_le_less
      split: if_splits)

interpretation be: fixed_codec "to_be_opt n" "from_be_opt n" n for n
proof unfold_locales
  show "to_be_opt n v = Some bs \<Longrightarrow> from_be_opt n bs = Some v" for v bs
    by (auto simp: to_be_opt_def from_be_opt_def from_be_to_be split: if_splits)
  show "from_be_opt n bs = Some v \<Longrightarrow> to_be_opt n v = Some bs" for v bs
    using from_le_less [of "rev bs"] to_be_from_be [of bs]
    by (auto simp: to_be_opt_def from_be_opt_def from_be_def split: if_splits)
  show "to_be_opt n v = Some bs \<Longrightarrow> length bs = n" for v bs
    by (auto simp: to_be_opt_def split: if_splits)
qed

lemma from_le_zeros [simp]: "from_le (zeros n) = 0"
  by (induction n) (simp_all add: zeros_def)

subsection \<open>Hexadecimal text\<close>

definition hex_digit :: "nat \<Rightarrow> nat" where
  "hex_digit d = (if d < 10 then 48 + d else 87 + d)"

definition hex :: "bytes \<Rightarrow> pystr" where
  "hex bs = concat (map (\<lambda>b. [hex_digit (unat b div 16), hex_digit (unat b mod 16)]) bs)"

definition is_lower_hex :: "nat \<Rightarrow> bool" where
  "is_lower_hex c = (48 \<le> c \<and> c \<le> 57 \<or> 97 \<le> c \<and> c \<le> 102)"

definition hex_value :: "nat \<Rightarrow> nat option" where
  "hex_value c = (if 48 \<le> c \<and> c \<le> 57 then Some (c - 48)
                  else if 97 \<le> c \<and> c \<le> 102 then Some (c - 87) else None)"

text \<open>\<^verbatim>\<open>bytes.fromhex\<close> on lower-case text without blanks, the only text the tools pass to it.\<close>

fun unhex :: "pystr \<Rightarrow> bytes option" where
  "unhex [] = Some []"
| "unhex [c] = None"
| "unhex (c # d # cs) =
     (case (hex_value c, hex_value d, unhex cs) of
        (Some x, Some y, Some bs) \<Rightarrow> Some (word_of_nat (16 * x + y) # bs)
      | _ \<Rightarrow> None)"

lemma length_hex [simp]: "length (hex bs) = 2 * length bs"
  by (induction bs) (simp_all add: hex_def)

lemma hex_Nil [simp]: "hex [] = []"
  by (simp add: hex_def)

lemma hex_Cons [simp]:
  "hex (b # bs) = hex_digit (unat b div 16) # hex_digit (unat b mod 16) # hex bs"
  by (simp add: hex_def)

lemma hex_value_digit [simp]: "d < 16 \<Longrightarrow> hex_value (hex_digit d) = Some d"
  by (auto simp: hex_value_def hex_digit_def)

lemma hex_digit_value: "hex_value c = Some d \<Longrightarrow> d < 16 \<and> hex_digit d = c"
  by (auto simp: hex_value_def hex_digit_def split: if_splits)

lemma is_lower_hex_digit: "d < 16 \<Longrightarrow> is_lower_hex (hex_digit d)"
  by (auto simp: is_lower_hex_def hex_digit_def)

lemma hex_lower: "c \<in> set (hex bs) \<Longrightarrow> is_lower_hex c"
  using unat_byte_less by (induction bs) (auto intro!: is_lower_hex_digit simp: less_mult_imp_div_less)

lemma unhex_hex: "unhex (hex bs) = Some bs"
proof (induction bs)
  case (Cons b bs)
  have "unat b div 16 < 16"
    using unat_byte_less [of b] by simp
  moreover have "word_of_nat (16 * (unat b div 16) + unat b mod 16) = b"
    by (simp only: mult_div_mod_eq) simp
  ultimately show ?case
    using Cons.IH by (simp del: of_nat_add of_nat_mult)
qed simp

lemma hex_unhex: "unhex cs = Some bs \<Longrightarrow> hex bs = cs"
proof (induction cs arbitrary: bs rule: unhex.induct)
  case (3 c d cs)
  then obtain x y r where *: "hex_value c = Some x" "hex_value d = Some y" "unhex cs = Some r"
    and bs: "bs = word_of_nat (16 * x + y) # r"
    by (auto split: option.splits)
  then have "x < 16" "y < 16" "hex_digit x = c" "hex_digit y = d"
    by (simp_all add: hex_digit_value)
  moreover from this have "unat (word_of_nat (16 * x + y) :: 8 word) = 16 * x + y"
    by (simp add: unat_of_nat take_bit_eq_mod del: of_nat_add of_nat_mult)
  ultimately show ?case
    using 3 * bs by (simp del: of_nat_add of_nat_mult)
qed auto

subsection \<open>Text codecs\<close>

definition ascii_encode :: "pystr \<Rightarrow> bytes option" where
  "ascii_encode cs = (if list_all (\<lambda>c. c < 128) cs then Some (map word_of_nat cs) else None)"

definition ascii_decode :: "bytes \<Rightarrow> pystr option" where
  "ascii_decode bs = (if list_all (\<lambda>b. unat b < 128) bs then Some (map unat bs) else None)"

definition latin1_decode :: "bytes \<Rightarrow> pystr" where
  "latin1_decode bs = map unat bs"

text \<open>Strict UTF-8 as Python has it: no overlong forms, no surrogates, nothing past U+10FFFF.\<close>

definition utf8_encode1 :: "nat \<Rightarrow> bytes option" where
  "utf8_encode1 c =
     (if c < 0x80 then Some [word_of_nat c]
      else if c < 0x800 then Some [word_of_nat (0xC0 + c div 0x40), word_of_nat (0x80 + c mod 0x40)]
      else if 0xD800 \<le> c \<and> c \<le> 0xDFFF then None
      else if c < 0x10000 then
        Some [word_of_nat (0xE0 + c div 0x1000), word_of_nat (0x80 + c div 0x40 mod 0x40),
              word_of_nat (0x80 + c mod 0x40)]
      else if c < 0x110000 then
        Some [word_of_nat (0xF0 + c div 0x40000), word_of_nat (0x80 + c div 0x1000 mod 0x40),
              word_of_nat (0x80 + c div 0x40 mod 0x40), word_of_nat (0x80 + c mod 0x40)]
      else None)"

fun utf8_encode :: "pystr \<Rightarrow> bytes option" where
  "utf8_encode [] = Some []"
| "utf8_encode (c # cs) =
     (case (utf8_encode1 c, utf8_encode cs) of (Some b, Some bs) \<Rightarrow> Some (b @ bs) | _ \<Rightarrow> None)"

definition cont :: "8 word \<Rightarrow> bool" where
  "cont b = (0x80 \<le> unat b \<and> unat b < 0xC0)"

text \<open>The code point at the front and the bytes left, or \<open>None\<close> where the decoder raises.\<close>

definition utf8_decode1 :: "bytes \<Rightarrow> (nat \<times> bytes) option" where
  "utf8_decode1 bs = (case bs of
      [] \<Rightarrow> None
    | b # r \<Rightarrow>
       (if unat b < 0x80 then Some (unat b, r)
        else if unat b < 0xC2 then None
        else if unat b < 0xE0 then
          (case r of c1 # r' \<Rightarrow>
             if cont c1 then Some ((unat b - 0xC0) * 0x40 + (unat c1 - 0x80), r') else None
           | _ \<Rightarrow> None)
        else if unat b < 0xF0 then
          (case r of c1 # c2 # r' \<Rightarrow>
             (let c = (unat b - 0xE0) * 0x1000 + (unat c1 - 0x80) * 0x40 + (unat c2 - 0x80)
              in if cont c1 \<and> cont c2 \<and> 0x800 \<le> c \<and> \<not> (0xD800 \<le> c \<and> c \<le> 0xDFFF)
                 then Some (c, r') else None)
           | _ \<Rightarrow> None)
        else if unat b < 0xF5 then
          (case r of c1 # c2 # c3 # r' \<Rightarrow>
             (let c = (unat b - 0xF0) * 0x40000 + (unat c1 - 0x80) * 0x1000
                      + (unat c2 - 0x80) * 0x40 + (unat c3 - 0x80)
              in if cont c1 \<and> cont c2 \<and> cont c3 \<and> 0x10000 \<le> c \<and> c < 0x110000
                 then Some (c, r') else None)
           | _ \<Rightarrow> None)
        else None))"

lemma utf8_decode1_shorter: "utf8_decode1 bs = Some (c, r) \<Longrightarrow> length r < length bs"
  by (auto simp: utf8_decode1_def Let_def split: list.splits if_splits)

function utf8_decode :: "bytes \<Rightarrow> pystr option" where
  "utf8_decode bs = (if bs = [] then Some [] else
     (case utf8_decode1 bs of
        None \<Rightarrow> None
      | Some (c, r) \<Rightarrow> (case utf8_decode r of None \<Rightarrow> None | Some cs \<Rightarrow> Some (c # cs))))"
  by pat_completeness auto
termination
  by (relation "measure length") (auto dest: utf8_decode1_shorter)

declare utf8_decode.simps [simp del]

lemma utf8_decode_Nil [simp]: "utf8_decode [] = Some []"
  by (simp add: utf8_decode.simps)

lemma unat_byte_of_nat: "n < 256 \<Longrightarrow> unat (word_of_nat n :: 8 word) = n"
  by (simp add: unat_of_nat take_bit_eq_mod)

lemma div64_digits: "c div 0x1000 * 0x1000 + c div 0x40 mod 0x40 * 0x40 + c mod 0x40 = (c :: nat)"
proof -
  have "c div 0x1000 * 0x1000 = c div 0x40 div 0x40 * 0x40 * 0x40"
    by (simp add: div_mult2_eq [symmetric])
  then have "c div 0x1000 * 0x1000 + c div 0x40 mod 0x40 * 0x40
      = (c div 0x40 div 0x40 * 0x40 + c div 0x40 mod 0x40) * 0x40"
    by (simp only: add_mult_distrib)
  then show ?thesis
    by (simp only: div_mult_mod_eq)
qed

lemma div64_digits3:
  "c div 0x40000 * 0x40000 + c div 0x1000 mod 0x40 * 0x1000 + c div 0x40 mod 0x40 * 0x40 + c mod 0x40
     = (c :: nat)"
proof -
  have "c div 0x40000 * 0x40000 = c div 0x1000 div 0x40 * 0x40 * 0x1000"
    by (simp add: div_mult2_eq [symmetric])
  then have "c div 0x40000 * 0x40000 + c div 0x1000 mod 0x40 * 0x1000 = c div 0x1000 * 0x1000"
    by (simp only: add_mult_distrib [symmetric] div_mult_mod_eq)
  then show ?thesis
    by (simp only: div64_digits)
qed

lemma div_mod_digit: "y < 0x40 \<Longrightarrow> c = q * 0x40 + y \<Longrightarrow> c div 0x40 = q \<and> c mod 0x40 = (y :: nat)"
  by simp

lemma cont_digit: "cont b \<Longrightarrow> \<exists>y < 0x40. unat b = 0x80 + y"
  by (auto simp: cont_def intro!: exI [of _ "unat b - 0x80"])

lemma utf8_decode1_encode1:
  assumes "utf8_encode1 c = Some bs"
  shows "utf8_decode1 (bs @ r) = Some (c, r)"
proof -
  consider "c < 0x80" | "0x80 \<le> c" "c < 0x800" | "0x800 \<le> c" "c < 0x10000" "\<not> (0xD800 \<le> c \<and> c \<le> 0xDFFF)"
    | "0x10000 \<le> c" "c < 0x110000"
    using assms by (auto simp: utf8_encode1_def split: if_splits)
  then show ?thesis
  proof cases
    case 1
    with assms show ?thesis
      by (auto simp: utf8_encode1_def utf8_decode1_def unat_byte_of_nat)
  next
    case 2
    then have bs: "bs = [word_of_nat (0xC0 + c div 0x40), word_of_nat (0x80 + c mod 0x40)]"
      using assms by (auto simp: utf8_encode1_def)
    have "0xC0 + c div 0x40 < 256" "0x80 + c mod 0x40 < 256" "0xC2 \<le> 0xC0 + c div 0x40"
      "0xC0 + c div 0x40 < 0xE0"
      using 2 by auto
    then show ?thesis
      unfolding bs by (simp add: utf8_decode1_def cont_def unat_byte_of_nat del: of_nat_add)
  next
    case 3
    then have bs: "bs = [word_of_nat (0xE0 + c div 0x1000), word_of_nat (0x80 + c div 0x40 mod 0x40),
              word_of_nat (0x80 + c mod 0x40)]"
      using assms by (auto simp: utf8_encode1_def)
    have "0xE0 + c div 0x1000 < 0xF0" "0x80 + c div 0x40 mod 0x40 < 256" "0x80 + c mod 0x40 < 256"
      using 3 by (auto simp: less_mult_imp_div_less)
    then show ?thesis
      unfolding bs using 3 by (simp add: utf8_decode1_def div64_digits cont_def unat_byte_of_nat del: of_nat_add)
  next
    case 4
    then have bs: "bs = [word_of_nat (0xF0 + c div 0x40000), word_of_nat (0x80 + c div 0x1000 mod 0x40),
              word_of_nat (0x80 + c div 0x40 mod 0x40), word_of_nat (0x80 + c mod 0x40)]"
      using assms by (auto simp: utf8_encode1_def)
    have "0xF0 + c div 0x40000 < 0xF5" "0x80 + c div 0x1000 mod 0x40 < 256"
      "0x80 + c div 0x40 mod 0x40 < 256" "0x80 + c mod 0x40 < 256"
      using 4 by auto
    then show ?thesis
      unfolding bs using 4 by (simp add: utf8_decode1_def div64_digits3 cont_def unat_byte_of_nat del: of_nat_add)
  qed
qed

lemma ascii_byte_of_nat: "n < 128 \<Longrightarrow> unat (word_of_nat n :: 8 word) = n"
  by (simp add: unat_byte_of_nat)

lemma byte_of_nat_unat: "unat b = n \<Longrightarrow> word_of_nat n = (b :: 8 word)"
  by auto

lemma utf8_encode1_decode1:
  assumes "utf8_decode1 bs = Some (c, r)"
  shows "\<exists>b. utf8_encode1 c = Some b \<and> bs = b @ r"
proof -
  from assms obtain b q where bs: "bs = b # q"
    by (auto simp: utf8_decode1_def split: list.splits)
  consider "unat b < 0x80" | "0xC2 \<le> unat b" "unat b < 0xE0" | "0xE0 \<le> unat b" "unat b < 0xF0"
    | "0xF0 \<le> unat b" "unat b < 0xF5"
    using assms bs by (auto simp: utf8_decode1_def split: if_splits)
  then show ?thesis
  proof cases
    case 1
    with assms bs show ?thesis
      by (auto simp: utf8_encode1_def utf8_decode1_def)
  next
    case 2
    with assms bs obtain c1 where q: "q = c1 # r" and c1: "cont c1"
      and c: "c = (unat b - 0xC0) * 0x40 + (unat c1 - 0x80)"
      by (auto simp: utf8_decode1_def split: list.splits if_splits)
    obtain y where y: "y < 0x40" "unat c1 = 0x80 + y"
      using cont_digit [OF c1] by blast
    with c have "c = (unat b - 0xC0) * 0x40 + y" by simp
    with 2 y have "word_of_nat (0xC0 + c div 0x40) = b" "word_of_nat (0x80 + c mod 0x40) = c1"
      "0x80 \<le> c" "c < 0x800"
      by (auto intro!: byte_of_nat_unat simp del: of_nat_add)
    then show ?thesis
      unfolding bs q by (simp add: utf8_encode1_def del: of_nat_add)
  next
    case 3
    with assms bs obtain c1 c2 where q: "q = c1 # c2 # r" and c12: "cont c1" "cont c2"
      and c: "c = (unat b - 0xE0) * 0x1000 + (unat c1 - 0x80) * 0x40 + (unat c2 - 0x80)"
      and rng: "0x800 \<le> c" "\<not> (0xD800 \<le> c \<and> c \<le> 0xDFFF)"
      by (auto simp: utf8_decode1_def Let_def split: list.splits if_splits)
    obtain x y where y: "x < 0x40" "unat c1 = 0x80 + x" "y < 0x40" "unat c2 = 0x80 + y"
      using c12 [THEN cont_digit] by blast
    with c have c': "c = (unat b - 0xE0) * 0x1000 + x * 0x40 + y" by simp
    with y have d: "c div 0x1000 = unat b - 0xE0" "c div 0x40 = (unat b - 0xE0) * 0x40 + x" "c mod 0x40 = y"
      by (simp_all add: mod_add_eq [symmetric] mod_mult_eq [symmetric])
    with 3 y c' have "word_of_nat (0xE0 + c div 0x1000) = b" "word_of_nat (0x80 + c div 0x40 mod 0x40) = c1"
      "word_of_nat (0x80 + c mod 0x40) = c2" "c < 0x10000"
      unfolding d by (auto intro!: byte_of_nat_unat simp del: of_nat_add)
    then show ?thesis
      unfolding bs q using rng by (simp add: utf8_encode1_def del: of_nat_add)
  next
    case 4
    with assms bs obtain c1 c2 c3 where q: "q = c1 # c2 # c3 # r" and c123: "cont c1" "cont c2" "cont c3"
      and c: "c = (unat b - 0xF0) * 0x40000 + (unat c1 - 0x80) * 0x1000
                      + (unat c2 - 0x80) * 0x40 + (unat c3 - 0x80)"
      and rng: "0x10000 \<le> c" "c < 0x110000"
      by (auto simp: utf8_decode1_def Let_def split: list.splits if_splits)
    obtain x y z where y: "x < 0x40" "unat c1 = 0x80 + x" "y < 0x40" "unat c2 = 0x80 + y"
      "z < 0x40" "unat c3 = 0x80 + z"
      using c123 [THEN cont_digit] by blast
    with c have c': "c = (unat b - 0xF0) * 0x40000 + x * 0x1000 + y * 0x40 + z" by simp
    have "c = (((unat b - 0xF0) * 0x40 + x) * 0x40 + y) * 0x40 + z"
      using c' by simp
    then have d64: "c div 0x40 = ((unat b - 0xF0) * 0x40 + x) * 0x40 + y" and "c mod 0x40 = z"
      using div_mod_digit [OF y(5)] by blast+
    have d4096: "c div 0x1000 = (unat b - 0xF0) * 0x40 + x"
      using div_mod_digit [OF y(3) d64] by (simp add: div_mult2_eq [symmetric])
    have "c div 0x40000 = unat b - 0xF0"
      using div_mod_digit [OF y(1) d4096] by (simp add: div_mult2_eq [symmetric])
    moreover have "c div 0x40 mod 0x40 = y" "c div 0x1000 mod 0x40 = x"
      using div_mod_digit [OF y(3) d64] div_mod_digit [OF y(1) d4096] by blast+
    ultimately have d: "c div 0x40000 = unat b - 0xF0" "c div 0x40 mod 0x40 = y"
      "c div 0x1000 mod 0x40 = x" "c mod 0x40 = z"
      using \<open>c mod 0x40 = z\<close> by blast+
    with 4 y have "word_of_nat (0xF0 + c div 0x40000) = b" "word_of_nat (0x80 + c div 0x1000 mod 0x40) = c1"
      "word_of_nat (0x80 + c div 0x40 mod 0x40) = c2" "word_of_nat (0x80 + c mod 0x40) = c3"
      unfolding d by (auto intro!: byte_of_nat_unat simp del: of_nat_add)
    then show ?thesis
      unfolding bs q using rng by (simp add: utf8_encode1_def del: of_nat_add)
  qed
qed

lemma utf8_decode_append1:
  "utf8_decode1 bs = Some (c, r) \<Longrightarrow> utf8_decode r = Some cs \<Longrightarrow> utf8_decode bs = Some (c # cs)"
  by (subst utf8_decode.simps) (auto simp: utf8_decode1_def)

lemma utf8_decode_encode: "utf8_encode cs = Some bs \<Longrightarrow> utf8_decode bs = Some cs"
proof (induction cs arbitrary: bs)
  case (Cons c cs)
  then show ?case
    by (auto split: option.splits intro: utf8_decode_append1 utf8_decode1_encode1)
qed simp

lemma utf8_encode_decode: "utf8_decode bs = Some cs \<Longrightarrow> utf8_encode cs = Some bs"
proof (induction bs arbitrary: cs rule: utf8_decode.induct)
  case (1 bs)
  show ?case
  proof (cases "bs = []")
    case False
    with "1.prems" obtain c r cs' where d: "utf8_decode1 bs = Some (c, r)"
      and "utf8_decode r = Some cs'" "cs = c # cs'"
      by (subst (asm) utf8_decode.simps) (auto split: option.splits)
    moreover obtain b where "utf8_encode1 c = Some b" "bs = b @ r"
      using utf8_encode1_decode1 [OF d] by blast
    ultimately show ?thesis
      using "1.IH" False by auto
  qed (use "1.prems" in simp)
qed

interpretation utf8: byte_codec utf8_encode utf8_decode
  by unfold_locales (erule utf8_decode_encode, erule utf8_encode_decode)

interpretation ascii_text: byte_codec ascii_encode ascii_decode
proof unfold_locales
  show "ascii_encode v = Some bs \<Longrightarrow> ascii_decode bs = Some v" for v bs
    by (auto simp: ascii_encode_def ascii_decode_def list_all_iff ascii_byte_of_nat
        intro!: map_idI split: if_splits)
  show "ascii_decode bs = Some v \<Longrightarrow> ascii_encode v = Some bs" for v bs
    by (auto simp: ascii_encode_def ascii_decode_def list_all_iff intro!: map_idI split: if_splits)
qed

interpretation hex_text: byte_codec unhex "\<lambda>bs. Some (hex bs)"
proof unfold_locales
  show "unhex v = Some bs \<Longrightarrow> Some (hex bs) = Some v" for v bs
    using hex_unhex by blast
  show "Some (hex bs) = Some v \<Longrightarrow> unhex v = Some bs" for v bs
    using unhex_hex by blast
qed

lemma ascii_decode_Nil [simp]: "ascii_decode [] = Some []"
  by (simp add: ascii_decode_def)

lemma length_ascii_decode: "ascii_decode bs = Some cs \<Longrightarrow> length cs = length bs"
  by (auto simp: ascii_decode_def split: if_splits)

lemma ascii_decode_append [simp]:
  "ascii_decode (xs @ ys) =
     (case (ascii_decode xs, ascii_decode ys) of (Some u, Some v) \<Rightarrow> Some (u @ v) | _ \<Rightarrow> None)"
  by (auto simp: ascii_decode_def)

lemma utf8_encode_ascii: "list_all (\<lambda>b. unat b < 128) bs \<Longrightarrow> utf8_encode (map unat bs) = Some bs"
  by (induction bs) (simp_all add: utf8_encode1_def)

lemma map_unat_ascii: "map unat (ascii s) = str s"
proof -
  have "unat (of_char c :: 8 word) = of_char c" for c :: char
  proof -
    have "(of_char c :: nat) < 256" by simp
    then show ?thesis
      using unat_byte_of_nat [of "of_char c"] by (simp add: of_nat_of_char)
  qed
  then show ?thesis
    by (simp add: ascii_def str_def)
qed

lemma utf8_decode_ascii:
  assumes "list_all (\<lambda>c. c < 128) (str s)"
  shows "utf8_decode (ascii s) = Some (str s)"
proof -
  have "list_all (\<lambda>b. unat b < 128) (ascii s)"
    using assms by (simp add: map_unat_ascii [symmetric] list_all_iff)
  then show ?thesis
    using utf8_encode_ascii [of "ascii s"] utf8_decode_encode by (simp add: map_unat_ascii)
qed

end
