(* ===== verification/Python_Values.thy ===== *)
theory Python_Values
  imports Octets
begin

text \<open>
  The dynamically typed values the tools exchange (parsed JSON, configuration objects), with the
  tests Python code makes on them: \<^verbatim>\<open>type(x) is int\<close>, \<^verbatim>\<open>isinstance(x, str)\<close>, the key set of a
  dictionary, subscripts that raise \<^verbatim>\<open>KeyError\<close>; the \<^verbatim>\<open>object_pairs_hook\<close> that refuses duplicate
  keys; and UUID texts.

  A dictionary is an association list in insertion order.  A float is kept as its literal text:
  the tools only ever test that a value is not one.
\<close>

datatype pyval =
    PNone
  | PBool bool
  | PInt int
  | PFloat string
  | PStr pystr
  | PList "pyval list"
  | PDict "(pystr \<times> pyval) list"

definition py_getitem :: "(pystr \<times> 'v) list \<Rightarrow> string \<Rightarrow> 'v res" where
  "py_getitem d k = of_option (Raise KeyError k) (map_of d (str k))"

definition keys_are :: "(pystr \<times> 'v) list \<Rightarrow> string list \<Rightarrow> bool" where
  "keys_are d ks =
     (list_all (\<lambda>k. k \<in> set (map str ks)) (map fst d) \<and>
      list_all (\<lambda>k. k \<in> set (map fst d)) (map str ks))"

lemma keys_are_iff: "keys_are d ks \<longleftrightarrow> set (map fst d) = str ` set ks"
  by (auto simp: keys_are_def list_all_iff)

text \<open>
  \<^verbatim>\<open>unique_object\<close>: the hook \<^verbatim>\<open>json.loads\<close> calls with the pairs of an object, in order; a key
  seen before raises.
\<close>

definition unique_object :: "(pystr \<times> 'v) list \<Rightarrow> (pystr \<times> 'v) list res" where
  "unique_object pairs =
     for_each (\<lambda>value (key, item).
        if key \<in> set (map fst value) then Inl (Raise ValueError ''duplicate JSON field'')
        else Inr (value @ [(key, item)])) [] pairs"

text \<open>Text splitting and search.\<close>

fun split_on :: "'a \<Rightarrow> 'a list \<Rightarrow> 'a list list" where
  "split_on sep [] = [[]]"
| "split_on sep (c # cs) =
     (if c = sep then [] # split_on sep cs
      else (case split_on sep cs of [] \<Rightarrow> [[c]] | w # ws \<Rightarrow> (c # w) # ws))"

fun contains :: "'a list \<Rightarrow> 'a list \<Rightarrow> bool" where
  "contains pat [] = (pat = [])"
| "contains pat (c # cs) = (take (length pat) (c # cs) = pat \<or> contains pat cs)"

definition is_digit :: "nat \<Rightarrow> bool" where
  "is_digit c = (48 \<le> c \<and> c \<le> 57)"

definition is_ascii_letter :: "nat \<Rightarrow> bool" where
  "is_ascii_letter c = (65 \<le> c \<and> c \<le> 90 \<or> 97 \<le> c \<and> c \<le> 122)"

definition is_hex :: "nat \<Rightarrow> bool" where
  "is_hex c = (is_digit c \<or> 97 \<le> c \<and> c \<le> 102 \<or> 65 \<le> c \<and> c \<le> 70)"

text \<open>The decimal text of a number.\<close>

fun decimal :: "nat \<Rightarrow> pystr" where
  "decimal n = (if n < 10 then [48 + n] else decimal (n div 10) @ [48 + n mod 10])"

declare decimal.simps [simp del]

subsection \<open>UUID texts\<close>

text \<open>
  \<^verbatim>\<open>uuid.UUID(text)\<close> drops the dashes and reads 32 hexadecimal digits of either case.  A UUID is
  kept here as its 32 digits, most significant first; \<^verbatim>\<open>str(parsed)\<close> prints them in lower case in
  groups of 8-4-4-4-12, and \<^verbatim>\<open>parsed.version\<close> is the 13th digit when the two top bits of the 17th
  are \<open>10\<close> (the RFC 4122 variant), otherwise \<open>None\<close>.  The further spellings the class accepts (braces,
  an \<^verbatim>\<open>urn:uuid:\<close> prefix, blanks, underscores) never equal the printed form, so the callers, which
  all compare with \<^verbatim>\<open>str(parsed)\<close>, reject them as they reject an unparsable text.
\<close>

definition hex_value_any :: "nat \<Rightarrow> nat option" where
  "hex_value_any c = (if 65 \<le> c \<and> c \<le> 70 then Some (c - 55) else hex_value c)"

definition uuid_parse :: "pystr \<Rightarrow> nat list option" where
  "uuid_parse text =
     (let ds = filter (\<lambda>c. c \<noteq> 45) text
      in if length ds = 32 \<and> list_all (\<lambda>c. hex_value_any c \<noteq> None) ds
         then Some (map (the \<circ> hex_value_any) ds) else None)"

definition uuid_str :: "nat list \<Rightarrow> pystr" where
  "uuid_str ds =
     (let h = map hex_digit ds
      in pslice h 0 8 @ 45 # pslice h 8 12 @ 45 # pslice h 12 16 @ 45 # pslice h 16 20 @ 45 # drop 20 h)"

definition uuid_version :: "nat list \<Rightarrow> nat option" where
  "uuid_version ds = (if ds ! 16 div 4 = 2 then Some (ds ! 12) else None)"

definition canonical_uuid :: "pystr \<Rightarrow> pystr res" where
  "canonical_uuid value = (case uuid_parse value of
      None \<Rightarrow> Inl (Raise ValueError ''badly formed hexadecimal UUID string'')
    | Some parsed \<Rightarrow>
        if uuid_version parsed \<noteq> Some 4 \<or> uuid_str parsed \<noteq> value
        then Inl (Raise ValueError ''not a canonical lower-case UUID v4'')
        else Inr value)"

text \<open>\<^verbatim>\<open>canonical_id\<close> of the serial client additionally accepts only text.\<close>

definition canonical_id :: "pyval \<Rightarrow> pystr res" where
  "canonical_id value = (case value of
      PStr s \<Rightarrow> canonical_uuid s
    | _ \<Rightarrow> Inl (Raise ValueError ''identity is not text''))"

text \<open>The regular expression \<^verbatim>\<open>UUID_V4\<close> as the classes of its 36 positions, matched in full.\<close>

definition uuid_v4_classes :: "(nat \<Rightarrow> bool) list" where
  "uuid_v4_classes =
     replicate 8 is_lower_hex @ [\<lambda>c. c = 45] @ replicate 4 is_lower_hex @ [\<lambda>c. c = 45] @
     [\<lambda>c. c = 52] @ replicate 3 is_lower_hex @ [\<lambda>c. c = 45] @
     [\<lambda>c. c = 56 \<or> c = 57 \<or> c = 97 \<or> c = 98] @ replicate 3 is_lower_hex @ [\<lambda>c. c = 45] @
     replicate 12 is_lower_hex"

definition valid_uuid_text :: "pystr \<Rightarrow> bool" where
  "valid_uuid_text s = list_all2 (\<lambda>p c. p c) uuid_v4_classes s"

subsection \<open>Lemmas\<close>

lemma str_inj_iff: "str a = str b \<longleftrightarrow> a = b"
  by (simp add: str_def inj_map_eq_map inj_def)

lemma py_getitem_eq_Inr [res_simps]: "py_getitem d k = Inr v \<longleftrightarrow> map_of d (str k) = Some v"
  by (simp add: py_getitem_def res_simps)

lemma split_on_not_Nil [simp]: "split_on sep cs \<noteq> []"
  by (induction cs) (auto split: list.splits)

lemma unique_object_distinct:
  "unique_object pairs = Inr d \<longleftrightarrow> distinct (map fst pairs) \<and> d = pairs"
proof -
  have "for_each (\<lambda>value (key, item).
        if key \<in> set (map fst value) then Inl (Raise ValueError ''duplicate JSON field'')
        else Inr (value @ [(key, item)])) acc pairs = Inr d \<longleftrightarrow>
      distinct (map fst pairs) \<and> set (map fst acc) \<inter> set (map fst pairs) = {} \<and> d = acc @ pairs"
    for acc
  proof (induction pairs arbitrary: acc)
    case (Cons p pairs)
    obtain k v where p: "p = (k, v)" by (cases p)
    show ?case
      by (cases "k \<in> set (map fst acc)") (auto simp: p Cons.IH [simplified])
  qed auto
  from this [of "[]"] show ?thesis
    by (simp add: unique_object_def)
qed

subsection \<open>The two UUID checks agree\<close>

lemma list_all2_replicate_iff:
  "list_all2 (\<lambda>p c. p c) (replicate n P) xs \<longleftrightarrow> length xs = n \<and> list_all P xs"
proof (induction n arbitrary: xs)
  case (Suc n)
  then show ?case by (cases xs) auto
qed auto

lemma lower_hex_values:
  "list_all is_lower_hex g \<Longrightarrow> map (hex_digit \<circ> (the \<circ> hex_value)) g = g \<and> (\<forall>d \<in> set (map (the \<circ> hex_value) g). d < 16)"
  by (induction g) (auto simp: is_lower_hex_def hex_value_def hex_digit_def)

lemma uuid_str_digits: "filter (\<lambda>c. c \<noteq> 45) (uuid_str ds) = map hex_digit ds"
proof -
  have f: "filter (\<lambda>c. c \<noteq> 45) (pslice (map hex_digit ds) a b) = pslice (map hex_digit ds) a b" for a b
    by (auto simp: filter_id_conv pslice_def hex_digit_def dest!: in_set_dropD in_set_takeD)
  have "drop 20 (map hex_digit ds) = pslice (map hex_digit ds) 20 (20 + length ds)"
    by simp
  then show ?thesis
    by (simp only: uuid_str_def Let_def filter_append filter.simps f) (simp add: pslice_drop_join)
qed

definition uuid_v4_digits :: "nat list \<Rightarrow> bool" where
  "uuid_v4_digits ds = (length ds = 32 \<and> list_all (\<lambda>d. d < 16) ds \<and> uuid_version ds = Some 4)"

lemma canonical_uuid_iff:
  "canonical_uuid s = Inr v \<longleftrightarrow> v = s \<and> (\<exists>ds. uuid_v4_digits ds \<and> uuid_str ds = s)"
proof
  assume "canonical_uuid s = Inr v"
  then obtain ds where p: "uuid_parse s = Some ds"
    by (cases "uuid_parse s") (simp_all add: canonical_uuid_def)
  with \<open>canonical_uuid s = Inr v\<close> have *: "uuid_version ds = Some 4" "uuid_str ds = s" "v = s"
    by (simp_all add: canonical_uuid_def split: if_splits)
  from p have ds: "ds = map (the \<circ> hex_value_any) (filter (\<lambda>c. c \<noteq> 45) s)"
    and "length (filter (\<lambda>c. c \<noteq> 45) s) = 32"
    and ok: "list_all (\<lambda>c. hex_value_any c \<noteq> None) (filter (\<lambda>c. c \<noteq> 45) s)"
    by (simp_all add: uuid_parse_def Let_def split: if_splits)
  then have "length ds = 32" by simp
  moreover have "the (hex_value_any c) < 16" if "hex_value_any c \<noteq> None" for c
    using that by (auto simp: hex_value_any_def hex_value_def split: if_splits)
  with ok have "list_all (\<lambda>d. d < 16) ds"
    unfolding ds by (simp add: list.pred_map list_all_iff)
  ultimately show "v = s \<and> (\<exists>ds. uuid_v4_digits ds \<and> uuid_str ds = s)"
    using * by (auto simp: uuid_v4_digits_def)
next
  assume "v = s \<and> (\<exists>ds. uuid_v4_digits ds \<and> uuid_str ds = s)"
  then obtain ds where ds: "length ds = 32" "list_all (\<lambda>d. d < 16) ds" "uuid_version ds = Some 4"
    and s: "uuid_str ds = s" "v = s"
    by (auto simp: uuid_v4_digits_def)
  have hv: "hex_value_any (hex_digit d) = Some d" if "d \<in> set ds" for d
    using that ds(2) by (auto simp: list_all_iff hex_value_any_def hex_value_def hex_digit_def)
  then have "map (the \<circ> hex_value_any) (map hex_digit ds) = ds"
    by (simp add: map_idI)
  moreover have "list_all (\<lambda>c. hex_value_any c \<noteq> None) (map hex_digit ds)"
    using hv by (simp add: list_all_iff)
  ultimately have "uuid_parse (uuid_str ds) = Some ds"
    using ds(1) by (simp only: uuid_parse_def uuid_str_digits Let_def length_map if_True simp_thms)
  with ds s show "canonical_uuid s = Inr v"
    by (simp add: canonical_uuid_def)
qed

lemma valid_uuid_text_iff:
  "valid_uuid_text s \<longleftrightarrow> (\<exists>ds. uuid_v4_digits ds \<and> uuid_str ds = s)"
proof
  assume "valid_uuid_text s"
  then obtain g1 g2 g3 x g4 g5 where
    s: "s = g1 @ 45 # g2 @ 45 # 52 # g3 @ 45 # x # g4 @ 45 # g5"
    and g: "list_all is_lower_hex g1" "list_all is_lower_hex g2" "list_all is_lower_hex g3"
      "list_all is_lower_hex g4" "list_all is_lower_hex g5"
    and len: "length g1 = 8" "length g2 = 4" "length g3 = 3" "length g4 = 3" "length g5 = 12"
    and x: "x = 56 \<or> x = 57 \<or> x = 97 \<or> x = 98"
    by (auto simp: valid_uuid_text_def uuid_v4_classes_def list_all2_append1 list_all2_Cons1
        list_all2_replicate_iff)
  let ?v = "map (the \<circ> hex_value)"
  let ?ds = "?v g1 @ ?v g2 @ 4 # ?v g3 @ the (hex_value x) # ?v g4 @ ?v g5"
  have xd: "hex_digit (the (hex_value x)) = x" "the (hex_value x) < 16" "the (hex_value x) div 4 = 2"
    using x by (auto simp: hex_value_def hex_digit_def)
  have h: "map hex_digit ?ds = g1 @ g2 @ 52 # g3 @ x # g4 @ g5"
    using g [THEN lower_hex_values] xd by (simp add: hex_digit_def [of 4])
  have "uuid_str ?ds = s"
    unfolding uuid_str_def Let_def h s using len by (simp add: pslice_def)
  moreover have "uuid_v4_digits ?ds"
    using g [THEN lower_hex_values] xd len
    by (auto simp: uuid_v4_digits_def uuid_version_def list_all_iff nth_append)
  ultimately show "\<exists>ds. uuid_v4_digits ds \<and> uuid_str ds = s"
    by blast
next
  assume "\<exists>ds. uuid_v4_digits ds \<and> uuid_str ds = s"
  then obtain ds where len: "length ds = 32" and ds: "list_all (\<lambda>d. d < 16) ds"
    and v: "ds ! 16 div 4 = 2" "ds ! 12 = 4" and s: "s = uuid_str ds"
    by (auto simp: uuid_v4_digits_def uuid_version_def split: if_splits)
  have lh: "list_all is_lower_hex (pslice (map hex_digit ds) a b)" for a b
    using ds by (auto simp: list_all_iff pslice_def is_lower_hex_digit dest!: in_set_dropD in_set_takeD)
  have p12: "pslice (map hex_digit ds) 12 16 = 52 # pslice (map hex_digit ds) 13 16"
    using len v(2) by (simp add: pslice_def Cons_nth_drop_Suc [symmetric] drop_map take_map hex_digit_def [of 4])
  obtain x where x: "x = 56 \<or> x = 57 \<or> x = 97 \<or> x = 98"
    and p16: "pslice (map hex_digit ds) 16 20 = x # pslice (map hex_digit ds) 17 20"
  proof
    show "hex_digit (ds ! 16) = 56 \<or> hex_digit (ds ! 16) = 57 \<or> hex_digit (ds ! 16) = 97 \<or> hex_digit (ds ! 16) = 98"
    proof -
      have "ds ! 16 = 8 \<or> ds ! 16 = 9 \<or> ds ! 16 = 10 \<or> ds ! 16 = 11"
        using v(1) by linarith
      then show ?thesis by (auto simp: hex_digit_def)
    qed
    show "pslice (map hex_digit ds) 16 20 = hex_digit (ds ! 16) # pslice (map hex_digit ds) 17 20"
      using len by (simp add: pslice_def Cons_nth_drop_Suc [symmetric] drop_map take_map)
  qed
  have "drop 20 (map hex_digit ds) = pslice (map hex_digit ds) 20 32"
    using len by simp
  then show "valid_uuid_text s"
    using lh len x lh [of 0 8] lh [of 20 32] unfolding s uuid_str_def Let_def p12 p16
    by (simp add: valid_uuid_text_def uuid_v4_classes_def list_all2_append list_all2_replicate_iff)
qed

lemma canonical_uuid_valid: "canonical_uuid s = Inr v \<longleftrightarrow> v = s \<and> valid_uuid_text s"
  by (simp add: canonical_uuid_iff valid_uuid_text_iff)

lemma uuid_text_shape:
  assumes "valid_uuid_text s"
  shows "length s = 36" "list_all (\<lambda>c. c < 128) s"
proof -
  show "length s = 36"
    using list_all2_lengthD [OF assms [unfolded valid_uuid_text_def]] by (simp add: uuid_v4_classes_def)
  have classes: "\<forall>p \<in> set uuid_v4_classes. \<forall>c. p c \<longrightarrow> c < 128"
    by (auto simp: uuid_v4_classes_def is_lower_hex_def)
  have "c < 128" if "c \<in> set s" for c
  proof -
    from list_all2_in_set2 [OF assms [unfolded valid_uuid_text_def] that]
    obtain p where p: "p \<in> set uuid_v4_classes" "p c" ..
    show ?thesis
      using bspec [OF classes p(1), THEN spec, THEN mp, OF p(2)] .
  qed
  then show "list_all (\<lambda>c. c < 128) s"
    by (simp add: list_all_iff)
qed

text \<open>
  The two UUID checks of the tools agree.  \<^verbatim>\<open>canonical_id\<close>/\<^verbatim>\<open>canonical_uuid\<close> (parse with the
  \<^verbatim>\<open>uuid\<close> class, compare with the printed form, ask for version 4) returns its argument exactly on
  the texts the regular expression \<^verbatim>\<open>UUID_V4\<close> of the migration and capacity tools matches, and raises
  \<^verbatim>\<open>ValueError\<close> on every other text.
\<close>

theorem canonical_uuid_agrees_with_regex:
  "canonical_uuid s = Inr v \<longleftrightarrow> v = s \<and> valid_uuid_text s"
  by (simp add: canonical_uuid_iff valid_uuid_text_iff)

end
