(* ===== verification/Device_Config.thy ===== *)
theory Device_Config
  imports Python_Values
begin

text \<open>
  \<^verbatim>\<open>validate_configuration\<close> of \<^verbatim>\<open>tools/device_control.py\<close>: the schema 4 configuration object the
  serial client sends with \<^verbatim>\<open>config.set\<close>, and the check the migration tools reuse on decoded flash
  records.  \<open>validate_wifi\<close> and \<open>validate_mqtt\<close> are its two halves, in the order of the code.

  The second part gives the check a typed reading (\<open>wifi_fields_ok\<close>, \<open>mqtt_fields_ok\<close>) for the
  configuration objects the migration tools build from decoded fields (\<open>make_config\<close>).
\<close>

subsection \<open>The check\<close>

definition text_ctrl :: "nat \<Rightarrow> bool" where
  "text_ctrl c = (c < 32 \<or> c = 127)"

definition wifi_password_ok :: "pystr \<Rightarrow> bool" where
  "wifi_password_ok p =
     (8 \<le> length p \<and> length p \<le> 63 \<and> list_all (\<lambda>c. 32 \<le> c \<and> c \<le> 126) p \<or>
      length p = 64 \<and> list_all is_hex p)"

definition validate_wifi :: "pyval \<Rightarrow> unit res" where
  "validate_wifi network = (case network of
      PNone \<Rightarrow> Inr ()
    | PDict d \<Rightarrow>
        require (keys_are d [''ssid'', ''password'']) (Raise ValueError ''Wi-Fi configuration fields'')
          (bindE (py_getitem d ''ssid'') (\<lambda>ssid. bindE (py_getitem d ''password'') (\<lambda>password.
            (case ssid of
               PStr s \<Rightarrow>
                 bindE (of_option (Raise ValueError ''SSID length or characters'') (utf8_encode s)) (\<lambda>ssid_bytes.
                 require (1 \<le> length ssid_bytes \<and> length ssid_bytes \<le> 32 \<and> \<not> list_ex text_ctrl s)
                   (Raise ValueError ''SSID length or characters'')
                   (case password of
                      PStr p \<Rightarrow> require (wifi_password_ok p) (Raise ValueError ''Wi-Fi password format'') (Inr ())
                    | _ \<Rightarrow> Inl (Raise ValueError ''Wi-Fi password format'')))
             | _ \<Rightarrow> Inl (Raise ValueError ''SSID length or characters'')))))
    | _ \<Rightarrow> Inl (Raise ValueError ''Wi-Fi configuration fields''))"

definition ascii_alnum :: "nat \<Rightarrow> bool" where
  "ascii_alnum c = (is_digit c \<or> is_ascii_letter c)"

definition host_label_ok :: "pystr \<Rightarrow> bool" where
  "host_label_ok l =
     (1 \<le> length l \<and> length l \<le> 63 \<and> ascii_alnum (hd l) \<and> ascii_alnum (last l) \<and>
      list_all (\<lambda>c. ascii_alnum c \<or> c = 45) l)"

definition host_ok :: "pystr \<Rightarrow> bool" where
  "host_ok h =
     (1 \<le> length h \<and> length h \<le> 253 \<and> list_all (\<lambda>c. c < 128) h \<and>
      list_all host_label_ok (split_on 46 h))"

definition credential_char_bad :: "nat \<Rightarrow> bool" where
  "credential_char_bad c =
     (c < 32 \<or> 127 \<le> c \<and> c \<le> 159 \<or> 0xFDD0 \<le> c \<and> c \<le> 0xFDEF \<or> 0xFFFE \<le> c mod 0x10000)"

definition credential_ok :: "nat \<Rightarrow> pystr \<Rightarrow> bool" where
  "credential_ok limit s = (case utf8_encode s of
      None \<Rightarrow> False
    | Some encoded \<Rightarrow> 1 \<le> length encoded \<and> length encoded \<le> limit \<and> \<not> list_ex credential_char_bad s)"

definition pem_char :: "nat \<Rightarrow> bool" where
  "pem_char c = (c = 9 \<or> c = 13 \<or> c = 10 \<or> 32 \<le> c \<and> c \<le> 126)"

definition ca_pem_ok :: "nat \<Rightarrow> pystr \<Rightarrow> bool" where
  "ca_pem_ok limit ca =
     (1 \<le> length ca \<and> length ca \<le> limit \<and> list_all pem_char ca \<and>
      contains (str ''-----BEGIN CERTIFICATE-----'') ca \<and> contains (str ''-----END CERTIFICATE-----'') ca)"

definition key_hex_ok :: "pystr \<Rightarrow> bool" where
  "key_hex_ok k = (length k = 64 \<and> list_all is_lower_hex k \<and> list_ex (\<lambda>c. c \<noteq> 48) k)"

definition check_str :: "(pystr \<Rightarrow> bool) \<Rightarrow> string \<Rightarrow> pyval \<Rightarrow> 'a res \<Rightarrow> 'a res" where
  "check_str ok t v k = (case v of
      PStr s \<Rightarrow> require (ok s) (Raise ValueError t) k
    | _ \<Rightarrow> Inl (Raise ValueError t))"

definition check_port :: "pyval \<Rightarrow> 'a res \<Rightarrow> 'a res" where
  "check_port v k = (case v of
      PInt n \<Rightarrow> require (1 \<le> n \<and> n \<le> 65535) (Raise ValueError ''MQTT port'') k
    | _ \<Rightarrow> Inl (Raise ValueError ''MQTT port''))"

definition validate_mqtt :: "pyval \<Rightarrow> unit res" where
  "validate_mqtt mqtt = (case mqtt of
      PNone \<Rightarrow> Inr ()
    | PDict d \<Rightarrow>
        require (keys_are d [''hostname'', ''port'', ''username'', ''password'', ''ca_pem'', ''management_key_hex''])
          (Raise ValueError ''MQTT configuration fields'')
          (bindE (py_getitem d ''hostname'') (\<lambda>host. check_str host_ok ''MQTT host'' host
          (bindE (py_getitem d ''port'') (\<lambda>port. check_port port
          (bindE (py_getitem d ''username'') (\<lambda>user. check_str (credential_ok 128) ''MQTT credentials'' user
          (bindE (py_getitem d ''password'') (\<lambda>password. check_str (credential_ok 256) ''MQTT credentials'' password
          (bindE (py_getitem d ''ca_pem'') (\<lambda>ca. check_str (ca_pem_ok 4096) ''MQTT CA PEM'' ca
          (bindE (py_getitem d ''management_key_hex'') (\<lambda>key. check_str key_hex_ok ''MQTT management key'' key
             (Inr ())))))))))))))
    | _ \<Rightarrow> Inl (Raise ValueError ''MQTT configuration fields''))"

definition validate_configuration :: "pyval \<Rightarrow> unit res" where
  "validate_configuration config = (case config of
      PDict d \<Rightarrow>
        require (keys_are d [''schema_version'', ''wifi'', ''mqtt'', ''business''])
          (Raise ValueError ''configuration fields incomplete'')
          (bindE (py_getitem d ''schema_version'') (\<lambda>version. bindE (py_getitem d ''business'') (\<lambda>business.
            require (version = PInt 4 \<and> business = PNone)
              (Raise ValueError ''configuration version or capability unsupported'')
              (bindE (py_getitem d ''wifi'') (\<lambda>network. bindE (validate_wifi network) (\<lambda>_.
               bindE (py_getitem d ''mqtt'') (\<lambda>mqtt. validate_mqtt mqtt)))))))
    | _ \<Rightarrow> Inl (Raise ValueError ''configuration fields incomplete''))"

subsection \<open>The configuration object of decoded fields\<close>

record wifi_fields =
  w_ssid :: pystr
  w_password :: pystr

record mqtt_fields =
  m_hostname :: pystr
  m_port :: nat
  m_username :: pystr
  m_password :: pystr
  m_ca_pem :: pystr
  m_management_key_hex :: pystr

definition wifi_value :: "wifi_fields option \<Rightarrow> pyval" where
  "wifi_value w = (case w of None \<Rightarrow> PNone | Some f \<Rightarrow>
     PDict [(str ''ssid'', PStr (w_ssid f)), (str ''password'', PStr (w_password f))])"

definition mqtt_value :: "mqtt_fields option \<Rightarrow> pyval" where
  "mqtt_value m = (case m of None \<Rightarrow> PNone | Some f \<Rightarrow>
     PDict [(str ''hostname'', PStr (m_hostname f)), (str ''port'', PInt (int (m_port f))),
            (str ''username'', PStr (m_username f)), (str ''password'', PStr (m_password f)),
            (str ''ca_pem'', PStr (m_ca_pem f)),
            (str ''management_key_hex'', PStr (m_management_key_hex f))])"

definition make_config :: "wifi_fields option \<Rightarrow> mqtt_fields option \<Rightarrow> pyval" where
  "make_config w m =
     PDict [(str ''schema_version'', PInt 4), (str ''wifi'', wifi_value w), (str ''mqtt'', mqtt_value m),
            (str ''business'', PNone)]"

definition wifi_fields_ok :: "wifi_fields \<Rightarrow> bool" where
  "wifi_fields_ok f =
     ((case utf8_encode (w_ssid f) of None \<Rightarrow> False | Some b \<Rightarrow> 1 \<le> length b \<and> length b \<le> 32) \<and>
      \<not> list_ex text_ctrl (w_ssid f) \<and> wifi_password_ok (w_password f))"

definition mqtt_fields_ok :: "mqtt_fields \<Rightarrow> bool" where
  "mqtt_fields_ok f =
     (host_ok (m_hostname f) \<and> 1 \<le> m_port f \<and> m_port f \<le> 65535 \<and>
      credential_ok 128 (m_username f) \<and> credential_ok 256 (m_password f) \<and>
      ca_pem_ok 4096 (m_ca_pem f) \<and> key_hex_ok (m_management_key_hex f))"

subsection \<open>The typed reading of the check\<close>

declare str_inj_iff [simp]

lemma check_str_eq_Inr [res_simps]:
  "check_str ok t v k = Inr u \<longleftrightarrow> (\<exists>s. v = PStr s \<and> ok s) \<and> k = Inr u"
  by (auto simp: check_str_def res_simps split: pyval.splits)

lemma check_port_eq_Inr [res_simps]:
  "check_port v k = Inr u \<longleftrightarrow> (\<exists>n. v = PInt n \<and> 1 \<le> n \<and> n \<le> 65535) \<and> k = Inr u"
  by (auto simp: check_port_def res_simps split: pyval.splits)

lemma validate_wifi_value:
  "validate_wifi (wifi_value w) = Inr () \<longleftrightarrow> (\<forall>f. w = Some f \<longrightarrow> wifi_fields_ok f)"
  by (cases w)
     (auto simp: validate_wifi_def wifi_value_def keys_are_def wifi_fields_ok_def res_simps
       split: option.splits)

lemma validate_mqtt_value:
  "validate_mqtt (mqtt_value m) = Inr () \<longleftrightarrow> (\<forall>f. m = Some f \<longrightarrow> mqtt_fields_ok f)"
  by (cases m)
     (auto simp: validate_mqtt_def mqtt_value_def keys_are_def mqtt_fields_ok_def res_simps)

lemma validate_configuration_make_config:
  "validate_configuration (make_config w m) = Inr () \<longleftrightarrow>
     (\<forall>f. w = Some f \<longrightarrow> wifi_fields_ok f) \<and> (\<forall>f. m = Some f \<longrightarrow> mqtt_fields_ok f)"
  by (simp add: validate_configuration_def make_config_def keys_are_def res_simps
      validate_wifi_value validate_mqtt_value)

end
