(* ===== verification/Ebcf_Config.thy ===== *)
theory Ebcf_Config
  imports Device_Config
begin

text \<open>
  The persisted configuration record \<^verbatim>\<open>base_config/committed\<close> in its three historical layouts
  (magic \<^verbatim>\<open>EBCF\<close>, versions 1 to 3): \<^verbatim>\<open>validate_v1_config\<close>, \<^verbatim>\<open>validate_v2_config\<close>,
  \<^verbatim>\<open>convert_v1_wifi_only\<close> and \<^verbatim>\<open>convert_v2_preserving_mqtt\<close> of \<^verbatim>\<open>tools/preflight_v3_migration.py\<close>
  and \<^verbatim>\<open>validate_v3_config\<close> of \<^verbatim>\<open>tools/prepare_native_layout.py\<close>.

  The abstract content of a record is a \<open>settings\<close> value; \<open>v1_settings\<close>, \<open>v2_settings\<close> and
  \<open>v3_settings\<close> read it from the layouts.  The interface \<open>config_migration\<close> says what a migration
  owes its client: it succeeds exactly on valid records, and its result is valid in the new layout
  with the same revision and the same settings.  Both conversions are interpreted in it.
\<close>

definition decode_utf8 :: "bytes \<Rightarrow> pystr res" where
  "decode_utf8 b = of_option (Raise UnicodeError ''utf-8'') (utf8_decode b)"

definition decode_ascii :: "bytes \<Rightarrow> pystr res" where
  "decode_ascii b = of_option (Raise UnicodeError ''ascii'') (ascii_decode b)"

subsection \<open>Version 1\<close>

definition validate_v1_config :: "bytes \<Rightarrow> nat res" where
  "validate_v1_config blob =
     require (length blob = 112 \<and> take 4 blob = ascii ''EBCF'' \<and> blob ! 4 = 1)
       (preflight ''not a canonical EBCF v1 blob of 112 bytes'')
     (let configured = unat (blob ! 5); ssid_size = unat (blob ! 6); password_size = unat (blob ! 7) in
     require ((configured = 0 \<or> configured = 1) \<and> ssid_size \<le> 32 \<and> password_size \<le> 64 \<and>
              pslice blob 12 16 = zeros 4 \<and>
              pslice blob (16 + ssid_size) 48 = zeros (32 - ssid_size) \<and>
              pslice blob (48 + password_size) 112 = zeros (64 - password_size))
       (preflight ''EBCF v1 lengths, flag or reserved bytes'')
     (let ssid = pslice blob 16 (16 + ssid_size); password = pslice blob 48 (48 + password_size) in
     bindE
       (if configured \<noteq> 0 then
          require (1 \<le> ssid_size \<and> ssid_size \<le> 32 \<and> 8 \<le> password_size \<and> password_size \<le> 64)
            (preflight ''EBCF v1 Wi-Fi field lengths'')
          (bindE (reraise is_value_error (preflight ''EBCF v1 SSID UTF-8'') (decode_utf8 ssid)) (\<lambda>decoded_ssid.
          require (list_all (\<lambda>c. 0x20 \<le> c \<and> c \<noteq> 0x7F) decoded_ssid) (preflight ''EBCF v1 SSID control character'')
          (require (if password_size < 64 then list_all (\<lambda>c. 0x20 \<le> unat c \<and> unat c \<le> 0x7E) password
                    else list_all (\<lambda>c. is_hex (unat c)) password)
            (preflight ''EBCF v1 Wi-Fi password format'') (Inr ()))))
        else
          require (ssid_size = 0 \<and> password_size = 0) (preflight ''EBCF v1 unconfigured with Wi-Fi data'') (Inr ()))
       (\<lambda>_. Inr (from_le (pslice blob 8 12)))))"

definition convert_v1_wifi_only :: "bytes \<Rightarrow> bytes res" where
  "convert_v1_wifi_only blob =
     bindE (validate_v1_config blob) (\<lambda>_.
       (let header = zeros 40;
            header = set_slice header 0 4 (ascii ''EBCF'');
            header = header[4 := 3];
            header = header[5 := blob ! 5];
            header = set_slice header 6 8 (pslice blob 6 8);
            header = set_slice header 8 12 (pslice blob 8 12)
        in Inr (header @ pslice blob 16 (16 + unat (blob ! 6)) @ pslice blob 48 (48 + unat (blob ! 7)))))"

subsection \<open>Version 2\<close>

text \<open>The nested \<^verbatim>\<open>take(length)\<close>: consecutive slices from a cursor.\<close>

fun take_fields :: "bytes \<Rightarrow> nat \<Rightarrow> nat list \<Rightarrow> bytes list \<times> nat" where
  "take_fields blob at [] = ([], at)"
| "take_fields blob at (n # ns) =
     (let (fs, at') = take_fields blob (at + n) ns in (pslice blob at (at + n) # fs, at'))"

text \<open>The \<^verbatim>\<open>try\<close> block: decode the fields, build the configuration object and validate it.\<close>

definition v2_values :: "8 word \<Rightarrow> nat list \<Rightarrow> nat \<Rightarrow> bytes list \<Rightarrow> bytes \<Rightarrow> unit res" where
  "v2_values flags lens port fs key =
     bindE (if bit flags 0 then
              bindE (decode_utf8 (fs ! 0)) (\<lambda>ssid. bindE (decode_ascii (fs ! 1)) (\<lambda>password.
                Inr (Some \<lparr>w_ssid = ssid, w_password = password\<rparr>)))
            else Inr None) (\<lambda>wifi.
     bindE (if bit flags 1 then
              bindE (decode_ascii (fs ! 2)) (\<lambda>host. bindE (decode_utf8 (fs ! 3)) (\<lambda>user.
              bindE (decode_utf8 (fs ! 4)) (\<lambda>password. bindE (decode_ascii (fs ! 5)) (\<lambda>ca.
                Inr (Some \<lparr>m_hostname = host, m_port = port, m_username = user, m_password = password,
                           m_ca_pem = ca, m_management_key_hex = hex key\<rparr>)))))
            else Inr None) (\<lambda>mqtt.
     require (bit flags 0 \<or> lens ! 0 = 0 \<and> lens ! 1 = 0)
       (preflight ''EBCF v2 unconfigured Wi-Fi with data'')
     (require (bit flags 1 \<or> lens ! 2 = 0 \<and> lens ! 3 = 0 \<and> lens ! 4 = 0 \<and> lens ! 5 = 0 \<and> port = 0)
       (preflight ''EBCF v2 unconfigured MQTT with data'')
     (validate_configuration (make_config wifi mqtt)))))"

definition validate_v2_config :: "bytes \<Rightarrow> nat res" where
  "validate_v2_config blob =
     require (24 \<le> length blob \<and> length blob \<le> 4885 \<and> take 5 blob = ascii ''EBCF'' @ [2])
       (preflight ''not a canonical EBCF v2 blob'')
     (let flags = blob ! 5; ssid_len = unat (blob ! 6); wifi_password_len = unat (blob ! 7);
          host_len = unat (blob ! 12); user_len = unat (blob ! 13);
          mqtt_password_len = from_le (pslice blob 14 16);
          ca_len = from_le (pslice blob 16 18);
          port = from_le (pslice blob 18 20);
          lens = [ssid_len, wifi_password_len, host_len, user_len, mqtt_password_len, ca_len] in
     require (unat flags \<le> 3 \<and> ssid_len \<le> 32 \<and> wifi_password_len \<le> 64 \<and> host_len \<le> 253 \<and>
              user_len \<le> 128 \<and> mqtt_password_len \<le> 256 \<and> ca_len \<le> 4096 \<and>
              pslice blob 20 24 = zeros 4 \<and>
              length blob = 24 + ssid_len + wifi_password_len + host_len + user_len +
                mqtt_password_len + ca_len + (if bit flags 1 then 32 else 0))
       (preflight ''EBCF v2 lengths, flags or reserved bytes'')
     (let (fs, at) = take_fields blob 24 lens;
          (key, at) = (if bit flags 1 then (pslice blob at (at + 32), at + 32) else (zeros 32, at)) in
     require (at = length blob) (preflight ''EBCF v2 length incomplete'')
     (bindE (reraise is_value_error (preflight ''EBCF v2 values'') (v2_values flags lens port fs key))
       (\<lambda>_. Inr (from_le (pslice blob 8 12))))))"

definition convert_v2_preserving_mqtt :: "bytes \<Rightarrow> bytes res" where
  "convert_v2_preserving_mqtt blob =
     bindE (validate_v2_config blob) (\<lambda>_.
       (let header = zeros 40;
            header = set_slice header 0 20 (take 20 blob);
            header = header[4 := 3]
        in Inr (header @ drop 24 blob)))"

subsection \<open>Version 3\<close>

text \<open>The nested \<^verbatim>\<open>take(size, encoding)\<close>: a slice that must be complete, decoded, and the cursor moved.\<close>

definition take_bytes :: "bytes \<Rightarrow> nat \<Rightarrow> nat \<Rightarrow> (bytes \<times> nat) res" where
  "take_bytes blob at n =
     (let value = pslice blob at (at + n)
      in require (length value = n) (migration ''configuration field incomplete'') (Inr (value, at + n)))"

fun take_texts :: "bytes \<Rightarrow> nat \<Rightarrow> (nat \<times> (bytes \<Rightarrow> pystr res)) list \<Rightarrow> (pystr list \<times> nat) res" where
  "take_texts blob at [] = Inr ([], at)"
| "take_texts blob at ((n, decode) # rest) =
     bindE (take_bytes blob at n) (\<lambda>(value, at').
     bindE (decode value) (\<lambda>t.
     bindE (take_texts blob at' rest) (\<lambda>(ts, at''). Inr (t # ts, at''))))"

definition retired_extension_ok ::
  "pystr \<Rightarrow> pystr \<Rightarrow> pystr \<Rightarrow> pystr \<Rightarrow> bytes \<Rightarrow> nat list \<Rightarrow> unit res" where
  "retired_extension_ok host token ca proxy key ports =
     require (1 \<le> length host \<and> length host \<le> 253 \<and> list_all host_label_ok (split_on 46 host))
       (migration ''retired extension address'')
     (require (list_all (\<lambda>p. 1 \<le> p \<and> p \<le> 65535) ports) (migration ''retired extension port'')
     (require (1 \<le> length token \<and> length token \<le> 256 \<and> list_all (\<lambda>c. 32 < c \<and> c < 127) token)
       (migration ''retired extension credential'')
     (require (ca_pem_ok 2048 ca) (migration ''retired extension certificate'')
     (require (1 \<le> length proxy \<and> length proxy \<le> 128 \<and>
               list_all (\<lambda>c. 32 < c \<and> c < 127 \<and> c \<notin> {47, 92, 42, 64}) proxy)
       (migration ''retired extension name'')
     (require (any_byte key) (migration ''retired extension key'') (Inr ()))))))"

text \<open>The \<^verbatim>\<open>try\<close> block: read every field in order, check what must be absent, and validate.\<close>

definition v3_values ::
  "8 word \<Rightarrow> nat \<Rightarrow> nat list \<Rightarrow> pystr list \<Rightarrow> pystr \<Rightarrow> pystr list \<Rightarrow> bytes \<Rightarrow> unit res" where
  "v3_values flags mqtt_port retired_ports fs mqtt_key rs retired_key =
     (let ssid = fs ! 0; wifi_password = fs ! 1; host = fs ! 2; user = fs ! 3; password = fs ! 4; ca = fs ! 5;
          retired_host = rs ! 0; token = rs ! 1; retired_ca = rs ! 2; proxy = rs ! 3 in
     require (bit flags 0 \<or> ssid = [] \<and> wifi_password = []) (migration ''unconfigured Wi-Fi with fields'')
     (require (bit flags 1 \<or> host = [] \<and> user = [] \<and> password = [] \<and> ca = [] \<and> mqtt_port = 0)
       (migration ''unconfigured MQTT with fields'')
     (bindE (if bit flags 2 then retired_extension_ok retired_host token retired_ca proxy retired_key retired_ports
             else require (retired_host = [] \<and> token = [] \<and> retired_ca = [] \<and> proxy = [] \<and>
                           list_all (\<lambda>p. p = 0) retired_ports)
                    (migration ''unconfigured retired extension with fields'') (Inr ()))
     (\<lambda>_. validate_configuration
            (make_config
              (if bit flags 0 then Some \<lparr>w_ssid = ssid, w_password = wifi_password\<rparr> else None)
              (if bit flags 1 then Some \<lparr>m_hostname = host, m_port = mqtt_port, m_username = user,
                 m_password = password, m_ca_pem = ca, m_management_key_hex = mqtt_key\<rparr>
               else None))))))"

definition v3_body :: "bytes \<Rightarrow> nat list \<Rightarrow> nat list \<Rightarrow> unit res" where
  "v3_body blob lengths retired_lengths =
     (let flags = blob ! 5 in
     bindE (take_texts blob 40
              (zip lengths [decode_utf8, decode_ascii, decode_ascii, decode_utf8, decode_utf8, decode_ascii]))
     (\<lambda>(fs, at).
     bindE (if bit flags 1 then bindE (take_bytes blob at 32) (\<lambda>(k, at). Inr (hex k, at)) else Inr ([], at))
     (\<lambda>(mqtt_key, at).
     bindE (take_texts blob at (map (\<lambda>n. (n, decode_ascii)) retired_lengths)) (\<lambda>(rs, at).
     bindE (if bit flags 2 then take_bytes blob at 32 else Inr ([], at)) (\<lambda>(retired_key, at).
     (let mqtt_port = from_le (pslice blob 18 20);
          retired_ports = map (\<lambda>n. from_le (pslice blob n (n + 2))) [26, 28, 30] in
     require (at = length blob) (migration ''configuration length or tail'')
       (v3_values flags mqtt_port retired_ports fs mqtt_key rs retired_key)))))))"

definition validate_v3_config :: "bytes \<Rightarrow> nat res" where
  "validate_v3_config blob =
     require (40 \<le> length blob \<and> length blob \<le> 7618 \<and> take 5 blob = ascii ''EBCF'' @ [3] \<and>
              unat (blob ! 5) \<le> 7 \<and> pslice blob 32 40 = zeros 8)
       (migration ''not a canonical EBCF V3 configuration'')
     (let lengths = [unat (blob ! 6), unat (blob ! 7), unat (blob ! 12), unat (blob ! 13),
                     from_le (pslice blob 14 16), from_le (pslice blob 16 18)];
          retired_lengths = [unat (blob ! 20), from_le (pslice blob 22 24), from_le (pslice blob 24 26),
                             unat (blob ! 21)] in
     bindE (reraise is_value_error (migration ''configuration V3 fields'') (v3_body blob lengths retired_lengths))
       (\<lambda>_. Inr (from_le (pslice blob 8 12))))"

subsection \<open>Abstract content\<close>

record settings =
  revision :: nat
  wifi_settings :: "(bytes \<times> bytes) option"
  mqtt_settings :: "(bytes \<times> nat \<times> bytes \<times> bytes \<times> bytes \<times> bytes) option"

definition v1_settings :: "bytes \<Rightarrow> settings" where
  "v1_settings b =
     \<lparr>revision = from_le (pslice b 8 12),
      wifi_settings = (if b ! 5 = 1
        then Some (pslice b 16 (16 + unat (b ! 6)), pslice b 48 (48 + unat (b ! 7))) else None),
      mqtt_settings = None\<rparr>"

text \<open>Versions 2 and 3 share the order of the fields and differ in the header size \<open>h\<close> only.\<close>

definition packed_settings :: "nat \<Rightarrow> bytes \<Rightarrow> settings" where
  "packed_settings h b =
     (let (fs, at) = take_fields b h [unat (b ! 6), unat (b ! 7), unat (b ! 12), unat (b ! 13),
            from_le (pslice b 14 16), from_le (pslice b 16 18)]
      in \<lparr>revision = from_le (pslice b 8 12),
          wifi_settings = (if bit (b ! 5) 0 then Some (fs ! 0, fs ! 1) else None),
          mqtt_settings = (if bit (b ! 5) 1
            then Some (fs ! 2, from_le (pslice b 18 20), fs ! 3, fs ! 4, fs ! 5, pslice b at (at + 32)) else None)\<rparr>)"

definition v2_settings :: "bytes \<Rightarrow> settings" where
  "v2_settings = packed_settings 24"

definition v3_settings :: "bytes \<Rightarrow> settings" where
  "v3_settings = packed_settings 40"

subsection \<open>The migration interface\<close>

locale config_format =
  fixes validate :: "bytes \<Rightarrow> nat res"
    and content :: "bytes \<Rightarrow> settings"
  assumes validate_revision: "validate b = Inr r \<Longrightarrow> revision (content b) = r"

locale config_migration = old: config_format validate_old content_old + new: config_format validate_new content_new
  for validate_old content_old validate_new content_new +
  fixes convert :: "bytes \<Rightarrow> bytes res"
  assumes convert_valid: "validate_old b = Inr r \<Longrightarrow>
      \<exists>c. convert b = Inr c \<and> validate_new c = Inr r \<and> content_new c = content_old b"
    and convert_invalid: "validate_old b = Inl e \<Longrightarrow> convert b = Inl e"
begin

lemma convert_returns_iff: "returns (convert b) \<longleftrightarrow> returns (validate_old b)"
  using convert_valid [of b] convert_invalid [of b] by (cases "validate_old b") auto

lemma converted_valid:
  assumes "convert b = Inr c"
  shows "validate_new c = validate_old b" and "content_new c = content_old b"
  using assms convert_valid [of b] convert_invalid [of b] by (cases "validate_old b"; auto)+

lemma converted_revision: "convert b = Inr c \<Longrightarrow> revision (content_new c) = revision (content_old b)"
  by (simp add: converted_valid(2))

end

subsection \<open>Reading the packed fields\<close>

lemma snd_take_fields [simp]: "snd (take_fields b at ns) = at + sum_list ns"
  by (induction b at ns rule: take_fields.induct) (auto simp: split_beta)

lemma length_take_fields [simp]: "length (fst (take_fields b at ns)) = length ns"
  by (induction b at ns rule: take_fields.induct) (auto simp: split_beta)

lemma take_fields_shift:
  assumes "\<And>i j. pslice c (h + i) (h + j) = pslice b (k + i) (k + j)"
  shows "fst (take_fields c (h + x) ns) = fst (take_fields b (k + x) ns)"
  using assms by (induction ns arbitrary: x) (auto simp: split_beta add.assoc)

lemma take_bytes_ok: "at + n \<le> length b \<Longrightarrow> take_bytes b at n = Inr (pslice b at (at + n), at + n)"
  by (simp add: take_bytes_def)

lemma decode_utf8_eq_Inr [res_simps]: "decode_utf8 b = Inr s \<longleftrightarrow> utf8_decode b = Some s"
  by (simp add: decode_utf8_def res_simps)

lemma decode_ascii_eq_Inr [res_simps]: "decode_ascii b = Inr s \<longleftrightarrow> ascii_decode b = Some s"
  by (simp add: decode_ascii_def res_simps)

lemma decode_empty [simp]: "decode_utf8 [] = Inr []" "decode_ascii [] = Inr []"
  by (simp_all add: decode_utf8_def decode_ascii_def ascii_decode_def)

text \<open>The part of the check versions 2 and 3 share, on the values read from the header and the fields.\<close>

definition packed_lengths :: "bytes \<Rightarrow> nat list" where
  "packed_lengths b = [unat (b ! 6), unat (b ! 7), unat (b ! 12), unat (b ! 13),
     from_le (pslice b 14 16), from_le (pslice b 16 18)]"

definition packed_ok :: "nat \<Rightarrow> bytes \<Rightarrow> bool" where
  "packed_ok h b =
     (let fl = b ! 5; ns = packed_lengths b; fs = fst (take_fields b h ns); at = h + sum_list ns in
      unat fl \<le> 3 \<and> length b = at + (if bit fl 1 then 32 else 0) \<and>
      (if bit fl 0
       then (\<exists>s p. utf8_decode (fs ! 0) = Some s \<and> ascii_decode (fs ! 1) = Some p \<and>
              wifi_fields_ok \<lparr>w_ssid = s, w_password = p\<rparr>)
       else ns ! 0 = 0 \<and> ns ! 1 = 0) \<and>
      (if bit fl 1
       then (\<exists>h u p c. ascii_decode (fs ! 2) = Some h \<and> utf8_decode (fs ! 3) = Some u \<and>
              utf8_decode (fs ! 4) = Some p \<and> ascii_decode (fs ! 5) = Some c \<and>
              mqtt_fields_ok \<lparr>m_hostname = h, m_port = from_le (pslice b 18 20), m_username = u,
                m_password = p, m_ca_pem = c, m_management_key_hex = hex (pslice b at (at + 32))\<rparr>)
       else ns ! 2 = 0 \<and> ns ! 3 = 0 \<and> ns ! 4 = 0 \<and> ns ! 5 = 0 \<and> from_le (pslice b 18 20) = 0))"

lemma v2_values_eq_Inr:
  "v2_values fl lens port fs key = Inr () \<longleftrightarrow>
     (if bit fl 0
      then (\<exists>s p. utf8_decode (fs ! 0) = Some s \<and> ascii_decode (fs ! 1) = Some p \<and>
             wifi_fields_ok \<lparr>w_ssid = s, w_password = p\<rparr>)
      else lens ! 0 = 0 \<and> lens ! 1 = 0) \<and>
     (if bit fl 1
      then (\<exists>h u p c. ascii_decode (fs ! 2) = Some h \<and> utf8_decode (fs ! 3) = Some u \<and>
             utf8_decode (fs ! 4) = Some p \<and> ascii_decode (fs ! 5) = Some c \<and>
             mqtt_fields_ok \<lparr>m_hostname = h, m_port = port, m_username = u,
               m_password = p, m_ca_pem = c, m_management_key_hex = hex key\<rparr>)
      else lens ! 2 = 0 \<and> lens ! 3 = 0 \<and> lens ! 4 = 0 \<and> lens ! 5 = 0 \<and> port = 0)"
  by (cases "bit fl 0"; cases "bit fl 1")
     (auto simp: v2_values_def res_simps validate_configuration_make_config)

lemma validate_v2_packed:
  assumes "validate_v2_config b = Inr r"
  shows "packed_ok 24 b" and "r = from_le (pslice b 8 12)"
    and "24 \<le> length b" and "length b \<le> 4885" and "take 5 b = ascii ''EBCF'' @ [2]"
proof -
  let ?fs = "fst (take_fields b 24 (packed_lengths b))" and ?at = "24 + sum_list (packed_lengths b)"
  let ?key = "if bit (b ! 5) 1 then pslice b ?at (?at + 32) else zeros 32"
  note unf = assms [unfolded validate_v2_config_def Let_def split_beta packed_lengths_def [symmetric]
      snd_take_fields res_simps sum.inject]
  show "24 \<le> length b" "length b \<le> 4885" "take 5 b = ascii ''EBCF'' @ [2]" "r = from_le (pslice b 8 12)"
    using unf by blast+
  have v: "v2_values (b ! 5) (packed_lengths b) (from_le (pslice b 18 20)) ?fs ?key = Inr ()"
  proof -
    from unf obtain x where "v2_values (b ! 5) (packed_lengths b) (from_le (pslice b 18 20)) ?fs
        (fst (if bit (b ! 5) 1 then (pslice b ?at (?at + 32), ?at + 32) else (zeros 32, ?at))) = Inr x"
      by blast
    then show ?thesis
      by (cases x) (simp only: if_distrib [of fst] fst_conv)
  qed
  have "sum_list (packed_lengths b) = unat (b ! 6) + unat (b ! 7) + unat (b ! 12) + unat (b ! 13) +
      from_le (pslice b 14 16) + from_le (pslice b 16 18)"
    by (simp add: packed_lengths_def)
  moreover have "unat (b ! 5) \<le> 3" "length b = 24 + unat (b ! 6) + unat (b ! 7) + unat (b ! 12) + unat (b ! 13) +
      from_le (pslice b 14 16) + from_le (pslice b 16 18) + (if bit (b ! 5) 1 then 32 else 0)"
    using unf by blast+
  ultimately have "unat (b ! 5) \<le> 3" "length b = ?at + (if bit (b ! 5) 1 then 32 else 0)"
    by linarith+
  then show "packed_ok 24 b"
    using v unfolding packed_ok_def Let_def v2_values_eq_Inr by (simp cong: if_cong)
qed

lemma pslice_zeros: "pslice (zeros n) a b = zeros (min b n - a)"
  by (simp add: zeros_def slice_simps)

lemma flag_bits: "unat (x :: 8 word) \<le> 3 \<Longrightarrow> \<not> bit x 2"
proof -
  assume "unat x \<le> 3"
  then have "unat x = 0 \<or> unat x = 1 \<or> unat x = 2 \<or> unat x = 3"
    by linarith
  then have "x = 0 \<or> x = 1 \<or> x = 2 \<or> x = 3"
    by (metis of_nat_numeral word_unat_eq_iff unat_1 unat_0 byte_of_nat_unat)
  then show ?thesis by auto
qed

lemma take_texts_fields:
  assumes "length ds = length ns" and "at + sum_list ns \<le> length b"
    and "list_all2 (\<lambda>x t. fst x (snd x) = Inr t) (zip ds (fst (take_fields b at ns))) ts"
  shows "take_texts b at (zip ns ds) = Inr (ts, at + sum_list ns)"
  using assms
proof (induction ns arbitrary: ds at ts)
  case (Cons n ns)
  then obtain d ds' where ds: "ds = d # ds'" by (cases ds) auto
  with Cons.prems obtain t ts' where ts: "ts = t # ts'" and d: "d (pslice b at (at + n)) = Inr t"
    and rest: "list_all2 (\<lambda>x t. fst x (snd x) = Inr t) (zip ds' (fst (take_fields b (at + n) ns))) ts'"
    by (auto simp: split_beta list_all2_Cons1)
  have "take_texts b (at + n) (zip ns ds') = Inr (ts', at + n + sum_list ns)"
    using Cons.prems ds rest by (intro Cons.IH) auto
  with d show ?case
    using Cons.prems by (simp add: ds ts take_bytes_ok add.assoc)
qed simp

lemma length_field_le: "i < length ns \<Longrightarrow> length (fst (take_fields b at ns) ! i) \<le> ns ! i"
  by (induction ns arbitrary: i at) (auto simp: split_beta nth_Cons split: nat.splits)

lemma v3_of_packed:
  assumes len: "length c \<le> 7618" and magic: "take 5 c = ascii ''EBCF'' @ [3]"
    and retired: "pslice c 20 40 = zeros 20" and ok: "packed_ok 40 c"
  shows "validate_v3_config c = Inr (from_le (pslice c 8 12))"
proof -
  let ?fl = "c ! 5" and ?ns = "packed_lengths c"
  let ?fs = "fst (take_fields c 40 ?ns)" and ?at = "40 + sum_list ?ns" and ?port = "from_le (pslice c 18 20)"
  have fl: "unat ?fl \<le> 3" and at: "length c = ?at + (if bit ?fl 1 then 32 else 0)"
    using ok by (simp_all add: packed_ok_def Let_def)
  then have len40: "40 \<le> length c" by simp
  have ns6: "length ?ns = 6" by (simp add: packed_lengths_def)
  have empty: "?fs ! i = []" if "?ns ! i = 0" "i < 6" for i
    using length_field_le [of i ?ns c 40] that ns6 by simp
  have z: "pslice c (20 + i) (20 + j) = zeros (j - i)" if "j \<le> 20" for i j
  proof -
    have "pslice c (20 + i) (20 + j) = pslice (pslice c 20 40) i j"
      using that by (simp add: pslice_pslice)
    then show ?thesis using that by (simp add: retired pslice_zeros)
  qed
  have z1: "c ! (20 + i) = 0" if "i < 20" for i
  proof -
    have "c ! (20 + i) = pslice c 20 40 ! i"
      using that len40 by (simp add: nth_pslice)
    then show ?thesis using that by (simp add: retired zeros_def)
  qed
  obtain s p where w: "decode_utf8 (?fs ! 0) = Inr s" "decode_ascii (?fs ! 1) = Inr p"
    "if bit ?fl 0 then wifi_fields_ok \<lparr>w_ssid = s, w_password = p\<rparr> else s = [] \<and> p = []"
    using ok empty [of 0] empty [of 1]
    by (cases "bit ?fl 0") (auto simp: packed_ok_def Let_def res_simps)
  obtain h u q ca where m: "decode_ascii (?fs ! 2) = Inr h" "decode_utf8 (?fs ! 3) = Inr u"
    "decode_utf8 (?fs ! 4) = Inr q" "decode_ascii (?fs ! 5) = Inr ca"
    "if bit ?fl 1 then mqtt_fields_ok \<lparr>m_hostname = h, m_port = ?port, m_username = u,
       m_password = q, m_ca_pem = ca, m_management_key_hex = hex (pslice c ?at (?at + 32))\<rparr>
     else h = [] \<and> u = [] \<and> q = [] \<and> ca = [] \<and> ?port = 0"
    using ok empty [of 2] empty [of 3] empty [of 4] empty [of 5]
    by (cases "bit ?fl 1") (auto simp: packed_ok_def Let_def res_simps)
  have fs: "?fs = [?fs ! 0, ?fs ! 1, ?fs ! 2, ?fs ! 3, ?fs ! 4, ?fs ! 5]"
    by (rule nth_equalityI) (auto simp: ns6 nth_Cons numeral_eq_Suc split: nat.splits)
  have texts: "take_texts c 40 (zip ?ns [decode_utf8, decode_ascii, decode_ascii, decode_utf8, decode_utf8,
      decode_ascii]) = Inr ([s, p, h, u, q, ca], ?at)"
    using w m at by (intro take_texts_fields) (simp_all add: ns6, subst fs, simp)
  let ?r = "[unat (c ! 20), from_le (pslice c 22 24), from_le (pslice c 24 26), unat (c ! 21)]"
  have r: "?r = [0, 0, 0, 0]"
    using z1 [of 0] z1 [of 1] z [of 4 2] z [of 6 4] by simp
  have body: "v3_body c ?ns [0, 0, 0, 0] = Inr ()"
    using w m at fl z [of 8 6] z [of 10 8] z [of 12 10] flag_bits [OF fl]
    by (cases "bit ?fl 1")
       (auto simp: v3_body_def texts take_bytes_ok v3_values_def validate_configuration_make_config
          Let_def res_simps split: if_splits)
  show ?thesis
    using len len40 magic fl z [of 20 12] body
    by (simp add: validate_v3_config_def packed_lengths_def [symmetric] r)
qed

subsection \<open>Version 2 to version 3\<close>

lemma pslice_eqI:
  assumes "j \<le> length b" "j \<le> length c" "\<And>k. i \<le> k \<Longrightarrow> k < j \<Longrightarrow> c ! k = b ! k"
  shows "pslice c i j = pslice b i j"
  using assms by (auto intro!: nth_equalityI simp: nth_pslice)

text \<open>A record whose header is moved from 24 to 40 bytes keeps every packed value.\<close>

lemma packed_rebase:
  assumes len: "24 \<le> length b" "length h = 20" and hd: "\<And>i. 5 \<le> i \<Longrightarrow> i < 20 \<Longrightarrow> h ! i = b ! i"
    and c: "c = h @ zeros 20 @ drop 24 b"
  shows "packed_ok 40 c \<longleftrightarrow> packed_ok 24 b" and "packed_settings 40 c = packed_settings 24 b"
proof -
  have nth: "c ! i = b ! i" if "5 \<le> i" "i < 20" for i
    using that len hd by (simp add: c nth_append)
  have sl: "pslice c i j = pslice b i j" if "5 \<le> i" "j \<le> 20" for i j
    using that len nth by (intro pslice_eqI) (auto simp: c)
  have body: "pslice c (40 + i) (40 + j) = pslice b (24 + i) (24 + j)" for i j
    using len by (simp add: c pslice_append_right pslice_drop)
  have ns: "packed_lengths c = packed_lengths b"
    by (simp add: packed_lengths_def nth sl)
  have fs: "fst (take_fields c 40 ns) = fst (take_fields b 24 ns)" for ns
    using take_fields_shift [where x = 0, OF body] by simp
  have key: "pslice c (40 + n) (40 + n + 32) = pslice b (24 + n) (24 + n + 32)" for n
    using body [of n "n + 32"] by (simp add: add.assoc)
  have "length c = length b + 16"
    using len by (simp add: c)
  then show "packed_ok 40 c \<longleftrightarrow> packed_ok 24 b"
    unfolding packed_ok_def Let_def ns fs key by (simp add: nth sl)
  show "packed_settings 40 c = packed_settings 24 b"
    unfolding packed_settings_def Let_def split_beta packed_lengths_def [symmetric] ns snd_take_fields fs key
    by (simp add: nth sl)
qed

lemma convert_v2_form:
  assumes "validate_v2_config b = Inr r"
  shows "convert_v2_preserving_mqtt b = Inr ((take 20 b)[4 := 3] @ zeros 20 @ drop 24 b)"
proof -
  have "set_slice (zeros 40) 0 20 (take 20 b) = take 20 b @ zeros 20"
    by (simp add: set_slice_def zeros_def)
  then show ?thesis
    using assms validate_v2_packed(3) [OF assms]
    by (simp add: convert_v2_preserving_mqtt_def list_update_append1)
qed

lemma take_5_magic: "take 5 b = ascii ''EBCF'' @ [v] \<Longrightarrow> 20 \<le> length b \<Longrightarrow>
    take 5 ((take 20 b)[4 := w] @ r) = ascii ''EBCF'' @ [w]"
  by (simp add: take_update_swap min_def ascii_def)

lemma convert_v2_valid:
  assumes "validate_v2_config b = Inr r"
  shows "\<exists>c. convert_v2_preserving_mqtt b = Inr c \<and> validate_v3_config c = Inr r \<and>
             v3_settings c = v2_settings b"
proof -
  note v = validate_v2_packed [OF assms]
  let ?hd = "(take 20 b)[4 := 3]"
  let ?c = "?hd @ zeros 20 @ drop 24 b"
  have hd: "length ?hd = 20" "\<And>i. 5 \<le> i \<Longrightarrow> i < 20 \<Longrightarrow> ?hd ! i = b ! i"
    using v(3) by auto
  note rebase = packed_rebase [OF v(3) hd refl]
  have "pslice ?c 8 12 = pslice b 8 12"
    using v(3) hd by (intro pslice_eqI) (auto simp: nth_append)
  moreover have "pslice ?c 20 40 = zeros 20"
    using hd(1) by (simp add: slice_simps)
  moreover have "take 5 ?c = ascii ''EBCF'' @ [3]"
    using v(3,5) by (intro take_5_magic) auto
  ultimately have "validate_v3_config ?c = Inr r"
    using v3_of_packed [of ?c] rebase(1) v by simp
  then show ?thesis
    using convert_v2_form [OF assms] rebase(2) by (auto simp: v2_settings_def v3_settings_def)
qed

subsection \<open>Version 1 to version 3\<close>

lemma validate_v1_wifi:
  assumes "validate_v1_config b = Inr r"
  defines "ssid \<equiv> pslice b 16 (16 + unat (b ! 6))" and "pw \<equiv> pslice b 48 (48 + unat (b ! 7))"
  shows "length b = 112" and "take 4 b = ascii ''EBCF''" and "b ! 4 = 1" and "r = from_le (pslice b 8 12)"
    and "unat (b ! 6) \<le> 32" and "unat (b ! 7) \<le> 64"
    and "unat (b ! 5) = 0 \<and> unat (b ! 6) = 0 \<and> unat (b ! 7) = 0 \<or>
         unat (b ! 5) = 1 \<and> (\<exists>s p. utf8_decode ssid = Some s \<and> ascii_decode pw = Some p \<and>
           wifi_fields_ok \<lparr>w_ssid = s, w_password = p\<rparr>)"
proof -
  note unf = assms(1) [unfolded validate_v1_config_def Let_def res_simps sum.inject ssid_def [symmetric] pw_def [symmetric]]
  show b: "length b = 112" "take 4 b = ascii ''EBCF''" "b ! 4 = 1" "r = from_le (pslice b 8 12)"
    "unat (b ! 6) \<le> 32" "unat (b ! 7) \<le> 64"
    using unf by blast+
  show "unat (b ! 5) = 0 \<and> unat (b ! 6) = 0 \<and> unat (b ! 7) = 0 \<or>
         unat (b ! 5) = 1 \<and> (\<exists>s p. utf8_decode ssid = Some s \<and> ascii_decode pw = Some p \<and>
           wifi_fields_ok \<lparr>w_ssid = s, w_password = p\<rparr>)"
  proof (cases "unat (b ! 5) = 0")
    case True
    with unf show ?thesis by (simp add: res_simps)
  next
    case False
    with unf obtain s where one: "unat (b ! 5) = 1" and s: "utf8_decode ssid = Some s"
      and sz: "1 \<le> unat (b ! 6)" "8 \<le> unat (b ! 7)"
      and ctrl: "list_all (\<lambda>c. 0x20 \<le> c \<and> c \<noteq> 0x7F) s"
      and pwf: "if unat (b ! 7) < 64 then list_all (\<lambda>c. 0x20 \<le> unat c \<and> unat c \<le> 0x7E) pw
                else list_all (\<lambda>c. is_hex (unat c)) pw"
      by (auto simp: res_simps)
    have lens: "length ssid = unat (b ! 6)" "length pw = unat (b ! 7)"
      using b by (simp_all add: ssid_def pw_def)
    have "list_all (\<lambda>c. unat c < 128) pw"
      using pwf by (auto simp: list_all_iff is_hex_def is_digit_def split: if_splits)
    then have p: "ascii_decode pw = Some (map unat pw)"
      by (simp add: ascii_decode_def)
    have "wifi_password_ok (map unat pw)"
      using pwf lens sz b(6) by (auto simp: wifi_password_ok_def list_all_iff split: if_splits)
    moreover have "\<not> list_ex text_ctrl s"
      using ctrl by (auto simp: list_all_iff list_ex_iff text_ctrl_def)
    moreover have "utf8_encode s = Some ssid"
      by (rule utf8.enc_dec [OF s])
    ultimately have "wifi_fields_ok \<lparr>w_ssid = s, w_password = map unat pw\<rparr>"
      using lens sz b(5) by (simp add: wifi_fields_ok_def)
    with one s p show ?thesis by blast
  qed
qed

lemma convert_v1_form:
  assumes "validate_v1_config b = Inr r"
  shows "convert_v1_wifi_only b = Inr ((ascii ''EBCF'' @ [3, b ! 5, b ! 6, b ! 7] @ pslice b 8 12 @ zeros 28) @
    pslice b 16 (16 + unat (b ! 6)) @ pslice b 48 (48 + unat (b ! 7)))"
proof -
  have len: "length b = 112"
    by (rule validate_v1_wifi(1) [OF assms])
  have 1: "set_slice (zeros 40) 0 4 (ascii ''EBCF'') = ascii ''EBCF'' @ zeros 36"
    by (simp add: set_slice_def zeros_def)
  have 2: "(ascii ''EBCF'' @ zeros 36)[4 := 3, 5 := x] = ascii ''EBCF'' @ [3, x] @ zeros 34" for x
    by (simp add: ascii_def zeros_def numeral_eq_Suc)
  have 3: "set_slice (ascii ''EBCF'' @ [3, x] @ zeros 34) 6 8 [y, z] = ascii ''EBCF'' @ [3, x, y, z] @ zeros 32" for x y z
    by (simp add: set_slice_def ascii_def zeros_def)
  have 4: "set_slice (ascii ''EBCF'' @ [3, x, y, z] @ zeros 32) 8 12 q = ascii ''EBCF'' @ [3, x, y, z] @ q @ zeros 28" for x y z q
    by (simp add: set_slice_def ascii_def zeros_def)
  have "pslice b 6 8 = [b ! 6, b ! 7]"
    using len by (intro nth_equalityI) (auto simp: nth_pslice nth_Cons numeral_eq_Suc split: nat.splits)
  then show ?thesis
    using assms by (simp only: convert_v1_wifi_only_def Let_def 1 2 3 4 bindE_Inr)
qed


lemma convert_v1_valid:
  assumes "validate_v1_config b = Inr r"
  shows "\<exists>c. convert_v1_wifi_only b = Inr c \<and> validate_v3_config c = Inr r \<and> v3_settings c = v1_settings b"
proof -
  note v = validate_v1_wifi [OF assms]
  let ?s = "pslice b 16 (16 + unat (b ! 6))" and ?p = "pslice b 48 (48 + unat (b ! 7))"
  let ?h = "ascii ''EBCF'' @ [3, b ! 5, b ! 6, b ! 7] @ pslice b 8 12 @ zeros 28"
  let ?c = "?h @ ?s @ ?p"
  have h: "length ?h = 40" and len: "length ?s = unat (b ! 6)" "length ?p = unat (b ! 7)"
    using v by simp_all
  have hdr: "?c ! 5 = b ! 5" "?c ! 6 = b ! 6" "?c ! 7 = b ! 7" "?c ! 12 = 0" "?c ! 13 = 0"
    using v(1) by (simp_all add: ascii_def nth_append zeros_def)
  have rev: "pslice ?c 8 12 = pslice b 8 12"
    using v(1) by (simp add: slice_simps ascii_def)
  have zs: "pslice ?c i j = zeros (j - i)" if "12 \<le> i" "i \<le> j" "j \<le> 40" for i j
  proof -
    have "pslice ?c i j = pslice (zeros 28) (i - 12) (j - 12)"
      using that v(1) h by (simp add: slice_simps ascii_def)
    then show ?thesis using that by (simp add: pslice_zeros)
  qed
  have ns: "packed_lengths ?c = [unat (b ! 6), unat (b ! 7), 0, 0, 0, 0]"
    by (simp only: packed_lengths_def hdr zs) simp
  have body: "pslice ?c (40 + i) (40 + j) = pslice (?s @ ?p) i j" for i j
    using h by (simp only: pslice_append_right) simp
  have f0: "pslice ?c 40 (40 + unat (b ! 6)) = ?s"
    using body [of 0 "unat (b ! 6)"] len by simp
  have f1: "pslice ?c (40 + unat (b ! 6)) (40 + unat (b ! 6) + unat (b ! 7)) = ?p"
    using body [of "unat (b ! 6)" "unat (b ! 6) + unat (b ! 7)"] len by (simp add: slice_simps add.assoc)
  have fs: "fst (take_fields ?c 40 (packed_lengths ?c)) ! 0 = ?s" "fst (take_fields ?c 40 (packed_lengths ?c)) ! 1 = ?p"
    by (simp_all only: ns take_fields.simps Let_def split_beta fst_conv nth_Cons_0 One_nat_def nth_Cons_Suc f0 f1)
  have port: "from_le (pslice ?c 18 20) = 0"
    by (simp only: zs) simp
  have sum: "sum_list (packed_lengths ?c) = unat (b ! 6) + unat (b ! 7)" by (simp only: ns) simp
  have lc: "length ?c = 40 + unat (b ! 6) + unat (b ! 7)"
    using h len by (simp only: length_append)
  have b5: "b ! 5 = 0 \<or> b ! 5 = 1"
    using v(7) by (auto simp add: word_unat_eq_iff)
  then have bits: "\<not> bit (b ! 5) 1" "bit (b ! 5) 0 \<longleftrightarrow> b ! 5 = 1"
    by auto
  have "packed_ok 40 ?c"
    unfolding packed_ok_def Let_def hdr fs port sum lc
    using v(7) b5 by (auto simp only: ns) auto
  moreover have "take 5 ?c = ascii ''EBCF'' @ [3]"
    by (simp add: ascii_def)
  moreover have "length ?c \<le> 7618"
    using lc v(5,6) by linarith
  moreover have "pslice ?c 20 40 = zeros 20"
    by (simp only: zs) simp
  ultimately have "validate_v3_config ?c = Inr r"
    using v3_of_packed [of ?c] v(4) rev by (simp only:)
  moreover have "v3_settings ?c = v1_settings b"
    unfolding v3_settings_def packed_settings_def Let_def split_beta packed_lengths_def [symmetric] fs
    unfolding v1_settings_def hdr rev by (simp only: bits if_False fst_conv)
  ultimately show ?thesis
    using convert_v1_form [OF assms] by (simp only: append_assoc) blast
qed


subsection \<open>Both conversions implement the interface\<close>

lemma validate_v3_revision: "validate_v3_config b = Inr r \<Longrightarrow> r = from_le (pslice b 8 12)"
  by (simp add: validate_v3_config_def Let_def res_simps)

interpretation v1: config_format validate_v1_config v1_settings
  by unfold_locales (simp add: v1_settings_def validate_v1_wifi(4) [symmetric])

interpretation v2: config_format validate_v2_config v2_settings
  by unfold_locales (simp add: validate_v2_packed(2) [symmetric] v2_settings_def packed_settings_def split_beta)

interpretation v3: config_format validate_v3_config v3_settings
  by unfold_locales (simp add: validate_v3_revision [symmetric] v3_settings_def packed_settings_def split_beta)

interpretation v1_to_v3: config_migration validate_v1_config v1_settings validate_v3_config v3_settings
    convert_v1_wifi_only
  by unfold_locales (blast intro: convert_v1_valid, simp add: convert_v1_wifi_only_def)

interpretation v2_to_v3: config_migration validate_v2_config v2_settings validate_v3_config v3_settings
    convert_v2_preserving_mqtt
  by unfold_locales (blast intro: convert_v2_valid, simp add: convert_v2_preserving_mqtt_def)

subsection \<open>Properties\<close>

text \<open>
  C12: migrating a version 1 record.  Whenever the preflight accepts the 112-byte record, the
  conversion succeeds, the native tool's version 3 check accepts the result with the same revision,
  and the Wi-Fi settings are the same bytes (with no MQTT settings invented).
\<close>

theorem v1_migration_preserves_settings:
  "validate_v1_config b = Inr r \<Longrightarrow>
     \<exists>c. convert_v1_wifi_only b = Inr c \<and> validate_v3_config c = Inr r \<and> v3_settings c = v1_settings b"
  by (rule v1_to_v3.convert_valid)

theorem v1_migration_preserves_settings_witness:
  "\<exists>c. convert_v1_wifi_only
         (ascii ''EBCF'' @ [1, 1, 4, 8, 7, 0, 0, 0] @ zeros 4 @ ascii ''home'' @ zeros 28 @ ascii ''password'' @ zeros 56)
         = Inr c \<and> validate_v3_config c = Inr 7 \<and>
       wifi_settings (v3_settings c) = Some (ascii ''home'', ascii ''password'')"
proof -
  let ?b = "ascii ''EBCF'' @ [1, 1, 4, 8, 7, 0, 0, 0] @ zeros 4 @ ascii ''home'' @ zeros 28 @ ascii ''password'' @ zeros 56"
  have "validate_v1_config ?b = Inr 7" by code_simp
  note * = v1_migration_preserves_settings [OF this]
  have "wifi_settings (v1_settings ?b) = Some (ascii ''home'', ascii ''password'')" by code_simp
  with * show ?thesis by auto
qed

text \<open>A version 2 record with both parts configured, and its check evaluated.\<close>

definition sample_v2_ca :: string where
  "sample_v2_ca = ''-----BEGIN CERTIFICATE----------END CERTIFICATE-----''"

definition sample_v2_fields :: "bytes list" where
  "sample_v2_fields =
     map ascii [''home'', ''password'', ''b.x'', ''u'', ''pw'', sample_v2_ca]"

definition sample_v2_record :: bytes where
  "sample_v2_record =
     ascii ''EBCF'' @ [2, 3, 4, 8, 9, 0, 0, 0, 3, 1, 2, 0, 52, 0, 0xB3, 0x22] @ zeros 4 @
     concat sample_v2_fields @ replicate 32 1"

lemma sample_v2_credentials: "credential_ok 128 (str ''u'')" "credential_ok 256 (str ''pw'')"
  by (simp_all add: credential_ok_def str_def credential_char_bad_def utf8_encode1_def)

lemma sample_v2_ca_ok: "ca_pem_ok 4096 (str sample_v2_ca)"
  by (simp add: ca_pem_ok_def str_def pem_char_def sample_v2_ca_def)

lemma sample_v2_checks: "host_ok (str ''b.x'')" "key_hex_ok (hex (replicate 32 1))"
  "wifi_fields_ok \<lparr>w_ssid = str ''home'', w_password = str ''password''\<rparr>"
  by (code_simp, code_simp, simp add: wifi_fields_ok_def, code_simp)

lemma sample_v2_texts:
  "utf8_decode (ascii ''home'') = Some (str ''home'')" "utf8_decode (ascii ''u'') = Some (str ''u'')"
  "utf8_decode (ascii ''pw'') = Some (str ''pw'')" "ascii_decode (ascii ''b.x'') = Some (str ''b.x'')"
  "ascii_decode (ascii ''password'') = Some (str ''password'')"
  "ascii_decode (ascii sample_v2_ca) = Some (str sample_v2_ca)"
  by (code_simp)+

lemma sample_v2_valid: "validate_v2_config sample_v2_record = Inr 9"
proof -
  have ca: "length sample_v2_ca = 52"
    by (simp add: sample_v2_ca_def)
  have "v2_values 3 [4, 8, 3, 1, 2, 52] 8883 sample_v2_fields (replicate 32 1) = Inr ()"
    by (simp add: v2_values_eq_Inr sample_v2_fields_def sample_v2_texts sample_v2_checks sample_v2_credentials
        sample_v2_ca_ok mqtt_fields_ok_def bit_numeral_rec)
  moreover have "take_fields sample_v2_record 24 [4, 8, 3, 1, 2, 52] = (sample_v2_fields, 94)"
    by (simp add: sample_v2_record_def sample_v2_fields_def slice_simps ca)
  ultimately show ?thesis
    by (simp add: validate_v2_config_def)
       (simp add: sample_v2_record_def sample_v2_fields_def slice_simps nth_append bit_numeral_rec ca)
qed

text \<open>
  Migrating a version 2 record.  Whenever the preflight accepts the record, the conversion
  succeeds, the version 3 check accepts the result with the same revision, and the Wi-Fi and MQTT
  settings (credentials, certificate, port and management key) are the same bytes.
\<close>

theorem v2_migration_preserves_settings:
  "validate_v2_config b = Inr r \<Longrightarrow>
     \<exists>c. convert_v2_preserving_mqtt b = Inr c \<and> validate_v3_config c = Inr r \<and> v3_settings c = v2_settings b"
  by (rule v2_to_v3.convert_valid)

theorem v2_migration_preserves_settings_witness:
  "\<exists>c. convert_v2_preserving_mqtt sample_v2_record = Inr c \<and> validate_v3_config c = Inr 9 \<and>
     v3_settings c = v2_settings sample_v2_record"
  using v2_migration_preserves_settings [OF sample_v2_valid] .

end
