(* ===== verification/Digests.thy ===== *)
theory Digests
  imports Octets
begin

unbundle bit_operations_syntax

text \<open>
  The digests of Python's standard library the tools call: \<^verbatim>\<open>zlib.crc32\<close> (with its start value),
  \<^verbatim>\<open>hashlib.sha256\<close>, \<^verbatim>\<open>hashlib.md5\<close> and \<^verbatim>\<open>hmac.new(key, message, sha256)\<close>.  They are defined
  as their standards (RFC 1952, FIPS 180-4, RFC 1321, RFC 2104) define them.  What the clients rely
  on is the interface \<open>digest_function\<close>: a digest has a fixed width, and its hexadecimal text
  determines it.
\<close>

subsection \<open>CRC-32\<close>

definition crc32_bit :: "32 word \<Rightarrow> 32 word" where
  "crc32_bit c = (if bit c 0 then drop_bit 1 c XOR 0xEDB88320 else drop_bit 1 c)"

definition crc32_byte :: "32 word \<Rightarrow> 8 word \<Rightarrow> 32 word" where
  "crc32_byte c b = (crc32_bit ^^ 8) (c XOR ucast b)"

text \<open>\<^verbatim>\<open>zlib.crc32(data, value)\<close>: the running checksum \<open>value\<close> is complemented on the way in and out.\<close>

definition crc32_from :: "bytes \<Rightarrow> 32 word \<Rightarrow> nat" where
  "crc32_from data v = unat (NOT (foldl crc32_byte (NOT v) data))"

definition crc32 :: "bytes \<Rightarrow> nat" where
  "crc32 data = crc32_from data 0"

lemma crc32_from_less: "crc32_from data v < 2 ^ 32"
  unfolding crc32_from_def by (rule order_less_le_trans [OF unsigned_less]) simp

subsection \<open>SHA-256\<close>

definition sha256_k :: "32 word list" where
  "sha256_k =
    [1116352408, 1899447441, 3049323471, 3921009573, 961987163, 1508970993,
     2453635748, 2870763221, 3624381080, 310598401, 607225278, 1426881987,
     1925078388, 2162078206, 2614888103, 3248222580, 3835390401, 4022224774,
     264347078, 604807628, 770255983, 1249150122, 1555081692, 1996064986,
     2554220882, 2821834349, 2952996808, 3210313671, 3336571891, 3584528711,
     113926993, 338241895, 666307205, 773529912, 1294757372, 1396182291,
     1695183700, 1986661051, 2177026350, 2456956037, 2730485921, 2820302411,
     3259730800, 3345764771, 3516065817, 3600352804, 4094571909, 275423344,
     430227734, 506948616, 659060556, 883997877, 958139571, 1322822218,
     1537002063, 1747873779, 1955562222, 2024104815, 2227730452, 2361852424,
     2428436474, 2756734187, 3204031479, 3329325298]"

definition sha256_init :: "32 word list" where
  "sha256_init =
    [1779033703, 3144134277, 1013904242, 2773480762, 1359893119, 2600822924,
     528734635, 1541459225]"

definition word_bytes_be :: "32 word \<Rightarrow> bytes" where
  "word_bytes_be w = [ucast (drop_bit 24 w), ucast (drop_bit 16 w), ucast (drop_bit 8 w), ucast w]"

fun words_be :: "bytes \<Rightarrow> 32 word list" where
  "words_be (a # b # c # d # r) =
     (push_bit 24 (ucast a) OR push_bit 16 (ucast b) OR push_bit 8 (ucast c) OR ucast d) # words_be r"
| "words_be _ = []"

definition sha256_pad :: "bytes \<Rightarrow> bytes" where
  "sha256_pad m = m @ 0x80 # zeros ((119 - length m mod 64) mod 64) @ to_be 8 (8 * length m)"

text \<open>The message schedule, newest word first.\<close>

definition sha256_extend :: "32 word list \<Rightarrow> 32 word list" where
  "sha256_extend ws =
     (let w15 = ws ! 14; w2 = ws ! 1;
          s0 = word_rotr 7 w15 XOR word_rotr 18 w15 XOR drop_bit 3 w15;
          s1 = word_rotr 17 w2 XOR word_rotr 19 w2 XOR drop_bit 10 w2
      in (ws ! 15 + s0 + ws ! 6 + s1) # ws)"

definition sha256_schedule :: "bytes \<Rightarrow> 32 word list" where
  "sha256_schedule block = rev ((sha256_extend ^^ 48) (rev (words_be block)))"

definition sha256_round :: "32 word list \<Rightarrow> 32 word \<times> 32 word \<Rightarrow> 32 word list" where
  "sha256_round st kw = (case (st, kw) of
      ([a, b, c, d, e, f, g, h], (k, w)) \<Rightarrow>
        (let s1 = word_rotr 6 e XOR word_rotr 11 e XOR word_rotr 25 e;
             ch = (e AND f) XOR (NOT e AND g);
             t1 = h + s1 + ch + k + w;
             s0 = word_rotr 2 a XOR word_rotr 13 a XOR word_rotr 22 a;
             maj = (a AND b) XOR (a AND c) XOR (b AND c);
             t2 = s0 + maj
         in [t1 + t2, a, b, c, d + t1, e, f, g])
    | _ \<Rightarrow> st)"

definition sha256_compress :: "32 word list \<Rightarrow> bytes \<Rightarrow> 32 word list" where
  "sha256_compress st block =
     map2 (+) st (foldl sha256_round st (zip sha256_k (sha256_schedule block)))"

function blocks64 :: "bytes \<Rightarrow> bytes list" where
  "blocks64 m = (if length m < 64 then [] else take 64 m # blocks64 (drop 64 m))"
  by pat_completeness auto
termination
  by (relation "measure length") auto

declare blocks64.simps [simp del]

definition sha256 :: "bytes \<Rightarrow> bytes" where
  "sha256 m = concat (map word_bytes_be (foldl sha256_compress sha256_init (blocks64 (sha256_pad m))))"

subsection \<open>MD5\<close>

definition md5_k :: "32 word list" where
  "md5_k =
    [0xd76aa478, 0xe8c7b756, 0x242070db, 0xc1bdceee, 0xf57c0faf, 0x4787c62a,
     0xa8304613, 0xfd469501, 0x698098d8, 0x8b44f7af, 0xffff5bb1, 0x895cd7be,
     0x6b901122, 0xfd987193, 0xa679438e, 0x49b40821, 0xf61e2562, 0xc040b340,
     0x265e5a51, 0xe9b6c7aa, 0xd62f105d, 0x02441453, 0xd8a1e681, 0xe7d3fbc8,
     0x21e1cde6, 0xc33707d6, 0xf4d50d87, 0x455a14ed, 0xa9e3e905, 0xfcefa3f8,
     0x676f02d9, 0x8d2a4c8a, 0xfffa3942, 0x8771f681, 0x6d9d6122, 0xfde5380c,
     0xa4beea44, 0x4bdecfa9, 0xf6bb4b60, 0xbebfbc70, 0x289b7ec6, 0xeaa127fa,
     0xd4ef3085, 0x04881d05, 0xd9d4d039, 0xe6db99e5, 0x1fa27cf8, 0xc4ac5665,
     0xf4292244, 0x432aff97, 0xab9423a7, 0xfc93a039, 0x655b59c3, 0x8f0ccc92,
     0xffeff47d, 0x85845dd1, 0x6fa87e4f, 0xfe2ce6e0, 0xa3014314, 0x4e0811a1,
     0xf7537e82, 0xbd3af235, 0x2ad7d2bb, 0xeb86d391]"

definition md5_shift :: "nat \<Rightarrow> nat" where
  "md5_shift i = (if i < 16 then [7, 12, 17, 22] ! (i mod 4)
                  else if i < 32 then [5, 9, 14, 20] ! (i mod 4)
                  else if i < 48 then [4, 11, 16, 23] ! (i mod 4)
                  else [6, 10, 15, 21] ! (i mod 4))"

fun words_le :: "bytes \<Rightarrow> 32 word list" where
  "words_le (a # b # c # d # r) =
     (ucast a OR push_bit 8 (ucast b) OR push_bit 16 (ucast c) OR push_bit 24 (ucast d)) # words_le r"
| "words_le _ = []"

definition md5_pad :: "bytes \<Rightarrow> bytes" where
  "md5_pad m = m @ 0x80 # zeros ((119 - length m mod 64) mod 64) @ to_le 8 (8 * length m)"

definition md5_round :: "32 word list \<Rightarrow> 32 word list \<Rightarrow> nat \<Rightarrow> 32 word list" where
  "md5_round ws st i = (case st of
      [a, b, c, d] \<Rightarrow>
        (let (f, g) = (if i < 16 then ((b AND c) OR (NOT b AND d), i)
                       else if i < 32 then ((d AND b) OR (NOT d AND c), (5 * i + 1) mod 16)
                       else if i < 48 then (b XOR c XOR d, (3 * i + 5) mod 16)
                       else (c XOR (b OR NOT d), (7 * i) mod 16))
         in [d, b + word_rotl (md5_shift i) (a + f + md5_k ! i + ws ! g), b, c])
    | _ \<Rightarrow> st)"

definition md5_compress :: "32 word list \<Rightarrow> bytes \<Rightarrow> 32 word list" where
  "md5_compress st block = map2 (+) st (foldl (md5_round (words_le block)) st [0..<64])"

definition md5 :: "bytes \<Rightarrow> bytes" where
  "md5 m = concat (map (\<lambda>w. rev (word_bytes_be w))
     (foldl md5_compress [0x67452301, 0xefcdab89, 0x98badcfe, 0x10325476] (blocks64 (md5_pad m))))"

subsection \<open>HMAC-SHA256\<close>

definition hmac_key :: "bytes \<Rightarrow> bytes" where
  "hmac_key k = (let k' = (if length k > 64 then sha256 k else k) in k' @ zeros (64 - length k'))"

definition hmac_sha256 :: "bytes \<Rightarrow> bytes \<Rightarrow> bytes" where
  "hmac_sha256 key m =
     (let k = hmac_key key
      in sha256 (map (\<lambda>b. b XOR 0x5c) k @ sha256 (map (\<lambda>b. b XOR 0x36) k @ m)))"

subsection \<open>What the clients rely on\<close>

lemma length_sha256_round [simp]: "length (sha256_round st kw) = length st"
  by (auto simp: sha256_round_def Let_def split: list.splits prod.splits)

lemma length_foldl_pres: "(\<And>s x. length (f s x) = length s) \<Longrightarrow> length (foldl f s xs) = length s"
  by (induction xs arbitrary: s) auto

lemma length_sha256_compress: "length (sha256_compress st block) = length st"
  by (simp add: sha256_compress_def length_foldl_pres)

lemma length_concat_const: "(\<And>x. length (f x) = k) \<Longrightarrow> length (concat (map f xs)) = k * length xs"
  by (induction xs) auto

lemma length_sha256 [simp]: "length (sha256 m) = 32"
  by (simp add: sha256_def length_concat_const [where k = 4] word_bytes_be_def length_foldl_pres length_sha256_compress
      sha256_init_def)

lemma length_md5_round [simp]: "length (md5_round ws st i) = length st"
  by (auto simp: md5_round_def Let_def split: list.splits prod.splits)

lemma length_md5_compress: "length (md5_compress st block) = length st"
  by (simp add: md5_compress_def length_foldl_pres)

lemma length_md5 [simp]: "length (md5 m) = 16"
  by (simp add: md5_def length_concat_const [where k = 4] word_bytes_be_def length_foldl_pres length_md5_compress)

lemma length_hmac_sha256 [simp]: "length (hmac_sha256 key m) = 32"
  by (simp add: hmac_sha256_def Let_def)

locale digest_function =
  fixes H :: "bytes \<Rightarrow> bytes" and width :: nat
  assumes digest_width: "length (H m) = width"
begin

lemma hexdigest_width: "length (hex (H m)) = 2 * width"
  by (simp add: digest_width)

lemma hexdigest_lower: "list_all is_lower_hex (hex (H m))"
  using hex_lower by (auto simp: list_all_iff)

lemma hexdigest_eq_iff: "hex (H m) = hex bs \<longleftrightarrow> H m = bs"
  by (metis unhex_hex option.inject)

end

interpretation sha256: digest_function sha256 32
  by unfold_locales simp

interpretation md5: digest_function md5 16
  by unfold_locales simp

interpretation hmac: digest_function "hmac_sha256 key" 32 for key
  by unfold_locales simp

text \<open>A published check value of CRC-32 (the two bytes \<^verbatim>\<open>ab\<close>), on the state before the final complement.\<close>

lemma crc32_ab: "foldl crc32_byte (NOT 0) [0x61, 0x62] = NOT 0x9E83486D"
  by code_simp

end
