(* ===== verification/Archive.thy ===== *)
theory Archive
  imports Digests
begin

text \<open>
  \<^verbatim>\<open>archive_esp32_at.py\<close>: the 20 KiB archive of the persistent regions of an old ESP-AT flash
  image.  The tool checks the partition table, requires that everything outside the first sectors
  of both regions is erased, concatenates those sectors and rebuilds both regions as a self-check.

  The partition table loop \<^verbatim>\<open>for offset in range(0, TABLE_SIZE, 32)\<close> with its \<^verbatim>\<open>break\<close> and
  \<^verbatim>\<open>continue\<close> is the recursion \<open>old_table_entries\<close> over the offsets.
\<close>

named_theorems layout_simps \<open>addresses and sizes of flash regions\<close>

definition FLASH_SIZE :: nat where [layout_simps]: "FLASH_SIZE = 0x400000"
definition TABLE_OFFSET :: nat where [layout_simps]: "TABLE_OFFSET = 0x8000"
definition TABLE_SIZE :: nat where [layout_simps]: "TABLE_SIZE = 0x1000"
definition SECTOR_SIZE :: nat where [layout_simps]: "SECTOR_SIZE = 0x1000"

record old_region =
  r_name :: string
  r_address :: nat
  r_size :: nat
  r_preserved :: nat

definition OLD_REGIONS :: "old_region list" where
  "OLD_REGIONS =
     [\<lparr>r_name = ''nvs'', r_address = 0x12000, r_size = 0xe000, r_preserved = 3 * SECTOR_SIZE\<rparr>,
      \<lparr>r_name = ''at_customize'', r_address = 0x20000, r_size = 0xe0000, r_preserved = 2 * SECTOR_SIZE\<rparr>]"

definition ARCHIVE_SIZE :: nat where
  "ARCHIVE_SIZE = sum_list (map r_preserved OLD_REGIONS)"

subsection \<open>The old partition table\<close>

type_synonym old_entries = "(pystr \<times> nat \<times> nat) list"

definition entry_label :: "bytes \<Rightarrow> bytes" where
  "entry_label raw = takeWhile (\<lambda>b. b \<noteq> 0) (pslice raw 12 28)"

definition old_table_entry :: "bytes \<Rightarrow> old_entries \<Rightarrow> old_entries res" where
  "old_table_entry raw entries =
     require (take 2 raw = [0xaa, 0x50]) (archive_error ''non-standard entry'')
     (bindE (of_option (archive_error ''label is not ASCII'') (ascii_decode (entry_label raw))) (\<lambda>name.
     require (name \<noteq> [] \<and> name \<notin> set (map fst entries)) (archive_error ''label empty or repeated'')
     (Inr (entries @ [(name, from_le (pslice raw 4 8), from_le (pslice raw 8 12))]))))"

fun old_table_entries :: "bytes \<Rightarrow> nat list \<Rightarrow> old_entries \<Rightarrow> old_entries res" where
  "old_table_entries table [] entries = Inr entries"
| "old_table_entries table (offset # offsets) entries =
     (let raw = pslice table offset (offset + 32) in
      if raw = erased 32 then Inr entries
      else if take 16 raw = [0xeb, 0xeb] @ erased 14 then
        require (drop 16 raw = md5 (take offset table)) (archive_error ''table MD5'')
          (old_table_entries table offsets entries)
      else bindE (old_table_entry raw entries) (\<lambda>entries'. old_table_entries table offsets entries'))"

definition old_regions_listed :: "old_entries \<Rightarrow> unit res" where
  "old_regions_listed entries =
     for_each (\<lambda>_ r. require (map_of entries (str (r_name r)) = Some (r_address r, r_size r))
                (archive_error (''region '' @ r_name r)) (Inr ())) () OLD_REGIONS"

definition check_old_table :: "bytes \<Rightarrow> unit res" where
  "check_old_table flash =
     (let table = pslice flash TABLE_OFFSET (TABLE_OFFSET + TABLE_SIZE) in
      bindE (old_table_entries table (map (\<lambda>i. 32 * i) [0..<128]) []) old_regions_listed)"

subsection \<open>The archive\<close>

definition region_bytes :: "bytes \<Rightarrow> old_region \<Rightarrow> bytes" where
  "region_bytes flash r = pslice flash (r_address r) (r_address r + r_size r)"

definition archive_part :: "bytes \<Rightarrow> bytes list \<Rightarrow> old_region \<Rightarrow> bytes list res" where
  "archive_part flash parts r =
     (let original = region_bytes flash r in
      require (drop (r_preserved r) original = erased (r_size r - r_preserved r))
        (archive_error (''bytes outside the preserved pages of '' @ r_name r))
      (Inr (parts @ [take (r_preserved r) original])))"

definition rebuild_region :: "bytes \<Rightarrow> nat \<Rightarrow> old_region \<Rightarrow> bytes" where
  "rebuild_region archive cursor r =
     pslice archive cursor (cursor + r_preserved r) @ erased (r_size r - r_preserved r)"

definition check_rebuilt :: "bytes \<Rightarrow> bytes \<Rightarrow> nat \<Rightarrow> old_region \<Rightarrow> nat res" where
  "check_rebuilt flash archive cursor r =
     (let original = region_bytes flash r; rebuilt = rebuild_region archive cursor r in
      require (rebuilt = original \<and> sha256 rebuilt = sha256 original)
        (archive_error (''rebuilt region '' @ r_name r))
      (Inr (cursor + r_preserved r)))"

definition make_archive :: "bytes \<Rightarrow> bytes res" where
  "make_archive flash =
     bindE (check_old_table flash) (\<lambda>_.
     bindE (for_each (archive_part flash) [] OLD_REGIONS) (\<lambda>parts.
     (let archive = concat parts in
      require (length archive = ARCHIVE_SIZE) (archive_error ''archive length'')
      (bindE (for_each (check_rebuilt flash archive) 0 OLD_REGIONS) (\<lambda>_. Inr archive)))))"

subsection \<open>The archive determines both regions\<close>

lemma ARCHIVE_SIZE_val [layout_simps]: "ARCHIVE_SIZE = 0x5000"
  by (simp add: ARCHIVE_SIZE_def OLD_REGIONS_def SECTOR_SIZE_def)

definition tails_erased :: "bytes \<Rightarrow> bool" where
  "tails_erased flash =
     (pslice flash 0x15000 0x20000 = erased 0xb000 \<and> pslice flash 0x22000 0x100000 = erased 0xde000)"

definition archive_of :: "bytes \<Rightarrow> bytes" where
  "archive_of flash = pslice flash 0x12000 0x15000 @ pslice flash 0x20000 0x22000"

definition restore_regions :: "bytes \<Rightarrow> bytes \<Rightarrow> bytes" where
  "restore_regions archive flash =
     set_slice (set_slice flash 0x12000 0x20000 (take 0x3000 archive @ erased 0xb000))
       0x20000 0x100000 (drop 0x3000 archive @ erased 0xde000)"

lemma archive_parts_eq_Inr:
  "for_each (archive_part flash) [] OLD_REGIONS = Inr parts \<longleftrightarrow>
     tails_erased flash \<and> parts = [pslice flash 0x12000 0x15000, pslice flash 0x20000 0x22000]"
  by (auto simp: OLD_REGIONS_def archive_part_def region_bytes_def tails_erased_def archive_of_def SECTOR_SIZE_def
      res_simps pslice_def take_drop)

lemma tails_erased_length:
  assumes "tails_erased flash"
  shows "0x100000 \<le> length flash"
proof -
  have "length (pslice flash 0x22000 0x100000) = 0xde000"
    using assms by (simp only: tails_erased_def length_erased)
  then show ?thesis by simp
qed

lemma regions_rebuilt:
  assumes "tails_erased flash"
  shows "rebuild_region (archive_of flash) 0 (OLD_REGIONS ! 0) = region_bytes flash (OLD_REGIONS ! 0)"
    and "rebuild_region (archive_of flash) 0x3000 (OLD_REGIONS ! 1) = region_bytes flash (OLD_REGIONS ! 1)"
proof -
  have len: "length (pslice flash 0x12000 0x15000) = 0x3000" "length (pslice flash 0x20000 0x22000) = 0x2000"
    using tails_erased_length [OF assms] by simp_all
  have tails: "erased 0xb000 = pslice flash 0x15000 0x20000" "erased 0xde000 = pslice flash 0x22000 0x100000"
    using assms by (simp_all only: tails_erased_def)
  show "rebuild_region (archive_of flash) 0 (OLD_REGIONS ! 0) = region_bytes flash (OLD_REGIONS ! 0)"
    using len by (simp add: rebuild_region_def region_bytes_def OLD_REGIONS_def SECTOR_SIZE_def archive_of_def
        tails pslice_join)
  show "rebuild_region (archive_of flash) 0x3000 (OLD_REGIONS ! 1) = region_bytes flash (OLD_REGIONS ! 1)"
    using len by (simp add: rebuild_region_def region_bytes_def OLD_REGIONS_def SECTOR_SIZE_def archive_of_def
        tails slice_simps pslice_join)
qed

lemma OLD_REGIONS_list: "OLD_REGIONS = [OLD_REGIONS ! 0, OLD_REGIONS ! 1]"
  by (simp add: OLD_REGIONS_def)

lemma preserved_0: "r_preserved (OLD_REGIONS ! 0) = 0x3000"
  by (simp add: OLD_REGIONS_def SECTOR_SIZE_def)

text \<open>The self-check at the end of \<open>make_archive\<close> never fails: erased tails are all it needs.\<close>

lemma make_archive_eq_Inr:
  "make_archive flash = Inr a \<longleftrightarrow>
     check_old_table flash = Inr () \<and> tails_erased flash \<and> a = archive_of flash"
proof (cases "tails_erased flash")
  case True
  have "length (archive_of flash) = ARCHIVE_SIZE"
    using tails_erased_length [OF True] by (simp add: archive_of_def layout_simps)
  moreover have "for_each (check_rebuilt flash (archive_of flash)) 0 [OLD_REGIONS ! 0, OLD_REGIONS ! 1] =
      Inr (0x3000 + r_preserved (OLD_REGIONS ! 1))"
    by (simp add: check_rebuilt_def regions_rebuilt [OF True] preserved_0 del: One_nat_def)
  then have "for_each (check_rebuilt flash (archive_of flash)) 0 OLD_REGIONS =
      Inr (0x3000 + r_preserved (OLD_REGIONS ! 1))"
    by (simp only: OLD_REGIONS_list [symmetric])
  moreover have "for_each (archive_part flash) [] OLD_REGIONS =
      Inr [pslice flash 0x12000 0x15000, pslice flash 0x20000 0x22000]"
    using True by (simp add: archive_parts_eq_Inr)
  ultimately show ?thesis
    using True by (auto simp: make_archive_def res_simps Let_def archive_of_def)
next
  case False
  then show ?thesis
    by (simp add: make_archive_def res_simps archive_parts_eq_Inr)
qed

lemma restore_archive_of:
  assumes "tails_erased flash" and "length junk = 0xee000"
  shows "restore_regions (archive_of flash) (set_slice flash 0x12000 0x100000 junk) = flash"
proof -
  let ?p = "pslice flash"
  note len = tails_erased_length [OF assms(1)]
  have a: "take 0x3000 (archive_of flash) = ?p 0x12000 0x15000" "drop 0x3000 (archive_of flash) = ?p 0x20000 0x22000"
    using len by (simp_all add: archive_of_def)
  have tails: "erased 0xb000 = ?p 0x15000 0x20000" "erased 0xde000 = ?p 0x22000 0x100000"
    using assms(1) by (simp_all only: tails_erased_def)
  have nvs: "?p 0x12000 0x15000 @ ?p 0x15000 0x20000 = ?p 0x12000 0x20000"
    and at: "?p 0x20000 0x22000 @ ?p 0x22000 0x100000 = ?p 0x20000 0x100000"
    by (simp_all add: pslice_join)
  have "take 0x12000 flash @ ?p 0x12000 0x20000 @ ?p 0x20000 0x100000 @ drop 0x100000 flash = flash"
    by (simp add: pslice_drop_join)
  then show ?thesis
    using len assms(2) by (simp add: restore_regions_def a tails nvs at set_slice_def)
qed

subsection \<open>Properties\<close>

text \<open>
  C38: the archive is lossless.  When \<open>make_archive\<close> returns, the archive has its fixed 20 KiB size,
  and writing it back over a flash whose old regions hold any other bytes gives the original
  flash, byte for byte.
\<close>

theorem archive_restores_flash:
  assumes "make_archive flash = Inr a" and "length junk = 0xee000"
  shows "length a = ARCHIVE_SIZE \<and>
    restore_regions a (set_slice flash 0x12000 0x100000 junk) = flash"
proof -
  have "tails_erased flash" "a = archive_of flash"
    using assms(1) by (simp_all add: make_archive_eq_Inr)
  moreover from this have "length a = ARCHIVE_SIZE"
    using tails_erased_length [of flash] by (simp add: archive_of_def layout_simps)
  ultimately show ?thesis
    using restore_archive_of [OF _ assms(2)] by simp
qed

text \<open>An old flash with a table of the two regions and every other byte erased.\<close>

definition sample_entry :: "bytes \<Rightarrow> string \<Rightarrow> bytes" where
  "sample_entry place name = [0xaa, 0x50, 1, 2] @ place @ ascii name @ zeros (20 - length name)"

definition sample_old_table :: bytes where
  "sample_old_table =
     sample_entry [0, 0x20, 1, 0, 0, 0xe0, 0, 0] ''nvs'' @
     sample_entry [0, 0, 2, 0, 0, 0, 0x0e, 0] ''at_customize'' @ erased 0xfc0"

definition sample_old_flash :: bytes where
  "sample_old_flash = erased 0x8000 @ sample_old_table @ erased 0xf7000"

lemma sample_entries:
  "old_table_entry (sample_entry [0, 0x20, 1, 0, 0, 0xe0, 0, 0] ''nvs'') [] = Inr [(str ''nvs'', 0x12000, 0xe000)]"
  "old_table_entry (sample_entry [0, 0, 2, 0, 0, 0, 0x0e, 0] ''at_customize'') [(str ''nvs'', 0x12000, 0xe000)] =
     Inr [(str ''nvs'', 0x12000, 0xe000), (str ''at_customize'', 0x20000, 0xe0000)]"
  by (simp_all add: old_table_entry_def sample_entry_def entry_label_def ascii_def zeros_def str_def ascii_decode_def
      pslice_def)

lemma table_offsets: "map (\<lambda>i. 32 * i) [0..<128] = 0 # 32 # 64 # map (\<lambda>i. 32 * i) [3..<128]"
  by (simp add: upt_conv_Cons)

lemma sample_old_table_entries:
  "old_table_entries sample_old_table (map (\<lambda>i. 32 * i) [0..<128]) [] =
     Inr [(str ''nvs'', 0x12000, 0xe000), (str ''at_customize'', 0x20000, 0xe0000)]"
proof -
  let ?e = "sample_entry [0, 0x20, 1, 0, 0, 0xe0, 0, 0] ''nvs''"
  let ?f = "sample_entry [0, 0, 2, 0, 0, 0, 0x0e, 0] ''at_customize''"
  have l: "length ?e = 32" "length ?f = 32"
    by (simp_all add: sample_entry_def)
  have e: "pslice sample_old_table 0 32 = ?e" "pslice sample_old_table 32 64 = ?f"
    "pslice sample_old_table 64 96 = erased 32"
    using l by (simp_all add: sample_old_table_def slice_simps erased_def)
  have "hd ?e = 0xaa" "hd ?f = 0xaa" "hd (erased 32) = 0xff"
    by (simp_all add: sample_entry_def erased_def)
  then have ne: "?e \<noteq> erased 32" "?f \<noteq> erased 32"
    by auto
  have ne': "take 16 ?e \<noteq> [0xeb, 0xeb] @ erased 14" "take 16 ?f \<noteq> [0xeb, 0xeb] @ erased 14"
    by (simp_all add: sample_entry_def)
  show ?thesis
    by (simp only: table_offsets old_table_entries.simps Let_def)
       (simp add: e ne ne' [simplified] sample_entries del: pslice_0)
qed

lemma sample_old_flash_archived: "make_archive sample_old_flash = Inr (archive_of sample_old_flash)"
proof -
  have l: "length sample_old_table = 0x1000"
    by (simp add: sample_old_table_def sample_entry_def)
  then have "pslice sample_old_flash 0x8000 0x9000 = sample_old_table"
    by (simp add: sample_old_flash_def slice_simps)
  then have "check_old_table sample_old_flash = Inr ()"
    by (simp add: check_old_table_def layout_simps sample_old_table_entries old_regions_listed_def OLD_REGIONS_def str_def)
  moreover have "tails_erased sample_old_flash"
    using l by (simp add: tails_erased_def sample_old_flash_def erased_def slice_simps)
  ultimately show ?thesis
    by (simp add: make_archive_eq_Inr)
qed

theorem archive_restores_flash_witness:
  "restore_regions (archive_of sample_old_flash) (set_slice sample_old_flash 0x12000 0x100000 (zeros 0xee000)) =
     sample_old_flash"
  using archive_restores_flash [OF sample_old_flash_archived, of "zeros 0xee000"] by simp

end
