(* ===== verification/Flash_Layout.thy ===== *)
theory Flash_Layout
  imports Archive Python_Values
begin

text \<open>
  The flash layouts of \<^verbatim>\<open>prepare_native_layout.py\<close>: the table \<^verbatim>\<open>LAYOUTS\<close>, the partition table as
  the pinned SDK's parser returns it, and the check that a source flash has exactly the layout the
  operator named.

  The SDK's \<^verbatim>\<open>gen_esp32part.py\<close> is third-party code.  Its two uses are parameters:
  \<open>sdk_parse raw\<close> stands for \<^verbatim>\<open>PartitionTable.from_binary\<close> with \<^verbatim>\<open>verify\<close> and
  \<^verbatim>\<open>verify_size_fits\<close> (\<open>None\<close> when one of them raises), and \<open>sdk_generate csv disable_md5\<close> for the
  subprocess that compiles a CSV file (\<open>None\<close> when its exit status is not zero).

  A key that a layout of \<^verbatim>\<open>LAYOUTS\<close> lacks is a \<open>None\<close> field; a subscript with it raises
  \<^verbatim>\<open>KeyError\<close> (\<open>key_of\<close>).  Dictionaries are association lists without duplicate keys, compared
  with \<open>dict_eq\<close>, which ignores the order.
\<close>

definition APP_OFFSETS :: "nat \<times> nat" where [layout_simps]: "APP_OFFSETS = (0x20000, 0x200000)"
definition APP_SIZE :: nat where [layout_simps]: "APP_SIZE = 0x1e0000"

datatype target = Esp32 | Esp32c3

record layout =
  l_name :: string
  l_target :: target
  l_native :: bool
  l_apps :: "(nat \<times> nat) option"
  l_app_size :: "nat option"
  l_otadata :: "nat option"
  l_store :: "(nat \<times> nat) option"
  l_packages :: "(nat \<times> nat) option"
  l_scratch :: "nat option"
  l_phy :: "nat option"

definition bare_layout :: "string \<Rightarrow> target \<Rightarrow> layout" where
  "bare_layout n t = \<lparr>l_name = n, l_target = t, l_native = False, l_apps = None, l_app_size = None,
     l_otadata = None, l_store = None, l_packages = None, l_scratch = None, l_phy = None\<rparr>"

definition c3_product :: layout where
  "c3_product = (bare_layout ''c3_product'' Esp32c3)\<lparr>l_apps := Some (0x20000, 0x150000), l_app_size := Some 0x130000,
     l_otadata := Some 0xf000, l_store := Some (0x3f5000, 0xb000), l_packages := Some (0x280000, 0x165000),
     l_scratch := Some 0x3e5000, l_phy := Some 0x11000\<rparr>"

definition esp32_product :: layout where
  "esp32_product = (bare_layout ''esp32_product'' Esp32)\<lparr>l_apps := Some (0x20000, 0x140000), l_app_size := Some 0x120000,
     l_otadata := Some 0x10000, l_store := Some (0x3fa000, 0x6000), l_packages := Some (0x260000, 0x186000),
     l_scratch := Some 0x3ea000, l_phy := Some 0xf000\<rparr>"

definition c3_v1 :: layout where
  "c3_v1 = (bare_layout ''c3_v1'' Esp32c3)\<lparr>l_apps := Some APP_OFFSETS, l_app_size := Some APP_SIZE,
     l_otadata := Some 0xf000, l_store := Some (0x3e0000, 0x20000), l_phy := Some 0x11000\<rparr>"

definition esp32_at :: layout where
  "esp32_at = bare_layout ''esp32_at'' Esp32"

definition c3_mqtt_factory :: layout where
  "c3_mqtt_factory = bare_layout ''c3_mqtt_factory'' Esp32c3"

definition c3_native :: layout where
  "c3_native = (bare_layout ''c3_native'' Esp32c3)\<lparr>l_native := True, l_apps := Some APP_OFFSETS,
     l_app_size := Some APP_SIZE, l_otadata := Some 0xf000, l_store := Some (0x3f5000, 0xb000),
     l_phy := Some 0x11000, l_scratch := Some 0x3e5000\<rparr>"

definition esp32_native :: layout where
  "esp32_native = (bare_layout ''esp32_native'' Esp32)\<lparr>l_native := True, l_apps := Some APP_OFFSETS,
     l_app_size := Some APP_SIZE, l_otadata := Some 0x10000, l_store := Some (0x3fa000, 0x6000),
     l_phy := Some 0xf000, l_scratch := Some 0x3ea000\<rparr>"

definition LAYOUTS :: "layout list" where
  "LAYOUTS = [c3_product, esp32_product, c3_v1, esp32_at, c3_mqtt_factory, c3_native, esp32_native]"

lemmas layout_defs = bare_layout_def c3_product_def esp32_product_def c3_v1_def esp32_at_def c3_mqtt_factory_def
  c3_native_def esp32_native_def

definition layout_named :: "string \<Rightarrow> layout res" where
  "layout_named n = of_option (Raise KeyError n) (find (\<lambda>l. l_name l = n) LAYOUTS)"

definition key_of :: "string \<Rightarrow> 'a option \<Rightarrow> 'a res" where
  "key_of k v = of_option (Raise KeyError k) v"

lemma key_of_Some [simp]: "key_of k (Some v) = Inr v"
  by (simp add: key_of_def)

lemma key_of_eq_Inr [res_simps]: "key_of k v = Inr x \<longleftrightarrow> v = Some x"
  by (simp add: key_of_def res_simps)

subsection \<open>Helpers of the tool\<close>

definition u32 :: "bytes \<Rightarrow> nat \<Rightarrow> nat" where
  "u32 raw offset = from_le (pslice raw offset (offset + 4))"

definition digest :: "bytes \<Rightarrow> pystr" where
  "digest raw = hex (sha256 raw)"

subsection \<open>Partition tables\<close>

record partition =
  p_name :: pystr
  p_type :: nat
  p_subtype :: nat
  p_offset :: nat
  p_size :: nat
  p_encrypted :: bool
  p_readonly :: bool

type_synonym fields = "nat \<times> nat \<times> nat \<times> nat \<times> nat"
type_synonym entries = "(pystr \<times> fields) list"

definition dict_eq :: "('k \<times> 'v) list \<Rightarrow> ('k \<times> 'v) list \<Rightarrow> bool" where
  "dict_eq d e = (set d = set e)"

definition partition_fields :: "partition \<Rightarrow> fields" where
  "partition_fields p =
     (p_type p, p_subtype p, p_offset p, p_size p, (if p_encrypted p then 1 else 0) + (if p_readonly p then 2 else 0))"

definition parse_table :: "(bytes \<Rightarrow> partition list option) \<Rightarrow> bytes \<Rightarrow> entries res" where
  "parse_table sdk_parse raw =
     bindE (of_option (migration ''partition table parse, MD5 or geometry'') (sdk_parse (take 0xc00 raw))) (\<lambda>table.
     require (distinct (map p_name table)) (migration ''repeated partition label'')
     (require (list_all (\<lambda>p. \<not> p_encrypted p) table) (migration ''encrypted partition'')
     (Inr (map (\<lambda>p. (p_name p, partition_fields p)) table))))"

definition table_from_csv :: "(string \<Rightarrow> bool \<Rightarrow> bytes option) \<Rightarrow> string \<Rightarrow> bool \<Rightarrow> bytes res" where
  "table_from_csv sdk_generate path disable_md5 =
     of_option (migration ''SDK cannot generate the target partition table'') (sdk_generate path disable_md5)"

definition csv_path :: "target \<Rightarrow> string" where
  "csv_path t = (case t of Esp32c3 \<Rightarrow> ''firmware/partitions/c3-partition-table.csv''
                         | Esp32 \<Rightarrow> ''firmware/partitions/esp32-partition-table.csv'')"

text \<open>The exact table of an old Base layout: the expected first four fields per label.\<close>

definition expected_partitions :: "layout \<Rightarrow> (pystr \<times> nat \<times> nat \<times> nat \<times> nat) list res" where
  "expected_partitions layout =
     bindE (key_of ''phy'' (l_phy layout)) (\<lambda>phy.
     bindE (key_of ''otadata'' (l_otadata layout)) (\<lambda>ota.
     bindE (key_of ''apps'' (l_apps layout)) (\<lambda>(app0, app1).
     bindE (key_of ''app_size'' (l_app_size layout)) (\<lambda>app_size.
     bindE (key_of ''store'' (l_store layout)) (\<lambda>store.
     (let expected =
        [(str ''nvs'', (1, 2, 0x9000, 0x6000)), (str ''phy_init'', (1, 1, phy, 0x1000)),
         (str ''otadata'', (1, 0, ota, 0x2000)), (str ''ota_0'', (0, 0x10, app0, app_size)),
         (str ''ota_1'', (0, 0x11, app1, app_size)), (str ''base_store'', (1, 2, store)),
         (str ''coredump'', (1, 3, 0x12000, 0xe000))] in
      case l_packages layout of
        None \<Rightarrow> Inr expected
      | Some packages \<Rightarrow>
          bindE (key_of ''scratch'' (l_scratch layout)) (\<lambda>scratch.
          Inr (expected @
            [(str ''product_pkgs'', (1, 6, packages)), (str ''frp_scratch'', (1, 6, scratch, 0x10000))] @
            (if l_target layout = Esp32 then [(str ''at_old_raw'', (1, 6, 0x3e6000, 0x4000))] else [])))))))))"

definition check_old_layout ::
  "(bytes \<Rightarrow> partition list option) \<Rightarrow> (string \<Rightarrow> bool \<Rightarrow> bytes option) \<Rightarrow> bytes \<Rightarrow> layout \<Rightarrow> entries res" where
  "check_old_layout sdk_parse sdk_generate flash layout =
     bindE (parse_table sdk_parse (pslice flash TABLE_OFFSET (TABLE_OFFSET + 0x1000))) (\<lambda>table.
     if l_native layout then
       bindE (table_from_csv sdk_generate (csv_path (l_target layout)) (l_target layout = Esp32)) (\<lambda>expected.
       if pslice flash TABLE_OFFSET (TABLE_OFFSET + length expected) \<noteq> expected
       then Inl (migration ''not the exact native partition text'')
       else bindE (parse_table sdk_parse expected) (\<lambda>t.
         require (dict_eq table t) (migration ''not the exact native partition text'') (Inr table)))
     else if layout = esp32_at then
       bindE (check_old_table flash) (\<lambda>_. Inr table)
     else if layout = c3_mqtt_factory then
       require (dict_eq table [(str ''nvs'', (1, 2, 0x9000, 0x6000, 0)), (str ''phy_init'', (1, 1, 0xf000, 0x1000, 0)),
                               (str ''factory'', (0, 0, 0x10000, 0x100000, 0))])
         (migration ''not the exact C3 factory layout'') (Inr table)
     else
       bindE (expected_partitions layout) (\<lambda>expected.
       require (set (map fst table) = set (map fst expected) \<and>
                list_all (\<lambda>(name, a, b, c, d). case map_of table name of
                    Some (a', b', c', d', _) \<Rightarrow> (a', b', c', d') = (a, b, c, d) | None \<Rightarrow> False) expected)
         (migration ''not the exact old layout'')
       (require (list_all (\<lambda>(name, _, _, _, _, flags). flags = (if name = str ''at_old_raw'' then 2 else 0)) table)
         (migration ''old layout flags'')
       (Inr table))))"

end
