(* ===== verification/Otadata.thy ===== *)
theory Otadata
  imports Flash_Layout "HOL-Library.AList"
begin

text \<open>
  The boot selector records (\<^verbatim>\<open>otadata\<close>): \<open>ota_selection\<close> of \<^verbatim>\<open>prepare_native_layout.py\<close> and
  \<open>audit_otadata_and_slots\<close> of \<^verbatim>\<open>preflight_v3_migration.py\<close>.  Each of the two 4 KiB copies starts
  with a 32-byte record: a sequence number, a state and the CRC-32 of the sequence number.  Both
  tools stop at an unconfirmed (NEW or PENDING_VERIFY) record.

  The report lines of the audit are kept as the values they interpolate (\<open>report_line\<close>).
\<close>

subsection \<open>Python's max\<close>

text \<open>\<^verbatim>\<open>max\<close> keeps the first of several maximal elements.\<close>

fun py_max :: "('a \<Rightarrow> 'a \<Rightarrow> bool) \<Rightarrow> 'a list \<Rightarrow> 'a option" where
  "py_max lt [] = None"
| "py_max lt (x # xs) = Some (foldl (\<lambda>m y. if lt m y then y else m) x xs)"

definition lex_less :: "nat \<times> nat \<Rightarrow> nat \<times> nat \<Rightarrow> bool" where
  "lex_less a b = (fst a < fst b \<or> fst a = fst b \<and> snd a < snd b)"

subsection \<open>The selection of the migration tool\<close>

definition ota_crc :: "bytes \<Rightarrow> nat" where
  "ota_crc sequence = crc32_from sequence 0xffffffff"

type_synonym slot_states = "(nat \<times> nat \<times> nat) list"

definition slot_of :: "nat \<Rightarrow> nat" where
  "slot_of sequence = (sequence - 1) mod 2"

definition ota_step :: "bytes \<Rightarrow> nat \<Rightarrow> slot_states \<Rightarrow> nat \<Rightarrow> slot_states res" where
  "ota_step flash otadata states index =
     (let at = otadata + index * 0x1000; raw = pslice flash at (at + 32) in
      if raw = erased 32 then Inr states
      else
        (let sequence = u32 raw 0; state = u32 raw 24 in
         require (sequence \<noteq> 0 \<and> sequence \<noteq> 0xffffffff \<and> (state = 2 \<or> state = 3 \<or> state = 4) \<and>
                  u32 raw 28 = ota_crc (take 4 raw))
           (migration ''otadata damaged, NEW, PENDING or undefined'')
         (let slot = slot_of sequence in
          Inr (case map_of states slot of
                 None \<Rightarrow> AList.update slot (sequence, state) states
               | Some (newest, _) \<Rightarrow>
                   if newest < sequence then AList.update slot (sequence, state) states else states))))"

definition ota_selection :: "bytes \<Rightarrow> layout \<Rightarrow> (nat \<times> (nat \<times> nat) list) res" where
  "ota_selection flash layout =
     bindE (key_of ''otadata'' (l_otadata layout)) (\<lambda>otadata.
     bindE (for_each (ota_step flash otadata) [] [0, 1]) (\<lambda>states.
     (let valid = map (\<lambda>(slot, sequence, state). (sequence, slot)) (filter (\<lambda>(slot, sequence, state). state = 2) states) in
      bindE (of_option (migration ''no VALID boot slot'') (py_max lex_less valid)) (\<lambda>best.
      Inr (snd best, map (\<lambda>(slot, sequence, state). (slot, state)) states)))))"

subsection \<open>The audit of the preflight\<close>

definition state_name :: "nat \<Rightarrow> string option" where
  "state_name s =
     map_of [(0, ''NEW''), (1, ''PENDING_VERIFY''), (2, ''VALID''), (3, ''INVALID''), (4, ''ABORTED''),
             (0xFFFFFFFF, ''UNDEFINED'')] s"

datatype report_line =
    SlotLine nat string string pystr
  | SelectedLine nat nat nat

definition audit_entry :: "bytes \<Rightarrow> nat \<Rightarrow> (nat \<times> nat) option res" where
  "audit_entry ota index =
     (let raw = pslice ota (index * 0x1000) (index * 0x1000 + 32) in
      if raw = erased 32 then Inr None
      else
        (let sequence = from_le (take 4 raw); state = from_le (pslice raw 24 28); crc = from_le (pslice raw 28 32) in
         require (sequence \<noteq> 0 \<and> sequence \<noteq> 0xFFFFFFFF \<and> state_name state \<noteq> None \<and> ota_crc (take 4 raw) = crc)
           (preflight ''otadata copy sequence, state or CRC'')
         (Inr (Some (sequence, state)))))"

text \<open>The records present, each with the index of its copy.\<close>

definition indexed :: "(nat \<times> nat) option list \<Rightarrow> (nat \<times> nat \<times> nat) list" where
  "indexed entries =
     concat (map (\<lambda>(i, e). case e of None \<Rightarrow> [] | Some (sequence, state) \<Rightarrow> [(i, sequence, state)])
       (enumerate 0 entries))"

definition audit_selected :: "(nat \<times> nat) option list \<Rightarrow> (nat \<times> nat \<times> nat) res" where
  "audit_selected entries =
     require (list_all (\<lambda>e. case e of None \<Rightarrow> True | Some (_, state) \<Rightarrow> state \<noteq> 0 \<and> state \<noteq> 1) entries)
       (preflight ''NEW or PENDING_VERIFY record'')
     (bindE (of_option (preflight ''no selectable slot'')
        (py_max (\<lambda>(i, s, _) (i', s', _). s < s' \<or> s = s' \<and> i' < i)
           (filter (\<lambda>(i, s, st). st \<noteq> 3 \<and> st \<noteq> 4) (indexed entries)))) (\<lambda>(i, sequence, state).
      require (state = 2) (preflight ''selected record is not VALID'') (Inr (i, sequence, slot_of sequence))))"

definition slot_line :: "bytes \<Rightarrow> (nat \<times> nat) option list \<Rightarrow> nat \<Rightarrow> nat \<Rightarrow> nat \<Rightarrow> report_line res" where
  "slot_line flash entries selected_slot slot offset =
     (let image = pslice flash offset (offset + APP_SIZE) in
      require (length image = APP_SIZE) (preflight ''slot incomplete'')
      (let status = (if image = erased APP_SIZE then ''empty'' else if image ! 0 = 0xE9 then ''image-header''
                     else ''unrecognized'') in
       require (slot \<noteq> selected_slot \<or> status = ''image-header'') (preflight ''selected slot has no image header'')
       (let matching = filter (\<lambda>(i, s, st). slot_of s = slot) (indexed entries);
            state_text = (case py_max (\<lambda>(_, s, _) (_, s', _). s < s') matching of
                None \<Rightarrow> ''NO_RECORD'' | Some (_, _, st) \<Rightarrow> the (state_name st)) in
        Inr (SlotLine slot status state_text (digest image)))))"

definition audit_otadata_and_slots :: "bytes \<Rightarrow> report_line list res" where
  "audit_otadata_and_slots flash =
     (let ota = pslice flash 0xF000 (0xF000 + 0x2000) in
      require (length ota = 0x2000) (preflight ''otadata incomplete'')
      (bindE (audit_entry ota 0) (\<lambda>e0. bindE (audit_entry ota 1) (\<lambda>e1.
       bindE (audit_selected [e0, e1]) (\<lambda>(index, sequence, selected_slot).
       bindE (slot_line flash [e0, e1] selected_slot 0 (fst APP_OFFSETS)) (\<lambda>line0.
       bindE (slot_line flash [e0, e1] selected_slot 1 (snd APP_OFFSETS)) (\<lambda>line1.
       Inr [line0, line1, SelectedLine index selected_slot sequence])))))))"

subsection \<open>What the selection reads\<close>

text \<open>The record of one copy, where it is present and the migration tool accepts it.\<close>

definition ota_record :: "bytes \<Rightarrow> nat \<Rightarrow> (nat \<times> nat) option" where
  "ota_record flash at =
     (let raw = pslice flash at (at + 32) in
      if raw = erased 32 then None else Some (u32 raw 0, u32 raw 24))"

definition ota_record_ok :: "bytes \<Rightarrow> nat \<Rightarrow> bool" where
  "ota_record_ok flash at =
     (let raw = pslice flash at (at + 32) in
      raw = erased 32 \<or>
      u32 raw 0 \<noteq> 0 \<and> u32 raw 0 \<noteq> 0xffffffff \<and> u32 raw 24 \<in> {2, 3, 4} \<and> u32 raw 28 = ota_crc (take 4 raw))"

definition records_states :: "(nat \<times> nat) option \<Rightarrow> (nat \<times> nat) option \<Rightarrow> slot_states" where
  "records_states r0 r1 = (case (r0, r1) of
      (None, None) \<Rightarrow> []
    | (Some (s, st), None) \<Rightarrow> [(slot_of s, s, st)]
    | (None, Some (s, st)) \<Rightarrow> [(slot_of s, s, st)]
    | (Some (s, st), Some (s', st')) \<Rightarrow>
        if slot_of s \<noteq> slot_of s' then [(slot_of s, s, st), (slot_of s', s', st')]
        else if s < s' then [(slot_of s, s', st')] else [(slot_of s, s, st)])"

lemma ota_step_eq_Inr:
  "ota_step flash base states i = Inr states' \<longleftrightarrow>
     ota_record_ok flash (base + i * 0x1000) \<and>
     states' = (case ota_record flash (base + i * 0x1000) of
        None \<Rightarrow> states
      | Some (s, st) \<Rightarrow>
          (case map_of states (slot_of s) of
             None \<Rightarrow> AList.update (slot_of s) (s, st) states
           | Some (newest, _) \<Rightarrow> if newest < s then AList.update (slot_of s) (s, st) states else states))"
  by (auto simp: ota_step_def ota_record_ok_def ota_record_def Let_def res_simps split: option.splits)

lemma ota_steps_eq_Inr:
  "for_each (ota_step flash base) [] [0, 1] = Inr states \<longleftrightarrow>
     ota_record_ok flash base \<and> ota_record_ok flash (base + 0x1000) \<and>
     states = records_states (ota_record flash base) (ota_record flash (base + 0x1000))"
  by (auto simp: res_simps ota_step_eq_Inr records_states_def split: option.splits prod.splits)

lemma ota_selection_eq_Inr:
  "ota_selection flash layout = Inr (slot, states) \<longleftrightarrow>
     (\<exists>base sts s. l_otadata layout = Some base \<and>
       ota_record_ok flash base \<and> ota_record_ok flash (base + 0x1000) \<and>
       sts = records_states (ota_record flash base) (ota_record flash (base + 0x1000)) \<and>
       py_max lex_less (map (\<lambda>(slot, sequence, state). (sequence, slot))
         (filter (\<lambda>(slot, sequence, state). state = 2) sts)) = Some (s, slot) \<and>
       states = map (\<lambda>(slot, sequence, state). (slot, state)) sts)"
  by (auto simp: ota_selection_def res_simps Let_def ota_steps_eq_Inr simp del: for_each.simps One_nat_def)

definition otadata_records :: "bytes \<Rightarrow> nat \<Rightarrow> (nat \<times> nat) list" where
  "otadata_records flash base =
     List.map_filter (ota_record flash) [base, base + 0x1000]"

lemma otadata_records_ok:
  assumes "ota_record_ok flash base" "ota_record_ok flash (base + 0x1000)" "(s, st) \<in> set (otadata_records flash base)"
  shows "st \<in> {2, 3, 4}"
  using assms by (auto simp: otadata_records_def ota_record_ok_def ota_record_def Let_def
      split: if_splits option.splits)

lemma records_states_newest:
  assumes "(slot, s, st) \<in> set (records_states r0 r1)"
  shows "slot_of s = slot" and "r0 = Some (s, st) \<or> r1 = Some (s, st)"
    and "r0 = Some (s', st') \<or> r1 = Some (s', st') \<Longrightarrow> slot_of s' = slot \<Longrightarrow> s' \<le> s"
  using assms by (cases r0; cases r1; auto simp: records_states_def split: if_splits)+

lemma py_max_greatest:
  fixes f :: "'a \<Rightarrow> nat"
  assumes "py_max lt xs = Some m" and "\<And>a b. lt a b \<Longrightarrow> f a \<le> f b" and "\<And>a b. \<not> lt a b \<Longrightarrow> f b \<le> f a"
  shows "m \<in> set xs" and "x \<in> set xs \<Longrightarrow> f x \<le> f m"
proof -
  have "foldl (\<lambda>m y. if lt m y then y else m) a ys \<in> set (a # ys) \<and>
      (\<forall>x \<in> set (a # ys). f x \<le> f (foldl (\<lambda>m y. if lt m y then y else m) a ys))" for a ys
  proof (induction ys arbitrary: a)
    case (Cons y ys)
    show ?case
      using Cons.IH [of y] Cons.IH [of a] assms(2) [of a y] assms(3) [of a y]
      by (cases "lt a y") (auto intro: order_trans)
  qed simp
  with assms(1) show "m \<in> set xs" "x \<in> set xs \<Longrightarrow> f x \<le> f m"
    by (cases xs; force)+
qed

lemma py_max_is_Some: "xs \<noteq> [] \<Longrightarrow> \<exists>m. py_max lt xs = Some m"
  by (cases xs) auto

lemma py_max_lex_less:
  assumes "py_max lex_less xs = Some m"
  shows "m \<in> set xs" and "x \<in> set xs \<Longrightarrow> fst x \<le> fst m"
  by (rule py_max_greatest [OF assms, where f = fst]; auto simp: lex_less_def)+

lemma records_states_valid:
  assumes "r0 = Some (s', 2) \<or> r1 = Some (s', 2)" and "(slot, s, 2) \<in> set (records_states r0 r1)"
  shows "(slot_of s', s', 2) \<in> set (records_states r0 r1) \<or> s' \<le> s"
  using assms by (cases r0; cases r1) (auto simp: records_states_def split: if_splits)

lemma records_states_max:
  assumes "py_max lex_less (map (\<lambda>(slot, sequence, state). (sequence, slot))
      (filter (\<lambda>(slot, sequence, state). state = 2) (records_states r0 r1))) = Some (s, slot)"
  shows "(slot, s, 2) \<in> set (records_states r0 r1)"
    and "r0 = Some (s', 2) \<or> r1 = Some (s', 2) \<Longrightarrow> s' \<le> s"
proof -
  show *: "(slot, s, 2) \<in> set (records_states r0 r1)"
    using py_max_lex_less(1) [OF assms] by auto
  assume "r0 = Some (s', 2) \<or> r1 = Some (s', 2)"
  from records_states_valid [OF this *] show "s' \<le> s"
    using py_max_lex_less(2) [OF assms, of "(s', slot_of s')"] by force
qed
lemma map_of_records_states:
  "(slot, s, st) \<in> set (records_states r0 r1) \<Longrightarrow>
     map_of (map (\<lambda>(slot, sequence, state). (slot, state)) (records_states r0 r1)) slot = Some st"
  by (cases r0; cases r1; auto simp: records_states_def split: if_splits)

text \<open>A well-formed VALID record, as a bootloader or the candidate builder writes it.\<close>

definition valid_record :: "nat \<Rightarrow> bytes" where
  "valid_record sequence =
     to_le 4 sequence @ erased 20 @ to_le 4 2 @ to_le 4 (ota_crc (to_le 4 sequence))"

lemma length_valid_record [simp]: "length (valid_record n) = 32"
  by (simp add: valid_record_def)

lemma ota_crc_less: "ota_crc bs < 256 ^ 4"
  using crc32_from_less [of bs] by (simp add: ota_crc_def)

lemma valid_record_read:
  assumes "pslice flash at (at + 32) = valid_record n" and "0 < n" and "n < 0xffffffff"
  shows "ota_record_ok flash at" and "ota_record flash at = Some (n, 2)"
proof -
  have seq: "u32 (valid_record n) 0 = n"
    using assms(3) by (simp add: valid_record_def u32_def slice_simps from_le_to_le)
  have st: "u32 (valid_record n) 24 = 2"
    by (simp add: valid_record_def u32_def slice_simps from_le_to_le)
  have crc: "u32 (valid_record n) 28 = ota_crc (take 4 (valid_record n))"
    using ota_crc_less by (simp add: valid_record_def u32_def slice_simps from_le_to_le)
  have "to_le 4 2 = [2, 0, 0, 0]"
    by code_simp
  then have "valid_record n ! 24 = 2"
    by (simp add: valid_record_def nth_append)
  then have ne: "valid_record n \<noteq> erased 32"
    by (auto simp: erased_def)
  show "ota_record_ok flash at"
    unfolding ota_record_ok_def assms(1) Let_def using seq st crc assms(2,3) by simp
  show "ota_record flash at = Some (n, 2)"
    unfolding ota_record_def assms(1) Let_def using seq st ne by simp
qed

text \<open>Two VALID records with sequence numbers 1 and 2 select the second slot.\<close>

lemma ota_selection_two_valid:
  assumes "l_otadata layout = Some base" and "pslice flash base (base + 32) = valid_record 1"
    and "pslice flash (base + 0x1000) (base + 0x1000 + 32) = valid_record 2"
  shows "ota_selection flash layout = Inr (1, [(0, 2), (1, 2)])"
  using valid_record_read [OF assms(2)] valid_record_read [OF assms(3)] assms(1)
  by (simp add: ota_selection_eq_Inr records_states_def lex_less_def slot_of_def)

definition sample_c3_flash :: bytes where
  "sample_c3_flash =
     erased 0xF000 @ valid_record 1 @ erased 0xfe0 @ valid_record 2 @ erased 0xffe0 @
     0xE9 # erased 0x1dffff @ 0xE9 # erased 0x1fffff"

lemma sample_c3_selection: "ota_selection sample_c3_flash c3_v1 = Inr (1, [(0, 2), (1, 2)])"
  by (rule ota_selection_two_valid [where base = "0xF000"])
     (simp_all add: sample_c3_flash_def layout_defs slice_simps)

text \<open>
  C14: the selected slot.  When \<open>ota_selection\<close> returns, every record present is confirmed or
  rejected (never NEW, PENDING_VERIFY or UNDEFINED), the selected slot is the slot of a VALID record
  that is the newest of its slot, and no VALID record has a greater sequence number.
\<close>

theorem ota_selection_newest_valid:
  assumes "ota_selection flash layout = Inr (slot, states)" and "l_otadata layout = Some base"
  shows "\<exists>s. (s, 2) \<in> set (otadata_records flash base) \<and> slot_of s = slot \<and> map_of states slot = Some 2 \<and>
    (\<forall>(s', st') \<in> set (otadata_records flash base).
       st' \<in> {2, 3, 4} \<and> (slot_of s' = slot \<longrightarrow> s' \<le> s) \<and> (st' = 2 \<longrightarrow> s' \<le> s))"
proof -
  let ?r0 = "ota_record flash base" and ?r1 = "ota_record flash (base + 0x1000)"
  from assms obtain s where ok: "ota_record_ok flash base" "ota_record_ok flash (base + 0x1000)"
    and best: "py_max lex_less (map (\<lambda>(slot, sequence, state). (sequence, slot))
        (filter (\<lambda>(slot, sequence, state). state = 2) (records_states ?r0 ?r1))) = Some (s, slot)"
    and states: "states = map (\<lambda>(slot, sequence, state). (slot, state)) (records_states ?r0 ?r1)"
    by (auto simp: ota_selection_eq_Inr)
  note in_states = records_states_max(1) [OF best]
  have mem: "r \<in> set (otadata_records flash base) \<longleftrightarrow> ?r0 = Some r \<or> ?r1 = Some r" for r
    by (auto simp: otadata_records_def split: option.splits)
  have "(s, 2) \<in> set (otadata_records flash base)" "slot_of s = slot" "map_of states slot = Some 2"
    using records_states_newest(1,2) [OF in_states] map_of_records_states [OF in_states]
    by (simp_all add: mem states)
  moreover have "st' \<in> {2, 3, 4} \<and> (slot_of s' = slot \<longrightarrow> s' \<le> s) \<and> (st' = 2 \<longrightarrow> s' \<le> s)"
    if "(s', st') \<in> set (otadata_records flash base)" for s' st'
    using otadata_records_ok [OF ok that] records_states_newest(3) [OF in_states] records_states_max(2) [OF best]
      that mem by metis
  ultimately show ?thesis by blast
qed

theorem ota_selection_newest_valid_witness:
  "\<exists>s. (s, 2) \<in> set (otadata_records sample_c3_flash 0xF000) \<and> slot_of s = 1"
  using ota_selection_newest_valid [OF sample_c3_selection, of "0xF000"] by (auto simp: layout_defs)

lemma audit_entry_of_record:
  assumes "ota_record_ok flash (0xF000 + i * 0x1000)" "i < 2"
  shows "audit_entry (pslice flash 0xF000 0x11000) i = Inr (ota_record flash (0xF000 + i * 0x1000))"
proof -
  have "pslice (pslice flash 0xF000 0x11000) (i * 0x1000) (i * 0x1000 + 32) =
      pslice flash (0xF000 + i * 0x1000) (0xF000 + i * 0x1000 + 32)"
    using assms(2) by (simp add: pslice_pslice add.assoc min_def)
  then show ?thesis
    using assms(1) by (auto simp: audit_entry_def ota_record_ok_def ota_record_def u32_def Let_def state_name_def)
qed

lemma audit_selected_of_selection:
  assumes best: "py_max lex_less (map (\<lambda>(slot, sequence, state). (sequence, slot))
        (filter (\<lambda>(slot, sequence, state). state = 2) (records_states r0 r1))) = Some (s, slot)"
    and states: "\<And>s st. r0 = Some (s, st) \<or> r1 = Some (s, st) \<Longrightarrow> st \<in> {2, 3, 4}"
  shows "\<exists>i s. audit_selected [r0, r1] = Inr (i, s, slot)"
proof -
  let ?lt = "\<lambda>(i, s, _) (i', s', _). s < s' \<or> s = s' \<and> i' < (i :: nat)"
  let ?sel = "filter (\<lambda>(i, s, st). st \<noteq> 3 \<and> st \<noteq> 4) (indexed [r0, r1])"
  have idx: "(\<exists>i. (i, s, st) \<in> set (indexed [r0, r1])) \<longleftrightarrow> r0 = Some (s, st) \<or> r1 = Some (s, st)" for s st
    by (cases r0; cases r1) (auto simp: indexed_def)
  have sel2: "(\<exists>i. (i, s, st) \<in> set ?sel) \<longleftrightarrow> st = 2 \<and> (r0 = Some (s, 2) \<or> r1 = Some (s, 2))" for s st
    using idx [of s st] states [of s st] by auto
  note mine = records_states_newest(1,2) [OF records_states_max(1) [OF best]]
  then obtain j where j: "(j, s, 2) \<in> set ?sel"
    using sel2 [of s 2] by blast
  then have "?sel \<noteq> []"
    by (metis empty_iff empty_set)
  then obtain i s' st' where m: "py_max ?lt ?sel = Some (i, s', st')"
    using py_max_is_Some [of ?sel ?lt] by auto
  have "(i, s', st') \<in> set ?sel"
    by (rule py_max_greatest(1) [OF m, where f = "fst \<circ> snd"]) auto
  then have s': "st' = 2" "r0 = Some (s', 2) \<or> r1 = Some (s', 2)"
    using sel2 [of s' st'] by blast+
  from j have "(fst \<circ> snd) (j, s, 2 :: nat) \<le> (fst \<circ> snd) (i, s', st')"
    by (intro py_max_greatest(2) [OF m, where f = "fst \<circ> snd"]) auto
  with records_states_max(2) [OF best s'(2)] have "s' = s" by simp
  moreover have "list_all (\<lambda>e. case e of None \<Rightarrow> True | Some (_, state) \<Rightarrow> state \<noteq> 0 \<and> state \<noteq> 1) [r0, r1]"
    using states by (fastforce split: option.splits)
  ultimately show ?thesis
    using m s'(1) mine(1) by (simp add: audit_selected_def)
qed

text \<open>
  The two tools agree on the boot slot.  Where the migration tool selects a slot of a complete
  flash image in the version 1 layout and that slot starts with an image header, the preflight's
  audit accepts the flash too and reports the same slot.
\<close>

theorem audit_agrees_with_selection:
  assumes "ota_selection flash c3_v1 = Inr (slot, states)" and "length flash = FLASH_SIZE"
    and "flash ! (if slot = 0 then fst APP_OFFSETS else snd APP_OFFSETS) = 0xE9"
  shows "\<exists>line0 line1 index sequence.
    audit_otadata_and_slots flash = Inr [line0, line1, SelectedLine index slot sequence]"
proof -
  let ?r0 = "ota_record flash 0xF000" and ?r1 = "ota_record flash 0x10000"
  from assms(1) obtain s where ok: "ota_record_ok flash 0xF000" "ota_record_ok flash 0x10000"
    and best: "py_max lex_less (map (\<lambda>(slot, sequence, state). (sequence, slot))
        (filter (\<lambda>(slot, sequence, state). state = 2) (records_states ?r0 ?r1))) = Some (s, slot)"
    by (auto simp: ota_selection_eq_Inr layout_defs)
  have st: "st \<in> {2, 3, 4}" if "?r0 = Some (s, st) \<or> ?r1 = Some (s, st)" for s st
    using that ok by (auto simp: ota_record_ok_def ota_record_def Let_def split: if_splits)
  obtain i s' where sel: "audit_selected [?r0, ?r1] = Inr (i, s', slot)"
    using audit_selected_of_selection [OF best] st by blast
  have slot: "slot = 0 \<or> slot = 1"
    using records_states_newest(1) [OF records_states_max(1) [OF best]] by (auto simp: slot_of_def)
  have e: "audit_entry (pslice flash 0xF000 0x11000) 0 = Inr ?r0" "audit_entry (pslice flash 0xF000 0x11000) 1 = Inr ?r1"
    using audit_entry_of_record [of flash 0] audit_entry_of_record [of flash 1] ok by simp_all
  have "\<exists>l. slot_line flash [?r0, ?r1] slot n off = Inr l"
    if off: "off + APP_SIZE \<le> FLASH_SIZE" and hdr: "n = slot \<Longrightarrow> flash ! off = 0xE9" for n off
  proof -
    let ?im = "pslice flash off (off + APP_SIZE)"
    have len: "length ?im = APP_SIZE"
      using off assms(2) by simp
    have "?im ! 0 = flash ! off"
      using off assms(2) nth_pslice [of off 0 "off + APP_SIZE" flash] by (simp add: layout_simps)
    with hdr have "n = slot \<Longrightarrow> ?im ! 0 = 0xE9" by simp
    moreover have "erased APP_SIZE ! 0 = 0xff"
      by (simp add: erased_def layout_simps)
    ultimately show ?thesis
      using len by (auto simp: slot_line_def Let_def require_def)
  qed
  then obtain l0 l1 where "slot_line flash [?r0, ?r1] slot 0 (fst APP_OFFSETS) = Inr l0"
    "slot_line flash [?r0, ?r1] slot 1 (snd APP_OFFSETS) = Inr l1"
    using slot assms(3) by (fastforce simp: layout_simps)
  then show ?thesis
    using assms(2) e sel by (simp add: audit_otadata_and_slots_def Let_def layout_simps)
qed

theorem audit_agrees_with_selection_witness:
  "\<exists>line0 line1 index sequence.
    audit_otadata_and_slots sample_c3_flash = Inr [line0, line1, SelectedLine index 1 sequence]"
proof -
  have "length sample_c3_flash = FLASH_SIZE"
    by (simp add: sample_c3_flash_def layout_simps)
  moreover have "sample_c3_flash ! 0x200000 = 0xE9"
    by (simp add: sample_c3_flash_def nth_append)
  ultimately show ?thesis
    using audit_agrees_with_selection [OF sample_c3_selection] by (simp add: layout_simps)
qed

end
