(* ===== verification/Image.thy ===== *)
theory Image
  imports Flash_Layout
begin

unbundle bit_operations_syntax

text \<open>
  Firmware images: \<open>signed_image\<close> of \<^verbatim>\<open>prepare_native_layout.py\<close>, which finds the exact end of the
  image that starts a flash slot (header, segments, XOR checksum, optional SHA-256, signature
  trailer) and returns those bytes, and \<open>verify_signed\<close> of \<^verbatim>\<open>build_package.py\<close>, which requires a
  signed file to be the compiled file, its padding and the signature trailer.

  The official verifier \<^verbatim>\<open>espsecure verify-signature\<close> is third-party code: the parameter
  \<open>espsecure key target image\<close> is its verdict.
\<close>

definition chip_id :: "target \<Rightarrow> nat" where
  "chip_id t = (if t = Esp32c3 then 5 else 0)"

fun image_segments :: "bytes \<Rightarrow> nat \<Rightarrow> nat \<Rightarrow> 8 word \<Rightarrow> (nat \<times> 8 word) res" where
  "image_segments raw 0 at checksum = Inr (at, checksum)"
| "image_segments raw (Suc n) at checksum =
     require (at + 8 \<le> length raw) (migration ''segment header incomplete'')
     (let size = u32 raw (at + 4); start = at + 8; at' = start + size in
      require (at' \<le> length raw) (migration ''segment out of bounds'')
      (image_segments raw n at' (foldl (XOR) checksum (pslice raw start at'))))"

definition image_header_ok :: "target \<Rightarrow> bytes \<Rightarrow> bool" where
  "image_header_ok t raw =
     (24 \<le> length raw \<and> raw ! 0 = 0xe9 \<and> 1 \<le> unat (raw ! 1) \<and> unat (raw ! 1) \<le> 16 \<and>
      from_le (pslice raw 12 14) = chip_id t)"

text \<open>The end of the checked body: after the checksum byte, or after the digest.\<close>

definition image_body_end :: "target \<Rightarrow> bytes \<Rightarrow> nat res" where
  "image_body_end t raw =
     require (image_header_ok t raw) (migration ''image header or chip'')
     (bindE (image_segments raw (unat (raw ! 1)) 24 0xef) (\<lambda>(at, checksum).
      (let body_end = (at + 1 + 15) div 16 * 16 in
       require (body_end \<le> length raw \<and> raw ! (body_end - 1) = checksum) (migration ''image checksum'')
       (require (raw ! 23 = 0 \<or> raw ! 23 = 1) (migration ''image hash flag'')
       (if raw ! 23 \<noteq> 0 then
          require (body_end + 32 \<le> length raw \<and> sha256 (take body_end raw) = pslice raw body_end (body_end + 32))
            (migration ''image digest'') (Inr (body_end + 32))
        else Inr body_end)))))"

definition app_descriptor_ok :: "bytes \<Rightarrow> bool" where
  "app_descriptor_ok raw =
     (288 \<le> length raw \<and> u32 raw 32 = 0xabcd5432 \<and>
      takeWhile (\<lambda>b. b \<noteq> 0) (pslice raw 80 112) = ascii ''esp_base'')"

definition signed_end :: "target \<Rightarrow> nat \<Rightarrow> nat" where
  "signed_end t body_end =
     (if t = Esp32c3 then (body_end + 4095) div 4096 * 4096 + 4096 else body_end + 68)"

definition signed_image :: "bytes \<Rightarrow> target \<Rightarrow> bool \<Rightarrow> bool \<Rightarrow> bytes res" where
  "signed_image raw t app is_signed =
     bindE (image_body_end t raw) (\<lambda>body_end.
     bindE (if app then
              require (app_descriptor_ok raw) (migration ''image is not the esp_base product'')
                (Inr (if is_signed then signed_end t body_end else body_end))
            else Inr body_end) (\<lambda>end'.
     require (end' \<le> length raw) (migration ''signed image exceeds the slot'') (Inr (take end' raw))))"

definition verify_signature :: "('k \<Rightarrow> target \<Rightarrow> bytes \<Rightarrow> bool) \<Rightarrow> bytes \<Rightarrow> 'k option \<Rightarrow> target \<Rightarrow> unit res" where
  "verify_signature espsecure raw key t = (case key of
      None \<Rightarrow> Inl (migration ''verification key required'')
    | Some k \<Rightarrow> require (espsecure k t raw) (migration ''signature verification failed'') (Inr ()))"

definition SLOT_BYTES :: nat where [layout_simps]: "SLOT_BYTES = 0x1e0000"

definition padding_to_4096 :: "nat \<Rightarrow> nat" where
  "padding_to_4096 n = nat (- int n mod 4096)"

definition verify_signed :: "('k \<Rightarrow> target \<Rightarrow> bytes \<Rightarrow> bool) \<Rightarrow> bytes \<Rightarrow> bytes \<Rightarrow> 'k \<Rightarrow> target \<Rightarrow> unit res" where
  "verify_signed espsecure data original key t =
     (let padding = (if t = Esp32c3 then padding_to_4096 (length original) else 0);
          trailer = (if t = Esp32c3 then 4096 else 68) in
      require (\<not> (length data \<noteq> length original + padding + trailer \<or> length data > SLOT_BYTES \<or>
                  take (length original + padding) data \<noteq> original @ erased padding))
        (Raise ValueError ''signed image is not the compiled bytes or exceeds the slot'')
      (require (espsecure key t data) (Raise SubprocessError ''espsecure'') (Inr ())))"

subsection \<open>The result depends on the image bytes only\<close>

lemma u32_take: "take n a = take n b \<Longrightarrow> i + 4 \<le> n \<Longrightarrow> u32 a i = u32 b i"
  by (metis u32_def pslice_take min.absorb1)

lemma pslice_cong: "take n a = take n b \<Longrightarrow> j \<le> n \<Longrightarrow> pslice a i j = pslice b i j"
  by (metis pslice_take min.absorb1)

lemma image_segments_le:
  "image_segments raw n at c = Inr (e, c') \<Longrightarrow> at + 8 * n \<le> e \<and> (at \<le> length raw \<longrightarrow> e \<le> length raw)"
  by (induction raw n at c arbitrary: e c' rule: image_segments.induct)
     (fastforce simp: res_simps Let_def)+

lemma image_segments_prefix:
  assumes "image_segments raw n at c = Inr (e, c')" and "take e raw' = take e raw"
    and "e \<le> length raw'"
  shows "image_segments raw' n at c = Inr (e, c')"
  using assms
proof (induction raw n at c arbitrary: e c' rule: image_segments.induct)
  case (2 raw n at checksum)
  let ?at = "at + 8 + u32 raw (at + 4)"
  from 2(2) have step: "at + 8 \<le> length raw" "?at \<le> length raw"
    and rest: "image_segments raw n ?at (foldl (XOR) checksum (pslice raw (at + 8) ?at)) = Inr (e, c')"
    by (simp_all add: res_simps Let_def)
  from image_segments_le [OF rest] have le: "?at \<le> e" by simp
  then have "u32 raw' (at + 4) = u32 raw (at + 4)" "pslice raw' (at + 8) ?at = pslice raw (at + 8) ?at"
    using 2(3) by (auto intro: u32_take pslice_cong)
  with 2 rest le step show ?case
    by (simp add: Let_def)
qed simp

lemma nth_take_cong: "take n a = take n b \<Longrightarrow> i < n \<Longrightarrow> a ! i = b ! i"
  by (metis nth_take)

lemma image_body_end_bounds:
  assumes "image_body_end t raw = Inr e"
  shows "48 \<le> e" and "e \<le> length raw"
proof -
  from assms obtain at c where hdr: "image_header_ok t raw"
    and seg: "image_segments raw (unat (raw ! 1)) 24 0xef = Inr (at, c)"
    and e: "(at + 16) div 16 * 16 \<le> e" "e \<le> length raw"
    by (auto simp: image_body_end_def res_simps Let_def split: if_splits)
  have "32 \<le> at"
    using image_segments_le [OF seg] hdr by (simp add: image_header_ok_def)
  then have "48 \<le> (at + 16) div 16 * 16" by presburger
  with e show "48 \<le> e" "e \<le> length raw" by simp_all
qed

lemma image_body_end_prefix:
  assumes "image_body_end t raw = Inr e" and "take e raw' = take e raw" and "e \<le> length raw'"
  shows "image_body_end t raw' = Inr e"
proof -
  let ?b = "\<lambda>at. (at + 1 + 15) div 16 * 16 :: nat"
  from assms(1) obtain at c where hdr: "image_header_ok t raw"
    and seg: "image_segments raw (unat (raw ! 1)) 24 0xef = Inr (at, c)"
    and chk: "raw ! (?b at - 1) = c" "raw ! 23 = 0 \<or> raw ! 23 = 1"
    and e: "raw ! 23 = 0 \<and> e = ?b at \<or>
      raw ! 23 \<noteq> 0 \<and> e = ?b at + 32 \<and> sha256 (take (?b at) raw) = pslice raw (?b at) (?b at + 32)"
    by (auto simp: image_body_end_def res_simps Let_def split: if_splits)
  note b = image_body_end_bounds [OF assms(1)]
  have be: "?b at \<le> e" "at < ?b at" "0 < ?b at"
    using e by auto
  have same: "raw' ! i = raw ! i" if "i < e" for i
    using nth_take_cong [OF assms(2) that] .
  have "pslice raw' 12 14 = pslice raw 12 14"
    by (rule pslice_cong [OF assms(2)]) (use b in simp)
  then have hdr': "image_header_ok t raw'"
    using hdr b same [of 0] same [of 1] assms(3) by (simp add: image_header_ok_def)
  have "take at raw' = take at raw"
    using arg_cong [OF assms(2), of "take at"] be by simp
  then have "image_segments raw' (unat (raw ! 1)) 24 0xef = Inr (at, c)"
    using be assms(3) by (intro image_segments_prefix [OF seg]) auto
  then have seg': "image_segments raw' (unat (raw' ! 1)) 24 0xef = Inr (at, c)"
    using same [of 1] b by simp
  have "take (?b at) raw' = take (?b at) raw"
    using arg_cong [OF assms(2), of "take (?b at)"] be by simp
  moreover have "pslice raw' (?b at) (?b at + 32) = pslice raw (?b at) (?b at + 32)" if "e = ?b at + 32"
    by (rule pslice_cong [OF assms(2)]) (use that in simp)
  moreover have "raw' ! 23 = raw ! 23" "raw' ! (?b at - 1) = raw ! (?b at - 1)"
    using same [of 23] same [of "?b at - 1"] b be by simp_all
  ultimately show ?thesis
    using hdr' seg' chk e assms(3) be by (auto simp: image_body_end_def Let_def)
qed

lemma app_descriptor_ok_prefix:
  "app_descriptor_ok raw \<Longrightarrow> take n raw' = take n raw \<Longrightarrow> 288 \<le> n \<Longrightarrow> n \<le> length raw' \<Longrightarrow> app_descriptor_ok raw'"
proof -
  assume "app_descriptor_ok raw" and same: "take n raw' = take n raw" and "288 \<le> n" "n \<le> length raw'"
  moreover from this have "u32 raw' 32 = u32 raw 32" "pslice raw' 80 112 = pslice raw 80 112"
    by (auto intro!: u32_take [OF same] pslice_cong [OF same])
  ultimately show ?thesis by (simp add: app_descriptor_ok_def)
qed

lemma padding_rounds_up: "(b + 4095) div 4096 * 4096 = b + padding_to_4096 b"
proof -
  obtain q r where b: "b = q * 4096 + r" and r: "r < 4096"
    using div_mult_mod_eq [of b 4096] mod_less_divisor [of 4096 b] by (metis zero_less_numeral)
  show ?thesis
  proof (cases "r = 0")
    case True
    then show ?thesis by (simp add: b padding_to_4096_def)
  next
    case False
    have "(b + 4095) div 4096 = q + 1"
      by (rule div_nat_eqI) (use b r False in simp_all)
    moreover have "- int b mod 4096 = 4096 - int r"
      by (rule int_mod_pos_eq [where q = "- int q - 1"]) (use b r False in simp_all)
    ultimately show ?thesis
      using r by (simp add: b padding_to_4096_def)
  qed
qed

lemma signed_end_ge: "body_end \<le> signed_end t body_end"
  by (simp add: signed_end_def padding_rounds_up)

lemma signed_image_eq_Inr:
  "signed_image raw t app sg = Inr img \<longleftrightarrow>
     (\<exists>b e. image_body_end t raw = Inr b \<and> (app \<longrightarrow> app_descriptor_ok raw) \<and>
        e = (if app \<and> sg then signed_end t b else b) \<and> e \<le> length raw \<and> img = take e raw)"
  by (auto simp: signed_image_def res_simps split: if_splits)

lemma signed_image_whole:
  assumes "signed_image raw t app False = Inr raw"
  shows "image_body_end t raw = Inr (length raw)" and "app \<longrightarrow> app_descriptor_ok raw"
proof -
  from assms obtain b where "image_body_end t raw = Inr b" "app \<longrightarrow> app_descriptor_ok raw" "b \<le> length raw"
    "raw = take b raw"
    by (auto simp: signed_image_eq_Inr)
  moreover from this have "b = length raw"
    by (metis length_take min.absorb2)
  ultimately show "image_body_end t raw = Inr (length raw)" "app \<longrightarrow> app_descriptor_ok raw"
    by simp_all
qed

lemma signed_image_pad:
  assumes "signed_image raw t app sg = Inr img" and "app \<longrightarrow> 288 \<le> length img"
  shows "signed_image (img @ pad) t app sg = Inr img"
proof -
  from assms(1) obtain b e where b: "image_body_end t raw = Inr b" and app: "app \<longrightarrow> app_descriptor_ok raw"
    and e: "e = (if app \<and> sg then signed_end t b else b)" "e \<le> length raw" "img = take e raw"
    by (auto simp: signed_image_eq_Inr)
  have be: "b \<le> e"
    using e(1) signed_end_ge [of b t] by (auto split: if_splits)
  have same: "take n (img @ pad) = take n raw" if "n \<le> e" for n
    using that e(2,3) by (simp add: min_absorb1)
  have len: "e \<le> length (img @ pad)" "length img = e"
    using e(2,3) by simp_all
  have "image_body_end t (img @ pad) = Inr b"
    using be len by (intro image_body_end_prefix [OF b] same) simp_all
  moreover have "app \<longrightarrow> app_descriptor_ok (img @ pad)"
    using app app_descriptor_ok_prefix [of raw e "img @ pad"] assms(2) len same [of e] by simp
  moreover have "img = take e (img @ pad)"
    using len by simp
  ultimately show ?thesis
    unfolding signed_image_eq_Inr using e(1) len(1) by blast
qed

text \<open>
  What a client relies on when it stores an image in a larger slot: the parser finds the image at
  the front of the slot, and whatever follows the image does not matter.
\<close>

locale self_delimiting =
  fixes parse :: "bytes \<Rightarrow> bytes res" and big :: "bytes \<Rightarrow> bool"
  assumes prefix: "parse raw = Inr img \<Longrightarrow> \<exists>rest. raw = img @ rest"
    and pad: "parse raw = Inr img \<Longrightarrow> big img \<Longrightarrow> parse (img @ pad) = Inr img"
begin

lemma parse_parsed: "parse raw = Inr img \<Longrightarrow> big img \<Longrightarrow> parse img = Inr img"
  using pad [of raw img "[]"] by simp

lemma parse_slot:
  assumes "parse img = Inr img" and "big img" and "length img \<le> n"
  shows "parse (img @ erased (n - length img)) = Inr img" and "length (img @ erased (n - length img)) = n"
  using assms pad by simp_all

lemma parse_unique:
  assumes "parse (img @ r) = Inr img" "parse (img' @ r') = Inr img'" "big img" "img' @ r' = img @ s"
  shows "img' = img"
proof -
  have "parse (img @ s) = Inr img"
    using assms(1,3) pad by blast
  with assms(2,4) show ?thesis by simp
qed

end

lemma signed_image_prefix: "signed_image raw t app sg = Inr img \<Longrightarrow> \<exists>rest. raw = img @ rest"
  by (auto simp: signed_image_eq_Inr) (metis append_take_drop_id)+

interpretation app_image: self_delimiting "\<lambda>raw. signed_image raw t True sg" "\<lambda>img. 288 \<le> length img" for t sg
  by unfold_locales (auto intro: signed_image_prefix signed_image_pad)

interpretation boot_image: self_delimiting "\<lambda>raw. signed_image raw t False sg" "\<lambda>img. True" for t sg
  by unfold_locales (auto intro: signed_image_prefix signed_image_pad)

subsection \<open>Properties\<close>

text \<open>
  C17: the image found in a slot is exact.  \<open>signed_image\<close> returns the bytes at the front of the slot,
  and from those bytes alone, or with any other bytes after them, it returns the same image again
  (for an application image that contains its 288-byte descriptor area).
\<close>

theorem signed_image_exact:
  assumes "signed_image raw t app is_signed = Inr img" and "app \<longrightarrow> 288 \<le> length img"
  shows "take (length img) raw = img \<and> signed_image (img @ pad) t app is_signed = Inr img"
  using signed_image_prefix [OF assms(1)] signed_image_pad [OF assms] by auto

text \<open>A small application image: one segment that holds the descriptor.\<close>

definition sample_app :: bytes where
  "sample_app =
     [0xe9, 1] @ zeros 22 @ [0, 0, 0, 0, 8, 1, 0, 0] @ [0x32, 0x54, 0xcd, 0xab] @ zeros 44 @ ascii ''esp_base'' @
     zeros 208 @ zeros 7 @ [0xc3]"

lemma xor_zeros: "foldl (XOR) c (zeros n) = (c :: 8 word)"
  by (induction n arbitrary: c) (auto simp: zeros_def)

lemma sample_app_header: "image_header_ok Esp32 sample_app"
  by (simp add: image_header_ok_def sample_app_def chip_id_def zeros_def slice_simps eval_nat_numeral)

lemma sample_app_unsigned: "signed_image sample_app Esp32 True False = Inr sample_app"
proof -
  have segs: "image_segments sample_app 1 24 0xef = Inr (296, 0xc3)"
    by (simp add: sample_app_def Let_def u32_def slice_simps zeros_def ascii_def xor_zeros [unfolded zeros_def])
  note sample_app_header
  moreover have "sample_app ! 1 = 1" "sample_app ! 23 = 0" "sample_app ! 303 = 0xc3" "length sample_app = 304"
    by (simp_all add: sample_app_def nth_append zeros_def)
  moreover have "app_descriptor_ok sample_app"
    by (simp add: app_descriptor_ok_def sample_app_def u32_def slice_simps zeros_def ascii_def)
  ultimately show ?thesis
    using segs by (simp add: signed_image_def image_body_end_def)
qed

theorem signed_image_exact_witness:
  "take 304 sample_app = sample_app \<and> signed_image (sample_app @ erased 9) Esp32 True False = Inr sample_app"
proof -
  have "length sample_app = 304"
    by (simp add: sample_app_def)
  with signed_image_exact [OF sample_app_unsigned, of "erased 9"] show ?thesis by simp
qed

text \<open>
  C18: a packaged image is a complete signed image.  When the package build accepts a signed file
  for a compiled application image, the migration tool reads that file as exactly one complete
  signed image: both tools compute the same geometry of padding and signature trailer.
\<close>

theorem packaged_image_is_complete:
  assumes "verify_signed espsecure data original key t = Inr ()"
    and "signed_image original t True False = Inr original"
  shows "signed_image data t True True = Inr data"
proof -
  let ?p = "if t = Esp32c3 then padding_to_4096 (length original) else 0"
  let ?tr = "if t = Esp32c3 then 4096 else 68"
  from assms(1) have len: "length data = length original + ?p + ?tr"
    and front: "take (length original + ?p) data = original @ erased ?p"
    by (simp_all add: verify_signed_def Let_def res_simps)
  obtain b where b: "image_body_end t original = Inr b" and app: "app_descriptor_ok original" and bl: "b = length original"
    using signed_image_whole [OF assms(2)] by blast
  have same: "take b data = take b original"
    using arg_cong [OF front, of "take b"] bl by simp
  have "image_body_end t data = Inr b"
    using len bl by (intro image_body_end_prefix [OF b] same) simp
  moreover have "app_descriptor_ok data"
    using app_descriptor_ok_prefix [OF app same] app bl len by (simp add: app_descriptor_ok_def)
  moreover have "signed_end t b = length data"
  proof -
    have "(b + 4095) div 4096 * 4096 = b + padding_to_4096 b" by (rule padding_rounds_up)
    with len bl show ?thesis by (simp add: signed_end_def)
  qed
  ultimately show ?thesis
    by (auto simp: signed_image_eq_Inr)
qed

theorem packaged_image_is_complete_witness:
  "signed_image (sample_app @ zeros 68) Esp32 True True = Inr (sample_app @ zeros 68)"
proof -
  have "length sample_app = 304"
    by (simp add: sample_app_def)
  then have "verify_signed (\<lambda>k t d. True) (sample_app @ zeros 68) sample_app () Esp32 = Inr ()"
    by (simp add: verify_signed_def layout_simps erased_def)
  from packaged_image_is_complete [OF this sample_app_unsigned] show ?thesis .
qed

end
