(* ===== verification/Candidate.thy ===== *)
theory Candidate
  imports Otadata Image
begin

text \<open>
  \<open>build_candidate\<close> of \<^verbatim>\<open>prepare_native_layout.py\<close>: the complete flash image of the native layout.
  The source image is copied and eight slice assignments overwrite the bootloader area, the
  partition table, both application slots, the boot selector, the configuration store and, on the
  ESP32, the archive of the old AT regions.  The assignments are the list \<open>candidate_writes\<close> in
  program order; every other byte of the source image stays.
\<close>

definition boot_offset :: "target \<Rightarrow> nat" where
  "boot_offset t = (if t = Esp32c3 then 0 else 0x1000)"

definition ota_offset :: "target \<Rightarrow> nat" where
  "ota_offset t = (if t = Esp32c3 then 0xf000 else 0x10000)"

definition store_offset :: "target \<Rightarrow> nat" where
  "store_offset t = (if t = Esp32c3 then 0x3f5000 else 0x3fa000)"

lemmas offset_defs = boot_offset_def ota_offset_def store_offset_def

definition ota_image :: bytes where
  "ota_image =
     foldl (\<lambda>ota index.
       (let at = index * 0x1000; sequence = to_le 4 (index + 1);
            ota = set_slice ota at (at + 4) sequence;
            ota = set_slice ota (at + 24) (at + 28) (to_le 4 2)
        in set_slice ota (at + 28) (at + 32) (to_le 4 (ota_crc sequence))))
       (erased 0x2000) [0, 1]"

definition slot_image :: "bytes \<Rightarrow> bytes" where
  "slot_image app = app @ erased (APP_SIZE - length app)"

type_synonym writes = "(nat \<times> nat \<times> bytes) list"

definition candidate_writes :: "target \<Rightarrow> bytes \<Rightarrow> bytes \<Rightarrow> bytes \<Rightarrow> bytes \<Rightarrow> writes" where
  "candidate_writes t app bootloader table store =
     [(boot_offset t, TABLE_OFFSET, erased (TABLE_OFFSET - boot_offset t)),
      (boot_offset t, boot_offset t + length bootloader, bootloader),
      (TABLE_OFFSET, 0x9000, table @ erased (0x1000 - length table)),
      (fst APP_OFFSETS, fst APP_OFFSETS + APP_SIZE, slot_image app),
      (snd APP_OFFSETS, snd APP_OFFSETS + APP_SIZE, slot_image app),
      (ota_offset t, ota_offset t + 0x2000, ota_image),
      (store_offset t, FLASH_SIZE, store)]"

definition apply_writes :: "bytes \<Rightarrow> writes \<Rightarrow> bytes" where
  "apply_writes flash ws = foldl (\<lambda>m (a, b, ys). set_slice m a b ys) flash ws"

definition bootloader_ok :: "target \<Rightarrow> bytes \<Rightarrow> bool" where
  "bootloader_ok t bootloader =
     (24 \<le> length bootloader \<and> length bootloader \<le> TABLE_OFFSET - boot_offset t \<and> bootloader ! 0 = 0xe9 \<and>
      from_le (pslice bootloader 12 14) = chip_id t)"

definition archive_writes :: "target \<Rightarrow> bytes option \<Rightarrow> writes res" where
  "archive_writes t old_at =
     (if t = Esp32 then
        (case old_at of
           None \<Rightarrow> Inl (migration ''old AT archive incomplete'')
         | Some a \<Rightarrow> require (length a = ARCHIVE_SIZE) (migration ''old AT archive incomplete'')
                       (Inr [(0x3e5000, 0x3ea000, a)]))
      else Inr [])"

definition build_candidate ::
  "(bytes \<Rightarrow> partition list option) \<Rightarrow> (string \<Rightarrow> bool \<Rightarrow> bytes option) \<Rightarrow>
   bytes \<Rightarrow> target \<Rightarrow> bytes \<Rightarrow> bytes \<Rightarrow> bytes \<Rightarrow> bytes \<Rightarrow> bytes option \<Rightarrow> bytes res" where
  "build_candidate sdk_parse sdk_generate flash t app bootloader table store old_at =
     bindE (table_from_csv sdk_generate (csv_path t) False) (\<lambda>expected.
     bindE (parse_table sdk_parse table) (\<lambda>new_table.
     bindE (parse_table sdk_parse expected) (\<lambda>target_table.
     require (dict_eq new_table target_table) (migration ''not the native target layout'')
     (require (length table \<le> 0x1000) (migration ''partition table too long'')
     (require (bootloader_ok t bootloader) (migration ''bootloader geometry or chip'')
     (let candidate = apply_writes flash (candidate_writes t app bootloader table store) in
      bindE (archive_writes t old_at) (\<lambda>ws. Inr (apply_writes candidate ws))))))))"

definition native_layout :: "target \<Rightarrow> layout" where
  "native_layout t = (if t = Esp32c3 then c3_native else esp32_native)"

subsection \<open>The boot selector of a candidate\<close>

lemma length_slot_image: "length app \<le> APP_SIZE \<Longrightarrow> length (slot_image app) = APP_SIZE"
  by (simp add: slot_image_def)

lemma erased_split: "erased (m + n) = erased m @ erased n"
  by (simp add: erased_def replicate_add)

text \<open>Both copies are VALID records, with the sequence numbers 1 and 2.\<close>

lemma ota_copy:
  assumes "length pre = n" "length a = 4" "length b = 4" "length c = 4"
  shows "set_slice (set_slice (set_slice (pre @ erased 32 @ post) n (n + 4) a)
      (n + 24) (n + 28) b) (n + 28) (n + 32) c = pre @ (a @ erased 20 @ b @ c) @ post"
proof -
  have "erased 32 = erased 4 @ erased 20 @ erased 4 @ erased 4"
    by (simp flip: erased_split)
  then show ?thesis
    using assms by (simp add: set_slice_def)
qed

lemma ota_image_eq:
  "ota_image = valid_record 1 @ erased 0xfe0 @ valid_record 2 @ erased 0xfe0"
proof -
  let ?e = "erased 0xfe0"
  have e: "erased 0x2000 = [] @ erased 32 @ ?e @ erased 32 @ ?e"
    by (simp flip: erased_split)
  have one: "set_slice (set_slice (set_slice (erased 0x2000) 0 4 (to_le 4 1)) 24 28 (to_le 4 2)) 28 32
      (to_le 4 (ota_crc (to_le 4 1))) = valid_record 1 @ ?e @ erased 32 @ ?e"
    using ota_copy [of "[]" 0 "to_le 4 1" "to_le 4 2" "to_le 4 (ota_crc (to_le 4 1))" "?e @ erased 32 @ ?e"]
    by (simp add: e valid_record_def del: One_nat_def)
  have two: "set_slice (set_slice (set_slice (valid_record 1 @ ?e @ erased 32 @ ?e) 0x1000 0x1004 (to_le 4 2))
      0x1018 0x101c (to_le 4 2)) 0x101c 0x1020 (to_le 4 (ota_crc (to_le 4 2))) =
      valid_record 1 @ ?e @ valid_record 2 @ ?e"
    using ota_copy [of "valid_record 1 @ ?e" "0x1000" "to_le 4 2" "to_le 4 2" "to_le 4 (ota_crc (to_le 4 2))" ?e]
    by (simp add: valid_record_def [of 2])
  show ?thesis
    by (simp add: ota_image_def Let_def one two del: One_nat_def)
qed

subsection \<open>What a candidate holds\<close>

definition all_writes :: "target \<Rightarrow> bytes \<Rightarrow> bytes \<Rightarrow> bytes \<Rightarrow> bytes \<Rightarrow> bytes option \<Rightarrow> writes" where
  "all_writes t app bootloader table store old_at =
     candidate_writes t app bootloader table store @
     (case (t, old_at) of (Esp32, Some a) \<Rightarrow> [(0x3e5000, 0x3ea000, a)] | _ \<Rightarrow> [])"

definition parts_ok :: "bytes \<Rightarrow> target \<Rightarrow> bytes \<Rightarrow> bytes \<Rightarrow> bytes \<Rightarrow> bytes \<Rightarrow> bytes option \<Rightarrow> bool" where
  "parts_ok flash t app bootloader table store old_at =
     (length flash = FLASH_SIZE \<and> length app \<le> APP_SIZE \<and> length bootloader \<le> TABLE_OFFSET - boot_offset t \<and>
      length table \<le> 0x1000 \<and> length store = FLASH_SIZE - store_offset t \<and>
      (t = Esp32 \<longrightarrow> (\<exists>a. old_at = Some a \<and> length a = ARCHIVE_SIZE)))"

lemma build_candidate_writes:
  assumes "build_candidate sdk_parse sdk_generate flash t app bootloader table store old_at = Inr candidate"
    and "length flash = FLASH_SIZE" "length app \<le> APP_SIZE" "length store = FLASH_SIZE - store_offset t"
  shows "parts_ok flash t app bootloader table store old_at"
    and "candidate = foldl (\<lambda>m (a, b, ys). set_slice m a b ys) flash (all_writes t app bootloader table store old_at)"
  using assms by (cases t; auto simp: build_candidate_def parts_ok_def all_writes_def apply_writes_def archive_writes_def
      bootloader_ok_def res_simps Let_def split: option.splits)+

lemma ota_image_length: "length ota_image = 0x2000"
  by (simp add: ota_image_eq)

lemma all_writes_wf:
  assumes "parts_ok flash t app bootloader table store old_at"
  shows "list_all (\<lambda>(a, b, ys). a \<le> b \<and> b \<le> length flash \<and> length ys = b - a)
    (all_writes t app bootloader table store old_at)"
  using assms
  by (cases t; cases old_at)
     (auto simp: parts_ok_def all_writes_def candidate_writes_def offset_defs layout_simps length_slot_image
       slot_image_def ota_image_length)

text \<open>The regions a candidate takes from the source flash.\<close>

definition kept_region :: "target \<Rightarrow> nat \<Rightarrow> nat \<Rightarrow> bool" where
  "kept_region t a b =
     (b \<le> boot_offset t \<or> 0x9000 \<le> a \<and> b \<le> ota_offset t \<or> ota_offset t + 0x2000 \<le> a \<and> b \<le> 0x20000 \<or>
      0x3e0000 \<le> a \<and> b \<le> store_offset t \<and> (t = Esp32 \<longrightarrow> b \<le> 0x3e5000 \<or> 0x3ea000 \<le> a))"

lemma kept_region_disjoint:
  assumes "parts_ok flash t app bootloader table store old_at" and "kept_region t c d"
  shows "list_all (\<lambda>(a, b, ys). a \<le> b \<and> b \<le> length flash \<and> length ys = b - a \<and> (d \<le> a \<or> b \<le> c))
    (all_writes t app bootloader table store old_at)"
proof -
  have "list_all (\<lambda>(a, b, ys). d \<le> a \<or> b \<le> c) (all_writes t app bootloader table store old_at)"
    using assms by (cases t; cases old_at)
      (auto simp: parts_ok_def kept_region_def all_writes_def candidate_writes_def offset_defs layout_simps)
  with all_writes_wf [OF assms(1)] show ?thesis
    by (auto simp: list_all_iff)
qed

lemma read_write:
  assumes ok: "parts_ok flash t app bootloader table store old_at"
    and k: "k < length (all_writes t app bootloader table store old_at)"
      "all_writes t app bootloader table store old_at ! k = (c, d, zs)"
    and later: "list_all (\<lambda>(a, b, ys). d \<le> a \<or> b \<le> c) (drop (Suc k) (all_writes t app bootloader table store old_at))"
  shows "pslice (foldl (\<lambda>m (a, b, ys). set_slice m a b ys) flash (all_writes t app bootloader table store old_at)) c d = zs"
proof -
  let ?ws = "all_writes t app bootloader table store old_at"
  let ?P = "\<lambda>(a, b, ys). a \<le> b \<and> b \<le> length flash \<and> length ys = b - (a :: nat)"
  have ws: "?ws = take k ?ws @ (c, d, zs) # drop (Suc k) ?ws"
    using id_take_nth_drop [OF k(1)] k(2) by simp
  have all: "list_all ?P ?ws"
    by (rule all_writes_wf [OF ok])
  have "list_all ?P (take k ?ws @ [(c, d, zs)])"
    using all by (subst (asm) ws) simp
  moreover have "list_all ?P (drop (Suc k) ?ws)"
    using all by (auto simp: list_all_iff dest: in_set_dropD)
  with later have "list_all (\<lambda>(a, b, ys). a \<le> b \<and> b \<le> length flash \<and> length ys = b - a \<and> (d \<le> a \<or> b \<le> c))
      (drop (Suc k) ?ws)"
    by (auto simp: list_all_iff)
  ultimately show ?thesis
    using flash.rd_writes_last [of flash "take k ?ws" c d zs "drop (Suc k) ?ws"] ws by simp
qed

lemma candidate_parts:
  assumes ok: "parts_ok flash t app bootloader table store old_at"
    and cand: "candidate = foldl (\<lambda>m (a, b, ys). set_slice m a b ys) flash (all_writes t app bootloader table store old_at)"
  shows "pslice candidate (boot_offset t) (boot_offset t + length bootloader) = bootloader"
    and "pslice candidate TABLE_OFFSET 0x9000 = table @ erased (0x1000 - length table)"
    and "pslice candidate (fst APP_OFFSETS) (fst APP_OFFSETS + APP_SIZE) = slot_image app"
    and "pslice candidate (snd APP_OFFSETS) (snd APP_OFFSETS + APP_SIZE) = slot_image app"
    and "pslice candidate (ota_offset t) (ota_offset t + 0x2000) = ota_image"
    and "pslice candidate (store_offset t) FLASH_SIZE = store"
    and "length candidate = FLASH_SIZE"
proof -
  let ?ws = "all_writes t app bootloader table store old_at"
  note rw = read_write [OF ok, folded cand]
  note simps = all_writes_def candidate_writes_def offset_defs layout_simps
  show "pslice candidate (boot_offset t) (boot_offset t + length bootloader) = bootloader"
  proof (rule rw [of 1])
    have bl: "length bootloader \<le> TABLE_OFFSET - boot_offset t"
      using ok by (simp only: parts_ok_def)
    show "1 < length ?ws" "?ws ! 1 = (boot_offset t, boot_offset t + length bootloader, bootloader)"
      by (simp_all add: simps)
    show "list_all (\<lambda>(a, b, ys). boot_offset t + length bootloader \<le> a \<or> b \<le> boot_offset t) (drop (Suc 1) ?ws)"
      using bl by (cases t; cases old_at) (simp_all add: simps)
  qed
  show "pslice candidate TABLE_OFFSET 0x9000 = table @ erased (0x1000 - length table)"
    by (rule rw [of 2]) (cases t; cases old_at; simp add: simps)+
  show "pslice candidate (fst APP_OFFSETS) (fst APP_OFFSETS + APP_SIZE) = slot_image app"
    by (rule rw [of 3]) (cases t; cases old_at; simp add: simps)+
  show "pslice candidate (snd APP_OFFSETS) (snd APP_OFFSETS + APP_SIZE) = slot_image app"
    by (rule rw [of 4]) (cases t; cases old_at; simp add: simps)+
  show "pslice candidate (ota_offset t) (ota_offset t + 0x2000) = ota_image"
    by (rule rw [of 5]) (cases t; cases old_at; simp add: simps)+
  show "pslice candidate (store_offset t) FLASH_SIZE = store"
    by (rule rw [of 6]) (cases t; cases old_at; simp add: simps)+
  show "length candidate = FLASH_SIZE"
    unfolding cand using flash.size_writes [OF all_writes_wf [OF ok]] ok by (simp add: parts_ok_def)
qed

lemma candidate_selection:
  assumes "pslice candidate (ota_offset t) (ota_offset t + 0x2000) = ota_image"
  shows "ota_selection candidate (native_layout t) = Inr (1, [(0, 2), (1, 2)])"
proof (rule ota_selection_two_valid [where base = "ota_offset t"])
  show "l_otadata (native_layout t) = Some (ota_offset t)"
    by (cases t) (simp_all add: native_layout_def offset_defs layout_defs)
  have "pslice candidate (ota_offset t) (ota_offset t + 32) = pslice ota_image 0 32"
    unfolding assms [symmetric] pslice_pslice by simp
  then show "pslice candidate (ota_offset t) (ota_offset t + 32) = valid_record 1"
    by (simp add: ota_image_eq)
  have "pslice candidate (ota_offset t + 0x1000) (ota_offset t + 0x1000 + 32) = pslice ota_image 0x1000 0x1020"
    unfolding assms [symmetric] pslice_pslice by (simp add: add.assoc)
  then show "pslice candidate (ota_offset t + 0x1000) (ota_offset t + 0x1000 + 32) = valid_record 2"
    by (simp add: ota_image_eq slice_simps)
qed

subsection \<open>Properties\<close>

text \<open>
  C5: a candidate keeps the rest of the device.  Apart from the bootloader, partition table,
  application, boot selector and store regions (and the archive on the ESP32), every region of the
  candidate has the bytes of the source flash: the identity and PHY partition at 0x9000, the core
  dump area and the remaining scratch space.  The candidate has the size of the flash.
\<close>

theorem candidate_keeps_other_regions:
  assumes "build_candidate sdk_parse sdk_generate flash t app bootloader table store old_at = Inr candidate"
    and "length flash = FLASH_SIZE" "length app \<le> APP_SIZE" "length store = FLASH_SIZE - store_offset t"
    and "kept_region t a b"
  shows "pslice candidate a b = pslice flash a b \<and> length candidate = FLASH_SIZE"
proof -
  note w = build_candidate_writes [OF assms(1-4)]
  have "pslice candidate a b = pslice flash a b"
    unfolding w(2) by (rule flash.rd_writes_other [OF kept_region_disjoint [OF w(1) assms(5)]])
  with candidate_parts(7) [OF w] show ?thesis by simp
qed

text \<open>
  C4: a candidate boots the new firmware.  For an application that is exactly one signed image and
  a bootloader that is exactly one image, the migration tool's own readers find in the candidate:
  the boot selector chooses slot 1 with both slots VALID, both slots hold exactly the application,
  the bootloader area holds the bootloader, and the table and the store are the given bytes.
\<close>

theorem candidate_boots_new_app:
  assumes "build_candidate sdk_parse sdk_generate flash t app bootloader table store old_at = Inr candidate"
    and "length flash = FLASH_SIZE" "length app \<le> APP_SIZE" "length store = FLASH_SIZE - store_offset t"
    and app: "signed_image app t True True = Inr app"
    and boot: "signed_image bootloader t False False = Inr bootloader"
  shows "ota_selection candidate (native_layout t) = Inr (1, [(0, 2), (1, 2)]) \<and>
    (\<forall>offset \<in> {fst APP_OFFSETS, snd APP_OFFSETS}.
       signed_image (pslice candidate offset (offset + APP_SIZE)) t True True = Inr app) \<and>
    signed_image (pslice candidate (boot_offset t) TABLE_OFFSET) t False False = Inr bootloader \<and>
    take (length table) (pslice candidate TABLE_OFFSET 0x9000) = table \<and>
    pslice candidate (store_offset t) FLASH_SIZE = store"
proof -
  note w = build_candidate_writes [OF assms(1-4)]
  note parts = candidate_parts [OF w]
  have "288 \<le> length app"
    using app by (auto simp: signed_image_eq_Inr app_descriptor_ok_def)
  then have slot: "signed_image (slot_image app) t True True = Inr app"
    unfolding slot_image_def by (rule app_image.parse_slot(1) [OF app _ assms(3)])
  have "pslice candidate (boot_offset t) TABLE_OFFSET =
      bootloader @ pslice candidate (boot_offset t + length bootloader) TABLE_OFFSET"
    using pslice_join [of "boot_offset t" "boot_offset t + length bootloader" TABLE_OFFSET candidate] parts(1) w(1)
    by (cases t) (simp_all add: parts_ok_def offset_defs layout_simps)
  then have "signed_image (pslice candidate (boot_offset t) TABLE_OFFSET) t False False = Inr bootloader"
    using boot_image.pad [OF boot] by simp
  with slot parts candidate_selection [OF parts(5)] show ?thesis
    by simp
qed

text \<open>An instance on the ESP32, with the sample image as application and as bootloader.\<close>

definition sample_candidate :: bytes where
  "sample_candidate = apply_writes (erased FLASH_SIZE)
     (candidate_writes Esp32 (sample_app @ zeros 68) sample_app [] (erased 0x6000) @ [(0x3e5000, 0x3ea000, erased 0x5000)])"

lemma sample_app_length: "length sample_app = 304"
  by (simp add: sample_app_def)

lemma sample_app_boot: "signed_image sample_app Esp32 False False = Inr sample_app"
  using sample_app_unsigned by (auto simp: signed_image_eq_Inr)

lemma sample_app_signed: "signed_image (sample_app @ zeros 68) Esp32 True True = Inr (sample_app @ zeros 68)"
proof -
  note len = sample_app_length
  obtain b where b: "image_body_end Esp32 sample_app = Inr b" "b = 304" "app_descriptor_ok sample_app"
    using signed_image_whole [OF sample_app_unsigned] len by auto
  have "image_body_end Esp32 (sample_app @ zeros 68) = Inr 304"
    using image_body_end_prefix [OF b(1), of "sample_app @ zeros 68"] len b(2) by simp
  moreover have "app_descriptor_ok (sample_app @ zeros 68)"
    using app_descriptor_ok_prefix [OF b(3), of 304 "sample_app @ zeros 68"] len by simp
  ultimately show ?thesis
    using len by (simp add: signed_image_eq_Inr signed_end_def)
qed

lemma sample_candidate_built:
  "build_candidate (\<lambda>_. Some []) (\<lambda>_ _. Some []) (erased FLASH_SIZE) Esp32 (sample_app @ zeros 68) sample_app []
     (erased 0x6000) (Some (erased 0x5000)) = Inr sample_candidate"
proof -
  have "bootloader_ok Esp32 sample_app"
    using sample_app_header sample_app_length by (simp add: bootloader_ok_def image_header_ok_def offset_defs layout_simps)
  moreover have "archive_writes Esp32 (Some (erased 0x5000)) = Inr [(0x3e5000, 0x3ea000, erased 0x5000)]"
    by (simp add: archive_writes_def ARCHIVE_SIZE_val)
  moreover have "apply_writes (apply_writes flash ws) ws' = apply_writes flash (ws @ ws')" for flash ws ws'
    by (simp add: apply_writes_def)
  ultimately show ?thesis
    by (simp add: build_candidate_def table_from_csv_def parse_table_def dict_eq_def sample_candidate_def)
qed

theorem candidate_keeps_other_regions_witness:
  "pslice sample_candidate 0x9000 0xf000 = pslice (erased FLASH_SIZE) 0x9000 0xf000 \<and> length sample_candidate = FLASH_SIZE"
  by (rule candidate_keeps_other_regions [OF sample_candidate_built])
     (simp_all add: sample_app_def offset_defs layout_simps kept_region_def)

theorem candidate_boots_new_app_witness:
  "ota_selection sample_candidate (native_layout Esp32) = Inr (1, [(0, 2), (1, 2)]) \<and>
   signed_image (pslice sample_candidate (snd APP_OFFSETS) (snd APP_OFFSETS + APP_SIZE)) Esp32 True True =
     Inr (sample_app @ zeros 68)"
  using candidate_boots_new_app [OF sample_candidate_built _ _ _ sample_app_signed sample_app_boot]
  by (simp add: sample_app_def offset_defs layout_simps)

end
