(* ===== verification/Nvs.thy ===== *)
theory Nvs
  imports Python_Values "HOL-Library.AList" "HOL-Library.Multiset"
begin

text \<open>
  The NVS partitions of the device: \<open>validate_page\<close> and \<open>nvs_records\<close> of
  \<^verbatim>\<open>preflight_v3_migration.py\<close>.  The pinned SDK's \<^verbatim>\<open>nvs_parser\<close> is third-party code; the parameter
  \<open>nvs_parse\<close> of \<open>nvs_records\<close> stands for \<^verbatim>\<open>NVS_Partition(name, bytes).pages\<close>.  The tool reads the
  pages and entries the parser builds; a dictionary field is a field of the record here
  (\<^verbatim>\<open>metadata["span"]\<close> is \<open>e_span\<close>, \<^verbatim>\<open>data["size"]\<close> is \<open>e_size\<close>, and so on), and \<open>e_value\<close> is
  \<open>None\<close> where \<^verbatim>\<open>data["value"]\<close> is not an integer.

  Dictionaries are association lists in insertion order, updated with \<open>AList.update\<close>.
\<close>

record nvs_child =
  c_index :: nat
  c_state :: string
  c_raw :: bytes

record nvs_entry =
  e_index :: nat
  e_state :: string
  e_is_empty :: bool
  e_raw :: bytes
  e_key :: string
  e_namespace :: nat
  e_type :: string
  e_span :: nat
  e_chunk_index :: nat
  e_crc_original :: nat
  e_crc_computed :: nat
  e_data_original :: nat
  e_data_computed :: nat
  e_value :: "int option"
  e_size :: nat
  e_chunk_count :: nat
  e_chunk_start :: nat
  e_children :: "nvs_child list"

record nvs_page =
  pg_status :: string
  pg_raw_header :: bytes
  pg_bitmap :: bytes
  pg_version :: nat
  pg_crc_original :: nat
  pg_crc_computed :: nat
  pg_entries :: "nvs_entry list"

type_synonym nvs_key = "string \<times> string"
type_synonym nvs_value = "string \<times> bytes"

subsection \<open>Pages\<close>

text \<open>\<^verbatim>\<open>raw_key.split(b"\0", 1)[1].strip(b"\0") == b""\<close>: only zeros follow the first zero.\<close>

definition nvs_key_ok :: "bytes \<Rightarrow> unit res" where
  "nvs_key_ok raw_key =
     require (0 \<in> set raw_key \<and> \<not> any_byte (dropWhile (\<lambda>b. b \<noteq> 0) raw_key)) (preflight ''NVS key encoding'')
     (bindE (of_option (preflight ''NVS key is not ASCII'') (ascii_decode (takeWhile (\<lambda>b. b \<noteq> 0) raw_key))) (\<lambda>key.
      require (key \<noteq> []) (preflight ''NVS key empty'') (Inr ())))"

definition validate_entry :: "nvs_entry \<Rightarrow> unit res" where
  "validate_entry entry =
     require (e_state entry \<in> {''Empty'', ''Erased'', ''Written''}) (preflight ''NVS entry state'')
     (if e_state entry = ''Empty'' then require (e_is_empty entry) (preflight ''NVS empty entry has bytes'') (Inr ())
      else
        require (\<not> e_is_empty entry \<and> 1 \<le> e_span entry \<and> e_index entry + e_span entry \<le> 126)
          (preflight ''NVS entry span'')
        (require (length (e_children entry) = e_span entry - 1 \<and>
                  list_all (\<lambda>child. c_state child = e_state entry) (e_children entry))
          (preflight ''NVS entry children'')
        (if e_state entry = ''Erased'' then Inr ()
         else
           require (e_crc_original entry = e_crc_computed entry) (preflight ''NVS entry CRC'')
           (require (e_span entry \<le> 1 \<or> e_data_original entry = e_data_computed entry) (preflight ''NVS data CRC'')
           (nvs_key_ok (pslice (e_raw entry) 8 24))))))"

definition entry_indices :: "nvs_entry \<Rightarrow> nat list" where
  "entry_indices entry = e_index entry # map c_index (e_children entry)"

definition validate_page :: "nvs_page \<Rightarrow> unit res" where
  "validate_page page =
     require (pg_status page \<in> {''Empty'', ''Active'', ''Full''}) (preflight ''NVS page state'')
     (if pg_status page = ''Empty'' then
        require (pg_raw_header page = erased 32 \<and> pg_bitmap page = erased 32 \<and>
                 list_all (\<lambda>entry. e_state entry = ''Empty'' \<and> e_is_empty entry) (pg_entries page))
          (preflight ''NVS empty page has bytes'') (Inr ())
      else
        require (pg_version page = 1 \<or> pg_version page = 2) (preflight ''NVS page version'')
        (require (pg_crc_original page = pg_crc_computed page) (preflight ''NVS page header CRC'')
        (bindE (for_each (\<lambda>covered entry.
             bindE (validate_entry entry) (\<lambda>_. Inr (covered @ entry_indices entry))) [] (pg_entries page)) (\<lambda>covered.
         require (sort covered = [0..<126]) (preflight ''NVS page coverage'') (Inr ())))))"

subsection \<open>Records\<close>

definition children_bytes :: "nvs_entry \<Rightarrow> bytes" where
  "children_bytes entry = take (e_size entry) (concat (map c_raw (e_children entry)))"

definition namespace_step :: "(int \<times> string) list \<Rightarrow> nvs_entry \<Rightarrow> (int \<times> string) list res" where
  "namespace_step namespaces entry =
     (if e_namespace entry \<noteq> 0 then Inr namespaces
      else (case e_value entry of
          None \<Rightarrow> Inl (preflight ''namespace declaration'')
        | Some v \<Rightarrow>
            require (e_type entry = ''uint8_t'' \<and> e_span entry = 1 \<and> 0 < v \<and> v < 255 \<and> v \<notin> set (map fst namespaces))
              (preflight ''namespace declaration'')
            (Inr (AList.update v (e_key entry) namespaces))))"

type_synonym groups = "(nvs_key \<times> nvs_entry list) list"

text \<open>\<^verbatim>\<open>groups.setdefault(key, []).append(entry)\<close>\<close>

definition group_append :: "nvs_key \<Rightarrow> nvs_entry \<Rightarrow> groups \<Rightarrow> groups" where
  "group_append key entry groups =
     AList.update key ((case map_of groups key of None \<Rightarrow> [] | Some es \<Rightarrow> es) @ [entry]) groups"

definition group_step :: "(int \<times> string) list \<Rightarrow> groups \<Rightarrow> nvs_entry \<Rightarrow> groups res" where
  "group_step namespaces groups entry =
     (if e_namespace entry = 0 then Inr groups
      else (case map_of namespaces (int (e_namespace entry)) of
          None \<Rightarrow> Inl (preflight ''entry refers to an unknown namespace'')
        | Some namespace \<Rightarrow> Inr (group_append (namespace, e_key entry) entry groups)))"

definition chunk_order :: "nvs_entry \<Rightarrow> nvs_entry \<Rightarrow> int" where
  "chunk_order index chunk = (int (e_chunk_index chunk) - int (e_chunk_start index)) mod 256"

definition blob_record :: "nvs_entry \<Rightarrow> nvs_entry list \<Rightarrow> nvs_value res" where
  "blob_record index chunks =
     require (e_span index = 1 \<and> e_chunk_count index = length chunks \<and> 0 < length chunks)
       (preflight ''blob index and chunks disagree'')
     (let ordered = sort_key (chunk_order index) chunks in
      require (map (chunk_order index) ordered = map int [0..<length chunks]) (preflight ''blob chunk numbers'')
      (let value = concat (map children_bytes ordered) in
       require (length value = e_size index) (preflight ''blob length'') (Inr (''blob'', value))))"

definition number_record :: "string \<Rightarrow> nvs_entry \<Rightarrow> nvs_value res" where
  "number_record kind entry =
     (let size = (if kind = ''uint8_t'' then 1 else 4) in
      case e_value entry of
        None \<Rightarrow> Inl (preflight ''number out of range'')
      | Some v \<Rightarrow> require (0 \<le> v \<and> v < 256 ^ size) (preflight ''number out of range'')
                    (Inr (kind, to_le size (nat v))))"

definition group_record :: "nvs_entry list \<Rightarrow> nvs_value res" where
  "group_record es =
     (let types = map e_type es; entry = hd es in
      if types = [''string''] then
        require (0 < e_size entry) (preflight ''string length'')
        (let value = children_bytes entry in
         require (length value = e_size entry \<and> last value = 0) (preflight ''string incomplete'')
           (Inr (''string'', value)))
      else if types = [''uint8_t''] \<or> types = [''uint32_t''] then number_record (hd types) entry
      else if types = [''blob''] then
        (let value = children_bytes entry in
         require (length value = e_size entry) (preflight ''old blob incomplete'') (Inr (''blob'', value)))
      else if count_list types ''blob_index'' = 1 \<and> count_list types ''blob_data'' + 1 = length types then
        blob_record (hd (filter (\<lambda>e. e_type e = ''blob_index'') es)) (filter (\<lambda>e. e_type e = ''blob_data'') es)
      else Inl (preflight ''unknown or repeated record type''))"

type_synonym records = "(nvs_key \<times> nvs_value) list"

definition nvs_records ::
  "(bytes \<Rightarrow> nvs_page list) \<Rightarrow> bytes \<Rightarrow> nat \<Rightarrow> nat \<Rightarrow> nvs_key list \<Rightarrow> string list \<Rightarrow> records res" where
  "nvs_records nvs_parse flash offset psize allowed unused =
     (let pages = nvs_parse (pslice flash offset (offset + psize)) in
      bindE (for_each (\<lambda>_ page. validate_page page) () pages) (\<lambda>_.
      require (list_ex (\<lambda>page. pg_status page = ''Empty'') pages) (preflight ''no empty page'')
      (let entries = filter (\<lambda>entry. e_state entry = ''Written'') (concat (map pg_entries pages)) in
       bindE (for_each namespace_step [] entries) (\<lambda>namespaces.
       require (distinct (map snd namespaces)) (preflight ''namespace name repeated'')
       (bindE (for_each (group_step namespaces) [] entries) (\<lambda>groups.
        require (list_all (\<lambda>key. key \<in> set allowed) (map fst groups)) (preflight ''unexpected record'')
        (bindE (for_each (\<lambda>records (key, es).
             bindE (group_record es) (\<lambda>value. Inr (AList.update key value records))) [] groups) (\<lambda>records.
         require (list_all (\<lambda>n. n \<in> set (map (fst \<circ> fst) records) \<or> n \<in> set unused) (map snd namespaces))
           (preflight ''unused or unknown namespace'') (Inr records)))))))))"

subsection \<open>Pages are covered exactly\<close>

lemma validate_entries_covered:
  assumes "for_each (\<lambda>covered entry. bindE (validate_entry entry) (\<lambda>_. Inr (covered @ entry_indices entry))) [] es = Inr covered"
  shows "covered = concat (map entry_indices es) \<and> list_all (\<lambda>e. validate_entry e = Inr ()) es"
  by (rule for_each_inv [OF assms, where I = "\<lambda>done c. c = concat (map entry_indices done) \<and>
        list_all (\<lambda>e. validate_entry e = Inr ()) done"]) (auto simp: res_simps)

lemma validate_page_eq_Inr:
  "validate_page page = Inr () \<longleftrightarrow>
     pg_status page = ''Empty'' \<and> pg_raw_header page = erased 32 \<and> pg_bitmap page = erased 32 \<and>
       list_all (\<lambda>entry. e_state entry = ''Empty'' \<and> e_is_empty entry) (pg_entries page) \<or>
     pg_status page \<in> {''Active'', ''Full''} \<and> pg_version page \<in> {1, 2} \<and>
       pg_crc_original page = pg_crc_computed page \<and>
       (\<exists>covered. for_each (\<lambda>covered entry. bindE (validate_entry entry) (\<lambda>_. Inr (covered @ entry_indices entry))) []
           (pg_entries page) = Inr covered \<and> sort covered = [0..<126])"
  by (auto simp: validate_page_def res_simps)

text \<open>
  An accepted page in use is completely accounted for.  Its entries and their children occupy
  each of the 126 slots of the page exactly once, and every written entry has matching checksums,
  a span inside the page and as many children as its span says, in the same state.
\<close>

theorem validate_page_accounts_for_all_slots:
  assumes "validate_page page = Inr ()" and "pg_status page \<noteq> ''Empty''"
  shows "mset (concat (map entry_indices (pg_entries page))) = mset [0..<126] \<and>
    (\<forall>e \<in> set (pg_entries page). e_state e = ''Written'' \<longrightarrow>
       e_crc_original e = e_crc_computed e \<and> (1 < e_span e \<longrightarrow> e_data_original e = e_data_computed e) \<and>
       e_index e + e_span e \<le> 126 \<and> length (e_children e) = e_span e - 1 \<and>
       (\<forall>child \<in> set (e_children e). c_state child = ''Written''))"
proof -
  from assms obtain covered where
    run: "for_each (\<lambda>covered entry. bindE (validate_entry entry) (\<lambda>_. Inr (covered @ entry_indices entry))) []
        (pg_entries page) = Inr covered" and sorted: "sort covered = [0..<126]"
    by (auto simp: validate_page_eq_Inr)
  note cov = validate_entries_covered [OF run]
  have "mset covered = mset [0..<126]"
    using arg_cong [OF sorted, of mset] by simp
  moreover have "e_crc_original e = e_crc_computed e \<and> (1 < e_span e \<longrightarrow> e_data_original e = e_data_computed e) \<and>
       e_index e + e_span e \<le> 126 \<and> length (e_children e) = e_span e - 1 \<and>
       (\<forall>child \<in> set (e_children e). c_state child = ''Written'')"
    if "e \<in> set (pg_entries page)" "e_state e = ''Written''" for e
  proof -
    have "validate_entry e = Inr ()"
      using cov that by (simp add: list_all_iff)
    with that(2) show ?thesis
      by (auto simp: validate_entry_def res_simps list_all_iff)
  qed
  ultimately show ?thesis
    using cov by simp
qed

subsection \<open>Blobs\<close>

lemma sort_key_perm_distinct:
  fixes f :: "'a \<Rightarrow> 'k :: linorder"
  assumes "mset xs = mset ys" and "distinct (map f xs)"
  shows "sort_key f xs = sort_key f ys"
proof -
  have ys: "distinct (map f ys)" "set ys = set xs"
    using assms by (metis mset_map mset_eq_imp_distinct_iff, metis set_mset_mset)
  show ?thesis
  proof (rule map_sorted_distinct_set_unique)
    show "inj_on f (set (sort_key f xs) \<union> set (sort_key f ys))"
      using assms(2) ys by (simp add: distinct_map)
    show "distinct (map f (sort_key f xs))" "distinct (map f (sort_key f ys))"
      using assms(2) ys(1) by (simp_all add: distinct_map)
  qed (use ys in simp_all)
qed

text \<open>
  A blob is reassembled in the order of its chunk numbers.  The order in which the chunk
  entries are found in the pages does not matter: for every arrangement of the same chunks the
  record, or the refusal, is the same.
\<close>

theorem blob_record_order_irrelevant:
  assumes "mset chunks' = mset chunks"
  shows "blob_record index chunks' = blob_record index chunks"
proof -
  have len: "length chunks' = length chunks"
    using assms by (rule mset_eq_length)
  let ?ord = "\<lambda>cs. map (chunk_order index) (sort_key (chunk_order index) cs) = map int [0..<length chunks]"
  have dist: "distinct (map (chunk_order index) cs)" if "?ord cs" for cs
  proof -
    have "distinct (map (chunk_order index) (sort_key (chunk_order index) cs))"
      unfolding that by (simp add: distinct_map)
    then show ?thesis by (simp add: distinct_map)
  qed
  have same: "sort_key (chunk_order index) chunks' = sort_key (chunk_order index) chunks"
    if "?ord chunks \<or> ?ord chunks'"
    using that sort_key_perm_distinct [OF assms dist] sort_key_perm_distinct [OF assms [symmetric] dist] by auto
  then show ?thesis
    unfolding blob_record_def Let_def len by (cases "?ord chunks \<or> ?ord chunks'") auto
qed

subsection \<open>Records account for all entries\<close>

definition belongs :: "(int \<times> string) list \<Rightarrow> nvs_key \<Rightarrow> nvs_entry \<Rightarrow> bool" where
  "belongs namespaces key e =
     (e_namespace e \<noteq> 0 \<and> map_of namespaces (int (e_namespace e)) = Some (fst key) \<and> e_key e = snd key)"

definition written_entries :: "nvs_page list \<Rightarrow> nvs_entry list" where
  "written_entries pages = filter (\<lambda>entry. e_state entry = ''Written'') (concat (map pg_entries pages))"

definition groups_inv :: "(int \<times> string) list \<Rightarrow> nvs_entry list \<Rightarrow> groups \<Rightarrow> bool" where
  "groups_inv ns es groups =
     (distinct (map fst groups) \<and>
      (\<forall>key. map_of groups key = (if filter (belongs ns key) es = [] then None else Some (filter (belongs ns key) es))) \<and>
      (\<forall>e \<in> set es. e_namespace e \<noteq> 0 \<longrightarrow> map_of ns (int (e_namespace e)) \<noteq> None))"

lemma group_step_inv:
  assumes "groups_inv ns es groups" and "group_step ns groups e = Inr groups'"
  shows "groups_inv ns (es @ [e]) groups'"
proof (cases "e_namespace e = 0")
  case True
  then show ?thesis
    using assms by (auto simp: group_step_def groups_inv_def belongs_def)
next
  case False
  then obtain n where n: "map_of ns (int (e_namespace e)) = Some n"
    and g: "groups' = group_append (n, e_key e) e groups"
    using assms(2) by (auto simp: group_step_def split: option.splits)
  have "belongs ns key e \<longleftrightarrow> key = (n, e_key e)" for key
    using False n by (cases key) (auto simp: belongs_def)
  then show ?thesis
    using assms(1) n
    by (auto simp: groups_inv_def g group_append_def update_conv' distinct_update)
qed

lemma groups_of_entries:
  assumes "for_each (group_step ns) [] es = Inr groups"
  shows "groups_inv ns es groups"
proof (rule for_each_inv [OF assms, where I = "groups_inv ns"])
  show "groups_inv ns [] []"
    by (simp add: groups_inv_def)
qed (rule group_step_inv)

lemma records_of_groups:
  assumes "for_each (\<lambda>records (key, es). bindE (group_record es) (\<lambda>value. Inr (AList.update key value records))) [] groups
      = Inr records" and "distinct (map fst groups)"
  shows "map fst records = map fst groups \<and>
    (\<forall>key es. map_of groups key = Some es \<longrightarrow> (\<exists>v. map_of records key = Some v \<and> group_record es = Inr v))"
proof -
  let ?f = "\<lambda>records (key, es). bindE (group_record es) (\<lambda>value. Inr (AList.update key value records))"
  have "map fst rs' = map fst rs @ map fst gs \<and> (\<forall>k. k \<notin> set (map fst gs) \<longrightarrow> map_of rs' k = map_of rs k) \<and>
      (\<forall>key es. map_of gs key = Some es \<longrightarrow> (\<exists>v. map_of rs' key = Some v \<and> group_record es = Inr v))"
    if "for_each ?f rs gs = Inr rs'" "distinct (map fst rs @ map fst gs)" for rs rs' gs
    using that
  proof (induction gs arbitrary: rs)
    case (Cons g gs)
    obtain key es where g: "g = (key, es)" by (cases g)
    from Cons.prems(1) obtain v where v: "group_record es = Inr v"
      and rest: "for_each ?f (AList.update key v rs) gs = Inr rs'"
      by (auto simp: g res_simps)
    have upd: "AList.update key v rs = rs @ [(key, v)]"
      using Cons.prems(2) by (induction rs) (auto simp: g)
    have "distinct (map fst (AList.update key v rs) @ map fst gs)"
      using Cons.prems(2) by (auto simp: g upd)
    note ih = Cons.IH [OF rest this]
    have key: "map_of rs' key = Some v"
      using ih Cons.prems(2) by (simp add: g upd map_add_def map_of_eq_None_iff [THEN iffD2])
    have "map_of rs' k = map_of rs k" if "k \<notin> set (map fst (g # gs))" for k
      using ih that by (simp add: g upd map_add_def split: option.split)
    moreover have "\<exists>v. map_of rs' k = Some v \<and> group_record es' = Inr v" if "map_of (g # gs) k = Some es'" for k es'
      using ih that key v by (auto simp: g split: if_splits)
    ultimately show ?case
      using ih by (simp add: g upd)
  qed simp
  from this [OF assms(1)] assms(2) show ?thesis
    by (metis append_Nil list.map_disc_iff)
qed

text \<open>
  For the map of the namespaces the code builds: every key of the records is expected and occurs once, the value of a key is what
  \<open>group_record\<close> makes of all written entries of that key, in page order, and no written entry is left out, as
  each one outside the namespace table belongs to a returned record.
\<close>

lemma nvs_records_account_for_entries:
  assumes "nvs_records nvs_parse flash offset psize allowed unused = Inr records"
  shows "\<exists>namespaces. (let entries = written_entries (nvs_parse (pslice flash offset (offset + psize))) in
     distinct (map fst records) \<and> fst ` set records \<subseteq> set allowed \<and>
     (\<forall>key value. map_of records key = Some value \<longrightarrow>
        filter (belongs namespaces key) entries \<noteq> [] \<and>
        group_record (filter (belongs namespaces key) entries) = Inr value) \<and>
     (\<forall>e \<in> set entries. e_namespace e \<noteq> 0 \<longrightarrow> (\<exists>key \<in> fst ` set records. belongs namespaces key e)))"
proof -
  let ?es = "written_entries (nvs_parse (pslice flash offset (offset + psize)))"
  from assms obtain ns groups where groups: "for_each (group_step ns) [] ?es = Inr groups"
    and allowed: "list_all (\<lambda>key. key \<in> set allowed) (map fst groups)"
    and recs: "for_each (\<lambda>records (key, es). bindE (group_record es) (\<lambda>value. Inr (AList.update key value records))) []
        groups = Inr records"
    by (auto simp: nvs_records_def Let_def res_simps written_entries_def)
  note inv = groups_of_entries [OF groups, unfolded groups_inv_def]
  note r = records_of_groups [OF recs conjunct1 [OF inv]]
  have keys: "fst ` set records = fst ` set groups"
    using r by (metis list.set_map)
  have val: "filter (belongs ns key) ?es \<noteq> [] \<and> group_record (filter (belongs ns key) ?es) = Inr v"
    if "map_of records key = Some v" for key v
  proof -
    have "key \<in> fst ` set groups"
      using that keys by (metis domI dom_map_of_conv_image_fst)
    then obtain es where es: "map_of groups key = Some es"
      by (metis domD dom_map_of_conv_image_fst)
    have "map_of groups key =
        (if filter (belongs ns key) ?es = [] then None else Some (filter (belongs ns key) ?es))"
      using inv by blast
    with es have "es = filter (belongs ns key) ?es" "es \<noteq> []"
      by (simp_all split: if_splits)
    moreover have "group_record es = Inr v"
      using r es that by (metis option.inject)
    ultimately show ?thesis by simp
  qed
  have "\<exists>key \<in> fst ` set records. belongs ns key e" if "e \<in> set ?es" "e_namespace e \<noteq> 0" for e
  proof -
    have "map_of ns (int (e_namespace e)) \<noteq> None"
      using inv that by blast
    then obtain n where "map_of ns (int (e_namespace e)) = Some n"
      by blast
    then have b: "belongs ns (n, e_key e) e"
      using that(2) by (simp add: belongs_def)
    with that(1) have "filter (belongs ns (n, e_key e)) ?es \<noteq> []"
      by (auto simp: filter_empty_conv)
    with inv have "map_of groups (n, e_key e) \<noteq> None"
      by simp
    then have "(n, e_key e) \<in> fst ` set records"
      unfolding keys by (simp add: map_of_eq_None_iff)
    with b show ?thesis by blast
  qed
  with r inv allowed keys val show ?thesis
    by (intro exI [of _ ns]) (auto simp: Let_def list_all_iff)
qed

subsection \<open>A sample partition\<close>

text \<open>One page with a namespace, a number and a two-chunk blob stored in the wrong order.\<close>

definition sample_nvs_entry :: "nat \<Rightarrow> string \<Rightarrow> nat \<Rightarrow> string \<Rightarrow> nvs_entry" where
  "sample_nvs_entry i key ns kind =
     \<lparr>e_index = i, e_state = ''Written'', e_is_empty = False, e_raw = zeros 8 @ ascii key @ zeros (24 - length key),
      e_key = key, e_namespace = ns, e_type = kind, e_span = 1, e_chunk_index = 0, e_crc_original = 0, e_crc_computed = 0,
      e_data_original = 0, e_data_computed = 0, e_value = Some 1, e_size = 0, e_chunk_count = 0, e_chunk_start = 0,
      e_children = []\<rparr>"

definition sample_chunk :: "nat \<Rightarrow> nat \<Rightarrow> bytes \<Rightarrow> nvs_entry" where
  "sample_chunk i n payload = (sample_nvs_entry i ''k'' 1 ''blob_data'')\<lparr>e_span := 2, e_chunk_index := n, e_size := length payload,
     e_children := [\<lparr>c_index = i + 1, c_state = ''Written'', c_raw = payload\<rparr>]\<rparr>"

definition sample_index :: nvs_entry where
  "sample_index = (sample_nvs_entry 5 ''k'' 1 ''blob_index'')\<lparr>e_size := 3, e_chunk_count := 2\<rparr>"

definition empty_entry :: "nat \<Rightarrow> nvs_entry" where
  "empty_entry i = (sample_nvs_entry i [] 0 [])\<lparr>e_state := ''Empty'', e_is_empty := True\<rparr>"

definition sample_nvs_entries :: "nvs_entry list" where
  "sample_nvs_entries = [sample_nvs_entry 0 ''n'' 0 ''uint8_t'', sample_chunk 1 1 [9], sample_chunk 3 0 [7, 8], sample_index]"

definition sample_page :: "string \<Rightarrow> nvs_entry list \<Rightarrow> nvs_page" where
  "sample_page status es = \<lparr>pg_status = status, pg_raw_header = erased 32, pg_bitmap = erased 32, pg_version = 2,
     pg_crc_original = 0, pg_crc_computed = 0, pg_entries = es\<rparr>"

definition free_slots :: "nat list" where
  "free_slots = [6..<126]"

definition sample_pages :: "nvs_page list" where
  "sample_pages = [sample_page ''Active'' (sample_nvs_entries @ map empty_entry free_slots), sample_page ''Empty'' []]"

lemma empty_entries_covered:
  "for_each (\<lambda>covered entry. bindE (validate_entry entry) (\<lambda>_. Inr (covered @ entry_indices entry))) c (map empty_entry is) =
     Inr (c @ is)"
  by (induction "is" arbitrary: c)
     (simp_all add: validate_entry_def empty_entry_def sample_nvs_entry_def entry_indices_def)

lemma sample_nvs_entries_covered:
  "for_each (\<lambda>covered entry. bindE (validate_entry entry) (\<lambda>_. Inr (covered @ entry_indices entry))) [] sample_nvs_entries =
     Inr [0, 1, 2, 3, 4, 5]"
  by code_simp

lemma sample_page_valid:
  "validate_page (sample_page ''Active'' (sample_nvs_entries @ map empty_entry free_slots)) = Inr ()"
proof -
  have "[0, 1, 2, 3, 4, 5] @ free_slots = [0..<126]"
    by (simp add: free_slots_def upt_conv_Cons)
  then have "sort ([0, 1, 2, 3, 4, 5] @ free_slots) = [0..<126]"
    by (metis sorted_sort_id sorted_upt)
  then show ?thesis
    by (simp add: validate_page_def sample_page_def for_each_append sample_nvs_entries_covered empty_entries_covered
        del: append.simps One_nat_def upt_rec_numeral sort_key_simps)
qed

theorem validate_page_accounts_for_all_slots_witness:
  "mset (concat (map entry_indices (sample_nvs_entries @ map empty_entry free_slots))) = mset [0..<126]"
  using validate_page_accounts_for_all_slots [OF sample_page_valid] by (simp add: sample_page_def)

lemma sample_blob: "blob_record sample_index [sample_chunk 3 0 [7, 8], sample_chunk 1 1 [9]] = Inr (''blob'', [7, 8, 9])"
  by code_simp

theorem blob_record_order_irrelevant_witness:
  "blob_record sample_index [sample_chunk 1 1 [9], sample_chunk 3 0 [7, 8]] = Inr (''blob'', [7, 8, 9])"
  using blob_record_order_irrelevant [of "[sample_chunk 1 1 [9], sample_chunk 3 0 [7, 8]]"
      "[sample_chunk 3 0 [7, 8], sample_chunk 1 1 [9]]" sample_index] sample_blob by simp

lemma sample_written: "written_entries sample_pages = sample_nvs_entries"
proof -
  have "filter (\<lambda>e. e_state e = ''Written'') (map empty_entry is) = []" for "is"
    by (simp add: filter_empty_conv empty_entry_def)
  moreover have "filter (\<lambda>e. e_state e = ''Written'') sample_nvs_entries = sample_nvs_entries"
    by (simp add: sample_nvs_entries_def sample_chunk_def sample_index_def sample_nvs_entry_def)
  ultimately show ?thesis
    by (simp add: written_entries_def sample_pages_def sample_page_def)
qed

lemma sample_records:
  "nvs_records (\<lambda>_. sample_pages) [] 0 0 [(''n'', ''k'')] [] = Inr [((''n'', ''k''), ''blob'', [7, 8, 9])]"
proof -
  have ns: "for_each namespace_step [] sample_nvs_entries = Inr [(1, ''n'')]"
    by code_simp
  have groups: "for_each (group_step [(1, ''n'')]) [] sample_nvs_entries =
      Inr [((''n'', ''k''), [sample_chunk 1 1 [9], sample_chunk 3 0 [7, 8], sample_index])]"
    by code_simp
  have rec: "group_record [sample_chunk 1 1 [9], sample_chunk 3 0 [7, 8], sample_index] = Inr (''blob'', [7, 8, 9])"
    by code_simp
  have "validate_page (sample_page ''Empty'' []) = Inr ()"
    by (simp add: validate_page_def sample_page_def)
  then have pages: "for_each (\<lambda>_ page. validate_page page) () sample_pages = Inr ()"
    by (simp add: sample_pages_def sample_page_valid)
  have "list_ex (\<lambda>page. pg_status page = ''Empty'') sample_pages"
    by (simp add: sample_pages_def sample_page_def)
  then show ?thesis
    unfolding nvs_records_def Let_def written_entries_def [symmetric] sample_written
    by (simp add: pages ns groups rec [simplified])
qed

lemma nvs_records_account_for_entries_sample:
  "\<exists>namespaces. group_record (filter (belongs namespaces (''n'', ''k'')) (written_entries sample_pages)) =
     Inr (''blob'', [7, 8, 9])"
  using nvs_records_account_for_entries [OF sample_records] by (force simp: Let_def)

end
