(* ===== verification/Sha256_Vector.thy ===== *)
theory Sha256_Vector
  imports Digests
begin

unbundle bit_operations_syntax

text \<open>
  The digest of the empty message, evaluated in the kernel.  The compression function is carried
  over to integers (\<open>iround\<close>, \<open>iextend\<close>), whose bit operations the simplifier evaluates on
  binary numerals; the published digest is then a lemma that the samples of other theories use.
\<close>

definition irotr :: "nat \<Rightarrow> int \<Rightarrow> int" where
  "irotr n x = drop_bit n x OR push_bit (32 - n) (take_bit n x)"

definition iround :: "int list \<Rightarrow> int \<times> int \<Rightarrow> int list" where
  "iround st kw = (case (st, kw) of
      ([a, b, c, d, e, f, g, h], (k, w)) \<Rightarrow>
        (let t1 = h + (irotr 6 e XOR irotr 11 e XOR irotr 25 e) + (g XOR (e AND (f XOR g))) + k + w;
             t2 = (irotr 2 a XOR irotr 13 a XOR irotr 22 a) + ((a AND b) XOR (a AND c) XOR (b AND c))
         in [take_bit 32 (t1 + t2), a, b, c, take_bit 32 (d + t1), e, f, g])
    | _ \<Rightarrow> st)"

definition iextend :: "int list \<Rightarrow> int list" where
  "iextend ws =
     (let w15 = ws ! 14; w2 = ws ! 1
      in take_bit 32 (ws ! 15 + (irotr 7 w15 XOR irotr 18 w15 XOR drop_bit 3 w15) + ws ! 6 +
           (irotr 17 w2 XOR irotr 19 w2 XOR drop_bit 10 w2)) # ws)"

abbreviation words :: "int list \<Rightarrow> 32 word list" where
  "words \<equiv> map word_of_int"

definition in_range :: "int list \<Rightarrow> bool" where
  "in_range xs = list_all (\<lambda>x. take_bit 32 x = x) xs"

lemma rotr_int:
  assumes "n < 32" and "take_bit 32 k = k"
  shows "word_rotr n (word_of_int k :: 32 word) = word_of_int (irotr n k)"
proof (rule bit_word_eqI)
  fix m assume "m < LENGTH(32)"
  then have m: "m < 32" by simp
  have k: "bit k i \<Longrightarrow> i < 32" for i
    using assms(2) by (metis bit_take_bit_iff)
  show "bit (word_rotr n (word_of_int k :: 32 word)) m = bit (word_of_int (irotr n k) :: 32 word) m"
  proof (cases "m + n < 32")
    case True
    then show ?thesis
      using assms(1) m by (auto simp: irotr_def bit_simps bit_word_rotr_iff add.commute dest: k)
  next
    case False
    then have "(m + n) mod 32 = m + n - 32"
      using m assms(1) by (simp add: mod_if)
    with False show ?thesis
      using assms(1) m k [of "m + n"] by (auto simp: irotr_def bit_simps bit_word_rotr_iff add.commute dest: k)
  qed
qed

lemma drop_bit_int: "take_bit 32 k = k \<Longrightarrow> drop_bit n (word_of_int k :: 32 word) = word_of_int (drop_bit n k)"
proof (rule bit_word_eqI)
  fix m assume "take_bit 32 k = k" "m < LENGTH(32)"
  moreover from this have "bit k i \<Longrightarrow> i < 32" for i
    by (metis bit_take_bit_iff)
  ultimately show "bit (drop_bit n (word_of_int k :: 32 word)) m = bit (word_of_int (drop_bit n k) :: 32 word) m"
    by (auto simp: bit_simps)
qed

lemma ch_word: "(e AND f) XOR (NOT e AND g) = g XOR (e AND (f XOR g))" for e f g :: "32 word"
  by (rule bit_word_eqI) (auto simp: bit_simps)

lemma xor_int: "word_of_int a XOR word_of_int b = (word_of_int (a XOR b) :: 32 word)"
  by (rule bit_word_eqI) (auto simp: bit_simps)

lemma and_int: "word_of_int a AND word_of_int b = (word_of_int (a AND b) :: 32 word)"
  by (rule bit_word_eqI) (auto simp: bit_simps)

lemma take_bit_word: "word_of_int (take_bit 32 k) = (word_of_int k :: 32 word)"
  by (rule bit_word_eqI) (auto simp: bit_simps)

lemmas int_ops = rotr_int drop_bit_int xor_int and_int take_bit_word

lemma round_int:
  assumes "in_range st" and "length st = 8"
  shows "sha256_round (words st) (word_of_int k, word_of_int w) = words (iround st (k, w))"
    and "in_range (iround st (k, w))" and "length (iround st (k, w)) = 8"
proof -
  from assms(2) obtain a b c d e f g h where st: "st = [a, b, c, d, e, f, g, h]"
    by (auto simp: numeral_eq_Suc length_Suc_conv)
  show "sha256_round (words st) (word_of_int k, word_of_int w) = words (iround st (k, w))"
    using assms(1) by (simp add: st in_range_def sha256_round_def iround_def Let_def ch_word int_ops)
  show "in_range (iround st (k, w))" "length (iround st (k, w)) = 8"
    using assms(1) by (simp_all add: st in_range_def iround_def Let_def)
qed

lemma rounds_int:
  "in_range st \<Longrightarrow> length st = 8 \<Longrightarrow>
     foldl sha256_round (words st) (map (map_prod word_of_int word_of_int) kws) = words (foldl iround st kws)"
  by (induction kws arbitrary: st) (auto simp: round_int)

lemma extend_int:
  assumes "in_range ws" and "16 \<le> length ws"
  shows "sha256_extend (words ws) = words (iextend ws)" and "in_range (iextend ws)"
proof -
  have "take_bit 32 (ws ! i) = ws ! i" if "i < 16" for i
    using assms that by (simp add: in_range_def list_all_length)
  then show "sha256_extend (words ws) = words (iextend ws)" "in_range (iextend ws)"
    using assms by (simp_all add: sha256_extend_def iextend_def Let_def int_ops in_range_def)
qed

lemma extends_int:
  "in_range ws \<Longrightarrow> 16 \<le> length ws \<Longrightarrow> (sha256_extend ^^ n) (words ws) = words ((iextend ^^ n) ws)"
proof (induction n)
  case (Suc n)
  have "in_range ((iextend ^^ m) ws) \<and> 16 \<le> length ((iextend ^^ m) ws)" for m
    using Suc.prems by (induction m) (auto simp: extend_int, simp add: iextend_def Let_def)
  with Suc show ?case by (simp add: extend_int)
qed simp

lemma funpow_fold: "(f ^^ n) x = fold (\<lambda>_. f) [0..<n] x"
  by (induction n) auto

subsection \<open>The empty message\<close>

definition empty_words :: "int list" where
  "empty_words = [2147483648, 0, 0, 0, 0, 0, 0, 0, 0, 0, 0, 0, 0, 0, 0, 0, 2147483648, 0, 2117632, 0, 570427392, 0,
     84448578, 2147483648, 1476919296, 4235264, 1451269, 1711282176, 3592562048, 337794312, 3594910044, 3374850048,
     3287351444, 676112230, 109604294, 2742808854, 1904000662, 4274181962, 2813755136, 2165675682, 2561075048,
     62000258, 1562224585, 2975250741, 3286092305, 614207615, 3297584367, 1575308336, 3741240933, 748767245,
     1008022316, 30329261, 369937616, 195877528, 907775968, 3526495142, 43741191, 1967544444, 133517113,
     4161330627, 3704256008, 1581412744, 1153231965, 996066459]"

definition k_words :: "int list" where
  "k_words = [1116352408, 1899447441, 3049323471, 3921009573, 961987163, 1508970993, 2453635748, 2870763221,
     3624381080, 310598401, 607225278, 1426881987, 1925078388, 2162078206, 2614888103, 3248222580, 3835390401,
     4022224774, 264347078, 604807628, 770255983, 1249150122, 1555081692, 1996064986, 2554220882, 2821834349,
     2952996808, 3210313671, 3336571891, 3584528711, 113926993, 338241895, 666307205, 773529912, 1294757372,
     1396182291, 1695183700, 1986661051, 2177026350, 2456956037, 2730485921, 2820302411, 3259730800, 3345764771,
     3516065817, 3600352804, 4094571909, 275423344, 430227734, 506948616, 659060556, 883997877, 958139571,
     1322822218, 1537002063, 1747873779, 1955562222, 2024104815, 2227730452, 2361852424, 2428436474, 2756734187,
     3204031479, 3329325298]"

lemma empty_words_eq: "rev ((iextend ^^ 48) [0, 0, 0, 0, 0, 0, 0, 0, 0, 0, 0, 0, 0, 0, 0, 2147483648]) = empty_words"
  unfolding funpow_fold by (simp add: upt_conv_Cons iextend_def irotr_def Let_def empty_words_def)

lemma empty_rounds:
  "foldl iround [1779033703, 3144134277, 1013904242, 2773480762, 1359893119, 2600822924, 528734635,
     1541459225] (zip k_words empty_words) =
   [2040978907, 3717492111, 1586299222, 4095722474, 3600805733, 3382061760, 2232532848, 477227836]"
  by (simp add: iround_def irotr_def Let_def empty_words_def k_words_def)

lemma to_be_0: "to_be n 0 = zeros n"
proof -
  have "to_le n 0 = zeros n"
    by (induction n) (simp_all add: zeros_def)
  then show ?thesis by (simp add: to_be_def zeros_def)
qed

lemma words_be_zeros: "words_be (zeros (4 * n)) = replicate n 0"
proof (induction n)
  case (Suc n)
  have "4 * Suc n = Suc (Suc (Suc (Suc (4 * n))))"
    by simp
  then have "zeros (4 * Suc n) = 0 # 0 # 0 # 0 # zeros (4 * n)"
    by (simp only: zeros_def replicate_Suc)
  then show ?case
    using Suc by simp
qed (simp add: zeros_def)

lemma empty_block: "words_be (sha256_pad []) = words [2147483648, 0, 0, 0, 0, 0, 0, 0, 0, 0, 0, 0, 0, 0, 0, 0]"
proof -
  have "sha256_pad [] = 0x80 # 0 # 0 # 0 # zeros (4 * 15)"
    by (simp add: sha256_pad_def to_be_0 zeros_def replicate_add [symmetric] replicate_Suc [symmetric] del: replicate_Suc)
  moreover have "words_be (0x80 # 0 # 0 # 0 # zeros (4 * 15)) = 0x80000000 # replicate 15 0"
    by (simp only: words_be.simps words_be_zeros) code_simp
  moreover have "replicate 15 0 = words (replicate 15 0)"
    by simp
  ultimately show ?thesis by (simp add: eval_nat_numeral)
qed

text \<open>The published digest of the empty message.\<close>

lemma sha256_empty:
  "sha256 [] = [227, 176, 196, 66, 152, 252, 28, 20, 154, 251, 244, 200, 153, 111, 185, 36, 39, 174, 65, 228, 100,
     155, 147, 76, 164, 149, 153, 27, 120, 82, 184, 85]"
proof -
  let ?st = "[1779033703, 3144134277, 1013904242, 2773480762, 1359893119, 2600822924, 528734635, 1541459225]"
  have pad: "length (sha256_pad []) = 64"
    by (simp add: sha256_pad_def)
  then have blocks: "blocks64 (sha256_pad []) = [sha256_pad []]"
    by (simp add: blocks64.simps)
  have k: "sha256_k = words k_words"
    by (simp add: sha256_k_def k_words_def)
  have "sha256_schedule (sha256_pad []) = words empty_words"
    unfolding sha256_schedule_def empty_block empty_words_eq [symmetric] rev_map
    by (subst extends_int) (simp_all add: in_range_def rev_map)
  then have "foldl sha256_round (words ?st) (zip sha256_k (sha256_schedule (sha256_pad []))) =
      foldl sha256_round (words ?st) (map (map_prod word_of_int word_of_int) (zip k_words empty_words))"
    by (simp only: k zip_map_map map_prod_def)
  also have "\<dots> = words (foldl iround ?st (zip k_words empty_words))"
    by (rule rounds_int) (simp_all add: in_range_def)
  finally have "foldl sha256_round (words ?st) (zip sha256_k (sha256_schedule (sha256_pad []))) = words (foldl iround ?st (zip k_words empty_words))" .
  then have "sha256_compress (words ?st) (sha256_pad []) = map2 (+) (words ?st) (words [2040978907, 3717492111,
     1586299222, 4095722474, 3600805733, 3382061760, 2232532848, 477227836])"
    unfolding sha256_compress_def empty_rounds by simp
  moreover have "sha256_init = words ?st"
    by (simp add: sha256_init_def)
  ultimately show ?thesis
    by (simp add: sha256_def blocks word_bytes_be_def)
qed

end
