(* ===== verification/Receipts.thy ===== *)
theory Receipts
  imports Image Otadata Sha256_Vector
begin

text \<open>
  The persistent operation records a migration must find in a terminal state: the OTA receipts of
  versions 1 (\<^verbatim>\<open>preflight_v3_migration.py\<close>), 3 and 4, the package bindings \<^verbatim>\<open>ECS2\<close> and the product
  ledger (\<^verbatim>\<open>prepare_native_layout.py\<close>).  \<^verbatim>\<open>bytes.decode("ascii", errors="replace")\<close> replaces every
  byte above 127 by U+FFFD.

  \<open>images\<close> is the dictionary of the complete images of the VALID slots, \<open>states\<close> the states of the
  slots with a record; both are association lists.
\<close>

definition ascii_replace :: "bytes \<Rightarrow> pystr" where
  "ascii_replace bs = map (\<lambda>b. if unat b < 128 then unat b else 0xFFFD) bs"

abbreviation byte_at :: "bytes \<Rightarrow> nat \<Rightarrow> nat" where
  "byte_at blob i \<equiv> unat (blob ! i)"

definition slot_pair_ok :: "bytes \<Rightarrow> bool" where
  "slot_pair_ok blob = ((byte_at blob 6, byte_at blob 7) \<in> {(0x10, 0x11), (0x11, 0x10)})"

definition failure_codes :: "nat set" where
  "failure_codes = {1, 2, 3, 4, 5, 6, 7, 8, 10}"

subsection \<open>The version 1 receipt\<close>

definition validate_ota_receipt :: "bytes \<Rightarrow> pystr \<Rightarrow> string res" where
  "validate_ota_receipt blob device_id =
     require (length blob = 118 \<and> take 5 blob = ascii ''EOTA'' @ [1] \<and> byte_at blob 9 = 0)
       (preflight ''not an EOTA v1 receipt'')
     (let status = byte_at blob 5; failure = byte_at blob 8 in
      require (status \<in> {1, 2} \<and> slot_pair_ok blob \<and> (status \<noteq> 1 \<or> failure = 0) \<and>
               (status \<noteq> 2 \<or> failure \<in> failure_codes) \<and> 0 < from_le (pslice blob 10 14) \<and>
               from_le (pslice blob 10 14) \<le> 0x1E0000)
        (preflight ''EOTA v1 state, slots or length'')
      (bindE (of_option (preflight ''EOTA v1 UUID encoding'') (ascii_decode (pslice blob 14 50))) (\<lambda>receipt_device.
       bindE (of_option (preflight ''EOTA v1 UUID encoding'') (ascii_decode (pslice blob 50 86))) (\<lambda>operation_id.
       require (receipt_device = device_id \<and> valid_uuid_text operation_id) (preflight ''EOTA v1 identity'')
       (Inr (if status = 1 then ''prepared'' else ''failed''))))))"

subsection \<open>The product ledger\<close>

definition ledger_row :: "bytes \<Rightarrow> nat \<Rightarrow> bytes" where
  "ledger_row blob index = pslice blob (10 + 112 * index) (122 + 112 * index)"

definition ledger_step :: "bytes \<Rightarrow> nat \<Rightarrow> pystr list \<Rightarrow> nat \<Rightarrow> pystr list res" where
  "ledger_step blob ecs_sequence ids index =
     (let count = byte_at blob 5; high = u32 blob 6; row = ledger_row blob index in
      if count \<le> index then require (\<not> any_byte row) (migration ''ledger empty row not zero'') (Inr ids)
      else
        (let operation = ascii_replace (pslice row 4 40) in
         require (byte_at row 40 = 0 \<and> valid_uuid_text operation \<and> operation \<notin> set ids \<and>
                  int (u32 row 0) = int high - int count + 1 + int index \<and>
                  0 < u32 row 108 \<and> u32 row 108 \<le> ecs_sequence \<and>
                  any_byte (pslice row 41 73) \<and> any_byte (pslice row 76 108) \<and> byte_at row 73 \<in> {1, 2, 3} \<and>
                  byte_at row 74 \<in> {2, 3} \<and> (byte_at row 74 = 3) = (byte_at row 75 \<noteq> 0))
           (migration ''ledger has a prepared, damaged or repeated row'')
         (Inr (operation # ids))))"

definition validate_ledger :: "bytes \<Rightarrow> nat \<Rightarrow> nat res" where
  "validate_ledger blob ecs_sequence =
     require (length blob = 910 \<and> take 5 blob = ascii ''EPRD'' @ [1] \<and> byte_at blob 5 \<le> 8 \<and>
              u32 blob 906 = crc32 (take 906 blob)) (migration ''ledger format or CRC'')
     (let count = byte_at blob 5; high = u32 blob 6 in
      require ((count = 0) = (high = 0) \<and> count \<le> high) (migration ''ledger counters'')
      (bindE (for_each (ledger_step blob ecs_sequence) [] [0..<8]) (\<lambda>_. Inr high)))"

subsection \<open>Package bindings\<close>

record binding =
  b_firmware :: bytes
  b_package :: bytes
  b_size :: nat
  b_abi :: nat
  b_schema :: nat
  b_slot :: nat

record ecs2 =
  ecs_sequence :: nat
  ecs_phase :: nat
  ecs_bindings :: "binding list"

definition ecs2_row :: "bytes \<Rightarrow> nat \<Rightarrow> bytes" where
  "ecs2_row blob index = pslice blob (12 + index * 80) (92 + index * 80)"

definition ecs2_step :: "bytes \<Rightarrow> nat \<times> nat \<Rightarrow> bytes list \<Rightarrow> bytes \<Rightarrow> binding list \<Rightarrow> nat \<Rightarrow> binding list res" where
  "ecs2_step flash packages valid_hashes blob bindings index =
     (let row = ecs2_row blob index; slot_size = snd packages div 3 in
      require (byte_at row 0 \<in> {0, 1} \<and> byte_at row 1 \<in> {0, 1} \<and> byte_at row 3 = 0) (migration ''ECS2 binding flags'')
      (if byte_at row 0 = 0 then require (\<not> any_byte row) (migration ''ECS2 empty binding not zero'') (Inr bindings)
       else
         (let firmware = pslice row 4 36; package = pslice row 36 68;
              psize = u32 row 68; abi = u32 row 72; schema = u32 row 76 in
          require (firmware \<in> set valid_hashes \<and> list_all (\<lambda>b. b_firmware b \<noteq> firmware) bindings)
            (migration ''ECS2 refers to a firmware that is not VALID or repeated'')
          (bindE (if byte_at row 1 \<noteq> 0 then
                    require (byte_at row 2 < 3 \<and> 0 < psize \<and> psize \<le> slot_size \<and> 0 < abi \<and> 0 < schema \<and> any_byte package)
                      (migration ''ECS2 package geometry'')
                    (let at = fst packages + byte_at row 2 * slot_size in
                     require (sha256 (pslice flash at (at + psize)) = package) (migration ''ECS2 package digest'') (Inr ()))
                  else require (\<not> any_byte (pslice row 2 4 @ drop 36 row)) (migration ''ECS2 fields without package'') (Inr ()))
           (\<lambda>_. Inr (bindings @ [\<lparr>b_firmware = firmware, b_package = package, b_size = psize, b_abi = abi,
                                  b_schema = schema, b_slot = byte_at row 2\<rparr>]))))))"

definition same_package :: "binding \<Rightarrow> binding \<Rightarrow> bool" where
  "same_package a b = (b_package a = b_package b \<and> b_size a = b_size b \<and> b_abi a = b_abi b \<and> b_schema a = b_schema b)"

definition ecs2_operation_ok :: "binding list \<Rightarrow> bytes \<Rightarrow> unit res" where
  "ecs2_operation_ok bindings operation =
     (if byte_at operation 0 = 0 then require (\<not> any_byte operation) (migration ''ECS2 idle with an operation'') (Inr ())
      else (case find (\<lambda>b. b_firmware b = pslice operation 20 52) bindings of
          None \<Rightarrow> Inl (migration ''ECS2 confirmed operation'')
        | Some target \<Rightarrow>
            require (any_byte (pslice operation 4 20) \<and> byte_at operation 2 \<in> {0, 1, 2} \<and> byte_at operation 3 \<in> {0, 1} \<and>
                     (any_byte (pslice operation 96 112) \<or> byte_at operation 2 = 2 \<and> byte_at operation 3 = 0))
              (migration ''ECS2 confirmed operation'')
            (require (byte_at operation 1 = b_slot target \<and> pslice operation 52 84 = b_package target \<and>
                      (u32 operation 84, u32 operation 88, u32 operation 92) = (b_size target, b_abi target, b_schema target) \<and>
                      (byte_at operation 2 = 2) = (b_size target = 0))
              (migration ''ECS2 confirmed binding'') (Inr ()))))"

definition validate_ecs2 :: "bytes \<Rightarrow> bytes \<Rightarrow> layout \<Rightarrow> bytes list \<Rightarrow> ecs2 res" where
  "validate_ecs2 blob flash layout valid_hashes =
     require (length blob = 288 \<and> take 4 blob = ascii ''ECS2'' \<and> u32 blob 4 = 2 \<and> 0 < u32 blob 8 \<and>
              u32 blob 284 = crc32 (take 284 blob)) (migration ''ECS2 format or CRC'')
     (bindE (key_of ''packages'' (l_packages layout)) (\<lambda>packages.
      bindE (for_each (ecs2_step flash packages valid_hashes blob) [] [0, 1]) (\<lambda>bindings.
      require (set (map b_firmware bindings) = set valid_hashes) (migration ''ECS2 does not cover the VALID firmware'')
      (require (\<not> (length bindings = 2 \<and> b_size (bindings ! 0) \<noteq> 0 \<and> b_size (bindings ! 1) \<noteq> 0 \<and>
                    b_slot (bindings ! 0) = b_slot (bindings ! 1)) \<or> same_package (bindings ! 0) (bindings ! 1))
        (migration ''ECS2 same slot, different bindings'')
      (let operation = pslice blob 172 284; phase = byte_at operation 0 in
       require (phase \<in> {0, 5}) (migration ''ECS2 operation in progress'')
       (bindE (ecs2_operation_ok bindings operation) (\<lambda>_.
        Inr \<lparr>ecs_sequence = u32 blob 8, ecs_phase = phase, ecs_bindings = bindings\<rparr>)))))))"

subsection \<open>The version 3 receipt\<close>

record terminal =
  t_operation_id :: pystr
  t_state :: string

type_synonym images = "(nat \<times> bytes) list"
type_synonym package_fields = "nat \<times> nat \<times> nat \<times> bytes"

definition target_package :: "bytes \<Rightarrow> package_fields" where
  "target_package blob = (u32 blob 187, u32 blob 191, u32 blob 195, pslice blob 199 231)"

definition source_package :: "bytes \<Rightarrow> package_fields" where
  "source_package blob = (u32 blob 264, u32 blob 268, u32 blob 272, pslice blob 276 308)"

definition package_fields_ok :: "package_fields \<Rightarrow> bool" where
  "package_fields_ok p = (case p of (n, abi, schema, h) \<Rightarrow>
     0 < n \<and> n < 0x80000000 \<and> 0 < abi \<and> 0 < schema \<and> any_byte h)"

definition v3_identity_ok :: "bytes \<Rightarrow> pystr \<Rightarrow> nat \<Rightarrow> bool" where
  "v3_identity_ok blob device_id app_size =
     (ascii_replace (pslice blob 14 50) = device_id \<and> valid_uuid_text (ascii_replace (pslice blob 50 86)) \<and>
      288 \<le> u32 blob 10 \<and> u32 blob 10 \<le> app_size \<and> any_byte (pslice blob 86 118) \<and> any_byte (pslice blob 118 150) \<and>
      (\<not> any_byte (pslice blob 150 182) \<or> pslice blob 150 182 \<noteq> pslice blob 118 150) \<and>
      (if byte_at blob 5 = 3 then byte_at blob 8 = 0 else byte_at blob 8 \<in> failure_codes))"

definition v3_packages_ok :: "bytes \<Rightarrow> ecs2 option \<Rightarrow> unit res" where
  "v3_packages_ok blob ecs =
     require ((byte_at blob 9 \<noteq> 0) = (ecs \<noteq> None) \<and> (if ecs \<noteq> None then 0 < u32 blob 182 else u32 blob 182 = 0))
       (migration ''V3 and ECS2 disagree'')
     (require (byte_at blob 263 = 0 \<and> \<not> any_byte (pslice blob 264 308) \<or>
               byte_at blob 263 \<noteq> 0 \<and> package_fields_ok (source_package blob)) (migration ''V3 source package'')
     (if byte_at blob 186 = 0 then
        require (\<not> any_byte (pslice blob 187 263) \<and> byte_at blob 263 = 0) (migration ''V3 fields without package'') (Inr ())
      else
        require (ecs \<noteq> None \<and> package_fields_ok (target_package blob) \<and> any_byte (pslice blob 231 263))
          (migration ''V3 target package'')
        (if byte_at blob 186 = 1 then
           require (byte_at blob 263 \<noteq> 0 \<and> target_package blob = source_package blob) (migration ''V3 REUSE'') (Inr ())
         else if byte_at blob 263 \<noteq> 0 then
           require (u32 blob 195 = u32 blob 272) (migration ''V3 WRITE schema'') (Inr ())
         else Inr ())))"

definition v3_slots_ok :: "bytes \<Rightarrow> bytes \<Rightarrow> layout \<Rightarrow> nat \<Rightarrow> (nat \<times> nat) list \<Rightarrow> images \<Rightarrow> unit res" where
  "v3_slots_ok blob flash layout selected states images =
     (let source = byte_at blob 6 - 0x10; target = byte_at blob 7 - 0x10 in
      if byte_at blob 5 = 3 then
        require (selected = target \<and>
                 (case map_of images target of None \<Rightarrow> False
                  | Some im \<Rightarrow> digest im = hex (pslice blob 86 118) \<and> length im = u32 blob 10) \<and>
                 (case map_of images source of None \<Rightarrow> False | Some im \<Rightarrow> digest im = hex (pslice blob 118 150)))
          (migration ''V3 success and slot identities'') (Inr ())
      else
        require (selected = source \<and>
                 (case map_of images source of None \<Rightarrow> False | Some im \<Rightarrow> digest im = hex (pslice blob 118 150)))
          (migration ''V3 failure and source identity'')
        (case map_of images target of
           Some im \<Rightarrow> require (sha256 im = pslice blob 150 182) (migration ''V3 failure backup identity'') (Inr ())
         | None \<Rightarrow>
             bindE (key_of ''apps'' (l_apps layout)) (\<lambda>apps.
             (let offset = (if target = 0 then fst apps else snd apps) in
              require (map_of states target \<in> {None, Some 3, Some 4} \<and> pslice flash offset (offset + 0x1000) = erased 0x1000)
                (migration ''V3 failed candidate not erased'') (Inr ())))))"

definition v3_binding_ok :: "bytes \<Rightarrow> ecs2 \<Rightarrow> unit res" where
  "v3_binding_ok blob ecs =
     require (u32 blob 182 \<le> ecs_sequence ecs) (migration ''ECS2 behind the V3 receipt'')
     (let firmware = (if byte_at blob 5 = 3 then pslice blob 86 118 else pslice blob 118 150) in
      case find (\<lambda>b. b_firmware b = firmware) (ecs_bindings ecs) of
        None \<Rightarrow> Inl (migration ''no ECS2 binding for the terminal firmware'')
      | Some b \<Rightarrow>
          require ((b_size b, b_abi b, b_schema b, b_package b) =
                   (if byte_at blob 5 = 3 then target_package blob else source_package blob))
            (migration ''terminal package and ECS2 disagree'') (Inr ()))"

definition terminal_of :: "bytes \<Rightarrow> terminal res" where
  "terminal_of blob =
     bindE (of_option (Raise UnicodeError ''decode'') (utf8_decode (pslice blob 50 86))) (\<lambda>operation.
     Inr \<lparr>t_operation_id = operation, t_state = (if byte_at blob 5 = 3 then ''succeeded'' else ''failed'')\<rparr>)"

definition validate_v3_receipt ::
  "bytes \<Rightarrow> pystr \<Rightarrow> bytes \<Rightarrow> layout \<Rightarrow> nat \<Rightarrow> (nat \<times> nat) list \<Rightarrow> images \<Rightarrow> ecs2 option \<Rightarrow> terminal res" where
  "validate_v3_receipt blob device_id flash layout selected states images ecs =
     require (length blob = 308 \<and> take 5 blob = ascii ''EOTA'' @ [3] \<and> byte_at blob 5 \<in> {2, 3} \<and> slot_pair_ok blob \<and>
              byte_at blob 9 \<in> {0, 1} \<and> byte_at blob 186 \<in> {0, 1, 2} \<and> byte_at blob 263 \<in> {0, 1})
       (migration ''V3 receipt pending, damaged or unknown'')
     (bindE (key_of ''app_size'' (l_app_size layout)) (\<lambda>app_size.
      require (v3_identity_ok blob device_id app_size) (migration ''V3 identity, state or firmware fields'')
      (bindE (v3_packages_ok blob ecs) (\<lambda>_.
       bindE (v3_slots_ok blob flash layout selected states images) (\<lambda>_.
       bindE (case ecs of None \<Rightarrow> Inr () | Some e \<Rightarrow> v3_binding_ok blob e) (\<lambda>_.
       terminal_of blob))))))"

subsection \<open>The version 4 receipt\<close>

definition v4_identity_ok :: "bytes \<Rightarrow> bytes \<Rightarrow> bool" where
  "v4_identity_ok blob device =
     (pslice blob 14 50 = device \<and> valid_uuid_text (ascii_replace (pslice blob 50 86)) \<and>
      288 \<le> u32 blob 10 \<and> u32 blob 10 \<le> APP_SIZE \<and> any_byte (pslice blob 86 118) \<and> any_byte (pslice blob 118 150) \<and>
      pslice blob 86 118 \<noteq> pslice blob 118 150 \<and>
      (\<not> any_byte (pslice blob 150 182) \<or> pslice blob 150 182 \<noteq> pslice blob 118 150))"

definition image_hash_is :: "images \<Rightarrow> nat \<Rightarrow> bytes \<Rightarrow> bool" where
  "image_hash_is images slot h = (case map_of images slot of None \<Rightarrow> False | Some im \<Rightarrow> sha256 im = h)"

definition validate_v4_receipt :: "bytes \<Rightarrow> pystr \<Rightarrow> nat \<Rightarrow> (nat \<times> nat) list \<Rightarrow> images \<Rightarrow> terminal res" where
  "validate_v4_receipt blob device_id selected states images =
     require (length blob = 182 \<and> take 5 blob = ascii ''EOTA'' @ [4] \<and> byte_at blob 5 \<in> {2, 3} \<and> slot_pair_ok blob \<and>
              byte_at blob 9 = 0) (migration ''V4 receipt damaged, unknown or still prepared'')
     (bindE (of_option (Raise UnicodeError ''encode'') (utf8_encode device_id)) (\<lambda>device.
      require (v4_identity_ok blob device) (migration ''V4 identity or image fields'')
      (let source = byte_at blob 6 - 0x10; target = byte_at blob 7 - 0x10 in
       require (map_of states source = Some 2 \<and> image_hash_is images source (pslice blob 118 150))
         (migration ''V4 source is not a trusted VALID image'')
       (bindE (if byte_at blob 5 = 3 then
                 require (byte_at blob 8 = 0 \<and> selected = target \<and> map_of states target = Some 2 \<and>
                          (\<exists>im \<in> set_option (map_of images target). length im = u32 blob 10) \<and>
                          image_hash_is images target (pslice blob 86 118))
                   (migration ''V4 success and the selected slot'') (Inr ())
               else
                 require (byte_at blob 8 \<in> failure_codes \<and> selected = source) (migration ''V4 failure and the selected slot'')
                 (require (map_of states target \<noteq> Some 2 \<or>
                           image_hash_is images target
                             (if any_byte (pslice blob 150 182) then pslice blob 150 182 else pslice blob 118 150))
                   (migration ''V4 backup image'') (Inr ())))
        (\<lambda>_. terminal_of blob)))))"

subsection \<open>A receipt agrees with the device\<close>

lemma uuid_text_ascii:
  assumes "valid_uuid_text (ascii_replace bs)"
  shows "utf8_decode bs = Some (ascii_replace bs)"
proof -
  have low: "c < 128" if "c \<in> set (ascii_replace bs)" for c
    using uuid_text_shape(2) [OF assms] that by (simp add: list_all_iff)
  have "unat b < 128" if "b \<in> set bs" for b
  proof -
    have "(if unat b < 128 then unat b else 0xFFFD) \<in> set (ascii_replace bs)"
      using that by (simp add: ascii_replace_def)
    from low [OF this] show ?thesis by (simp split: if_splits)
  qed
  then have "\<forall>b \<in> set bs. unat b < 128" ..
  moreover from this have "ascii_replace bs = map unat bs"
    by (simp add: ascii_replace_def)
  ultimately show ?thesis
    using utf8_encode_ascii [of bs] utf8.dec_enc by (simp add: list_all_iff)
qed

lemma terminal_of_ok:
  "valid_uuid_text (ascii_replace (pslice blob 50 86)) \<Longrightarrow>
     terminal_of blob = Inr \<lparr>t_operation_id = ascii_replace (pslice blob 50 86),
       t_state = (if byte_at blob 5 = 3 then ''succeeded'' else ''failed'')\<rparr>"
  by (simp add: terminal_of_def uuid_text_ascii)

text \<open>
  What a migration relies on when it finds a receipt: it is terminal, names a well-formed operation,
  and the image in the selected slot is the one the receipt records for its outcome (the new
  firmware after a success, the old one after a failure).
\<close>

definition recorded_hash :: "bytes \<Rightarrow> terminal \<Rightarrow> bytes" where
  "recorded_hash blob r = (if t_state r = ''succeeded'' then pslice blob 86 118 else pslice blob 118 150)"

locale terminal_receipt =
  fixes accepts :: "bytes \<Rightarrow> nat \<Rightarrow> images \<Rightarrow> terminal \<Rightarrow> bool"
  assumes terminal: "accepts blob selected images r \<Longrightarrow> t_state r \<in> {''succeeded'', ''failed''}"
    and operation: "accepts blob selected images r \<Longrightarrow> valid_uuid_text (t_operation_id r)"
    and selected: "accepts blob selected images r \<Longrightarrow> image_hash_is images selected (recorded_hash blob r)"
begin

lemma selected_image: "accepts blob selected images r \<Longrightarrow> \<exists>im. map_of images selected = Some im \<and> sha256 im = recorded_hash blob r"
  using selected [of blob selected images r] by (auto simp: image_hash_is_def split: option.splits)

text \<open>Two receipts found on the same device agree on the running firmware.\<close>

lemma same_firmware:
  assumes "accepts blob selected images r" "accepts blob' selected images r'"
  shows "recorded_hash blob r = recorded_hash blob' r'"
  using selected_image [OF assms(1)] selected_image [OF assms(2)] by auto

end

lemma digest_eq_hex_iff: "digest im = hex h \<longleftrightarrow> sha256 im = h"
  by (simp add: digest_def sha256.hexdigest_eq_iff)

lemma v4_accepts:
  assumes "validate_v4_receipt blob device_id selected states images = Inr r"
  shows "t_state r = (if byte_at blob 5 = 3 then ''succeeded'' else ''failed'')"
    and "valid_uuid_text (t_operation_id r)" "t_operation_id r = ascii_replace (pslice blob 50 86)"
    and "image_hash_is images selected (recorded_hash blob r)" "map_of states selected = Some 2"
    and "t_state r = ''succeeded'' \<Longrightarrow> \<exists>im. map_of images selected = Some im \<and> length im = u32 blob 10"
proof -
  note unf = assms [unfolded validate_v4_receipt_def Let_def res_simps]
  have id: "valid_uuid_text (ascii_replace (pslice blob 50 86))"
    using unf by (auto simp: v4_identity_ok_def)
  with unf have r: "r = \<lparr>t_operation_id = ascii_replace (pslice blob 50 86),
       t_state = (if byte_at blob 5 = 3 then ''succeeded'' else ''failed'')\<rparr>"
    by (auto simp: terminal_of_ok)
  then show "t_state r = (if byte_at blob 5 = 3 then ''succeeded'' else ''failed'')"
    "valid_uuid_text (t_operation_id r)" "t_operation_id r = ascii_replace (pslice blob 50 86)"
    using id by simp_all
  show "image_hash_is images selected (recorded_hash blob r)" "map_of states selected = Some 2"
    "t_state r = ''succeeded'' \<Longrightarrow> \<exists>im. map_of images selected = Some im \<and> length im = u32 blob 10"
    using unf r by (auto simp: recorded_hash_def res_simps split: if_splits)
qed

lemma v3_accepts:
  assumes "validate_v3_receipt blob device_id flash layout selected states images ecs = Inr r"
  shows "t_state r = (if byte_at blob 5 = 3 then ''succeeded'' else ''failed'')"
    and "valid_uuid_text (t_operation_id r)" "t_operation_id r = ascii_replace (pslice blob 50 86)"
    and "image_hash_is images selected (recorded_hash blob r)"
    and "ecs = Some e \<Longrightarrow> v3_binding_ok blob e = Inr ()"
proof -
  note unf = assms [unfolded validate_v3_receipt_def Let_def res_simps]
  have id: "valid_uuid_text (ascii_replace (pslice blob 50 86))"
    using unf by (auto simp: v3_identity_ok_def)
  with unf have r: "r = \<lparr>t_operation_id = ascii_replace (pslice blob 50 86),
       t_state = (if byte_at blob 5 = 3 then ''succeeded'' else ''failed'')\<rparr>"
    by (auto simp: terminal_of_ok)
  then show "t_state r = (if byte_at blob 5 = 3 then ''succeeded'' else ''failed'')"
    "valid_uuid_text (t_operation_id r)" "t_operation_id r = ascii_replace (pslice blob 50 86)"
    using id by simp_all
  have "v3_slots_ok blob flash layout selected states images = Inr ()"
    using unf by auto
  then show "image_hash_is images selected (recorded_hash blob r)"
    using r by (auto simp: v3_slots_ok_def image_hash_is_def recorded_hash_def res_simps Let_def digest_eq_hex_iff
        split: if_splits option.splits)
  show "v3_binding_ok blob e = Inr ()" if "ecs = Some e"
    using unf that by auto
qed

interpretation v4_receipt: terminal_receipt
    "\<lambda>blob selected images r. validate_v4_receipt blob device_id selected states images = Inr r" for device_id states
  by unfold_locales (use v4_accepts in \<open>auto split: if_splits\<close>)

interpretation v3_receipt: terminal_receipt
    "\<lambda>blob selected images r. validate_v3_receipt blob device_id flash layout selected states images ecs = Inr r"
  for device_id flash layout states ecs
  by unfold_locales (use v3_accepts in \<open>auto split: if_splits\<close>)

subsection \<open>The ledger\<close>

definition ledger_operation :: "bytes \<Rightarrow> nat \<Rightarrow> pystr" where
  "ledger_operation blob i = ascii_replace (pslice (ledger_row blob i) 4 40)"

lemma ledger_rows:
  assumes "for_each (ledger_step blob ecs_seq) [] [0..<n] = Inr ids" and "n \<le> 8"
  shows "ids = rev (map (ledger_operation blob) [0..<min n (byte_at blob 5)]) \<and> distinct ids \<and>
    (\<forall>i < min n (byte_at blob 5).
       int (u32 (ledger_row blob i) 0) = int (u32 blob 6) - int (byte_at blob 5) + 1 + int i \<and>
       byte_at (ledger_row blob i) 74 \<in> {2, 3} \<and> u32 (ledger_row blob i) 108 \<le> ecs_seq)"
  using assms
proof (induction n arbitrary: ids)
  case (Suc n)
  from Suc.prems(1) obtain ids' where run: "for_each (ledger_step blob ecs_seq) [] [0..<n] = Inr ids'"
    and step: "ledger_step blob ecs_seq ids' n = Inr ids"
    by (auto simp: for_each_append res_simps)
  note ih = Suc.IH [OF run]
  show ?case
  proof (cases "byte_at blob 5 \<le> n")
    case True
    then have "min n (byte_at blob 5) = byte_at blob 5" "min (Suc n) (byte_at blob 5) = byte_at blob 5" "ids = ids'"
      using step by (simp_all add: ledger_step_def Let_def res_simps)
    with ih Suc.prems(2) show ?thesis by (metis Suc_leD)
  next
    case False
    with step have row: "ids = ledger_operation blob n # ids'" "ledger_operation blob n \<notin> set ids'"
      "int (u32 (ledger_row blob n) 0) = int (u32 blob 6) - int (byte_at blob 5) + 1 + int n"
      "byte_at (ledger_row blob n) 74 \<in> {2, 3}" "u32 (ledger_row blob n) 108 \<le> ecs_seq"
      by (auto simp: ledger_step_def Let_def res_simps ledger_operation_def)
    from False have "min n (byte_at blob 5) = n" "min (Suc n) (byte_at blob 5) = Suc n"
      by simp_all
    with ih row Suc.prems(2) show ?thesis
      by (auto simp: less_Suc_eq)
  qed
qed simp

subsection \<open>Properties\<close>

text \<open>
  C13: an accepted version 4 receipt names the running firmware.  The receipt is terminal, its
  operation is a well-formed identity, the selected slot is VALID, and the image in that slot has
  the digest the receipt records for the outcome (and, after a success, the recorded size).
\<close>

theorem v4_receipt_names_running_firmware:
  assumes "validate_v4_receipt blob device_id selected states images = Inr r"
  shows "t_state r \<in> {''succeeded'', ''failed''} \<and> valid_uuid_text (t_operation_id r) \<and>
    map_of states selected = Some 2 \<and>
    (\<exists>im. map_of images selected = Some im \<and> sha256 im = recorded_hash blob r \<and>
       (t_state r = ''succeeded'' \<longrightarrow> length im = u32 blob 10))"
  using v4_receipt.terminal [OF assms] v4_receipt.operation [OF assms] v4_receipt.selected_image [OF assms]
    v4_accepts(5,6) [OF assms] by auto

text \<open>
  An accepted version 3 receipt names the running firmware and its package.  As for version 4,
  and where package bindings exist, the binding of the running firmware is exactly the package the
  receipt records for its outcome.
\<close>

theorem v3_receipt_names_running_firmware:
  assumes "validate_v3_receipt blob device_id flash layout selected states images ecs = Inr r"
  shows "t_state r \<in> {''succeeded'', ''failed''} \<and> valid_uuid_text (t_operation_id r) \<and>
    (\<exists>im. map_of images selected = Some im \<and> sha256 im = recorded_hash blob r) \<and>
    (\<forall>e. ecs = Some e \<longrightarrow>
       (\<exists>b \<in> set (ecs_bindings e). b_firmware b = recorded_hash blob r \<and>
          (b_size b, b_abi b, b_schema b, b_package b) =
            (if t_state r = ''succeeded'' then target_package blob else source_package blob)))"
proof -
  have "\<exists>b \<in> set (ecs_bindings e). b_firmware b = recorded_hash blob r \<and>
          (b_size b, b_abi b, b_schema b, b_package b) =
            (if t_state r = ''succeeded'' then target_package blob else source_package blob)"
    if "ecs = Some e" for e
    using v3_accepts(5) [OF assms that] v3_accepts(1) [OF assms]
    by (auto simp: v3_binding_ok_def recorded_hash_def res_simps Let_def find_Some_iff
        split: if_splits option.splits)
  with v3_receipt.terminal [OF assms] v3_receipt.operation [OF assms] v3_receipt.selected_image [OF assms]
  show ?thesis by blast
qed

text \<open>
  An accepted ledger is a gapless history.  Its rows are numbered consecutively up to the
  highest number it returns, all operations are different, none is still being prepared, and none
  refers to a package state the device has not reached.
\<close>

theorem ledger_is_gapless:
  assumes "validate_ledger blob ecs_seq = Inr high"
  shows "high = u32 blob 6 \<and> byte_at blob 5 \<le> 8 \<and>
    distinct (map (ledger_operation blob) [0..<byte_at blob 5]) \<and>
    (\<forall>i < byte_at blob 5. u32 (ledger_row blob i) 0 + byte_at blob 5 = high + 1 + i \<and>
       byte_at (ledger_row blob i) 74 \<in> {2, 3} \<and> u32 (ledger_row blob i) 108 \<le> ecs_seq)"
proof -
  from assms obtain ids where "high = u32 blob 6" "byte_at blob 5 \<le> 8"
    "for_each (ledger_step blob ecs_seq) [] [0..<8] = Inr ids"
    by (auto simp: validate_ledger_def Let_def res_simps simp del: upt_rec_numeral)
  moreover from ledger_rows [OF this(3)] this(2)
  have "distinct (map (ledger_operation blob) [0..<byte_at blob 5])"
    "\<forall>i < byte_at blob 5. int (u32 (ledger_row blob i) 0) = int (u32 blob 6) - int (byte_at blob 5) + 1 + int i \<and>
       byte_at (ledger_row blob i) 74 \<in> {2, 3} \<and> u32 (ledger_row blob i) 108 \<le> ecs_seq"
    by (auto simp: min_def)
  moreover have "a + c = h + 1 + i" if "int a = int h - int c + 1 + int i" for a c h i
    using that by linarith
  ultimately show ?thesis by blast
qed

subsection \<open>Sample records\<close>

definition sample_uuid :: string where
  "sample_uuid = ''00000000-0000-4000-8000-000000000000''"

definition sample_receipt_head :: "8 word \<Rightarrow> bytes" where
  "sample_receipt_head version =
     ascii ''EOTA'' @ [version, 2, 0x10, 0x11, 1, 0, 0x20, 1, 0, 0] @ ascii sample_uuid @ ascii sample_uuid @
     replicate 32 1 @ sha256 []"

lemma sample_uuid_length: "length sample_uuid = 36"
  by (simp add: sample_uuid_def)

lemma sample_head_length: "length (sample_receipt_head v) = 150"
  by (simp add: sample_receipt_head_def sample_uuid_length)

lemma sample_head_fields:
  "take 5 (sample_receipt_head v) = ascii ''EOTA'' @ [v]"
  "(sample_receipt_head v @ r) ! 5 = 2" "(sample_receipt_head v @ r) ! 6 = 0x10" "(sample_receipt_head v @ r) ! 7 = 0x11"
  "(sample_receipt_head v @ r) ! 8 = 1" "(sample_receipt_head v @ r) ! 9 = 0"
  "u32 (sample_receipt_head v @ r) 10 = 288"
  "pslice (sample_receipt_head v @ r) 14 50 = ascii sample_uuid"
  "pslice (sample_receipt_head v @ r) 50 86 = ascii sample_uuid"
  "pslice (sample_receipt_head v @ r) 86 118 = replicate 32 1"
  "pslice (sample_receipt_head v @ r) 118 150 = sha256 []"
  by (simp_all add: sample_receipt_head_def sample_uuid_length nth_append slice_simps u32_def)

lemma sample_uuid_text:
  "ascii_replace (ascii sample_uuid) = str sample_uuid" "valid_uuid_text (str sample_uuid)"
  "utf8_encode (str sample_uuid) = Some (ascii sample_uuid)"
proof -
  show "valid_uuid_text (str sample_uuid)"
    by code_simp
  show "ascii_replace (ascii sample_uuid) = str sample_uuid" "utf8_encode (str sample_uuid) = Some (ascii sample_uuid)"
    by (simp_all add: ascii_replace_def ascii_def str_def sample_uuid_def utf8_encode1_def)
qed

lemma sample_hashes: "any_byte (replicate 32 1)" "any_byte (sha256 [])" "replicate 32 1 \<noteq> sha256 []"
proof -
  show "any_byte (replicate 32 1)" "any_byte (sha256 [])"
    by (simp_all add: any_byte_def list_ex_iff sha256_empty)
  have "hd (replicate 32 1) \<noteq> hd (sha256 [])"
    by (simp add: sha256_empty)
  then show "replicate 32 1 \<noteq> sha256 []" by metis
qed

lemma sample_v4_receipt:
  "validate_v4_receipt (sample_receipt_head 4 @ zeros 32) (str sample_uuid) 0 [(0, 2)] [(0, [])] =
     Inr \<lparr>t_operation_id = str sample_uuid, t_state = ''failed''\<rparr>"
proof -
  have "pslice (sample_receipt_head 4 @ zeros 32) 150 182 = zeros 32"
    by (simp add: slice_simps sample_head_length)
  then show ?thesis
    by (simp add: validate_v4_receipt_def sample_head_fields sample_head_length slot_pair_ok_def sample_uuid_text
        v4_identity_ok_def sample_hashes layout_simps failure_codes_def terminal_of_ok image_hash_is_def)
qed

theorem v4_receipt_names_running_firmware_witness:
  "sha256 [] = recorded_hash (sample_receipt_head 4 @ zeros 32) \<lparr>t_operation_id = str sample_uuid, t_state = ''failed''\<rparr>"
  using v4_receipt_names_running_firmware [OF sample_v4_receipt] by simp

lemma sample_v3_receipt:
  "validate_v3_receipt (sample_receipt_head 3 @ zeros 158) (str sample_uuid) (erased FLASH_SIZE) c3_v1 0 [(0, 2)] [(0, [])]
     None = Inr \<lparr>t_operation_id = str sample_uuid, t_state = ''failed''\<rparr>"
proof -
  let ?b = "sample_receipt_head 3 @ zeros 158"
  have z: "pslice ?b i j = zeros (min j 308 - i)" if "150 \<le> i" for i j
    using that by (simp add: slice_simps sample_head_length zeros_def)
  have n: "?b ! i = 0" if "150 \<le> i" "i < 308" for i
    using that by (simp add: nth_append sample_head_length zeros_def)
  have u: "u32 ?b 182 = 0"
    by (simp add: u32_def z from_le_zeros)
  have "v3_identity_ok ?b (str sample_uuid) APP_SIZE"
    by (simp add: v3_identity_ok_def sample_head_fields sample_uuid_text sample_hashes z failure_codes_def layout_simps)
  moreover have "v3_packages_ok ?b None = Inr ()"
    by (simp add: v3_packages_ok_def sample_head_fields z n u)
  moreover have "v3_slots_ok ?b (erased FLASH_SIZE) c3_v1 0 [(0, 2)] [(0, [])] = Inr ()"
    by (simp add: v3_slots_ok_def sample_head_fields digest_eq_hex_iff layout_defs layout_simps erased_def slice_simps)
  moreover have "terminal_of ?b = Inr \<lparr>t_operation_id = str sample_uuid, t_state = ''failed''\<rparr>"
    by (simp add: terminal_of_ok sample_head_fields sample_uuid_text)
  ultimately show ?thesis
    by (simp add: validate_v3_receipt_def sample_head_fields sample_head_length slot_pair_ok_def n layout_defs)
qed

theorem v3_receipt_names_running_firmware_witness:
  "sha256 [] = recorded_hash (sample_receipt_head 3 @ zeros 158) \<lparr>t_operation_id = str sample_uuid, t_state = ''failed''\<rparr>"
  using v3_receipt_names_running_firmware [OF sample_v3_receipt] by simp

text \<open>A ledger with one confirmed operation.\<close>

definition sample_row :: bytes where
  "sample_row = [1, 0, 0, 0] @ ascii sample_uuid @ [0] @ replicate 32 1 @ [1, 2, 0] @ replicate 32 1 @ [1, 0, 0, 0]"

definition sample_ledger_body :: bytes where
  "sample_ledger_body = ascii ''EPRD'' @ [1, 1, 1, 0, 0, 0] @ sample_row @ zeros 784"

definition sample_ledger :: bytes where
  "sample_ledger = sample_ledger_body @ to_le 4 (crc32 sample_ledger_body)"

lemma sample_row_ok:
  "length sample_row = 112" "u32 sample_row 0 = 1" "u32 sample_row 108 = 1" "pslice sample_row 4 40 = ascii sample_uuid"
  "sample_row ! 40 = 0" "sample_row ! 73 = 1" "sample_row ! 74 = 2" "sample_row ! 75 = 0"
  "any_byte (pslice sample_row 41 73)" "any_byte (pslice sample_row 76 108)"
  by (simp_all add: sample_row_def sample_uuid_length u32_def slice_simps nth_append any_byte_def list_ex_iff)

lemma sample_ledger_rows:
  "ledger_row sample_ledger 0 = sample_row" "0 < i \<Longrightarrow> i < 8 \<Longrightarrow> ledger_row sample_ledger i = zeros 112"
  by (simp_all add: ledger_row_def sample_ledger_def sample_ledger_body_def slice_simps sample_row_ok(1) zeros_def)

lemma sample_ledger_head:
  "length sample_ledger = 910" "take 5 sample_ledger = ascii ''EPRD'' @ [1]" "sample_ledger ! 5 = 1"
  "u32 sample_ledger 6 = 1" "u32 sample_ledger 906 = crc32 (take 906 sample_ledger)"
proof -
  have len: "length sample_ledger_body = 906"
    by (simp add: sample_ledger_body_def sample_row_ok(1))
  show "length sample_ledger = 910"
    by (simp add: sample_ledger_def len)
  show "take 5 sample_ledger = ascii ''EPRD'' @ [1]" "sample_ledger ! 5 = 1" "u32 sample_ledger 6 = 1"
    by (simp_all add: sample_ledger_def sample_ledger_body_def u32_def slice_simps nth_append)
  have "crc32 sample_ledger_body < 256 ^ 4"
    using crc32_from_less [of sample_ledger_body 0] by (simp add: crc32_def)
  then show "u32 sample_ledger 906 = crc32 (take 906 sample_ledger)"
    by (simp add: sample_ledger_def len u32_def slice_simps from_le_to_le)
qed

lemma sample_ledger_ok: "validate_ledger sample_ledger 1 = Inr 1"
proof -
  have first: "ledger_step sample_ledger 1 [] 0 = Inr [str sample_uuid]"
    by (simp add: ledger_step_def sample_ledger_rows sample_ledger_head sample_row_ok sample_uuid_text)
  have "for_each (ledger_step sample_ledger 1) ids is = Inr ids" if "\<forall>i \<in> set is. 0 < i \<and> i < 8" for ids "is"
    using that by (induction "is") (auto simp: ledger_step_def sample_ledger_head sample_ledger_rows)
  from this [of "[1..<8]" "[str sample_uuid]"] first
  have "for_each (ledger_step sample_ledger 1) [] [0..<8] = Inr [str sample_uuid]"
    by (simp add: upt_conv_Cons [of 0 8] del: upt_rec_numeral)
  then show ?thesis
    by (simp add: validate_ledger_def sample_ledger_head del: upt_rec_numeral)
qed

theorem ledger_is_gapless_witness:
  "distinct (map (ledger_operation sample_ledger) [0..<1]) \<and> u32 (ledger_row sample_ledger 0) 0 + 1 = 1 + 1 + 0"
  using ledger_is_gapless [OF sample_ledger_ok] by (simp add: sample_ledger_head)

end
