(* ===== verification/Capacity_Lines.thy ===== *)
theory Capacity_Lines
  imports Python_Values
begin

text \<open>
  The lines of a formal capacity frame (\<^verbatim>\<open>analyze_capacity.py\<close>): the tables of field names and
  types, and \<^verbatim>\<open>_parse\<close>, which turns one raw UART line into a row.  A row is the dictionary the
  source builds, an association list from field names to integers or texts; \<open>num\<close> and \<open>text_of\<close> are
  the subscripts.  A parsed row has exactly the fields of its kind, each of its type and within its
  width (\<open>parsed_row_typed\<close>), so the default values of the two subscripts are never read, and it has
  exactly one spelling (\<open>render_parse\<close>).
\<close>

unbundle bit_operations_syntax

datatype kind = BEGIN | MQTT | REGION | TASK | DOMAIN | END

datatype field = Num int | Text pystr

type_synonym row = "(string \<times> field) list"

definition num :: "row \<Rightarrow> string \<Rightarrow> int" where
  "num row key = (case map_of row key of Some (Num n) \<Rightarrow> n | _ \<Rightarrow> 0)"

definition text_of :: "row \<Rightarrow> string \<Rightarrow> pystr" where
  "text_of row key = (case map_of row key of Some (Text t) \<Rightarrow> t | _ \<Rightarrow> [])"

subsection \<open>Tables\<close>

definition UINT32_MAX :: int where
  "UINT32_MAX = 0xFFFFFFFF"

definition UINT64_MAX :: int where
  "UINT64_MAX = 0xFFFFFFFFFFFFFFFF"

definition MARKER :: bytes where
  "MARKER = ascii ''ESP_BASE_CAPACITY_''"

fun kind_name :: "kind \<Rightarrow> string" where
  "kind_name BEGIN = ''BEGIN''"
| "kind_name MQTT = ''MQTT''"
| "kind_name REGION = ''REGION''"
| "kind_name TASK = ''TASK''"
| "kind_name DOMAIN = ''DOMAIN''"
| "kind_name END = ''END''"

definition kinds :: "kind list" where
  "kinds = [BEGIN, MQTT, REGION, TASK, DOMAIN, END]"

fun FIELDS :: "kind \<Rightarrow> string list" where
  "FIELDS BEGIN = [''schema'', ''boot_id'', ''frame'', ''phase'', ''uptime_ms'', ''sdk_lock_sha256'', ''task_limit'']"
| "FIELDS MQTT = [''boot_id'', ''frame'', ''available'', ''runtime_instance'', ''rx_peak_valid'', ''rx_peak_uptime_ms'',
     ''rx_peak_observed_until_uptime_ms'', ''complete_owner_count'', ''complete_payload_bytes'',
     ''partial_declared_bytes'', ''partial_received_bytes'', ''owned_message_metadata_bytes'', ''owned_request_bytes'',
     ''outbox_wire_bytes_at_rx_peak'', ''outbox_full_count'', ''last_outbox_full_payload_bytes'',
     ''last_outbox_full_uptime_ms'', ''notice_count_high_water'', ''notice_full_count'', ''counters_valid'',
     ''observation_storage_bytes'', ''readout_copy_bytes'']"
| "FIELDS REGION = [''boot_id'', ''frame'', ''start'', ''end'', ''caps0'', ''caps1'', ''caps2'', ''alias_start'', ''alias_end'',
     ''alias_inverted'', ''available_at_heap_init'', ''free_bytes'', ''min_free_bytes'', ''largest_request_bytes'',
     ''min_largest_request_bytes'', ''allocator_metadata_bytes'']"
| "FIELDS TASK = [''boot_id'', ''frame'', ''instance'', ''name_hex'', ''minimum_stack_bytes'', ''state'']"
| "FIELDS DOMAIN = [''boot_id'', ''frame'', ''caps'', ''alignment_bytes'', ''minimum_free_lower_bound_bytes'',
     ''largest_request_lower_bound_bytes'', ''history'']"
| "FIELDS END = [''boot_id'', ''frame'', ''regions'', ''allocated_tasks'', ''created_instances'', ''finalized_instances'',
     ''completed_stack_min_bytes'', ''worst_completed_instance'', ''minimum_stack_bytes'', ''task_snapshot_complete'',
     ''counters_valid'', ''facts_valid'', ''workspace_bytes'', ''observation_cost_added_back'']"

definition HEX_FIELDS :: "string list" where
  "HEX_FIELDS = [''start'', ''end'', ''caps0'', ''caps1'', ''caps2'', ''alias_start'', ''alias_end'', ''caps'']"

definition BOOL_FIELDS :: "string list" where
  "BOOL_FIELDS = [''alias_inverted'', ''available_at_heap_init'', ''task_snapshot_complete'', ''counters_valid'',
     ''facts_valid'', ''observation_cost_added_back'', ''available'', ''rx_peak_valid'']"

definition UINT64_FIELDS :: "string list" where
  "UINT64_FIELDS = [''uptime_ms'', ''rx_peak_uptime_ms'', ''rx_peak_observed_until_uptime_ms'', ''last_outbox_full_uptime_ms'']"

definition TEXT_FIELDS :: "string list" where
  "TEXT_FIELDS = [''boot_id'', ''phase'', ''sdk_lock_sha256'', ''name_hex'', ''history'']"

subsection \<open>Text operations of the language\<close>

definition rstrip :: "('a \<Rightarrow> bool) \<Rightarrow> 'a list \<Rightarrow> 'a list" where
  "rstrip p xs = rev (dropWhile p (rev xs))"

definition eol :: "8 word \<Rightarrow> bool" where
  "eol b = (b = 13 \<or> b = 10)"

definition startswith :: "'a list \<Rightarrow> 'a list \<Rightarrow> bool" where
  "startswith xs pre = (take (length pre) xs = pre)"

definition removeprefix :: "'a list \<Rightarrow> 'a list \<Rightarrow> 'a list" where
  "removeprefix xs pre = (if startswith xs pre then drop (length pre) xs else xs)"

text \<open>\<^verbatim>\<open>part.partition("=")\<close>: the text before the separator, whether it occurs, the text after it.\<close>

definition partition_at :: "'a \<Rightarrow> 'a list \<Rightarrow> 'a list \<times> bool \<times> 'a list" where
  "partition_at sep xs =
     (takeWhile (\<lambda>c. c \<noteq> sep) xs, sep \<in> set xs, drop 1 (dropWhile (\<lambda>c. c \<noteq> sep) xs))"

definition decimal_text :: "pystr \<Rightarrow> bool" where
  "decimal_text s = (s = [48] \<or> (case s of [] \<Rightarrow> False | c # cs \<Rightarrow> 49 \<le> c \<and> c \<le> 57 \<and> list_all is_digit cs))"

definition digits_value :: "int \<Rightarrow> (nat \<Rightarrow> int) \<Rightarrow> pystr \<Rightarrow> int" where
  "digits_value base digit s = foldl (\<lambda>n c. base * n + digit c) 0 s"

definition decimal_value :: "pystr \<Rightarrow> int" where
  "decimal_value = digits_value 10 (\<lambda>c. int c - 48)"

definition hex8_text :: "pystr \<Rightarrow> bool" where
  "hex8_text s = (length s = 8 \<and> list_all is_lower_hex s)"

definition hex8_value :: "pystr \<Rightarrow> int" where
  "hex8_value = digits_value 16 (\<lambda>c. if c \<le> 57 then int c - 48 else int c - 87)"

subsection \<open>One line\<close>

text \<open>Iterating over a binary stream yields the lines with their line feeds.\<close>

fun file_lines :: "bytes \<Rightarrow> bytes list" where
  "file_lines [] = []"
| "file_lines (b # bs) =
     (if b = 10 then [b] # file_lines bs
      else (case file_lines bs of [] \<Rightarrow> [[b]] | l # ls \<Rightarrow> (b # l) # ls))"

definition parse_field :: "string \<Rightarrow> pystr \<Rightarrow> field res" where
  "parse_field key text =
     (if key \<in> set TEXT_FIELDS then Inr (Text text)
      else if key \<in> set HEX_FIELDS then
        require (hex8_text text) (Raise ValueError ''not eight hexadecimal digits'') (Inr (Num (hex8_value text)))
      else
        require (decimal_text text) (Raise ValueError ''not a canonical number'')
        (let number = decimal_value text in
         require (number \<le> (if key \<in> set UINT64_FIELDS then UINT64_MAX else UINT32_MAX))
           (Raise ValueError ''number out of range'')
         (require (key \<notin> set BOOL_FIELDS \<or> number = 0 \<or> number = 1) (Raise ValueError ''not a boolean'')
         (Inr (Num number)))))"

definition parse_part :: "row \<Rightarrow> string \<times> pystr \<Rightarrow> row res" where
  "parse_part row = (\<lambda>(expected, part). (case partition_at 61 part of (key, separator, text) \<Rightarrow>
     require (key = str expected \<and> separator \<and> text \<noteq> []) (Raise ValueError ''field missing, repeated or out of order'')
     (bindE (parse_field expected text) (\<lambda>value. Inr (row @ [(expected, value)])))))"

definition parse_line :: "bytes \<Rightarrow> (kind \<times> row) option res" where
  "parse_line raw =
     (if \<not> contains MARKER raw then Inr None
      else
        require (startswith raw MARKER \<and> (raw \<noteq> [] \<and> last raw = 10) \<and> int (length raw) \<le> 4096)
          (Raise ValueError ''capacity line with a prefix, too long or unfinished'')
        (bindE (of_option (Raise ValueError ''not ASCII'') (ascii_decode (rstrip eol raw))) (\<lambda>text.
         (let parts = split_on 32 text; name = removeprefix (hd parts) (str ''ESP_BASE_CAPACITY_'') in
          case find (\<lambda>k. str (kind_name k) = name) kinds of
            None \<Rightarrow> Inl (Raise ValueError ''unknown line or number of fields'')
          | Some kind \<Rightarrow>
              require (length parts = length (FIELDS kind) + 1) (Raise ValueError ''unknown line or number of fields'')
              (bindE (for_each parse_part [] (zip (FIELDS kind) (tl parts))) (\<lambda>row. Inr (Some (kind, row))))))))"

subsection \<open>The spelling of a row\<close>

text \<open>
  The one spelling a row has: the numbers in the notation of their field, the fields in the order of
  the table.
\<close>

fun hex_digits :: "nat \<Rightarrow> nat \<Rightarrow> pystr" where
  "hex_digits 0 v = []"
| "hex_digits (Suc n) v = hex_digits n (v div 16) @ [hex_digit (v mod 16)]"

definition field_typed :: "string \<Rightarrow> field \<Rightarrow> bool" where
  "field_typed key f = (case f of
      Text t \<Rightarrow> key \<in> set TEXT_FIELDS
    | Num n \<Rightarrow> key \<notin> set TEXT_FIELDS \<and> 0 \<le> n \<and>
        (if key \<in> set HEX_FIELDS then n \<le> UINT32_MAX
         else n \<le> (if key \<in> set UINT64_FIELDS then UINT64_MAX else UINT32_MAX) \<and>
              (key \<in> set BOOL_FIELDS \<longrightarrow> n = 0 \<or> n = 1)))"

definition render_field :: "string \<Rightarrow> field \<Rightarrow> pystr" where
  "render_field key f = (case f of
      Text t \<Rightarrow> t
    | Num n \<Rightarrow> if key \<in> set HEX_FIELDS then hex_digits 8 (nat n) else decimal (nat n))"

definition render_part :: "string \<times> field \<Rightarrow> pystr" where
  "render_part = (\<lambda>(key, f). str key @ 61 # render_field key f)"

definition render :: "kind \<Rightarrow> row \<Rightarrow> pystr" where
  "render kind row = str ''ESP_BASE_CAPACITY_'' @ str (kind_name kind) @ concat (map (\<lambda>p. 32 # render_part p) row)"

text \<open>A row of its kind: the fields of the table, typed, every text non-empty ASCII without blanks.\<close>

definition row_typed :: "kind \<Rightarrow> row \<Rightarrow> bool" where
  "row_typed kind row = (map fst row = FIELDS kind \<and> list_all (\<lambda>(key, f). field_typed key f) row)"

definition plain_text :: "pystr \<Rightarrow> bool" where
  "plain_text t = (t \<noteq> [] \<and> 32 \<notin> set t \<and> list_all (\<lambda>c. c < 128) t)"

definition plain_texts :: "row \<Rightarrow> bool" where
  "plain_texts row = list_all (\<lambda>(key, f). case f of Text t \<Rightarrow> plain_text t | Num _ \<Rightarrow> True) row"

subsection \<open>Numbers\<close>

lemma digits_value_snoc: "digits_value b d (s @ [c]) = b * digits_value b d s + d c"
  by (simp add: digits_value_def)

lemma digits_value_Nil [simp]: "digits_value b d [] = 0"
  by (simp add: digits_value_def)

lemma nat_digit:
  assumes "0 \<le> n" "0 \<le> d" "d < int b"
  shows "nat (int b * n + d) div b = nat n" "nat (int b * n + d) mod b = nat d"
proof -
  obtain m e where "n = int m" "d = int e" "e < b"
    using assms nonneg_int_cases by (metis of_nat_less_iff)
  moreover from this have "nat (int b * n + d) = b * m + e"
    by (metis nat_int of_nat_add of_nat_mult)
  ultimately show "nat (int b * n + d) div b = nat n" "nat (int b * n + d) mod b = nat d"
    by simp_all
qed

lemmas decimal_digit = nat_digit [of _ _ 10, simplified]
lemmas hex_digit_split = nat_digit [of _ _ 16, simplified]

lemma decimal_value_decimal: "decimal_value (decimal n) = int n"
proof (induction n rule: decimal.induct)
  case (1 n)
  show ?case
  proof (cases "n < 10")
    case True
    then show ?thesis
      by (simp add: decimal.simps [of n] decimal_value_def digits_value_def)
  next
    case False
    with 1 have "decimal_value (decimal (n div 10)) = int (n div 10)" by simp
    with False show ?thesis
      by (simp add: decimal.simps [of n] decimal_value_def digits_value_snoc zdiv_int zmod_int)
  qed
qed

lemma decimal_text_snoc:
  "decimal_text (s @ [c]) \<longleftrightarrow> (if s = [] then is_digit c else decimal_text s \<and> s \<noteq> [48] \<and> is_digit c)"
  by (cases s) (auto simp: decimal_text_def is_digit_def)

lemma decimal_eq_zero: "decimal n = [48] \<longleftrightarrow> n = 0"
  by (metis decimal_value_decimal decimal.simps add.right_neutral of_nat_eq_iff zero_less_numeral)

lemma decimal_not_Nil [simp]: "decimal n \<noteq> []"
  by (simp add: decimal.simps [of n])

lemma decimal_text_decimal: "decimal_text (decimal n)"
proof (induction n rule: decimal.induct)
  case (1 n)
  show ?case
  proof (cases "n < 10")
    case True
    then show ?thesis
      by (auto simp: decimal.simps [of n] decimal_text_def)
  next
    case False
    with 1 have "decimal_text (decimal (n div 10))" by simp
    with False show ?thesis
      by (simp add: decimal.simps [of n] decimal_text_snoc decimal_eq_zero is_digit_def less_Suc_eq_le [symmetric] div_greater_zero_iff)
  qed
qed

lemma decimal_of_text:
  "decimal_text s \<Longrightarrow> 0 \<le> decimal_value s \<and> decimal (nat (decimal_value s)) = s"
proof (induction s rule: rev_induct)
  case Nil
  then show ?case by (simp add: decimal_text_def)
next
  case (snoc c s)
  let ?n = "decimal_value s"
  have c: "is_digit c" and v: "decimal_value (s @ [c]) = 10 * ?n + (int c - 48)"
    using snoc.prems by (auto simp: decimal_text_snoc decimal_value_def digits_value_snoc split: if_splits)
  show ?case
  proof (cases "s = []")
    case True
    with c v show ?thesis
      by (auto simp: decimal.simps [of "c - 48"] decimal_value_def is_digit_def nat_diff_distrib)
  next
    case False
    with snoc have ok: "0 \<le> ?n" "decimal (nat ?n) = s" "s \<noteq> [48]"
      by (auto simp: decimal_text_snoc)
    then have "?n \<noteq> 0"
      by (auto simp: decimal.simps)
    with ok have "10 \<le> nat (10 * ?n + (int c - 48))" and
      "nat (10 * ?n + (int c - 48)) div 10 = nat ?n" and "48 + nat (10 * ?n + (int c - 48)) mod 10 = c"
      using c decimal_digit [of ?n "int c - 48"] by (auto simp: is_digit_def)
    with ok v c show ?thesis
      by (simp add: decimal.simps [of "nat (10 * ?n + (int c - 48))"] is_digit_def)
  qed
qed

lemma length_hex_digits [simp]: "length (hex_digits n v) = n"
  by (induction n arbitrary: v) auto

lemma hex_digits_lower: "c \<in> set (hex_digits n v) \<Longrightarrow> is_lower_hex c"
  by (induction n arbitrary: v) (auto intro: is_lower_hex_digit)

definition hex_code :: "nat \<Rightarrow> int" where
  "hex_code c = (if c \<le> 57 then int c - 48 else int c - 87)"

lemma hex8_value_alt: "hex8_value = digits_value 16 hex_code"
  by (simp add: hex8_value_def hex_code_def [abs_def])

lemma hex_code_digit: "d < 16 \<Longrightarrow> hex_code (hex_digit d) = int d"
  by (auto simp: hex_code_def hex_digit_def)

lemma hex_code_lower: "is_lower_hex c \<Longrightarrow> 0 \<le> hex_code c \<and> hex_code c < 16 \<and> hex_digit (nat (hex_code c)) = c"
  by (auto simp: hex_code_def is_lower_hex_def hex_digit_def nat_diff_distrib)

lemma hex_value_digits: "v < 16 ^ n \<Longrightarrow> digits_value 16 hex_code (hex_digits n v) = int v"
proof (induction n arbitrary: v)
  case (Suc n)
  have "v div 16 < 16 ^ n"
    using Suc.prems by (simp add: less_mult_imp_div_less mult.commute)
  with Suc.IH show ?case
    by (simp add: digits_value_snoc hex_code_digit zdiv_int zmod_int)
qed simp

lemma hex_digits_of_text:
  "list_all is_lower_hex s \<Longrightarrow> 0 \<le> digits_value 16 hex_code s \<and> digits_value 16 hex_code s < 16 ^ length s \<and>
     hex_digits (length s) (nat (digits_value 16 hex_code s)) = s"
proof (induction s rule: rev_induct)
  case (snoc c s)
  let ?n = "digits_value 16 hex_code s"
  have c: "0 \<le> hex_code c" "hex_code c < 16" "hex_digit (nat (hex_code c)) = c"
    using snoc.prems hex_code_lower by auto
  have ok: "0 \<le> ?n" "?n < 16 ^ length s" "hex_digits (length s) (nat ?n) = s"
    using snoc by auto
  have "nat (16 * ?n + hex_code c) div 16 = nat ?n" "nat (16 * ?n + hex_code c) mod 16 = nat (hex_code c)"
    using ok(1) c(1,2) by (simp_all only: hex_digit_split)
  with ok c show ?case
    by (simp add: digits_value_snoc)
qed simp

subsection \<open>Fields, parts and lines\<close>

lemma hex8_iff:
  "hex8_text t \<and> n = hex8_value t \<longleftrightarrow> 0 \<le> n \<and> n \<le> UINT32_MAX \<and> t = hex_digits 8 (nat n)"
proof
  assume "hex8_text t \<and> n = hex8_value t"
  then show "0 \<le> n \<and> n \<le> UINT32_MAX \<and> t = hex_digits 8 (nat n)"
    using hex_digits_of_text [of t] by (simp add: hex8_text_def hex8_value_alt UINT32_MAX_def)
next
  assume *: "0 \<le> n \<and> n \<le> UINT32_MAX \<and> t = hex_digits 8 (nat n)"
  then have "hex8_value t = int (nat n)"
    unfolding hex8_value_alt using hex_value_digits [of "nat n" 8] by (simp add: UINT32_MAX_def nat_less_iff)
  with * show "hex8_text t \<and> n = hex8_value t"
    by (auto simp: hex8_text_def list_all_iff hex_digits_lower)
qed

lemma decimal_iff: "decimal_text t \<and> n = decimal_value t \<longleftrightarrow> 0 \<le> n \<and> t = decimal (nat n)"
  using decimal_of_text [of t] decimal_text_decimal [of "nat n"] decimal_value_decimal [of "nat n"] by auto

lemma parse_field_Text: "parse_field key t = Inr (Text u) \<longleftrightarrow> key \<in> set TEXT_FIELDS \<and> t = u"
  by (auto simp: parse_field_def Let_def res_simps)

lemma parse_field_Num: "parse_field key t = Inr (Num n) \<longleftrightarrow> field_typed key (Num n) \<and> t = render_field key (Num n)"
proof (cases "key \<in> set TEXT_FIELDS")
  case nontext: False
  show ?thesis
  proof (cases "key \<in> set HEX_FIELDS")
    case True
    have "parse_field key t = Inr (Num n) \<longleftrightarrow> hex8_text t \<and> n = hex8_value t"
      using nontext True by (auto simp: parse_field_def res_simps)
    also have "\<dots> \<longleftrightarrow> field_typed key (Num n) \<and> t = render_field key (Num n)"
      using nontext True by (auto simp: hex8_iff field_typed_def render_field_def)
    finally show ?thesis .
  next
    case False
    have "parse_field key t = Inr (Num n) \<longleftrightarrow>
        (decimal_text t \<and> n = decimal_value t) \<and> n \<le> (if key \<in> set UINT64_FIELDS then UINT64_MAX else UINT32_MAX) \<and>
        (key \<notin> set BOOL_FIELDS \<or> n = 0 \<or> n = 1)"
      using nontext False by (auto simp: parse_field_def Let_def res_simps)
    also have "\<dots> \<longleftrightarrow> field_typed key (Num n) \<and> t = render_field key (Num n)"
      unfolding decimal_iff using nontext False by (auto simp: field_typed_def render_field_def)
    finally show ?thesis .
  qed
qed (simp add: parse_field_def field_typed_def)

lemma parse_field_iff: "parse_field key t = Inr f \<longleftrightarrow> field_typed key f \<and> t = render_field key f"
  by (cases f) (auto simp: parse_field_Text parse_field_Num field_typed_def render_field_def)

lemma partition_at_iff:
  "partition_at c xs = (key, True, rest) \<longleftrightarrow> xs = key @ c # rest \<and> c \<notin> set key"
proof
  assume "partition_at c xs = (key, True, rest)"
  then have k: "key = takeWhile (\<lambda>x. x \<noteq> c) xs" and c: "c \<in> set xs" and r: "rest = drop 1 (dropWhile (\<lambda>x. x \<noteq> c) xs)"
    by (auto simp: partition_at_def)
  from c obtain d where "dropWhile (\<lambda>x. x \<noteq> c) xs = d # rest"
    using r by (cases "dropWhile (\<lambda>x. x \<noteq> c) xs") (auto simp: dropWhile_eq_Nil_conv)
  moreover from this have "d = c"
    by (metis (mono_tags) dropWhile_eq_Cons_conv)
  ultimately show "xs = key @ c # rest \<and> c \<notin> set key"
    using takeWhile_dropWhile_id [of "\<lambda>x. x \<noteq> c" xs] k by (auto dest: set_takeWhileD)
next
  assume "xs = key @ c # rest \<and> c \<notin> set key"
  then show "partition_at c xs = (key, True, rest)"
    by (auto simp: partition_at_def takeWhile_append dropWhile_append2)
qed

lemma parse_part_iff:
  assumes "61 \<notin> set (str key)"
  shows "parse_part acc (key, part) = Inr row \<longleftrightarrow>
    (\<exists>f. row = acc @ [(key, f)] \<and> field_typed key f \<and> render_field key f \<noteq> [] \<and> part = render_part (key, f))"
proof -
  obtain k sep t where p: "partition_at 61 part = (k, sep, t)"
    by (cases "partition_at 61 part")
  have "k = str key \<and> sep \<longleftrightarrow> part = str key @ 61 # t"
    using assms p partition_at_iff [of 61 part "str key" t] by auto
  moreover have "part = str key @ 61 # u \<Longrightarrow> t = u" for u
    using assms p partition_at_iff [of 61 part "str key" u] by auto
  ultimately show ?thesis
    by (auto simp: parse_part_def p res_simps parse_field_iff render_part_def)
qed

lemma parse_parts_iff:
  assumes "list_all (\<lambda>key. 61 \<notin> set (str key)) keys" "length parts = length keys"
  shows "for_each parse_part acc (zip keys parts) = Inr row \<longleftrightarrow>
    (\<exists>r. row = acc @ r \<and> map fst r = keys \<and> list_all (\<lambda>(key, f). field_typed key f \<and> render_field key f \<noteq> []) r \<and>
         parts = map render_part r)"
  using assms
proof (induction keys arbitrary: parts acc)
  case Nil
  then show ?case by auto
next
  case (Cons key keys)
  then obtain p ps where parts: "parts = p # ps" "length ps = length keys" by (cases parts) auto
  have *: "for_each parse_part acc (zip (key # keys) parts) = Inr row \<longleftrightarrow>
      (\<exists>f. field_typed key f \<and> render_field key f \<noteq> [] \<and> p = render_part (key, f) \<and>
           for_each parse_part (acc @ [(key, f)]) (zip keys ps) = Inr row)"
    using Cons.prems by (auto simp: parts res_simps parse_part_iff)
  show ?case
    unfolding * using Cons.prems parts
    by (auto simp: Cons.IH map_eq_Cons_conv; fastforce)
qed

lemma field_names_plain: "list_all (\<lambda>key. 61 \<notin> set (str key)) (FIELDS kind)"
  by (cases kind) (simp_all add: str_def)

lemma rstrip_append: "xs \<noteq> [] \<Longrightarrow> \<not> p (last xs) \<Longrightarrow> rstrip p (xs @ ys) = xs @ rstrip p ys"
  by (cases xs rule: rev_cases; cases "dropWhile p (rev ys) = []")
    (auto simp: rstrip_def dropWhile_append dropWhile_eq_Nil_conv)

lemma rstrip_prefix: "\<exists>e. xs = rstrip p xs @ e"
  using takeWhile_dropWhile_id [of p "rev xs"]
  by (metis rstrip_def rev_append rev_rev_ident)

lemma split_on_append:
  "sep \<notin> set a \<Longrightarrow> split_on sep (a @ t) = (a @ hd (split_on sep t)) # tl (split_on sep t)"
proof (induction a)
  case Nil
  show ?case by (simp add: hd_Cons_tl)
qed (auto split: list.splits)

lemma split_on_join: "hd (split_on sep cs) @ concat (map (\<lambda>p. sep # p) (tl (split_on sep cs))) = cs"
proof (induction cs)
  case (Cons c cs)
  then show ?case
    by (cases "split_on sep cs") auto
qed simp

lemma split_on_no_sep: "w \<in> set (split_on sep cs) \<Longrightarrow> sep \<notin> set w"
proof (induction cs arbitrary: w)
  case (Cons c cs)
  obtain v vs where v: "split_on sep cs = v # vs"
    by (cases "split_on sep cs") simp_all
  with Cons.IH have "sep \<notin> set v" "u \<in> set vs \<Longrightarrow> sep \<notin> set u" for u by auto
  with Cons.prems v show ?case by (auto split: if_splits)
qed simp

lemma join_split_on:
  "sep \<notin> set w \<Longrightarrow> list_all (\<lambda>p. sep \<notin> set p) ws \<Longrightarrow> split_on sep (w @ concat (map (\<lambda>p. sep # p) ws)) = w # ws"
proof (induction ws arbitrary: w)
  case Nil
  then show ?case using split_on_append [of sep w "[]"] by simp
next
  case (Cons v ws)
  then show ?case by (simp add: split_on_append)
qed

lemma startswith_contains: "startswith xs pre \<Longrightarrow> contains pre xs"
  by (cases xs) (auto simp: startswith_def)

lemma find_kind: "find (\<lambda>k. str (kind_name k) = name) kinds = Some kind \<longleftrightarrow> name = str (kind_name kind)"
  by (cases kind) (auto simp: kinds_def str_def)

lemma decimal_plain: "c \<in> set (decimal n) \<Longrightarrow> is_digit c"
proof (induction n rule: decimal.induct)
  case (1 n)
  then show ?case
    by (cases "n < 10") (auto simp: decimal.simps [of n] is_digit_def less_Suc_eq_le [symmetric])
qed

lemma render_field_plain:
  "field_typed key f \<Longrightarrow> (\<forall>t. f = Text t \<longrightarrow> plain_text t) \<Longrightarrow> plain_text (render_field key f)"
  by (auto simp: plain_text_def render_field_def is_digit_def is_lower_hex_def list_all_iff
      dest!: decimal_plain hex_digits_lower split: field.splits simp flip: length_greater_0_conv)

lemma plain_textsI: "(\<And>key t. (key, Text t) \<in> set row \<Longrightarrow> plain_text t) \<Longrightarrow> plain_texts row"
  by (auto simp: plain_texts_def list_all_iff split: field.splits)

lemma row_plain:
  assumes "row_typed kind row" "plain_texts row" "(key, f) \<in> set row"
  shows "plain_text (render_field key f)"
proof (rule render_field_plain)
  show "field_typed key f"
    using assms(1,3) by (auto simp: row_typed_def list_all_iff)
  show "\<forall>t. f = Text t \<longrightarrow> plain_text t"
    using assms(2,3) by (auto simp: plain_texts_def list_all_iff)
qed

lemma names_plain: "32 \<notin> set (str (kind_name kind))" "list_all (\<lambda>key. 32 \<notin> set (str key)) (FIELDS kind)"
  by (cases kind; simp add: str_def)+

lemma marker_text: "ascii_decode MARKER = Some (str ''ESP_BASE_CAPACITY_'')"
  "32 \<notin> set (str ''ESP_BASE_CAPACITY_'')" "MARKER \<noteq> []" "\<not> eol (last MARKER)" "length MARKER = 18"
  by (simp_all add: MARKER_def ascii_def str_def ascii_decode_def eol_def)

lemma render_split:
  assumes "row_typed kind row" "plain_texts row"
  shows "split_on 32 (render kind row) = (str ''ESP_BASE_CAPACITY_'' @ str (kind_name kind)) # map render_part row"
proof -
  have "list_all (\<lambda>p. 32 \<notin> set p) (map render_part row)"
    unfolding list_all_iff
  proof (safe, goal_cases)
    case (1 p)
    then obtain key f where kf: "(key, f) \<in> set row" "32 \<in> set (render_part (key, f))" by auto
    then have "key \<in> set (map fst row)"
      by force
    then have "key \<in> set (FIELDS kind)"
      using assms(1) by (simp only: row_typed_def)
    then have "32 \<notin> set (str key)"
      using names_plain(2) [of kind] by (simp add: list_all_iff)
    moreover have "plain_text (render_field key f)"
      using kf(1) assms row_plain by blast
    ultimately show ?case
      using kf(2) by (simp add: render_part_def plain_text_def)
  qed
  then show ?thesis
    using join_split_on [of 32 "str ''ESP_BASE_CAPACITY_'' @ str (kind_name kind)" "map render_part row"]
    by (simp add: render_def marker_text names_plain comp_def)
qed

lemma parse_line_decoded:
  assumes raw: "startswith raw MARKER" "raw \<noteq> []" "last raw = 10" "length raw \<le> 4096"
    and d: "ascii_decode (rstrip eol raw) = Some cs"
  shows "parse_line raw = Inr (Some (kind, row)) \<longleftrightarrow> cs = render kind row \<and> row_typed kind row \<and> plain_texts row"
proof -
  let ?m = "str ''ESP_BASE_CAPACITY_''"
  obtain rest where "raw = MARKER @ rest"
    using raw(1) by (metis append_take_drop_id startswith_def)
  then have "rstrip eol raw = MARKER @ rstrip eol rest"
    by (simp add: rstrip_append marker_text)
  with d obtain t where cs: "cs = ?m @ t"
    by (auto simp: marker_text split: option.splits)
  let ?parts = "split_on 32 cs"
  have parts: "?parts = (?m @ hd (split_on 32 t)) # tl (split_on 32 t)"
    by (simp add: cs split_on_append marker_text)
  have name: "removeprefix (?m @ x) ?m = x" for x
    by (simp add: removeprefix_def startswith_def)
  have "parse_line raw = Inr (Some (kind, row)) \<longleftrightarrow>
      hd (split_on 32 t) = str (kind_name kind) \<and> length ?parts = length (FIELDS kind) + 1 \<and>
      for_each parse_part [] (zip (FIELDS kind) (tl ?parts)) = Inr row"
  proof (cases "find (\<lambda>k. str (kind_name k) = hd (split_on 32 t)) kinds")
    case None
    moreover from this have "hd (split_on 32 t) \<noteq> str (kind_name kind)"
      using find_kind [of "hd (split_on 32 t)" kind] by simp
    ultimately show ?thesis
      using raw startswith_contains [OF raw(1)] by (simp add: parse_line_def d Let_def parts name)
  next
    case (Some k)
    then have "hd (split_on 32 t) = str (kind_name k)"
      by (simp add: find_kind)
    moreover have "str (kind_name k) = str (kind_name kind) \<longleftrightarrow> k = kind"
      using find_kind [of "str (kind_name k)" kind] find_kind [of "str (kind_name k)" k] by auto
    ultimately show ?thesis
      using raw startswith_contains [OF raw(1)] Some
      by (auto simp add: parse_line_def d Let_def parts name res_simps simp del: for_each.simps zip_Cons_Cons)
  qed
  also have "\<dots> \<longleftrightarrow> cs = render kind row \<and> row_typed kind row \<and> plain_texts row" (is "?L \<longleftrightarrow> ?R")
  proof
    assume ?L
    then have hd: "hd (split_on 32 t) = str (kind_name kind)" and tl: "tl ?parts = map render_part row"
      and ty: "row_typed kind row" and ne: "list_all (\<lambda>(key, f). render_field key f \<noteq> []) row"
      using field_names_plain [of kind] by (auto simp: parse_parts_iff row_typed_def list_all_iff)
    have cs_eq: "cs = render kind row"
      using split_on_join [of 32 cs] hd tl parts by (simp add: render_def comp_def)
    have "plain_text u" if u: "(key, Text u) \<in> set row" for key u
    proof -
      have "render_part (key, Text u) \<in> set (tl ?parts)"
        unfolding tl using u by simp
      then have "render_part (key, Text u) \<in> set ?parts"
        by (rule list.set_sel(2) [rotated]) simp
      from split_on_no_sep [OF this] have "32 \<notin> set u"
        by (simp add: render_part_def render_field_def)
      moreover have "u \<noteq> []"
        using ne u by (auto simp: list_all_iff render_field_def)
      moreover have "set u \<subseteq> set cs"
        using u unfolding cs_eq render_def by (force simp: render_part_def render_field_def)
      then have "list_all (\<lambda>c. c < 128) u"
        using d by (fastforce simp: ascii_decode_def list_all_iff split: if_splits)
      ultimately show ?thesis by (simp add: plain_text_def)
    qed
    then have "plain_texts row"
      by (rule plain_textsI)
    with cs_eq ty show ?R by simp
  next
    assume r: ?R
    then have p: "?parts = (?m @ str (kind_name kind)) # map render_part row"
      using render_split by simp
    have "list_all (\<lambda>(key, f). field_typed key f \<and> render_field key f \<noteq> []) row"
      using r row_plain [of kind row] by (auto simp: row_typed_def plain_text_def list_all_iff)
    moreover have len: "length row = length (FIELDS kind)" and names: "map fst row = FIELDS kind"
      using r by (metis length_map row_typed_def) (use r in \<open>simp add: row_typed_def\<close>)
    ultimately have "for_each parse_part [] (zip (FIELDS kind) (map render_part row)) = Inr row"
      using field_names_plain [of kind] by (simp add: parse_parts_iff)
    moreover have "hd (split_on 32 t) = str (kind_name kind)"
      using p parts by simp
    ultimately show ?L
      using len by (simp add: p)
  qed
  finally show ?thesis .
qed

lemma parse_line_canonical_iff:
  "parse_line raw = Inr (Some (kind, row)) \<longleftrightarrow>
     row_typed kind row \<and> plain_texts row \<and> raw \<noteq> [] \<and> last raw = 10 \<and> length raw \<le> 4096 \<and>
     ascii_decode (rstrip eol raw) = Some (render kind row)"
proof (cases "startswith raw MARKER \<and> raw \<noteq> [] \<and> last raw = 10 \<and> length raw \<le> 4096")
  case True
  then show ?thesis
  proof (cases "ascii_decode (rstrip eol raw)")
    case None
    then show ?thesis
      using True startswith_contains [of raw MARKER] by (auto simp: parse_line_def)
  next
    case (Some cs)
    then show ?thesis
      using True parse_line_decoded [of raw cs kind row] by auto
  qed
next
  case False
  have "startswith raw MARKER" if "ascii_decode (rstrip eol raw) = Some (render kind row)"
  proof -
    have "map unat (rstrip eol raw) = str ''ESP_BASE_CAPACITY_'' @ str (kind_name kind) @ concat (map (\<lambda>p. 32 # render_part p) row)"
      using that by (simp add: ascii_decode_def render_def split: if_splits)
    then have "map unat (take 18 (rstrip eol raw)) = map unat MARKER"
      using marker_text(1) by (simp add: take_map [symmetric] ascii_decode_def split: if_splits)
    then have "take 18 (rstrip eol raw) = MARKER"
      by (rule map_injective [OF _ inj_onI]) (simp add: word_unat_eq_iff)
    moreover obtain e where "raw = rstrip eol raw @ e"
      using rstrip_prefix by blast
    ultimately show ?thesis
      by (metis startswith_def append_assoc append_take_drop_id append_eq_conv_conj)
  qed
  with False show ?thesis
    by (auto simp: parse_line_def res_simps split: if_splits)
qed

text \<open>
  C24: a capacity line is accepted exactly in its one spelling.  \<^verbatim>\<open>_parse\<close> returns a kind and a row
  if and only if the line is at most 4096 bytes, ends in a line feed and, stripped of its line end,
  is the canonical rendering of a row with the fields of that kind in order, every number typed and
  within its width and every text non-empty ASCII without blanks.
\<close>

theorem parse_line_canonical:
  "parse_line raw = Inr (Some (kind, row)) \<longleftrightarrow>
     row_typed kind row \<and> plain_texts row \<and> raw \<noteq> [] \<and> last raw = 10 \<and> length raw \<le> 4096 \<and>
     ascii_decode (rstrip eol raw) = Some (render kind row)"
  by (rule parse_line_canonical_iff)

lemma distinct_FIELDS: "distinct (FIELDS kind)"
  by (cases kind) simp_all

lemma row_lookup:
  assumes "row_typed kind row" "key \<in> set (FIELDS kind)"
  shows "\<exists>f. map_of row key = Some f \<and> field_typed key f"
proof -
  have "key \<in> fst ` set row"
    using assms by (metis list.set_map row_typed_def)
  then obtain f where f: "(key, f) \<in> set row"
    by force
  moreover have "distinct (map fst row)"
    using assms(1) distinct_FIELDS by (simp add: row_typed_def)
  ultimately show ?thesis
    using assms(1) by (auto simp: row_typed_def list_all_iff)
qed

text \<open>
  C25: the subscripts of a parsed row never fail.  Every field of the row's kind is present; a text
  field is a text, every other field is a non-negative integer within the width the target uses for
  it, and a flag is 0 or 1.
\<close>

theorem parsed_row_typed:
  assumes "parse_line raw = Inr (Some (kind, row))" and "key \<in> set (FIELDS kind)"
  shows "(if key \<in> set TEXT_FIELDS then map_of row key = Some (Text (text_of row key))
          else map_of row key = Some (Num (num row key)) \<and> 0 \<le> num row key \<and>
               num row key \<le> (if key \<in> set UINT64_FIELDS then UINT64_MAX else UINT32_MAX) \<and>
               (key \<in> set BOOL_FIELDS \<longrightarrow> num row key \<in> {0, 1}))"
proof -
  have "row_typed kind row"
    using assms(1) by (simp add: parse_line_canonical_iff)
  from row_lookup [OF this assms(2)] obtain f where "map_of row key = Some f" "field_typed key f"
    by blast
  moreover have "key \<in> set HEX_FIELDS \<Longrightarrow> key \<notin> set UINT64_FIELDS" "key \<in> set HEX_FIELDS \<Longrightarrow> key \<notin> set BOOL_FIELDS"
    by (auto simp: HEX_FIELDS_def UINT64_FIELDS_def BOOL_FIELDS_def)
  ultimately show ?thesis
    by (auto simp: num_def text_of_def field_typed_def split: field.splits if_splits)
qed

text \<open>The line that spells a row, and the rows it can spell.\<close>

definition line_of :: "kind \<Rightarrow> row \<Rightarrow> bytes" where
  "line_of kind row = map word_of_nat (render kind row) @ [10]"

definition ends_plain :: "row \<Rightarrow> bool" where
  "ends_plain row = (row \<noteq> [] \<and> (case last row of (key, f) \<Rightarrow> last (render_field key f) \<notin> {10, 13}))"

lemma ascii_line: "list_all (\<lambda>c. c < 128) s \<Longrightarrow> ascii_decode (map word_of_nat s) = Some s"
  using ascii_text.dec_enc [of s] by (simp add: ascii_encode_def)

lemma render_ascii:
  assumes "row_typed kind row" "plain_texts row"
  shows "list_all (\<lambda>c. c < 128) (render kind row)"
proof -
  have "list_all (\<lambda>c. c < 128) (str ''ESP_BASE_CAPACITY_'')" "list_all (\<lambda>c. c < 128) (str (kind_name kind))"
    by (simp_all add: str_def) (cases kind; simp)
  moreover have keys: "list_all (\<lambda>key. list_all (\<lambda>c. c < 128) (str key)) (FIELDS kind)"
    by (cases kind) (simp_all add: str_def)
  have "list_all (\<lambda>c. c < 128) (render_part (key, f))" if "(key, f) \<in> set row" for key f
  proof -
    have "key \<in> set (map fst row)" using that by force
    then have "key \<in> set (FIELDS kind)"
      using assms(1) by (simp only: row_typed_def)
    then show ?thesis
      using keys row_plain [OF assms that] by (auto simp: render_part_def plain_text_def list_all_iff)
  qed
  then have "list_all (\<lambda>c. c < 128) (concat (map (\<lambda>p. 32 # render_part p) row))"
    by (auto simp: list_all_iff)
  ultimately show ?thesis
    by (simp add: render_def)
qed

lemma parse_line_of:
  assumes "row_typed kind row" "plain_texts row" "ends_plain row" "length (render kind row) < 4096"
  shows "parse_line (line_of kind row) = Inr (Some (kind, row))"
proof -
  obtain r key f where row: "row = r @ [(key, f)]"
    using assms(3) by (cases row rule: rev_cases) (auto simp: ends_plain_def)
  have ne: "render_field key f \<noteq> []"
    using row_plain [OF assms(1,2), of key f] by (simp add: row plain_text_def)
  have "last (render kind row) = last (render_field key f)" "render kind row \<noteq> []"
    using ne by (simp_all add: render_def row render_part_def)
  moreover have "last (render_field key f) < 128"
    using row_plain [OF assms(1,2), of key f] ne by (simp add: row plain_text_def list_all_iff)
  moreover have "eol (word_of_nat c) \<Longrightarrow> c < 128 \<Longrightarrow> c = 10 \<or> c = 13" for c
    using unat_byte_of_nat [of c] by (auto simp: eol_def)
  ultimately have "\<not> eol (last (map word_of_nat (render kind row)))"
    using assms(3) by (auto simp: ends_plain_def row last_map)
  then have "rstrip eol (line_of kind row) = map word_of_nat (render kind row)"
    using \<open>render kind row \<noteq> []\<close> unfolding line_of_def by (subst rstrip_append) (simp_all add: rstrip_def eol_def)
  then show ?thesis
    using assms ascii_line [OF render_ascii [OF assms(1,2)]]
    by (simp add: parse_line_canonical_iff line_of_def)
qed

text \<open>A bound on the length of a line that does not depend on the numbers in it.\<close>

lemma decimal_length: "0 < k \<Longrightarrow> n < 10 ^ k \<Longrightarrow> length (decimal n) \<le> k"
proof (induction k arbitrary: n)
  case (Suc k)
  show ?case
  proof (cases "n < 10")
    case False
    with Suc.prems have "n div 10 < 10 ^ k" "0 < k"
      by (auto simp: less_mult_imp_div_less mult.commute) (cases k; simp)
    with Suc.IH False show ?thesis
      by (simp add: decimal.simps [of n])
  qed (simp add: decimal.simps [of n])
qed simp

definition field_width :: "string \<times> field \<Rightarrow> nat" where
  "field_width = (\<lambda>(key, f). length key + 2 + (case f of Text t \<Rightarrow> length t | Num _ \<Rightarrow> 20))"

lemma render_length:
  assumes "row_typed kind row"
  shows "length (render kind row) \<le> 24 + sum_list (map field_width row)"
proof -
  have "length (render_field key f) \<le> (case f of Text t \<Rightarrow> length t | Num _ \<Rightarrow> 20)" if "field_typed key f" for key f
  proof (cases f)
    case (Num n)
    then have "n < 10 ^ 20"
      using that by (auto simp: field_typed_def UINT32_MAX_def UINT64_MAX_def split: if_splits)
    then have "nat n < 10 ^ 20" by simp
    with Num show ?thesis
      using decimal_length [of 20 "nat n"] by (simp add: render_field_def)
  qed (simp add: render_field_def)
  then have "length (render_part (key, f)) < field_width (key, f)" if "field_typed key f" for key f
    using that by (fastforce simp: render_part_def field_width_def)
  then have "list_all (\<lambda>p. length (render_part p) < field_width p) row"
    using assms by (auto simp: row_typed_def list_all_iff)
  then have "length (concat (map (\<lambda>p. 32 # render_part p) row)) \<le> sum_list (map field_width row)"
    by (induction row) simp_all
  moreover have "length (kind_name kind) \<le> 6"
    by (cases kind) simp_all
  ultimately show ?thesis
    by (simp add: render_def)
qed

lemma last_decimal: "last (decimal n) \<notin> {10, 13}"
  using decimal_plain [of "last (decimal n)" n] by (auto simp: is_digit_def)

lemmas row_typed_simps = row_typed_def field_typed_def TEXT_FIELDS_def HEX_FIELDS_def UINT64_FIELDS_def BOOL_FIELDS_def
  UINT32_MAX_def UINT64_MAX_def

lemma file_lines_line: "10 \<notin> set body \<Longrightarrow> file_lines (body @ 10 # rest) = (body @ [10]) # file_lines rest"
  by (induction body) auto

lemma file_lines_concat:
  "list_all (\<lambda>l. \<exists>body. l = body @ [10] \<and> 10 \<notin> set body) lines \<Longrightarrow> file_lines (concat lines) = lines"
  by (induction lines) (auto simp: file_lines_line)

theorem parsed_row_typed_witness:
  "parse_line (line_of TASK [(''boot_id'', Text (str ''b'')), (''frame'', Num 7), (''instance'', Num 12),
         (''name_hex'', Text (str ''6d61'')), (''minimum_stack_bytes'', Num 1536), (''state'', Num 2)])
     = Inr (Some (TASK, [(''boot_id'', Text (str ''b'')), (''frame'', Num 7), (''instance'', Num 12),
         (''name_hex'', Text (str ''6d61'')), (''minimum_stack_bytes'', Num 1536), (''state'', Num 2)])) \<and>
   num [(''boot_id'', Text (str ''b'')), (''frame'', Num 7), (''instance'', Num 12),
         (''name_hex'', Text (str ''6d61'')), (''minimum_stack_bytes'', Num 1536), (''state'', Num 2)] ''minimum_stack_bytes''
     \<le> UINT32_MAX"
proof -
  let ?row = "[(''boot_id'', Text (str ''b'')), (''frame'', Num 7), (''instance'', Num 12),
         (''name_hex'', Text (str ''6d61'')), (''minimum_stack_bytes'', Num 1536), (''state'', Num 2)]"
  have p: "parse_line (line_of TASK ?row) = Inr (Some (TASK, ?row))"
  proof (rule parse_line_of)
    show "row_typed TASK ?row"
      by (simp add: row_typed_simps)
    from render_length [OF this] show "length (render TASK ?row) < 4096"
      by (simp add: field_width_def)
    show "plain_texts ?row" "ends_plain ?row"
      using last_decimal [of 2] by (simp_all add: plain_texts_def plain_text_def str_def ends_plain_def render_field_def HEX_FIELDS_def)
  qed
  from p parsed_row_typed [OF p, of "''minimum_stack_bytes''"] show ?thesis
    by (simp add: TEXT_FIELDS_def UINT64_FIELDS_def)
qed

end
