(* ===== verification/Capacity_Frame.thy ===== *)
theory Capacity_Frame
  imports Capacity_Lines "HOL-Library.AList" "HOL-Library.Multiset"
begin

text \<open>
  One capacity frame and its relation to the frames before it (\<^verbatim>\<open>analyze_capacity.py\<close>): the checks
  of a complete frame (\<^verbatim>\<open>_finish\<close>, with the MQTT tuple), of the transition between consecutive
  frames (\<^verbatim>\<open>_check_readout_history\<close>, \<^verbatim>\<open>_check_mqtt_history\<close>), of the task sets of complete
  snapshots (\<^verbatim>\<open>_check_complete_task_history\<close>), and the summary kept of a frame.

  The laws proved here: the regions of a finished frame are disjoint, its domain figures are the sum
  and maximum over the matching regions, and neither figure can rise from one frame to the next.
\<close>

record frame =
  f_begin :: row
  f_mqtt :: "row option"
  f_regions :: "row list"
  f_tasks :: "row list"
  f_domains :: "row list"
  f_end :: row

text \<open>\<open>f_end\<close> is the empty dictionary until the END line has been read; only complete frames are checked.\<close>

definition HEAP_GATE_BYTES :: int where "HEAP_GATE_BYTES = 16384"
definition LARGEST_GATE_BYTES :: int where "LARGEST_GATE_BYTES = 24576"
definition STACK_GATE_BYTES :: int where "STACK_GATE_BYTES = 1024"

definition INTERNAL_8BIT :: int where
  "INTERNAL_8BIT = push_bit 11 1 OR push_bit 2 1"

definition DOMAIN_CAPS :: "int list" where
  "DOMAIN_CAPS = [INTERNAL_8BIT, push_bit 11 1 OR push_bit 1 1, push_bit 11 1 OR push_bit 3 1,
     push_bit 12 1, push_bit 11 1 OR push_bit 13 1]"

abbreviation refuse :: "bool \<Rightarrow> string \<Rightarrow> 'a res \<Rightarrow> 'a res" where
  "refuse c t k \<equiv> require (\<not> c) (Raise ValueError t) k"

definition dict :: "('k \<times> 'v) list \<Rightarrow> ('k \<times> 'v) list" where
  "dict pairs = foldl (\<lambda>d (k, v). AList.update k v d) [] pairs"

subsection \<open>The MQTT tuple\<close>

definition peak_keys :: "string list" where
  "peak_keys = [''rx_peak_uptime_ms'', ''rx_peak_observed_until_uptime_ms'', ''complete_owner_count'', ''complete_payload_bytes'',
     ''partial_declared_bytes'', ''partial_received_bytes'', ''owned_request_bytes'', ''outbox_wire_bytes_at_rx_peak'']"

definition mqtt_peak_ok :: "row \<Rightarrow> row \<Rightarrow> bool" where
  "mqtt_peak_ok row begin_row =
     (let complete = num row ''complete_owner_count''; payload = num row ''complete_payload_bytes'';
          declared = num row ''partial_declared_bytes''; received = num row ''partial_received_bytes'' in
      complete \<le> 3 \<and> payload \<le> complete * 4096 \<and> 1 \<le> declared \<and> declared \<le> 4096 \<and> 0 \<le> received \<and> received < declared \<and>
      num row ''rx_peak_uptime_ms'' \<le> num row ''rx_peak_observed_until_uptime_ms'' \<and>
      num row ''rx_peak_observed_until_uptime_ms'' \<le> num begin_row ''uptime_ms'' \<and>
      num row ''owned_request_bytes'' = payload + declared + (complete + 1) * num row ''owned_message_metadata_bytes'')"

definition check_mqtt :: "frame \<Rightarrow> unit res" where
  "check_mqtt frame = (let begin_row = f_begin frame in
     if num begin_row ''schema'' = 1 then
       refuse (f_mqtt frame \<noteq> None) ''schema 1 has no MQTT line'' (Inr ())
     else (case f_mqtt frame of
         None \<Rightarrow> Inl (Raise ValueError ''MQTT line or copy area missing'')
       | Some row \<Rightarrow>
         refuse (num row ''readout_copy_bytes'' \<noteq> 80) ''MQTT line or copy area missing''
         (if num row ''available'' = 0 then
            refuse (list_ex (\<lambda>key. key \<notin> {''boot_id'', ''frame'', ''readout_copy_bytes''} \<and> num row key \<noteq> 0) (FIELDS MQTT))
              ''statistics without an instance'' (Inr ())
          else
            refuse (num row ''runtime_instance'' = 0 \<or> num row ''owned_message_metadata_bytes'' \<noteq> 272 \<or>
                    num row ''observation_storage_bytes'' < num row ''readout_copy_bytes'' + 4 \<or>
                    16 < num row ''notice_count_high_water'') ''MQTT instance, metadata or storage''
            (bindE (if num row ''rx_peak_valid'' = 0 then
                      refuse (list_ex (\<lambda>key. num row key \<noteq> 0) peak_keys) ''tuple without a peak'' (Inr ())
                    else refuse (\<not> mqtt_peak_ok row begin_row) ''partial tuple'' (Inr ()))
             (\<lambda>_. if num row ''outbox_full_count'' = 0 then
                    refuse (num row ''last_outbox_full_payload_bytes'' \<noteq> 0 \<or> num row ''last_outbox_full_uptime_ms'' \<noteq> 0)
                      ''failed request without OUTBOX_FULL'' (Inr ())
                  else
                    refuse (1023 < num row ''last_outbox_full_payload_bytes'' \<or>
                            num begin_row ''uptime_ms'' < num row ''last_outbox_full_uptime_ms'')
                      ''FULL request out of range'' (Inr ()))))))"

definition mqtt_fixed :: "string list" where
  "mqtt_fixed = [''owned_message_metadata_bytes'', ''observation_storage_bytes'', ''readout_copy_bytes'']"

definition mqtt_counters :: "string list" where
  "mqtt_counters = [''outbox_full_count'', ''notice_count_high_water'', ''notice_full_count'']"

definition pair_less :: "int \<times> int \<Rightarrow> int \<times> int \<Rightarrow> bool" where
  "pair_less a b = (fst a < fst b \<or> fst a = fst b \<and> snd a < snd b)"

definition peak_rank :: "row \<Rightarrow> int \<times> int" where
  "peak_rank row = (num row ''owned_request_bytes'', num row ''outbox_wire_bytes_at_rx_peak'')"

definition check_same_instance :: "row \<Rightarrow> row \<Rightarrow> row res" where
  "check_same_instance old row =
     refuse (list_ex (\<lambda>key. num row key \<noteq> num old key) mqtt_fixed \<or>
             list_ex (\<lambda>key. num row key < num old key) mqtt_counters \<or>
             num old ''counters_valid'' < num row ''counters_valid'') ''costs, counters or validity went back''
     (bindE (if num old ''rx_peak_valid'' \<noteq> 0 then
               refuse (num row ''rx_peak_valid'' = 0 \<or> pair_less (peak_rank row) (peak_rank old)) ''peak went back''
               (refuse (peak_rank row = peak_rank old \<and> list_ex (\<lambda>key. num row key \<noteq> num old key) peak_keys \<or>
                        num row ''rx_peak_uptime_ms'' < num old ''rx_peak_uptime_ms'') ''tuple of equal rank changed''
                (Inr ()))
             else Inr ())
      (\<lambda>_. refuse (num row ''outbox_full_count'' = num old ''outbox_full_count'' \<and>
                   list_ex (\<lambda>key. num row key \<noteq> num old key) [''last_outbox_full_payload_bytes'', ''last_outbox_full_uptime_ms''])
             ''failed request changed without a new FULL''
           (refuse (num row ''last_outbox_full_uptime_ms'' < num old ''last_outbox_full_uptime_ms'') ''FULL time went back''
            (Inr row))))"

definition check_mqtt_history :: "row option \<Rightarrow> frame \<Rightarrow> row option res" where
  "check_mqtt_history previous current = (case f_mqtt current of
      None \<Rightarrow> Inr previous
    | Some row \<Rightarrow>
        if num row ''available'' = 0 then Inr previous
        else (case previous of
            None \<Rightarrow> Inr (Some row)
          | Some old \<Rightarrow>
              refuse (num row ''runtime_instance'' < num old ''runtime_instance'') ''destroyed instance came back''
              (bindE (if num row ''runtime_instance'' = num old ''runtime_instance'' then check_same_instance old row
                      else Inr row)
               (\<lambda>row. Inr (Some row)))))"

subsection \<open>A complete frame\<close>

definition caps_of :: "row \<Rightarrow> int" where
  "caps_of row = num row ''caps0'' OR num row ''caps1'' OR num row ''caps2''"

definition matching_regions :: "row list \<Rightarrow> int \<Rightarrow> row list" where
  "matching_regions regions caps =
     filter (\<lambda>row. num row ''available_at_heap_init'' \<noteq> 0 \<and> caps_of row AND caps = caps) regions"

definition py_sum :: "int list \<Rightarrow> int" where
  "py_sum = foldl (+) 0"

definition max_default :: "int \<Rightarrow> int list \<Rightarrow> int" where
  "max_default d xs = (case xs of [] \<Rightarrow> d | y # ys \<Rightarrow> foldl max y ys)"

definition min_default :: "int \<Rightarrow> int list \<Rightarrow> int" where
  "min_default d xs = (case xs of [] \<Rightarrow> d | y # ys \<Rightarrow> foldl min y ys)"

definition free_bound :: "row list \<Rightarrow> int \<Rightarrow> int" where
  "free_bound regions caps = py_sum (map (\<lambda>row. num row ''min_free_bytes'') (matching_regions regions caps))"

definition largest_bound :: "row list \<Rightarrow> int \<Rightarrow> int" where
  "largest_bound regions caps = max_default 0 (map (\<lambda>row. num row ''min_largest_request_bytes'') (matching_regions regions caps))"

definition even_hex_text :: "pystr \<Rightarrow> bool" where
  "even_hex_text s = (s \<noteq> [] \<and> even (length s) \<and> list_all is_lower_hex s)"

definition stack_values :: "frame \<Rightarrow> int list" where
  "stack_values frame = map (\<lambda>row. num row ''minimum_stack_bytes'') (f_tasks frame) @
     (if num (f_end frame) ''finalized_instances'' \<noteq> 0 then [num (f_end frame) ''completed_stack_min_bytes''] else [])"

definition check_tasks :: "frame \<Rightarrow> unit res" where
  "check_tasks frame =
     (let tasks = f_tasks frame; end_row = f_end frame; limit = num (f_begin frame) ''task_limit'';
          created = num end_row ''created_instances''; finalized = num end_row ''finalized_instances'';
          expected = created - finalized; complete = (tasks \<noteq> [] \<and> expected = int (length tasks));
          worst = num end_row ''worst_completed_instance'';
          instances = map (\<lambda>row. num row ''instance'') tasks in
      refuse (created = UINT32_MAX \<or> finalized = UINT32_MAX \<or> created < finalized) ''task counters''
      (refuse (num end_row ''task_snapshot_complete'' \<noteq> (if complete then 1 else 0)) ''completeness flag''
      (refuse (\<not> complete \<and> (expected \<le> int (length tasks) \<or> tasks = [] \<and> expected \<le> limit)) ''incomplete snapshot''
      (refuse (finalized = 0 \<and> (num end_row ''completed_stack_min_bytes'' \<noteq> 0 \<or> worst \<noteq> 0) \<or> 0 < finalized \<and> worst = 0)
         ''finished instances''
      (refuse (0 \<in> set instances \<or> \<not> distinct instances \<or> 0 < finalized \<and> worst \<in> set instances) ''task instances''
      (refuse (list_ex (\<lambda>row. \<not> even_hex_text (text_of row ''name_hex'') \<or> 4 < num row ''state'') tasks) ''task name or state''
      (refuse (tasks \<noteq> [] \<and> \<not> list_all (\<lambda>row. length (text_of row ''name_hex'') = length (text_of (hd tasks) ''name_hex'')) tasks)
         ''task name width''
      (refuse (min_default 0 (stack_values frame) \<noteq> num end_row ''minimum_stack_bytes'' \<or>
               num end_row ''observation_cost_added_back'' \<noteq> 0) ''minimum stack''
      (refuse (num end_row ''workspace_bytes'' = 0) ''workspace'' (Inr ()))))))))))"

definition check_region :: "row \<Rightarrow> unit res" where
  "check_region row =
     refuse (num row ''end'' \<le> num row ''start'' \<or> (num row ''start'' OR num row ''end'') AND 3 \<noteq> 0) ''region bounds'' (Inr ())"

definition check_region_facts :: "row \<Rightarrow> unit res" where
  "check_region_facts row =
     (let alias_start = num row ''alias_start''; alias_end = num row ''alias_end''; width = num row ''end'' - num row ''start'' in
      refuse (caps_of row = 0) ''region without capabilities''
      (refuse (\<not> (num row ''min_largest_request_bytes'' \<le> num row ''largest_request_bytes'' \<and>
                  num row ''largest_request_bytes'' \<le> num row ''free_bytes'' \<and>
                  num row ''min_largest_request_bytes'' \<le> num row ''min_free_bytes'' \<and>
                  num row ''min_free_bytes'' \<le> num row ''free_bytes'')) ''current and minimum values''
      (refuse (\<not> (0 < num row ''allocator_metadata_bytes'' \<and>
                  num row ''allocator_metadata_bytes'' \<le> width - num row ''free_bytes'')) ''region size''
      (if alias_start \<noteq> 0 \<or> alias_end \<noteq> 0 then
         refuse (alias_end \<le> alias_start \<or> (alias_start OR alias_end) AND 3 \<noteq> 0 \<or> alias_end - alias_start \<noteq> width)
           ''alias bounds'' (Inr ())
       else refuse (num row ''alias_inverted'' \<noteq> 0) ''inverted without alias'' (Inr ())))))"

text \<open>The loop over the regions in the order of their start addresses keeps the end of the region before.\<close>

definition region_step :: "int option \<Rightarrow> row \<Rightarrow> int option res" where
  "region_step before row =
     bindE (check_region row) (\<lambda>_.
     refuse (case before of None \<Rightarrow> False | Some e \<Rightarrow> num row ''start'' < e) ''regions overlap''
     (bindE (check_region_facts row) (\<lambda>_. Inr (Some (num row ''end'')))))"

definition check_domain :: "row list \<Rightarrow> unit \<Rightarrow> row \<Rightarrow> unit res" where
  "check_domain regions u domain =
     refuse (num domain ''alignment_bytes'' \<noteq> 4 \<or> text_of domain ''history'' \<noteq> str ''region_minima_conservative_bound'')
       ''domain alignment or history''
     (refuse (UINT32_MAX < free_bound regions (num domain ''caps'') \<or>
              num domain ''minimum_free_lower_bound_bytes'' \<noteq> free_bound regions (num domain ''caps'') \<or>
              num domain ''largest_request_lower_bound_bytes'' \<noteq> largest_bound regions (num domain ''caps''))
        ''domain bounds are not the sum and maximum of the regions'' (Inr ()))"

definition finish :: "frame \<Rightarrow> frame res" where
  "finish frame =
     (let regions = f_regions frame; tasks = f_tasks frame; domains = f_domains frame; end_row = f_end frame;
          limit = num (f_begin frame) ''task_limit'' in
      bindE (check_mqtt frame) (\<lambda>_.
      refuse (regions = [] \<or> num end_row ''regions'' \<noteq> int (length regions) \<or>
              num end_row ''allocated_tasks'' \<noteq> int (length tasks)) ''rows and END counts''
      (refuse (map (\<lambda>row. num row ''caps'') domains \<noteq> DOMAIN_CAPS) ''domains''
      (refuse (limit < int (length tasks) \<or> limit \<noteq> 32) ''task limit''
      (refuse (num end_row ''counters_valid'' \<noteq> 1 \<or> num end_row ''facts_valid'' \<noteq> 1) ''statistics invalid''
      (bindE (check_tasks frame) (\<lambda>_.
       bindE (for_each region_step None (sort_key (\<lambda>row. num row ''start'') regions)) (\<lambda>_.
       bindE (for_each (check_domain regions) () domains) (\<lambda>_. Inr frame)))))))))"

subsection \<open>Consecutive frames\<close>

definition region_fixed :: "string list" where
  "region_fixed = [''start'', ''end'', ''caps0'', ''caps1'', ''caps2'', ''alias_start'', ''alias_end'', ''alias_inverted'',
     ''available_at_heap_init'', ''allocator_metadata_bytes'']"

definition by_start :: "row list \<Rightarrow> (int \<times> row) list" where
  "by_start regions = dict (map (\<lambda>row. (num row ''start'', row)) regions)"

definition check_region_history :: "(int \<times> row) list \<Rightarrow> unit \<Rightarrow> int \<times> row \<Rightarrow> unit res" where
  "check_region_history old_regions u = (\<lambda>(start, row). (case map_of old_regions start of
      None \<Rightarrow> refuse (num row ''available_at_heap_init'' \<noteq> 0) ''late region declared available at start'' (Inr ())
    | Some old \<Rightarrow>
        refuse (list_ex (\<lambda>key. num old key \<noteq> num row key) region_fixed \<or>
                list_ex (\<lambda>key. num old key < num row key) [''min_free_bytes'', ''min_largest_request_bytes''])
          ''region changed or its minimum rose'' (Inr ())))"

definition check_counter_history :: "row \<Rightarrow> row \<Rightarrow> unit res" where
  "check_counter_history old new =
     refuse (num new ''created_instances'' < num old ''created_instances'' \<or>
             num new ''finalized_instances'' < num old ''finalized_instances'' \<or>
             num new ''workspace_bytes'' \<noteq> num old ''workspace_bytes'') ''task counters or workspace''
     (refuse (num old ''finalized_instances'' \<noteq> 0 \<and>
              (num old ''completed_stack_min_bytes'' < num new ''completed_stack_min_bytes'' \<or>
               num new ''completed_stack_min_bytes'' = num old ''completed_stack_min_bytes'' \<and>
               num new ''worst_completed_instance'' \<noteq> num old ''worst_completed_instance'')) ''finished stack minimum''
     (refuse (num new ''finalized_instances'' = num old ''finalized_instances'' \<and>
              list_ex (\<lambda>key. num new key \<noteq> num old key) [''completed_stack_min_bytes'', ''worst_completed_instance''])
        ''finished summary changed'' (Inr ())))"

definition check_readout_history :: "frame \<Rightarrow> frame \<Rightarrow> unit res" where
  "check_readout_history previous current =
     (let before = f_begin previous; after = f_begin current;
          old_regions = by_start (f_regions previous); new_regions = by_start (f_regions current) in
      refuse (num after ''schema'' \<noteq> num before ''schema'') ''schema changed''
      (refuse (num after ''frame'' \<noteq> num before ''frame'' + 1 \<or> num after ''uptime_ms'' \<le> num before ''uptime_ms'' \<or>
               text_of before ''phase'' = str ''before_reset'') ''frame repeated, lost or after a reset''
      (refuse (\<not> list_all (\<lambda>start. start \<in> set (map fst new_regions)) (map fst old_regions)) ''region disappeared''
      (bindE (for_each (check_region_history old_regions) () new_regions) (\<lambda>_.
       check_counter_history (f_end previous) (f_end current))))))"

subsection \<open>Complete task snapshots\<close>

definition instance_ids :: "frame \<Rightarrow> int set" where
  "instance_ids frame = set (map (\<lambda>row. num row ''instance'') (f_tasks frame))"

definition check_task :: "(int \<times> row) list \<Rightarrow> int set \<Rightarrow> unit \<Rightarrow> row \<Rightarrow> unit res" where
  "check_task seen retired u row =
     refuse (num row ''instance'' \<in> retired \<or>
             (case map_of seen (num row ''instance'') of
                None \<Rightarrow> False
              | Some old_task \<Rightarrow> text_of old_task ''name_hex'' \<noteq> text_of row ''name_hex'' \<or>
                  num old_task ''minimum_stack_bytes'' < num row ''minimum_stack_bytes''))
       ''instance came back, or its name or minimum changed'' (Inr ())"

text \<open>The set \<open>retired\<close>, which the source updates in place, is returned.\<close>

definition check_complete_task_history :: "frame \<Rightarrow> frame \<Rightarrow> (int \<times> row) list \<Rightarrow> int set \<Rightarrow> int set res" where
  "check_complete_task_history previous current seen retired =
     (let old = f_end previous; new = f_end current;
          previous_ids = instance_ids previous; current_ids = instance_ids current;
          retired' = retired \<union> (previous_ids - current_ids) in
      refuse (num old ''minimum_stack_bytes'' < num new ''minimum_stack_bytes'') ''minimum stack rose''
      (refuse (num new ''created_instances'' - num old ''created_instances'' < int (card (current_ids - previous_ids)) \<or>
               num new ''finalized_instances'' - num old ''finalized_instances'' < int (card (previous_ids - current_ids)))
         ''more changes than created or finished tasks''
      (bindE (for_each (check_task seen retired') () (f_tasks current)) (\<lambda>_. Inr retired'))))"

subsection \<open>Summary\<close>

record mqtt_observation =
  mo_fields :: row
  mo_maximum_inbound_owner_tuple_observed :: bool

record summary =
  s_frame :: int
  s_phase :: pystr
  s_begin_uptime_ms :: int
  s_proved_until_begin_uptime_ms :: "int option"
  s_task_snapshot_complete :: bool
  s_task_snapshot_issue :: "string option"
  s_regions :: int
  s_allocated_tasks :: int
  s_created_instances :: int
  s_finalized_instances :: int
  s_minimum_free_lower_bound_bytes :: int
  s_largest_request_lower_bound_bytes :: int
  s_minimum_stack_bytes :: "int option"
  s_reported_minimum_stack_bytes :: int
  s_domains :: "(int \<times> int \<times> int \<times> int) list"
  s_mqtt_observation :: "mqtt_observation option"

definition maximum_inbound_owner_tuple :: "row \<Rightarrow> bool" where
  "maximum_inbound_owner_tuple row =
     (num row ''available'' \<noteq> 0 \<and> num row ''counters_valid'' \<noteq> 0 \<and> num row ''rx_peak_valid'' \<noteq> 0 \<and>
      num row ''complete_owner_count'' = 3 \<and> num row ''complete_payload_bytes'' = 12288 \<and>
      num row ''partial_declared_bytes'' = 4096 \<and> 0 < num row ''partial_received_bytes'' \<and>
      num row ''partial_received_bytes'' < 4096)"

definition observe_mqtt :: "row \<Rightarrow> mqtt_observation" where
  "observe_mqtt row = \<lparr>mo_fields = filter (\<lambda>(key, _). key \<notin> {''boot_id'', ''frame''}) row,
     mo_maximum_inbound_owner_tuple_observed = maximum_inbound_owner_tuple row\<rparr>"

definition summarize :: "frame \<Rightarrow> summary res" where
  "summarize frame =
     bindE (of_option (Raise StopIteration ''no domain'')
       (find (\<lambda>row. num row ''caps'' = INTERNAL_8BIT) (f_domains frame))) (\<lambda>domain.
     (let end_row = f_end frame; begin_row = f_begin frame; complete = (num end_row ''task_snapshot_complete'' \<noteq> 0) in
      Inr \<lparr>s_frame = num begin_row ''frame'', s_phase = text_of begin_row ''phase'',
        s_begin_uptime_ms = num begin_row ''uptime_ms'',
        s_proved_until_begin_uptime_ms = (if complete then Some (num begin_row ''uptime_ms'') else None),
        s_task_snapshot_complete = complete,
        s_task_snapshot_issue = (if complete then None else Some (if f_tasks frame = [] then ''task_list_capacity_not_complete''
          else ''created_minus_finalized_exceeds_reported_instances'')),
        s_regions = int (length (f_regions frame)), s_allocated_tasks = int (length (f_tasks frame)),
        s_created_instances = num end_row ''created_instances'',
        s_finalized_instances = num end_row ''finalized_instances'',
        s_minimum_free_lower_bound_bytes = num domain ''minimum_free_lower_bound_bytes'',
        s_largest_request_lower_bound_bytes = num domain ''largest_request_lower_bound_bytes'',
        s_minimum_stack_bytes = (if complete then Some (num end_row ''minimum_stack_bytes'') else None),
        s_reported_minimum_stack_bytes = num end_row ''minimum_stack_bytes'',
        s_domains = map (\<lambda>row. (num row ''caps'', num row ''alignment_bytes'', num row ''minimum_free_lower_bound_bytes'',
          num row ''largest_request_lower_bound_bytes'')) (f_domains frame),
        s_mqtt_observation = map_option observe_mqtt (f_mqtt frame)\<rparr>))"

subsection \<open>Dictionaries, sums and extrema\<close>

lemma update_new_key: "k \<notin> fst ` set d \<Longrightarrow> AList.update k v d = d @ [(k, v)]"
  by (induction d) auto

lemma dict_distinct: "distinct (map fst ps) \<Longrightarrow> dict ps = ps"
proof (induction ps rule: rev_induct)
  case (snoc p ps)
  then show ?case
    by (cases p) (simp add: dict_def update_new_key)
qed (simp add: dict_def)

lemma py_sum_eq: "py_sum xs = sum_list xs"
proof -
  have "foldl (+) a xs = a + sum_list xs" for a :: int
    by (induction xs arbitrary: a) simp_all
  then show ?thesis by (simp add: py_sum_def)
qed

lemma foldl_max_eq: "foldl max y ys = Max (set (y # ys))" for y :: int
proof (induction ys arbitrary: y)
  case (Cons z zs)
  have "Max (insert (max y z) (set zs)) = Max (insert y (insert z (set zs)))"
    by (cases "zs = []") (simp_all add: max.assoc)
  with Cons show ?case by simp
qed simp

lemma foldl_min_eq: "foldl min y ys = Min (set (y # ys))" for y :: int
proof (induction ys arbitrary: y)
  case (Cons z zs)
  have "Min (insert (min y z) (set zs)) = Min (insert y (insert z (set zs)))"
    by (cases "zs = []") (simp_all add: min.assoc)
  with Cons show ?case by simp
qed simp

lemma max_default_eq: "max_default d xs = (if xs = [] then d else Max (set xs))"
  by (cases xs) (simp_all only: max_default_def list.case foldl_max_eq list.simps if_False if_True simp_thms)

lemma min_default_eq: "min_default d xs = (if xs = [] then d else Min (set xs))"
  by (cases xs) (simp_all only: min_default_def list.case foldl_min_eq list.simps if_False if_True simp_thms)

lemma min_default_le: "x \<in> set xs \<Longrightarrow> min_default d xs \<le> x"
  by (cases xs) (auto simp: min_default_def foldl_min_eq)

lemma min_default_in: "xs \<noteq> [] \<Longrightarrow> min_default d xs \<in> set xs"
proof (cases xs)
  case (Cons y ys)
  then show ?thesis
    unfolding min_default_def Cons list.case foldl_min_eq by (intro Min_in) simp_all
qed simp

subsection \<open>Regions of a finished frame\<close>

abbreviation start_of :: "row \<Rightarrow> int" where
  "start_of row \<equiv> num row ''start''"

lemma region_step_iff:
  "region_step before row = Inr e \<longleftrightarrow> e = Some (num row ''end'') \<and> num row ''start'' < num row ''end'' \<and>
     (num row ''start'' OR num row ''end'') AND 3 = 0 \<and> (\<forall>b. before = Some b \<longrightarrow> b \<le> num row ''start'') \<and>
     check_region_facts row = Inr ()"
  by (auto simp: region_step_def check_region_def res_simps split: option.splits)

lemma region_steps_ordered:
  assumes "for_each region_step before rows = Inr e"
  shows "sorted_wrt (\<lambda>a b. num a ''end'' \<le> num b ''start'') rows \<and>
    (\<forall>row \<in> set rows. num row ''start'' < num row ''end'' \<and> (\<forall>b. before = Some b \<longrightarrow> b \<le> num row ''start'') \<and>
       check_region_facts row = Inr ())"
  using assms
proof (induction rows arbitrary: before)
  case (Cons row rows)
  then obtain f where f: "region_step before row = Inr f" and rest: "for_each region_step f rows = Inr e"
    by (auto simp: res_simps)
  from f have row: "f = Some (num row ''end'')" "num row ''start'' < num row ''end''"
    "\<forall>b. before = Some b \<longrightarrow> b \<le> num row ''start''" "check_region_facts row = Inr ()"
    by (simp_all add: region_step_iff)
  from Cons.IH [OF rest] row show ?case
    by fastforce
qed simp

definition disjoint_regions :: "row list \<Rightarrow> bool" where
  "disjoint_regions rows = (\<forall>i < length rows. \<forall>j < length rows. i \<noteq> j \<longrightarrow>
     num (rows ! i) ''end'' \<le> num (rows ! j) ''start'' \<or> num (rows ! j) ''end'' \<le> num (rows ! i) ''start'')"

lemma ordered_distinct:
  assumes "sorted_wrt (\<lambda>a b. num a ''end'' \<le> num b ''start'') rows" "\<forall>row \<in> set rows. num row ''start'' < num row ''end''"
  shows "distinct (map start_of rows)"
  using assms by (induction rows) fastforce+

lemma disjoint_from_sorted:
  assumes "sorted_wrt (\<lambda>a b. num a ''end'' \<le> num b ''start'') (sort_key start_of rows)"
    and "\<forall>row \<in> set rows. num row ''start'' < num row ''end''"
  shows "distinct (map start_of rows) \<and> disjoint_regions rows"
proof -
  let ?o = "sort_key start_of rows"
  have d: "distinct (map start_of rows)"
  proof -
    have "distinct (map start_of ?o)"
      using assms by (intro ordered_distinct) simp_all
    moreover have "mset (map start_of ?o) = mset (map start_of rows)"
      by simp
    ultimately show ?thesis
      using mset_eq_imp_distinct_iff by blast
  qed
  have "num (rows ! i) ''end'' \<le> num (rows ! j) ''start'' \<or> num (rows ! j) ''end'' \<le> num (rows ! i) ''start''"
    if ij: "i < length rows" "j < length rows" "i \<noteq> j" for i j
  proof -
    obtain k l where kl: "k < length ?o" "l < length ?o" "?o ! k = rows ! i" "?o ! l = rows ! j"
      using ij by (metis in_set_conv_nth nth_mem set_sort)
    moreover have "rows ! i \<noteq> rows ! j"
      using d ij by (metis distinct_conv_nth length_map nth_map)
    ultimately consider "k < l" | "l < k" by force
    then show ?thesis
      using sorted_wrt_nth_less [OF assms(1), of k l] sorted_wrt_nth_less [OF assms(1), of l k] kl by cases auto
  qed
  with d show ?thesis by (simp add: disjoint_regions_def)
qed

lemma finish_iff:
  "finish frame = Inr g \<longleftrightarrow> g = frame \<and> check_mqtt frame = Inr () \<and> f_regions frame \<noteq> [] \<and>
     num (f_end frame) ''regions'' = int (length (f_regions frame)) \<and>
     num (f_end frame) ''allocated_tasks'' = int (length (f_tasks frame)) \<and>
     map (\<lambda>row. num row ''caps'') (f_domains frame) = DOMAIN_CAPS \<and>
     int (length (f_tasks frame)) \<le> num (f_begin frame) ''task_limit'' \<and> num (f_begin frame) ''task_limit'' = 32 \<and>
     num (f_end frame) ''counters_valid'' = 1 \<and> num (f_end frame) ''facts_valid'' = 1 \<and>
     check_tasks frame = Inr () \<and>
     (\<exists>e. for_each region_step None (sort_key start_of (f_regions frame)) = Inr e) \<and>
     for_each (check_domain (f_regions frame)) () (f_domains frame) = Inr ()"
  by (auto simp: finish_def Let_def res_simps)

lemma finish_regions:
  assumes "finish frame = Inr g"
  shows "distinct (map start_of (f_regions frame))" "disjoint_regions (f_regions frame)"
    "row \<in> set (f_regions frame) \<Longrightarrow> num row ''start'' < num row ''end'' \<and> check_region_facts row = Inr ()"
proof -
  obtain e where "for_each region_step None (sort_key start_of (f_regions frame)) = Inr e"
    using assms by (auto simp: finish_iff)
  from region_steps_ordered [OF this]
  show "distinct (map start_of (f_regions frame))" "disjoint_regions (f_regions frame)"
    "row \<in> set (f_regions frame) \<Longrightarrow> num row ''start'' < num row ''end'' \<and> check_region_facts row = Inr ()"
    using disjoint_from_sorted [of "f_regions frame"] by auto
qed

lemma unit_loop_iff: "for_each f () xs = Inr () \<longleftrightarrow> (\<forall>x \<in> set xs. f () x = Inr ())"
  by (induction xs) (auto simp: res_simps)

lemma finish_domain:
  assumes "finish frame = Inr g" "domain \<in> set (f_domains frame)"
  shows "num domain ''minimum_free_lower_bound_bytes'' = free_bound (f_regions frame) (num domain ''caps'')"
    "num domain ''largest_request_lower_bound_bytes'' = largest_bound (f_regions frame) (num domain ''caps'')"
    "free_bound (f_regions frame) (num domain ''caps'') \<le> UINT32_MAX"
  using assms by (auto simp: finish_iff unit_loop_iff check_domain_def res_simps)

subsection \<open>Domain figures never rise\<close>

text \<open>
  With distinct start addresses a list of regions is a finite map from addresses to regions, and the
  figures of a domain are a sum and a maximum over the addresses of the matching regions.
\<close>

definition match_starts :: "row list \<Rightarrow> int \<Rightarrow> int set" where
  "match_starts regions caps = start_of ` set (matching_regions regions caps)"

definition region_at :: "row list \<Rightarrow> int \<Rightarrow> row" where
  "region_at regions s = the (map_of (by_start regions) s)"

lemma by_start_distinct: "distinct (map start_of rs) \<Longrightarrow> by_start rs = map (\<lambda>row. (start_of row, row)) rs"
  by (simp add: by_start_def dict_distinct comp_def)

lemma map_of_by_start:
  "distinct (map start_of rs) \<Longrightarrow> map_of (by_start rs) s = Some row \<longleftrightarrow> row \<in> set rs \<and> start_of row = s"
  by (subst by_start_distinct) (auto simp: comp_def)

lemma region_at_start: "distinct (map start_of rs) \<Longrightarrow> row \<in> set rs \<Longrightarrow> region_at rs (start_of row) = row"
  by (metis map_of_by_start option.sel region_at_def)

lemma matching_subset: "set (matching_regions rs caps) \<subseteq> set rs"
  by (auto simp: matching_regions_def)

lemma region_at_match:
  "distinct (map start_of rs) \<Longrightarrow> row \<in> set (matching_regions rs caps) \<Longrightarrow> region_at rs (start_of row) = row"
  using matching_subset [of rs caps] by (intro region_at_start) auto

lemma finite_match_starts [simp]: "finite (match_starts rs caps)"
  by (simp add: match_starts_def)

lemma free_bound_sum:
  assumes "distinct (map start_of rs)"
  shows "free_bound rs caps = (\<Sum>s \<in> match_starts rs caps. num (region_at rs s) ''min_free_bytes'')"
proof -
  let ?m = "matching_regions rs caps"
  have d: "distinct (map start_of ?m)"
    using assms by (auto simp: matching_regions_def distinct_map intro: inj_on_subset)
  then have "distinct ?m" "inj_on start_of (set ?m)"
    by (simp_all add: distinct_map)
  then have "(\<Sum>s \<in> match_starts rs caps. num (region_at rs s) ''min_free_bytes'')
      = (\<Sum>row \<in> set ?m. num (region_at rs (start_of row)) ''min_free_bytes'')"
    by (simp add: match_starts_def sum.reindex)
  also have "\<dots> = (\<Sum>row \<in> set ?m. num row ''min_free_bytes'')"
    by (intro sum.cong refl) (simp add: region_at_match [OF assms])
  also have "\<dots> = free_bound rs caps"
    using \<open>distinct ?m\<close> by (simp add: free_bound_def py_sum_eq sum_list_distinct_conv_sum_set)
  finally show ?thesis ..
qed

lemma largest_bound_max:
  assumes "distinct (map start_of rs)"
  shows "largest_bound rs caps = (if match_starts rs caps = {} then 0
     else Max ((\<lambda>s. num (region_at rs s) ''min_largest_request_bytes'') ` match_starts rs caps))"
proof -
  let ?m = "matching_regions rs caps"
  have "(\<lambda>s. num (region_at rs s) ''min_largest_request_bytes'') ` match_starts rs caps
      = (\<lambda>row. num row ''min_largest_request_bytes'') ` set ?m"
    unfolding match_starts_def image_image
    by (intro image_cong refl) (simp add: region_at_match [OF assms])
  then show ?thesis
    by (simp add: largest_bound_def max_default_eq match_starts_def)
qed

lemma Max_image_mono:
  assumes "finite S" "S \<noteq> {}" "\<And>s. s \<in> S \<Longrightarrow> f s \<le> (g s :: int)"
  shows "Max (f ` S) \<le> Max (g ` S)"
  using assms by (intro Max.boundedI) (auto intro: order.trans [OF _ Max_ge])

lemma history_region:
  assumes h: "check_readout_history prev cur = Inr ()"
    and d: "distinct (map start_of (f_regions prev))" "distinct (map start_of (f_regions cur))"
    and row: "row \<in> set (f_regions cur)" and avail: "num row ''available_at_heap_init'' \<noteq> 0"
  obtains old where "old \<in> set (f_regions prev)" "\<forall>key \<in> set region_fixed. num old key = num row key"
    "num row ''min_free_bytes'' \<le> num old ''min_free_bytes''"
    "num row ''min_largest_request_bytes'' \<le> num old ''min_largest_request_bytes''"
proof -
  have "(start_of row, row) \<in> set (by_start (f_regions cur))"
    using row by (simp add: by_start_distinct [OF d(2)])
  moreover have "for_each (check_region_history (by_start (f_regions prev))) () (by_start (f_regions cur)) = Inr ()"
    using h by (auto simp: check_readout_history_def Let_def res_simps)
  ultimately have "check_region_history (by_start (f_regions prev)) () (start_of row, row) = Inr ()"
    by (simp add: unit_loop_iff)
  then obtain old where "map_of (by_start (f_regions prev)) (start_of row) = Some old"
    "\<forall>key \<in> set region_fixed. num old key = num row key"
    "num row ''min_free_bytes'' \<le> num old ''min_free_bytes''"
    "num row ''min_largest_request_bytes'' \<le> num old ''min_largest_request_bytes''"
    using avail by (auto simp: check_region_history_def res_simps list_ex_iff split: option.splits)
  then show thesis
    using that [of old] by (simp add: map_of_by_start [OF d(1)])
qed

lemma history_kept:
  assumes h: "check_readout_history prev cur = Inr ()"
    and d: "distinct (map start_of (f_regions prev))" "distinct (map start_of (f_regions cur))"
    and old: "old \<in> set (f_regions prev)"
  obtains row where "row \<in> set (f_regions cur)" "\<forall>key \<in> set region_fixed. num old key = num row key"
proof -
  have "start_of old \<in> set (map fst (by_start (f_regions cur)))"
    using h old by (auto simp: check_readout_history_def Let_def res_simps list_all_iff by_start_distinct [OF d(1)])
  then obtain row where row: "row \<in> set (f_regions cur)" "start_of row = start_of old"
    by (auto simp: by_start_distinct [OF d(2)])
  have "for_each (check_region_history (by_start (f_regions prev))) () (by_start (f_regions cur)) = Inr ()"
    using h by (auto simp: check_readout_history_def Let_def res_simps)
  moreover have "(start_of row, row) \<in> set (by_start (f_regions cur))"
    using row(1) by (simp add: by_start_distinct [OF d(2)])
  ultimately have "check_region_history (by_start (f_regions prev)) () (start_of row, row) = Inr ()"
    by (simp add: unit_loop_iff)
  moreover have "map_of (by_start (f_regions prev)) (start_of row) = Some old"
    using old row(2) by (simp add: map_of_by_start [OF d(1)])
  ultimately show thesis
    using that [of row] row(1) by (auto simp: check_region_history_def res_simps list_ex_iff)
qed

lemma fixed_match:
  assumes "\<forall>key \<in> set region_fixed. num a key = num b key"
  shows "start_of a = start_of b" "num a ''available_at_heap_init'' = num b ''available_at_heap_init''" "caps_of a = caps_of b"
  using assms by (simp_all add: region_fixed_def caps_of_def)

lemma match_starts_kept:
  assumes h: "check_readout_history prev cur = Inr ()"
    and d: "distinct (map start_of (f_regions prev))" "distinct (map start_of (f_regions cur))"
  shows "match_starts (f_regions cur) caps = match_starts (f_regions prev) caps"
proof (intro equalityI subsetI)
  fix s
  assume "s \<in> match_starts (f_regions cur) caps"
  then obtain row where row: "row \<in> set (f_regions cur)" "num row ''available_at_heap_init'' \<noteq> 0"
    "caps_of row AND caps = caps" "s = start_of row"
    by (auto simp: match_starts_def matching_regions_def)
  with history_region [OF h d] obtain old where "old \<in> set (f_regions prev)" "\<forall>key \<in> set region_fixed. num old key = num row key"
    by metis
  with row fixed_match [of old row] show "s \<in> match_starts (f_regions prev) caps"
    by (auto simp: match_starts_def matching_regions_def intro!: image_eqI [of _ _ old])
next
  fix s
  assume "s \<in> match_starts (f_regions prev) caps"
  then obtain old where old: "old \<in> set (f_regions prev)" "num old ''available_at_heap_init'' \<noteq> 0"
    "caps_of old AND caps = caps" "s = start_of old"
    by (auto simp: match_starts_def matching_regions_def)
  with history_kept [OF h d] obtain row where "row \<in> set (f_regions cur)" "\<forall>key \<in> set region_fixed. num old key = num row key"
    by metis
  with old fixed_match [of old row] show "s \<in> match_starts (f_regions cur) caps"
    by (auto simp: match_starts_def matching_regions_def intro!: image_eqI [of _ _ row])
qed

lemma region_minima_fall:
  assumes h: "check_readout_history prev cur = Inr ()"
    and d: "distinct (map start_of (f_regions prev))" "distinct (map start_of (f_regions cur))"
    and s: "s \<in> match_starts (f_regions cur) caps"
  shows "num (region_at (f_regions cur) s) ''min_free_bytes'' \<le> num (region_at (f_regions prev) s) ''min_free_bytes''"
    "num (region_at (f_regions cur) s) ''min_largest_request_bytes'' \<le> num (region_at (f_regions prev) s) ''min_largest_request_bytes''"
proof -
  obtain row where row: "row \<in> set (f_regions cur)" "num row ''available_at_heap_init'' \<noteq> 0" "s = start_of row"
    using s by (auto simp: match_starts_def matching_regions_def)
  with history_region [OF h d] obtain old where old: "old \<in> set (f_regions prev)" "\<forall>key \<in> set region_fixed. num old key = num row key"
    "num row ''min_free_bytes'' \<le> num old ''min_free_bytes''"
    "num row ''min_largest_request_bytes'' \<le> num old ''min_largest_request_bytes''"
    by metis
  moreover have "region_at (f_regions cur) s = row" "region_at (f_regions prev) s = old"
    using region_at_start [OF d(2) row(1)] region_at_start [OF d(1) old(1)] fixed_match(1) [OF old(2)] row(3) by simp_all
  ultimately show
    "num (region_at (f_regions cur) s) ''min_free_bytes'' \<le> num (region_at (f_regions prev) s) ''min_free_bytes''"
    "num (region_at (f_regions cur) s) ''min_largest_request_bytes'' \<le> num (region_at (f_regions prev) s) ''min_largest_request_bytes''"
    by simp_all
qed

lemma domain_bounds_fall:
  assumes h: "check_readout_history prev cur = Inr ()" and "finish prev = Inr p" "finish cur = Inr c"
  shows "free_bound (f_regions cur) caps \<le> free_bound (f_regions prev) caps"
    "largest_bound (f_regions cur) caps \<le> largest_bound (f_regions prev) caps"
proof -
  have d: "distinct (map start_of (f_regions prev))" "distinct (map start_of (f_regions cur))"
    using assms(2,3) finish_regions(1) by blast+
  note same = match_starts_kept [OF h d, of caps]
  show "free_bound (f_regions cur) caps \<le> free_bound (f_regions prev) caps"
    unfolding free_bound_sum [OF d(1)] free_bound_sum [OF d(2)] same [symmetric]
    by (intro sum_mono region_minima_fall [OF h d])
  show "largest_bound (f_regions cur) caps \<le> largest_bound (f_regions prev) caps"
    unfolding largest_bound_max [OF d(1)] largest_bound_max [OF d(2)] same [symmetric]
    by (cases "match_starts (f_regions cur) caps = {}")
      (simp, simp only: if_False, intro Max_image_mono region_minima_fall(2) [OF h d] finite_match_starts)
qed

subsection \<open>What a finished frame says\<close>

lemma check_tasks_facts:
  assumes "check_tasks frame = Inr ()"
  shows "distinct (map (\<lambda>row. num row ''instance'') (f_tasks frame))"
    "num (f_end frame) ''minimum_stack_bytes'' = min_default 0 (stack_values frame)"
    "num (f_end frame) ''task_snapshot_complete'' \<noteq> 0 \<longleftrightarrow> f_tasks frame \<noteq> [] \<and>
       num (f_end frame) ''created_instances'' - num (f_end frame) ''finalized_instances'' = int (length (f_tasks frame))"
  using assms by (auto simp: check_tasks_def Let_def res_simps split: if_splits)

lemma stack_minimum:
  "task \<in> set (f_tasks frame) \<Longrightarrow> min_default 0 (stack_values frame) \<le> num task ''minimum_stack_bytes''"
  by (rule min_default_le) (simp add: stack_values_def)

text \<open>
  C23: what an accepted frame says is exact.  Its regions are pairwise disjoint address ranges.  For the regions that were available
  from the start and have all capabilities of a domain, the free figure of the domain is the sum of their minima and its
  block figure the maximum of their largest-block minima, 0 when there is no such region.  The reported minimum stack is the least of
  those of the reported tasks and, if some task has finished, of the finished ones.  A snapshot is flagged complete exactly
  when the reported tasks are all the tasks created and not finished.
\<close>

theorem finished_frame_sound:
  assumes "finish frame = Inr g"
  shows "g = frame \<and> disjoint_regions (f_regions frame) \<and>
    (\<forall>d \<in> set (f_domains frame). let m = filter (\<lambda>row. num row ''available_at_heap_init'' \<noteq> 0 \<and>
         (num row ''caps0'' OR num row ''caps1'' OR num row ''caps2'') AND num d ''caps'' = num d ''caps'') (f_regions frame) in
       num d ''minimum_free_lower_bound_bytes'' = (\<Sum>row \<leftarrow> m. num row ''min_free_bytes'') \<and>
       num d ''largest_request_lower_bound_bytes'' =
         (if m = [] then 0 else Max ((\<lambda>row. num row ''min_largest_request_bytes'') ` set m))) \<and>
    (let stacks = (\<lambda>task. num task ''minimum_stack_bytes'') ` set (f_tasks frame) \<union>
         (if num (f_end frame) ''finalized_instances'' = 0 then {} else {num (f_end frame) ''completed_stack_min_bytes''}) in
       num (f_end frame) ''minimum_stack_bytes'' = (if stacks = {} then 0 else Min stacks)) \<and>
    (num (f_end frame) ''task_snapshot_complete'' \<noteq> 0 \<longleftrightarrow> f_tasks frame \<noteq> [] \<and>
       num (f_end frame) ''created_instances'' - num (f_end frame) ''finalized_instances'' = int (length (f_tasks frame)))"
proof -
  have t: "check_tasks frame = Inr ()" and g: "g = frame"
    using assms by (auto simp: finish_iff)
  have domain: "let m = filter (\<lambda>row. num row ''available_at_heap_init'' \<noteq> 0 \<and>
         (num row ''caps0'' OR num row ''caps1'' OR num row ''caps2'') AND num d ''caps'' = num d ''caps'') (f_regions frame) in
       num d ''minimum_free_lower_bound_bytes'' = (\<Sum>row \<leftarrow> m. num row ''min_free_bytes'') \<and>
       num d ''largest_request_lower_bound_bytes'' =
         (if m = [] then 0 else Max ((\<lambda>row. num row ''min_largest_request_bytes'') ` set m))" if "d \<in> set (f_domains frame)" for d
    using finish_domain(1,2) [OF assms that]
    by (simp add: Let_def free_bound_def largest_bound_def matching_regions_def caps_of_def py_sum_eq max_default_eq)
  have stack: "let stacks = (\<lambda>task. num task ''minimum_stack_bytes'') ` set (f_tasks frame) \<union>
         (if num (f_end frame) ''finalized_instances'' = 0 then {} else {num (f_end frame) ''completed_stack_min_bytes''}) in
       num (f_end frame) ''minimum_stack_bytes'' = (if stacks = {} then 0 else Min stacks)"
    unfolding check_tasks_facts(2) [OF t] min_default_eq by (simp add: Let_def stack_values_def)
  show ?thesis
    using g domain stack finish_regions(2) [OF assms] check_tasks_facts(3) [OF t] by blast
qed

text \<open>
  A sample frame with one memory region, two tasks and the five domains, used by the concrete
  instances below and in the theories of the log.
\<close>

definition sample_boot :: pystr where
  "sample_boot = str ''12345678-9abc-4def-8123-456789abcdef''"

definition sample_lock :: pystr where
  "sample_lock = replicate 64 48"

definition sample_begin :: "int \<Rightarrow> row" where
  "sample_begin n = [(''schema'', Num 1), (''boot_id'', Text sample_boot), (''frame'', Num n), (''phase'', Text (str ''periodic'')),
     (''uptime_ms'', Num (5000 * n)), (''sdk_lock_sha256'', Text sample_lock), (''task_limit'', Num 32)]"

definition sample_region :: "int \<Rightarrow> row" where
  "sample_region n = [(''boot_id'', Text sample_boot), (''frame'', Num n), (''start'', Num 0x3FC80000), (''end'', Num 0x3FCA0000),
     (''caps0'', Num 0x180E), (''caps1'', Num 0), (''caps2'', Num 0), (''alias_start'', Num 0), (''alias_end'', Num 0),
     (''alias_inverted'', Num 0), (''available_at_heap_init'', Num 1), (''free_bytes'', Num 60000),
     (''min_free_bytes'', Num (40000 - n)), (''largest_request_bytes'', Num 50000), (''min_largest_request_bytes'', Num (30000 - n)),
     (''allocator_metadata_bytes'', Num 1000)]"

definition sample_task :: "int \<Rightarrow> int \<Rightarrow> row" where
  "sample_task n i = [(''boot_id'', Text sample_boot), (''frame'', Num n), (''instance'', Num i), (''name_hex'', Text (str ''6d61'')),
     (''minimum_stack_bytes'', Num (2000 + i - n)), (''state'', Num 2)]"

definition sample_domain :: "int \<Rightarrow> int \<Rightarrow> bool \<Rightarrow> row" where
  "sample_domain n caps present = [(''boot_id'', Text sample_boot), (''frame'', Num n), (''caps'', Num caps), (''alignment_bytes'', Num 4),
     (''minimum_free_lower_bound_bytes'', Num (if present then 40000 - n else 0)),
     (''largest_request_lower_bound_bytes'', Num (if present then 30000 - n else 0)),
     (''history'', Text (str ''region_minima_conservative_bound''))]"

definition sample_domains :: "int \<Rightarrow> row list" where
  "sample_domains n = [sample_domain n 0x804 True, sample_domain n 0x802 True, sample_domain n 0x808 True,
     sample_domain n 0x1000 True, sample_domain n 0x2800 False]"

definition sample_end :: "int \<Rightarrow> row" where
  "sample_end n = [(''boot_id'', Text sample_boot), (''frame'', Num n), (''regions'', Num 1), (''allocated_tasks'', Num 2),
     (''created_instances'', Num 2), (''finalized_instances'', Num 0), (''completed_stack_min_bytes'', Num 0),
     (''worst_completed_instance'', Num 0), (''minimum_stack_bytes'', Num (2001 - n)), (''task_snapshot_complete'', Num 1),
     (''counters_valid'', Num 1), (''facts_valid'', Num 1), (''workspace_bytes'', Num 4096), (''observation_cost_added_back'', Num 0)]"

definition sample_frame :: "int \<Rightarrow> frame" where
  "sample_frame n = \<lparr>f_begin = sample_begin n, f_mqtt = None, f_regions = [sample_region n],
     f_tasks = [sample_task n 1, sample_task n 2], f_domains = sample_domains n, f_end = sample_end n\<rparr>"

lemma sample_region_num:
  "num (sample_region n) ''start'' = 0x3FC80000" "num (sample_region n) ''end'' = 0x3FCA0000"
  "num (sample_region n) ''available_at_heap_init'' = 1" "caps_of (sample_region n) = 0x180E"
  "num (sample_region n) ''min_free_bytes'' = 40000 - n" "num (sample_region n) ''min_largest_request_bytes'' = 30000 - n"
  by (simp_all add: sample_region_def num_def caps_of_def)

lemma sample_matching: "matching_regions [sample_region n] caps = (if 0x180E AND caps = caps then [sample_region n] else [])"
  by (simp add: matching_regions_def sample_region_num)

lemma sample_bounds:
  "free_bound [sample_region n] caps = (if 0x180E AND caps = caps then 40000 - n else 0)"
  "largest_bound [sample_region n] caps = (if 0x180E AND caps = caps then 30000 - n else 0)"
  by (simp_all add: free_bound_def largest_bound_def sample_matching py_sum_def max_default_def sample_region_num)

lemma sample_checks:
  assumes "0 < n" "n < 1000"
  shows "check_region_facts (sample_region n) = Inr ()" "check_mqtt (sample_frame n) = Inr ()"
    "for_each (check_domain [sample_region n]) () (sample_domains n) = Inr ()"
    "check_tasks (sample_frame n) = Inr ()"
proof -
  show "check_region_facts (sample_region n) = Inr ()"
    using assms by (simp add: check_region_facts_def caps_of_def sample_region_def num_def Let_def)
  show "check_mqtt (sample_frame n) = Inr ()"
    by (simp add: check_mqtt_def sample_frame_def sample_begin_def num_def)
  show "for_each (check_domain [sample_region n]) () (sample_domains n) = Inr ()"
    using assms by (simp add: check_domain_def sample_bounds sample_domains_def sample_domain_def num_def text_of_def UINT32_MAX_def)
  show "check_tasks (sample_frame n) = Inr ()"
    using assms
    by (simp add: check_tasks_def sample_frame_def sample_task_def sample_end_def sample_begin_def num_def text_of_def
        Let_def UINT32_MAX_def even_hex_text_def str_def is_lower_hex_def stack_values_def min_default_def)
qed

lemma finish_sample:
  assumes "0 < n" "n < 1000"
  shows "finish (sample_frame n) = Inr (sample_frame n)"
proof -
  have parts: "f_regions (sample_frame n) = [sample_region n]" "f_domains (sample_frame n) = sample_domains n"
    "f_tasks (sample_frame n) = [sample_task n 1, sample_task n 2]" "f_end (sample_frame n) = sample_end n"
    "f_begin (sample_frame n) = sample_begin n"
    by (simp_all add: sample_frame_def)
  have counts: "num (sample_end n) ''regions'' = 1" "num (sample_end n) ''allocated_tasks'' = 2"
    "num (sample_end n) ''counters_valid'' = 1" "num (sample_end n) ''facts_valid'' = 1" "num (sample_begin n) ''task_limit'' = 32"
    "map (\<lambda>row. num row ''caps'') (sample_domains n) = DOMAIN_CAPS"
    by (simp_all add: sample_end_def sample_begin_def sample_domains_def sample_domain_def num_def DOMAIN_CAPS_def INTERNAL_8BIT_def)
  show ?thesis
    using sample_checks [OF assms] by (simp add: finish_iff parts counts bindE_eq_Inr region_step_iff sample_region_num)
qed

lemma sample_history:
  assumes "0 < n"
  shows "check_readout_history (sample_frame n) (sample_frame (n + 1)) = Inr ()"
proof -
  have b: "num (sample_begin m) ''schema'' = 1" "num (sample_begin m) ''frame'' = m" "num (sample_begin m) ''uptime_ms'' = 5000 * m"
    "text_of (sample_begin m) ''phase'' = str ''periodic''" for m
    by (simp_all add: sample_begin_def num_def text_of_def)
  have r: "check_region_history [(0x3FC80000, sample_region n)] () (0x3FC80000, sample_region (n + 1)) = Inr ()"
    by (simp add: check_region_history_def region_fixed_def sample_region_def num_def)
  have e: "check_counter_history (sample_end n) (sample_end (n + 1)) = Inr ()"
    by (simp add: check_counter_history_def sample_end_def num_def)
  show ?thesis
    using assms r e by (simp add: check_readout_history_def sample_frame_def b by_start_def dict_def sample_region_num str_def)
qed

lemma sample_task_history:
  assumes "0 < n"
  shows "check_complete_task_history (sample_frame n) (sample_frame (n + 1))
    [(1, sample_task n 1), (2, sample_task n 2)] {} = Inr {}"
  using assms
  by (simp add: check_complete_task_history_def check_task_def instance_ids_def sample_frame_def sample_task_def sample_end_def
      num_def text_of_def)

theorem finished_frame_sound_witness:
  "finish (sample_frame 1) = Inr (sample_frame 1) \<and> disjoint_regions (f_regions (sample_frame 1)) \<and>
   num (f_end (sample_frame 1)) ''task_snapshot_complete'' = 1 \<and> f_tasks (sample_frame 1) \<noteq> []"
  using finished_frame_sound [OF finish_sample [of 1]] finish_sample [of 1]
  by (simp add: sample_frame_def sample_end_def num_def)

text \<open>
  The figures of a capability domain never rise from one accepted frame to the next, although
  regions may appear in between: the regions that count are the same and the minimum of each can
  only fall.
\<close>

theorem domain_bounds_never_rise:
  assumes "finish prev = Inr p" and "finish cur = Inr c" and "check_readout_history prev cur = Inr ()"
  shows "match_starts (f_regions cur) caps = match_starts (f_regions prev) caps \<and>
    free_bound (f_regions cur) caps \<le> free_bound (f_regions prev) caps \<and>
    largest_bound (f_regions cur) caps \<le> largest_bound (f_regions prev) caps"
  using match_starts_kept [OF assms(3) finish_regions(1) [OF assms(1)] finish_regions(1) [OF assms(2)]]
    domain_bounds_fall [OF assms(3,1,2)] by simp

theorem domain_bounds_never_rise_witness:
  "free_bound (f_regions (sample_frame 2)) INTERNAL_8BIT = 39998 \<and>
   free_bound (f_regions (sample_frame 2)) INTERNAL_8BIT \<le> free_bound (f_regions (sample_frame 1)) INTERNAL_8BIT"
proof -
  have "free_bound (f_regions (sample_frame 2)) INTERNAL_8BIT = 39998"
    by (simp add: sample_frame_def sample_bounds INTERNAL_8BIT_def)
  then show ?thesis
    using domain_bounds_never_rise [OF finish_sample [of 1] finish_sample [of 2], of INTERNAL_8BIT] sample_history [of 1] by simp
qed

end
