(* ===== verification/Capacity_Log.thy ===== *)
theory Capacity_Log
  imports Capacity_Frame Digests
begin

text \<open>
  The analysis of a set of UART logs (\<^verbatim>\<open>analyze\<close> of \<^verbatim>\<open>analyze_capacity.py\<close>): a state machine over
  the lines of each log.  The state is the group of local variables of the loop; \<open>accept_frame\<close> is what
  happens when a frame is complete (lines 557 to 579), \<open>log_line\<close> the body of the loop, \<open>log_files\<close>
  the loop over the files with the checks at their ends, and \<open>analyze\<close> the report with its gates.

  A log file is what the tool observes of it: whether it is a regular file, its size and modification
  time before and after reading, and its bytes.

  The run over the lines of the logs refines a run over the sequence of frames it completes
  (\<open>log_refines_frames\<close>); the history properties are proved on that sequence.
\<close>

record log_state =
  ls_frames :: "summary list"
  ls_seen :: "(int \<times> row) list"
  ls_retired :: "int set"
  ls_previous :: "frame option"
  ls_previous_complete :: "frame option"
  ls_previous_mqtt :: "row option"
  ls_name_width :: "nat option"
  ls_frame :: "frame option"
  ls_stage :: "kind option"

definition log_start :: log_state where
  "log_start = \<lparr>ls_frames = [], ls_seen = [], ls_retired = {}, ls_previous = None, ls_previous_complete = None,
     ls_previous_mqtt = None, ls_name_width = None, ls_frame = None, ls_stage = None\<rparr>"

subsection \<open>A completed frame\<close>

definition accept_width :: "frame \<Rightarrow> nat option \<Rightarrow> nat option res" where
  "accept_width frame name_width = (case f_tasks frame of
      [] \<Rightarrow> Inr name_width
    | task # _ \<Rightarrow>
        (let width = length (text_of task ''name_hex'') in
         refuse (name_width \<noteq> None \<and> name_width \<noteq> Some width) ''task name width changed'' (Inr (Some width))))"

definition accept_complete :: "frame \<Rightarrow> log_state \<Rightarrow> log_state res" where
  "accept_complete frame st =
     (if num (f_end frame) ''task_snapshot_complete'' = 0 then Inr st
      else
        bindE (case ls_previous_complete st of
                 None \<Rightarrow> Inr (ls_retired st)
               | Some previous \<Rightarrow> check_complete_task_history previous frame (ls_seen st) (ls_retired st)) (\<lambda>retired.
        refuse (list_ex (\<lambda>task. num task ''instance'' \<in> retired) (f_tasks frame)) ''finished instance came back''
        (Inr (st\<lparr>ls_retired := retired,
                 ls_seen := foldl (\<lambda>d (k, v). AList.update k v d) (ls_seen st)
                              (dict (map (\<lambda>task. (num task ''instance'', task)) (f_tasks frame))),
                 ls_previous_complete := Some frame\<rparr>))))"

definition accept_frame :: "log_state \<Rightarrow> frame \<Rightarrow> log_state res" where
  "accept_frame st frame =
     bindE (finish frame) (\<lambda>frame.
     bindE (check_mqtt_history (ls_previous_mqtt st) frame) (\<lambda>mqtt.
     bindE (accept_width frame (ls_name_width st)) (\<lambda>width.
     bindE (case ls_previous st of None \<Rightarrow> Inr () | Some previous \<Rightarrow> check_readout_history previous frame) (\<lambda>_.
     bindE (accept_complete frame (st\<lparr>ls_previous_mqtt := mqtt, ls_name_width := width\<rparr>)) (\<lambda>st.
     bindE (summarize frame) (\<lambda>s.
     Inr (st\<lparr>ls_retired := (if num (f_end frame) ''finalized_instances'' \<noteq> 0
                             then insert (num (f_end frame) ''worst_completed_instance'') (ls_retired st) else ls_retired st),
             ls_frames := ls_frames st @ [s], ls_previous := Some frame, ls_frame := None, ls_stage := None\<rparr>)))))))"

subsection \<open>One line\<close>

definition stage_allows :: "(kind \<times> kind list) list" where
  "stage_allows = [(MQTT, [MQTT]), (REGION, [REGION, TASK, DOMAIN]), (TASK, [TASK, DOMAIN]), (DOMAIN, [DOMAIN, END])]"

definition begin_frame :: "pystr \<Rightarrow> log_state \<Rightarrow> row \<Rightarrow> log_state res" where
  "begin_frame sdk_lock_sha256 st row =
     refuse (ls_frame st \<noteq> None \<or> num row ''schema'' \<notin> {1, 2} \<or> text_of row ''sdk_lock_sha256'' \<noteq> sdk_lock_sha256 \<or>
             text_of row ''phase'' \<notin> {str ''periodic'', str ''before_reset''}) ''BEGIN nested, schema, SDK or phase''
     (Inr (st\<lparr>ls_frame := Some \<lparr>f_begin = row, f_mqtt = None, f_regions = [], f_tasks = [], f_domains = [], f_end = []\<rparr>,
              ls_stage := Some (if num row ''schema'' = 2 then MQTT else REGION)\<rparr>))"

definition continue_frame :: "log_state \<Rightarrow> kind \<Rightarrow> row \<Rightarrow> log_state res" where
  "continue_frame st kind row = (case ls_frame st of
      None \<Rightarrow> Inl (Raise ValueError ''line outside a frame'')
    | Some frame \<Rightarrow>
        refuse (num row ''frame'' \<noteq> num (f_begin frame) ''frame'') ''line of another frame''
        (bindE (of_option (Raise KeyError ''stage'') (Option.bind (ls_stage st) (map_of stage_allows))) (\<lambda>allowed.
         refuse (kind \<notin> set allowed) ''lines out of order''
         (case kind of
            MQTT \<Rightarrow> Inr (st\<lparr>ls_frame := Some (frame\<lparr>f_mqtt := Some row\<rparr>), ls_stage := Some REGION\<rparr>)
          | REGION \<Rightarrow> Inr (st\<lparr>ls_frame := Some (frame\<lparr>f_regions := f_regions frame @ [row]\<rparr>), ls_stage := Some REGION\<rparr>)
          | TASK \<Rightarrow> Inr (st\<lparr>ls_frame := Some (frame\<lparr>f_tasks := f_tasks frame @ [row]\<rparr>), ls_stage := Some TASK\<rparr>)
          | DOMAIN \<Rightarrow> Inr (st\<lparr>ls_frame := Some (frame\<lparr>f_domains := f_domains frame @ [row]\<rparr>), ls_stage := Some DOMAIN\<rparr>)
          | END \<Rightarrow> accept_frame st (frame\<lparr>f_end := row\<rparr>)
          | BEGIN \<Rightarrow> Inl (Raise KeyError ''BEGIN'')))))"

definition log_row :: "pystr \<Rightarrow> pystr \<Rightarrow> log_state \<Rightarrow> kind \<times> row \<Rightarrow> log_state res" where
  "log_row boot_id sdk_lock_sha256 st = (\<lambda>(kind, row).
     refuse (text_of row ''boot_id'' \<noteq> boot_id \<or> \<not> (0 < num row ''frame'' \<and> num row ''frame'' < UINT32_MAX)) ''boot or frame number''
     (if kind = BEGIN then begin_frame sdk_lock_sha256 st row else continue_frame st kind row))"

definition log_line :: "pystr \<Rightarrow> pystr \<Rightarrow> log_state \<Rightarrow> bytes \<Rightarrow> log_state res" where
  "log_line boot_id sdk_lock_sha256 st raw =
     bindE (parse_line raw) (\<lambda>parsed. (case parsed of None \<Rightarrow> Inr st | Some r \<Rightarrow> log_row boot_id sdk_lock_sha256 st r))"

subsection \<open>Files\<close>

record log_file =
  lf_regular :: bool
  lf_initial :: "int \<times> int"
  lf_bytes :: bytes
  lf_final :: "int \<times> int"

definition read_log :: "pystr \<Rightarrow> pystr \<Rightarrow> log_state \<times> (pystr \<times> int) list \<Rightarrow> log_file \<Rightarrow> (log_state \<times> (pystr \<times> int) list) res" where
  "read_log boot_id sdk_lock_sha256 = (\<lambda>(st, inputs) file.
     refuse (\<not> lf_regular file) ''not a regular file''
     (bindE (for_each (log_line boot_id sdk_lock_sha256) (st\<lparr>ls_frame := None, ls_stage := None\<rparr>) (file_lines (lf_bytes file))) (\<lambda>st.
      refuse (ls_frame st \<noteq> None) ''log ends before END''
      (refuse (lf_initial file \<noteq> lf_final file \<or> int (length (lf_bytes file)) \<noteq> fst (lf_initial file)) ''log changed''
      (Inr (st, inputs @ [(hex (sha256 (lf_bytes file)), int (length (lf_bytes file)))]))))))"

definition log_files :: "pystr \<Rightarrow> pystr \<Rightarrow> log_file list \<Rightarrow> (log_state \<times> (pystr \<times> int) list) res" where
  "log_files boot_id sdk_lock_sha256 files = for_each (read_log boot_id sdk_lock_sha256) (log_start, []) files"

subsection \<open>The report\<close>

record gates =
  heap_gate_passed :: bool
  largest_gate_passed :: bool
  stack_gate_passed :: bool

record capacity_report =
  cr_target :: string
  cr_boot_id :: pystr
  cr_sdk_lock_sha256 :: pystr
  cr_frames :: "summary list"
  cr_inputs :: "(pystr \<times> int) list"
  cr_proved_until_begin_uptime_ms :: "int option"
  cr_latest_readout_begin_uptime_ms :: int
  cr_incomplete_task_readouts :: int
  cr_task_history_closed_at_latest_readout :: bool
  cr_numeric_gates :: gates
  cr_numeric_gates_passed :: bool

definition last_complete :: "summary list \<Rightarrow> summary option" where
  "last_complete frames = find s_task_snapshot_complete (rev frames)"

definition numeric_gates :: "summary option \<Rightarrow> gates" where
  "numeric_gates latest = (case latest of
      None \<Rightarrow> \<lparr>heap_gate_passed = False, largest_gate_passed = False, stack_gate_passed = False\<rparr>
    | Some s \<Rightarrow> \<lparr>heap_gate_passed = HEAP_GATE_BYTES \<le> s_minimum_free_lower_bound_bytes s,
        largest_gate_passed = LARGEST_GATE_BYTES \<le> s_largest_request_lower_bound_bytes s,
        stack_gate_passed = (case s_minimum_stack_bytes s of None \<Rightarrow> False | Some n \<Rightarrow> STACK_GATE_BYTES \<le> n)\<rparr>)"

definition hash_text :: "pystr \<Rightarrow> bool" where
  "hash_text s = (length s = 64 \<and> list_all is_lower_hex s)"

definition report_of :: "string \<Rightarrow> pystr \<Rightarrow> pystr \<Rightarrow> summary list \<Rightarrow> (pystr \<times> int) list \<Rightarrow> capacity_report res" where
  "report_of target boot_id sdk_lock_sha256 frames inputs =
     refuse (frames = []) ''no complete frame''
     (let latest = last_complete frames; g = numeric_gates latest in
      Inr \<lparr>cr_target = target, cr_boot_id = boot_id, cr_sdk_lock_sha256 = sdk_lock_sha256, cr_frames = frames, cr_inputs = inputs,
        cr_proved_until_begin_uptime_ms = map_option s_begin_uptime_ms latest,
        cr_latest_readout_begin_uptime_ms = s_begin_uptime_ms (last frames),
        cr_incomplete_task_readouts = int (length (filter (\<lambda>s. \<not> s_task_snapshot_complete s) frames)),
        cr_task_history_closed_at_latest_readout = s_task_snapshot_complete (last frames),
        cr_numeric_gates = g,
        cr_numeric_gates_passed = (heap_gate_passed g \<and> largest_gate_passed g \<and> stack_gate_passed g)\<rparr>)"

definition analyze :: "log_file list \<Rightarrow> string \<Rightarrow> pystr \<Rightarrow> pystr \<Rightarrow> capacity_report res" where
  "analyze files target boot_id sdk_lock_sha256 =
     refuse (target \<notin> {''esp32'', ''esp32c3''} \<or> \<not> valid_uuid_text boot_id \<or> \<not> hash_text sdk_lock_sha256 \<or> files = [])
       ''target, boot, SDK lock or logs''
     (bindE (log_files boot_id sdk_lock_sha256 files) (\<lambda>(st, inputs).
      report_of target boot_id sdk_lock_sha256 (ls_frames st) inputs))"

subsection \<open>The lines refine a sequence of frames\<close>

definition core :: "log_state \<Rightarrow> log_state" where
  "core st = st\<lparr>ls_frame := None, ls_stage := None\<rparr>"

lemma core_simps [simp]:
  "core (core st) = core st" "core (st\<lparr>ls_frame := x\<rparr>) = core st" "core (st\<lparr>ls_stage := y\<rparr>) = core st"
  "ls_frames (core st) = ls_frames st" "core log_start = log_start"
  by (simp_all add: core_def log_start_def)

lemma accept_complete_core:
  "accept_complete frame (st\<lparr>ls_previous_mqtt := m, ls_name_width := w\<rparr>) = Inr t \<Longrightarrow>
   accept_complete frame ((core st)\<lparr>ls_previous_mqtt := m, ls_name_width := w\<rparr>) = Inr (core t)"
  by (auto simp: accept_complete_def core_def res_simps split: if_splits option.splits)

lemma accept_frameE:
  assumes "accept_frame st frame = Inr t"
  obtains m w u s where "finish frame = Inr frame" "check_mqtt_history (ls_previous_mqtt st) frame = Inr m"
    "accept_width frame (ls_name_width st) = Inr w"
    "(case ls_previous st of None \<Rightarrow> Inr () | Some previous \<Rightarrow> check_readout_history previous frame) = Inr ()"
    "accept_complete frame (st\<lparr>ls_previous_mqtt := m, ls_name_width := w\<rparr>) = Inr u" "summarize frame = Inr s"
    "t = u\<lparr>ls_retired := (if num (f_end frame) ''finalized_instances'' \<noteq> 0
                             then insert (num (f_end frame) ''worst_completed_instance'') (ls_retired u) else ls_retired u),
             ls_frames := ls_frames u @ [s], ls_previous := Some frame, ls_frame := None, ls_stage := None\<rparr>"
proof -
  obtain g where g: "finish frame = Inr g"
    using assms by (cases "finish frame") (simp_all add: accept_frame_def)
  then have fin: "finish frame = Inr frame"
    by (simp add: finish_iff)
  show thesis
    using assms unfolding accept_frame_def fin bindE_Inr bindE_eq_Inr
    by (elim exE conjE) (rule that [OF fin], assumption+, (simp only: sum.inject)+, auto)
qed

lemma accept_frame_snapshot:
  assumes "accept_frame st frame = Inr t"
  obtains m w u where "accept_complete frame (st\<lparr>ls_previous_mqtt := m, ls_name_width := w\<rparr>) = Inr u"
    "ls_previous_complete t = ls_previous_complete u" "ls_retired u \<subseteq> ls_retired t"
proof (rule accept_frameE [OF assms])
  fix m w u s
  assume "accept_complete frame (st\<lparr>ls_previous_mqtt := m, ls_name_width := w\<rparr>) = Inr u"
    and "t = u\<lparr>ls_retired := (if num (f_end frame) ''finalized_instances'' \<noteq> 0
                             then insert (num (f_end frame) ''worst_completed_instance'') (ls_retired u) else ls_retired u),
             ls_frames := ls_frames u @ [s], ls_previous := Some frame, ls_frame := None, ls_stage := None\<rparr>"
  then show thesis
    by (intro that) auto
qed

lemma accept_complete_frames:
  "accept_complete frame (st\<lparr>ls_previous_mqtt := m, ls_name_width := w\<rparr>) = Inr u \<Longrightarrow> ls_frames u = ls_frames st"
  by (auto simp: accept_complete_def res_simps split: if_splits)

lemma accept_frame_core:
  assumes "accept_frame st frame = Inr t"
  shows "accept_frame (core st) frame = Inr t" "core t = t"
proof -
  have [simp]: "ls_previous_mqtt (core st) = ls_previous_mqtt st" "ls_name_width (core st) = ls_name_width st"
    "ls_previous (core st) = ls_previous st"
    by (simp_all add: core_def)
  obtain m w u s where *: "finish frame = Inr frame" "check_mqtt_history (ls_previous_mqtt st) frame = Inr m"
    "accept_width frame (ls_name_width st) = Inr w"
    "(case ls_previous st of None \<Rightarrow> Inr () | Some previous \<Rightarrow> check_readout_history previous frame) = Inr ()"
    "accept_complete frame (st\<lparr>ls_previous_mqtt := m, ls_name_width := w\<rparr>) = Inr u" "summarize frame = Inr s"
    and t: "t = u\<lparr>ls_retired := (if num (f_end frame) ''finalized_instances'' \<noteq> 0
                             then insert (num (f_end frame) ''worst_completed_instance'') (ls_retired u) else ls_retired u),
             ls_frames := ls_frames u @ [s], ls_previous := Some frame, ls_frame := None, ls_stage := None\<rparr>"
    by (rule accept_frameE [OF assms])
  from * accept_complete_core [OF *(5)] t show "accept_frame (core st) frame = Inr t"
    by (simp add: accept_frame_def core_def)
  show "core t = t"
    by (simp add: t core_def)
qed

text \<open>
  The rows a frame stands for, in the order the log has them: the BEGIN line, the MQTT line of a frame of schema 2, the
  regions, the tasks, the domains and the END line.  A frame is declared for a boot and an SDK when all its rows name the boot and
  the number of its BEGIN line, which names the SDK and a known schema and phase.
\<close>

definition rows_of :: "bytes list \<Rightarrow> (kind \<times> row) list" where
  "rows_of lines = concat (map (\<lambda>raw. case parse_line raw of Inr (Some r) \<Rightarrow> [r] | _ \<Rightarrow> []) lines)"

definition head_rows :: "frame \<Rightarrow> (kind \<times> row) list" where
  "head_rows f = (BEGIN, f_begin f) # (case f_mqtt f of None \<Rightarrow> [] | Some row \<Rightarrow> [(MQTT, row)]) @ map (Pair REGION) (f_regions f) @
     map (Pair TASK) (f_tasks f) @ map (Pair DOMAIN) (f_domains f)"

definition frame_rows :: "frame \<Rightarrow> (kind \<times> row) list" where
  "frame_rows f = head_rows f @ [(END, f_end f)]"

definition begin_declared :: "pystr \<Rightarrow> row \<Rightarrow> bool" where
  "begin_declared lock row = (num row ''schema'' \<in> {1, 2} \<and> text_of row ''sdk_lock_sha256'' = lock \<and>
     text_of row ''phase'' \<in> {str ''periodic'', str ''before_reset''} \<and> 0 < num row ''frame'' \<and> num row ''frame'' < UINT32_MAX)"

definition row_declared :: "pystr \<Rightarrow> int \<Rightarrow> kind \<times> row \<Rightarrow> bool" where
  "row_declared boot_id n = (\<lambda>(kind, row). text_of row ''boot_id'' = boot_id \<and> num row ''frame'' = n)"

definition frame_declared :: "pystr \<Rightarrow> pystr \<Rightarrow> frame \<Rightarrow> bool" where
  "frame_declared boot_id lock f = (begin_declared lock (f_begin f) \<and> (f_mqtt f \<noteq> None \<longleftrightarrow> num (f_begin f) ''schema'' = 2) \<and>
     list_all (row_declared boot_id (num (f_begin f) ''frame'')) (frame_rows f))"

text \<open>The frame being read: its rows so far, and what its stage says of it.\<close>

definition pending :: "log_state \<Rightarrow> (kind \<times> row) list" where
  "pending st = (case ls_frame st of None \<Rightarrow> [] | Some f \<Rightarrow> head_rows f)"

definition stage_shape :: "kind option \<Rightarrow> frame \<Rightarrow> bool" where
  "stage_shape stage f = (case stage of
      Some MQTT \<Rightarrow> num (f_begin f) ''schema'' = 2 \<and> f_mqtt f = None \<and> f_regions f = [] \<and> f_tasks f = [] \<and> f_domains f = []
    | Some k \<Rightarrow> (f_mqtt f \<noteq> None \<longleftrightarrow> num (f_begin f) ''schema'' = 2) \<and>
        (k = REGION \<and> f_tasks f = [] \<and> f_domains f = [] \<or> k = TASK \<and> f_domains f = [] \<or> k = DOMAIN)
    | None \<Rightarrow> False)"

definition reading :: "pystr \<Rightarrow> pystr \<Rightarrow> log_state \<Rightarrow> bool" where
  "reading boot_id lock st = (case ls_frame st of
      None \<Rightarrow> True
    | Some f \<Rightarrow> begin_declared lock (f_begin f) \<and> list_all (row_declared boot_id (num (f_begin f) ''frame'')) (head_rows f) \<and> stage_shape (ls_stage st) f)"

definition advances :: "pystr \<Rightarrow> pystr \<Rightarrow> log_state \<Rightarrow> (kind \<times> row) list \<Rightarrow> log_state \<Rightarrow> bool" where
  "advances boot_id lock st rows t = (reading boot_id lock t \<and> (pending t = pending st @ rows \<and> core t = core st \<or>
     pending t = [] \<and> (\<exists>f. frame_declared boot_id lock f \<and> pending st @ rows = frame_rows f \<and> accept_frame (core st) f = Inr (core t))))"

lemma continue_advances:
  assumes "reading boot_id lock st" and "continue_frame st kind row = Inr t" and "text_of row ''boot_id'' = boot_id"
  shows "advances boot_id lock st [(kind, row)] t"
proof -
  obtain f stage allowed where f: "ls_frame st = Some f" "num row ''frame'' = num (f_begin f) ''frame''"
      "ls_stage st = Some stage" "map_of stage_allows stage = Some allowed" "kind \<in> set allowed"
    using assms(2) by (auto simp: continue_frame_def res_simps split: option.splits Option.bind_splits)
  have r: "begin_declared lock (f_begin f)" "list_all (row_declared boot_id (num (f_begin f) ''frame'')) (head_rows f)" "stage_shape (Some stage) f"
    using assms(1) f by (simp_all add: reading_def)
  have d: "row_declared boot_id (num (f_begin f) ''frame'') (kind, row)"
    using f(2) assms(3) by (simp add: row_declared_def)
  note facts = f r d
  show ?thesis
  proof (cases "kind = END")
    case True
    then have acc: "accept_frame st (f\<lparr>f_end := row\<rparr>) = Inr t" and "stage = DOMAIN"
      using assms(2) f by (auto simp: continue_frame_def stage_allows_def res_simps split: if_splits)
    have "ls_frame t = None"
      using accept_frame_core(2) [OF acc] by (metis core_def log_state.select_convs(8) log_state.surjective log_state.update_convs(8,9))
    moreover have "frame_declared boot_id lock (f\<lparr>f_end := row\<rparr>)"
      using True \<open>stage = DOMAIN\<close> facts by (simp add: frame_declared_def frame_rows_def head_rows_def stage_shape_def)
    moreover have "pending st @ [(kind, row)] = frame_rows (f\<lparr>f_end := row\<rparr>)"
      using True f(1) by (simp add: pending_def frame_rows_def head_rows_def)
    ultimately show ?thesis
      using accept_frame_core [OF acc] by (auto simp: advances_def reading_def pending_def)
  next
    case False
    then have step: "(kind = MQTT \<and> t = st\<lparr>ls_frame := Some (f\<lparr>f_mqtt := Some row\<rparr>), ls_stage := Some REGION\<rparr>) \<or>
        (kind = REGION \<and> t = st\<lparr>ls_frame := Some (f\<lparr>f_regions := f_regions f @ [row]\<rparr>), ls_stage := Some REGION\<rparr>) \<or>
        (kind = TASK \<and> t = st\<lparr>ls_frame := Some (f\<lparr>f_tasks := f_tasks f @ [row]\<rparr>), ls_stage := Some TASK\<rparr>) \<or>
        (kind = DOMAIN \<and> t = st\<lparr>ls_frame := Some (f\<lparr>f_domains := f_domains f @ [row]\<rparr>), ls_stage := Some DOMAIN\<rparr>)"
      using assms(2) f by (cases kind) (simp_all add: continue_frame_def res_simps)
    have "(kind = MQTT \<longrightarrow> stage = MQTT) \<and> (kind = REGION \<longrightarrow> stage = REGION) \<and> (kind = TASK \<longrightarrow> stage = REGION \<or> stage = TASK) \<and>
        (kind = DOMAIN \<longrightarrow> stage = REGION \<or> stage = TASK \<or> stage = DOMAIN)"
      using f(4,5) by (auto simp: stage_allows_def split: if_splits)
    with step facts show ?thesis
      by (elim disjE conjE) (auto simp: advances_def reading_def pending_def head_rows_def stage_shape_def)
  qed
qed

lemma log_row_advances:
  assumes "reading boot_id lock st" and "log_row boot_id lock st (kind, row) = Inr t"
  shows "advances boot_id lock st [(kind, row)] t"
proof (cases "kind = BEGIN")
  case True
  then show ?thesis
    using assms(2) by (auto simp: log_row_def begin_frame_def advances_def reading_def pending_def head_rows_def row_declared_def begin_declared_def
        stage_shape_def res_simps)
next
  case False
  then show ?thesis
    using assms by (intro continue_advances) (auto simp: log_row_def res_simps)
qed

lemma log_line_advances:
  assumes "reading boot_id lock st" and "log_line boot_id lock st raw = Inr t"
  shows "advances boot_id lock st (rows_of [raw]) t \<and> (\<exists>x. parse_line raw = Inr x)"
proof (cases "parse_line raw")
  case (Inr parsed)
  show ?thesis
  proof (cases parsed)
    case None
    then show ?thesis
      using assms Inr by (auto simp: log_line_def rows_of_def advances_def)
  next
    case (Some r)
    then have "log_row boot_id lock st (fst r, snd r) = Inr t"
      using assms(2) Inr by (simp add: log_line_def)
    from log_row_advances [OF assms(1) this] Inr Some show ?thesis
      by (simp add: rows_of_def)
  qed
qed (use assms in \<open>simp add: log_line_def\<close>)

lemma log_lines_frames:
  assumes "for_each (log_line boot_id lock) st lines = Inr t" and "reading boot_id lock st"
  shows "list_all (\<lambda>raw. \<exists>x. parse_line raw = Inr x) lines \<and> (\<exists>fs. for_each accept_frame (core st) fs = Inr (core t) \<and>
    list_all (frame_declared boot_id lock) fs \<and> pending st @ rows_of lines = concat (map frame_rows fs) @ pending t)"
  using assms
proof (induction lines arbitrary: st)
  case Nil
  then show ?case by (auto simp: rows_of_def intro!: exI [of _ "[]"])
next
  case (Cons raw lines)
  then obtain u where u: "log_line boot_id lock st raw = Inr u" and rest: "for_each (log_line boot_id lock) u lines = Inr t"
    by (auto simp: res_simps)
  note step = log_line_advances [OF Cons.prems(2) u]
  have rows: "rows_of (raw # lines) = rows_of [raw] @ rows_of lines"
    by (simp add: rows_of_def)
  have "reading boot_id lock u"
    using step by (simp add: advances_def)
  from Cons.IH [OF rest this] obtain fs where fs: "list_all (\<lambda>raw. \<exists>x. parse_line raw = Inr x) lines" "for_each accept_frame (core u) fs = Inr (core t)"
      "list_all (frame_declared boot_id lock) fs" "pending u @ rows_of lines = concat (map frame_rows fs) @ pending t"
    by blast
  from step consider "pending u = pending st @ rows_of [raw]" "core u = core st"
    | f where "pending u = []" "frame_declared boot_id lock f" "pending st @ rows_of [raw] = frame_rows f" "accept_frame (core st) f = Inr (core u)"
    unfolding advances_def by blast
  then have "\<exists>fs. for_each accept_frame (core st) fs = Inr (core t) \<and> list_all (frame_declared boot_id lock) fs \<and>
      pending st @ rows_of (raw # lines) = concat (map frame_rows fs) @ pending t"
  proof cases
    case 1
    with fs rows show ?thesis by (intro exI [of _ fs]) simp
  next
    case 2
    then have "pending st @ rows_of (raw # lines) = frame_rows f @ pending u @ rows_of lines"
      using rows by (metis append.assoc append_Nil)
    with 2 fs show ?thesis by (intro exI [of _ "f # fs"]) simp
  qed
  with fs(1) step show ?case by simp
qed

text \<open>A file that was read to its end: a regular file, unchanged, whose capacity lines are those of whole frames.\<close>

definition holds_frames :: "log_file \<Rightarrow> frame list \<Rightarrow> bool" where
  "holds_frames file fs = (lf_regular file \<and> lf_initial file = lf_final file \<and>
     list_all (\<lambda>raw. \<exists>x. parse_line raw = Inr x) (file_lines (lf_bytes file)) \<and>
     rows_of (file_lines (lf_bytes file)) = concat (map frame_rows fs))"

definition input_of :: "log_file \<Rightarrow> pystr \<times> int" where
  "input_of file = (hex (sha256 (lf_bytes file)), int (length (lf_bytes file)))"

lemma read_log_frames:
  assumes "read_log boot_id lock (st, ins) file = Inr (t, outs)"
  shows "outs = ins @ [input_of file] \<and> (\<exists>fs. for_each accept_frame (core st) fs = Inr (core t) \<and>
    list_all (frame_declared boot_id lock) fs \<and> holds_frames file fs)"
proof -
  have run: "for_each (log_line boot_id lock) (st\<lparr>ls_frame := None, ls_stage := None\<rparr>) (file_lines (lf_bytes file)) = Inr t"
    and ends: "ls_frame t = None" "lf_regular file" "lf_initial file = lf_final file" "outs = ins @ [input_of file]"
    using assms by (auto simp: read_log_def input_of_def res_simps)
  have "reading boot_id lock (st\<lparr>ls_frame := None, ls_stage := None\<rparr>)"
    by (simp add: reading_def)
  from log_lines_frames [OF run this] ends show ?thesis
    by (simp add: holds_frames_def pending_def)
qed

lemma log_files_frames:
  assumes "for_each (read_log boot_id lock) (st, ins) files = Inr (t, outs)"
  shows "outs = ins @ map input_of files \<and> (\<exists>fss. for_each accept_frame (core st) (concat fss) = Inr (core t) \<and>
    list_all (frame_declared boot_id lock) (concat fss) \<and> list_all2 holds_frames files fss)"
  using assms
proof (induction files arbitrary: st ins)
  case Nil
  then show ?case by (auto intro!: exI [of _ "[]"])
next
  case (Cons f files)
  then obtain u ins' where f: "read_log boot_id lock (st, ins) f = Inr (u, ins')"
    and rest: "for_each (read_log boot_id lock) (u, ins') files = Inr (t, outs)"
    by (auto simp: res_simps)
  obtain fs where fs: "ins' = ins @ [input_of f]" "for_each accept_frame (core st) fs = Inr (core u)"
      "list_all (frame_declared boot_id lock) fs" "holds_frames f fs"
    using read_log_frames [OF f] by blast
  obtain fss where "outs = ins' @ map input_of files" "for_each accept_frame (core u) (concat fss) = Inr (core t)"
      "list_all (frame_declared boot_id lock) (concat fss)" "list_all2 holds_frames files fss"
    using Cons.IH [OF rest] by blast
  with fs show ?case
    by (intro conjI exI [of _ "fs # fss"]) (simp_all add: for_each_append)
qed

subsection \<open>History over a sequence of frames\<close>

text \<open>
  A law of consecutive elements that implies a transitive relation holds, as that relation, between any
  two elements of a chain.
\<close>

locale chained =
  fixes linked :: "'a \<Rightarrow> 'a \<Rightarrow> bool" and later :: "'a \<Rightarrow> 'a \<Rightarrow> bool"
  assumes later_trans: "later a b \<Longrightarrow> later b c \<Longrightarrow> later a c"
    and linked_later: "linked a b \<Longrightarrow> later a b"
begin

lemma chain_sorted: "successively linked xs \<Longrightarrow> sorted_wrt later xs"
proof (induction xs rule: induct_list012)
  case (3 x y zs)
  then have "sorted_wrt later (y # zs)" "later x y"
    by (auto intro: linked_later)
  then show ?case
    by (auto intro: later_trans)
qed simp_all

lemma chain_nth: "successively linked xs \<Longrightarrow> i < j \<Longrightarrow> j < length xs \<Longrightarrow> later (xs ! i) (xs ! j)"
  using chain_sorted by (simp add: sorted_wrt_iff_nth_less)

end

definition readout_linked :: "frame \<Rightarrow> frame \<Rightarrow> bool" where
  "readout_linked a b = (finish a = Inr a \<and> finish b = Inr b \<and> check_readout_history a b = Inr ())"

definition readout_later :: "frame \<Rightarrow> frame \<Rightarrow> bool" where
  "readout_later a b = (num (f_begin a) ''uptime_ms'' < num (f_begin b) ''uptime_ms'' \<and>
     (\<forall>caps. free_bound (f_regions b) caps \<le> free_bound (f_regions a) caps \<and>
             largest_bound (f_regions b) caps \<le> largest_bound (f_regions a) caps))"

interpretation readouts: chained readout_linked readout_later
proof
  show "readout_linked a b \<Longrightarrow> readout_later a b" for a b
    using domain_bounds_fall [of a b a b]
    by (auto simp: readout_linked_def readout_later_def check_readout_history_def Let_def res_simps)
  show "readout_later a b \<Longrightarrow> readout_later b c \<Longrightarrow> readout_later a c" for a b c
    unfolding readout_later_def by (meson less_trans order_trans)
qed

definition complete_linked :: "frame \<Rightarrow> frame \<Rightarrow> bool" where
  "complete_linked a b = (\<exists>seen retired r. check_complete_task_history a b seen retired = Inr r)"

definition complete_later :: "frame \<Rightarrow> frame \<Rightarrow> bool" where
  "complete_later a b = (num (f_end b) ''minimum_stack_bytes'' \<le> num (f_end a) ''minimum_stack_bytes'')"

interpretation snapshots: chained complete_linked complete_later
  by unfold_locales (auto simp: complete_linked_def complete_later_def check_complete_task_history_def Let_def res_simps)

definition is_complete :: "frame \<Rightarrow> bool" where
  "is_complete frame = (num (f_end frame) ''task_snapshot_complete'' \<noteq> 0)"

definition last_opt :: "'a list \<Rightarrow> 'a option" where
  "last_opt xs = (if xs = [] then None else Some (last xs))"

lemma last_opt_snoc [simp]: "last_opt (xs @ [x]) = Some x" "last_opt [] = None"
  by (simp_all add: last_opt_def)

lemma successively_snoc: "successively R (xs @ [x]) \<longleftrightarrow> successively R xs \<and> (\<forall>y. last_opt xs = Some y \<longrightarrow> R y x)"
  by (auto simp: successively_append_iff last_opt_def)

lemma accept_frame_facts:
  assumes "accept_frame st f = Inr t"
  obtains s where "finish f = Inr f" "summarize f = Inr s" "ls_frames t = ls_frames st @ [s]" "ls_previous t = Some f"
    "\<forall>p. ls_previous st = Some p \<longrightarrow> check_readout_history p f = Inr ()"
  by (rule accept_frameE [OF assms], rule that) (auto simp: accept_complete_frames)

lemma accept_frame_incomplete:
  assumes "accept_frame st f = Inr t" "\<not> is_complete f"
  shows "ls_previous_complete t = ls_previous_complete st" "ls_retired st \<subseteq> ls_retired t"
  by (rule accept_frame_snapshot [OF assms(1)], use assms(2) in \<open>auto simp: accept_complete_def is_complete_def\<close>)+

lemma complete_history_retired:
  "check_complete_task_history p f seen retired = Inr r \<Longrightarrow> r = retired \<union> (instance_ids p - instance_ids f)"
  by (auto simp: check_complete_task_history_def Let_def res_simps)

lemma accept_frame_complete:
  assumes a: "accept_frame st f = Inr t" and c: "is_complete f"
  shows "ls_previous_complete t = Some f"
    "\<forall>p. ls_previous_complete st = Some p \<longrightarrow> complete_linked p f"
    "instance_ids f \<inter> ls_retired st = {}"
    "ls_retired st \<subseteq> ls_retired t"
    "\<forall>p. ls_previous_complete st = Some p \<longrightarrow> instance_ids p - instance_ids f \<subseteq> ls_retired t"
proof -
  obtain m w u where acc: "accept_complete f (st\<lparr>ls_previous_mqtt := m, ls_name_width := w\<rparr>) = Inr u"
    and t: "ls_previous_complete t = ls_previous_complete u" "ls_retired u \<subseteq> ls_retired t"
    by (rule accept_frame_snapshot [OF a])
  obtain r where r: "(case ls_previous_complete st of None \<Rightarrow> Inr (ls_retired st)
       | Some previous \<Rightarrow> check_complete_task_history previous f (ls_seen st) (ls_retired st)) = Inr r"
    and fresh: "\<not> list_ex (\<lambda>task. num task ''instance'' \<in> r) (f_tasks f)"
    and u: "ls_previous_complete u = Some f" "ls_retired u = r"
    using acc c by (cases "ls_previous_complete st") (auto simp: accept_complete_def is_complete_def res_simps)
  have sub: "ls_retired st \<subseteq> r"
    using r by (auto split: option.splits dest: complete_history_retired)
  show "ls_previous_complete t = Some f" "ls_retired st \<subseteq> ls_retired t"
    using t u sub by auto
  show "\<forall>p. ls_previous_complete st = Some p \<longrightarrow> complete_linked p f"
    using r unfolding complete_linked_def by auto blast
  show "instance_ids f \<inter> ls_retired st = {}"
    using fresh sub by (auto simp: list_ex_iff instance_ids_def)
  show "\<forall>p. ls_previous_complete st = Some p \<longrightarrow> instance_ids p - instance_ids f \<subseteq> ls_retired t"
  proof (intro allI impI)
    fix p
    assume "ls_previous_complete st = Some p"
    with r have "r = ls_retired st \<union> (instance_ids p - instance_ids f)"
      by (intro complete_history_retired) simp
    then show "instance_ids p - instance_ids f \<subseteq> ls_retired t"
      using t(2) u(2) by blast
  qed
qed

definition retired_covers :: "frame list \<Rightarrow> int set \<Rightarrow> bool" where
  "retired_covers cs retired = (\<forall>i j. i < j \<and> j < length cs \<longrightarrow> instance_ids (cs ! i) - instance_ids (cs ! j) \<subseteq> retired)"

definition never_returns :: "frame list \<Rightarrow> bool" where
  "never_returns cs = (\<forall>i j k. i < j \<and> j < k \<and> k < length cs \<longrightarrow>
     (instance_ids (cs ! i) - instance_ids (cs ! j)) \<inter> instance_ids (cs ! k) = {})"

definition frames_inv :: "frame list \<Rightarrow> log_state \<Rightarrow> bool" where
  "frames_inv fs st =
     (list_all2 (\<lambda>f s. finish f = Inr f \<and> summarize f = Inr s) fs (ls_frames st) \<and>
      ls_previous st = last_opt fs \<and> successively readout_linked fs \<and>
      ls_previous_complete st = last_opt (filter is_complete fs) \<and> successively complete_linked (filter is_complete fs) \<and>
      retired_covers (filter is_complete fs) (ls_retired st) \<and> never_returns (filter is_complete fs))"

lemma retired_covers_mono: "retired_covers cs r \<Longrightarrow> r \<subseteq> r' \<Longrightarrow> retired_covers cs r'"
  unfolding retired_covers_def by blast

lemma retired_covers_snoc:
  assumes "retired_covers cs r" "\<forall>p. last_opt cs = Some p \<longrightarrow> instance_ids p - instance_ids f \<subseteq> r"
  shows "retired_covers (cs @ [f]) r"
  unfolding retired_covers_def
proof (intro allI impI subsetI)
  fix i j x
  assume ij: "i < j \<and> j < length (cs @ [f])" and x: "x \<in> instance_ids ((cs @ [f]) ! i) - instance_ids ((cs @ [f]) ! j)"
  show "x \<in> r"
  proof (cases "j < length cs")
    case True
    then show ?thesis
      using assms(1) ij x by (auto simp: retired_covers_def nth_append)
  next
    case False
    with ij have j: "j = length cs" and i: "i < length cs" and l: "last_opt cs = Some (cs ! (length cs - 1))"
      by (auto simp: last_opt_def last_conv_nth)
    have xf: "x \<in> instance_ids (cs ! i)" "x \<notin> instance_ids f"
      using x i j by (simp_all add: nth_append)
    show ?thesis
    proof (cases "x \<in> instance_ids (cs ! (length cs - 1))")
      case True
      with l xf assms(2) show ?thesis by auto
    next
      case False
      with xf have "i \<noteq> length cs - 1" by auto
      with i have "i < length cs - 1" "length cs - 1 < length cs" by auto
      then have "instance_ids (cs ! i) - instance_ids (cs ! (length cs - 1)) \<subseteq> r"
        using assms(1) unfolding retired_covers_def by blast
      with False xf show ?thesis by blast
    qed
  qed
qed

lemma never_returns_snoc:
  assumes "never_returns cs" "retired_covers cs r" "instance_ids f \<inter> r = {}"
  shows "never_returns (cs @ [f])"
  unfolding never_returns_def
proof (intro allI impI)
  fix i j k
  assume ijk: "i < j \<and> j < k \<and> k < length (cs @ [f])"
  show "(instance_ids ((cs @ [f]) ! i) - instance_ids ((cs @ [f]) ! j)) \<inter> instance_ids ((cs @ [f]) ! k) = {}"
  proof (cases "k < length cs")
    case True
    then show ?thesis
      using assms(1) ijk by (auto simp: never_returns_def nth_append)
  next
    case False
    then have "k = length cs" "i < j" "j < length cs" using ijk by auto
    moreover from this have "instance_ids (cs ! i) - instance_ids (cs ! j) \<subseteq> r"
      using assms(2) by (auto simp: retired_covers_def)
    ultimately show ?thesis
      using assms(3) by (auto simp: nth_append)
  qed
qed

lemma last_opt_in: "last_opt xs = Some x \<Longrightarrow> x \<in> set xs"
  by (auto simp: last_opt_def split: if_splits)

lemma list_all2_left: "list_all2 (\<lambda>x y. P x \<and> Q x y) xs ys \<Longrightarrow> x \<in> set xs \<Longrightarrow> P x"
  by (induction xs ys rule: list_all2_induct) auto

lemma frames_inv_step:
  assumes inv: "frames_inv fs st" and a: "accept_frame st f = Inr t"
  shows "frames_inv (fs @ [f]) t"
proof -
  obtain s where f: "finish f = Inr f" "summarize f = Inr s" "ls_frames t = ls_frames st @ [s]" "ls_previous t = Some f"
    and h: "\<forall>p. ls_previous st = Some p \<longrightarrow> check_readout_history p f = Inr ()"
    using accept_frame_facts [OF a] by metis
  have "\<forall>p. last_opt fs = Some p \<longrightarrow> readout_linked p f"
    using inv h f(1) by (auto simp: frames_inv_def readout_linked_def dest: list_all2_left last_opt_in)
  then have base: "list_all2 (\<lambda>f s. finish f = Inr f \<and> summarize f = Inr s) (fs @ [f]) (ls_frames t)"
    "ls_previous t = last_opt (fs @ [f])" "successively readout_linked (fs @ [f])"
    using inv f by (auto simp: frames_inv_def list_all2_appendI successively_snoc)
  show ?thesis
  proof (cases "is_complete f")
    case True
    note c = accept_frame_complete [OF a True]
    let ?cs = "filter is_complete fs"
    have "retired_covers (?cs @ [f]) (ls_retired t)"
      using inv c(4,5) by (intro retired_covers_snoc) (auto simp: frames_inv_def intro: retired_covers_mono)
    moreover have "never_returns (?cs @ [f])"
      using inv c(3) by (intro never_returns_snoc) (auto simp: frames_inv_def)
    ultimately show ?thesis
      using base inv c(1,2) True by (auto simp: frames_inv_def successively_snoc)
  next
    case False
    then show ?thesis
      using base inv accept_frame_incomplete [OF a False] by (auto simp: frames_inv_def intro: retired_covers_mono)
  qed
qed

lemma frames_inv_run:
  assumes "for_each accept_frame log_start fs = Inr st"
  shows "frames_inv fs st"
  using assms
proof (rule for_each_inv)
  show "frames_inv [] log_start"
    by (simp add: frames_inv_def log_start_def retired_covers_def never_returns_def)
qed (blast intro: frames_inv_step)

lemma report_of_facts:
  assumes "report_of target boot_id lock xs ins = Inr r"
  shows "cr_frames r = xs" "cr_inputs r = ins" "xs \<noteq> []"
    "cr_proved_until_begin_uptime_ms r = map_option s_begin_uptime_ms (last_complete xs)"
    "cr_numeric_gates_passed r \<longleftrightarrow> (\<exists>s. last_complete xs = Some s \<and> HEAP_GATE_BYTES \<le> s_minimum_free_lower_bound_bytes s \<and>
       LARGEST_GATE_BYTES \<le> s_largest_request_lower_bound_bytes s \<and>
       (\<exists>n. s_minimum_stack_bytes s = Some n \<and> STACK_GATE_BYTES \<le> n))"
  using assms by (auto simp: report_of_def numeric_gates_def Let_def res_simps split: option.splits)

lemma analyze_frames:
  assumes "analyze files target boot_id lock = Inr r"
  shows "\<exists>fss st. for_each accept_frame log_start (concat fss) = Inr st \<and> cr_frames r = ls_frames st \<and>
    list_all (frame_declared boot_id lock) (concat fss) \<and> list_all2 holds_frames files fss \<and>
    report_of target boot_id lock (ls_frames st) (map input_of files) = Inr r"
proof -
  obtain st ins where st: "log_files boot_id lock files = Inr (st, ins)"
    and r: "report_of target boot_id lock (ls_frames st) ins = Inr r"
    using assms by (auto simp: analyze_def res_simps)
  from log_files_frames [OF st [unfolded log_files_def]] r report_of_facts(1) [OF r] show ?thesis
    by (auto intro!: exI [of _ "core st"])
qed

lemma analyze_run:
  assumes "analyze files target boot_id lock = Inr r"
  obtains fs st where "for_each accept_frame log_start fs = Inr st" "cr_frames r = ls_frames st"
    "report_of target boot_id lock (ls_frames st) (cr_inputs r) = Inr r" "cr_frames r \<noteq> []"
  using analyze_frames [OF assms] report_of_facts(1-3) by metis

text \<open>
  C19: the analysis of raw logs refines a run over whole frames, and these are the frames of the logs.  When a set of logs is accepted,
  every log is a regular file that did not change, each of its lines is either no capacity line or a well-formed row, and these
  rows, in their order, are exactly those of a sequence of frames: BEGIN, the MQTT row in schema 2, regions, tasks, domains, END, none left open, none
  nested.  Every row names the boot and the number of its frame, every BEGIN the SDK and a known phase.  Over all logs, the frames are
  consistent by themselves, the checks of the history accept them one after the other from the initial state, and the report has
  the summary of each and the digest and size of every log.
\<close>

theorem log_refines_frames:
  assumes "analyze files target boot_id lock = Inr r"
  shows "\<exists>fss st. list_all2 holds_frames files fss \<and> list_all (frame_declared boot_id lock) (concat fss) \<and>
    for_each accept_frame log_start (concat fss) = Inr st \<and> ls_frames st = cr_frames r \<and>
    list_all2 (\<lambda>f s. finish f = Inr f \<and> summarize f = Inr s) (concat fss) (cr_frames r) \<and> cr_inputs r = map input_of files"
proof -
  obtain fss st where run: "for_each accept_frame log_start (concat fss) = Inr st" "cr_frames r = ls_frames st"
      "list_all (frame_declared boot_id lock) (concat fss)" "list_all2 holds_frames files fss"
      "report_of target boot_id lock (ls_frames st) (map input_of files) = Inr r"
    using analyze_frames [OF assms] by blast
  show ?thesis
    using run frames_inv_run [OF run(1)] report_of_facts(2) [OF run(5)]
    by (intro exI [of _ fss] exI [of _ st]) (simp add: frames_inv_def)
qed

text \<open>
  C22: a task instance that has once disappeared from a complete snapshot never comes back.  For
  three complete snapshots of an accepted sequence of frames, in this order, no instance is in the
  first and the third but not in the second.
\<close>

theorem retired_tasks_never_return:
  assumes "for_each accept_frame log_start fs = Inr st"
    and "i < j" and "j < k" and "k < length (filter is_complete fs)"
  shows "instance_ids (filter is_complete fs ! i) \<inter> instance_ids (filter is_complete fs ! k)
    \<subseteq> instance_ids (filter is_complete fs ! j)"
proof -
  have "never_returns (filter is_complete fs)"
    using frames_inv_run [OF assms(1)] by (simp add: frames_inv_def)
  then show ?thesis
    using assms(2-4) unfolding never_returns_def by blast
qed

lemma summarize_facts:
  assumes "finish f = Inr f" "summarize f = Inr s"
  shows "s_frame s = num (f_begin f) ''frame''" "s_begin_uptime_ms s = num (f_begin f) ''uptime_ms''"
    "s_task_snapshot_complete s = is_complete f"
    "s_minimum_stack_bytes s = (if is_complete f then Some (num (f_end f) ''minimum_stack_bytes'') else None)"
    "s_minimum_free_lower_bound_bytes s = free_bound (f_regions f) INTERNAL_8BIT"
    "s_largest_request_lower_bound_bytes s = largest_bound (f_regions f) INTERNAL_8BIT"
proof -
  obtain d where d: "find (\<lambda>row. num row ''caps'' = INTERNAL_8BIT) (f_domains f) = Some d"
    using assms(2) by (auto simp: summarize_def res_simps)
  then have "d \<in> set (f_domains f)" "num d ''caps'' = INTERNAL_8BIT"
    by (auto simp: find_Some_iff)
  with finish_domain [OF assms(1)] assms(2) d show
    "s_frame s = num (f_begin f) ''frame''" "s_begin_uptime_ms s = num (f_begin f) ''uptime_ms''"
    "s_task_snapshot_complete s = is_complete f"
    "s_minimum_stack_bytes s = (if is_complete f then Some (num (f_end f) ''minimum_stack_bytes'') else None)"
    "s_minimum_free_lower_bound_bytes s = free_bound (f_regions f) INTERNAL_8BIT"
    "s_largest_request_lower_bound_bytes s = largest_bound (f_regions f) INTERNAL_8BIT"
    by (auto simp: summarize_def Let_def is_complete_def)
qed

lemma successively_count:
  "successively (\<lambda>a b. g b = g a + 1) xs \<Longrightarrow> i \<le> j \<Longrightarrow> j < length xs \<Longrightarrow> g (xs ! j) = g (xs ! i) + int (j - i)"
proof (induction j)
  case (Suc j)
  show ?case
  proof (cases "i = Suc j")
    case False
    with Suc have "g (xs ! j) = g (xs ! i) + int (j - i)" "g (xs ! Suc j) = g (xs ! j) + 1"
      by (auto simp: successively_conv_nth)
    with False Suc.prems show ?thesis by simp
  qed simp
qed simp

lemma filter_nth_later:
  assumes "sorted_wrt R (filter P xs)" "i < j" "j < length xs" "P (xs ! i)" "P (xs ! j)"
  shows "R (xs ! i) (xs ! j)"
proof -
  have split: "filter P (take j xs @ xs ! j # drop (Suc j) xs) = filter P (take j xs) @ xs ! j # filter P (drop (Suc j) xs)"
    using assms(5) by simp
  have sorted: "sorted_wrt R (filter P (take j xs) @ xs ! j # filter P (drop (Suc j) xs))"
    using assms(1) unfolding split [symmetric] id_take_nth_drop [OF assms(3), symmetric] .
  have "take j xs ! i \<in> set (take j xs)"
    using assms(2,3) by (intro nth_mem) simp
  then have "xs ! i \<in> set (filter P (take j xs))"
    using assms(2,4) by simp
  then show ?thesis
    using sorted unfolding sorted_wrt_append by simp
qed

lemma history_of_run:
  assumes run: "for_each accept_frame log_start fs = Inr st" and ij: "i < j" "j < length (ls_frames st)"
  defines "a \<equiv> ls_frames st ! i" and "b \<equiv> ls_frames st ! j"
  shows "s_frame b = s_frame a + int (j - i)" "s_begin_uptime_ms a < s_begin_uptime_ms b"
    "s_minimum_free_lower_bound_bytes b \<le> s_minimum_free_lower_bound_bytes a"
    "s_largest_request_lower_bound_bytes b \<le> s_largest_request_lower_bound_bytes a"
    "s_task_snapshot_complete a \<Longrightarrow> s_task_snapshot_complete b \<Longrightarrow>
       the (s_minimum_stack_bytes b) \<le> the (s_minimum_stack_bytes a)"
proof -
  have inv: "list_all2 (\<lambda>f s. finish f = Inr f \<and> summarize f = Inr s) fs (ls_frames st)"
    and chain: "successively readout_linked fs" and comp: "successively complete_linked (filter is_complete fs)"
    using frames_inv_run [OF run] by (simp_all add: frames_inv_def)
  have len: "length fs = length (ls_frames st)"
    using inv by (rule list_all2_lengthD)
  note fa = summarize_facts [of "fs ! i" a] and fb = summarize_facts [of "fs ! j" b]
  have ok: "finish (fs ! i) = Inr (fs ! i)" "summarize (fs ! i) = Inr a" "finish (fs ! j) = Inr (fs ! j)" "summarize (fs ! j) = Inr b"
    using inv ij len by (auto simp: list_all2_conv_all_nth a_def b_def)
  have r: "readout_later (fs ! i) (fs ! j)"
    using readouts.chain_nth [OF chain] ij len by simp
  have "successively (\<lambda>a b. num (f_begin b) ''frame'' = num (f_begin a) ''frame'' + 1) fs"
    using chain by (rule successively_mono)
      (auto simp: readout_linked_def check_readout_history_def Let_def res_simps)
  from successively_count [OF this, of i j] show "s_frame b = s_frame a + int (j - i)"
    using ij len ok fa fb by simp
  show "s_begin_uptime_ms a < s_begin_uptime_ms b"
    "s_minimum_free_lower_bound_bytes b \<le> s_minimum_free_lower_bound_bytes a"
    "s_largest_request_lower_bound_bytes b \<le> s_largest_request_lower_bound_bytes a"
    using r ok fa fb by (simp_all add: readout_later_def)
  assume "s_task_snapshot_complete a" "s_task_snapshot_complete b"
  then have "complete_later (fs ! i) (fs ! j)"
    using filter_nth_later [OF snapshots.chain_sorted [OF comp], of i j] ij len ok fa fb by simp
  then show "the (s_minimum_stack_bytes b) \<le> the (s_minimum_stack_bytes a)"
    using \<open>s_task_snapshot_complete a\<close> \<open>s_task_snapshot_complete b\<close> ok fa fb by (simp add: complete_later_def)
qed

text \<open>
  C21: the reported history of an accepted set of logs is gapless and monotone.  Frame numbers are
  consecutive, uptimes increase strictly, neither lower bound of the internal 8-bit domain rises,
  and the minimum stack of complete snapshots does not rise.
\<close>

theorem capacity_history_monotone:
  assumes "analyze files target boot_id lock = Inr r" and "i < j" and "j < length (cr_frames r)"
  shows "s_frame (cr_frames r ! j) = s_frame (cr_frames r ! i) + int (j - i) \<and>
    s_begin_uptime_ms (cr_frames r ! i) < s_begin_uptime_ms (cr_frames r ! j) \<and>
    s_minimum_free_lower_bound_bytes (cr_frames r ! j) \<le> s_minimum_free_lower_bound_bytes (cr_frames r ! i) \<and>
    s_largest_request_lower_bound_bytes (cr_frames r ! j) \<le> s_largest_request_lower_bound_bytes (cr_frames r ! i) \<and>
    (s_task_snapshot_complete (cr_frames r ! i) \<and> s_task_snapshot_complete (cr_frames r ! j) \<longrightarrow>
       the (s_minimum_stack_bytes (cr_frames r ! j)) \<le> the (s_minimum_stack_bytes (cr_frames r ! i)))"
proof -
  obtain fs st where "for_each accept_frame log_start fs = Inr st" "cr_frames r = ls_frames st"
    by (rule analyze_run [OF assms(1)])
  with history_of_run [of fs st i j] assms(2,3) show ?thesis by simp
qed

lemma last_complete_index:
  assumes "last_complete xs = Some s"
  obtains k where "k < length xs" "xs ! k = s" "s_task_snapshot_complete s"
    "\<forall>i < length xs. s_task_snapshot_complete (xs ! i) \<longrightarrow> i \<le> k"
proof -
  obtain n where n: "n < length xs" "s_task_snapshot_complete (rev xs ! n)" "s = rev xs ! n"
    "\<forall>m < n. \<not> s_task_snapshot_complete (rev xs ! m)"
    using assms by (auto simp: last_complete_def find_Some_iff)
  let ?k = "length xs - Suc n"
  have "i \<le> ?k" if "i < length xs" "s_task_snapshot_complete (xs ! i)" for i
  proof (rule ccontr)
    assume "\<not> i \<le> ?k"
    then have "length xs - Suc i < n" using that(1) n(1) by simp
    moreover have "rev xs ! (length xs - Suc i) = xs ! i"
      using that(1) by (simp add: rev_nth)
    ultimately show False using n(4) that(2) by metis
  qed
  with n show thesis
    by (intro that [of ?k]) (auto simp: rev_nth)
qed

text \<open>
  C20: the gates stand for the whole proved history.  If the numeric gates of a report pass, then some
  snapshot is complete, the proved time is that of the last complete one, every frame up to it (complete or not)
  meets the heap and the largest-block gate, and every complete frame of the report meets the stack gate.  An incomplete frame reports no
  stack figure and is not held to that gate.
\<close>

theorem passed_gates_hold_throughout:
  assumes "analyze files target boot_id lock = Inr r" and "cr_numeric_gates_passed r"
  shows "\<exists>k < length (cr_frames r).
    cr_proved_until_begin_uptime_ms r = Some (s_begin_uptime_ms (cr_frames r ! k)) \<and>
    s_task_snapshot_complete (cr_frames r ! k) \<and>
    (\<forall>i \<le> k. HEAP_GATE_BYTES \<le> s_minimum_free_lower_bound_bytes (cr_frames r ! i) \<and>
       LARGEST_GATE_BYTES \<le> s_largest_request_lower_bound_bytes (cr_frames r ! i)) \<and>
    (\<forall>i < length (cr_frames r). s_task_snapshot_complete (cr_frames r ! i) \<longrightarrow>
       i \<le> k \<and> STACK_GATE_BYTES \<le> the (s_minimum_stack_bytes (cr_frames r ! i)))"
proof -
  obtain fs st where run: "for_each accept_frame log_start fs = Inr st" and fr: "cr_frames r = ls_frames st"
    and rep: "report_of target boot_id lock (ls_frames st) (cr_inputs r) = Inr r"
    by (rule analyze_run [OF assms(1)])
  let ?xs = "ls_frames st"
  from rep assms(2) obtain s where s: "last_complete ?xs = Some s"
    and gates: "HEAP_GATE_BYTES \<le> s_minimum_free_lower_bound_bytes s" "LARGEST_GATE_BYTES \<le> s_largest_request_lower_bound_bytes s"
      "STACK_GATE_BYTES \<le> the (s_minimum_stack_bytes s)"
    and until: "cr_proved_until_begin_uptime_ms r = Some (s_begin_uptime_ms s)"
    using report_of_facts(4,5) [OF rep] by auto
  obtain k where k: "k < length ?xs" "?xs ! k = s" "s_task_snapshot_complete s"
    "\<forall>i < length ?xs. s_task_snapshot_complete (?xs ! i) \<longrightarrow> i \<le> k"
    by (rule last_complete_index [OF s])
  have bounds: "HEAP_GATE_BYTES \<le> s_minimum_free_lower_bound_bytes (?xs ! i) \<and>
      LARGEST_GATE_BYTES \<le> s_largest_request_lower_bound_bytes (?xs ! i)" if "i \<le> k" for i
    using history_of_run(3,4) [OF run, of i k] that k gates(1,2) by (cases "i = k") auto
  have stack: "STACK_GATE_BYTES \<le> the (s_minimum_stack_bytes (?xs ! i))"
    if "i < length ?xs" "s_task_snapshot_complete (?xs ! i)" for i
  proof (cases "i = k")
    case False
    with that k have "i < k" by (metis le_neq_implies_less)
    with history_of_run(5) [OF run, of i k] that k gates(3) show ?thesis by simp
  qed (use k gates in simp)
  show ?thesis
    unfolding fr using k until bounds stack by (intro exI [of _ k]) auto
qed

text \<open>
  Other output on the serial line does not matter.  Lines that do not contain the marker can be
  inserted into or removed from a log without changing the outcome.
\<close>

lemma unrelated_lines_ignored:
  "for_each (log_line boot_id lock) st lines = for_each (log_line boot_id lock) st (filter (contains MARKER) lines)"
proof (induction lines arbitrary: st)
  case (Cons raw lines)
  show ?case
  proof (cases "contains MARKER raw")
    case True
    then show ?thesis
      by (cases "log_line boot_id lock st raw") (simp_all add: Cons.IH)
  next
    case False
    then have "log_line boot_id lock st raw = Inr st"
      by (simp add: log_line_def parse_line_def)
    with False show ?thesis by (simp add: Cons.IH)
  qed
qed simp

subsection \<open>A log of sample frames\<close>

definition sample_rows :: "int \<Rightarrow> (kind \<times> row) list" where
  "sample_rows n = [(BEGIN, sample_begin n), (REGION, sample_region n), (TASK, sample_task n 1), (TASK, sample_task n 2)] @
     map (Pair DOMAIN) (sample_domains n) @ [(END, sample_end n)]"

definition sample_lines :: "int \<Rightarrow> bytes list" where
  "sample_lines n = map (\<lambda>(kind, row). line_of kind row) (sample_rows n)"

definition sample_log :: log_file where
  "sample_log = (let content = concat (sample_lines 1 @ sample_lines 2) in
     \<lparr>lf_regular = True, lf_initial = (int (length content), 7), lf_bytes = content, lf_final = (int (length content), 7)\<rparr>)"

definition sample_summary :: "int \<Rightarrow> summary" where
  "sample_summary n = \<lparr>s_frame = n, s_phase = str ''periodic'', s_begin_uptime_ms = 5000 * n,
     s_proved_until_begin_uptime_ms = Some (5000 * n), s_task_snapshot_complete = True, s_task_snapshot_issue = None,
     s_regions = 1, s_allocated_tasks = 2, s_created_instances = 2, s_finalized_instances = 0,
     s_minimum_free_lower_bound_bytes = 40000 - n, s_largest_request_lower_bound_bytes = 30000 - n,
     s_minimum_stack_bytes = Some (2001 - n), s_reported_minimum_stack_bytes = 2001 - n,
     s_domains = map (\<lambda>row. (num row ''caps'', num row ''alignment_bytes'', num row ''minimum_free_lower_bound_bytes'',
       num row ''largest_request_lower_bound_bytes'')) (sample_domains n), s_mqtt_observation = None\<rparr>"

definition sample_state :: "summary list \<Rightarrow> int \<Rightarrow> log_state" where
  "sample_state frames n = \<lparr>ls_frames = frames, ls_seen = [(1, sample_task n 1), (2, sample_task n 2)], ls_retired = {},
     ls_previous = Some (sample_frame n), ls_previous_complete = Some (sample_frame n), ls_previous_mqtt = None,
     ls_name_width = Some 4, ls_frame = None, ls_stage = None\<rparr>"

lemma sample_facts:
  "f_mqtt (sample_frame n) = None" "f_tasks (sample_frame n) = [sample_task n 1, sample_task n 2]"
  "num (f_end (sample_frame n)) ''task_snapshot_complete'' = 1" "num (f_end (sample_frame n)) ''finalized_instances'' = 0"
  "num (sample_task n i) ''instance'' = i" "text_of (sample_task n i) ''name_hex'' = str ''6d61''"
  by (simp_all add: sample_frame_def sample_end_def sample_task_def num_def text_of_def)

lemma sample_summarize: "summarize (sample_frame n) = Inr (sample_summary n)"
proof -
  have "num (sample_domain n 0x804 True) ''caps'' = INTERNAL_8BIT"
    by (simp add: sample_domain_def num_def INTERNAL_8BIT_def)
  then have "find (\<lambda>row. num row ''caps'' = INTERNAL_8BIT) (sample_domains n) = Some (sample_domain n 0x804 True)"
    by (simp add: sample_domains_def)
  moreover have "num (sample_domain n 0x804 True) ''minimum_free_lower_bound_bytes'' = 40000 - n"
    "num (sample_domain n 0x804 True) ''largest_request_lower_bound_bytes'' = 30000 - n"
    by (simp_all add: sample_domain_def num_def)
  moreover have "num (sample_begin n) ''frame'' = n" "text_of (sample_begin n) ''phase'' = str ''periodic''"
    "num (sample_begin n) ''uptime_ms'' = 5000 * n" "num (sample_end n) ''task_snapshot_complete'' = 1"
    "num (sample_end n) ''created_instances'' = 2" "num (sample_end n) ''finalized_instances'' = 0"
    "num (sample_end n) ''minimum_stack_bytes'' = 2001 - n"
    by (simp_all add: sample_begin_def sample_end_def num_def text_of_def)
  ultimately show ?thesis
    by (simp add: summarize_def sample_frame_def sample_summary_def Let_def)
qed

lemma accept_sample_first:
  "accept_frame (log_start\<lparr>ls_frame := a, ls_stage := b\<rparr>) (sample_frame 1) = Inr (sample_state [sample_summary 1] 1)"
  by (simp add: accept_frame_def finish_sample check_mqtt_history_def sample_facts accept_width_def accept_complete_def
      log_start_def dict_def sample_summarize sample_state_def Let_def)

lemma accept_sample_next:
  assumes "0 < n" "n < 999"
  shows "accept_frame ((sample_state frames n)\<lparr>ls_frame := a, ls_stage := b\<rparr>) (sample_frame (n + 1))
    = Inr (sample_state (frames @ [sample_summary (n + 1)]) (n + 1))"
  using assms
  by (simp add: accept_frame_def finish_sample check_mqtt_history_def sample_facts accept_width_def accept_complete_def
      sample_history sample_task_history dict_def sample_summarize sample_state_def Let_def)

lemma sample_closed:
  "log_start\<lparr>ls_frame := None, ls_stage := None\<rparr> = log_start"
  "(sample_state frames n)\<lparr>ls_frame := None, ls_stage := None\<rparr> = sample_state frames n"
  by (simp_all add: log_start_def sample_state_def)

lemma sample_frames_run:
  "for_each accept_frame log_start [sample_frame 1, sample_frame 2, sample_frame 3] =
     Inr (sample_state [sample_summary 1, sample_summary 2, sample_summary 3] 3)"
  using accept_sample_first [of None None] accept_sample_next [where n = 1 and a = None and b = None] accept_sample_next [where n = 2 and a = None and b = None]
  by (simp add: sample_closed)

theorem retired_tasks_never_return_witness:
  "length (filter is_complete [sample_frame 1, sample_frame 2, sample_frame 3]) = 3 \<and>
   instance_ids (sample_frame 1) \<inter> instance_ids (sample_frame 3) \<subseteq> instance_ids (sample_frame 2)"
proof -
  have c: "filter is_complete [sample_frame 1, sample_frame 2, sample_frame 3] = [sample_frame 1, sample_frame 2, sample_frame 3]"
    by (simp add: is_complete_def sample_facts)
  show ?thesis
    using retired_tasks_never_return [OF sample_frames_run, of 0 1 2] unfolding c by simp
qed

lemma sample_frame_num:
  "num (sample_begin n) ''frame'' = n" "num (sample_region n) ''frame'' = n" "num (sample_task n i) ''frame'' = n"
  "num (sample_domain n c p) ''frame'' = n" "num (sample_end n) ''frame'' = n"
  "text_of (sample_begin n) ''boot_id'' = sample_boot" "text_of (sample_region n) ''boot_id'' = sample_boot"
  "text_of (sample_task n i) ''boot_id'' = sample_boot" "text_of (sample_domain n c p) ''boot_id'' = sample_boot"
  "text_of (sample_end n) ''boot_id'' = sample_boot"
  by (simp_all add: sample_begin_def sample_region_def sample_task_def sample_domain_def sample_end_def num_def text_of_def)

lemma sample_rows_run:
  assumes "0 < n" "n < 1000" "ls_frame st = None"
  shows "\<exists>a b. for_each (log_row sample_boot sample_lock) st (sample_rows n)
    = accept_frame (st\<lparr>ls_frame := a, ls_stage := b\<rparr>) (sample_frame n)"
proof -
  have b: "num (sample_begin n) ''schema'' = 1" "text_of (sample_begin n) ''sdk_lock_sha256'' = sample_lock"
    "text_of (sample_begin n) ''phase'' = str ''periodic''"
    by (simp_all add: sample_begin_def num_def text_of_def)
  show ?thesis
    using assms
    by (intro exI [of _ "Some ((sample_frame n)\<lparr>f_end := []\<rparr>)"] exI [of _ "Some DOMAIN"])
      (simp add: sample_rows_def sample_domains_def log_row_def begin_frame_def continue_frame_def stage_allows_def b sample_frame_num
        UINT32_MAX_def sample_frame_def bindE_def [of "accept_frame _ _"] split: sum.splits)
qed

definition spelled :: "kind \<times> row \<Rightarrow> bool" where
  "spelled = (\<lambda>(kind, row). row_typed kind row \<and> plain_texts row \<and> ends_plain row \<and> 10 \<notin> set (render kind row) \<and>
     length (render kind row) < 4096)"

lemma log_lines_rows:
  "list_all spelled rows \<Longrightarrow>
   for_each (log_line boot_id lock) st (map (\<lambda>(kind, row). line_of kind row) rows) = for_each (log_row boot_id lock) st rows"
proof (induction rows arbitrary: st)
  case (Cons r rows)
  obtain kind row where r: "r = (kind, row)" by (cases r)
  have "log_line boot_id lock st (line_of kind row) = log_row boot_id lock st r"
    using Cons.prems by (simp add: log_line_def spelled_def r parse_line_of)
  with Cons show ?case
    by (cases "log_row boot_id lock st r") (simp_all add: r)
qed simp

lemma spelled_lines:
  assumes "spelled (kind, row)"
  shows "\<exists>body. line_of kind row = body @ [10] \<and> 10 \<notin> set body"
proof -
  have "word_of_nat c \<noteq> (10 :: 8 word)" if "c \<in> set (render kind row)" for c
  proof
    assume "word_of_nat c = (10 :: 8 word)"
    moreover have "c < 128"
      using that render_ascii [of kind row] assms by (auto simp: spelled_def list_all_iff)
    ultimately have "c = 10"
      using unat_byte_of_nat [of c] by simp
    with that assms show False by (simp add: spelled_def)
  qed
  then have "10 \<notin> set (map word_of_nat (render kind row) :: bytes)"
    by auto
  then show ?thesis
    by (auto simp: line_of_def)
qed

lemma render_no_newline:
  assumes "row_typed kind row" "list_all (\<lambda>(key, f). case f of Text t \<Rightarrow> 10 \<notin> set t | Num _ \<Rightarrow> True) row"
  shows "10 \<notin> set (render kind row)"
proof -
  have names: "10 \<notin> set (str (kind_name kind))" "list_all (\<lambda>key. 10 \<notin> set (str key)) (FIELDS kind)"
    by (cases kind; simp add: str_def)+
  have "10 \<notin> set (render_part (key, f))" if kf: "(key, f) \<in> set row" for key f
  proof -
    have "key \<in> set (map fst row)" using kf by force
    then have "key \<in> set (FIELDS kind)"
      using assms(1) by (simp only: row_typed_def)
    then have "10 \<notin> set (str key)"
      using names(2) by (simp add: list_all_iff)
    moreover have "10 \<notin> set (render_field key f)"
      using assms(2) kf by (auto simp: render_field_def list_all_iff is_digit_def is_lower_hex_def
          dest!: decimal_plain hex_digits_lower split: field.splits)
    ultimately show ?thesis
      by (simp add: render_part_def)
  qed
  then show ?thesis
    using names(1) by (auto simp: render_def str_def)
qed

lemma spelledI:
  assumes "row_typed kind row" "plain_texts row" "ends_plain row"
    and "list_all (\<lambda>(key, f). case f of Text t \<Rightarrow> 10 \<notin> set t | Num _ \<Rightarrow> True) row" "sum_list (map field_width row) < 4000"
  shows "spelled (kind, row)"
  using assms render_length [OF assms(1)] render_no_newline [OF assms(1,4)] by (simp add: spelled_def)

lemma sample_rows_spelled:
  assumes "0 < n" "n < 1000"
  shows "list_all spelled (sample_rows n)"
proof -
  have texts: "plain_text sample_boot" "plain_text sample_lock" "10 \<notin> set sample_boot" "10 \<notin> set sample_lock"
    "length sample_boot = 36" "length sample_lock = 64"
    by (simp_all add: plain_text_def sample_boot_def sample_lock_def str_def list_all_iff)
  note facts = plain_texts_def ends_plain_def render_field_def last_decimal [simplified] field_width_def texts HEX_FIELDS_def
  have "spelled (BEGIN, sample_begin n)"
    by (rule spelledI) (use assms in \<open>simp_all add: sample_begin_def row_typed_simps facts, simp_all add: plain_text_def str_def\<close>)
  moreover have "spelled (REGION, sample_region n)"
    by (rule spelledI) (use assms in \<open>simp_all add: sample_region_def row_typed_simps facts\<close>)
  moreover have "spelled (TASK, sample_task n 1)" "spelled (TASK, sample_task n 2)"
    by (rule spelledI; use assms in \<open>simp add: sample_task_def row_typed_simps facts; simp add: plain_text_def str_def\<close>)+
  moreover have "spelled (DOMAIN, sample_domain n caps p)" if "0 \<le> caps" "caps < 0x10000" for caps p
    by (rule spelledI; use assms that in \<open>simp add: sample_domain_def row_typed_simps facts; simp add: plain_text_def str_def\<close>)
  moreover have "spelled (END, sample_end n)"
    by (rule spelledI) (use assms in \<open>simp_all add: sample_end_def row_typed_simps facts\<close>)
  ultimately show ?thesis
    by (simp add: sample_rows_def sample_domains_def)
qed

lemma sample_log_run:
  "log_files sample_boot sample_lock [sample_log] =
     Inr (sample_state [sample_summary 1, sample_summary 2] 2, [(hex (sha256 (lf_bytes sample_log)), int (length (lf_bytes sample_log)))])"
proof -
  let ?rows = "sample_rows 1 @ sample_rows 2"
  have sp: "list_all spelled ?rows"
    by (simp add: sample_rows_spelled)
  have bytes: "lf_bytes sample_log = concat (map (\<lambda>(kind, row). line_of kind row) ?rows)"
    by (simp add: sample_log_def sample_lines_def Let_def)
  have "list_all (\<lambda>l. \<exists>body. l = body @ [10] \<and> 10 \<notin> set body) (map (\<lambda>(kind, row). line_of kind row) ?rows)"
    using sp spelled_lines unfolding list_all_iff by auto
  then have lines: "file_lines (lf_bytes sample_log) = map (\<lambda>(kind, row). line_of kind row) ?rows"
    unfolding bytes by (rule file_lines_concat)
  obtain a b where "for_each (log_row sample_boot sample_lock) log_start (sample_rows 1)
      = accept_frame (log_start\<lparr>ls_frame := a, ls_stage := b\<rparr>) (sample_frame 1)"
    using sample_rows_run [of 1 log_start] by (auto simp: log_start_def)
  then have one: "for_each (log_row sample_boot sample_lock) log_start (sample_rows 1) = Inr (sample_state [sample_summary 1] 1)"
    by (simp add: accept_sample_first)
  obtain a b where "for_each (log_row sample_boot sample_lock) (sample_state [sample_summary 1] 1) (sample_rows 2)
      = accept_frame ((sample_state [sample_summary 1] 1)\<lparr>ls_frame := a, ls_stage := b\<rparr>) (sample_frame 2)"
    using sample_rows_run [of 2 "sample_state [sample_summary 1] 1"] by (auto simp: sample_state_def)
  then have two: "for_each (log_row sample_boot sample_lock) (sample_state [sample_summary 1] 1) (sample_rows 2)
      = Inr (sample_state [sample_summary 1, sample_summary 2] 2)"
    using accept_sample_next [where n = 1] by simp
  have "for_each (log_line sample_boot sample_lock) log_start (file_lines (lf_bytes sample_log))
      = Inr (sample_state [sample_summary 1, sample_summary 2] 2)"
    unfolding lines log_lines_rows [OF sp] for_each_append one bindE_Inr two ..
  moreover have "lf_regular sample_log" "lf_initial sample_log = lf_final sample_log"
    "fst (lf_initial sample_log) = int (length (lf_bytes sample_log))"
    by (simp_all add: sample_log_def Let_def)
  ultimately show ?thesis
    by (simp add: log_files_def read_log_def sample_closed) (simp add: sample_state_def)
qed

lemma sample_report:
  obtains r where "analyze [sample_log] ''esp32c3'' sample_boot sample_lock = Inr r"
    "cr_frames r = [sample_summary 1, sample_summary 2]" "cr_numeric_gates_passed r"
proof -
  have "valid_uuid_text sample_boot"
    by (simp add: valid_uuid_text_def uuid_v4_classes_def sample_boot_def str_def is_lower_hex_def numeral_eq_Suc)
  moreover have "hash_text sample_lock"
    by (simp add: hash_text_def sample_lock_def is_lower_hex_def list_all_iff)
  moreover have fr: "ls_frames (sample_state xs 2) = xs" for xs
    by (simp add: sample_state_def)
  moreover obtain r where rep: "report_of ''esp32c3'' sample_boot sample_lock [sample_summary 1, sample_summary 2]
      [(hex (sha256 (lf_bytes sample_log)), int (length (lf_bytes sample_log)))] = Inr r"
    by (simp add: report_of_def Let_def)
  ultimately have r: "analyze [sample_log] ''esp32c3'' sample_boot sample_lock = Inr r"
    by (simp add: analyze_def sample_log_run)
  have "last_complete [sample_summary 1, sample_summary 2] = Some (sample_summary 2)"
    by (simp add: last_complete_def sample_summary_def)
  then have "cr_numeric_gates_passed r"
    unfolding report_of_facts(5) [OF rep]
    by (simp add: sample_summary_def HEAP_GATE_BYTES_def LARGEST_GATE_BYTES_def STACK_GATE_BYTES_def)
  then show thesis
    using that [OF r report_of_facts(1) [OF rep]] by simp
qed

theorem log_refines_frames_witness:
  "\<exists>r fs st. analyze [sample_log] ''esp32c3'' sample_boot sample_lock = Inr r \<and> length (cr_frames r) = 2 \<and>
     for_each accept_frame log_start fs = Inr st \<and> ls_frames st = cr_frames r"
proof (rule sample_report)
  fix r
  assume r: "analyze [sample_log] ''esp32c3'' sample_boot sample_lock = Inr r"
    and "cr_frames r = [sample_summary 1, sample_summary 2]"
  with log_refines_frames [OF r] show ?thesis
    by (intro exI [of _ r]) auto
qed

theorem capacity_history_monotone_witness:
  "\<exists>r. analyze [sample_log] ''esp32c3'' sample_boot sample_lock = Inr r \<and> length (cr_frames r) = 2 \<and>
     s_frame (cr_frames r ! 1) = s_frame (cr_frames r ! 0) + 1"
proof (rule sample_report)
  fix r
  assume r: "analyze [sample_log] ''esp32c3'' sample_boot sample_lock = Inr r"
    and fr: "cr_frames r = [sample_summary 1, sample_summary 2]"
  with capacity_history_monotone [OF r, of 0 1] show ?thesis
    by (intro exI [of _ r]) simp
qed

theorem passed_gates_hold_throughout_witness:
  "\<exists>r. analyze [sample_log] ''esp32c3'' sample_boot sample_lock = Inr r \<and> cr_numeric_gates_passed r \<and>
     (\<exists>k < length (cr_frames r). HEAP_GATE_BYTES \<le> s_minimum_free_lower_bound_bytes (cr_frames r ! 0))"
proof (rule sample_report)
  fix r
  assume r: "analyze [sample_log] ''esp32c3'' sample_boot sample_lock = Inr r" and g: "cr_numeric_gates_passed r"
  with passed_gates_hold_throughout [OF r g] show ?thesis
    by blast
qed


end
