(* ===== verification/Capacity_Requests.thy ===== *)
theory Capacity_Requests
  imports Capacity_Log
begin

text \<open>
  Whether concrete allocation requests fit (\<^verbatim>\<open>_request_evidence\<close>, \<^verbatim>\<open>_provided_request_fit\<close> and the
  end of \<^verbatim>\<open>analyze\<close>): the strict validation of a JSON evidence object, the identity facts it refers
  to, and the comparison of each request with the conservative lower bound of the last complete
  snapshot.

  Three things the tool observes are parameters: \<open>file_fact\<close>, the digest and size of a referenced
  file (\<^verbatim>\<open>_file_fact\<close> on its path, which raises when the file is not a stable regular file),
  \<open>file_rows\<close>, the lines of the firmware status file, and \<open>loads\<close>, the decoding of one line by
  \<^verbatim>\<open>json.loads\<close>.
\<close>

unbundle bit_operations_syntax

type_synonym fact = "pystr \<times> pystr \<times> int"

subsection \<open>Constants\<close>

definition REQUEST_RECIPE :: pystr where
  "REQUEST_RECIPE = str ''managed_tlsf_plain_32bit_v1''"

definition REQUEST_RECIPE_INPUTS :: "(string \<times> string) list" where
  "REQUEST_RECIPE_INPUTS =
     [(''sdk-lock.json'', ''aa30328518ba10db58f00fa11f04a04a63f8efca05d08e7ae6ced59d7694aa4d''),
      (''firmware/components/device_protocol/esp_base_capacity.c'', ''e0155fc60c18fa4deb6bef7a93669fa8839f5f92919e56151192fe0e4a7e1680''),
      (''tools/sdk-patches/capacity-idf.patch'', ''bd84a200cf235f35241315b41eef9b3064294a16d29edb6ee39192dafc3e7bab''),
      (''tools/sdk-patches/capacity-tlsf.patch'', ''afe402d3b0de6e312a4bf84e4491d0a52e1d17b4b02e0ef0fcd958dc8e55a2cd'')]"

definition PLAIN_REQUEST_CAPS :: int where
  "PLAIN_REQUEST_CAPS = push_bit 1 1 OR push_bit 2 1 OR push_bit 11 1 OR push_bit 12 1 OR push_bit 13 1"

definition INTERNAL_DMA_REQUEST_CAPS :: "int list" where
  "INTERNAL_DMA_REQUEST_CAPS = [push_bit 3 1, push_bit 3 1 OR push_bit 11 1, push_bit 3 1 OR push_bit 11 1 OR push_bit 2 1]"

definition INTERNAL_DMA_REQUEST_TARGETS :: "string list" where
  "INTERNAL_DMA_REQUEST_TARGETS = [''esp32c3'', ''esp32'']"

text \<open>\<^verbatim>\<open>REQUEST_ID\<close>: a lower-case letter, then up to 63 lower-case letters, digits or dashes.\<close>

definition request_id_text :: "pystr \<Rightarrow> bool" where
  "request_id_text s = (case s of
      [] \<Rightarrow> False
    | c # cs \<Rightarrow> 97 \<le> c \<and> c \<le> 122 \<and> length cs \<le> 63 \<and> list_all (\<lambda>d. 97 \<le> d \<and> d \<le> 122 \<or> is_digit d \<or> d = 45) cs)"

subsection \<open>The evidence object\<close>

definition check_keys :: "pyval \<Rightarrow> string list \<Rightarrow> string list \<Rightarrow> (pystr \<times> pyval) list res" where
  "check_keys v required optional = (case v of
      PDict d \<Rightarrow>
        refuse (\<not> list_all (\<lambda>k. str k \<in> set (map fst d)) required \<or>
                \<not> list_all (\<lambda>k. k \<in> set (map str (required @ optional))) (map fst d)) ''evidence fields'' (Inr d)
    | _ \<Rightarrow> Inl (Raise ValueError ''evidence fields''))"

definition json_object :: "(pystr \<times> pyval) list \<Rightarrow> (pystr \<times> pyval) list res" where
  "json_object pairs = for_each (\<lambda>result (key, item).
     if key \<in> set (map fst result) then Inl (Raise ValueError ''repeated evidence field'')
     else Inr (result @ [(key, item)])) [] pairs"

definition reference :: "(pystr \<Rightarrow> (pystr \<times> int) res) \<Rightarrow> pyval \<Rightarrow> fact res" where
  "reference file_fact v =
     bindE (check_keys v [''path'', ''sha256''] []) (\<lambda>d.
     (case (map_of d (str ''path''), map_of d (str ''sha256'')) of
        (Some (PStr path), Some (PStr sha)) \<Rightarrow>
          refuse (\<not> hash_text sha) ''evidence reference''
          (bindE (file_fact path) (\<lambda>(actual, n).
           refuse (actual \<noteq> sha) ''evidence digest'' (Inr (path, actual, n))))
      | _ \<Rightarrow> Inl (Raise ValueError ''evidence reference'')))"

definition check_header :: "(pystr \<times> pyval) list \<Rightarrow> string \<Rightarrow> pystr \<Rightarrow> pystr \<Rightarrow> unit res" where
  "check_header evidence target boot_id sdk_lock_sha256 =
     refuse (map_of evidence (str ''schema_version'') \<noteq> Some (PInt 1) \<or>
             list_ex (\<lambda>(key, v). map_of evidence (str key) \<noteq> Some (PStr v))
               [(''target'', str target), (''boot_id'', boot_id), (''sdk_lock_sha256'', sdk_lock_sha256), (''allocator_recipe'', REQUEST_RECIPE)] \<or>
             Some sdk_lock_sha256 \<noteq> map_option str (map_of REQUEST_RECIPE_INPUTS ''sdk-lock.json''))
       ''evidence of another target, boot, SDK or recipe'' (Inr ())"

definition check_recipe_input :: "(pystr \<Rightarrow> (pystr \<times> int) res) \<Rightarrow> (pystr \<times> pystr) list \<Rightarrow> string \<times> string \<Rightarrow> (pystr \<times> pystr) list res" where
  "check_recipe_input root_fact inputs = (\<lambda>(relative, expected).
     bindE (root_fact (str relative)) (\<lambda>(sha, _).
     refuse (sha \<noteq> str expected) ''sources no longer match the recipe'' (Inr (inputs @ [(str relative, str expected)]))))"

text \<open>One line of the firmware status file; the rows kept are pairs of device and slot.\<close>

definition status_row_ok :: "string \<Rightarrow> pystr \<Rightarrow> fact \<Rightarrow> (pystr \<times> pyval) list \<Rightarrow> (pystr \<times> pyval) list \<Rightarrow> bool" where
  "status_row_ok target boot_id signed_fact row result = (case signed_fact of (_, sha, n) \<Rightarrow>
     map_of row (str ''protocol_version'') = Some (PInt 1) \<and>
     (case map_of row (str ''device_id'') of Some (PStr s) \<Rightarrow> valid_uuid_text s | _ \<Rightarrow> False) \<and>
     (case map_of row (str ''request_id'') of Some (PStr s) \<Rightarrow> valid_uuid_text s | _ \<Rightarrow> False) \<and>
     map_of row (str ''boot_id'') = Some (PStr boot_id) \<and> map_of row (str ''state'') = Some (PStr (str ''succeeded'')) \<and>
     map_of row (str ''error_code'') = Some PNone \<and>
     map_of result (str ''target'') = Some (PStr (str target @ str ''/esp_base'')) \<and>
     map_of result (str ''firmware_sha256'') = Some (PStr sha) \<and> map_of result (str ''image_size_bytes'') = Some (PInt n) \<and>
     map_of result (str ''ota_slot'') \<in> {Some (PStr (str ''ota_0'')), Some (PStr (str ''ota_1''))})"

definition status_line ::
  "(bytes \<Rightarrow> pyval res) \<Rightarrow> string \<Rightarrow> pystr \<Rightarrow> fact \<Rightarrow> (pyval \<times> pyval) list \<Rightarrow> bytes \<Rightarrow> (pyval \<times> pyval) list res" where
  "status_line loads target boot_id signed_fact rows raw =
     (if \<not> contains (ascii ''\"firmware_sha256\"'') raw then Inr rows
      else
        bindE (reraise is_value_error (Raise ValueError ''status line is not JSON'') (loads raw)) (\<lambda>v.
        bindE (check_keys v [''protocol_version'', ''device_id'', ''boot_id'', ''request_id'', ''state'', ''error_code'', ''result''] []) (\<lambda>row.
        bindE (py_getitem row ''result'') (\<lambda>w.
        bindE (check_keys w [''firmware_sha256'', ''image_size_bytes'', ''target'', ''ota_slot''] []) (\<lambda>result.
        refuse (\<not> status_row_ok target boot_id signed_fact row result) ''status of another boot, target or image''
        (bindE (py_getitem row ''device_id'') (\<lambda>device. bindE (py_getitem result ''ota_slot'') (\<lambda>slot.
         Inr (rows @ [(device, slot)])))))))))"

text \<open>
  The status file is read line by line while its digest is computed: an incomplete or too long line, or a
  status that does not belong to this image, raises before the digest is compared.
\<close>

definition complete_line :: "bytes \<Rightarrow> bool" where
  "complete_line raw = (int (length raw) \<le> 16384 \<and> raw \<noteq> [] \<and> last raw = 10)"

definition reference_lines ::
  "(pystr \<Rightarrow> (pystr \<times> int) res) \<Rightarrow> (pystr \<Rightarrow> bytes list) \<Rightarrow> ('s \<Rightarrow> bytes \<Rightarrow> 's res) \<Rightarrow> 's \<Rightarrow> pyval \<Rightarrow> 's res" where
  "reference_lines file_fact file_rows lines start v =
     bindE (check_keys v [''path'', ''sha256''] []) (\<lambda>d.
     (case (map_of d (str ''path''), map_of d (str ''sha256'')) of
        (Some (PStr path), Some (PStr sha)) \<Rightarrow>
          refuse (\<not> hash_text sha) ''evidence reference''
          (bindE (for_each (\<lambda>st raw. refuse (\<not> complete_line raw) ''status line too long or unfinished'' (lines st raw)) start (file_rows path)) (\<lambda>rows.
           bindE (file_fact path) (\<lambda>(actual, n).
           refuse (actual \<noteq> sha) ''evidence digest'' (Inr rows))))
      | _ \<Rightarrow> Inl (Raise ValueError ''evidence reference'')))"

definition firmware_status ::
  "(bytes \<Rightarrow> pyval res) \<Rightarrow> (pystr \<Rightarrow> bytes list) \<Rightarrow> (pystr \<Rightarrow> (pystr \<times> int) res) \<Rightarrow> string \<Rightarrow> pystr \<Rightarrow> fact \<Rightarrow>
     (pystr \<times> pyval) list \<Rightarrow> (pyval \<times> pyval) option res" where
  "firmware_status loads file_rows file_fact target boot_id signed_fact identity =
     (case map_of identity (str ''firmware_status_uart'') of
        None \<Rightarrow> Inr None
      | Some v \<Rightarrow>
          bindE (reference_lines file_fact file_rows (status_line loads target boot_id signed_fact) [] v) (\<lambda>rows.
          (case rows of
             [] \<Rightarrow> Inl (Raise ValueError ''no status of this boot'')
           | r # _ \<Rightarrow> refuse (list_ex (\<lambda>x. x \<noteq> r) rows) ''device or slot changed'' (Inr (Some r)))))"

subsection \<open>Requests\<close>

record request =
  q_id :: pystr
  q_size_bytes :: int
  q_caps :: int
  q_alignment_bytes :: int

definition positive_u32 :: "pyval option \<Rightarrow> int res" where
  "positive_u32 v = (case v of
      Some (PInt n) \<Rightarrow> refuse (\<not> (0 < n \<and> n \<le> UINT32_MAX)) ''request size, capabilities or alignment'' (Inr n)
    | _ \<Rightarrow> Inl (Raise ValueError ''request size, capabilities or alignment''))"

definition check_request :: "request list \<Rightarrow> pyval \<Rightarrow> request list res" where
  "check_request requests v =
     bindE (check_keys v [''id'', ''size_bytes'', ''caps'', ''alignment_bytes''] []) (\<lambda>d.
     (case map_of d (str ''id'') of
        Some (PStr name) \<Rightarrow>
          refuse (\<not> request_id_text name \<or> name \<in> set (map q_id requests)) ''request id''
          (bindE (positive_u32 (map_of d (str ''size_bytes''))) (\<lambda>n.
           bindE (positive_u32 (map_of d (str ''caps''))) (\<lambda>caps.
           bindE (positive_u32 (map_of d (str ''alignment_bytes''))) (\<lambda>alignment.
           refuse (alignment AND (alignment - 1) \<noteq> 0) ''request size, capabilities or alignment''
           (Inr (requests @ [\<lparr>q_id = name, q_size_bytes = n, q_caps = caps, q_alignment_bytes = alignment\<rparr>]))))))
      | _ \<Rightarrow> Inl (Raise ValueError ''request id'')))"

definition check_requests :: "pyval \<Rightarrow> request list res" where
  "check_requests v = (case v of
      PList vs \<Rightarrow> refuse (vs = []) ''no requests'' (for_each check_request [] vs)
    | _ \<Rightarrow> Inl (Raise ValueError ''no requests''))"

definition check_sources :: "(pystr \<Rightarrow> (pystr \<times> int) res) \<Rightarrow> pyval \<Rightarrow> fact list res" where
  "check_sources file_fact v = (case v of
      PList vs \<Rightarrow>
        refuse (vs = []) ''no sources''
        (bindE (for_each (\<lambda>fs v. bindE (reference file_fact v) (\<lambda>f. Inr (fs @ [f]))) [] vs) (\<lambda>sources.
         refuse (\<not> distinct (map fst sources)) ''source repeated'' (Inr sources)))
    | _ \<Rightarrow> Inl (Raise ValueError ''no sources''))"

record evidence =
  ev_target :: string
  ev_requests :: "request list"
  ev_signed_firmware :: fact
  ev_config :: fact
  ev_sources :: "fact list"
  ev_status :: "(pyval \<times> pyval) option"

definition request_evidence ::
  "(bytes \<Rightarrow> pyval res) \<Rightarrow> (pystr \<Rightarrow> bytes list) \<Rightarrow> (pystr \<Rightarrow> (pystr \<times> int) res) \<Rightarrow> (pystr \<Rightarrow> (pystr \<times> int) res) \<Rightarrow>
     pyval \<Rightarrow> string \<Rightarrow> pystr \<Rightarrow> pystr \<Rightarrow> evidence res" where
  "request_evidence loads file_rows root_fact file_fact v target boot_id sdk_lock_sha256 =
     bindE (check_keys v [''schema_version'', ''target'', ''boot_id'', ''sdk_lock_sha256'', ''allocator_recipe'', ''identity'', ''requests''] []) (\<lambda>d.
     bindE (check_header d target boot_id sdk_lock_sha256) (\<lambda>_.
     bindE (for_each (check_recipe_input root_fact) [] REQUEST_RECIPE_INPUTS) (\<lambda>_.
     bindE (py_getitem d ''identity'') (\<lambda>iv.
     bindE (check_keys iv [''signed_firmware'', ''config'', ''sources''] [''firmware_status_uart'']) (\<lambda>identity.
     bindE (bindE (py_getitem identity ''signed_firmware'') (reference file_fact)) (\<lambda>signed_fact.
     bindE (bindE (py_getitem identity ''config'') (reference file_fact)) (\<lambda>config.
     refuse (\<not> (0 < snd (snd signed_fact) \<and> snd (snd signed_fact) \<le> UINT32_MAX) \<or> snd (snd config) = 0) ''signed or configuration file size''
     (bindE (bindE (py_getitem identity ''sources'') (check_sources file_fact)) (\<lambda>sources.
      bindE (firmware_status loads file_rows file_fact target boot_id signed_fact identity) (\<lambda>status.
      bindE (bindE (py_getitem d ''requests'') check_requests) (\<lambda>requests.
      Inr \<lparr>ev_target = target, ev_requests = requests, ev_signed_firmware = signed_fact, ev_config = config, ev_sources = sources,
           ev_status = status\<rparr>)))))))))))"

subsection \<open>Fit\<close>

record fit_item =
  fi_request :: request
  fi_fit :: bool
  fi_search_size_bytes :: "int option"
  fi_margin_bytes :: "int option"
  fi_minimum_free_lower_bound_bytes :: int
  fi_largest_request_lower_bound_bytes :: int
  fi_matching_early_region_starts :: "int list"
  fi_reason :: string

definition internal_dma :: "string \<Rightarrow> request \<Rightarrow> bool" where
  "internal_dma target request =
     (target \<in> set INTERNAL_DMA_REQUEST_TARGETS \<and> q_caps request \<in> set INTERNAL_DMA_REQUEST_CAPS)"

definition search_size :: "request \<Rightarrow> int" where
  "search_size request =
     (let alignment = max 4 (q_alignment_bytes request); adjusted = max 12 ((q_size_bytes request + 3) AND NOT 3) in
      if alignment = 4 then adjusted else (adjusted + alignment + 16 + alignment - 1) AND NOT (alignment - 1))"

definition fit_request :: "string \<Rightarrow> frame option \<Rightarrow> request \<Rightarrow> fit_item" where
  "fit_request target frame request =
     (let regions = (case frame of None \<Rightarrow> [] | Some f \<Rightarrow> f_regions f);
          matching = matching_regions regions (q_caps request);
          bound = largest_bound regions (q_caps request);
          item = \<lparr>fi_request = request, fi_fit = False, fi_search_size_bytes = None, fi_margin_bytes = None,
            fi_minimum_free_lower_bound_bytes = free_bound regions (q_caps request),
            fi_largest_request_lower_bound_bytes = bound,
            fi_matching_early_region_starts = map (\<lambda>row. num row ''start'') matching, fi_reason = []\<rparr>;
          search = search_size request in
      if frame = None then item\<lparr>fi_reason := ''no_complete_task_readout''\<rparr>
      else if internal_dma target request \<and> 4 < q_alignment_bytes request then
        item\<lparr>fi_reason := ''dma_alignment_above_four_bytes_not_modeled''\<rparr>
      else if q_caps request AND NOT PLAIN_REQUEST_CAPS \<noteq> 0 \<and> \<not> internal_dma target request then
        item\<lparr>fi_reason := ''exec_or_hardware_or_other_caps_path_not_modeled''\<rparr>
      else if UINT32_MAX < search then item\<lparr>fi_reason := ''target_size_overflow''\<rparr>
      else item\<lparr>fi_search_size_bytes := Some search, fi_margin_bytes := Some (bound - search), fi_fit := search \<le> bound,
             fi_reason := (if search \<le> bound then ''conservative_lower_bound_covers_search''
                           else ''conservative_lower_bound_insufficient'')\<rparr>)"

record fit_report =
  fr_requests :: "fit_item list"
  fr_all_provided_requests_fit :: bool
  fr_weakest_margin_bytes :: "int option"
  fr_weakest_request_ids :: "pystr list"
  fr_proved_until_begin_uptime_ms :: "int option"

definition weakest_margin :: "fit_item list \<Rightarrow> int option" where
  "weakest_margin results =
     (let margins = List.map_filter fi_margin_bytes results in
      if margins = [] then None else Some (min_default 0 margins))"

definition provided_request_fit :: "evidence \<Rightarrow> frame option \<Rightarrow> fit_report" where
  "provided_request_fit ev frame =
     (let results = map (fit_request (ev_target ev) frame) (ev_requests ev); weakest = weakest_margin results in
      \<lparr>fr_requests = results, fr_all_provided_requests_fit = list_all fi_fit results, fr_weakest_margin_bytes = weakest,
       fr_weakest_request_ids = map (q_id \<circ> fi_request) (filter (\<lambda>item. weakest \<noteq> None \<and> fi_margin_bytes item = weakest) results),
       fr_proved_until_begin_uptime_ms = map_option (\<lambda>f. num (f_begin f) ''uptime_ms'') frame\<rparr>)"

text \<open>The whole of \<^verbatim>\<open>analyze\<close> when an evidence file is given.\<close>

definition analyze_with_requests ::
  "(bytes \<Rightarrow> pyval res) \<Rightarrow> (pystr \<Rightarrow> bytes list) \<Rightarrow> (pystr \<Rightarrow> (pystr \<times> int) res) \<Rightarrow> (pystr \<Rightarrow> (pystr \<times> int) res) \<Rightarrow>
     log_file list \<Rightarrow> string \<Rightarrow> pystr \<Rightarrow> pystr \<Rightarrow> pyval \<Rightarrow> (capacity_report \<times> fit_report) res" where
  "analyze_with_requests loads file_rows root_fact file_fact files target boot_id sdk_lock_sha256 v =
     bindE (analyze files target boot_id sdk_lock_sha256) (\<lambda>report.
     bindE (log_files boot_id sdk_lock_sha256 files) (\<lambda>(st, _).
     bindE (request_evidence loads file_rows root_fact file_fact v target boot_id sdk_lock_sha256) (\<lambda>ev.
     Inr (report, provided_request_fit ev (ls_previous_complete st)))))"

subsection \<open>Rounding\<close>

lemma and_not_mask: "x AND NOT (mask k) = x - x mod 2 ^ k" for x :: int
proof -
  have "x AND NOT (mask k) = push_bit k (drop_bit k x)"
    by (rule bit_eqI) (auto simp: bit_simps)
  also have "\<dots> = x - take_bit k x"
    by (metis add_diff_cancel_right' bits_ident)
  finally show ?thesis
    by (simp add: take_bit_eq_mod)
qed

lemma power_of_two: "0 < a \<Longrightarrow> a AND (a - 1) = 0 \<Longrightarrow> \<exists>k. a = 2 ^ k" for a :: int
proof (induction "nat a" arbitrary: a rule: less_induct)
  case less
  show ?case
  proof (cases "even a")
    case True
    then obtain b where b: "a = 2 * b" by auto
    with less.prems have pos: "0 < b" by simp
    have "(a - 1) div 2 = b - 1" "a div 2 = b" using b by simp_all
    then have "b AND (b - 1) = 0"
      using less.prems(2) and_rec [of a "a - 1"] True by simp
    with less.hyps [of b] pos b obtain k where "b = 2 ^ k" by auto
    then have "a = 2 ^ Suc k" using b by simp
    then show ?thesis ..
  next
    case False
    then obtain b where b: "a = 2 * b + 1" by (auto elim: oddE)
    have "(a - 1) div 2 = b" "a div 2 = b" using b by simp_all
    then have "b = 0"
      using less.prems(2) and_rec [of a "a - 1"] False by simp
    with b have "a = 2 ^ 0" by simp
    then show ?thesis ..
  qed
qed

lemma round_up:
  fixes a x :: int
  assumes "0 < a" "a AND (a - 1) = 0"
  shows "a dvd (x + a - 1) AND NOT (a - 1)" "x \<le> (x + a - 1) AND NOT (a - 1)" "(x + a - 1) AND NOT (a - 1) < x + a"
proof -
  obtain k where k: "a = 2 ^ k"
    using power_of_two [OF assms] ..
  have r: "(x + a - 1) AND NOT (a - 1) = (x + a - 1) - (x + a - 1) mod a"
    using and_not_mask [of "x + a - 1" k] by (simp add: k mask_eq_exp_minus_1)
  have m: "0 \<le> (x + a - 1) mod a" "(x + a - 1) mod a < a"
    using assms(1) by simp_all
  show "a dvd (x + a - 1) AND NOT (a - 1)"
    unfolding r by (rule dvd_minus_mod)
  show "x \<le> (x + a - 1) AND NOT (a - 1)" "(x + a - 1) AND NOT (a - 1) < x + a"
    unfolding r using m by linarith+
qed

definition valid_request :: "request \<Rightarrow> bool" where
  "valid_request q = (request_id_text (q_id q) \<and> 0 < q_size_bytes q \<and> q_size_bytes q \<le> UINT32_MAX \<and> 0 < q_caps q \<and>
     0 < q_alignment_bytes q \<and> q_alignment_bytes q AND (q_alignment_bytes q - 1) = 0)"

lemma round_up4: "4 dvd (x + 3) AND NOT 3" "x \<le> (x + 3) AND NOT 3" for x :: int
proof -
  have e: "x + 4 - 1 = x + 3" "(4 :: int) - 1 = 3"
    by simp_all
  have p: "(0 :: int) < 4" "(4 :: int) AND 3 = 0"
    by simp_all
  show "4 dvd (x + 3) AND NOT 3" "x \<le> (x + 3) AND NOT 3"
    using round_up(1,2) [of 4 x, unfolded e, OF p] .
qed

lemma search_size_covers:
  assumes "valid_request q"
  shows "q_size_bytes q \<le> search_size q" "12 \<le> search_size q" "max 4 (q_alignment_bytes q) dvd search_size q"
    "4 < q_alignment_bytes q \<Longrightarrow> q_size_bytes q + q_alignment_bytes q + 16 \<le> search_size q"
proof -
  let ?adj = "max 12 ((q_size_bytes q + 3) AND NOT 3)"
  have adj: "q_size_bytes q \<le> ?adj" "12 \<le> ?adj" "4 dvd ?adj"
    using round_up4 [of "q_size_bytes q"] by (simp_all add: max_def)
  let ?al = "max 4 (q_alignment_bytes q)"
  have al: "0 < ?al" "?al AND (?al - 1) = 0"
    using assms by (auto simp: valid_request_def max_def)
  have up: "?al dvd (?adj + ?al + 16 + ?al - 1) AND NOT (?al - 1)"
    "?adj + ?al + 16 \<le> (?adj + ?al + 16 + ?al - 1) AND NOT (?al - 1)"
    using round_up(1,2) [OF al, of "?adj + ?al + 16"] .
  have s: "search_size q = (if ?al = 4 then ?adj else (?adj + ?al + 16 + ?al - 1) AND NOT (?al - 1))"
    by (simp add: search_size_def Let_def)
  show "q_size_bytes q \<le> search_size q" "12 \<le> search_size q" "max 4 (q_alignment_bytes q) dvd search_size q"
    using s up adj by (auto split: if_splits)
  show "4 < q_alignment_bytes q \<Longrightarrow> q_size_bytes q + q_alignment_bytes q + 16 \<le> search_size q"
    using s up(2) adj(1) by auto
qed

lemma largest_bound_attained:
  assumes "0 < largest_bound regions caps"
  obtains row where "row \<in> set (matching_regions regions caps)" "num row ''min_largest_request_bytes'' = largest_bound regions caps"
proof -
  let ?m = "map (\<lambda>row. num row ''min_largest_request_bytes'') (matching_regions regions caps)"
  have "?m \<noteq> []" "largest_bound regions caps = Max (set ?m)"
    using assms by (auto simp: largest_bound_def max_default_eq split: if_splits)
  then have "largest_bound regions caps \<in> set ?m"
    using Max_in [of "set ?m"] by simp
  then show thesis
    using that by auto
qed

lemma fit_request_fit:
  assumes "fi_fit (fit_request target frame q)"
  obtains f where "frame = Some f" "search_size q \<le> UINT32_MAX" "search_size q \<le> largest_bound (f_regions f) (q_caps q)"
    "fi_search_size_bytes (fit_request target frame q) = Some (search_size q)"
    "q_alignment_bytes q \<le> 4 \<or> q_caps q AND NOT PLAIN_REQUEST_CAPS = 0"
proof (cases frame)
  case None
  with assms show thesis by (simp add: fit_request_def Let_def)
next
  case (Some f)
  with assms show thesis
    by (intro that [OF Some]) (auto simp: fit_request_def Let_def split: if_splits)
qed

text \<open>
  C26: a request is only reported to fit when a region is sure to hold it.  If a valid request is
  reported as a fit, the search size the allocator uses covers its size, its alignment overhead and a
  minimum block, is a multiple of the alignment and fits in 32 bits, and in the snapshot some region that
  existed from the start has every requested capability and never had a largest free block smaller
  than the search size.
\<close>

theorem fit_has_region:
  assumes "valid_request q" and "fi_fit (fit_request target frame q)"
  shows "\<exists>f s row. frame = Some f \<and> fi_search_size_bytes (fit_request target frame q) = Some s \<and>
    q_size_bytes q \<le> s \<and> 12 \<le> s \<and> max 4 (q_alignment_bytes q) dvd s \<and> s \<le> UINT32_MAX \<and>
    (4 < q_alignment_bytes q \<longrightarrow> q_size_bytes q + q_alignment_bytes q + 16 \<le> s) \<and>
    row \<in> set (f_regions f) \<and> num row ''available_at_heap_init'' \<noteq> 0 \<and> caps_of row AND q_caps q = q_caps q \<and>
    s \<le> num row ''min_largest_request_bytes''"
proof -
  obtain f where f: "frame = Some f" "search_size q \<le> UINT32_MAX" "search_size q \<le> largest_bound (f_regions f) (q_caps q)"
    "fi_search_size_bytes (fit_request target frame q) = Some (search_size q)"
    by (rule fit_request_fit [OF assms(2)])
  note s = search_size_covers [OF assms(1)]
  have "0 < largest_bound (f_regions f) (q_caps q)"
    using f(3) s(2) by linarith
  then obtain row where row: "row \<in> set (matching_regions (f_regions f) (q_caps q))"
    "num row ''min_largest_request_bytes'' = largest_bound (f_regions f) (q_caps q)"
    by (rule largest_bound_attained)
  then show ?thesis
    using f s by (intro exI [of _ f] exI [of _ "search_size q"] exI [of _ row]) (simp add: matching_regions_def)
qed

definition sample_request :: request where
  "sample_request = \<lparr>q_id = str ''tls'', q_size_bytes = 16717, q_caps = 0x804, q_alignment_bytes = 16\<rparr>"

theorem fit_has_region_witness:
  "fi_search_size_bytes (fit_request ''esp32'' (Some (sample_frame 1)) sample_request) = Some 16752 \<and>
   (\<exists>row \<in> set (f_regions (sample_frame 1)). 16752 \<le> num row ''min_largest_request_bytes'')"
proof -
  have v: "valid_request sample_request"
    by (simp add: valid_request_def sample_request_def request_id_text_def str_def is_digit_def UINT32_MAX_def)
  have s: "search_size sample_request = 16752"
    by (simp add: search_size_def sample_request_def)
  have "largest_bound (f_regions (sample_frame 1)) 0x804 = 29999"
    by (simp add: sample_frame_def sample_bounds)
  then have f: "fi_fit (fit_request ''esp32'' (Some (sample_frame 1)) sample_request)"
    "fi_search_size_bytes (fit_request ''esp32'' (Some (sample_frame 1)) sample_request) = Some 16752"
    by (simp_all add: fit_request_def s UINT32_MAX_def Let_def) (simp_all add: sample_request_def internal_dma_def INTERNAL_DMA_REQUEST_CAPS_def PLAIN_REQUEST_CAPS_def)
  show ?thesis
    using fit_has_region [OF v f(1)] f(2) by auto
qed

lemma check_request_facts:
  assumes "check_request rs v = Inr rs'"
  obtains q where "rs' = rs @ [q]" "valid_request q" "q_id q \<notin> set (map q_id rs)"
proof -
  obtain d where d: "check_keys v [''id'', ''size_bytes'', ''caps'', ''alignment_bytes''] [] = Inr d"
    using assms by (auto simp: check_request_def bindE_eq_Inr)
  then obtain name where name: "map_of d (str ''id'') = Some (PStr name)"
    using assms by (cases "map_of d (str ''id'')"; cases "the (map_of d (str ''id''))") (auto simp: check_request_def)
  from assms d name obtain n caps al where
    *: "request_id_text name" "name \<notin> set (map q_id rs)" "positive_u32 (map_of d (str ''size_bytes'')) = Inr n"
      "positive_u32 (map_of d (str ''caps'')) = Inr caps" "positive_u32 (map_of d (str ''alignment_bytes'')) = Inr al"
      "al AND (al - 1) = 0" "rs' = rs @ [\<lparr>q_id = name, q_size_bytes = n, q_caps = caps, q_alignment_bytes = al\<rparr>]"
    by (auto simp: check_request_def res_simps)
  have pos: "positive_u32 w = Inr m \<Longrightarrow> 0 < m \<and> m \<le> UINT32_MAX" for w m
    by (auto simp: positive_u32_def res_simps split: option.splits pyval.splits)
  show thesis
    using pos [OF *(3)] pos [OF *(4)] pos [OF *(5)] * by (intro that [OF *(7)]) (simp_all add: valid_request_def)
qed

lemma check_requests_valid:
  assumes "check_requests v = Inr rs"
  shows "rs \<noteq> [] \<and> distinct (map q_id rs) \<and> list_all valid_request rs"
proof -
  obtain vs where vs: "vs \<noteq> []" "for_each check_request [] vs = Inr rs"
    using assms by (auto simp: check_requests_def res_simps split: pyval.splits)
  let ?I = "\<lambda>done rs. length rs = length done \<and> distinct (map q_id rs) \<and> list_all valid_request rs"
  have step: "?I (done @ [x]) t'" if inv: "?I done t" and c: "check_request t x = Inr t'" for "done" x t t'
  proof -
    obtain q where "t' = t @ [q]" "valid_request q" "q_id q \<notin> set (map q_id t)"
      by (rule check_request_facts [OF c])
    with inv show ?thesis by simp
  qed
  have "?I vs rs"
    by (rule for_each_inv [of check_request "[]" vs rs ?I, OF vs(2)]) (simp, rule step)
  with vs(1) show ?thesis by auto
qed

text \<open>
  The requests of accepted evidence are checked one by one.  Every request that
  passes has a well-formed, unique name, a positive 32-bit size and capability mask and a power of
  two as its alignment, so the fit of an accepted evidence file always speaks about valid requests.
\<close>


theorem evidence_requests_valid:
  assumes "request_evidence loads file_rows root_fact file_fact v target boot_id lock = Inr ev"
  shows "ev_requests ev \<noteq> [] \<and> distinct (map q_id (ev_requests ev)) \<and> list_all valid_request (ev_requests ev) \<and>
    (fr_all_provided_requests_fit (provided_request_fit ev frame) \<longrightarrow>
       (\<forall>q \<in> set (ev_requests ev). q_size_bytes q \<le> largest_bound (f_regions (the frame)) (q_caps q)))"
proof -
  obtain rv where "check_requests rv = Inr (ev_requests ev)"
    using assms by (auto simp: request_evidence_def res_simps)
  note rs = check_requests_valid [OF this]
  have "q_size_bytes q \<le> largest_bound (f_regions (the frame)) (q_caps q)"
    if fit: "fr_all_provided_requests_fit (provided_request_fit ev frame)" and q: "q \<in> set (ev_requests ev)" for q
  proof -
    have "fi_fit (fit_request (ev_target ev) frame q)"
      using fit q by (simp add: provided_request_fit_def Let_def list_all_iff)
    moreover have "valid_request q"
      using rs q by (simp add: list_all_iff)
    ultimately show ?thesis
      using search_size_covers(1) [of q] by (auto elim!: fit_request_fit)
  qed
  with rs show ?thesis by blast
qed

definition sample_reference :: "string \<Rightarrow> pyval" where
  "sample_reference path = PDict [(str ''path'', PStr (str path)), (str ''sha256'', PStr sample_lock)]"

definition sample_evidence :: pyval where
  "sample_evidence = PDict [(str ''schema_version'', PInt 1), (str ''target'', PStr (str ''esp32'')), (str ''boot_id'', PStr sample_boot),
     (str ''sdk_lock_sha256'', PStr (str ''aa30328518ba10db58f00fa11f04a04a63f8efca05d08e7ae6ced59d7694aa4d'')),
     (str ''allocator_recipe'', PStr REQUEST_RECIPE),
     (str ''identity'', PDict [(str ''signed_firmware'', sample_reference ''/a''), (str ''config'', sample_reference ''/b''),
        (str ''sources'', PList [sample_reference ''/c''])]),
     (str ''requests'', PList [PDict [(str ''id'', PStr (str ''tls'')), (str ''size_bytes'', PInt 16717), (str ''caps'', PInt 0x804),
        (str ''alignment_bytes'', PInt 16)]])]"

definition sample_root_fact :: "pystr \<Rightarrow> (pystr \<times> int) res" where
  "sample_root_fact path = of_option (Raise OSError ''no file'')
     (map_option (\<lambda>(_, sha). (str sha, 1)) (find (\<lambda>(name, _). str name = path) REQUEST_RECIPE_INPUTS))"

definition sample_file_fact :: "pystr \<Rightarrow> (pystr \<times> int) res" where
  "sample_file_fact path = Inr (sample_lock, 100)"

lemma sample_evidence_accepted:
  "request_evidence (\<lambda>_. Inl (Raise ValueError ''json'')) (\<lambda>_. []) sample_root_fact sample_file_fact sample_evidence ''esp32'' sample_boot
     (str ''aa30328518ba10db58f00fa11f04a04a63f8efca05d08e7ae6ced59d7694aa4d'')
   = Inr \<lparr>ev_target = ''esp32'', ev_requests = [sample_request], ev_signed_firmware = (str ''/a'', sample_lock, 100),
        ev_config = (str ''/b'', sample_lock, 100), ev_sources = [(str ''/c'', sample_lock, 100)], ev_status = None\<rparr>"
proof -
  have h: "hash_text sample_lock"
    by (simp add: hash_text_def sample_lock_def is_lower_hex_def list_all_iff)
  have ref: "reference sample_file_fact (sample_reference path) = Inr (str path, sample_lock, 100)" for path
    by (simp add: reference_def sample_reference_def check_keys_def sample_file_fact_def str_inj_iff h)
  have req: "check_requests (PList [PDict [(str ''id'', PStr (str ''tls'')), (str ''size_bytes'', PInt 16717), (str ''caps'', PInt 0x804),
        (str ''alignment_bytes'', PInt 16)]]) = Inr [sample_request]"
    by (simp add: check_requests_def check_request_def check_keys_def positive_u32_def sample_request_def str_inj_iff UINT32_MAX_def)
      (simp add: request_id_text_def str_def is_digit_def)
  have recipe: "for_each (check_recipe_input sample_root_fact) [] REQUEST_RECIPE_INPUTS
      = Inr (map (\<lambda>(a, b). (str a, str b)) REQUEST_RECIPE_INPUTS)"
    by (simp add: REQUEST_RECIPE_INPUTS_def check_recipe_input_def sample_root_fact_def str_inj_iff)
  have lock: "map_of REQUEST_RECIPE_INPUTS ''sdk-lock.json'' = Some ''aa30328518ba10db58f00fa11f04a04a63f8efca05d08e7ae6ced59d7694aa4d''"
    by (simp add: REQUEST_RECIPE_INPUTS_def)
  have src: "check_sources sample_file_fact (PList [sample_reference ''/c'']) = Inr [(str ''/c'', sample_lock, 100)]"
    by (simp add: check_sources_def ref)
  show ?thesis
    by (simp add: request_evidence_def sample_evidence_def check_keys_def check_header_def str_inj_iff recipe ref src req
        py_getitem_def firmware_status_def lock UINT32_MAX_def)
qed

theorem evidence_requests_valid_witness:
  "\<exists>ev. request_evidence (\<lambda>_. Inl (Raise ValueError ''json'')) (\<lambda>_. []) sample_root_fact sample_file_fact sample_evidence ''esp32'' sample_boot
     (str ''aa30328518ba10db58f00fa11f04a04a63f8efca05d08e7ae6ced59d7694aa4d'') = Inr ev \<and> ev_requests ev = [sample_request] \<and>
     list_all valid_request (ev_requests ev)"
  using evidence_requests_valid [OF sample_evidence_accepted] sample_evidence_accepted by auto

end
