(* ===== verification/Observation.thy ===== *)
theory Observation
  imports Capacity_Lines Digests
begin

text \<open>
  The periodic resource observer (\<^verbatim>\<open>capacity_observation.py\<close>): the five line formats, the reading of one
  UART line, the frame and uptime bookkeeping of \<^verbatim>\<open>observe\<close> (\<^verbatim>\<open>finish_frame\<close>, \<^verbatim>\<open>accept_uptime\<close> and
  the loop body) on an explicit state, and the report with its three gates.

  The regular expressions of the source are sequences of pieces: literal text, a run of digits, a run
  of non-blanks and the shortest non-empty text without line ends that lets the rest match.  A run of
  digits or non-blanks is always followed by a blank or the end of the line, so taking the longest run is
  what the expression does.
\<close>

subsection \<open>Line formats\<close>

datatype piece = Lit string | Digits | Nonblank | Shortest

definition digit_byte :: "8 word \<Rightarrow> bool" where
  "digit_byte b = (48 \<le> unat b \<and> unat b \<le> 57)"

definition nonblank_byte :: "8 word \<Rightarrow> bool" where
  "nonblank_byte b = (unat b \<notin> {9, 10, 11, 12, 13, 32})"

primrec match_pieces :: "piece list \<Rightarrow> bytes \<Rightarrow> bytes list option" where
  "match_pieces [] bs = (if bs = [] then Some [] else None)"
| "match_pieces (p # ps) bs = (case p of
      Lit s \<Rightarrow> if take (length s) bs = ascii s then match_pieces ps (drop (length s) bs) else None
    | Digits \<Rightarrow> (let run = takeWhile digit_byte bs in
        if run = [] then None else map_option (Cons run) (match_pieces ps (drop (length run) bs)))
    | Nonblank \<Rightarrow> (let run = takeWhile nonblank_byte bs in
        if run = [] then None else map_option (Cons run) (match_pieces ps (drop (length run) bs)))
    | Shortest \<Rightarrow>
        (case find (\<lambda>n. list_all (\<lambda>b. \<not> eol b) (take n bs) \<and> match_pieces ps (drop n bs) \<noteq> None) [1..<Suc (length bs)] of
           None \<Rightarrow> None
         | Some n \<Rightarrow> map_option (Cons (take n bs)) (match_pieces ps (drop n bs))))"

definition observer_format :: "string \<Rightarrow> piece list" where
  "observer_format target = [Lit (''ESP_BASE_CAPACITY_OBSERVER LAB_ONLY target='' @ target @ '' period_ms=5000'' @
     '' task_limit=32 exit_limit=64 other_capability_domains=unmeasured'' @
     '' worker_exit_coverage=ota_before_done_and_normal_task_cleanup'' @
     '' uncaptured_exits=reset_panic_before_cleanup non_task_stacks=unmeasured'' @
     '' largest_history=unmeasured full_peak_qualification=0'' @
     '' frozen_signed_image_qualification=0 observation_cost_added_back=0'')]"

definition MEMORY_format :: "piece list" where
  "MEMORY_format = [Lit ''ESP_BASE_LAB_MEMORY uptime_ms='', Digits, Lit '' free_bytes='', Digits, Lit '' min_bytes='', Digits,
     Lit '' largest_bytes='', Digits, Lit '' control_stack_min_bytes='', Digits]"

definition TASKS_format :: "piece list" where
  "TASKS_format = [Lit ''ESP_BASE_LAB_TASKS uptime_ms='', Digits, Lit '' expected='', Digits, Lit '' captured='', Digits,
     Lit '' workspace_bytes='', Digits]"

definition TASK_format :: "piece list" where
  "TASK_format = [Lit ''ESP_BASE_LAB_TASK uptime_ms='', Digits, Lit '' task='', Shortest, Lit '' task_number='', Digits,
     Lit '' minimum_stack_bytes='', Digits, Lit '' priority='', Digits, Lit '' state='', Digits]"

definition EXIT_format :: "piece list" where
  "EXIT_format = [Lit ''ESP_BASE_LAB_TASK_EXIT phase='', Nonblank, Lit '' task='', Shortest, Lit '' task_number='', Digits,
     Lit '' minimum_stack_bytes='', Digits]"

definition byte_digits_value :: "bytes \<Rightarrow> int" where
  "byte_digits_value bs = foldl (\<lambda>n b. 10 * n + (int (unat b) - 48)) 0 bs"

definition match_numbers :: "piece list \<Rightarrow> bytes \<Rightarrow> int list option" where
  "match_numbers ps bs = map_option (map byte_digits_value) (match_pieces ps bs)"

subsection \<open>Reading a line\<close>

text \<open>
  What one raw line is to the observer.  \<open>Observer t\<close> is a start declaration, with the target it
  names when it is well-formed; \<open>Unrelated\<close> lines contain neither marker.
\<close>

datatype obs_line =
    Unrelated
  | Observer "string option"
  | Memory int int int int int
  | Tasks int int int
  | Task int int int
  | Exit int
  | Malformed

fun find_sub :: "'a list \<Rightarrow> 'a list \<Rightarrow> nat option" where
  "find_sub pat [] = (if pat = [] then Some 0 else None)"
| "find_sub pat (x # xs) = (if take (length pat) (x # xs) = pat then Some 0 else map_option Suc (find_sub pat xs))"

definition resource_line :: "bytes \<Rightarrow> bytes option" where
  "resource_line raw =
     (let prefixes = List.map_filter (\<lambda>marker. find_sub marker raw) [ascii ''ESP_BASE_CAPACITY_OBSERVER'', ascii ''ESP_BASE_LAB_''] in
      case prefixes of [] \<Rightarrow> None | p # ps \<Rightarrow> Some (rstrip eol (drop (foldl min p ps) raw)))"

definition observer_target :: "bytes \<Rightarrow> string option" where
  "observer_target line = find (\<lambda>target. match_pieces (observer_format target) line \<noteq> None) [''esp32c3'', ''esp32'']"

definition classify :: "bytes \<Rightarrow> obs_line" where
  "classify raw = (case resource_line raw of
      None \<Rightarrow> Unrelated
    | Some line \<Rightarrow>
        if startswith line (ascii ''ESP_BASE_CAPACITY_OBSERVER'') then Observer (observer_target line)
        else (case match_numbers MEMORY_format line of
            Some [u, free, least, largest, control] \<Rightarrow> Memory u free least largest control
          | _ \<Rightarrow>
        (case match_numbers TASKS_format line of
            Some [u, expected, captured, workspace] \<Rightarrow> Tasks u expected captured
          | _ \<Rightarrow>
        (case match_pieces TASK_format line of
            Some [u, name, n, margin, priority, state] \<Rightarrow> Task (byte_digits_value u) (byte_digits_value n) (byte_digits_value margin)
          | _ \<Rightarrow>
        (case match_pieces EXIT_format line of
            Some [phase, name, n, margin] \<Rightarrow> Exit (byte_digits_value margin)
          | _ \<Rightarrow> Malformed)))))"

subsection \<open>State and steps\<close>

record obs_state =
  os_memory :: "(int \<times> int \<times> int \<times> int \<times> int) list"
  os_task_margins :: "int list"
  os_malformed :: int
  os_incomplete :: int
  os_complete :: int
  os_expected_tasks :: "int option"
  os_captured_tasks :: "(int \<times> int) list"
  os_frame_uptime :: "int option"
  os_observer_starts :: int
  os_observer_bound :: bool
  os_last_uptime :: "int option"
  os_uptime_regressions :: int

definition obs_start :: obs_state where
  "obs_start = \<lparr>os_memory = [], os_task_margins = [], os_malformed = 0, os_incomplete = 0, os_complete = 0,
     os_expected_tasks = None, os_captured_tasks = [], os_frame_uptime = None, os_observer_starts = 0,
     os_observer_bound = False, os_last_uptime = None, os_uptime_regressions = 0\<rparr>"

definition finish_frame :: "obs_state \<Rightarrow> obs_state" where
  "finish_frame st =
     (let st' = (case os_expected_tasks st of
          None \<Rightarrow> st
        | Some expected \<Rightarrow>
            if 0 < expected \<and> int (length (os_captured_tasks st)) = expected
            then st\<lparr>os_complete := os_complete st + 1, os_task_margins := os_task_margins st @ map snd (os_captured_tasks st)\<rparr>
            else st\<lparr>os_incomplete := os_incomplete st + 1\<rparr>)
      in st'\<lparr>os_expected_tasks := None, os_captured_tasks := []\<rparr>)"

definition malformed :: "obs_state \<Rightarrow> obs_state" where
  "malformed st = st\<lparr>os_malformed := os_malformed st + 1\<rparr>"

definition accept_uptime :: "obs_state \<Rightarrow> int \<Rightarrow> obs_state \<times> bool" where
  "accept_uptime st uptime =
     (if (case os_last_uptime st of None \<Rightarrow> False | Some t \<Rightarrow> uptime < t)
      then (let st' = malformed (finish_frame st) in (st'\<lparr>os_uptime_regressions := os_uptime_regressions st' + 1\<rparr>, False))
      else (st\<lparr>os_last_uptime := Some uptime\<rparr>, True))"

definition observer_step :: "string \<Rightarrow> obs_state \<Rightarrow> string option \<Rightarrow> obs_state" where
  "observer_step target st declared =
     (let st1 = finish_frame st; starts = os_observer_starts st1 + 1; bound = (starts = 1 \<and> declared = Some target);
          st2 = st1\<lparr>os_observer_starts := starts, os_observer_bound := bound\<rparr>
      in if bound then st2 else malformed st2)"

definition obs_step :: "string \<Rightarrow> obs_state \<Rightarrow> obs_line \<Rightarrow> obs_state" where
  "obs_step target st line = (case line of
      Unrelated \<Rightarrow> st
    | Observer declared \<Rightarrow> observer_step target st declared
    | _ \<Rightarrow>
      if \<not> os_observer_bound st then malformed st
      else (case line of
          Memory u free least largest control \<Rightarrow>
            (case accept_uptime st u of (st', ok) \<Rightarrow>
               if ok then st'\<lparr>os_memory := os_memory st' @ [(u, free, least, largest, control)]\<rparr> else st')
        | Tasks u expected captured \<Rightarrow>
            (case accept_uptime ((finish_frame st)\<lparr>os_frame_uptime := Some u\<rparr>) u of (st', ok) \<Rightarrow>
               if ok then st'\<lparr>os_expected_tasks := Some (if expected = captured \<and> expected \<le> 32 then expected else 0)\<rparr> else st')
        | Task u n margin \<Rightarrow>
            (case accept_uptime st u of (st', ok) \<Rightarrow>
               if \<not> ok then st'
               else if os_expected_tasks st' = None \<or> Some u \<noteq> os_frame_uptime st' \<or> n \<in> set (map fst (os_captured_tasks st'))
               then malformed st'
               else st'\<lparr>os_captured_tasks := os_captured_tasks st' @ [(n, margin)]\<rparr>)
        | Exit margin \<Rightarrow> st\<lparr>os_task_margins := os_task_margins st @ [margin]\<rparr>
        | _ \<Rightarrow> malformed (finish_frame st)))"

subsection \<open>Files and report\<close>

text \<open>A file is its content and the size \<^verbatim>\<open>stat\<close> reports afterwards.\<close>

definition obs_file :: "string \<Rightarrow> obs_state \<times> (pystr \<times> int) list \<Rightarrow> bytes \<times> int \<Rightarrow> obs_state \<times> (pystr \<times> int) list" where
  "obs_file target = (\<lambda>(st, inputs) (content, stat_size).
     (finish_frame (foldl (obs_step target) st (map classify (file_lines content))),
      inputs @ [(hex (sha256 content), stat_size)]))"

definition min_of :: "int list \<Rightarrow> int option" where
  "min_of xs = (case xs of [] \<Rightarrow> None | y # ys \<Rightarrow> Some (foldl min y ys))"

record observation =
  ob_target :: string
  ob_memory_samples :: int
  ob_complete_task_snapshots :: int
  ob_incomplete_task_snapshots :: int
  ob_malformed_resource_lines :: int
  ob_observer_start_declarations :: int
  ob_uptime_regressions :: int
  ob_observed_history_heap_min_bytes :: "int option"
  ob_observed_largest_block_min_bytes :: "int option"
  ob_observed_control_stack_min_bytes :: "int option"
  ob_observed_task_stack_min_bytes :: "int option"
  ob_observed_heap_gate_passed :: bool
  ob_observed_largest_gate_passed :: bool
  ob_observed_stack_gate_passed :: bool
  ob_inputs :: "(pystr \<times> int) list"

definition at_least :: "int \<Rightarrow> int option \<Rightarrow> bool" where
  "at_least gate v = (case v of None \<Rightarrow> False | Some n \<Rightarrow> gate \<le> n)"

definition obs_report :: "string \<Rightarrow> obs_state \<Rightarrow> (pystr \<times> int) list \<Rightarrow> observation" where
  "obs_report target st inputs =
     (let memory = os_memory st;
          history = min_of (map (\<lambda>(u, free, least, largest, control). least) memory);
          largest = min_of (map (\<lambda>(u, free, least, largest, control). largest) memory);
          control = min_of (map (\<lambda>(u, free, least, largest, control). control) memory);
          tasks = min_of (os_task_margins st);
          valid = (os_malformed st = 0 \<and> os_observer_bound st \<and> os_observer_starts st = 1)
      in \<lparr>ob_target = target, ob_memory_samples = int (length memory), ob_complete_task_snapshots = os_complete st,
          ob_incomplete_task_snapshots = os_incomplete st, ob_malformed_resource_lines = os_malformed st,
          ob_observer_start_declarations = os_observer_starts st, ob_uptime_regressions = os_uptime_regressions st,
          ob_observed_history_heap_min_bytes = history, ob_observed_largest_block_min_bytes = largest,
          ob_observed_control_stack_min_bytes = control, ob_observed_task_stack_min_bytes = tasks,
          ob_observed_heap_gate_passed = (valid \<and> at_least 16384 history),
          ob_observed_largest_gate_passed = (valid \<and> at_least 24576 largest),
          ob_observed_stack_gate_passed = (valid \<and> 0 < os_complete st \<and> os_incomplete st = 0 \<and> at_least 1024 control \<and> at_least 1024 tasks),
          ob_inputs = inputs\<rparr>)"

definition observe :: "(bytes \<times> int) list \<Rightarrow> string \<Rightarrow> observation res" where
  "observe files target =
     require (target \<in> {''esp32c3'', ''esp32''}) (Raise ValueError ''target'')
     (case foldl (obs_file target) (obs_start, []) files of (st, inputs) \<Rightarrow> Inr (obs_report target (finish_frame st) inputs))"

subsection \<open>What a clean run has seen\<close>

definition log_lines :: "(bytes \<times> int) list \<Rightarrow> obs_line list" where
  "log_lines files = concat (map (\<lambda>(content, stat_size). map classify (file_lines content)) files)"

definition memories :: "obs_line list \<Rightarrow> (int \<times> int \<times> int \<times> int \<times> int) list" where
  "memories ls = List.map_filter (\<lambda>l. case l of Memory u free least largest control \<Rightarrow> Some (u, free, least, largest, control) | _ \<Rightarrow> None) ls"

definition observers :: "obs_line list \<Rightarrow> obs_line list" where
  "observers ls = filter (\<lambda>l. case l of Observer d \<Rightarrow> True | _ \<Rightarrow> False) ls"

definition task_margins_of :: "obs_line list \<Rightarrow> int set" where
  "task_margins_of ls = {m. \<exists>u n. Task u n m \<in> set ls}"

definition exit_margins_of :: "obs_line list \<Rightarrow> int set" where
  "exit_margins_of ls = {m. Exit m \<in> set ls}"

definition counters_ok :: "obs_state \<Rightarrow> bool" where
  "counters_ok st = (0 \<le> os_malformed st \<and> 0 \<le> os_incomplete st \<and> 0 \<le> os_complete st \<and>
     (os_expected_tasks st = None \<longrightarrow> os_captured_tasks st = []))"

definition clean :: "string \<Rightarrow> obs_line list \<Rightarrow> obs_state \<Rightarrow> bool" where
  "clean target ls st =
     (Malformed \<notin> set ls \<and> memories ls = os_memory st \<and>
      observers ls = (if os_observer_bound st then [Observer (Some target)] else []) \<and>
      os_observer_starts st = (if os_observer_bound st then 1 else 0) \<and>
      exit_margins_of ls \<subseteq> set (os_task_margins st) \<and>
      (os_incomplete st = 0 \<longrightarrow> task_margins_of ls \<subseteq> set (os_task_margins st) \<union> snd ` set (os_captured_tasks st)))"

definition run_inv :: "string \<Rightarrow> obs_line list \<Rightarrow> obs_state \<Rightarrow> bool" where
  "run_inv target ls st = (counters_ok st \<and> (os_malformed st = 0 \<longrightarrow> clean target ls st))"

lemma ls_snoc:
  "memories (ls @ [l]) = memories ls @ memories [l]" "observers (ls @ [l]) = observers ls @ observers [l]"
  "task_margins_of (ls @ [l]) = task_margins_of ls \<union> task_margins_of [l]"
  "exit_margins_of (ls @ [l]) = exit_margins_of ls \<union> exit_margins_of [l]"
  by (auto simp: memories_def observers_def task_margins_of_def exit_margins_of_def map_filter_def)

lemma line_simps:
  "memories [l] = (case l of Memory u free least largest control \<Rightarrow> [(u, free, least, largest, control)] | _ \<Rightarrow> [])"
  "observers [l] = (case l of Observer d \<Rightarrow> [l] | _ \<Rightarrow> [])"
  "task_margins_of [l] = (case l of Task u n m \<Rightarrow> {m} | _ \<Rightarrow> {})"
  "exit_margins_of [l] = (case l of Exit m \<Rightarrow> {m} | _ \<Rightarrow> {})"
  by (auto simp: memories_def observers_def task_margins_of_def exit_margins_of_def map_filter_def split: obs_line.splits)

lemma finish_frame_inv: "run_inv target ls st \<Longrightarrow> run_inv target ls (finish_frame st)"
  by (auto simp: run_inv_def counters_ok_def clean_def finish_frame_def Let_def split: option.splits)

lemma finish_frame_closed [simp]:
  "os_expected_tasks (finish_frame st) = None" "os_captured_tasks (finish_frame st) = []"
  "os_malformed (finish_frame st) = os_malformed st" "os_observer_bound (finish_frame st) = os_observer_bound st"
  "os_memory (finish_frame st) = os_memory st" "os_observer_starts (finish_frame st) = os_observer_starts st"
  "os_last_uptime (finish_frame st) = os_last_uptime st"
  by (auto simp: finish_frame_def Let_def split: option.splits)

lemma malformed_inv: "counters_ok st \<Longrightarrow> run_inv target ls (malformed st)"
  by (simp add: run_inv_def counters_ok_def malformed_def)

lemma counters_finish: "counters_ok st \<Longrightarrow> counters_ok (finish_frame st)"
  using finish_frame_inv [of undefined undefined st] by (auto simp: counters_ok_def finish_frame_def Let_def split: option.splits)

lemma accept_uptime_cases:
  assumes "accept_uptime st u = (st', ok)"
  shows "ok \<and> st' = st\<lparr>os_last_uptime := Some u\<rparr> \<or>
    \<not> ok \<and> (\<exists>n. st' = (malformed (finish_frame st))\<lparr>os_uptime_regressions := n\<rparr>)"
  using assms by (auto simp: accept_uptime_def Let_def split: if_splits)

lemma run_inv_regressions: "run_inv target ls (st\<lparr>os_uptime_regressions := n\<rparr>) \<longleftrightarrow> run_inv target ls st"
  by (simp add: run_inv_def counters_ok_def clean_def)

lemma run_inv_uptimes:
  "run_inv target ls (st\<lparr>os_last_uptime := t\<rparr>) \<longleftrightarrow> run_inv target ls st"
  "run_inv target ls (st\<lparr>os_frame_uptime := t\<rparr>) \<longleftrightarrow> run_inv target ls st"
  by (simp_all add: run_inv_def counters_ok_def clean_def)

lemma run_inv_rejected:
  assumes "accept_uptime st u = (st', False)" "counters_ok st"
  shows "run_inv target ls st'"
  using accept_uptime_cases [OF assms(1)] malformed_inv [OF counters_finish [OF assms(2)]]
  by (auto simp: run_inv_regressions)

lemma obs_step_inv:
  assumes inv: "run_inv target ls st"
  shows "run_inv target (ls @ [l]) (obs_step target st l)"
proof -
  have c: "counters_ok st"
    using inv by (simp add: run_inv_def)
  show ?thesis
  proof (cases l)
    case Unrelated
    with inv show ?thesis
      by (simp add: obs_step_def run_inv_def clean_def ls_snoc line_simps)
  next
    case (Observer d)
    have f: "run_inv target ls (finish_frame st)"
      using inv by (rule finish_frame_inv)
    show ?thesis
    proof (cases "os_observer_starts st + 1 = 1 \<and> d = Some target")
      case True
      with Observer f show ?thesis
        by (auto simp: obs_step_def observer_step_def Let_def run_inv_def counters_ok_def clean_def ls_snoc line_simps split: if_splits)
    next
      case False
      with Observer counters_finish [OF c] show ?thesis
        by (auto simp: obs_step_def observer_step_def Let_def run_inv_def counters_ok_def malformed_def)
    qed
  next
    case (Memory u free least largest control)
    obtain st' ok where a: "accept_uptime st u = (st', ok)" by fastforce
    show ?thesis
    proof (cases "os_observer_bound st \<and> ok")
      case True
      with a have "st' = st\<lparr>os_last_uptime := Some u\<rparr>"
        using accept_uptime_cases [OF a] by simp
      with True Memory inv a show ?thesis
        by (auto simp: obs_step_def run_inv_def counters_ok_def clean_def ls_snoc line_simps)
    next
      case False
      with Memory a c show ?thesis
        by (auto simp: obs_step_def intro: malformed_inv run_inv_rejected)
    qed
  next
    case (Tasks u expected captured)
    let ?st = "(finish_frame st)\<lparr>os_frame_uptime := Some u\<rparr>"
    have f: "run_inv target ls ?st"
      using finish_frame_inv [OF inv] by (simp add: run_inv_uptimes)
    then have c': "counters_ok ?st"
      by (simp add: run_inv_def)
    obtain st' ok where a: "accept_uptime ?st u = (st', ok)" by fastforce
    show ?thesis
    proof (cases "os_observer_bound st \<and> ok")
      case True
      with a have "st' = ?st\<lparr>os_last_uptime := Some u\<rparr>"
        using accept_uptime_cases [OF a] by simp
      with True Tasks f a show ?thesis
        by (auto simp: obs_step_def run_inv_def counters_ok_def clean_def ls_snoc line_simps)
    next
      case False
      with Tasks a c c' show ?thesis
        by (auto simp: obs_step_def intro: malformed_inv run_inv_rejected)
    qed
  next
    case (Task u n margin)
    obtain st' ok where a: "accept_uptime st u = (st', ok)" by fastforce
    show ?thesis
    proof (cases "os_observer_bound st \<and> ok")
      case True
      with a have st': "st' = st\<lparr>os_last_uptime := Some u\<rparr>"
        using accept_uptime_cases [OF a] by simp
      then have "counters_ok st'"
        using c by (simp add: counters_ok_def)
      with st' True Task inv a show ?thesis
        by (auto simp: obs_step_def run_inv_def counters_ok_def clean_def malformed_def ls_snoc line_simps)
    next
      case False
      with Task a c show ?thesis
        by (auto simp: obs_step_def intro: malformed_inv run_inv_rejected)
    qed
  next
    case (Exit margin)
    show ?thesis
    proof (cases "os_observer_bound st")
      case True
      with Exit inv show ?thesis
        by (auto simp: obs_step_def run_inv_def counters_ok_def clean_def ls_snoc line_simps)
    next
      case False
      with Exit malformed_inv [OF c] show ?thesis
        by (simp add: obs_step_def)
    qed
  next
    case Malformed
    with malformed_inv [OF c] malformed_inv [OF counters_finish [OF c]] show ?thesis
      by (simp add: obs_step_def)
  qed
qed

lemma obs_steps_inv:
  "run_inv target ls st \<Longrightarrow> run_inv target (ls @ new) (foldl (obs_step target) st new)"
proof (induction new arbitrary: ls st)
  case (Cons l new)
  from Cons.IH [OF obs_step_inv [OF Cons.prems]] show ?case by simp
qed simp

lemma obs_files_inv:
  "run_inv target ls st \<Longrightarrow> foldl (obs_file target) (st, ins) files = (st', outs) \<Longrightarrow> run_inv target (ls @ log_lines files) st'"
proof (induction files arbitrary: ls st ins)
  case (Cons f files)
  obtain content stat_size where f: "f = (content, stat_size)" by (cases f)
  let ?new = "map classify (file_lines content)"
  let ?st = "finish_frame (foldl (obs_step target) st ?new)"
  have i: "run_inv target (ls @ ?new) ?st"
    by (intro finish_frame_inv obs_steps_inv Cons.prems(1))
  have "foldl (obs_file target) (?st, ins @ [(hex (sha256 content), stat_size)]) files = (st', outs)"
    using Cons.prems(2) by (simp add: obs_file_def f)
  from Cons.IH [OF i this] show ?case
    by (simp add: log_lines_def f)
qed (simp add: log_lines_def)

lemma foldl_min_le: "foldl min y ys \<le> y" "x \<in> set ys \<Longrightarrow> foldl min y ys \<le> x" for y :: int
proof -
  have "foldl min y ys \<le> y \<and> (\<forall>x \<in> set ys. foldl min y ys \<le> x)" for y :: int
  proof (induction ys arbitrary: y)
    case (Cons z zs)
    from Cons.IH [of "min y z"] show ?case by auto
  qed simp
  then show "foldl min y ys \<le> y" "x \<in> set ys \<Longrightarrow> foldl min y ys \<le> x"
    by simp_all
qed

lemma min_of_le: "at_least gate (min_of xs) \<Longrightarrow> xs \<noteq> [] \<and> (\<forall>x \<in> set xs. gate \<le> x)"
  by (cases xs) (auto simp: at_least_def min_of_def intro: order.trans foldl_min_le)

lemma memories_iff: "Memory u free least largest control \<in> set ls \<Longrightarrow> (u, free, least, largest, control) \<in> set (memories ls)"
  by (force simp: memories_def map_filter_def)

text \<open>
  C40: a passing gate speaks about the whole log.  When the observer reports that a gate passed, the logs
  contain exactly one start declaration, well-formed and for the chosen target, and no resource line in
  an unknown format; and the gate's bound holds for every reading anywhere in the logs that the gate
  is about: the historic minimum, the largest block, and for the stack gate the control stack, every
  task of every snapshot and every observed exit.
\<close>

theorem observed_gates_cover_log:
  assumes "observe files target = Inr r"
    and "ob_observed_heap_gate_passed r \<or> ob_observed_largest_gate_passed r \<or> ob_observed_stack_gate_passed r"
  shows "observers (log_lines files) = [Observer (Some target)] \<and> Malformed \<notin> set (log_lines files) \<and>
    (\<forall>u free least largest control. Memory u free least largest control \<in> set (log_lines files) \<longrightarrow>
       (ob_observed_heap_gate_passed r \<longrightarrow> 16384 \<le> least) \<and> (ob_observed_largest_gate_passed r \<longrightarrow> 24576 \<le> largest) \<and>
       (ob_observed_stack_gate_passed r \<longrightarrow> 1024 \<le> control)) \<and>
    (ob_observed_stack_gate_passed r \<longrightarrow> (\<forall>m \<in> task_margins_of (log_lines files) \<union> exit_margins_of (log_lines files). 1024 \<le> m))"
proof -
  obtain st ins where run: "foldl (obs_file target) (obs_start, []) files = (st, ins)" by fastforce
  let ?fin = "finish_frame st"
  have r: "r = obs_report target ?fin ins"
    using assms(1) run by (simp add: observe_def res_simps)
  have "run_inv target [] obs_start"
    by (simp add: run_inv_def counters_ok_def clean_def obs_start_def memories_def observers_def exit_margins_of_def
        task_margins_of_def map_filter_def)
  from finish_frame_inv [OF obs_files_inv [OF this run]] have inv: "run_inv target (log_lines files) ?fin" by simp
  have valid: "os_malformed ?fin = 0" "os_observer_bound ?fin"
    using assms(2) by (auto simp: r obs_report_def Let_def)
  with inv have clean: "clean target (log_lines files) ?fin"
    by (simp add: run_inv_def)
  have mem: "(u, free, least, largest, control) \<in> set (os_memory ?fin)"
    if "Memory u free least largest control \<in> set (log_lines files)" for u free least largest control
    using memories_iff [OF that] clean by (simp add: clean_def)
  have heap: "16384 \<le> least" if "ob_observed_heap_gate_passed r" "Memory u free least largest control \<in> set (log_lines files)"
    for u free least largest control
    using that(1) min_of_le mem [OF that(2)] by (fastforce simp: r obs_report_def Let_def)
  have big: "24576 \<le> largest" if "ob_observed_largest_gate_passed r" "Memory u free least largest control \<in> set (log_lines files)"
    for u free least largest control
    using that(1) min_of_le mem [OF that(2)] by (fastforce simp: r obs_report_def Let_def)
  have control: "1024 \<le> control" if "ob_observed_stack_gate_passed r" "Memory u free least largest control \<in> set (log_lines files)"
    for u free least largest control
    using that(1) min_of_le mem [OF that(2)] by (fastforce simp: r obs_report_def Let_def)
  have stack: "1024 \<le> m" if p: "ob_observed_stack_gate_passed r" and m: "m \<in> task_margins_of (log_lines files) \<union> exit_margins_of (log_lines files)" for m
  proof -
    have "os_incomplete ?fin = 0" "\<forall>x \<in> set (os_task_margins ?fin). 1024 \<le> x"
      using p min_of_le [of 1024 "os_task_margins ?fin"] by (auto simp: r obs_report_def Let_def)
    moreover from this have "m \<in> set (os_task_margins ?fin)"
      using clean m by (auto simp: clean_def)
    ultimately show ?thesis by blast
  qed
  show ?thesis
    using clean valid heap big control stack by (simp add: clean_def)
qed

text \<open>A log with a start declaration, a memory sample, a snapshot of one task and an exit.\<close>

definition sample_observer_line :: string where
  "sample_observer_line = ''ESP_BASE_CAPACITY_OBSERVER LAB_ONLY target='' @ ''esp32'' @ '' period_ms=5000'' @
     '' task_limit=32 exit_limit=64 other_capability_domains=unmeasured'' @
     '' worker_exit_coverage=ota_before_done_and_normal_task_cleanup'' @
     '' uncaptured_exits=reset_panic_before_cleanup non_task_stacks=unmeasured'' @
     '' largest_history=unmeasured full_peak_qualification=0'' @
     '' frozen_signed_image_qualification=0 observation_cost_added_back=0''"

lemmas classify_simps = classify_def resource_line_def map_filter_def ascii_def Let_def startswith_def rstrip_def eol_def
  match_numbers_def MEMORY_format_def TASKS_format_def TASK_format_def EXIT_format_def digit_byte_def nonblank_byte_def byte_digits_value_def

lemma classify_observer: "classify (ascii sample_observer_line @ [10]) = Observer (Some ''esp32'')"
  by (simp add: classify_simps sample_observer_line_def observer_target_def observer_format_def)
lemma classify_memory: "classify (ascii ''ESP_BASE_LAB_MEMORY uptime_ms=5000 free_bytes=90000 min_bytes=70000 largest_bytes=40000 control_stack_min_bytes=2000'' @ [10]) = Memory 5000 90000 70000 40000 2000"
  by (simp add: classify_simps)
lemma classify_tasks: "classify (ascii ''ESP_BASE_LAB_TASKS uptime_ms=5001 expected=1 captured=1 workspace_bytes=900'' @ [10]) = Tasks 5001 1 1"
  by (simp add: classify_simps)
lemma classify_task: "classify (ascii ''ESP_BASE_LAB_TASK uptime_ms=5001 task=Tmr Svc task_number=3 minimum_stack_bytes=1500 priority=1 state=2'' @ [10]) = Task 5001 3 1500"
  by (simp add: classify_simps)
lemma classify_exit: "classify (ascii ''ESP_BASE_LAB_TASK_EXIT phase=done task=ota task_number=9 minimum_stack_bytes=1100'' @ [10]) = Exit 1100"
  by (simp add: classify_simps)
definition sample_obs_log :: bytes where
  "sample_obs_log = concat (map (\<lambda>s. ascii s @ [10]) [sample_observer_line,
     ''ESP_BASE_LAB_MEMORY uptime_ms=5000 free_bytes=90000 min_bytes=70000 largest_bytes=40000 control_stack_min_bytes=2000'',
     ''ESP_BASE_LAB_TASKS uptime_ms=5001 expected=1 captured=1 workspace_bytes=900'',
     ''ESP_BASE_LAB_TASK uptime_ms=5001 task=Tmr Svc task_number=3 minimum_stack_bytes=1500 priority=1 state=2'',
     ''ESP_BASE_LAB_TASK_EXIT phase=done task=ota task_number=9 minimum_stack_bytes=1100''])"

lemma sample_obs_lines:
  "map classify (file_lines sample_obs_log) =
     [Observer (Some ''esp32''), Memory 5000 90000 70000 40000 2000, Tasks 5001 1 1, Task 5001 3 1500, Exit 1100]"
proof -
  have "10 \<notin> set (ascii sample_observer_line)"
    by (simp add: ascii_def sample_observer_line_def)
  then have "file_lines sample_obs_log = map (\<lambda>s. ascii s @ [10]) [sample_observer_line,
     ''ESP_BASE_LAB_MEMORY uptime_ms=5000 free_bytes=90000 min_bytes=70000 largest_bytes=40000 control_stack_min_bytes=2000'',
     ''ESP_BASE_LAB_TASKS uptime_ms=5001 expected=1 captured=1 workspace_bytes=900'',
     ''ESP_BASE_LAB_TASK uptime_ms=5001 task=Tmr Svc task_number=3 minimum_stack_bytes=1500 priority=1 state=2'',
     ''ESP_BASE_LAB_TASK_EXIT phase=done task=ota task_number=9 minimum_stack_bytes=1100'']"
    unfolding sample_obs_log_def by (intro file_lines_concat) (simp, simp add: ascii_def)
  then show ?thesis
    by (simp add: classify_observer classify_memory classify_tasks classify_task classify_exit)
qed

theorem observed_gates_cover_log_witness:
  "\<exists>r. observe [(sample_obs_log, 7)] ''esp32'' = Inr r \<and> ob_observed_stack_gate_passed r \<and>
     task_margins_of (log_lines [(sample_obs_log, 7)]) = {1500} \<and>
     (\<forall>m \<in> task_margins_of (log_lines [(sample_obs_log, 7)]). 1024 \<le> m)"
proof -
  let ?files = "[(sample_obs_log, 7 :: int)]"
  have ls: "log_lines ?files =
      [Observer (Some ''esp32''), Memory 5000 90000 70000 40000 2000, Tasks 5001 1 1, Task 5001 3 1500, Exit 1100]"
    by (simp add: log_lines_def sample_obs_lines)
  obtain r where r: "observe ?files ''esp32'' = Inr r"
    by (cases "obs_file ''esp32'' (obs_start, []) (sample_obs_log, 7)") (simp add: observe_def)
  have g: "ob_observed_stack_gate_passed r"
    using r by (auto simp: observe_def obs_file_def sample_obs_lines obs_step_def observer_step_def obs_start_def finish_frame_def
        accept_uptime_def Let_def obs_report_def at_least_def min_of_def)
  have "task_margins_of (log_lines ?files) = {1500}"
    by (auto simp: ls task_margins_of_def)
  then show ?thesis
    using r g observed_gates_cover_log [OF r] by auto
qed

end
