(* ===== verification/Business_Event.thy ===== *)
theory Business_Event
  imports Python_Values Digests
begin

text \<open>
  Signed business events (\<^verbatim>\<open>business_event.py\<close>) and their verification before publication
  (\<^verbatim>\<open>business_event_publish.py\<close>): the management key file, the frame and its check.  The HMAC is that of
  the standard library over SHA-256.  A file is what the tools observe of it: its type, owner, mode
  and link count, and its content.

  A frame is the lower-case hexadecimal MAC, a line feed and the signed part: the domain, the two
  identities, the sequence number in eight bytes, and the event.
\<close>

subsection \<open>Private files\<close>

record file_facts =
  pf_regular :: bool
  pf_own :: bool
  pf_mode :: nat
  pf_links :: nat
  pf_content :: bytes

text \<open>\<^verbatim>\<open>0o600\<close> is 384.\<close>

definition private_file :: "file_facts \<Rightarrow> nat \<Rightarrow> bytes res" where
  "private_file f limit =
     require (pf_regular f \<and> pf_own f \<and> pf_mode f = 384 \<and> pf_links f = 1) (Raise ValueError ''not a private file'')
     (let raw = take (limit + 1) (pf_content f) in
      require (length raw \<le> limit) (Raise ValueError ''input file too long'') (Inr raw))"

definition removesuffix :: "'a list \<Rightarrow> 'a list \<Rightarrow> 'a list" where
  "removesuffix xs suf =
     (if length suf \<le> length xs \<and> drop (length xs - length suf) xs = suf then take (length xs - length suf) xs else xs)"

definition private_key :: "file_facts \<Rightarrow> bytes res" where
  "private_key f =
     require (pf_regular f \<and> pf_mode f = 384) (Raise ValueError ''key file type or mode'')
     (let key_hex = removesuffix (take 66 (pf_content f)) [10] in
      require (length key_hex = 64 \<and> list_all (\<lambda>b. is_lower_hex (unat b)) key_hex) (Raise ValueError ''key file content'')
      (of_option (Raise ValueError ''fromhex'') (unhex (map unat key_hex))))"

subsection \<open>Frames\<close>

definition DOMAIN_TEXT :: bytes where
  "DOMAIN_TEXT = ascii ''esp-base-business-event-v1'' @ [10]"

definition MAX_FRAME_BYTES :: nat where
  "MAX_FRAME_BYTES = 4096"

definition MAX_SEQUENCE :: int where
  "MAX_SEQUENCE = 2 ^ 64 - 1"

definition FRAME_HEADER_BYTES :: nat where
  "FRAME_HEADER_BYTES = 65 + length DOMAIN_TEXT + 36 + 36 + 8"

definition event_frame :: "bytes \<Rightarrow> pystr \<Rightarrow> pystr \<Rightarrow> int \<Rightarrow> bytes \<Rightarrow> bytes res" where
  "event_frame key device_id boot_id event_sequence event =
     bindE (canonical_uuid device_id) (\<lambda>_. bindE (canonical_uuid boot_id) (\<lambda>_.
     require (length key = 32 \<and> any_byte key) (Raise ValueError ''management key'')
     (require (1 \<le> event_sequence \<and> event_sequence \<le> MAX_SEQUENCE) (Raise ValueError ''event sequence'')
     (require (event \<noteq> []) (Raise ValueError ''empty event'')
     (bindE (of_option (Raise UnicodeError ''ascii'') (ascii_encode device_id)) (\<lambda>device.
      bindE (of_option (Raise UnicodeError ''ascii'') (ascii_encode boot_id)) (\<lambda>boot.
      let body = DOMAIN_TEXT @ device @ boot @ to_be 8 (nat event_sequence) @ event;
          frame = map word_of_nat (hex (hmac_sha256 key body)) @ [10] @ body in
      require (length frame \<le> MAX_FRAME_BYTES) (Raise ValueError ''frame too long'') (Inr frame))))))))"

definition verified_frame :: "file_facts \<Rightarrow> file_facts \<Rightarrow> pystr \<Rightarrow> pystr \<Rightarrow> int \<Rightarrow> bytes res" where
  "verified_frame frame_file key_file device_id boot_id event_sequence =
     bindE (private_file frame_file MAX_FRAME_BYTES) (\<lambda>frame.
     require (FRAME_HEADER_BYTES < length frame) (Raise ValueError ''incomplete frame'')
     (bindE (private_key key_file) (\<lambda>key.
      bindE (event_frame key device_id boot_id event_sequence (drop FRAME_HEADER_BYTES frame)) (\<lambda>expected.
      require (frame = expected) (Raise ValueError ''frame does not match'') (Inr frame)))))"

subsection \<open>Lemmas\<close>

lemma uuid_encoded:
  "valid_uuid_text s \<Longrightarrow> ascii_encode s = Some (map word_of_nat s)"
  using uuid_text_shape by (simp add: ascii_encode_def)

lemma length_DOMAIN_TEXT [simp]: "length DOMAIN_TEXT = 27"
  by (simp add: DOMAIN_TEXT_def)

lemma header_bytes [simp]: "FRAME_HEADER_BYTES = 172"
  by (simp add: FRAME_HEADER_BYTES_def)

definition frame_body :: "pystr \<Rightarrow> pystr \<Rightarrow> int \<Rightarrow> bytes \<Rightarrow> bytes" where
  "frame_body device_id boot_id event_sequence event =
     DOMAIN_TEXT @ map word_of_nat device_id @ map word_of_nat boot_id @ to_be 8 (nat event_sequence) @ event"

definition frame_mac :: "bytes \<Rightarrow> bytes \<Rightarrow> bytes" where
  "frame_mac key body = map word_of_nat (hex (hmac_sha256 key body))"

lemma length_frame_mac [simp]: "length (frame_mac key body) = 64"
  by (simp add: frame_mac_def)

lemma event_frame_iff:
  "event_frame key device_id boot_id event_sequence event = Inr frame \<longleftrightarrow>
     valid_uuid_text device_id \<and> valid_uuid_text boot_id \<and> length key = 32 \<and> any_byte key \<and>
     1 \<le> event_sequence \<and> event_sequence \<le> MAX_SEQUENCE \<and> event \<noteq> [] \<and> length frame \<le> 4096 \<and>
     frame = frame_mac key (frame_body device_id boot_id event_sequence event) @ [10] @ frame_body device_id boot_id event_sequence event"
proof (cases "valid_uuid_text device_id \<and> valid_uuid_text boot_id")
  case True
  then show ?thesis
    by (auto simp: event_frame_def canonical_uuid_valid res_simps uuid_encoded Let_def MAX_FRAME_BYTES_def frame_body_def frame_mac_def)
next
  case False
  then show ?thesis
    by (auto simp: event_frame_def canonical_uuid_valid res_simps)
qed

lemma length_frame_body:
  "valid_uuid_text device_id \<Longrightarrow> valid_uuid_text boot_id \<Longrightarrow> length (frame_body device_id boot_id n event) = 107 + length event"
  by (simp add: frame_body_def uuid_text_shape)

lemma drop_header:
  assumes "valid_uuid_text device_id" "valid_uuid_text boot_id"
  shows "drop 172 (frame_mac key body @ [10] @ frame_body device_id boot_id n event) = event"
  using assms by (simp add: frame_body_def uuid_text_shape)

lemma uuid_bytes_inj:
  assumes "valid_uuid_text a" "valid_uuid_text b" "map word_of_nat a = (map word_of_nat b :: bytes)"
  shows "a = b"
  using assms uuid_encoded ascii_text.enc_inj by metis

lemma frame_body_inj:
  assumes "valid_uuid_text d" "valid_uuid_text b" "valid_uuid_text d'" "valid_uuid_text b'"
    and "1 \<le> n" "n \<le> MAX_SEQUENCE" "1 \<le> n'" "n' \<le> MAX_SEQUENCE"
    and eq: "frame_body d b n event = frame_body d' b' n' event'"
  shows "d = d' \<and> b = b' \<and> n = n' \<and> event = event'"
proof -
  have parts: "map word_of_nat d = (map word_of_nat d' :: bytes)" "map word_of_nat b = (map word_of_nat b' :: bytes)"
    "to_be 8 (nat n) = to_be 8 (nat n')" "event = event'"
    using eq assms(1-4) by (simp_all add: frame_body_def uuid_text_shape)
  have lt: "nat n < 256 ^ 8" "nat n' < 256 ^ 8"
    using assms(5-8) by (simp_all add: MAX_SEQUENCE_def)
  have "nat n = nat n'"
    by (rule box_equals [OF arg_cong [OF parts(3), of from_be] from_be_to_be [OF lt(1)] from_be_to_be [OF lt(2)]])
  then have "n = n'"
    using assms(5,7) by linarith
  then show ?thesis
    using parts uuid_bytes_inj [OF assms(1,3)] uuid_bytes_inj [OF assms(2,4)] by blast
qed

text \<open>
  C39: a frame names one event.  Two frames built with any keys are equal only if they carry the same
  device, boot, sequence number and event.
\<close>

theorem event_frame_unambiguous:
  assumes "event_frame key d b n event = Inr frame" and "event_frame key' d' b' n' event' = Inr frame"
  shows "d = d' \<and> b = b' \<and> n = n' \<and> event = event'"
proof -
  note a = assms(1) [unfolded event_frame_iff] and a' = assms(2) [unfolded event_frame_iff]
  have "frame_mac key (frame_body d b n event) @ [10] @ frame_body d b n event
      = frame_mac key' (frame_body d' b' n' event') @ [10] @ frame_body d' b' n' event'"
    using a a' by metis
  then have "frame_body d b n event = frame_body d' b' n' event'"
    by simp
  then show ?thesis
    using a a' by (intro frame_body_inj) blast+
qed

definition event_device :: pystr where
  "event_device = str ''12345678-9abc-4def-8123-456789abcdef''"

lemma event_device_valid: "valid_uuid_text event_device"
  by (simp add: valid_uuid_text_def uuid_v4_classes_def event_device_def str_def is_lower_hex_def numeral_eq_Suc)

definition event_key :: bytes where
  "event_key = replicate 32 7"

definition sample_frame_of :: "int \<Rightarrow> bytes" where
  "sample_frame_of n = frame_mac event_key (frame_body event_device event_device n [65]) @ [10] @ frame_body event_device event_device n [65]"

lemma sample_event_frame:
  "1 \<le> n \<Longrightarrow> n \<le> MAX_SEQUENCE \<Longrightarrow> event_frame event_key event_device event_device n [65] = Inr (sample_frame_of n)"
  by (simp add: event_frame_iff event_device_valid sample_frame_of_def length_frame_body) (simp add: event_key_def any_byte_def list_ex_iff)

theorem event_frame_unambiguous_witness:
  "event_frame event_key event_device event_device 1 [65] = Inr (sample_frame_of 1) \<and> sample_frame_of 1 \<noteq> sample_frame_of 2"
proof -
  have one: "event_frame event_key event_device event_device 1 [65] = Inr (sample_frame_of 1)"
    and two: "event_frame event_key event_device event_device 2 [65] = Inr (sample_frame_of 2)"
    by (simp_all add: sample_event_frame MAX_SEQUENCE_def)
  have "sample_frame_of 1 \<noteq> sample_frame_of 2"
  proof
    assume "sample_frame_of 1 = sample_frame_of 2"
    with two have "event_frame event_key event_device event_device 2 [65] = Inr (sample_frame_of 1)" by simp
    from event_frame_unambiguous [OF one this] show False by simp
  qed
  with one show ?thesis by simp
qed

lemma verified_frame_iff:
  "verified_frame frame_file key_file d b n = Inr frame \<longleftrightarrow>
     private_file frame_file 4096 = Inr frame \<and>
     (\<exists>key event. private_key key_file = Inr key \<and> event_frame key d b n event = Inr frame)"
proof
  assume "verified_frame frame_file key_file d b n = Inr frame"
  then show "private_file frame_file 4096 = Inr frame \<and>
     (\<exists>key event. private_key key_file = Inr key \<and> event_frame key d b n event = Inr frame)"
    by (auto simp: verified_frame_def res_simps MAX_FRAME_BYTES_def)
next
  assume *: "private_file frame_file 4096 = Inr frame \<and>
     (\<exists>key event. private_key key_file = Inr key \<and> event_frame key d b n event = Inr frame)"
  then obtain key event where k: "private_key key_file = Inr key" and e: "event_frame key d b n event = Inr frame"
    by blast
  from e have "event = drop 172 frame" "172 < length frame"
    using drop_header length_frame_body by (auto simp: event_frame_iff)
  with * k e show "verified_frame frame_file key_file d b n = Inr frame"
    by (simp add: verified_frame_def res_simps MAX_FRAME_BYTES_def)
qed

text \<open>
  A frame file passes verification exactly when it is a frame this key signs for this device, boot
  and sequence number: the file is private, holds at most 4096 bytes and is the frame of some
  non-empty event.
\<close>

theorem verified_frame_exact:
  "verified_frame frame_file key_file d b n = Inr frame \<longleftrightarrow>
     pf_regular frame_file \<and> pf_own frame_file \<and> pf_mode frame_file = 384 \<and> pf_links frame_file = 1 \<and>
     pf_content frame_file = frame \<and> length frame \<le> 4096 \<and>
     (\<exists>key event. private_key key_file = Inr key \<and> event_frame key d b n event = Inr frame)"
proof -
  have "private_file frame_file 4096 = Inr frame \<longleftrightarrow>
     pf_regular frame_file \<and> pf_own frame_file \<and> pf_mode frame_file = 384 \<and> pf_links frame_file = 1 \<and>
     pf_content frame_file = frame \<and> length frame \<le> 4096"
    by (auto simp: private_file_def Let_def res_simps)
  then show ?thesis
    by (simp add: verified_frame_iff)
qed


end
