(* ===== verification/Event_Publish.thy ===== *)
theory Event_Publish
  imports Business_Event
begin

text \<open>
  The publication of one signed business event (\<^verbatim>\<open>business_event_publish.py\<close>): the control account, the
  validation of the \<^verbatim>\<open>reported\<close> message of the device, and the protocol of \<^verbatim>\<open>main\<close>: connect, subscribe,
  wait for the device's state, publish once, wait for the confirmed completion.

  The broker and the clock are the environment.  One \<open>tick\<close> is one iteration of a waiting loop: whether
  the deadline has passed when the loop looks at the clock, whether the observation queue has
  overflowed, and what the queue yields, if anything, before the timeout.  A run that has used up
  its ticks finds the deadline passed and the queue empty.  The answers of the client library to
  \<^verbatim>\<open>connect\<close>, \<^verbatim>\<open>subscribe\<close> and \<^verbatim>\<open>publish\<close> are the record \<open>broker\<close>; \<open>loads\<close> is \<^verbatim>\<open>json.loads\<close> on the
  decoded payload.
\<close>

subsection \<open>Credentials\<close>

definition credentials :: "pyval res \<Rightarrow> (pystr \<times> pyval) list res" where
  "credentials loaded =
     bindE loaded (\<lambda>v. (case v of
        PDict d \<Rightarrow>
          require (keys_are d [''username'', ''password''] \<and>
                   list_all (\<lambda>(_, x). case x of PStr s \<Rightarrow> s \<noteq> [] \<and> list_all (\<lambda>c. 32 \<le> c) s | _ \<Rightarrow> False) d)
            (Raise ValueError ''control account'') (Inr d)
      | _ \<Rightarrow> Inl (Raise ValueError ''control account'')))"

subsection \<open>The reported message\<close>

record reported =
  rm_accepted :: int
  rm_completed :: "int option"
  rm_sha256 :: "pystr option"
  rm_outcome :: pystr
  rm_result :: "int option"

definition reported_fields :: "string list" where
  "reported_fields = [''protocol_version'', ''device_id'', ''boot_id'', ''uptime_ms'', ''revision'', ''wifi_state'', ''time_ready'',
     ''last_accepted_event_sequence'', ''last_completed_event_sequence'', ''last_completed_event_sha256'',
     ''last_event_outcome'', ''last_business_result'']"

definition nonneg_int :: "pyval \<Rightarrow> int res" where
  "nonneg_int v = (case v of
      PInt n \<Rightarrow> require (0 \<le> n) (Raise ValueError ''reported number'') (Inr n)
    | _ \<Rightarrow> Inl (Raise ValueError ''reported number''))"

definition completed_sequence :: "int \<Rightarrow> pyval \<Rightarrow> int option res" where
  "completed_sequence accepted v = (case v of
      PNone \<Rightarrow> Inr None
    | PInt n \<Rightarrow> require (1 \<le> n \<and> n \<le> accepted) (Raise ValueError ''completed sequence'') (Inr (Some n))
    | _ \<Rightarrow> Inl (Raise ValueError ''completed sequence''))"

definition event_outcome :: "pyval \<Rightarrow> pystr res" where
  "event_outcome v = (case v of
      PStr s \<Rightarrow> require (s \<in> {str ''none'', str ''succeeded'', str ''business_failed''}) (Raise ValueError ''event outcome'') (Inr s)
    | _ \<Rightarrow> Inl (Raise ValueError ''event outcome''))"

definition completed_facts :: "int option \<Rightarrow> pyval \<Rightarrow> pystr \<Rightarrow> pyval \<Rightarrow> (pystr option \<times> int option) res" where
  "completed_facts completed sha outcome result = (case completed of
      None \<Rightarrow> require (sha = PNone \<and> result = PNone \<and> outcome = str ''none'') (Raise ValueError ''result without a completed event'') (Inr (None, None))
    | Some _ \<Rightarrow>
        (case (sha, result) of
           (PStr s, PInt n) \<Rightarrow>
             require (length s = 64 \<and> list_all is_lower_hex s \<and> outcome \<noteq> str ''none'' \<and>
                      (outcome = str ''succeeded'' \<longrightarrow> 0 \<le> n) \<and> (outcome = str ''business_failed'' \<longrightarrow> n < 0))
               (Raise ValueError ''digest or result of the completed event'') (Inr (Some s, Some n))
         | (PStr s, PNone) \<Rightarrow>
             require (length s = 64 \<and> list_all is_lower_hex s \<and> outcome \<notin> {str ''none'', str ''succeeded'', str ''business_failed''})
               (Raise ValueError ''digest or result of the completed event'') (Inr (Some s, None))
         | _ \<Rightarrow> Inl (Raise ValueError ''digest or result of the completed event'')))"

definition reported_value :: "pyval \<Rightarrow> pystr \<Rightarrow> pystr \<Rightarrow> reported res" where
  "reported_value v device_id boot_id = (case v of
      PDict d \<Rightarrow>
        require (keys_are d reported_fields) (Raise ValueError ''reported fields'')
        (require (map_of d (str ''protocol_version'') = Some (PInt 1) \<and> map_of d (str ''device_id'') = Some (PStr device_id) \<and>
                  map_of d (str ''boot_id'') = Some (PStr boot_id)) (Raise ValueError ''device or boot changed'')
        (bindE (bindE (py_getitem d ''uptime_ms'') nonneg_int) (\<lambda>_.
         bindE (bindE (py_getitem d ''revision'') nonneg_int) (\<lambda>_.
         bindE (bindE (py_getitem d ''last_accepted_event_sequence'') nonneg_int) (\<lambda>accepted.
         require (accepted \<le> MAX_SEQUENCE) (Raise ValueError ''accepted sequence'')
         (bindE (bindE (py_getitem d ''last_completed_event_sequence'') (completed_sequence accepted)) (\<lambda>completed.
          bindE (bindE (py_getitem d ''last_event_outcome'') event_outcome) (\<lambda>outcome.
          bindE (py_getitem d ''last_completed_event_sha256'') (\<lambda>sha. bindE (py_getitem d ''last_business_result'') (\<lambda>result.
          bindE (completed_facts completed sha outcome result) (\<lambda>(event_sha256, business_result).
          Inr \<lparr>rm_accepted = accepted, rm_completed = completed, rm_sha256 = event_sha256, rm_outcome = outcome,
               rm_result = business_result\<rparr>)))))))))))
    | _ \<Rightarrow> Inl (Raise ValueError ''reported fields''))"

definition reported_message :: "(bytes \<Rightarrow> pyval res) \<Rightarrow> bytes \<Rightarrow> pystr \<Rightarrow> pystr \<Rightarrow> reported res" where
  "reported_message loads payload device_id boot_id =
     require (length payload \<le> 1024) (Raise ValueError ''reported too long'')
     (bindE (loads payload) (\<lambda>v. reported_value v device_id boot_id))"

subsection \<open>The environment\<close>

datatype item =
    Connected bool
  | Subscribed int "int list"
  | Disconnected
  | Message pystr bytes int bool

record tick =
  t_expired :: bool
  t_overflow :: bool
  t_item :: "item option"

record broker =
  br_connect :: "unit res"
  br_subscribe :: "bool \<times> int"
  br_publish :: "bool res"
  br_published :: bool

datatype action = Connect | Subscribe pystr | Publish pystr bytes

record publish_result =
  pr_event_sha256 :: pystr
  pr_event_sequence :: int
  pr_event_outcome :: pystr
  pr_business_result :: "int option"

record outcome =
  oc_actions :: "action list"
  oc_exit :: int
  oc_printed :: "publish_result option"

record job =
  j_device_id :: pystr
  j_boot_id :: pystr
  j_event_sequence :: int
  j_frame :: bytes

definition job_topic :: "job \<Rightarrow> pystr" where
  "job_topic job = str ''esp-base/'' @ j_device_id job"

abbreviation queue_empty :: exn where
  "queue_empty \<equiv> Raise RuntimeError ''queue.Empty''"

subsection \<open>The waiting loops\<close>

fun wait_connected :: "tick list \<Rightarrow> tick list res" where
  "wait_connected [] = Inl queue_empty"
| "wait_connected (t # ts) = (case t_item t of
      None \<Rightarrow> Inl queue_empty
    | Some (Connected ok) \<Rightarrow> if ok then Inr ts else Inl (Raise RuntimeError ''account refused'')
    | Some i \<Rightarrow> if i = Disconnected \<or> t_overflow t then Inl (Raise RuntimeError ''not connected'') else wait_connected ts)"

fun wait_subscribed :: "int \<Rightarrow> tick list \<Rightarrow> tick list res" where
  "wait_subscribed mid [] = Inl queue_empty"
| "wait_subscribed mid (t # ts) = (case t_item t of
      None \<Rightarrow> Inl queue_empty
    | Some i \<Rightarrow>
        if (case i of Subscribed m codes \<Rightarrow> m = mid | _ \<Rightarrow> False)
        then (if i = Subscribed mid [1] then Inr ts else Inl (Raise RuntimeError ''subscription refused''))
        else if i = Disconnected \<or> t_overflow t then Inl (Raise RuntimeError ''session lost while subscribing'')
        else wait_subscribed mid ts)"

definition is_report :: "job \<Rightarrow> item \<Rightarrow> bytes option" where
  "is_report job i = (case i of
      Message topic payload qos retain \<Rightarrow>
        if topic = job_topic job @ str ''/reported'' \<and> qos = 1 \<and> \<not> retain then Some payload else None
    | _ \<Rightarrow> None)"

fun wait_reported :: "(bytes \<Rightarrow> pyval res) \<Rightarrow> job \<Rightarrow> tick list \<Rightarrow> (reported \<times> tick list) res" where
  "wait_reported loads job [] = Inl (Raise TimeoutError ''no report'')"
| "wait_reported loads job (t # ts) =
     (if t_expired t then Inl (Raise TimeoutError ''no report'')
      else if t_overflow t then Inl (Raise RuntimeError ''observation queue overflow'')
      else (case t_item t of
          None \<Rightarrow> Inl (Raise TimeoutError ''no report'')
        | Some i \<Rightarrow>
            if i = Connected False then Inl (Raise RuntimeError ''account refused'')
            else if i = Disconnected then Inl (Raise RuntimeError ''session lost'')
            else (case is_report job i of
                None \<Rightarrow> wait_reported loads job ts
              | Some payload \<Rightarrow>
                  bindE (reraise is_value_error (Raise RuntimeError ''report cannot be checked'')
                          (reported_message loads payload (j_device_id job) (j_boot_id job))) (\<lambda>r. Inr (r, ts)))))"

lemma wait_reported_shorter: "wait_reported loads job ts = Inr (r, ts') \<Longrightarrow> length ts' < length ts"
  by (induction ts) (auto simp: res_simps less_Suc_eq split: if_splits option.splits)

subsection \<open>Completion\<close>

definition event_sha256_of :: "job \<Rightarrow> pystr" where
  "event_sha256_of job = hex (sha256 (drop FRAME_HEADER_BYTES (j_frame job)))"

definition judge :: "job \<Rightarrow> reported \<Rightarrow> publish_result option res" where
  "judge job r =
     (if j_event_sequence job < rm_accepted r \<or> (case rm_completed r of None \<Rightarrow> False | Some c \<Rightarrow> j_event_sequence job < c)
      then Inl (Raise RuntimeError ''device is past this event'')
      else if rm_accepted r \<noteq> j_event_sequence job \<or> rm_completed r \<noteq> Some (j_event_sequence job) then Inr None
      else if rm_sha256 r \<noteq> Some (event_sha256_of job) \<or> rm_outcome r \<notin> {str ''succeeded'', str ''business_failed''}
      then Inl (Raise RuntimeError ''completion does not match this event'')
      else Inr (Some \<lparr>pr_event_sha256 = event_sha256_of job, pr_event_sequence = j_event_sequence job,
             pr_event_outcome = rm_outcome r, pr_business_result = rm_result r\<rparr>))"

function wait_completed :: "(bytes \<Rightarrow> pyval res) \<Rightarrow> job \<Rightarrow> tick list \<Rightarrow> publish_result res" where
  "wait_completed loads job ts = (case wait_reported loads job ts of
      Inl e \<Rightarrow> Inl e
    | Inr (r, ts') \<Rightarrow> (case judge job r of
          Inl e \<Rightarrow> Inl e
        | Inr None \<Rightarrow> wait_completed loads job ts'
        | Inr (Some p) \<Rightarrow> Inr p))"
  by pat_completeness auto
termination
  by (relation "measure (\<lambda>(loads, job, ts). length ts)") (auto dest: wait_reported_shorter)

declare wait_completed.simps [simp del]

subsection \<open>The protocol\<close>

definition prepare_publish :: "(bytes \<Rightarrow> pyval res) \<Rightarrow> broker \<Rightarrow> job \<Rightarrow> tick list \<Rightarrow> action list \<times> tick list res" where
  "prepare_publish loads br job ts = (case br_connect br of
      Inl e \<Rightarrow> ([Connect], Inl e)
    | Inr _ \<Rightarrow> (case wait_connected ts of
        Inl e \<Rightarrow> ([Connect], Inl e)
      | Inr ts1 \<Rightarrow>
          ([Connect, Subscribe (job_topic job @ str ''/reported'')],
           require (fst (br_subscribe br)) (Raise RuntimeError ''subscribe'')
           (bindE (wait_subscribed (snd (br_subscribe br)) ts1) (\<lambda>ts2.
            bindE (wait_reported loads job ts2) (\<lambda>(before, ts3).
            require (rm_accepted before = j_event_sequence job - 1) (Raise ValueError ''device expects another sequence'')
            (Inr ts3)))))))"

text \<open>The part after the call of \<^verbatim>\<open>publish\<close>, with the value of the variable \<^verbatim>\<open>published\<close> at its end.\<close>

definition complete_publish :: "(bytes \<Rightarrow> pyval res) \<Rightarrow> broker \<Rightarrow> job \<Rightarrow> tick list \<Rightarrow> bool \<times> publish_result res" where
  "complete_publish loads br job ts = (case br_publish br of
      Inl e \<Rightarrow> (False, Inl e)
    | Inr ok \<Rightarrow>
        if \<not> ok then (False, Inl (Raise RuntimeError ''publish refused''))
        else (True, require (br_published br) (Raise TimeoutError ''PUBACK'') (wait_completed loads job ts)))"

definition publish_event :: "(bytes \<Rightarrow> pyval res) \<Rightarrow> broker \<Rightarrow> job \<Rightarrow> tick list \<Rightarrow> outcome" where
  "publish_event loads br job ts = (case prepare_publish loads br job ts of
      (actions, Inl e) \<Rightarrow> \<lparr>oc_actions = actions, oc_exit = 1, oc_printed = None\<rparr>
    | (actions, Inr ts') \<Rightarrow>
        (case complete_publish loads br job ts' of
           (published, r) \<Rightarrow>
             \<lparr>oc_actions = actions @ [Publish (job_topic job @ str ''/event'') (j_frame job)],
              oc_exit = (case r of
                  Inl e \<Rightarrow> if published then 2 else 1
                | Inr p \<Rightarrow> if pr_event_outcome p = str ''succeeded'' then 0 else 2),
              oc_printed = (case r of Inl e \<Rightarrow> None | Inr p \<Rightarrow> Some p)\<rparr>))"

text \<open>The job \<^verbatim>\<open>main\<close> makes of its arguments: the frame is verified first.\<close>

definition publish_job :: "file_facts \<Rightarrow> file_facts \<Rightarrow> pystr \<Rightarrow> pystr \<Rightarrow> int \<Rightarrow> job res" where
  "publish_job frame_file key_file device_id boot_id event_sequence =
     bindE (verified_frame frame_file key_file device_id boot_id event_sequence) (\<lambda>frame.
     Inr \<lparr>j_device_id = device_id, j_boot_id = boot_id, j_event_sequence = event_sequence, j_frame = frame\<rparr>)"

subsection \<open>What a wait has seen\<close>

definition report_seen :: "(bytes \<Rightarrow> pyval res) \<Rightarrow> job \<Rightarrow> tick list \<Rightarrow> reported \<Rightarrow> bool" where
  "report_seen loads job ts r = (\<exists>t \<in> set ts. \<exists>payload.
     t_item t = Some (Message (job_topic job @ str ''/reported'') payload 1 False) \<and>
     reported_message loads payload (j_device_id job) (j_boot_id job) = Inr r)"

lemma report_seen_mono: "report_seen loads job ts r \<Longrightarrow> set ts \<subseteq> set us \<Longrightarrow> report_seen loads job us r"
  unfolding report_seen_def by blast

lemma is_report_iff: "is_report job i = Some payload \<longleftrightarrow> i = Message (job_topic job @ str ''/reported'') payload 1 False"
  by (auto simp: is_report_def split: item.splits if_splits)

lemma wait_reported_seen:
  "wait_reported loads job ts = Inr (r, ts') \<Longrightarrow> report_seen loads job ts r \<and> set ts' \<subseteq> set ts"
  by (induction ts) (auto simp: res_simps report_seen_def is_report_iff split: if_splits option.splits)

lemma wait_completed_seen:
  "wait_completed loads job ts = Inr p \<Longrightarrow> \<exists>r. report_seen loads job ts r \<and> judge job r = Inr (Some p)"
proof (induction loads job ts rule: wait_completed.induct)
  case (1 loads job ts)
  obtain r ts' where w: "wait_reported loads job ts = Inr (r, ts')"
    using "1.prems" by (auto simp: wait_completed.simps [of loads job ts] split: sum.splits)
  note seen = wait_reported_seen [OF w]
  obtain j where j: "judge job r = Inr j"
    using "1.prems" w by (auto simp: wait_completed.simps [of loads job ts] split: sum.splits)
  show ?case
  proof (cases j)
    case None
    then have "\<exists>r. report_seen loads job ts' r \<and> judge job r = Inr (Some p)"
      using "1.IH" [OF w refl j] "1.prems" w j by (simp add: wait_completed.simps [of loads job ts])
    then show ?thesis
      using seen by (auto simp: report_seen_def)
  next
    case (Some q)
    with "1.prems" w j have "q = p"
      by (simp add: wait_completed.simps [of loads job ts])
    with Some j seen show ?thesis by blast
  qed
qed

lemma wait_subset:
  "wait_connected ts = Inr ts' \<Longrightarrow> set ts' \<subseteq> set ts"
  "wait_subscribed mid ts = Inr ts' \<Longrightarrow> set ts' \<subseteq> set ts"
  by (induction ts) (auto split: option.splits item.splits if_splits)

lemma prepare_ready:
  assumes "prepare_publish loads br job ts = (actions, Inr ts')"
  shows "actions = [Connect, Subscribe (job_topic job @ str ''/reported'')] \<and> set ts' \<subseteq> set ts \<and>
    (\<exists>r. report_seen loads job ts r \<and> rm_accepted r = j_event_sequence job - 1)"
proof -
  obtain u where c: "br_connect br = Inr u"
    using assms by (cases "br_connect br") (auto simp: prepare_publish_def)
  then obtain ts1 where w: "wait_connected ts = Inr ts1"
    using assms by (cases "wait_connected ts") (auto simp: prepare_publish_def)
  obtain ts2 before where s: "wait_subscribed (snd (br_subscribe br)) ts1 = Inr ts2"
    and b: "wait_reported loads job ts2 = Inr (before, ts')" "rm_accepted before = j_event_sequence job - 1"
    and a: "actions = [Connect, Subscribe (job_topic job @ str ''/reported'')]"
    using assms c w by (auto simp: prepare_publish_def res_simps)
  have "set ts' \<subseteq> set ts2" "report_seen loads job ts2 before"
    using wait_reported_seen [OF b(1)] by auto
  moreover have "set ts2 \<subseteq> set ts"
    using wait_subset(1) [OF w] wait_subset(2) [OF s] by blast
  ultimately show ?thesis
    using a b(2) by (auto simp: report_seen_def)
qed

lemma prepare_actions: "prepare_publish loads br job ts = (actions, res) \<Longrightarrow> Publish topic frame \<notin> set actions"
  by (auto simp: prepare_publish_def split: sum.splits)

text \<open>
  C27: an event is published at most once, and only when the device waits for it.  In every run, whatever
  the broker and the device send, there is at most one publication; it carries the verified frame on the
  event topic of this device, and a report of this device in this boot was received before it whose
  last accepted sequence number is the one just before this event's.
\<close>

theorem publish_once_when_expected:
  assumes "Publish topic frame \<in> set (oc_actions (publish_event loads br job ts))"
  shows "topic = job_topic job @ str ''/event'' \<and> frame = j_frame job \<and>
    oc_actions (publish_event loads br job ts) =
      [Connect, Subscribe (job_topic job @ str ''/reported''), Publish topic frame] \<and>
    (\<exists>r. report_seen loads job ts r \<and> rm_accepted r = j_event_sequence job - 1)"
proof -
  obtain actions res where p: "prepare_publish loads br job ts = (actions, res)" by fastforce
  show ?thesis
  proof (cases res)
    case (Inl e)
    with assms p prepare_actions [OF p] show ?thesis
      by (simp add: publish_event_def)
  next
    case (Inr ts')
    with assms p prepare_actions [OF p] prepare_ready [of loads br job ts actions ts'] show ?thesis
      by (auto simp: publish_event_def split: prod.splits)
  qed
qed

lemma judge_done:
  "judge job r = Inr (Some p) \<Longrightarrow> rm_accepted r = j_event_sequence job \<and> rm_completed r = Some (j_event_sequence job) \<and>
     rm_sha256 r = Some (event_sha256_of job) \<and> rm_outcome r = pr_event_outcome p \<and> rm_result r = pr_business_result p \<and>
     pr_event_sequence p = j_event_sequence job \<and> pr_event_outcome p \<in> {str ''succeeded'', str ''business_failed''}"
  by (auto simp: judge_def split: if_splits)

text \<open>
  C28: the exit status tells what happened.  It is 0, 1 or 2.  Status 1 means that the client library never
  accepted the event for publication.  A result is printed only when the device reported the completion of
  exactly this event, by sequence number and digest, and status 0 is returned exactly when such a
  result says that it succeeded.
\<close>

theorem exit_status_honest:
  assumes "publish_event loads br job ts = oc"
  shows "oc_exit oc \<in> {0, 1, 2} \<and>
    (oc_exit oc = 1 \<and> (\<exists>t f. Publish t f \<in> set (oc_actions oc)) \<longrightarrow> br_publish br \<noteq> Inr True) \<and>
    (oc_exit oc = 0 \<longleftrightarrow> (\<exists>p. oc_printed oc = Some p \<and> pr_event_outcome p = str ''succeeded'')) \<and>
    (\<forall>p. oc_printed oc = Some p \<longrightarrow> br_publish br = Inr True \<and> br_published br \<and>
       (\<exists>r. report_seen loads job ts r \<and> rm_accepted r = j_event_sequence job \<and> rm_completed r = Some (j_event_sequence job) \<and>
            rm_sha256 r = Some (event_sha256_of job) \<and> rm_outcome r = pr_event_outcome p))"
proof -
  obtain actions res where p: "prepare_publish loads br job ts = (actions, res)" by fastforce
  show ?thesis
  proof (cases res)
    case (Inl e)
    with assms p prepare_actions [OF p] show ?thesis
      by (auto simp: publish_event_def)
  next
    case (Inr ts')
    obtain published res' where c: "complete_publish loads br job ts' = (published, res')" by fastforce
    have oc: "oc_exit oc = (case res' of Inl e \<Rightarrow> if published then 2 else 1 | Inr p \<Rightarrow> if pr_event_outcome p = str ''succeeded'' then 0 else 2)"
      "oc_printed oc = (case res' of Inl e \<Rightarrow> None | Inr p \<Rightarrow> Some p)"
      using assms p Inr c by (auto simp: publish_event_def)
    have sub: "set ts' \<subseteq> set ts"
      using prepare_ready p Inr by blast
    have pub: "published \<longleftrightarrow> br_publish br = Inr True"
      using c by (auto simp: complete_publish_def split: sum.splits if_splits)
    show ?thesis
    proof (cases res')
      case (Inl e)
      with oc pub show ?thesis by simp
    next
      case (Inr q)
      then have ok: "br_publish br = Inr True" "br_published br" "wait_completed loads job ts' = Inr q"
        using c by (auto simp: complete_publish_def res_simps split: sum.splits if_splits)
      obtain r where r: "report_seen loads job ts' r" "judge job r = Inr (Some q)"
        using wait_completed_seen [OF ok(3)] by blast
      have "\<exists>r. report_seen loads job ts r \<and> rm_accepted r = j_event_sequence job \<and> rm_completed r = Some (j_event_sequence job) \<and>
            rm_sha256 r = Some (event_sha256_of job) \<and> rm_outcome r = pr_event_outcome q"
        using report_seen_mono [OF r(1) sub] judge_done [OF r(2)] by (intro exI [of _ r]) simp
      then show ?thesis
        using oc Inr ok by simp
    qed
  qed
qed

subsection \<open>Progress\<close>

text \<open>
  A tick that brings something unrelated in time: neither a session event nor a report; and a tick that
  brings a report which does not yet complete the event.
\<close>

definition idle :: "job \<Rightarrow> tick \<Rightarrow> bool" where
  "idle job t = (\<not> t_expired t \<and> \<not> t_overflow t \<and>
     (case t_item t of Some (Message topic payload qos retain) \<Rightarrow> topic \<noteq> job_topic job @ str ''/reported'' \<or> qos \<noteq> 1 \<or> retain | _ \<Rightarrow> False))"

definition pending :: "(bytes \<Rightarrow> pyval res) \<Rightarrow> job \<Rightarrow> tick \<Rightarrow> bool" where
  "pending loads job t = (\<not> t_expired t \<and> \<not> t_overflow t \<and>
     (\<exists>payload r. t_item t = Some (Message (job_topic job @ str ''/reported'') payload 1 False) \<and>
        reported_message loads payload (j_device_id job) (j_boot_id job) = Inr r \<and> judge job r = Inr None))"

definition delivers :: "(bytes \<Rightarrow> pyval res) \<Rightarrow> job \<Rightarrow> tick \<Rightarrow> reported \<Rightarrow> bool" where
  "delivers loads job t r = (\<not> t_expired t \<and> \<not> t_overflow t \<and>
     (\<exists>payload. t_item t = Some (Message (job_topic job @ str ''/reported'') payload 1 False) \<and>
        reported_message loads payload (j_device_id job) (j_boot_id job) = Inr r))"

lemma wait_connected_idle: "list_all (idle job) ns \<Longrightarrow> wait_connected (ns @ ts) = wait_connected ts"
  by (induction ns) (auto simp: idle_def split: option.splits item.splits)

lemma wait_subscribed_idle: "list_all (idle job) ns \<Longrightarrow> wait_subscribed mid (ns @ ts) = wait_subscribed mid ts"
  by (induction ns) (auto simp: idle_def split: option.splits item.splits)

lemma wait_reported_idle: "list_all (idle job) ns \<Longrightarrow> wait_reported loads job (ns @ ts) = wait_reported loads job ts"
  by (induction ns) (auto simp: idle_def is_report_def split: option.splits item.splits)

lemma wait_reported_delivers: "delivers loads job t r \<Longrightarrow> wait_reported loads job (t # ts) = Inr (r, ts)"
  by (auto simp: delivers_def is_report_def)

lemma wait_completed_skips:
  assumes "list_all (\<lambda>t. idle job t \<or> pending loads job t) ns"
  shows "wait_completed loads job (ns @ ts) = wait_completed loads job ts"
  using assms
proof (induction ns)
  case (Cons t ns)
  consider "idle job t" | r where "delivers loads job t r" "judge job r = Inr None"
    using Cons.prems by (auto simp: pending_def delivers_def)
  then have "wait_completed loads job (t # ns @ ts) = wait_completed loads job (ns @ ts)"
  proof cases
    case 1
    then have "wait_reported loads job (t # ns @ ts) = wait_reported loads job (ns @ ts)"
      using wait_reported_idle [of job "[t]"] by simp
    then show ?thesis
      by (simp add: wait_completed.simps [of loads job "t # ns @ ts"] wait_completed.simps [of loads job "ns @ ts"])
  next
    case 2
    then show ?thesis
      by (simp add: wait_completed.simps [of loads job "t # ns @ ts"] wait_reported_delivers del: wait_reported.simps)
  qed
  with Cons show ?case by simp
qed simp

lemma cooperative_run:
  assumes "br_connect br = Inr ()" and "br_subscribe br = (True, mid)" and "br_publish br = Inr True" and "br_published br"
    and "list_all (idle job) (ns1 @ ns2 @ ns3)" and "list_all (\<lambda>t. idle job t \<or> pending loads job t) ns4"
    and "t_item c = Some (Connected True)" and "t_item s = Some (Subscribed mid [1])"
    and "delivers loads job b before" and "rm_accepted before = j_event_sequence job - 1"
    and "delivers loads job d final" and "judge job final = Inr (Some p)"
  shows "publish_event loads br job (ns1 @ c # ns2 @ s # ns3 @ b # ns4 @ d # rest) =
    \<lparr>oc_actions = [Connect, Subscribe (job_topic job @ str ''/reported''), Publish (job_topic job @ str ''/event'') (j_frame job)],
     oc_exit = (if pr_event_outcome p = str ''succeeded'' then 0 else 2), oc_printed = Some p\<rparr>"
proof -
  let ?ts2 = "ns3 @ b # ns4 @ d # rest"
  let ?ts1 = "ns2 @ s # ?ts2"
  have idle: "list_all (idle job) ns1" "list_all (idle job) ns2" "list_all (idle job) ns3"
    using assms(5) by simp_all
  have "wait_connected (ns1 @ c # ?ts1) = Inr ?ts1"
    using assms(7) by (simp add: wait_connected_idle [OF idle(1)])
  moreover have "wait_subscribed mid ?ts1 = Inr ?ts2"
    using assms(8) by (simp add: wait_subscribed_idle [OF idle(2)])
  moreover have "wait_reported loads job ?ts2 = Inr (before, ns4 @ d # rest)"
    by (simp only: wait_reported_idle [OF idle(3)] wait_reported_delivers [OF assms(9)])
  ultimately have "prepare_publish loads br job (ns1 @ c # ?ts1)
      = ([Connect, Subscribe (job_topic job @ str ''/reported'')], Inr (ns4 @ d # rest))"
    using assms(1,2,10) by (simp add: prepare_publish_def)
  moreover have "wait_completed loads job (ns4 @ d # rest) = Inr p"
    unfolding wait_completed_skips [OF assms(6)]
    by (simp add: wait_completed.simps [of loads job "d # rest"] wait_reported_delivers [OF assms(11)] assms(12)
        del: wait_reported.simps)
  ultimately show ?thesis
    using assms(3,4) by (simp add: publish_event_def complete_publish_def)
qed

text \<open>
  What a device says of its event ledger: the last accepted sequence number, and the last completed event with its number, its
  bytes and its business result, if there is one.  \<open>says\<close> is a tick that brings, in time, a report of this device in this boot
  with exactly the twelve members of the protocol and these facts in them.
\<close>

datatype completion = No_Event | Completed int bytes int

definition completion_valid :: "int \<Rightarrow> completion \<Rightarrow> bool" where
  "completion_valid accepted c = (case c of No_Event \<Rightarrow> True | Completed n event result \<Rightarrow> 1 \<le> n \<and> n \<le> accepted)"

definition completion_items :: "completion \<Rightarrow> (string \<times> pyval) list" where
  "completion_items c = (case c of
      No_Event \<Rightarrow> [(''last_completed_event_sequence'', PNone), (''last_completed_event_sha256'', PNone),
        (''last_event_outcome'', PStr (str ''none'')), (''last_business_result'', PNone)]
    | Completed n event result \<Rightarrow> [(''last_completed_event_sequence'', PInt n), (''last_completed_event_sha256'', PStr (hex (sha256 event))),
        (''last_event_outcome'', PStr (str (if 0 \<le> result then ''succeeded'' else ''business_failed''))), (''last_business_result'', PInt result)])"

definition report_items :: "job \<Rightarrow> int \<Rightarrow> completion \<Rightarrow> int \<Rightarrow> int \<Rightarrow> pyval \<Rightarrow> pyval \<Rightarrow> (string \<times> pyval) list" where
  "report_items job accepted c uptime revision wifi clock =
     [(''protocol_version'', PInt 1), (''device_id'', PStr (j_device_id job)), (''boot_id'', PStr (j_boot_id job)), (''uptime_ms'', PInt uptime),
      (''revision'', PInt revision), (''wifi_state'', wifi), (''time_ready'', clock), (''last_accepted_event_sequence'', PInt accepted)] @
     completion_items c"

definition says :: "(bytes \<Rightarrow> pyval res) \<Rightarrow> job \<Rightarrow> tick \<Rightarrow> int \<Rightarrow> completion \<Rightarrow> bool" where
  "says loads job t accepted c = (\<not> t_expired t \<and> \<not> t_overflow t \<and> 0 \<le> accepted \<and> accepted < 2 ^ 64 \<and> completion_valid accepted c \<and>
     (\<exists>payload uptime revision wifi clock. t_item t = Some (Message (str ''esp-base/'' @ j_device_id job @ str ''/reported'') payload 1 False) \<and>
        length payload \<le> 1024 \<and> 0 \<le> uptime \<and> 0 \<le> revision \<and>
        loads payload = Inr (PDict (map (\<lambda>(k, v). (str k, v)) (report_items job accepted c uptime revision wifi clock)))))"

definition as_reported :: "int \<Rightarrow> completion \<Rightarrow> reported" where
  "as_reported accepted c = (case c of
      No_Event \<Rightarrow> \<lparr>rm_accepted = accepted, rm_completed = None, rm_sha256 = None, rm_outcome = str ''none'', rm_result = None\<rparr>
    | Completed n event result \<Rightarrow> \<lparr>rm_accepted = accepted, rm_completed = Some n, rm_sha256 = Some (hex (sha256 event)),
        rm_outcome = str (if 0 \<le> result then ''succeeded'' else ''business_failed''), rm_result = Some result\<rparr>)"

lemma lower_hex_digest: "list_all is_lower_hex (hex bs)"
  using hex_lower by (auto simp: list_all_iff)

lemma says_value:
  assumes "0 \<le> accepted" "accepted < 2 ^ 64" "completion_valid accepted c" "0 \<le> uptime" "0 \<le> revision"
  shows "reported_value (PDict (map (\<lambda>(k, v). (str k, v)) (report_items job accepted c uptime revision wifi clock))) (j_device_id job) (j_boot_id job)
    = Inr (as_reported accepted c)"
proof (cases c)
  case No_Event
  then show ?thesis
    using assms by (simp add: reported_value_def report_items_def completion_items_def keys_are_def reported_fields_def str_inj_iff py_getitem_def
        nonneg_int_def completed_sequence_def event_outcome_def completed_facts_def as_reported_def MAX_SEQUENCE_def)
next
  case (Completed n event result)
  then show ?thesis
    using assms lower_hex_digest [of "sha256 event"]
    by (simp add: reported_value_def report_items_def completion_items_def keys_are_def reported_fields_def str_inj_iff py_getitem_def
        nonneg_int_def completed_sequence_def event_outcome_def completed_facts_def as_reported_def MAX_SEQUENCE_def completion_valid_def)
qed

lemma says_delivers: "says loads job t accepted c \<Longrightarrow> delivers loads job t (as_reported accepted c)"
  by (auto simp: says_def delivers_def job_topic_def reported_message_def says_value)

text \<open>A report on the way: the device has not completed this event, and nothing after it.\<close>

definition on_the_way :: "(bytes \<Rightarrow> pyval res) \<Rightarrow> job \<Rightarrow> tick \<Rightarrow> bool" where
  "on_the_way loads job t = (\<exists>accepted c. says loads job t accepted c \<and> accepted \<le> j_event_sequence job \<and>
     (case c of No_Event \<Rightarrow> True | Completed n event result \<Rightarrow> n < j_event_sequence job))"

lemma on_the_way_pending: "on_the_way loads job t \<Longrightarrow> pending loads job t"
proof -
  assume "on_the_way loads job t"
  then obtain accepted c where c: "says loads job t accepted c" "accepted \<le> j_event_sequence job"
      "case c of No_Event \<Rightarrow> True | Completed n event result \<Rightarrow> n < j_event_sequence job"
    by (auto simp: on_the_way_def)
  have "judge job (as_reported accepted c) = Inr None"
    using c(2,3) by (cases c) (auto simp: judge_def as_reported_def)
  with says_delivers [OF c(1)] show ?thesis
    by (auto simp: delivers_def pending_def)
qed

text \<open>
  C29: with a cooperative broker and device the publication goes through, and the device's result is what the tool tells.  Let the session,
  the subscription and the publication be accepted, let the device first report the sequence number before this event's as the
  last accepted one, and later report this event as accepted and completed, with the digest of the event's bytes and a business result.
  Then, whatever unrelated messages and reports of earlier states arrive in between, as long as they arrive in time, the tool publishes
  the frame once and prints exactly this result, with status 0 when it is not negative and status 2 otherwise.
\<close>

theorem cooperative_run_completes:
  assumes "br_connect br = Inr ()" and "br_subscribe br = (True, mid)" and "br_publish br = Inr True" and "br_published br"
    and "list_all (idle job) (ns1 @ ns2 @ ns3)" and "list_all (\<lambda>t. idle job t \<or> on_the_way loads job t) ns4"
    and "t_item c = Some (Connected True)" and "t_item s = Some (Subscribed mid [1])"
    and "says loads job b (j_event_sequence job - 1) earlier"
    and "says loads job d (j_event_sequence job) (Completed (j_event_sequence job) (drop FRAME_HEADER_BYTES (j_frame job)) result)"
  shows "publish_event loads br job (ns1 @ c # ns2 @ s # ns3 @ b # ns4 @ d # rest) =
    \<lparr>oc_actions = [Connect, Subscribe (job_topic job @ str ''/reported''), Publish (job_topic job @ str ''/event'') (j_frame job)],
     oc_exit = (if 0 \<le> result then 0 else 2),
     oc_printed = Some \<lparr>pr_event_sha256 = hex (sha256 (drop FRAME_HEADER_BYTES (j_frame job))), pr_event_sequence = j_event_sequence job,
       pr_event_outcome = str (if 0 \<le> result then ''succeeded'' else ''business_failed''), pr_business_result = Some result\<rparr>\<rparr>"
proof -
  let ?final = "as_reported (j_event_sequence job) (Completed (j_event_sequence job) (drop FRAME_HEADER_BYTES (j_frame job)) result)"
  let ?p = "\<lparr>pr_event_sha256 = hex (sha256 (drop FRAME_HEADER_BYTES (j_frame job))), pr_event_sequence = j_event_sequence job,
       pr_event_outcome = str (if 0 \<le> result then ''succeeded'' else ''business_failed''), pr_business_result = Some result\<rparr>"
  have "judge job ?final = Inr (Some ?p)"
    by (simp add: judge_def as_reported_def event_sha256_of_def)
  moreover have "rm_accepted (as_reported (j_event_sequence job - 1) earlier) = j_event_sequence job - 1"
    by (simp add: as_reported_def split: completion.splits)
  moreover have "list_all (\<lambda>t. idle job t \<or> pending loads job t) ns4"
    using assms(6) on_the_way_pending by (auto elim!: list.pred_mono_strong)
  ultimately show ?thesis
    using cooperative_run [OF assms(1-5) _ assms(7,8) says_delivers [OF assms(9)] _ says_delivers [OF assms(10)]]
    by (simp add: str_inj_iff)
qed

subsection \<open>A concrete run\<close>

definition sample_job :: job where
  "sample_job = \<lparr>j_device_id = event_device, j_boot_id = event_device, j_event_sequence = 5, j_frame = sample_frame_of 5\<rparr>"

definition sample_report :: "int \<Rightarrow> pyval \<Rightarrow> pyval \<Rightarrow> string \<Rightarrow> pyval \<Rightarrow> pyval" where
  "sample_report accepted completed sha outcome result = PDict [(str ''protocol_version'', PInt 1), (str ''device_id'', PStr event_device),
     (str ''boot_id'', PStr event_device), (str ''uptime_ms'', PInt 9000), (str ''revision'', PInt 3), (str ''wifi_state'', PStr (str ''up'')),
     (str ''time_ready'', PBool True), (str ''last_accepted_event_sequence'', PInt accepted),
     (str ''last_completed_event_sequence'', completed), (str ''last_completed_event_sha256'', sha),
     (str ''last_event_outcome'', PStr (str outcome)), (str ''last_business_result'', result)]"

text \<open>The payloads of the two reports of the run are one byte each; the decoder is a table.\<close>

definition sample_loads :: "bytes \<Rightarrow> pyval res" where
  "sample_loads payload =
     (if payload = [1] then Inr (sample_report 4 PNone PNone ''none'' PNone)
      else if payload = [2] then Inr (sample_report 5 (PInt 5) (PStr (event_sha256_of sample_job)) ''succeeded'' (PInt 0))
      else Inl (Raise ValueError ''json''))"

definition sample_broker :: broker where
  "sample_broker = \<lparr>br_connect = Inr (), br_subscribe = (True, 9), br_publish = Inr True, br_published = True\<rparr>"

definition tick_of :: "item \<Rightarrow> tick" where
  "tick_of i = \<lparr>t_expired = False, t_overflow = False, t_item = Some i\<rparr>"

definition report_tick :: "bytes \<Rightarrow> tick" where
  "report_tick payload = tick_of (Message (job_topic sample_job @ str ''/reported'') payload 1 False)"

definition sample_ticks :: "tick list" where
  "sample_ticks = [tick_of (Connected True), tick_of (Subscribed 9 [1]), report_tick [1], report_tick [1], report_tick [2]]"

definition before_report :: reported where
  "before_report = \<lparr>rm_accepted = 4, rm_completed = None, rm_sha256 = None, rm_outcome = str ''none'', rm_result = None\<rparr>"

definition final_report :: reported where
  "final_report = \<lparr>rm_accepted = 5, rm_completed = Some 5, rm_sha256 = Some (event_sha256_of sample_job),
     rm_outcome = str ''succeeded'', rm_result = Some 0\<rparr>"

lemma sample_reports:
  "reported_message sample_loads [1] event_device event_device = Inr before_report"
  "reported_message sample_loads [2] event_device event_device = Inr final_report"
proof -
  have sha: "length (event_sha256_of sample_job) = 64" "list_all is_lower_hex (event_sha256_of sample_job)"
    using hex_lower by (auto simp: event_sha256_of_def list_all_iff)
  show "reported_message sample_loads [1] event_device event_device = Inr before_report"
    by (simp add: reported_message_def sample_loads_def sample_report_def reported_value_def keys_are_def reported_fields_def
        str_inj_iff py_getitem_def nonneg_int_def completed_sequence_def event_outcome_def completed_facts_def before_report_def MAX_SEQUENCE_def)
  show "reported_message sample_loads [2] event_device event_device = Inr final_report"
    by (simp add: reported_message_def sample_loads_def sample_report_def reported_value_def keys_are_def reported_fields_def
        str_inj_iff py_getitem_def nonneg_int_def completed_sequence_def event_outcome_def completed_facts_def final_report_def
        sha MAX_SEQUENCE_def)
qed

lemma sample_delivers:
  "delivers sample_loads sample_job (report_tick [1]) before_report" "delivers sample_loads sample_job (report_tick [2]) final_report"
  using sample_reports by (simp_all add: delivers_def report_tick_def tick_of_def sample_job_def job_topic_def)

definition sample_result :: publish_result where
  "sample_result = \<lparr>pr_event_sha256 = event_sha256_of sample_job, pr_event_sequence = 5, pr_event_outcome = str ''succeeded'',
     pr_business_result = Some 0\<rparr>"

lemma sample_judged: "judge sample_job before_report = Inr None" "judge sample_job final_report = Inr (Some sample_result)"
  by (simp_all add: judge_def before_report_def final_report_def sample_result_def) (simp_all add: sample_job_def)

lemma sample_expected: "rm_accepted before_report = j_event_sequence sample_job - 1"
  by (simp add: before_report_def sample_job_def)

lemma sample_run:
  "publish_event sample_loads sample_broker sample_job sample_ticks =
     \<lparr>oc_actions = [Connect, Subscribe (job_topic sample_job @ str ''/reported''),
        Publish (job_topic sample_job @ str ''/event'') (j_frame sample_job)],
      oc_exit = 0, oc_printed = Some sample_result\<rparr>"
proof -
  have "pending sample_loads sample_job (report_tick [1])"
    using sample_delivers(1) sample_judged(1) by (auto simp: pending_def delivers_def)
  then show ?thesis
    using cooperative_run [of sample_broker 9 sample_job "[]" "[]" "[]" sample_loads "[report_tick [1]]"
        "tick_of (Connected True)" "tick_of (Subscribed 9 [1])" "report_tick [1]" before_report "report_tick [2]" final_report sample_result "[]"]
      sample_delivers sample_judged sample_expected
    by (simp add: sample_broker_def tick_of_def sample_ticks_def sample_result_def)
qed

theorem publish_once_when_expected_witness:
  "\<exists>r. report_seen sample_loads sample_job sample_ticks r \<and> rm_accepted r = 4"
  using publish_once_when_expected [of "job_topic sample_job @ str ''/event''" "j_frame sample_job" sample_loads sample_broker sample_job sample_ticks]
  by (simp add: sample_run) (simp add: sample_job_def)

theorem exit_status_honest_witness:
  "\<exists>r. report_seen sample_loads sample_job sample_ticks r \<and> rm_sha256 r = Some (event_sha256_of sample_job) \<and>
     rm_outcome r = str ''succeeded''"
  using exit_status_honest [OF sample_run] by (auto simp: sample_result_def)

lemma sample_says:
  "says sample_loads sample_job (report_tick [1]) 4 No_Event"
  "says sample_loads sample_job (report_tick [2]) 5 (Completed 5 (drop FRAME_HEADER_BYTES (j_frame sample_job)) 0)"
  unfolding says_def
  by (force simp: report_tick_def tick_of_def sample_job_def job_topic_def completion_valid_def sample_loads_def sample_report_def report_items_def
      completion_items_def event_sha256_of_def)+

theorem cooperative_run_completes_witness:
  "oc_printed (publish_event sample_loads sample_broker sample_job sample_ticks) = Some sample_result \<and>
   oc_exit (publish_event sample_loads sample_broker sample_job sample_ticks) = 0"
proof -
  have "on_the_way sample_loads sample_job (report_tick [1])" "j_event_sequence sample_job = 5"
    using sample_says(1) by (auto simp: on_the_way_def sample_job_def intro!: exI [of _ 4] exI [of _ No_Event])
  then show ?thesis
    using cooperative_run_completes [of sample_broker 9 sample_job "[]" "[]" "[]" sample_loads "[report_tick [1]]"
        "tick_of (Connected True)" "tick_of (Subscribed 9 [1])" "report_tick [1]" No_Event "report_tick [2]" 0 "[]"] sample_says
    by (simp add: sample_broker_def tick_of_def sample_ticks_def sample_result_def event_sha256_of_def)
qed

end
