(* ===== verification/Json_Text.thy ===== *)
theory Json_Text
  imports Python_Values "HOL-Library.List_Lexorder"
begin

text \<open>
  JSON texts as \<^verbatim>\<open>json.dumps\<close> of the standard library writes them with \<^verbatim>\<open>separators=(",", ":")\<close>: \<open>json_dumps\<close> with
  \<^verbatim>\<open>ensure_ascii=True\<close> (the requests of the serial client, the identity and package files), \<open>json_dumps_raw\<close> with
  \<^verbatim>\<open>ensure_ascii=False\<close> (the records of the Core), and \<open>sorted_keys\<close> for \<^verbatim>\<open>sort_keys=True\<close>: Python orders texts by
  their code points.  A float prints as its text.

  \<open>py_eq\<close> is Python's \<^verbatim>\<open>==\<close> on such values: dictionaries are equal whatever the order of their keys, and a
  Boolean equals the integer it stands for.  The value of a float literal is the parameter \<open>fnorm\<close>: it gives
  equal values to the texts of equal numbers, the integer when the number is one.
\<close>

definition hex4 :: "nat \<Rightarrow> pystr" where
  "hex4 n = map hex_digit [n div 4096 mod 16, n div 256 mod 16, n div 16 mod 16, n mod 16]"

definition json_char :: "nat \<Rightarrow> pystr" where
  "json_char c =
     (if c = 34 \<or> c = 92 then [92, c]
      else if c = 10 then [92, 110] else if c = 13 then [92, 114] else if c = 9 then [92, 116]
      else if c = 12 then [92, 102] else if c = 8 then [92, 98]
      else if 32 \<le> c \<and> c \<le> 126 then [c]
      else if c < 0x10000 then [92, 117] @ hex4 c
      else [92, 117] @ hex4 (0xd800 + (c - 0x10000) div 1024) @ [92, 117] @ hex4 (0xdc00 + (c - 0x10000) mod 1024))"

definition json_str :: "pystr \<Rightarrow> pystr" where
  "json_str s = [34] @ concat (map json_char s) @ [34]"

definition comma_join :: "pystr list \<Rightarrow> pystr" where
  "comma_join ps = (case ps of [] \<Rightarrow> [] | p # ps' \<Rightarrow> p @ concat (map (\<lambda>q. 44 # q) ps'))"

fun json_dumps :: "pyval \<Rightarrow> pystr"
  and json_items :: "pyval list \<Rightarrow> pystr list"
  and json_pairs :: "(pystr \<times> pyval) list \<Rightarrow> pystr list" where
  "json_dumps PNone = str ''null''"
| "json_dumps (PBool b) = (if b then str ''true'' else str ''false'')"
| "json_dumps (PInt n) = (if n < 0 then 45 # decimal (nat (- n)) else decimal (nat n))"
| "json_dumps (PFloat s) = str s"
| "json_dumps (PStr s) = json_str s"
| "json_dumps (PList vs) = [91] @ comma_join (json_items vs) @ [93]"
| "json_dumps (PDict d) = [123] @ comma_join (json_pairs d) @ [125]"
| "json_items [] = []"
| "json_items (v # vs) = json_dumps v # json_items vs"
| "json_pairs [] = []"
| "json_pairs ((k, v) # d) = (json_str k @ [58] @ json_dumps v) # json_pairs d"

text \<open>A value used as a dictionary or as a text; \<open>e\<close> is what the operation raises on any other value.\<close>

definition as_dict :: "exn \<Rightarrow> pyval \<Rightarrow> (pystr \<times> pyval) list res" where
  "as_dict e v = (case v of PDict d \<Rightarrow> Inr d | _ \<Rightarrow> Inl e)"

definition as_text :: "exn \<Rightarrow> pyval \<Rightarrow> pystr res" where
  "as_text e v = (case v of PStr s \<Rightarrow> Inr s | _ \<Rightarrow> Inl e)"

lemma as_dict_eq_Inr [res_simps]: "as_dict e v = Inr d \<longleftrightarrow> v = PDict d"
  by (cases v) (auto simp: as_dict_def)

lemma as_text_eq_Inr [res_simps]: "as_text e v = Inr s \<longleftrightarrow> v = PStr s"
  by (cases v) (auto simp: as_text_def)

lemma as_dict_PDict [simp]: "as_dict e (PDict d) = Inr d"
  by (simp add: as_dict_def)

lemma as_text_PStr [simp]: "as_text e (PStr s) = Inr s"
  by (simp add: as_text_def)

fun sorted_keys :: "pyval \<Rightarrow> pyval"
  and sorted_items :: "pyval list \<Rightarrow> pyval list"
  and sorted_pairs :: "(pystr \<times> pyval) list \<Rightarrow> (pystr \<times> pyval) list" where
  "sorted_keys (PList vs) = PList (sorted_items vs)"
| "sorted_keys (PDict d) = PDict (sort_key fst (sorted_pairs d))"
| "sorted_keys v = v"
| "sorted_items [] = []"
| "sorted_items (v # vs) = sorted_keys v # sorted_items vs"
| "sorted_pairs [] = []"
| "sorted_pairs ((k, v) # d) = (k, sorted_keys v) # sorted_pairs d"

definition raw_char :: "nat \<Rightarrow> pystr" where
  "raw_char c = (if 126 < c then [c] else json_char c)"

fun json_dumps_raw :: "pyval \<Rightarrow> pystr"
  and raw_items :: "pyval list \<Rightarrow> pystr list"
  and raw_pairs :: "(pystr \<times> pyval) list \<Rightarrow> pystr list" where
  "json_dumps_raw (PStr s) = [34] @ concat (map raw_char s) @ [34]"
| "json_dumps_raw (PList vs) = [91] @ comma_join (raw_items vs) @ [93]"
| "json_dumps_raw (PDict d) = [123] @ comma_join (raw_pairs d) @ [125]"
| "json_dumps_raw v = json_dumps v"
| "raw_items [] = []"
| "raw_items (v # vs) = json_dumps_raw v # raw_items vs"
| "raw_pairs [] = []"
| "raw_pairs ((k, v) # d) = ([34] @ concat (map raw_char k) @ [34] @ [58] @ json_dumps_raw v) # raw_pairs d"

fun py_norm :: "(string \<Rightarrow> pyval) \<Rightarrow> pyval \<Rightarrow> pyval"
  and norm_items :: "(string \<Rightarrow> pyval) \<Rightarrow> pyval list \<Rightarrow> pyval list"
  and norm_pairs :: "(string \<Rightarrow> pyval) \<Rightarrow> (pystr \<times> pyval) list \<Rightarrow> (pystr \<times> pyval) list" where
  "py_norm fnorm (PBool b) = PInt (if b then 1 else 0)"
| "py_norm fnorm (PFloat s) = fnorm s"
| "py_norm fnorm (PList vs) = PList (norm_items fnorm vs)"
| "py_norm fnorm (PDict d) = PDict (sort_key fst (norm_pairs fnorm d))"
| "py_norm fnorm v = v"
| "norm_items fnorm [] = []"
| "norm_items fnorm (v # vs) = py_norm fnorm v # norm_items fnorm vs"
| "norm_pairs fnorm [] = []"
| "norm_pairs fnorm ((k, v) # d) = (k, py_norm fnorm v) # norm_pairs fnorm d"

definition py_eq :: "(string \<Rightarrow> pyval) \<Rightarrow> pyval \<Rightarrow> pyval \<Rightarrow> bool" where
  "py_eq fnorm a b = (py_norm fnorm a = py_norm fnorm b)"

lemma py_eq_refl [simp]: "py_eq fnorm v v"
  by (simp add: py_eq_def)

lemma py_eq_str: "py_eq fnorm (PStr s) (PStr s') \<longleftrightarrow> s = s'"
  by (simp add: py_eq_def)

end
