(* ===== verification/Serial_Port.thy ===== *)
theory Serial_Port
  imports Json_Text
begin

text \<open>
  The serial line of \<^verbatim>\<open>device_control.py\<close>: \<^verbatim>\<open>SerialPort.write\<close>, \<^verbatim>\<open>send\<close>,
  the line framing and validation of \<^verbatim>\<open>read_result\<close>, and \<^verbatim>\<open>wait_ready\<close>.

  The operating system and the clock are the environment: one \<open>rx\<close> is what one iteration of a reading
  loop meets (the deadline has passed, nothing to read, a byte, an exception of \<^verbatim>\<open>os.read\<close>), one \<open>wx\<close>
  what one iteration of the writing loop meets.  An exhausted list counts as a passed deadline.
  The generator \<^verbatim>\<open>read_result\<close> and the \<^verbatim>\<open>for\<close> loop of its caller are one function here: \<open>body\<close> is the
  body of that loop, \<open>Inr None\<close> its \<^verbatim>\<open>continue\<close>, \<open>Inr (Some r)\<close> its \<^verbatim>\<open>return\<close>.

  Lemmas: the writing loop sends prefixes of the payload and takes a bounded number of steps, one send
  is one line, and the reading loop answers as if it had been given the complete lines at once.
\<close>

subsection \<open>Writing\<close>

datatype wx = Write_deadline | Would_block | Wrote nat | Write_error exn

abbreviation write_timeout :: exn where
  "write_timeout \<equiv> Raise TimeoutError ''serial write''"

text \<open>
  The loop of \<^verbatim>\<open>SerialPort.write\<close>: the bytes that went out from here on, what the method returns or
  raises, and the rest of the environment.
\<close>

fun write_loop :: "bytes \<Rightarrow> nat \<Rightarrow> wx list \<Rightarrow> bytes \<times> nat res \<times> wx list" where
  "write_loop view written ws =
     (if length view \<le> written then ([], Inr written, ws)
      else (case ws of
          [] \<Rightarrow> ([], Inl write_timeout, [])
        | w # ws' \<Rightarrow> (case w of
            Write_deadline \<Rightarrow> ([], Inl write_timeout, ws')
          | Would_block \<Rightarrow> write_loop view written ws'
          | Write_error e \<Rightarrow> ([], Inl e, ws')
          | Wrote count \<Rightarrow>
              if count = 0 then ([], Inl (Raise OSError ''serial write interrupted''), ws')
              else (case write_loop view (written + count) ws' of
                 (out, r, rest) \<Rightarrow> (take count (drop written view) @ out, r, rest)))))"

declare write_loop.simps [simp del]

datatype rx = Deadline | Silent | Received "8 word" | Read_error exn

text \<open>
  The state of the client: the two sides of the line, the supply of fresh request identities
  (\<^verbatim>\<open>uuid.uuid4\<close>), and the transcript of what was handed to \<^verbatim>\<open>write\<close>, each request with the bytes
  that went out.
\<close>

record port =
  p_reads :: "rx list"
  p_writes :: "wx list"
  p_ids :: "nat \<Rightarrow> pystr"
  p_next :: nat
  p_sent :: "(pyval \<times> bytes) list"

type_synonym 'a io = "port \<Rightarrow> 'a res \<times> port"

definition returnP :: "'a \<Rightarrow> 'a io" where
  "returnP x p = (Inr x, p)"

definition raiseP :: "exn \<Rightarrow> 'a io" where
  "raiseP e p = (Inl e, p)"

definition bindP :: "'a io \<Rightarrow> ('a \<Rightarrow> 'b io) \<Rightarrow> 'b io" where
  "bindP m f p = (case m p of (Inl e, p') \<Rightarrow> (Inl e, p') | (Inr x, p') \<Rightarrow> f x p')"

definition liftP :: "'a res \<Rightarrow> 'a io" where
  "liftP r p = (r, p)"

definition requireP :: "bool \<Rightarrow> exn \<Rightarrow> 'a io \<Rightarrow> 'a io" where
  "requireP c e k = (if c then k else raiseP e)"

definition fresh_id :: "pystr io" where
  "fresh_id p = (Inr (p_ids p (p_next p)), p\<lparr>p_next := p_next p + 1\<rparr>)"

definition request_payload :: "pyval \<Rightarrow> bytes" where
  "request_payload request = [10] @ map word_of_nat (json_dumps request) @ [10]"

definition send :: "pyval \<Rightarrow> unit io" where
  "send request p =
     (if 9216 < length (json_dumps request) then (Inl (Raise ValueError ''serial request too long''), p)
      else (let payload = request_payload request in
        (case write_loop payload 0 (p_writes p) of
           (out, r, rest) \<Rightarrow>
             (bindE r (\<lambda>n. require (n = length payload) (Raise OSError ''incomplete serial write'') (Inr ())),
              p\<lparr>p_writes := rest, p_sent := p_sent p @ [(request, out)]\<rparr>))))"

subsection \<open>Lines\<close>

text \<open>
  One byte of the framing: the buffer and the flag that the rest of the line is discarded.
  \<^verbatim>\<open>read_result\<close> also discards lines with a zero byte, \<^verbatim>\<open>wait_ready\<close> does not.
\<close>

definition frame_byte :: "bool \<Rightarrow> bytes \<times> bool \<Rightarrow> 8 word \<Rightarrow> (bytes \<times> bool) \<times> bytes option" where
  "frame_byte nul_checked = (\<lambda>(buffer, discard) byte.
     if byte \<noteq> 10
     then (if 8192 \<le> length buffer \<or> nul_checked \<and> byte = 0 then (([], True), None)
           else if \<not> discard then ((buffer @ [byte], discard), None) else ((buffer, discard), None))
     else if discard then (([], False), None)
     else (([], False), Some buffer))"

subsection \<open>Results\<close>

record receipt =
  rc_device_id :: pystr
  rc_boot_id :: pystr
  rc_request_id :: pystr
  rc_state :: pystr
  rc_error_code :: "pystr option"
  rc_result :: "(pystr \<times> pyval) list option"

definition receipt_fields :: "string list" where
  "receipt_fields = [''protocol_version'', ''device_id'', ''boot_id'', ''request_id'', ''state'', ''error_code'', ''result'']"

definition failed_state :: "pystr \<Rightarrow> bool" where
  "failed_state s = (s \<in> {str ''failed'', str ''expired'', str ''unknown''})"

definition known_state :: "pystr \<Rightarrow> bool" where
  "known_state s = (s \<in> {str ''accepted'', str ''running'', str ''succeeded'', str ''failed'', str ''expired'', str ''unknown''})"

definition accept_code :: "pystr \<Rightarrow> pyval \<Rightarrow> pystr option option" where
  "accept_code state v = (case v of
      PNone \<Rightarrow> if failed_state state then None else Some None
    | PStr c \<Rightarrow> if failed_state state \<and> c \<noteq> [] then Some (Some c) else None
    | _ \<Rightarrow> None)"

definition accept_result :: "pyval \<Rightarrow> (pystr \<times> pyval) list option option" where
  "accept_result v = (case v of PNone \<Rightarrow> Some None | PDict d \<Rightarrow> Some (Some d) | _ \<Rightarrow> None)"

text \<open>The value of one line, when it is an answer to this request; every other value is passed over.\<close>

definition accept_row :: "pystr \<Rightarrow> pyval \<Rightarrow> receipt option" where
  "accept_row request_id v = (case v of
      PDict d \<Rightarrow>
        if \<not> keys_are d receipt_fields then None
        else if map_of d (str ''protocol_version'') \<noteq> Some (PInt 1) \<or> map_of d (str ''request_id'') \<noteq> Some (PStr request_id) then None
        else (case (map_of d (str ''device_id''), map_of d (str ''boot_id''), map_of d (str ''state''),
                    map_of d (str ''error_code''), map_of d (str ''result'')) of
           (Some device, Some boot, Some (PStr state), Some code, Some result) \<Rightarrow>
             (case (canonical_id device, canonical_id boot) of
                (Inr device_id, Inr boot_id) \<Rightarrow>
                  if \<not> known_state state then None
                  else (case (accept_code state code, accept_result result) of
                     (Some error_code, Some answer) \<Rightarrow>
                       Some \<lparr>rc_device_id = device_id, rc_boot_id = boot_id, rc_request_id = request_id, rc_state = state,
                             rc_error_code = error_code, rc_result = answer\<rparr>
                   | _ \<Rightarrow> None)
              | _ \<Rightarrow> None)
         | _ \<Rightarrow> None)
    | _ \<Rightarrow> None)"

definition skipped :: "exn \<Rightarrow> bool" where
  "skipped e = (is_value_error e \<or> exc e = TypeError \<or> exc e = KeyError)"

definition accept_line :: "(bytes \<Rightarrow> pyval res) \<Rightarrow> pystr \<Rightarrow> bytes \<Rightarrow> receipt option res" where
  "accept_line loads request_id line =
     (if take 1 line \<noteq> [123] then Inr None
      else (case loads line of
          Inl e \<Rightarrow> if skipped e then Inr None else Inl e
        | Inr v \<Rightarrow> Inr (accept_row request_id v)))"

abbreviation no_result :: exn where
  "no_result \<equiv> Raise TimeoutError ''no final result''"

fun read_result :: "(bytes \<Rightarrow> pyval res) \<Rightarrow> pystr \<Rightarrow> (receipt \<Rightarrow> 'a option res) \<Rightarrow> bytes \<times> bool \<Rightarrow> rx list \<Rightarrow> 'a res \<times> rx list" where
  "read_result loads request_id body st [] = (Inl no_result, [])"
| "read_result loads request_id body st (r # rs) = (case r of
      Deadline \<Rightarrow> (Inl no_result, rs)
    | Silent \<Rightarrow> read_result loads request_id body st rs
    | Read_error e \<Rightarrow> (Inl e, rs)
    | Received byte \<Rightarrow> (case frame_byte True st byte of
          (st', None) \<Rightarrow> read_result loads request_id body st' rs
        | (st', Some line) \<Rightarrow> (case accept_line loads request_id line of
              Inl e \<Rightarrow> (Inl e, rs)
            | Inr None \<Rightarrow> read_result loads request_id body st' rs
            | Inr (Some value) \<Rightarrow> (case body value of
                  Inl e \<Rightarrow> (Inl e, rs)
                | Inr None \<Rightarrow> read_result loads request_id body st' rs
                | Inr (Some x) \<Rightarrow> (Inr x, rs)))))"

definition results :: "(bytes \<Rightarrow> pyval res) \<Rightarrow> pystr \<Rightarrow> (receipt \<Rightarrow> 'a option res) \<Rightarrow> 'a io" where
  "results loads request_id body p =
     (case read_result loads request_id body ([], False) (p_reads p) of (r, rest) \<Rightarrow> (r, p\<lparr>p_reads := rest\<rparr>))"

subsection \<open>Readiness\<close>

fun after_first :: "'a list \<Rightarrow> 'a list \<Rightarrow> 'a list option" where
  "after_first pat [] = (if pat = [] then Some [] else None)"
| "after_first pat (x # xs) = (if take (length pat) (x # xs) = pat then Some (drop (length pat) (x # xs)) else after_first pat xs)"

text \<open>\<^verbatim>\<open>str.split()\<close> splits at runs of the blanks of \<^verbatim>\<open>str.isspace\<close>.\<close>

definition py_space :: "nat \<Rightarrow> bool" where
  "py_space c = (9 \<le> c \<and> c \<le> 13 \<or> 28 \<le> c \<and> c \<le> 32 \<or> c = 133 \<or> c = 160 \<or> c = 5760 \<or> 8192 \<le> c \<and> c \<le> 8202 \<or>
     c = 8232 \<or> c = 8233 \<or> c = 8239 \<or> c = 8287 \<or> c = 12288)"

definition words_of :: "pystr \<Rightarrow> pystr list" where
  "words_of s = filter (\<lambda>w. w \<noteq> []) (split_on 32 (map (\<lambda>c. if py_space c then 32 else c) s))"

text \<open>
  \<^verbatim>\<open>int(text)\<close> of a text without blanks: a sign, decimal digits of any script (the Unicode table
  \<open>digit_of\<close> is a parameter), single underscores between digits, at most 4300 digits.
\<close>

fun int_digits :: "(nat \<Rightarrow> int option) \<Rightarrow> bool \<Rightarrow> int \<Rightarrow> pystr \<Rightarrow> int option" where
  "int_digits digit_of after_digit acc [] = (if after_digit then Some acc else None)"
| "int_digits digit_of after_digit acc (c # cs) =
     (if c = 95 then (if after_digit then int_digits digit_of False acc cs else None)
      else (case digit_of c of None \<Rightarrow> None | Some d \<Rightarrow> int_digits digit_of True (10 * acc + d) cs))"

definition py_int :: "(nat \<Rightarrow> int option) \<Rightarrow> pystr \<Rightarrow> int option" where
  "py_int digit_of s =
     (if 4300 < length (filter (\<lambda>c. digit_of c \<noteq> None) s) then None
      else if take 1 s = [43] then int_digits digit_of False 0 (drop 1 s)
      else if take 1 s = [45] then map_option uminus (int_digits digit_of False 0 (drop 1 s))
      else int_digits digit_of False 0 s)"

definition split_pair :: "pystr \<Rightarrow> (pystr \<times> pystr) option" where
  "split_pair item = (if 61 \<in> set item then Some (takeWhile (\<lambda>c. c \<noteq> 61) item, drop 1 (dropWhile (\<lambda>c. c \<noteq> 61) item)) else None)"

definition ready_fields :: "bytes \<Rightarrow> (pystr \<times> pystr) list option" where
  "ready_fields line = (case after_first (ascii ''ESP_BASE_REPORTED '') line of
      None \<Rightarrow> None
    | Some rest \<Rightarrow> map_option (\<lambda>s. rev (List.map_filter split_pair (words_of s))) (utf8_decode rest))"

definition ready_line :: "(nat \<Rightarrow> int option) \<Rightarrow> bytes \<Rightarrow> bool" where
  "ready_line digit_of line = (case ready_fields line of
      None \<Rightarrow> False
    | Some fs \<Rightarrow>
        (case (map_of fs (str ''device_id''), map_of fs (str ''boot_id''), map_of fs (str ''uptime_ms'')) of
           (Some device_id, Some boot_id, Some uptime) \<Rightarrow>
             returns (canonical_uuid device_id) \<and> returns (canonical_uuid boot_id) \<and>
             (case py_int digit_of uptime of None \<Rightarrow> False | Some n \<Rightarrow> 0 \<le> n)
         | _ \<Rightarrow> False))"

fun wait_ready_loop :: "(nat \<Rightarrow> int option) \<Rightarrow> bytes \<times> bool \<Rightarrow> rx list \<Rightarrow> unit res \<times> rx list" where
  "wait_ready_loop digit_of st [] = (Inl (Raise TimeoutError ''device not ready''), [])"
| "wait_ready_loop digit_of st (r # rs) = (case r of
      Deadline \<Rightarrow> (Inl (Raise TimeoutError ''device not ready''), rs)
    | Silent \<Rightarrow> wait_ready_loop digit_of st rs
    | Read_error e \<Rightarrow> (Inl e, rs)
    | Received byte \<Rightarrow> (case frame_byte False st byte of
          (st', None) \<Rightarrow> wait_ready_loop digit_of st' rs
        | (st', Some line) \<Rightarrow> if ready_line digit_of line then (Inr (), rs) else wait_ready_loop digit_of st' rs))"

definition wait_ready :: "(nat \<Rightarrow> int option) \<Rightarrow> unit io" where
  "wait_ready digit_of p = (case wait_ready_loop digit_of ([], False) (p_reads p) of (r, rest) \<Rightarrow> (r, p\<lparr>p_reads := rest\<rparr>))"

subsection \<open>The writing loop\<close>

lemma take_append_drop_take: "take m xs @ take k (drop m xs) = take (m + k) xs"
  by (simp add: take_add)

lemma write_loop_facts:
  assumes "write_loop view written ws = (out, r, rest)"
  shows "(\<exists>k. out = take k (drop written view)) \<and> (r = Inr n \<longrightarrow> out = drop written view) \<and>
    (\<exists>used. ws = used @ rest \<and> length (filter (\<lambda>w. w \<noteq> Would_block) used) \<le> length view - written)"
  using assms
proof (induction view written ws arbitrary: out rule: write_loop.induct)
  case (1 view written ws)
  note step = "1.prems" [unfolded write_loop.simps [of view written ws]]
  show ?case
  proof (cases "length view \<le> written")
    case True
    with step show ?thesis by simp
  next
    case False
    show ?thesis
    proof (cases ws)
      case Nil
      with step False show ?thesis
        by (auto intro: exI [of _ 0])
    next
      case (Cons w ws')
      show ?thesis
      proof (cases w)
        case Would_block
        with step Cons False have "write_loop view written ws' = (out, r, rest)"
          by simp
        from "1.IH"(1) [OF False Cons Would_block this] obtain used where
          "(\<exists>k. out = take k (drop written view)) \<and> (r = Inr n \<longrightarrow> out = drop written view) \<and>
           ws' = used @ rest \<and> length (filter (\<lambda>w. w \<noteq> Would_block) used) \<le> length view - written" by blast
        then show ?thesis
          using Cons Would_block by (auto intro!: exI [of _ "Would_block # used"])
      next
        case (Wrote count)
        show ?thesis
        proof (cases "count = 0")
          case True
          with step Cons False Wrote show ?thesis
            by (auto intro!: exI [of _ 0] exI [of _ "[Wrote 0]"])
        next
          case pos: False
          obtain out' where w: "write_loop view (written + count) ws' = (out', r, rest)"
            and out: "out = take count (drop written view) @ out'"
            using step Cons False Wrote pos by (auto split: prod.splits)
          from "1.IH"(2) [OF False Cons Wrote pos w] obtain k used where
            ih: "out' = take k (drop (written + count) view)" "r = Inr n \<longrightarrow> out' = drop (written + count) view"
              "ws' = used @ rest" "length (filter (\<lambda>w. w \<noteq> Would_block) used) \<le> length view - (written + count)" by blast
          have "out = take (count + k) (drop written view)"
            unfolding out ih(1) by (simp add: take_add add.commute)
          moreover have "r = Inr n \<longrightarrow> out = drop written view"
            using ih(2) out by (metis append_take_drop_id drop_drop add.commute)
          moreover have "ws = (Wrote count # used) @ rest"
            "length (filter (\<lambda>w. w \<noteq> Would_block) (Wrote count # used)) \<le> length view - written"
            using ih(3,4) Cons Wrote pos False by auto
          ultimately show ?thesis by blast
        qed
      qed (use step Cons False in \<open>auto intro!: exI [of _ 0] exI [of _ "[w]"]\<close>)
    qed
  qed
qed

text \<open>
  C36: writing to the serial port ends.  Whatever the operating system answers, the loop meets at most
  as many answers as the payload has bytes, not counting the times the port was not ready, and
  what went out is a prefix of the payload, in order and without repetition; when the method
  returns, it is the whole payload.
\<close>

theorem serial_write_ends:
  assumes "write_loop payload 0 ws = (out, r, rest)"
  shows "(\<exists>used. ws = used @ rest \<and> length (filter (\<lambda>w. w \<noteq> Would_block) used) \<le> length payload) \<and>
    (\<exists>k. out = take k payload) \<and> (\<forall>n. r = Inr n \<longrightarrow> out = payload)"
  using write_loop_facts [OF assms] by fastforce

theorem serial_write_ends_witness:
  "\<exists>used. [Would_block, Wrote 2, Would_block, Wrote 1, Write_deadline] = used @ [Write_deadline] \<and>
     length (filter (\<lambda>w. w \<noteq> Would_block) used) \<le> 3"
  using serial_write_ends [of "[7, 8, 9]" "[Would_block, Wrote 2, Would_block, Wrote 1, Write_deadline]" "[7, 8, 9]" "Inr 3" "[Write_deadline]"]
  by (simp add: write_loop.simps)

subsection \<open>One request, one line\<close>

fun floats_printable :: "pyval \<Rightarrow> bool" where
  "floats_printable (PFloat s) = list_all (\<lambda>c. 32 \<le> c \<and> c \<le> 126) (str s)"
| "floats_printable (PList vs) = list_all floats_printable vs"
| "floats_printable (PDict d) = list_all (\<lambda>(k, v). floats_printable v) d"
| "floats_printable v = True"

abbreviation printable :: "pystr \<Rightarrow> bool" where
  "printable s \<equiv> \<forall>c \<in> set s. 32 \<le> c \<and> c \<le> 126"

lemma hex_digit_range: "n < 16 \<Longrightarrow> 32 \<le> hex_digit n \<and> hex_digit n \<le> 126"
  by (auto simp: hex_digit_def)

lemma hex4_printable: "printable (hex4 n)"
  by (simp add: hex4_def hex_digit_range)

lemma json_char_printable: "printable (json_char c)"
  by (simp add: json_char_def ball_Un hex4_printable)

lemma json_str_printable: "printable (json_str s)"
  using json_char_printable by (simp add: json_str_def ball_Un)

lemma decimal_printable: "printable (decimal n)"
proof (induction n rule: decimal.induct)
  case (1 n)
  then show ?case
    by (subst decimal.simps) auto
qed

lemma printable_comma_join: "\<forall>p \<in> set ps. printable p \<Longrightarrow> printable (comma_join ps)"
  by (auto simp: comma_join_def split: list.splits)

lemma json_dumps_printable:
  "floats_printable v \<Longrightarrow> printable (json_dumps v)"
  "list_all floats_printable vs \<Longrightarrow> \<forall>p \<in> set (json_items vs). printable p"
  "list_all (\<lambda>(k, v). floats_printable v) d \<Longrightarrow> \<forall>p \<in> set (json_pairs d). printable p"
proof (induction v and vs and d rule: json_dumps_json_items_json_pairs.induct)
  case (3 n)
  then show ?case using decimal_printable by auto
next
  case (6 vs)
  then show ?case using printable_comma_join by fastforce
next
  case (7 d)
  then show ?case using printable_comma_join by fastforce
qed (use json_str_printable in \<open>auto simp: str_def list_all_iff\<close>)

text \<open>
  One accepted send is one line.  What went out is the JSON text of the request between two line
  feeds; the text is printable ASCII, so it holds no line feed of its own, and is at most 9216 bytes long.
\<close>

theorem send_is_one_line:
  assumes "send request p = (Inr (), p')" and "floats_printable request"
  shows "\<exists>line. p_sent p' = p_sent p @ [(request, [10] @ line @ [10])] \<and> line = map word_of_nat (json_dumps request) \<and>
    length line \<le> 9216 \<and> (\<forall>b \<in> set line. 32 \<le> unat b \<and> unat b \<le> 126)"
proof -
  obtain out r rest where w: "write_loop (request_payload request) 0 (p_writes p) = (out, r, rest)"
    by (cases "write_loop (request_payload request) 0 (p_writes p)") auto
  have len: "length (json_dumps request) \<le> 9216" and r: "r = Inr (length (request_payload request))"
    and p': "p_sent p' = p_sent p @ [(request, out)]"
    using assms(1) w by (auto simp: send_def res_simps split: if_splits)
  have "out = request_payload request"
    using write_loop_facts [OF w] r by fastforce
  moreover have "\<forall>b \<in> set (map word_of_nat (json_dumps request) :: bytes). 32 \<le> unat b \<and> unat b \<le> 126"
    using json_dumps_printable(1) [OF assms(2)] by (auto simp: unat_byte_of_nat)
  ultimately show ?thesis
    using len p' by (auto simp: request_payload_def)
qed

lemma send_whole:
  assumes "length (json_dumps request) \<le> 9216" and "p_writes p = Wrote (length (request_payload request)) # ws"
  shows "send request p = (Inr (), p\<lparr>p_writes := ws, p_sent := p_sent p @ [(request, request_payload request)]\<rparr>)"
  using assms by (simp add: send_def write_loop.simps request_payload_def)

definition sample_request :: pyval where
  "sample_request = PDict [(str ''command'', PStr (str ''status''))]"

definition sample_port :: port where
  "sample_port = \<lparr>p_reads = [], p_writes = [Wrote 22], p_ids = (\<lambda>n. []), p_next = 0, p_sent = []\<rparr>"

lemma sample_request_text: "length (json_dumps sample_request) = 20"
  by (simp add: sample_request_def json_str_def json_char_def comma_join_def str_def)

theorem send_is_one_line_witness:
  "\<exists>line. p_sent (snd (send sample_request sample_port)) = [(sample_request, [10] @ line @ [10])] \<and> length line = 20"
proof -
  have run: "send sample_request sample_port = (Inr (), snd (send sample_request sample_port))"
    by (simp add: send_whole [of _ _ "[]"] sample_request_text request_payload_def sample_port_def)
  have "floats_printable sample_request"
    by (simp add: sample_request_def)
  from send_is_one_line [OF run this] show ?thesis
    by (auto simp: sample_port_def sample_request_text)
qed

subsection \<open>The reading loop\<close>

text \<open>The lines the framing hands on, and the lines that are complete in a sequence of bytes.\<close>

fun framed :: "bool \<Rightarrow> bytes \<times> bool \<Rightarrow> bytes \<Rightarrow> bytes list" where
  "framed nul_checked st [] = []"
| "framed nul_checked st (b # bs) = (case frame_byte nul_checked st b of
      (st', None) \<Rightarrow> framed nul_checked st' bs
    | (st', Some line) \<Rightarrow> line # framed nul_checked st' bs)"

definition complete_lines :: "bytes \<Rightarrow> bytes list" where
  "complete_lines bs = butlast (split_on 10 bs)"

definition line_ok :: "bool \<Rightarrow> bytes \<Rightarrow> bool" where
  "line_ok nul_checked line = (length line \<le> 8192 \<and> (nul_checked \<longrightarrow> 0 \<notin> set line))"

lemma empty_line_ok: "line_ok nul_checked []"
  by (simp add: line_ok_def)

lemma framed_from:
  assumes "line_ok nul_checked buffer" and "discard \<longrightarrow> buffer = []"
  shows "framed nul_checked (buffer, discard) bs =
    (case split_on 10 bs of w # ws \<Rightarrow>
       if ws = [] then [] else (if \<not> discard \<and> line_ok nul_checked (buffer @ w) then [buffer @ w] else []) @
         filter (line_ok nul_checked) (butlast ws))"
  using assms
proof (induction bs arbitrary: buffer discard)
  case (Cons b bs)
  obtain w ws where s: "split_on 10 bs = w # ws"
    using split_on_not_Nil by (metis list.exhaust)
  note reset = Cons.IH [OF empty_line_ok, unfolded s, simplified]
  show ?case
  proof (cases "b = 10")
    case True
    then show ?thesis
      using Cons.prems reset s by (auto simp: frame_byte_def line_ok_def)
  next
    case byte: False
    show ?thesis
    proof (cases "8192 \<le> length buffer \<or> nul_checked \<and> b = 0")
      case True
      then have "\<not> line_ok nul_checked (buffer @ b # w)"
        by (auto simp: line_ok_def)
      then show ?thesis
        using True byte reset s by (simp add: frame_byte_def)
    next
      case False
      then have ok: "line_ok nul_checked (if discard then buffer else buffer @ [b])"
        using Cons.prems by (auto simp: line_ok_def)
      show ?thesis
        using False byte Cons.prems s ok Cons.IH [of buffer discard] Cons.IH [of "buffer @ [b]" discard]
        by (auto simp: frame_byte_def)
    qed
  qed
qed simp

lemma framed_lines: "framed nul_checked ([], False) bs = filter (line_ok nul_checked) (complete_lines bs)"
proof -
  obtain w ws where s: "split_on 10 bs = w # ws"
    using split_on_not_Nil by (metis list.exhaust)
  then show ?thesis
    using framed_from [OF empty_line_ok, of False nul_checked bs] by (simp add: complete_lines_def)
qed

text \<open>The bytes heard before the deadline, and the answer found in a list of lines.\<close>

definition heard :: "rx list \<Rightarrow> bytes" where
  "heard rs = List.map_filter (\<lambda>r. case r of Received b \<Rightarrow> Some b | _ \<Rightarrow> None) (takeWhile (\<lambda>r. r \<noteq> Deadline) rs)"

fun first_answer :: "(bytes \<Rightarrow> pyval res) \<Rightarrow> pystr \<Rightarrow> (receipt \<Rightarrow> 'a option res) \<Rightarrow> bytes list \<Rightarrow> 'a res" where
  "first_answer loads request_id body [] = Inl no_result"
| "first_answer loads request_id body (l # ls) = (case accept_line loads request_id l of
      Inl e \<Rightarrow> Inl e
    | Inr None \<Rightarrow> first_answer loads request_id body ls
    | Inr (Some value) \<Rightarrow> (case body value of
          Inl e \<Rightarrow> Inl e
        | Inr None \<Rightarrow> first_answer loads request_id body ls
        | Inr (Some x) \<Rightarrow> Inr x))"

lemma heard_simps [simp]:
  "heard [] = []" "heard (Deadline # rs) = []" "heard (Silent # rs) = heard rs"
  "heard (Received b # rs) = b # heard rs"
  by (simp_all add: heard_def map_filter_def)

lemma read_result_framed:
  assumes "\<forall>e. Read_error e \<notin> set rs"
  shows "fst (read_result loads request_id body st rs) = first_answer loads request_id body (framed True st (heard rs))"
  using assms
proof (induction rs arbitrary: st)
  case (Cons r rs)
  show ?case
  proof (cases r)
    case (Received b)
    with Cons show ?thesis
      by (cases "frame_byte True st b") (auto split: option.splits sum.splits)
  qed (use Cons in auto)
qed simp

text \<open>
  C35: the byte-wise reading loop refines a reading of whole lines.  As long as the port can be read, the
  answer is the one found among the complete lines received before the deadline that are at most
  8192 bytes long and hold no zero byte, taken in order; how the bytes were spread over the
  polls, and what the longer or damaged lines contained, does not matter.
\<close>

theorem read_result_refines_lines:
  assumes "\<forall>e. Read_error e \<notin> set rs"
  shows "fst (read_result loads request_id body ([], False) rs) =
    first_answer loads request_id body (filter (\<lambda>line. length line \<le> 8192 \<and> 0 \<notin> set line) (complete_lines (heard rs)))"
  using read_result_framed [OF assms, of loads request_id body "([], False)"]
  by (simp add: framed_lines line_ok_def [abs_def])

definition client_device :: pystr where
  "client_device = str ''12345678-9abc-4def-8123-456789abcdef''"

lemma client_device_canonical: "canonical_uuid client_device = Inr client_device"
  by (simp add: canonical_uuid_valid valid_uuid_text_def uuid_v4_classes_def client_device_def str_def is_lower_hex_def numeral_eq_Suc)

definition answer_row :: "pystr \<Rightarrow> string \<Rightarrow> pyval \<Rightarrow> pyval \<Rightarrow> pyval" where
  "answer_row request_id state code result = PDict [(str ''protocol_version'', PInt 1), (str ''device_id'', PStr client_device),
     (str ''boot_id'', PStr client_device), (str ''request_id'', PStr request_id), (str ''state'', PStr (str state)),
     (str ''error_code'', code), (str ''result'', result)]"

lemma accept_answer_row:
  "accept_row request_id (answer_row request_id ''succeeded'' PNone (PDict d)) =
     Some \<lparr>rc_device_id = client_device, rc_boot_id = client_device, rc_request_id = request_id, rc_state = str ''succeeded'',
       rc_error_code = None, rc_result = Some d\<rparr>"
  by (simp add: accept_row_def answer_row_def keys_are_def receipt_fields_def str_inj_iff canonical_id_def client_device_canonical
      known_state_def failed_state_def accept_code_def accept_result_def)

theorem read_result_refines_lines_witness:
  "fst (read_result (\<lambda>line. Inr (answer_row [55] ''succeeded'' PNone (PDict []))) [55] (\<lambda>v. Inr (rc_result v)) ([], False)
      [Received 0, Silent, Received 10, Received 123, Silent, Received 10, Deadline, Received 10]) = Inr []"
  by (subst read_result_refines_lines)
    (simp_all add: complete_lines_def accept_line_def accept_answer_row)

lemma wait_ready_line:
  assumes "10 \<notin> set line" and "length (buffer @ line) \<le> 8192"
  shows "wait_ready_loop digit_of (buffer, False) (map Received line @ Received 10 # rs) =
    (if ready_line digit_of (buffer @ line) then (Inr (), rs) else wait_ready_loop digit_of ([], False) rs)"
  using assms
proof (induction line arbitrary: buffer)
  case (Cons b line)
  then show ?case
    using Cons.IH [of "buffer @ [b]"] by (simp add: frame_byte_def)
qed (simp add: frame_byte_def)

lemma after_first_at_start:
  assumes "pat \<noteq> []"
  shows "after_first pat (pat @ rest) = Some rest"
proof -
  obtain x xs where l: "pat @ rest = x # xs"
    using assms by (cases pat) auto
  have "take (length pat) (pat @ rest) = pat" "drop (length pat) (pat @ rest) = rest" by simp_all
  then show ?thesis
    unfolding l by simp
qed

text \<open>The readiness report of the sample device.\<close>

definition ready_text :: string where
  "ready_text = ''device_id=12345678-9abc-4def-8123-456789abcdef boot_id=12345678-9abc-4def-8123-456789abcdef uptime_ms=5''"

definition ascii_digit :: "nat \<Rightarrow> int option" where
  "ascii_digit c = (if 48 \<le> c \<and> c \<le> 57 then Some (int c - 48) else None)"

lemma ready_sample: "ready_line ascii_digit (ascii ''ESP_BASE_REPORTED '' @ ascii ready_text)"
proof -
  have "utf8_decode (ascii ready_text) = Some (str ready_text)"
    by (rule utf8_decode_ascii) (simp add: ready_text_def str_def)
  moreover have "words_of (str ready_text) = [str ''device_id='' @ client_device, str ''boot_id='' @ client_device, str ''uptime_ms=5'']"
    by (simp add: words_of_def ready_text_def client_device_def str_def py_space_def)
  moreover have "List.map_filter split_pair [str ''device_id='' @ client_device, str ''boot_id='' @ client_device, str ''uptime_ms=5''] =
      [(str ''device_id'', client_device), (str ''boot_id'', client_device), (str ''uptime_ms'', str ''5'')]"
    by (simp add: map_filter_def split_pair_def client_device_def str_def)
  moreover have "ascii ''ESP_BASE_REPORTED '' \<noteq> []"
    by (simp add: ascii_def)
  ultimately have "ready_fields (ascii ''ESP_BASE_REPORTED '' @ ascii ready_text) =
      Some [(str ''uptime_ms'', str ''5''), (str ''boot_id'', client_device), (str ''device_id'', client_device)]"
    by (simp add: ready_fields_def after_first_at_start)
  moreover have "py_int ascii_digit (str ''5'') = Some 5"
    by (simp add: py_int_def ascii_digit_def str_def)
  ultimately show ?thesis
    by (simp add: ready_line_def client_device_canonical str_inj_iff)
qed

end
