(* ===== verification/Device_Control.thy ===== *)
theory Device_Control
  imports Serial_Port Device_Config Business_Event
begin

text \<open>
  The serial client (\<^verbatim>\<open>device_control.py\<close>): the status request, the OTA, configuration, capability,
  business and restart commands, and the dispatch of \<^verbatim>\<open>main\<close>.  The JSON decoder \<open>loads\<close> (with the
  duplicate-refusing hook), the Unicode digit table \<open>digit_of\<close> and the comparison \<open>float_is\<close> of a float literal
  with an integer are parameters; the files are what \<^verbatim>\<open>fstat\<close> and \<^verbatim>\<open>read\<close> give.

  Lemmas: every operation is characterised by the requests it hands to the port; the properties say
  that a write command is sent at most once, only to the device named on the command line in the
  boot just observed, and what an accepted answer proves.
\<close>

unbundle bit_operations_syntax

subsection \<open>Requests\<close>

definition plain_request :: "pystr \<Rightarrow> string \<Rightarrow> (string \<times> pyval) list \<Rightarrow> pyval" where
  "plain_request request_id command extra =
     PDict ([(str ''protocol_version'', PInt 1), (str ''request_id'', PStr request_id), (str ''command'', PStr (str command))] @
       map (\<lambda>(k, v). (str k, v)) extra)"

definition write_request :: "pystr \<Rightarrow> string \<Rightarrow> receipt \<Rightarrow> int \<Rightarrow> pyval \<Rightarrow> pyval" where
  "write_request request_id command current expires parameters = plain_request request_id command
     [(''device_id'', PStr (rc_device_id current)), (''target_boot_id'', PStr (rc_boot_id current)),
      (''expires_at_uptime_ms'', PInt expires), (''parameters'', parameters)]"

definition result_item :: "receipt \<Rightarrow> string \<Rightarrow> pyval res" where
  "result_item r k = (case rc_result r of
      None \<Rightarrow> Inl (Raise TypeError ''result is None'')
    | Some d \<Rightarrow> py_getitem d k)"

text \<open>\<^verbatim>\<open>status\<close> only returns answers whose uptime is an integer.\<close>

definition expiry :: "receipt \<Rightarrow> int res" where
  "expiry r = bindE (result_item r ''uptime_ms'') (\<lambda>v. case v of
      PInt n \<Rightarrow> Inr (n + 10000)
    | _ \<Rightarrow> Inl (Raise TypeError ''uptime''))"

definition unknown_receipt :: "receipt \<Rightarrow> pystr \<Rightarrow> string \<Rightarrow> receipt" where
  "unknown_receipt current request_id code =
     \<lparr>rc_device_id = rc_device_id current, rc_boot_id = rc_boot_id current, rc_request_id = request_id,
      rc_state = str ''unknown'', rc_error_code = Some (str code), rc_result = None\<rparr>"

definition on_timeout :: "'a io \<Rightarrow> 'a \<Rightarrow> 'a io" where
  "on_timeout m x p = (case m p of
      (Inl e, p') \<Rightarrow> (if exc e = TimeoutError then Inr x else Inl e, p')
    | (Inr y, p') \<Rightarrow> (Inr y, p'))"

definition same_boot :: "receipt \<Rightarrow> receipt \<Rightarrow> bool" where
  "same_boot r current = (rc_device_id r = rc_device_id current \<and> rc_boot_id r = rc_boot_id current)"

subsection \<open>Status\<close>

definition status_body :: "receipt \<Rightarrow> receipt option res" where
  "status_body value = (case rc_result value of
      None \<Rightarrow> Inl (Raise ValueError ''status refused'')
    | Some d \<Rightarrow>
        require (rc_state value = str ''succeeded'') (Raise ValueError ''status refused'')
        (case map_of d (str ''uptime_ms'') of
           Some (PInt uptime) \<Rightarrow> require (0 \<le> uptime \<and> uptime \<le> 9007199254740991) (Raise ValueError ''uptime'') (Inr (Some value))
         | _ \<Rightarrow> Inl (Raise ValueError ''uptime'')))"

definition status :: "(bytes \<Rightarrow> pyval res) \<Rightarrow> receipt io" where
  "status loads =
     bindP fresh_id (\<lambda>request_id.
     bindP (send (plain_request request_id ''status'' [])) (\<lambda>_.
     results loads request_id status_body))"

subsection \<open>OTA\<close>

definition OTA_TARGETS :: "(pystr \<times> string \<times> int) list" where
  "OTA_TARGETS =
     [(str ''esp32c3/esp_base'', ''esp_secure_boot_v2_rsa3072'', 0x1e0000),
      (str ''esp32/esp_base'', ''esp_secure_boot_v1_ecdsa_p256'', 0x1e0000)]"

definition sha_text_ok :: "pystr \<Rightarrow> bool" where
  "sha_text_ok s = (length s = 64 \<and> list_all is_lower_hex s \<and> s \<noteq> replicate 64 48)"

definition image_facts_ok :: "pyval \<Rightarrow> pyval \<Rightarrow> pyval \<Rightarrow> pyval \<Rightarrow> bool" where
  "image_facts_ok digest target image_size slot = (case (digest, target, image_size, slot) of
      (PStr h, PStr t, PInt n, PStr s) \<Rightarrow>
        sha_text_ok h \<and> s \<in> {str ''ota_0'', str ''ota_1''} \<and>
        (case map_of OTA_TARGETS t of None \<Rightarrow> False | Some (scheme, slot_size) \<Rightarrow> 1 \<le> n \<and> n \<le> slot_size)
    | _ \<Rightarrow> False)"

definition ota_result_body :: "receipt \<Rightarrow> pystr \<Rightarrow> pystr option \<Rightarrow> int option \<Rightarrow> receipt \<Rightarrow> receipt option res" where
  "ota_result_body current operation_id expected_sha256 expected_size_bytes value =
     require (rc_device_id value = rc_device_id current) (Raise ValueError ''OTA result of another device'')
     (case rc_result value of
        None \<Rightarrow> require (rc_state value \<in> {str ''unknown'', str ''failed''}) (Raise ValueError ''no persistent result'') (Inr (Some value))
      | Some d \<Rightarrow>
          require (keys_are d [''operation_id'', ''sha256'', ''image_size_bytes'', ''target'', ''target_slot''])
            (Raise ValueError ''OTA result fields'')
          (bindE (py_getitem d ''operation_id'') (\<lambda>operation. bindE (py_getitem d ''sha256'') (\<lambda>digest.
           bindE (py_getitem d ''image_size_bytes'') (\<lambda>image_size. bindE (py_getitem d ''target'') (\<lambda>target.
           bindE (py_getitem d ''target_slot'') (\<lambda>slot.
           require (operation = PStr operation_id \<and> image_facts_ok digest target image_size slot \<and>
                    (case expected_sha256 of None \<Rightarrow> True | Some h \<Rightarrow> digest = PStr h) \<and>
                    (case expected_size_bytes of None \<Rightarrow> True | Some n \<Rightarrow> image_size = PInt n))
             (Raise ValueError ''OTA result does not match'') (Inr (Some value)))))))))"

definition ota_result :: "(bytes \<Rightarrow> pyval res) \<Rightarrow> receipt \<Rightarrow> pystr \<Rightarrow> pystr option \<Rightarrow> int option \<Rightarrow> receipt io" where
  "ota_result loads current operation_id expected_sha256 expected_size_bytes =
     bindP (liftP (canonical_uuid operation_id)) (\<lambda>_.
     bindP fresh_id (\<lambda>request_id.
     bindP (send (plain_request request_id ''ota.result'' [(''parameters'', PDict [(str ''operation_id'', PStr operation_id)])])) (\<lambda>_.
     results loads request_id (ota_result_body current operation_id expected_sha256 expected_size_bytes))))"

text \<open>The image file: \<^verbatim>\<open>fstat\<close> before, what the successive \<^verbatim>\<open>os.read\<close> calls return, \<^verbatim>\<open>fstat\<close> after.\<close>

record image_file =
  i_regular :: bool
  i_size :: int
  i_mtime :: int
  i_blocks :: "bytes list"
  i_after_size :: int
  i_after_mtime :: int

fun read_blocks :: "int \<Rightarrow> bytes \<Rightarrow> bytes list \<Rightarrow> bytes res" where
  "read_blocks limit read [] = Inr read"
| "read_blocks limit read (block # blocks) =
     (if block = [] then Inr read
      else if limit < int (length (read @ block)) then Inl (Raise ValueError ''image changed while reading'')
      else read_blocks limit (read @ block) blocks)"

definition read_image :: "image_file \<Rightarrow> int \<Rightarrow> bytes res" where
  "read_image f slot_size =
     require (i_regular f \<and> 1 \<le> i_size f \<and> i_size f \<le> slot_size) (Raise ValueError ''not an image for this slot'')
     (bindE (read_blocks (i_size f) [] (i_blocks f)) (\<lambda>content.
      require (int (length content) = i_size f \<and> int (length content) = i_after_size f \<and> i_mtime f = i_after_mtime f)
        (Raise ValueError ''image changed while reading'') (Inr content)))"

definition ota_ready :: "receipt \<Rightarrow> bool res" where
  "ota_ready fresh = (case rc_result fresh of
      None \<Rightarrow> Inl (Raise TypeError ''result is None'')
    | Some d \<Rightarrow> (case map_of d (str ''capabilities'') of
          None \<Rightarrow> Inr False
        | Some (PDict caps) \<Rightarrow> Inr (map_of caps (str ''ota'') = Some (PStr (str ''ready'')))
        | Some _ \<Rightarrow> Inl (Raise AttributeError ''get'')))"

definition ota_parameters :: "pystr \<Rightarrow> pystr \<Rightarrow> bytes \<Rightarrow> pystr \<Rightarrow> string \<Rightarrow> pyval" where
  "ota_parameters operation_id image_url content target scheme = PDict
     [(str ''operation_id'', PStr operation_id), (str ''image_url'', PStr image_url), (str ''sha256'', PStr (hex (sha256 content))),
      (str ''image_size_bytes'', PInt (int (length content))), (str ''target'', PStr target),
      (str ''signature'', PDict [(str ''scheme'', PStr (str scheme))])]"

definition ota_start_body :: "receipt \<Rightarrow> receipt \<Rightarrow> receipt option res" where
  "ota_start_body current value =
     require (same_boot value current) (Raise ValueError ''OTA receipt of another device or boot'')
     (require (rc_result value = None) (Raise ValueError ''OTA receipt fields'')
     (if rc_state value \<in> {str ''failed'', str ''expired'', str ''unknown'', str ''running''} then Inr (Some value)
      else if rc_state value = str ''succeeded'' then Inl (Raise ValueError ''OTA receipt without proof'')
      else Inr None))"

text \<open>The second half of \<^verbatim>\<open>ota_start\<close>, from the status request on.\<close>

definition ota_send :: "(bytes \<Rightarrow> pyval res) \<Rightarrow> receipt \<Rightarrow> pystr \<Rightarrow> pystr \<Rightarrow> pystr \<Rightarrow> string \<Rightarrow> bytes \<Rightarrow> receipt io" where
  "ota_send loads current operation_id image_url target scheme content =
     bindP (status loads) (\<lambda>fresh.
     requireP (same_boot fresh current) (Raise ValueError ''device restarted before OTA'')
     (bindP (liftP (ota_ready fresh)) (\<lambda>ready.
     requireP ready (Raise ValueError ''OTA not available'')
     (bindP fresh_id (\<lambda>request_id.
      bindP (liftP (expiry fresh)) (\<lambda>expires.
      bindP (send (write_request request_id ''ota.start'' current expires
               (ota_parameters operation_id image_url content target scheme))) (\<lambda>_.
      on_timeout (results loads request_id (ota_start_body current))
        (unknown_receipt current request_id ''ota_write_receipt_missing''))))))))"

definition ota_start :: "(bytes \<Rightarrow> pyval res) \<Rightarrow> receipt \<Rightarrow> pystr \<Rightarrow> image_file \<Rightarrow> pystr \<Rightarrow> pystr \<Rightarrow> receipt io" where
  "ota_start loads current operation_id image_file image_url target =
     bindP (liftP (canonical_uuid operation_id)) (\<lambda>_.
     bindP (liftP (of_option (Raise ValueError ''OTA target or URL'')
       (if take 8 image_url = str ''https://'' \<and> length image_url \<le> 512 then map_of OTA_TARGETS target else None))) (\<lambda>slot.
     bindP (liftP (read_image image_file (snd slot))) (\<lambda>content.
     ota_send loads current operation_id image_url target (fst slot) content)))"

subsection \<open>Configuration\<close>

text \<open>A number equals an integer in Python whatever its type.\<close>

definition equals_int :: "(string \<Rightarrow> int \<Rightarrow> bool) \<Rightarrow> pyval option \<Rightarrow> int \<Rightarrow> bool" where
  "equals_int float_is v n = (case v of
      Some (PInt m) \<Rightarrow> m = n
    | Some (PBool b) \<Rightarrow> (if b then 1 else 0) = n
    | Some (PFloat s) \<Rightarrow> float_is s n
    | _ \<Rightarrow> False)"

definition apply_body :: "(string \<Rightarrow> int \<Rightarrow> bool) \<Rightarrow> receipt \<Rightarrow> int \<Rightarrow> receipt \<Rightarrow> receipt option res" where
  "apply_body float_is current revision value =
     (if \<not> same_boot value current then Inr None
      else if failed_state (rc_state value) then Inl (Raise ValueError ''configuration not committed'')
      else if rc_state value = str ''succeeded''
      then (case rc_result value of
          Some d \<Rightarrow> require (equals_int float_is (map_of d (str ''revision'')) (revision + 1)) (Raise ValueError ''no revision evidence'') (Inr (Some value))
        | None \<Rightarrow> Inl (Raise ValueError ''no revision evidence''))
      else Inr None)"

definition current_revision :: "receipt \<Rightarrow> int res" where
  "current_revision current = bindE (result_item current ''revision'') (\<lambda>v. case v of
      PInt n \<Rightarrow> require (0 \<le> n \<and> n < 4294967295) (Raise ValueError ''revision'') (Inr n)
    | _ \<Rightarrow> Inl (Raise ValueError ''revision''))"

definition config_parameters :: "int \<Rightarrow> pyval \<Rightarrow> pyval" where
  "config_parameters revision config = PDict [(str ''expected_revision'', PInt revision), (str ''config'', config)]"

definition apply_configuration :: "(bytes \<Rightarrow> pyval res) \<Rightarrow> (string \<Rightarrow> int \<Rightarrow> bool) \<Rightarrow> receipt \<Rightarrow> pyval \<Rightarrow> receipt io" where
  "apply_configuration loads float_is current config =
     bindP (liftP (validate_configuration config)) (\<lambda>_.
     bindP (liftP (current_revision current)) (\<lambda>revision.
     bindP fresh_id (\<lambda>request_id.
     bindP (liftP (expiry current)) (\<lambda>expires.
     bindP (send (write_request request_id ''config.set'' current expires (config_parameters revision config))) (\<lambda>_.
     results loads request_id (apply_body float_is current revision))))))"

text \<open>\<^verbatim>\<open>0o077\<close> is 63.\<close>

definition load_private_config :: "(bytes \<Rightarrow> pyval res) \<Rightarrow> file_facts \<Rightarrow> pyval res" where
  "load_private_config loads f =
     require (pf_regular f \<and> pf_own f \<and> pf_mode f AND 63 = 0 \<and> pf_links f = 1) (Raise ValueError ''not a private file'')
     (let raw = take 8193 (pf_content f) in
      require (length raw \<le> 8192) (Raise ValueError ''configuration file too long'') (loads raw))"

subsection \<open>Capabilities and business actions\<close>

definition firmware_answer_ok :: "(pystr \<times> pyval) list \<Rightarrow> bool" where
  "firmware_answer_ok d =
     (keys_are d [''firmware_sha256'', ''image_size_bytes'', ''target'', ''ota_slot''] \<and>
      (case (map_of d (str ''firmware_sha256''), map_of d (str ''target''), map_of d (str ''image_size_bytes''), map_of d (str ''ota_slot'')) of
         (Some digest, Some target, Some image_size, Some slot) \<Rightarrow> image_facts_ok digest target image_size slot
       | _ \<Rightarrow> False))"

definition business_answer_ok :: "(pystr \<times> pyval) list \<Rightarrow> bool" where
  "business_answer_ok d =
     (keys_are d [''byte_count'', ''state'', ''window_deadline_uptime_ms''] \<and>
      (case (map_of d (str ''byte_count''), map_of d (str ''state''), map_of d (str ''window_deadline_uptime_ms'')) of
         (Some (PInt n), Some (PStr s), Some (PInt t)) \<Rightarrow>
           0 \<le> n \<and> n \<le> 4294967295 \<and> s \<in> {str ''idle'', str ''active'', str ''paused''} \<and> 0 \<le> t \<and> t \<le> 9007199254740991
       | _ \<Rightarrow> False))"

definition query_body :: "receipt \<Rightarrow> string \<Rightarrow> receipt \<Rightarrow> receipt option res" where
  "query_body current command value =
     require (same_boot value current) (Raise ValueError ''status of another device or boot'')
     (if rc_state value \<noteq> str ''succeeded''
      then require (rc_result value = None \<and> rc_state value \<in> {str ''failed'', str ''unknown''}) (Raise ValueError ''status receipt'') (Inr (Some value))
      else require (case rc_result value of
                      None \<Rightarrow> False
                    | Some d \<Rightarrow> if command = ''firmware.status'' then firmware_answer_ok d else business_answer_ok d)
             (Raise ValueError ''status fields'') (Inr (Some value)))"

definition query_capability :: "(bytes \<Rightarrow> pyval res) \<Rightarrow> receipt \<Rightarrow> string \<Rightarrow> receipt io" where
  "query_capability loads current command =
     requireP (command \<in> {''firmware.status'', ''business.status''}) (Raise ValueError ''unknown capability'')
     (bindP fresh_id (\<lambda>request_id.
      bindP (send (plain_request request_id command [])) (\<lambda>_.
      results loads request_id (query_body current command))))"

definition business_body :: "receipt \<Rightarrow> receipt \<Rightarrow> receipt option res" where
  "business_body current value =
     require (same_boot value current \<and> rc_result value = None) (Raise ValueError ''business receipt'') (Inr (Some value))"

definition business_action :: "(bytes \<Rightarrow> pyval res) \<Rightarrow> receipt \<Rightarrow> string \<Rightarrow> receipt io" where
  "business_action loads current command =
     requireP (command \<in> {''business.pause'', ''business.resume''}) (Raise ValueError ''unknown business action'')
     (bindP (status loads) (\<lambda>fresh.
      requireP (same_boot fresh current) (Raise ValueError ''device changed before the action'')
      (bindP fresh_id (\<lambda>request_id.
       bindP (liftP (expiry fresh)) (\<lambda>expires.
       bindP (send (write_request request_id command current expires (PDict []))) (\<lambda>_.
       on_timeout (results loads request_id (business_body current))
         (unknown_receipt current request_id ''business_write_receipt_missing'')))))))"

subsection \<open>The command line\<close>

text \<open>An option that is absent or the empty text is \<open>[]\<close> (or \<open>None\<close> for the configuration file).\<close>

record args =
  a_command :: string
  a_device_id :: pystr
  a_config_file :: "file_facts option"
  a_operation_id :: pystr
  a_image_file :: "image_file option"
  a_image_url :: "pystr option"
  a_ota_target :: "pystr option"

abbreviation usage :: "string \<Rightarrow> exn" where
  "usage t \<equiv> Raise SystemExit t"

definition write_commands :: "string set" where
  "write_commands = {''restart'', ''config.set'', ''ota.start'', ''business.pause'', ''business.resume''}"

definition check_arguments :: "args \<Rightarrow> unit res" where
  "check_arguments a =
     require (a_command a \<in> write_commands \<longrightarrow> a_device_id a \<noteq> []) (usage ''device-id'')
     (require ((a_command a = ''config.set'') = (a_config_file a \<noteq> None)) (usage ''config-file'')
     (require ((a_command a \<in> {''ota.start'', ''ota.result''}) = (a_operation_id a \<noteq> [])) (usage ''operation-id'')
     (require (if a_command a = ''ota.start'' then a_image_file a \<noteq> None \<and> a_image_url a \<noteq> None \<and> a_ota_target a \<noteq> None
               else a_image_file a = None \<and> a_image_url a = None \<and> a_ota_target a = None) (usage ''image options'')
     (bindE (if a_operation_id a \<noteq> [] then canonical_uuid (a_operation_id a) else Inr []) (\<lambda>_. Inr ())))))"

definition restart_body :: "receipt \<Rightarrow> receipt \<Rightarrow> unit option res" where
  "restart_body current value =
     (if \<not> same_boot value current then Inr None
      else if failed_state (rc_state value) then Inl (Raise ValueError ''restart refused'')
      else if rc_state value = str ''running'' then Inr (Some ())
      else Inr None)"

definition restart :: "(bytes \<Rightarrow> pyval res) \<Rightarrow> receipt \<Rightarrow> receipt io" where
  "restart loads current =
     bindP fresh_id (\<lambda>request_id.
     bindP (liftP (expiry current)) (\<lambda>expires.
     bindP (send (write_request request_id ''restart'' current expires (PDict []))) (\<lambda>_.
     bindP (results loads request_id (restart_body current)) (\<lambda>_.
     bindP (status loads) (\<lambda>observed.
     requireP (rc_device_id observed = rc_device_id current \<and> rc_boot_id observed \<noteq> rc_boot_id current)
       (Raise ValueError ''no new boot observed'')
     (returnP (observed\<lparr>rc_request_id := request_id\<rparr>)))))))"

definition dispatch :: "(bytes \<Rightarrow> pyval res) \<Rightarrow> (string \<Rightarrow> int \<Rightarrow> bool) \<Rightarrow> args \<Rightarrow> pyval \<Rightarrow> receipt \<Rightarrow> receipt io" where
  "dispatch loads float_is a config current =
     (if a_command a = ''restart'' then restart loads current
      else if a_command a = ''config.set'' then apply_configuration loads float_is current config
      else if a_command a = ''ota.start''
      then (case (a_image_file a, a_image_url a, a_ota_target a) of
          (Some image_file, Some image_url, Some target) \<Rightarrow> ota_start loads current (a_operation_id a) image_file image_url target
        | _ \<Rightarrow> raiseP (usage ''image options''))
      else if a_command a = ''ota.result'' then ota_result loads current (a_operation_id a) None None
      else if a_command a \<in> {''firmware.status'', ''business.status''} then query_capability loads current (a_command a)
      else if a_command a \<in> {''business.pause'', ''business.resume''} then business_action loads current (a_command a)
      else returnP current)"

definition device_main ::
  "(bytes \<Rightarrow> pyval res) \<Rightarrow> (nat \<Rightarrow> int option) \<Rightarrow> (string \<Rightarrow> int \<Rightarrow> bool) \<Rightarrow> args \<Rightarrow> receipt io" where
  "device_main loads digit_of float_is a =
     bindP (liftP (check_arguments a)) (\<lambda>_.
     bindP (liftP (case a_config_file a of None \<Rightarrow> Inr PNone | Some f \<Rightarrow> load_private_config loads f)) (\<lambda>config.
     bindP (liftP (if a_device_id a \<noteq> [] then canonical_uuid (a_device_id a) else Inr [])) (\<lambda>_.
     bindP (wait_ready digit_of) (\<lambda>_.
     bindP (status loads) (\<lambda>current.
     requireP (a_device_id a = [] \<or> rc_device_id current = a_device_id a) (Raise ValueError ''another device'')
     (dispatch loads float_is a config current))))))"

subsection \<open>What a run hands to the port\<close>

definition sent :: "port \<Rightarrow> pyval list" where
  "sent p = map fst (p_sent p)"

definition request_field :: "string \<Rightarrow> pyval \<Rightarrow> pyval option" where
  "request_field k q = (case q of PDict d \<Rightarrow> map_of d (str k) | _ \<Rightarrow> None)"

definition is_write :: "pyval \<Rightarrow> bool" where
  "is_write q = (\<exists>c \<in> write_commands. request_field ''command'' q = Some (PStr (str c)))"

text \<open>
  \<open>sends n W m\<close>: every run of \<open>m\<close> only adds to the transcript, at most \<open>n\<close> of the added requests are
  write commands, and those satisfy \<open>W\<close>.
\<close>

definition sends :: "nat \<Rightarrow> (pyval \<Rightarrow> bool) \<Rightarrow> 'a io \<Rightarrow> bool" where
  "sends n W m = (\<forall>p. \<exists>new. sent (snd (m p)) = sent p @ new \<and> length (filter is_write new) \<le> n \<and> (\<forall>q \<in> set new. is_write q \<longrightarrow> W q))"

lemma sends_nothing: "(\<And>p. p_sent (snd (m p)) = p_sent p) \<Longrightarrow> sends n W m"
  by (simp add: sends_def sent_def)

lemma sends_basic [intro]:
  "sends n W (liftP r)" "sends n W (returnP x)" "sends n W (raiseP e)" "sends n W fresh_id"
  "sends n W (results loads request_id body)" "sends n W (wait_ready digit_of)"
  by (rule sends_nothing; simp add: liftP_def returnP_def raiseP_def fresh_id_def results_def wait_ready_def split: prod.split)+

lemma sends_send:
  assumes "is_write q \<Longrightarrow> 1 \<le> n \<and> W q"
  shows "sends n W (send q)"
proof -
  have "sent (snd (send q p)) = sent p \<or> sent (snd (send q p)) = sent p @ [q]" for p
    by (auto simp: send_def sent_def Let_def split: prod.split)
  then show ?thesis
    using assms unfolding sends_def by (metis (no_types, opaque_lifting) append_Nil2 empty_iff filter.simps le0 list.set length_Cons
      list.size(3) One_nat_def set_ConsD)
qed

lemma sends_bind:
  assumes m: "sends a W m" and f: "\<And>x p p'. m p = (Inr x, p') \<Longrightarrow> sends b W (f x)" and n: "a + b = n"
  shows "sends n W (bindP m f)"
  unfolding sends_def
proof
  fix p
  obtain r p1 where m1: "m p = (r, p1)" by fastforce
  obtain new where new: "sent p1 = sent p @ new" "length (filter is_write new) \<le> a" "\<forall>q \<in> set new. is_write q \<longrightarrow> W q"
    using m [unfolded sends_def, rule_format, of p] m1 by auto
  show "\<exists>new. sent (snd (bindP m f p)) = sent p @ new \<and> length (filter is_write new) \<le> n \<and> (\<forall>q \<in> set new. is_write q \<longrightarrow> W q)"
  proof (cases r)
    case (Inl e)
    with m1 new n show ?thesis
      by (auto simp: bindP_def)
  next
    case (Inr x)
    obtain new' where new': "sent (snd (f x p1)) = sent p1 @ new'" "length (filter is_write new') \<le> b"
      "\<forall>q \<in> set new'. is_write q \<longrightarrow> W q"
      using f [of p x p1] m1 Inr unfolding sends_def by blast
    then show ?thesis
      using m1 Inr new n by (intro exI [of _ "new @ new'"]) (auto simp: bindP_def)
  qed
qed

lemmas sends_then = sends_bind [where a = 0, simplified]
lemmas sends_first = sends_bind [where b = 0, simplified]

lemma sends_lift_then:
  "(\<And>x. r = Inr x \<Longrightarrow> sends n W (f x)) \<Longrightarrow> sends n W (bindP (liftP r) f)"
  by (rule sends_then [OF _ _ refl]) (auto simp: liftP_def)

lemma sends_require [intro]: "(c \<Longrightarrow> sends n W k) \<Longrightarrow> sends n W (requireP c e k)"
  by (auto simp: requireP_def)

lemma sends_on_timeout [intro]: "sends n W m \<Longrightarrow> sends n W (on_timeout m x)"
proof -
  have "snd (on_timeout m x p) = snd (m p)" for p
    by (auto simp: on_timeout_def split: prod.split sum.split)
  then show "sends n W m \<Longrightarrow> sends n W (on_timeout m x)"
    by (simp add: sends_def)
qed

lemma request_command [simp]:
  "request_field ''command'' (plain_request request_id command extra) = Some (PStr (str command))"
  "request_field ''command'' (write_request request_id command current expires parameters) = Some (PStr (str command))"
  by (simp_all add: request_field_def plain_request_def write_request_def)

lemma request_device [simp]:
  "request_field ''device_id'' (write_request request_id command current expires parameters) = Some (PStr (rc_device_id current))"
  "request_field ''target_boot_id'' (write_request request_id command current expires parameters) = Some (PStr (rc_boot_id current))"
  by (simp_all add: request_field_def plain_request_def write_request_def)

lemma is_write_request [simp]:
  "is_write (plain_request request_id command extra) \<longleftrightarrow> command \<in> write_commands"
  "is_write (write_request request_id command current expires parameters) \<longleftrightarrow> command \<in> write_commands"
  by (auto simp: is_write_def)

lemma sends_query:
  assumes "command \<notin> write_commands"
  shows "sends n W (bindP fresh_id (\<lambda>request_id. bindP (send (plain_request request_id command extra)) (\<lambda>_.
    results loads request_id (body request_id))))"
  by (rule sends_then [OF sends_basic(4)], rule sends_then [OF sends_send]) (use assms in auto)

lemma status_sends: "sends n W (status loads)"
  unfolding status_def by (rule sends_query) (simp add: write_commands_def)

lemma write_sends:
  assumes "W q" and "\<And>p p'. sends 0 W (k ())"
  shows "sends 1 W (bindP (send q) k)"
  by (rule sends_first [OF sends_send]) (use assms in auto)

lemma read_blocks_content: "read_blocks limit read blocks = Inr content \<Longrightarrow> content = read @ concat (takeWhile (\<lambda>b. b \<noteq> []) blocks)"
  by (induction limit read blocks rule: read_blocks.induct) (auto split: if_splits)

lemma io_eq_Inr [res_simps]:
  "bindP m f p = (Inr v, p') \<longleftrightarrow> (\<exists>x q. m p = (Inr x, q) \<and> f x q = (Inr v, p'))"
  "liftP r p = (Inr v, p') \<longleftrightarrow> r = Inr v \<and> p' = p"
  "returnP x p = (Inr v, p') \<longleftrightarrow> x = v \<and> p' = p"
  "requireP c e k p = (Inr v, p') \<longleftrightarrow> c \<and> k p = (Inr v, p')"
  "fresh_id p = (Inr w, p') \<longleftrightarrow> w = p_ids p (p_next p) \<and> p' = p\<lparr>p_next := p_next p + 1\<rparr>"
  by (auto simp: bindP_def liftP_def returnP_def requireP_def raiseP_def fresh_id_def split: prod.splits sum.splits)

lemma read_result_body:
  "read_result loads request_id body st rs = (Inr x, rs') \<Longrightarrow> \<exists>v. body v = Inr (Some x) \<and> rc_request_id v = request_id"
proof (induction rs arbitrary: st)
  case (Cons r rs)
  show ?case
  proof (cases r)
    case (Received b)
    obtain st' l where f: "frame_byte True st b = (st', l)" by fastforce
    show ?thesis
    proof (cases l)
      case None
      with Cons Received f show ?thesis by simp
    next
      case (Some line)
      obtain a where a: "accept_line loads request_id line = Inr a"
        using Cons.prems Received f Some by (auto split: sum.splits)
      show ?thesis
      proof (cases a)
        case None
        with Cons Received f Some a show ?thesis by simp
      next
        case v: (Some v)
        have "rc_request_id v = request_id"
          using a v by (auto simp: accept_line_def accept_row_def split: if_splits sum.splits pyval.splits option.splits)
        then show ?thesis
          using Cons Received f Some a v by (auto split: sum.splits option.splits)
      qed
    qed
  qed (use Cons in auto)
qed simp

lemma results_answer:
  "results loads request_id body p = (Inr x, p') \<Longrightarrow>
     p_sent p' = p_sent p \<and> (\<exists>v. body v = Inr (Some x) \<and> rc_request_id v = request_id)"
  by (auto simp: results_def dest: read_result_body split: prod.splits)

lemma status_body_answer: "status_body v = Inr (Some x) \<Longrightarrow> \<exists>uptime. expiry x = Inr (uptime + 10000) \<and> 0 \<le> uptime"
  by (auto simp: status_body_def expiry_def result_item_def py_getitem_def res_simps split: option.splits pyval.splits)

lemma status_answer: "status loads p = (Inr fresh, p') \<Longrightarrow> \<exists>uptime. expiry fresh = Inr (uptime + 10000) \<and> 0 \<le> uptime"
  by (auto simp: status_def res_simps dest!: results_answer status_body_answer)

text \<open>The one write command of an OTA start, and the conditions it is sent under.\<close>

definition ota_write :: "receipt \<Rightarrow> pystr \<Rightarrow> image_file \<Rightarrow> pystr \<Rightarrow> pystr \<Rightarrow> pyval \<Rightarrow> bool" where
  "ota_write current operation_id image_file image_url target q =
     (\<exists>request_id uptime scheme slot_size content.
        q = write_request request_id ''ota.start'' current (uptime + 10000) (ota_parameters operation_id image_url content target scheme) \<and>
        0 \<le> uptime \<and> valid_uuid_text operation_id \<and> take 8 image_url = str ''https://'' \<and>
        map_of OTA_TARGETS target = Some (scheme, slot_size) \<and> i_regular image_file \<and>
        content = concat (takeWhile (\<lambda>b. b \<noteq> []) (i_blocks image_file)) \<and> int (length content) = i_size image_file \<and>
        1 \<le> length content \<and> int (length content) \<le> slot_size)"

lemma ota_send_sends:
  assumes "\<And>request_id uptime. 0 \<le> uptime \<Longrightarrow>
    W (write_request request_id ''ota.start'' current (uptime + 10000) (ota_parameters operation_id image_url content target scheme))"
  shows "sends 1 W (ota_send loads current operation_id image_url target scheme content)"
  unfolding ota_send_def
proof (rule sends_then [OF status_sends], rule sends_require, rule sends_lift_then, rule sends_require,
    rule sends_then [OF sends_basic(4)], rule sends_lift_then, rule write_sends)
  fix fresh p p' request_id expires
  assume "status loads p = (Inr fresh, p')" "expiry fresh = Inr expires"
  then show "W (write_request request_id ''ota.start'' current expires (ota_parameters operation_id image_url content target scheme))"
    using status_answer [of loads p fresh p'] assms by auto
qed auto

lemma ota_start_sends:
  "sends 1 (ota_write current operation_id image_file image_url target) (ota_start loads current operation_id image_file image_url target)"
  unfolding ota_start_def
proof (rule sends_lift_then, rule sends_lift_then, rule sends_lift_then, rule ota_send_sends)
  fix x slot content request_id and uptime :: int
  assume "canonical_uuid operation_id = Inr x" "read_image image_file (snd slot) = Inr content" "0 \<le> uptime"
    and "of_option (Raise ValueError ''OTA target or URL'')
      (if take 8 image_url = str ''https://'' \<and> length image_url \<le> 512 then map_of OTA_TARGETS target else None) = Inr slot"
  then show "ota_write current operation_id image_file image_url target (write_request request_id ''ota.start'' current (uptime + 10000)
      (ota_parameters operation_id image_url content target (fst slot)))"
    unfolding ota_write_def
    by (intro exI [of _ request_id] exI [of _ uptime] exI [of _ "fst slot"] exI [of _ "snd slot"] exI [of _ content])
      (auto simp: read_image_def res_simps canonical_uuid_valid dest!: read_blocks_content split: if_splits)
qed

text \<open>A write command of this invocation: the command of the command line, for the device it names.\<close>

definition own_write :: "args \<Rightarrow> pyval \<Rightarrow> bool" where
  "own_write a q = (a_device_id a \<noteq> [] \<and> request_field ''command'' q = Some (PStr (str (a_command a))) \<and>
     request_field ''device_id'' q = Some (PStr (a_device_id a)))"

lemma restart_sends:
  assumes "\<And>request_id expires. W (write_request request_id ''restart'' current expires (PDict []))"
  shows "sends 1 W (restart loads current)"
  unfolding restart_def
proof (rule sends_then [OF sends_basic(4)], rule sends_lift_then, rule write_sends)
  show "sends 0 W (bindP (results loads x (restart_body current)) (\<lambda>_. bindP (status loads) (\<lambda>observed.
      requireP (rc_device_id observed = rc_device_id current \<and> rc_boot_id observed \<noteq> rc_boot_id current)
       (Raise ValueError ''no new boot observed'') (returnP (observed\<lparr>rc_request_id := x\<rparr>)))))" for x
    by (rule sends_then [OF sends_basic(5)], rule sends_then [OF status_sends]) auto
qed (simp_all add: assms)

lemma apply_configuration_sends:
  assumes "\<And>request_id expires revision. W (write_request request_id ''config.set'' current expires (config_parameters revision config))"
  shows "sends 1 W (apply_configuration loads float_is current config)"
  unfolding apply_configuration_def
  by (rule sends_lift_then, rule sends_lift_then, rule sends_then [OF sends_basic(4)], rule sends_lift_then, rule write_sends)
    (use assms in auto)

lemma business_action_sends:
  assumes "\<And>request_id expires. W (write_request request_id command current expires (PDict []))"
  shows "sends 1 W (business_action loads current command)"
  unfolding business_action_def
  by (rule sends_require, rule sends_then [OF status_sends], rule sends_require, rule sends_then [OF sends_basic(4)],
      rule sends_lift_then, rule write_sends) (use assms in auto)

lemma ota_result_sends: "sends n W (ota_result loads current operation_id h m)"
  unfolding ota_result_def by (rule sends_lift_then, rule sends_query) (simp add: write_commands_def)

lemma query_capability_sends: "sends n W (query_capability loads current command)"
  unfolding query_capability_def by (rule sends_require, rule sends_query) (auto simp: write_commands_def)

lemma dispatch_sends:
  assumes "a_command a \<in> write_commands \<Longrightarrow> a_device_id a = rc_device_id current \<and> a_device_id a \<noteq> []"
  shows "sends 1 (own_write a) (dispatch loads float_is a config current)"
proof -
  have own: "own_write a (write_request request_id (a_command a) current expires parameters)" if "a_command a \<in> write_commands"
    for request_id expires parameters
    using assms that by (auto simp: own_write_def)
  have ota: "sends 1 (own_write a) (ota_start loads current operation_id image_file image_url target)" if "a_command a = ''ota.start''"
    for operation_id image_file image_url target
    unfolding ota_start_def
    by (intro sends_lift_then ota_send_sends) (use own that in \<open>simp add: write_commands_def\<close>)
  show ?thesis
    unfolding dispatch_def using own
    by (auto simp: write_commands_def simp del: One_nat_def split: option.split intro!: restart_sends apply_configuration_sends business_action_sends
        ota ota_result_sends query_capability_sends)
qed

lemma check_arguments_device: "check_arguments a = Inr () \<Longrightarrow> a_command a \<in> write_commands \<Longrightarrow> a_device_id a \<noteq> []"
  by (auto simp: check_arguments_def res_simps)

text \<open>
  C32: a write command is sent at most once per invocation.  Whatever the device, the port and the
  clock do, a run of the client hands at most one command that changes the device to the port, it is
  the command of the command line, and it is addressed to the device the command line names.  A lost
  answer never causes a second transmission.
\<close>

theorem write_sent_at_most_once:
  assumes "device_main loads digit_of float_is a p = (r, p')"
  shows "\<exists>new. sent p' = sent p @ new \<and> length (filter is_write new) \<le> 1 \<and>
    (\<forall>q \<in> set new. is_write q \<longrightarrow> a_device_id a \<noteq> [] \<and>
       request_field ''command'' q = Some (PStr (str (a_command a))) \<and> request_field ''device_id'' q = Some (PStr (a_device_id a)))"
proof -
  have "sends 1 (own_write a) (device_main loads digit_of float_is a)"
    unfolding device_main_def
    by (intro sends_lift_then sends_then [OF sends_basic(6) _ refl] sends_then [OF status_sends _ refl] sends_require dispatch_sends)
      (auto dest: check_arguments_device)
  then have "\<exists>new. sent p' = sent p @ new \<and> length (filter is_write new) \<le> 1 \<and> (\<forall>q \<in> set new. is_write q \<longrightarrow> own_write a q)"
    using assms by (metis sends_def snd_conv)
  then show ?thesis
    unfolding own_write_def by blast
qed

text \<open>
  C33: an OTA start transmits exactly the checked image, and never claims success.  At most one
  write command goes out; it carries the SHA-256 and the size of the file that was read, which is a
  regular file that fits the slot of the target, and expires ten seconds after the uptime just
  reported.  An answer that is returned is a refusal, an expiry, \<open>running\<close> or \<open>unknown\<close>, for the
  same device and boot.
\<close>

theorem ota_start_sends_checked_image:
  assumes "ota_start loads current operation_id image_file image_url target p = (r, p')"
  shows "\<exists>new. sent p' = sent p @ new \<and> length (filter is_write new) \<le> 1 \<and>
    (\<forall>q \<in> set new. is_write q \<longrightarrow> ota_write current operation_id image_file image_url target q) \<and>
    (\<forall>value. r = Inr value \<longrightarrow> same_boot value current \<and> rc_result value = None \<and>
       rc_state value \<in> {str ''failed'', str ''expired'', str ''unknown'', str ''running''})"
proof -
  have body: "ota_start_body current v = Inr (Some x) \<Longrightarrow> same_boot x current \<and> rc_result x = None \<and>
      rc_state x \<in> {str ''failed'', str ''expired'', str ''unknown'', str ''running''}" for v x
    by (auto simp: ota_start_body_def res_simps split: if_splits)
  have timeout: "on_timeout (results loads request_id (ota_start_body current)) (unknown_receipt current request_id code) q = (Inr x, q')
      \<Longrightarrow> same_boot x current \<and> rc_result x = None \<and> rc_state x \<in> {str ''failed'', str ''expired'', str ''unknown'', str ''running''}"
    for request_id code q q' x
    using results_answer [of loads request_id "ota_start_body current" q x q'] body
    by (auto simp: on_timeout_def unknown_receipt_def same_boot_def split: prod.splits sum.splits if_splits)
  have "r = Inr v \<Longrightarrow> same_boot v current \<and> rc_result v = None \<and>
       rc_state v \<in> {str ''failed'', str ''expired'', str ''unknown'', str ''running''}" for v
    using assms by (auto simp: ota_start_def ota_send_def res_simps simp del: insert_iff dest!: timeout)
  then show ?thesis
    using ota_start_sends [of current operation_id image_file image_url target loads] assms
    unfolding sends_def by (metis snd_conv)
qed

text \<open>
  C34: a configuration is reported as applied only with evidence.  When \<^verbatim>\<open>apply_configuration\<close> returns, the
  configuration is valid, exactly one \<^verbatim>\<open>config.set\<close> with it and with the current revision went out in
  full, and the device answered this request in this boot with \<open>succeeded\<close> and the next revision.
\<close>

theorem apply_configuration_proved:
  assumes "apply_configuration loads float_is current config p = (Inr answer, p')"
  shows "validate_configuration config = Inr () \<and> rc_state answer = str ''succeeded'' \<and> same_boot answer current \<and>
    (\<exists>revision request_id expires request. current_revision current = Inr revision \<and> rc_request_id answer = request_id \<and>
       (\<exists>d. rc_result answer = Some d \<and> equals_int float_is (map_of d (str ''revision'')) (revision + 1)) \<and>
       request = write_request request_id ''config.set'' current expires (config_parameters revision config) \<and>
       p_sent p' = p_sent p @ [(request, request_payload request)])"
proof -
  have full: "send q s = (Inr u, s') \<Longrightarrow> p_sent s' = p_sent s @ [(q, request_payload q)]" for q s s' and u :: unit
    by (auto simp: send_def res_simps Let_def split: if_splits prod.splits dest!: write_loop_facts)
  have body: "apply_body float_is current revision v = Inr (Some x) \<Longrightarrow> x = v \<and> rc_state v = str ''succeeded'' \<and> same_boot v current \<and>
      (\<exists>d. rc_result v = Some d \<and> equals_int float_is (map_of d (str ''revision'')) (revision + 1))" for revision v x
    by (auto simp: apply_body_def res_simps split: if_splits option.splits)
  show ?thesis
    using assms by (auto simp: apply_configuration_def res_simps dest!: results_answer body full)
qed

subsection \<open>Concrete runs\<close>

text \<open>
  The lines of the sample device are three bytes long: a brace, the request identity and the kind of
  the answer; the decoder is a table.
\<close>

definition sample_status :: "(pystr \<times> pyval) list" where
  "sample_status = [(str ''uptime_ms'', PInt 5), (str ''revision'', PInt 7),
     (str ''capabilities'', PDict [(str ''ota'', PStr (str ''ready''))])]"

definition client_loads :: "bytes \<Rightarrow> pyval res" where
  "client_loads line = (case line of
      [_, i, k] \<Rightarrow>
        if k = 1 then Inr (answer_row [unat i] ''succeeded'' PNone (PDict sample_status))
        else if k = 2 then Inr (answer_row [unat i] ''running'' PNone PNone)
        else Inr (answer_row [unat i] ''succeeded'' PNone (PDict [(str ''revision'', PInt 8)]))
    | _ \<Rightarrow> Inl (Raise ValueError ''json''))"

definition answer_bytes :: "8 word \<Rightarrow> 8 word \<Rightarrow> rx list" where
  "answer_bytes i k = map Received [123, i, k, 10]"

definition sample_answer :: "pystr \<Rightarrow> string \<Rightarrow> (pystr \<times> pyval) list option \<Rightarrow> receipt" where
  "sample_answer request_id state result = \<lparr>rc_device_id = client_device, rc_boot_id = client_device, rc_request_id = request_id,
     rc_state = str state, rc_error_code = None, rc_result = result\<rparr>"

lemma accept_running_row:
  "accept_row request_id (answer_row request_id ''running'' PNone PNone) = Some (sample_answer request_id ''running'' None)"
  by (simp add: accept_row_def answer_row_def keys_are_def receipt_fields_def canonical_id_def client_device_canonical
      known_state_def failed_state_def accept_code_def accept_result_def sample_answer_def)

lemma client_reads:
  assumes "i \<notin> {0, 10}" and "k \<in> {1, 2, 3}"
  shows "read_result client_loads [unat i] body ([], False) (answer_bytes i k @ rs) =
    (case body (if k = 1 then sample_answer [unat i] ''succeeded'' (Some sample_status)
                else if k = 2 then sample_answer [unat i] ''running'' None
                else sample_answer [unat i] ''succeeded'' (Some [(str ''revision'', PInt 8)])) of
       Inl e \<Rightarrow> (Inl e, rs) | Inr None \<Rightarrow> read_result client_loads [unat i] body ([], False) rs | Inr (Some x) \<Rightarrow> (Inr x, rs))"
  using assms by (auto simp: answer_bytes_def frame_byte_def accept_line_def client_loads_def accept_answer_row accept_running_row
      sample_answer_def split: sum.split option.split)

definition client_port :: "rx list \<Rightarrow> pyval list \<Rightarrow> nat \<Rightarrow> (pyval \<times> bytes) list \<Rightarrow> port" where
  "client_port rs qs n done_requests = \<lparr>p_reads = rs, p_writes = map (\<lambda>q. Wrote (length (request_payload q))) qs, p_ids = (\<lambda>m. [65 + m]),
     p_next = n, p_sent = done_requests\<rparr>"

definition short_request :: "pyval \<Rightarrow> bool" where
  "short_request q = (length (json_dumps q) \<le> 9216)"

lemma client_send:
  "short_request q \<Longrightarrow> send q (client_port rs (q # qs) n s) = (Inr (), client_port rs qs n (s @ [(q, request_payload q)]))"
  by (simp add: send_whole [of _ _ "map (\<lambda>q. Wrote (length (request_payload q))) qs"] client_port_def short_request_def)

lemma client_fresh_id: "fresh_id (client_port rs qs n s) = (Inr [65 + n], client_port rs qs (Suc n) s)"
  by (simp add: fresh_id_def client_port_def)

lemma client_results:
  assumes "unat i = 65 + n" and "n < 100" and "k \<in> {1, 2, 3}"
  shows "results client_loads [65 + n] body (client_port (answer_bytes i k @ rs) qs m s) =
    (case body (if k = 1 then sample_answer [65 + n] ''succeeded'' (Some sample_status)
                else if k = 2 then sample_answer [65 + n] ''running'' None
                else sample_answer [65 + n] ''succeeded'' (Some [(str ''revision'', PInt 8)])) of
       Inl e \<Rightarrow> (Inl e, client_port rs qs m s)
     | Inr None \<Rightarrow> results client_loads [65 + n] body (client_port rs qs m s)
     | Inr (Some x) \<Rightarrow> (Inr x, client_port rs qs m s))"
proof -
  have "i \<notin> {0, 10}"
    using assms(1) by auto
  from client_reads [OF this assms(3), of body rs] assms(1) show ?thesis
    by (auto simp: results_def client_port_def split: sum.split option.split)
qed

lemma status_short: "n < 100 \<Longrightarrow> short_request (plain_request [65 + n] ''status'' [])"
  by (simp add: short_request_def plain_request_def json_str_def json_char_def hex4_def comma_join_def str_def decimal.simps)

lemma client_status:
  assumes "unat i = 65 + n" and "n < 100"
  shows "status client_loads (client_port (answer_bytes i 1 @ rs) (plain_request [65 + n] ''status'' [] # qs) n s) =
    (Inr (sample_answer [65 + n] ''succeeded'' (Some sample_status)),
     client_port rs qs (Suc n) (s @ [(plain_request [65 + n] ''status'' [], request_payload (plain_request [65 + n] ''status'' []))]))"
  by (simp add: status_def bindP_def client_fresh_id client_send status_short [OF assms(2)] client_results [OF assms(1,2)]
      status_body_def sample_answer_def sample_status_def)

definition sample_current :: receipt where
  "sample_current = sample_answer [65] ''succeeded'' (Some sample_status)"

lemma sample_current_facts:
  "same_boot (sample_answer request_id state result) sample_current" "expiry (sample_answer request_id state (Some sample_status)) = Inr 10005"
  "rc_device_id (sample_answer request_id state result) = client_device" "rc_result (sample_answer request_id state result) = result"
  "rc_state (sample_answer request_id state result) = str state" "expiry sample_current = Inr 10005"
  "ota_ready (sample_answer request_id state (Some sample_status)) = Inr True"
  by (simp_all add: same_boot_def sample_answer_def sample_current_def expiry_def result_item_def sample_status_def ota_ready_def py_getitem_def)

definition pause_args :: args where
  "pause_args = \<lparr>a_command = ''business.pause'', a_device_id = client_device, a_config_file = None, a_operation_id = [],
     a_image_file = None, a_image_url = None, a_ota_target = None\<rparr>"

definition pause_request :: pyval where
  "pause_request = write_request [67] ''business.pause'' sample_current 10005 (PDict [])"

definition pause_port :: port where
  "pause_port = client_port (map Received (ascii ''ESP_BASE_REPORTED '' @ ascii ready_text) @ Received 10 # answer_bytes 65 1 @ answer_bytes 66 1 @ answer_bytes 67 2 @ [])
     [plain_request [65] ''status'' [], plain_request [66] ''status'' [], pause_request] 0 []"

lemma json_str_client: "length (json_str client_device) = 38"
  by (simp add: json_str_def json_char_def client_device_def str_def)

lemma client_device_facts: "client_device \<noteq> []" "rc_device_id sample_current = client_device" "rc_boot_id sample_current = client_device"
  by (simp_all add: client_device_def str_def sample_current_def sample_answer_def)

lemma pause_short: "short_request pause_request"
  by (simp add: short_request_def pause_request_def write_request_def plain_request_def comma_join_def json_str_client client_device_facts)
    (simp add: json_str_def json_char_def hex4_def str_def decimal.simps)

lemma pause_ready:
  "wait_ready ascii_digit (client_port (map Received (ascii ''ESP_BASE_REPORTED '' @ ascii ready_text) @ Received 10 # rs) qs n s) = (Inr (), client_port rs qs n s)"
proof -
  have "10 \<notin> set (ascii ''ESP_BASE_REPORTED '' @ ascii ready_text)" "length (ascii ''ESP_BASE_REPORTED '' @ ascii ready_text) \<le> 8192"
    by (simp_all add: ascii_def ready_text_def)
  then show ?thesis
    using wait_ready_line [of "ascii ''ESP_BASE_REPORTED '' @ ascii ready_text" "[]" ascii_digit rs] ready_sample
    by (simp add: wait_ready_def client_port_def)
qed

lemma pause_run:
  "device_main client_loads ascii_digit (\<lambda>s n. False) pause_args pause_port =
     (Inr (sample_answer [67] ''running'' None),
      client_port [] [] (Suc (Suc (Suc 0))) (map (\<lambda>q. (q, request_payload q)) [plain_request [65] ''status'' [], plain_request [66] ''status'' [], pause_request]))"
proof -
  have s0: "status client_loads (client_port (answer_bytes 65 1 @ rs) (plain_request [65] ''status'' [] # qs) 0 s) =
      (Inr sample_current, client_port rs qs (Suc 0) (s @ [(plain_request [65] ''status'' [], request_payload (plain_request [65] ''status'' []))]))" for rs qs s
    using client_status [of 65 0 rs qs s] by (simp add: sample_current_def)
  have s1: "status client_loads (client_port (answer_bytes 66 1 @ rs) (plain_request [66] ''status'' [] # qs) (Suc 0) s) =
      (Inr (sample_answer [66] ''succeeded'' (Some sample_status)),
       client_port rs qs (Suc (Suc 0)) (s @ [(plain_request [66] ''status'' [], request_payload (plain_request [66] ''status'' []))]))" for rs qs s
    using client_status [of 66 1 rs qs s] by simp
  have r2: "results client_loads [67] (business_body sample_current) (client_port (answer_bytes 67 2 @ rs) qs m s) =
      (Inr (sample_answer [67] ''running'' None), client_port rs qs m s)" for rs qs m s
    using client_results [of 67 2 2 "business_body sample_current" rs qs m s] by (simp add: business_body_def sample_current_facts)
  let ?q0 = "plain_request [65] ''status'' []" and ?q1 = "plain_request [66] ''status'' []"
  have b: "business_action client_loads sample_current ''business.pause'' (client_port (answer_bytes 66 1 @ answer_bytes 67 2 @ []) [?q1, pause_request] (Suc 0) s) =
      (Inr (sample_answer [67] ''running'' None), client_port [] [] (Suc (Suc (Suc 0)))
        (s @ [(?q1, request_payload ?q1), (pause_request, request_payload pause_request)]))" for s
    unfolding business_action_def
    by (simp add: bindP_def liftP_def requireP_def on_timeout_def s1 client_fresh_id sample_current_facts
        pause_request_def [symmetric] client_send [OF pause_short])
      (simp only: r2 [of "[]", simplified], simp)
  have args: "a_command pause_args = ''business.pause''" "a_device_id pause_args = client_device" "a_config_file pause_args = None"
    by (simp_all add: pause_args_def)
  have "check_arguments pause_args = Inr ()"
    by (simp add: check_arguments_def pause_args_def write_commands_def client_device_facts)
  moreover have "dispatch client_loads (\<lambda>s n. False) pause_args config current = business_action client_loads current ''business.pause''" for config current
    by (simp add: dispatch_def args)
  ultimately show ?thesis
    by (simp add: device_main_def pause_port_def res_simps args pause_ready [unfolded map_append append_assoc] s0 b
        client_device_canonical client_device_facts del: append_Nil2)
qed

theorem write_sent_at_most_once_witness:
  "length (filter is_write (sent (snd (device_main client_loads ascii_digit (\<lambda>s n. False) pause_args pause_port)))) \<le> 1 \<and>
   is_write pause_request \<and> pause_request \<in> set (sent (snd (device_main client_loads ascii_digit (\<lambda>s n. False) pause_args pause_port)))"
  using write_sent_at_most_once [OF pause_run]
  by (auto simp: pause_run) (auto simp: pause_port_def client_port_def sent_def pause_request_def write_commands_def)

definition sample_image :: image_file where
  "sample_image = \<lparr>i_regular = True, i_size = 3, i_mtime = 1, i_blocks = [[1, 2], [3], []], i_after_size = 3, i_after_mtime = 1\<rparr>"

definition ota_request :: pyval where
  "ota_request = write_request [66] ''ota.start'' sample_current 10005
     (ota_parameters client_device (str ''https://h/f'') [1, 2, 3] (str ''esp32/esp_base'') ''esp_secure_boot_v1_ecdsa_p256'')"

lemma length_json_str: "length (json_str s) \<le> 2 + 12 * length s"
proof -
  have c: "length (json_char c) \<le> 12" for c
    by (simp add: json_char_def hex4_def)
  have "length (concat (map json_char s)) \<le> 12 * length s"
  proof (induction s)
    case (Cons a s)
    then show ?case
      using c [of a] by simp
  qed simp
  then show ?thesis
    by (simp add: json_str_def)
qed

lemma ota_short: "short_request ota_request"
proof -
  have "length (json_str (hex (sha256 [1, 2, 3]))) \<le> 2 + 12 * 64"
    using length_json_str [of "hex (sha256 [1, 2, 3])"] by simp
  then have "length (json_str (hex (sha256 [1, 2, 3]))) + 600 \<le> 9216"
    by simp
  then show ?thesis
    by (simp add: short_request_def ota_request_def write_request_def plain_request_def ota_parameters_def comma_join_def json_str_client
        client_device_facts)
      (simp add: json_str_def json_char_def hex4_def str_def decimal.simps)
qed

lemma ota_run:
  "ota_start client_loads sample_current client_device sample_image (str ''https://h/f'') (str ''esp32/esp_base'')
      (client_port (answer_bytes 65 1 @ answer_bytes 66 2 @ []) [plain_request [65] ''status'' [], ota_request] 0 []) =
     (Inr (sample_answer [66] ''running'' None),
      client_port [] [] (Suc (Suc 0)) (map (\<lambda>q. (q, request_payload q)) [plain_request [65] ''status'' [], ota_request]))"
proof -
  have s0: "status client_loads (client_port (answer_bytes 65 1 @ rs) (plain_request [65] ''status'' [] # qs) 0 s) =
      (Inr (sample_answer [65] ''succeeded'' (Some sample_status)),
       client_port rs qs (Suc 0) (s @ [(plain_request [65] ''status'' [], request_payload (plain_request [65] ''status'' []))]))" for rs qs s
    using client_status [of 65 0 rs qs s] by simp
  have r2: "results client_loads [66] (ota_start_body sample_current) (client_port (answer_bytes 66 2 @ []) qs m s) =
      (Inr (sample_answer [66] ''running'' None), client_port [] qs m s)" for qs m s
    using client_results [of 66 1 2 "ota_start_body sample_current" "[]" qs m s]
    by (simp add: ota_start_body_def sample_current_facts)
  have content: "read_image sample_image 0x1e0000 = Inr [1, 2, 3]"
    by (simp add: read_image_def sample_image_def)
  have target: "take 8 (str ''https://h/f'') = str ''https://''" "length (str ''https://h/f'') \<le> 512"
    "map_of OTA_TARGETS (str ''esp32/esp_base'') = Some (''esp_secure_boot_v1_ecdsa_p256'', 0x1e0000)"
    by (simp_all add: OTA_TARGETS_def) (simp add: str_def)
  have "ota_send client_loads sample_current client_device (str ''https://h/f'') (str ''esp32/esp_base'') ''esp_secure_boot_v1_ecdsa_p256'' [1, 2, 3]
      (client_port (answer_bytes 65 1 @ answer_bytes 66 2 @ []) [plain_request [65] ''status'' [], ota_request] 0 []) =
     (Inr (sample_answer [66] ''running'' None),
      client_port [] [] (Suc (Suc 0)) (map (\<lambda>q. (q, request_payload q)) [plain_request [65] ''status'' [], ota_request]))"
    unfolding ota_send_def
    by (simp add: bindP_def liftP_def requireP_def on_timeout_def s0 client_fresh_id sample_current_facts
        ota_request_def [symmetric] client_send [OF ota_short])
      (simp only: r2 [simplified], simp)
  then show ?thesis
    by (simp add: ota_start_def res_simps client_device_canonical target content)
qed

theorem ota_start_sends_checked_image_witness:
  "ota_write sample_current client_device sample_image (str ''https://h/f'') (str ''esp32/esp_base'') ota_request"
proof -
  have "sent (client_port [] [] (Suc (Suc 0)) (map (\<lambda>q. (q, request_payload q)) [plain_request [65] ''status'' [], ota_request]))
      = [plain_request [65] ''status'' [], ota_request]"
    by (simp add: sent_def client_port_def)
  moreover have "is_write ota_request"
    by (simp add: ota_request_def write_commands_def)
  ultimately show ?thesis
    using ota_start_sends_checked_image [OF ota_run] by (auto simp: sent_def client_port_def)
qed

definition empty_config :: pyval where
  "empty_config = PDict [(str ''schema_version'', PInt 4), (str ''wifi'', PNone), (str ''mqtt'', PNone), (str ''business'', PNone)]"

definition config_request :: pyval where
  "config_request = write_request [65] ''config.set'' sample_current 10005 (config_parameters 7 empty_config)"

lemma config_run:
  "apply_configuration client_loads (\<lambda>s n. False) sample_current empty_config (client_port (answer_bytes 65 3 @ []) [config_request] 0 []) =
     (Inr (sample_answer [65] ''succeeded'' (Some [(str ''revision'', PInt 8)])),
      client_port [] [] (Suc 0) [(config_request, request_payload config_request)])"
proof -
  have short: "short_request config_request"
    by (simp add: short_request_def config_request_def write_request_def plain_request_def config_parameters_def empty_config_def
        comma_join_def json_str_client client_device_facts)
      (simp add: json_str_def json_char_def hex4_def str_def decimal.simps)
  have valid: "validate_configuration empty_config = Inr ()"
    by (simp add: validate_configuration_def empty_config_def keys_are_def py_getitem_def validate_wifi_def validate_mqtt_def)
  have rev: "current_revision sample_current = Inr 7"
    by (simp add: current_revision_def result_item_def sample_current_def sample_answer_def sample_status_def py_getitem_def)
  have r: "results client_loads [65] (apply_body (\<lambda>s n. False) sample_current 7) (client_port (answer_bytes 65 3 @ []) qs m s) =
      (Inr (sample_answer [65] ''succeeded'' (Some [(str ''revision'', PInt 8)])), client_port [] qs m s)" for qs m s
    using client_results [of 65 0 3 "apply_body (\<lambda>s n. False) sample_current 7" "[]" qs m s]
    by (simp add: apply_body_def sample_current_facts failed_state_def equals_int_def)
  show ?thesis
    unfolding apply_configuration_def
    by (simp add: bindP_def liftP_def valid rev client_fresh_id sample_current_facts config_request_def [symmetric] client_send [OF short])
      (simp only: r [simplified])
qed

theorem apply_configuration_proved_witness:
  "validate_configuration empty_config = Inr () \<and> same_boot (sample_answer [65] ''succeeded'' (Some [(str ''revision'', PInt 8)])) sample_current"
  using apply_configuration_proved [OF config_run] by blast

end
