(* ===== verification/Preflight.thy ===== *)
theory Preflight
  imports Ebcf_Config Otadata Nvs Receipts
begin

text \<open>
  The read-only preflight of the version 3 migration (\<^verbatim>\<open>preflight_v3_migration.py\<close>): the comparison of
  the two flash backups, the partition table check, the audit of identity, configuration and operation
  record, and the construction of the \<^verbatim>\<open>base_store\<close> candidate with its readback.

  The pinned SDK is a parameter: its partition table generator, its NVS parser and its NVS
  partition generator, which receives the rows of the CSV file the tool writes.  A backup is what the tool
  observes of the file: the facts of \<^verbatim>\<open>fstat\<close> before and after, and its bytes.

  Lemmas: the loop over the two backups ends and returns their common content, and an accepted audit has
  exactly the records it reports.
\<close>

unbundle bit_operations_syntax

record sdk =
  sdk_parse :: "bytes \<Rightarrow> partition list option"
  sdk_generate :: "string \<Rightarrow> bool \<Rightarrow> bytes option"
  sdk_nvs :: "bytes \<Rightarrow> nvs_page list"
  sdk_nvs_generate :: "(pystr \<times> pystr \<times> pystr \<times> pystr) list \<Rightarrow> nat \<Rightarrow> bytes option"
  sdk_verify :: "bytes \<Rightarrow> target \<Rightarrow> bytes \<Rightarrow> bool"

subsection \<open>The two backups\<close>

record backup =
  bk_regular :: bool
  bk_own :: bool
  bk_mode :: nat
  bk_size :: nat
  bk_mtime :: int
  bk_identity :: "int \<times> int"
  bk_content :: bytes
  bk_after :: "nat \<times> int"

text \<open>\<^verbatim>\<open>0o177\<close> is 127.\<close>

definition private_regular_file :: "backup \<Rightarrow> unit res" where
  "private_regular_file b =
     require (bk_regular b) (preflight ''backup is not a regular file'')
     (require (bk_own b) (preflight ''backup of another user'')
     (require (bk_mode b AND 127 = 0) (preflight ''backup permissions'')
     (require (bk_size b = FLASH_SIZE) (preflight ''backup size'') (Inr ()))))"

text \<open>The loop over blocks of 64 KiB: what it has read, and the unread rests.\<close>

function compare_loop :: "nat \<Rightarrow> bytes \<Rightarrow> bytes \<Rightarrow> bytes \<Rightarrow> (bytes \<times> bytes \<times> bytes) res" where
  "compare_loop offset contents a b =
     (if FLASH_SIZE \<le> offset then Inr (contents, a, b)
      else (let left = take 65536 a; right = take 65536 b in
        if left \<noteq> right then Inl (preflight ''backups differ'')
        else if left = [] then Inl (preflight ''backup ends early'')
        else compare_loop (offset + length left) (contents @ left) (drop 65536 a) (drop 65536 b)))"
  by pat_completeness auto
termination
  by (relation "measure (\<lambda>(offset, contents, a, b). FLASH_SIZE - offset)") (auto simp: diff_less_mono2)

declare compare_loop.simps [simp del]

definition compare_backups :: "backup \<Rightarrow> backup \<Rightarrow> bytes res" where
  "compare_backups first second =
     bindE (private_regular_file first) (\<lambda>_.
     bindE (private_regular_file second) (\<lambda>_.
     require (bk_identity first \<noteq> bk_identity second) (preflight ''backups are one file'')
     (bindE (compare_loop 0 [] (bk_content first) (bk_content second)) (\<lambda>(contents, rest_a, rest_b).
      require (rest_a = [] \<and> rest_b = []) (preflight ''backup has extra bytes'')
      (require (bk_after first = (bk_size first, bk_mtime first) \<and> bk_after second = (bk_size second, bk_mtime second))
        (preflight ''backup changed'')
      (Inr contents))))))"

lemma compare_loop_common:
  assumes "compare_loop offset contents a b = Inr (c, ra, rb)"
  shows "\<exists>common. c = contents @ common \<and> a = common @ ra \<and> b = common @ rb"
  using assms
proof (induction offset contents a b rule: compare_loop.induct)
  case (1 offset contents a b)
  note step = "1.prems" [unfolded compare_loop.simps [of offset contents a b] Let_def]
  show ?case
  proof (cases "FLASH_SIZE \<le> offset")
    case True
    with step show ?thesis by simp
  next
    case False
    then have eq: "take 65536 a = take 65536 b" "take 65536 a \<noteq> []"
      using step by (auto split: if_splits)
    then have "compare_loop (offset + length (take 65536 a)) (contents @ take 65536 a) (drop 65536 a) (drop 65536 b) = Inr (c, ra, rb)"
      using step False by simp
    then obtain common where common: "c = (contents @ take 65536 a) @ common" "drop 65536 a = common @ ra" "drop 65536 b = common @ rb"
      using "1.IH" [OF False refl refl] eq by blast
    have "a = (take 65536 a @ common) @ ra"
      using common(2) by (metis append.assoc append_take_drop_id)
    moreover have "b = (take 65536 a @ common) @ rb"
      using common(3) eq(1) by (metis append.assoc append_take_drop_id)
    ultimately show ?thesis
      using common(1) by (intro exI [of _ "take 65536 a @ common"]) simp
  qed
qed

lemma compare_loop_length:
  assumes "compare_loop offset contents a b = Inr (c, ra, rb)" and "length contents = offset"
    and "offset \<le> FLASH_SIZE" and "65536 dvd FLASH_SIZE - offset"
  shows "length c = FLASH_SIZE"
  using assms
proof (induction offset contents a b rule: compare_loop.induct)
  case (1 offset contents a b)
  note step = "1.prems"(1) [unfolded compare_loop.simps [of offset contents a b] Let_def]
  show ?case
  proof (cases "FLASH_SIZE \<le> offset")
    case True
    with step "1.prems" show ?thesis by simp
  next
    case False
    let ?L = "length (take 65536 a)"
    have eq: "take 65536 a = take 65536 b" "take 65536 a \<noteq> []"
      using step False by (auto split: if_splits)
    then have next_loop: "compare_loop (offset + ?L) (contents @ take 65536 a) (drop 65536 a) (drop 65536 b) = Inr (c, ra, rb)"
      using step False by simp
    obtain k where k: "FLASH_SIZE - offset = 65536 * k"
      using "1.prems"(4) by (auto elim: dvdE)
    with False have "1 \<le> k" by (cases k) auto
    then have room: "offset + 65536 \<le> FLASH_SIZE"
      using k False by linarith
    have full: "65536 \<le> length a"
    proof (rule ccontr)
      assume "\<not> 65536 \<le> length a"
      then have "offset + ?L < FLASH_SIZE" "drop 65536 a = []"
        using room by auto
      with next_loop [unfolded compare_loop.simps [of "offset + ?L"] Let_def] show False
        by (auto split: if_splits)
    qed
    have "FLASH_SIZE - (offset + ?L) = 65536 * (k - 1)"
      using k full \<open>1 \<le> k\<close> by (simp add: diff_mult_distrib2)
    then have "65536 dvd FLASH_SIZE - (offset + ?L)" by simp
    then show ?thesis
      using "1.IH" [OF False refl refl _ eq(2) next_loop] eq(1) "1.prems"(2) room full by simp
  qed
qed

lemma compare_backups_common:
  assumes "compare_backups first second = Inr flash"
  shows "bk_content first = flash" and "bk_content second = flash" and "bk_identity first \<noteq> bk_identity second"
    and "length flash = FLASH_SIZE"
proof -
  obtain ra rb where r: "compare_loop 0 [] (bk_content first) (bk_content second) = Inr (flash, ra, rb)" "ra = []" "rb = []"
    using assms by (auto simp: compare_backups_def res_simps)
  show "bk_content first = flash" "bk_content second = flash"
    using compare_loop_common [OF r(1)] r(2,3) by auto
  show "bk_identity first \<noteq> bk_identity second"
    using assms by (auto simp: compare_backups_def res_simps)
  show "length flash = FLASH_SIZE"
    by (rule compare_loop_length [OF r(1)]) (simp_all add: FLASH_SIZE_def)
qed

subsection \<open>The audit\<close>

definition OLD_C3_CSV :: string where
  "OLD_C3_CSV = ''firmware/partitions/partition_table.csv''"

definition check_partition_table :: "sdk \<Rightarrow> bytes \<Rightarrow> unit res" where
  "check_partition_table sdk flash =
     bindE (of_option (preflight ''SDK cannot generate the partition table'') (sdk_generate sdk OLD_C3_CSV False)) (\<lambda>table.
     let actual = pslice flash TABLE_OFFSET (TABLE_OFFSET + TABLE_SIZE) in
     require (length table \<le> TABLE_SIZE \<and> take (length table) actual = table \<and>
              drop (length table) actual = erased (TABLE_SIZE - length table))
       (preflight ''not the exact old C3 layout'') (Inr ()))"

definition DEVICE_KEY :: nvs_key where
  "DEVICE_KEY = (''base_identity'', ''device_uuid'')"

definition CONFIG_KEY :: nvs_key where
  "CONFIG_KEY = (''base_config'', ''committed'')"

definition NATIVE_OPERATION_KEY :: nvs_key where
  "NATIVE_OPERATION_KEY = (''base_ota'', ''operation'')"

definition SDK_NVS_TYPES :: "(nvs_key \<times> string) list" where
  "SDK_NVS_TYPES = [((''nvs.net80211'', ''ap.sndchan''), ''uint8_t''), ((''phy'', ''cal_mac''), ''blob''),
     ((''phy'', ''cal_data''), ''blob''), ((''phy'', ''cal_version''), ''uint32_t'')]"

definition identity_records :: "sdk \<Rightarrow> bytes \<Rightarrow> records res" where
  "identity_records sdk flash = nvs_records (sdk_nvs sdk) flash 0x9000 0x6000 (DEVICE_KEY # map fst SDK_NVS_TYPES) [''misc'']"

definition sdk_types_ok :: "records \<Rightarrow> bool" where
  "sdk_types_ok identity = list_all (\<lambda>(key, kind). case map_of identity key of None \<Rightarrow> True | Some (k, _) \<Rightarrow> k = kind) SDK_NVS_TYPES"

definition phy_keys :: "nvs_key list \<Rightarrow> nvs_key set" where
  "phy_keys ks = set (filter (\<lambda>key. fst key = ''phy'') ks)"

definition phy_ok :: "(string \<Rightarrow> exn) \<Rightarrow> records \<Rightarrow> unit res" where
  "phy_ok raised identity =
     (let present = phy_keys (map fst identity) in
      require (present = {} \<or> present = phy_keys (map fst SDK_NVS_TYPES)) (raised ''PHY records incomplete'')
      (if present = {} then Inr ()
       else require ((case map_of identity (''phy'', ''cal_mac'') of Some (_, v) \<Rightarrow> length v = 6 | None \<Rightarrow> False) \<and>
                     (case map_of identity (''phy'', ''cal_data'') of Some (_, v) \<Rightarrow> v \<noteq> [] | None \<Rightarrow> False))
              (raised ''PHY record lengths'') (Inr ())))"

datatype audit_line =
    Flash_line report_line
  | Identity_line
  | Sdk_records_line
  | Config_line nat nat nat
  | Config_absent
  | Receipt_line string
  | Receipt_absent

definition audit_identity :: "records \<Rightarrow> pystr \<Rightarrow> audit_line list res" where
  "audit_identity identity device_id = (case map_of identity DEVICE_KEY of
      None \<Rightarrow> Inl (preflight ''identity or SDK record types'')
    | Some (kind, raw_id) \<Rightarrow>
        require (sdk_types_ok identity) (preflight ''identity or SDK record types'')
        (bindE (phy_ok preflight identity) (\<lambda>_.
         require (kind = ''string'' \<and> length raw_id = 37 \<and> last raw_id = 0 \<and> ascii_replace (butlast raw_id) = device_id \<and>
                  valid_uuid_text device_id) (preflight ''device UUID does not match'')
         (Inr (Identity_line # (if 1 < length identity then [Sdk_records_line] else []))))))"

definition audit_config :: "records \<Rightarrow> audit_line res" where
  "audit_config store = (case map_of store CONFIG_KEY of
      None \<Rightarrow> Inr Config_absent
    | Some (kind, blob) \<Rightarrow>
        require (kind = ''blob'') (preflight ''configuration is not a blob'')
        (if 5 \<le> length blob \<and> blob ! 4 = 1 then bindE (validate_v1_config blob) (\<lambda>revision. Inr (Config_line 1 112 revision))
         else bindE (validate_v2_config blob) (\<lambda>revision. Inr (Config_line 2 (length blob) revision))))"

definition audit_receipt :: "records \<Rightarrow> pystr \<Rightarrow> audit_line res" where
  "audit_receipt store device_id = (case map_of store NATIVE_OPERATION_KEY of
      None \<Rightarrow> Inr Receipt_absent
    | Some (kind, blob) \<Rightarrow>
        require (kind = ''blob'') (preflight ''operation record is not a blob'')
        (bindE (validate_ota_receipt blob device_id) (\<lambda>state. Inr (Receipt_line state))))"

definition STORE_OFFSET :: nat where "STORE_OFFSET = 0x3E0000"
definition STORE_SIZE :: nat where "STORE_SIZE = 0x20000"

definition audit :: "sdk \<Rightarrow> bytes \<Rightarrow> pystr \<Rightarrow> (audit_line list \<times> records) res" where
  "audit sdk flash device_id =
     bindE (check_partition_table sdk flash) (\<lambda>_.
     bindE (audit_otadata_and_slots flash) (\<lambda>ota_lines.
     bindE (identity_records sdk flash) (\<lambda>identity.
     bindE (nvs_records (sdk_nvs sdk) flash STORE_OFFSET STORE_SIZE [CONFIG_KEY, NATIVE_OPERATION_KEY] []) (\<lambda>store.
     bindE (audit_identity identity device_id) (\<lambda>identity_lines.
     require (list_all (\<lambda>key. key \<in> {CONFIG_KEY, NATIVE_OPERATION_KEY}) (map fst store)) (preflight ''unexpected record in base_store'')
     (bindE (audit_config store) (\<lambda>config_line.
      bindE (audit_receipt store device_id) (\<lambda>receipt_line.
      Inr (map Flash_line ota_lines @ identity_lines @ [config_line, receipt_line], store)))))))))"

subsection \<open>The store candidate\<close>

definition b64_char :: "nat \<Rightarrow> nat" where
  "b64_char n = (if n < 26 then 65 + n else if n < 52 then 71 + n else if n < 62 then n - 4 else if n = 62 then 43 else 47)"

fun b64encode :: "bytes \<Rightarrow> pystr" where
  "b64encode [] = []"
| "b64encode [a] = [b64_char (unat a div 4), b64_char (unat a mod 4 * 16), 61, 61]"
| "b64encode [a, b] = [b64_char (unat a div 4), b64_char (unat a mod 4 * 16 + unat b div 16), b64_char (unat b mod 16 * 4), 61]"
| "b64encode (a # b # c # r) =
     [b64_char (unat a div 4), b64_char (unat a mod 4 * 16 + unat b div 16), b64_char (unat b mod 16 * 4 + unat c div 64),
      b64_char (unat c mod 64)] @ b64encode r"

definition CANDIDATE_STORE_SIZE :: nat where "CANDIDATE_STORE_SIZE = 0xB000"

definition candidate_config :: "records \<Rightarrow> bytes res" where
  "candidate_config store = (case map_of store CONFIG_KEY of
      Some (_, old) \<Rightarrow>
        if length old \<le> 4 then Inl (Raise IndexError ''old[1][4]'')
        else if old ! 4 = 1 then convert_v1_wifi_only old else convert_v2_preserving_mqtt old
    | None \<Rightarrow> convert_v1_wifi_only (ascii ''EBCF'' @ [1] @ zeros 107))"

definition data_row :: "string \<Rightarrow> bytes \<Rightarrow> pystr \<times> pystr \<times> pystr \<times> pystr" where
  "data_row key raw = (str key, str ''data'', str ''base64'', b64encode raw)"

definition namespace_row :: "string \<Rightarrow> pystr \<times> pystr \<times> pystr \<times> pystr" where
  "namespace_row namespace = (str namespace, str ''namespace'', [], [])"

definition CSV_HEADER :: "pystr \<times> pystr \<times> pystr \<times> pystr" where
  "CSV_HEADER = (str ''key'', str ''type'', str ''encoding'', str ''value'')"

definition write_candidate :: "sdk \<Rightarrow> records \<Rightarrow> bytes res" where
  "write_candidate sdk store =
     bindE (candidate_config store) (\<lambda>new_config.
     let receipt = map_of store NATIVE_OPERATION_KEY;
         rows = [CSV_HEADER, namespace_row ''base_config'', data_row ''committed'' new_config] @
           (case receipt of None \<Rightarrow> [] | Some (_, raw) \<Rightarrow> [namespace_row ''base_ota'', data_row ''operation'' raw]);
         expected = (CONFIG_KEY, (''blob'', new_config)) # (case receipt of None \<Rightarrow> [] | Some r \<Rightarrow> [(NATIVE_OPERATION_KEY, r)])
     in bindE (of_option (preflight ''NVS generator'') (sdk_nvs_generate sdk rows CANDIDATE_STORE_SIZE)) (\<lambda>candidate.
        require (length candidate = CANDIDATE_STORE_SIZE) (preflight ''candidate size'')
        (bindE (nvs_records (sdk_nvs sdk) candidate 0 CANDIDATE_STORE_SIZE [CONFIG_KEY, NATIVE_OPERATION_KEY] []) (\<lambda>reread.
         require (dict_eq reread expected) (preflight ''candidate readback'') (Inr candidate)))))"

end
