(* ===== verification/Migration.thy ===== *)
theory Migration
  imports Preflight Candidate "HOL-Library.Char_ord" "HOL-Library.List_Lexorder" "HOL-Library.Product_Lexorder"
begin

text \<open>
  The migration to the native layout as a whole (\<^verbatim>\<open>prepare_native_layout.py\<close>): the inspection of a
  source flash of each supported layout, the generation of the new store with its readback, and
  \<^verbatim>\<open>prepare\<close>, which composes the backups, the inspection, the checks of the new firmware and the
  candidate and lists the files it writes, in order.

  The SDK and \<^verbatim>\<open>espsecure\<close> are the record \<open>sdk\<close> of \<open>Preflight\<close>; an input file is what \<^verbatim>\<open>read_file\<close>
  observes of it.  The output directory, the write and readback of each file and the scratch copies of
  the keys are file-system operations; the outputs are a list of contents.
\<close>

subsection \<open>Input files\<close>

record in_file =
  if_regular :: bool
  if_own :: bool
  if_mode :: nat
  if_size :: nat
  if_content :: bytes
  if_unchanged :: bool

definition read_file :: "in_file \<Rightarrow> bool \<Rightarrow> nat \<Rightarrow> bytes res" where
  "read_file f is_private maximum =
     require (if_regular f \<and> if_size f \<le> maximum) (migration ''not a regular file of limited size'')
     (require (is_private \<longrightarrow> if_own f \<and> if_mode f AND 127 = 0) (migration ''sensitive input permissions'')
     (let raw = take (maximum + 1) (if_content f) in
      require (if_unchanged f \<and> length raw = if_size f) (migration ''input changed while reading'') (Inr raw)))"

subsection \<open>Reports\<close>

record source_report =
  sr_source_layout :: string
  sr_flash_sha256 :: pystr
  sr_device_id :: "pystr option"
  sr_efuse_mac :: "pystr option"
  sr_revision :: "nat option"
  sr_selected :: "nat option"
  sr_operation :: "terminal option"
  sr_slots :: "(nat \<times> nat \<times> pystr) list"
  sr_retired :: records
  sr_key_sha256 :: "pystr option"
  sr_old_at_sha256 :: "pystr option"
  sr_source_app :: "(nat \<times> pystr) option"

definition bare_report :: "string \<Rightarrow> bytes \<Rightarrow> source_report" where
  "bare_report name flash = \<lparr>sr_source_layout = name, sr_flash_sha256 = digest flash, sr_device_id = None, sr_efuse_mac = None,
     sr_revision = None, sr_selected = None, sr_operation = None, sr_slots = [], sr_retired = [], sr_key_sha256 = None,
     sr_old_at_sha256 = None, sr_source_app = None\<rparr>"

type_synonym inspection = "records \<times> source_report \<times> bytes option"

definition RETIRED_KEYS :: "nvs_key list" where
  "RETIRED_KEYS = [(''base_ota'', ''operation''), (''base_pkg'', ''slots''), (''base_product'', ''operations'')]"

definition slot_digests :: "images \<Rightarrow> (nat \<times> nat \<times> pystr) list" where
  "slot_digests images = map (\<lambda>(slot, image). (slot, length image, digest image)) images"

subsection \<open>A native source\<close>

definition native_slot :: "sdk \<Rightarrow> bytes option \<Rightarrow> bytes \<Rightarrow> target \<Rightarrow> (nat \<times> nat) list \<Rightarrow> images \<Rightarrow> nat \<times> nat \<Rightarrow> images res" where
  "native_slot sdk source_key flash t states images = (\<lambda>(slot, offset).
     if map_of states slot = Some 2
     then bindE (signed_image (pslice flash offset (offset + APP_SIZE)) t True True) (\<lambda>image.
          bindE (verify_signature (sdk_verify sdk) image source_key t) (\<lambda>_. Inr (images @ [(slot, image)])))
     else require (pslice flash offset (offset + 0x1000) = erased 0x1000) (migration ''native slot may still boot'') (Inr images))"

definition operation_terminal :: "records \<Rightarrow> (bytes \<Rightarrow> terminal res) \<Rightarrow> terminal option res" where
  "operation_terminal records validate = (case map_of records NATIVE_OPERATION_KEY of
      None \<Rightarrow> Inr None
    | Some (_, blob) \<Rightarrow> bindE (validate blob) (\<lambda>t. Inr (Some t)))"

definition config_revision :: "records \<Rightarrow> nat option res" where
  "config_revision records = (case map_of records CONFIG_KEY of
      None \<Rightarrow> Inr None
    | Some (_, blob) \<Rightarrow> bindE (validate_v3_config blob) (\<lambda>r. Inr (Some r)))"

definition inspect_native_store :: "sdk \<Rightarrow> bytes \<Rightarrow> layout \<Rightarrow> pystr \<Rightarrow> bytes option \<Rightarrow> (records \<times> source_report \<times> bytes) res" where
  "inspect_native_store sdk flash layout device_id source_key =
     bindE (key_of ''store'' (l_store layout)) (\<lambda>(store_offset, store_size).
     bindE (nvs_records (sdk_nvs sdk) flash store_offset store_size [CONFIG_KEY, NATIVE_OPERATION_KEY] []) (\<lambda>records.
     require (list_all (\<lambda>(_, kind, _). kind = ''blob'') records) (migration ''native records must be blobs'')
     (bindE (config_revision records) (\<lambda>revision.
      bindE (ota_selection flash layout) (\<lambda>(selected, states).
      bindE (key_of ''apps'' (l_apps layout)) (\<lambda>apps.
      bindE (for_each (native_slot sdk source_key flash (l_target layout) states) [] [(0, fst apps), (1, snd apps)]) (\<lambda>images.
      bindE (of_option (migration ''selected native slot has no trusted image'') (map_of images selected)) (\<lambda>image.
      bindE (operation_terminal records (\<lambda>blob. validate_v4_receipt blob device_id selected states images)) (\<lambda>terminal.
      Inr (records, (bare_report [] flash)\<lparr>sr_revision := revision, sr_selected := Some selected, sr_operation := terminal,
             sr_slots := slot_digests images\<rparr>, image))))))))))"

subsection \<open>The C3 factory source\<close>

definition mac_classes :: "(nat \<Rightarrow> bool) list" where
  "mac_classes = concat (replicate 5 [is_lower_hex, is_lower_hex, \<lambda>c. c = 58]) @ [is_lower_hex, is_lower_hex]"

definition mac_text_ok :: "pystr \<Rightarrow> bool" where
  "mac_text_ok mac = (list_all2 (\<lambda>p c. p c) mac_classes mac \<and>
     mac \<notin> {str ''00:00:00:00:00:00'', str ''ff:ff:ff:ff:ff:ff''})"

definition no_colons :: "pystr \<Rightarrow> pystr" where
  "no_colons mac = filter (\<lambda>c. c \<noteq> 58) mac"

definition inspect_factory :: "bytes \<Rightarrow> pystr option \<Rightarrow> bytes option \<Rightarrow> pystr option \<Rightarrow> inspection res" where
  "inspect_factory flash device_id source_key efuse_mac = (case efuse_mac of
      None \<Rightarrow> Inl (migration ''factory source needs the eFuse MAC'')
    | Some mac \<Rightarrow>
        require (device_id = None \<and> mac_text_ok mac) (migration ''factory source needs the eFuse MAC'')
        (require (source_key = None) (migration ''factory source is not a signed base'')
        (require (pslice flash 0x9000 0xf000 = erased 0x6000 \<and> drop 0x3e0000 flash = erased 0x20000)
          (migration ''factory source holds data'')
        (let slot_bytes = pslice flash 0x10000 0x110000 in
         bindE (signed_image slot_bytes Esp32c3 False False) (\<lambda>image.
         require (288 \<le> length image \<and> u32 image 32 = 0xabcd5432 \<and>
                  takeWhile (\<lambda>b. b \<noteq> 0) (pslice image 80 112) = ascii ''esp_mqtt_broker_client'' \<and>
                  drop (length image) slot_bytes = erased (length slot_bytes - length image))
           (migration ''not the complete factory image'')
         (Inr ([], (bare_report ''c3_mqtt_factory'' flash)\<lparr>sr_efuse_mac := Some (no_colons mac),
                     sr_source_app := Some (length image, digest image)\<rparr>, None)))))))"

subsection \<open>The AT source\<close>

text \<open>
  \<^verbatim>\<open>lower()\<close> matters in a comparison with lower-case hex digits only, and no character outside ASCII
  has one of them as its lower case.
\<close>

definition lower_ascii :: "pystr \<Rightarrow> pystr" where
  "lower_ascii s = map (\<lambda>c. if 65 \<le> c \<and> c \<le> 90 then c + 32 else c) s"

definition entry_namespace :: "nvs_entry list \<Rightarrow> nvs_entry \<Rightarrow> string option" where
  "entry_namespace entries entry =
     map_of (rev (map (\<lambda>e. (e_value e, e_key e)) (filter (\<lambda>e. e_namespace e = 0) entries))) (Some (int (e_namespace entry)))"

definition WIFI_SIZES :: "(string \<times> nat) list" where
  "WIFI_SIZES = [(''sta.ssid'', 36), (''sta.pswd'', 65), (''ap.ssid'', 36), (''ap.passwd'', 65)]"

definition wifi_entry_empty :: "nvs_entry list \<Rightarrow> nvs_entry \<Rightarrow> unit res" where
  "wifi_entry_empty entries entry = (case map_of WIFI_SIZES (e_key entry) of
      None \<Rightarrow> Inr ()
    | Some field_size \<Rightarrow>
        if entry_namespace entries entry \<noteq> Some ''nvs.net80211'' then Inr ()
        else require (e_type entry = ''blob'' \<and> e_size entry = field_size) (migration ''AT Wi-Fi field type or length'')
          (let payload = children_bytes entry in
           require (length payload = e_size entry \<and> payload = erased (length payload)) (migration ''AT Wi-Fi field not empty'') (Inr ())))"

definition inspect_at :: "sdk \<Rightarrow> bytes \<Rightarrow> pystr option \<Rightarrow> pystr option \<Rightarrow> inspection res" where
  "inspect_at sdk flash device_id efuse_mac = (case efuse_mac of
      None \<Rightarrow> Inl (migration ''AT source needs the eFuse MAC'')
    | Some mac_text \<Rightarrow>
        require (device_id = None) (migration ''AT source needs the eFuse MAC'')
        (bindE (make_archive flash) (\<lambda>archive.
         let pages = sdk_nvs sdk (pslice flash 0x12000 0x20000) in
         bindE (for_each (\<lambda>_ page. validate_page page) () pages) (\<lambda>_.
         let entries = filter (\<lambda>entry. e_state entry = ''Written'') (concat (map pg_entries pages)) in
         (case filter (\<lambda>entry. entry_namespace entries entry = Some ''phy'' \<and> e_key entry = ''cal_mac'') entries of
            [phy] \<Rightarrow>
              require (e_type phy = ''blob'' \<and> e_size phy = 6) (migration ''AT source has no phy/cal_mac'')
              (let mac = take 6 (concat (map c_raw (e_children phy))) in
               require (hex mac = lower_ascii (no_colons mac_text)) (migration ''AT backup of another device'')
               (bindE (for_each (\<lambda>_ entry. wifi_entry_empty entries entry) () entries) (\<lambda>_.
                Inr ([], (bare_report ''esp32_at'' flash)\<lparr>sr_efuse_mac := Some (hex mac), sr_old_at_sha256 := Some (digest archive)\<rparr>,
                     Some archive))))
          | _ \<Rightarrow> Inl (migration ''AT source has no phy/cal_mac''))))))"

subsection \<open>A Base source\<close>

definition migration_identity :: "sdk \<Rightarrow> bytes \<Rightarrow> pystr \<Rightarrow> unit res" where
  "migration_identity sdk flash device_id =
     bindE (identity_records sdk flash) (\<lambda>identity.
     bindE (of_option (Raise UnicodeError ''encode'') (utf8_encode device_id)) (\<lambda>device.
     require (map_of identity DEVICE_KEY = Some (''string'', device @ [0])) (migration ''backup UUID'')
     (require (sdk_types_ok identity) (migration ''SDK record types'')
     (phy_ok migration identity))))"

definition migrate_config :: "string \<Rightarrow> records \<Rightarrow> (nat option \<times> records) res" where
  "migrate_config name store = (case map_of store CONFIG_KEY of
      None \<Rightarrow> Inr (None, store)
    | Some (_, blob) \<Rightarrow>
        if name = ''c3_v1'' \<and> take 5 blob = ascii ''EBCF'' @ [1]
        then bindE (validate_v1_config blob) (\<lambda>r. bindE (convert_v1_wifi_only blob) (\<lambda>c.
             Inr (Some r, AList.update CONFIG_KEY (''blob'', c) store)))
        else if name = ''c3_v1'' \<and> take 5 blob = ascii ''EBCF'' @ [2]
        then bindE (validate_v2_config blob) (\<lambda>r. bindE (convert_v2_preserving_mqtt blob) (\<lambda>c.
             Inr (Some r, AList.update CONFIG_KEY (''blob'', c) store)))
        else bindE (validate_v3_config blob) (\<lambda>r. Inr (Some r, store)))"

definition old_slot :: "sdk \<Rightarrow> bytes option \<Rightarrow> bytes \<Rightarrow> layout \<Rightarrow> nat \<Rightarrow> (nat \<times> nat) list \<Rightarrow> images \<Rightarrow> nat \<times> nat \<Rightarrow> images res" where
  "old_slot sdk source_key flash layout app_size states images = (\<lambda>(slot, offset).
     if map_of states slot = Some 2
     then (let unsigned_source = (l_name layout = ''c3_v1'' \<and> source_key = None);
               slot_bytes = pslice flash offset (offset + app_size) in
           bindE (signed_image slot_bytes (l_target layout) True (\<not> unsigned_source)) (\<lambda>image.
           bindE (if unsigned_source
                  then require (drop (length image) slot_bytes = erased (length slot_bytes - length image))
                         (migration ''unsigned slot has a tail'') (Inr ())
                  else verify_signature (sdk_verify sdk) image source_key (l_target layout)) (\<lambda>_.
           Inr (images @ [(slot, image)]))))
     else require (pslice flash offset (offset + 0x1000) = erased 0x1000) (migration ''old slot may still boot'') (Inr images))"

definition old_packages :: "bytes \<Rightarrow> layout \<Rightarrow> records \<Rightarrow> images \<Rightarrow> ecs2 option res" where
  "old_packages flash layout store images =
     bindE (case map_of store (''base_pkg'', ''slots'') of
              None \<Rightarrow> Inr None
            | Some (_, blob) \<Rightarrow>
                require (l_packages layout \<noteq> None) (migration ''layout without packages holds ECS2'')
                (bindE (validate_ecs2 blob flash layout (map (\<lambda>(_, image). sha256 image) images)) (\<lambda>e. Inr (Some e)))) (\<lambda>ecs.
     case map_of store (''base_product'', ''operations'') of
       None \<Rightarrow> Inr ecs
     | Some (_, blob) \<Rightarrow> (case ecs of
           None \<Rightarrow> Inl (migration ''ledger without ECS2'')
         | Some e \<Rightarrow> bindE (validate_ledger blob (ecs_sequence e)) (\<lambda>_. Inr ecs)))"

definition kept_records :: "records \<Rightarrow> records" where
  "kept_records store = filter (\<lambda>(key, _). key \<notin> set RETIRED_KEYS) store"

text \<open>The archive of the retired ESP32 product layout, brought to five pages.\<close>

definition widened_archive :: "bytes \<Rightarrow> bytes" where
  "widened_archive flash =
     (let old = pslice flash 0x3e6000 0x3ea000 in take 0x2000 old @ erased 0x1000 @ drop 0x2000 old)"

definition inspect_base :: "sdk \<Rightarrow> bytes \<Rightarrow> layout \<Rightarrow> pystr \<Rightarrow> bytes option \<Rightarrow> inspection res" where
  "inspect_base sdk flash layout device_id source_key =
     bindE (key_of ''store'' (l_store layout)) (\<lambda>(store_offset, store_size).
     bindE (nvs_records (sdk_nvs sdk) flash store_offset store_size (CONFIG_KEY # RETIRED_KEYS) []) (\<lambda>store0.
     require (list_all (\<lambda>(_, kind, _). kind = ''blob'') store0) (migration ''base records must be blobs'')
     (bindE (migrate_config (l_name layout) store0) (\<lambda>(revision, store).
      bindE (ota_selection flash layout) (\<lambda>(selected, states).
      bindE (key_of ''apps'' (l_apps layout)) (\<lambda>apps.
      bindE (key_of ''app_size'' (l_app_size layout)) (\<lambda>app_size.
      bindE (for_each (old_slot sdk source_key flash layout app_size states) [] [(0, fst apps), (1, snd apps)]) (\<lambda>images.
      bindE (old_packages flash layout store images) (\<lambda>ecs.
      bindE (operation_terminal store (\<lambda>blob. validate_v3_receipt blob device_id flash layout selected states images ecs)) (\<lambda>terminal.
      Inr (kept_records store,
           (bare_report (l_name layout) flash)\<lparr>sr_device_id := Some device_id, sr_revision := revision, sr_selected := Some selected,
             sr_operation := terminal, sr_slots := slot_digests images,
             sr_retired := filter (\<lambda>(key, _). key \<in> set RETIRED_KEYS) store, sr_key_sha256 := map_option digest source_key\<rparr>,
           if l_target layout = Esp32 then Some (widened_archive flash) else None)))))))))))"

definition inspect_native :: "sdk \<Rightarrow> bytes \<Rightarrow> layout \<Rightarrow> pystr \<Rightarrow> bytes option \<Rightarrow> pystr option \<Rightarrow> inspection res" where
  "inspect_native sdk flash layout device_id source_key efuse_mac =
     require (efuse_mac = None) (migration ''native source takes no MAC'')
     (bindE (if l_target layout = Esp32
             then verify_signature (sdk_verify sdk) (pslice flash TABLE_OFFSET (TABLE_OFFSET + 3140)) source_key Esp32
             else Inr ()) (\<lambda>_.
      bindE (inspect_native_store sdk flash layout device_id source_key) (\<lambda>(records, report, _).
      let archive = (if l_target layout = Esp32 then Some (pslice flash 0x3e5000 0x3ea000) else None) in
      Inr (records, report\<lparr>sr_source_layout := l_name layout, sr_device_id := Some device_id,
             sr_key_sha256 := map_option digest source_key, sr_old_at_sha256 := map_option digest archive\<rparr>, archive))))"

definition inspect_source :: "sdk \<Rightarrow> bytes \<Rightarrow> layout \<Rightarrow> pystr option \<Rightarrow> bytes option \<Rightarrow> pystr option \<Rightarrow> inspection res" where
  "inspect_source sdk flash layout device_id source_key efuse_mac =
     bindE (check_old_layout (sdk_parse sdk) (sdk_generate sdk) flash layout) (\<lambda>_.
     if layout = c3_mqtt_factory then inspect_factory flash device_id source_key efuse_mac
     else if layout = esp32_at then inspect_at sdk flash device_id efuse_mac
     else (case device_id of
         None \<Rightarrow> Inl (migration ''base source needs the UUID'')
       | Some device \<Rightarrow>
           require (valid_uuid_text device) (migration ''base source needs the UUID'')
           (bindE (migration_identity sdk flash device) (\<lambda>_.
            if l_native layout then inspect_native sdk flash layout device source_key efuse_mac
            else inspect_base sdk flash layout device source_key))))"

subsection \<open>The new store\<close>

definition store_rows :: "records \<Rightarrow> ((pystr \<times> pystr \<times> pystr \<times> pystr) list) res" where
  "store_rows records =
     bindE (for_each (\<lambda>(rows, namespaces) ((namespace, key), (kind, raw)).
        require (kind = ''blob'') (migration ''store record is not a blob'')
        (Inr (rows @ (if namespace \<in> set namespaces then [] else [namespace_row namespace]) @ [data_row key raw],
              if namespace \<in> set namespaces then namespaces else namespaces @ [namespace])))
       ([CSV_HEADER], []) (sort_key fst records)) (\<lambda>(rows, _). Inr rows)"

definition generate_store :: "sdk \<Rightarrow> records \<Rightarrow> nat \<Rightarrow> bytes res" where
  "generate_store sdk records store_size =
     (if records = [] then Inr (erased store_size)
      else bindE (store_rows records) (\<lambda>rows.
        bindE (of_option (migration ''NVS generation'') (sdk_nvs_generate sdk rows store_size)) (\<lambda>raw.
        bindE (nvs_records (sdk_nvs sdk) raw 0 store_size (map fst records) []) (\<lambda>actual.
        require (dict_eq actual records) (migration ''store readback'') (Inr raw)))))"

subsection \<open>Preparation\<close>

record prepare_args =
  pa_layout :: string
  pa_backup_a :: backup
  pa_backup_b :: backup
  pa_device_id :: "pystr option"
  pa_efuse_mac :: "pystr option"
  pa_source_key :: "in_file option"
  pa_key :: in_file
  pa_app :: in_file
  pa_bootloader :: in_file
  pa_table :: in_file
  pa_original_state :: bool

record migration_receipt =
  mr_source :: source_report
  mr_target :: target
  mr_candidate_sha256 :: pystr
  mr_app_sha256 :: pystr
  mr_app_size :: nat
  mr_key_sha256 :: pystr
  mr_bootloader_sha256 :: pystr
  mr_table_sha256 :: pystr
  mr_selected_slot :: nat
  mr_preserved :: "(nvs_key \<times> pystr) list"

datatype written_file =
    Source_flash bytes
  | Receipt_file migration_receipt
  | Old_at bytes
  | Candidate_flash bytes

text \<open>The areas of the source that the new layout reuses.\<close>

definition erase_range :: "nat \<Rightarrow> nat \<Rightarrow> bytes \<Rightarrow> bytes" where
  "erase_range a b flash = set_slice flash a b (erased (b - a))"

definition cleared_source :: "string \<Rightarrow> bytes \<Rightarrow> bytes" where
  "cleared_source name flash =
     (let source = (if name = ''c3_mqtt_factory'' then erase_range 0xf000 0x20000 flash else flash) in
      if name = ''esp32_at''
      then erase_range 0x3ea000 0x3fa000 (erase_range 0x12000 0x20000 (erase_range 0xf000 0x10000 (erase_range 0x9000 0xf000 source)))
      else if name = ''c3_v1'' then erase_range 0x3e5000 0x3f5000 source
      else source)"

definition check_firmware :: "sdk \<Rightarrow> prepare_args \<Rightarrow> target \<Rightarrow> bytes \<Rightarrow> (bytes \<times> bytes \<times> bytes) res" where
  "check_firmware sdk a t key =
     bindE (read_file (pa_app a) False APP_SIZE) (\<lambda>app.
     bindE (signed_image app t True True) (\<lambda>image.
     require (image = app) (migration ''app is not one signed image'')
     (bindE (verify_signature (sdk_verify sdk) app (Some key) t) (\<lambda>_.
      bindE (read_file (pa_bootloader a) False TABLE_OFFSET) (\<lambda>bootloader.
      bindE (signed_image bootloader t False False) (\<lambda>boot_image.
      require (boot_image = bootloader) (migration ''bootloader is not one image'')
      (bindE (read_file (pa_table a) False 0x1000) (\<lambda>table.
       bindE (if t = Esp32
              then bindE (verify_signature (sdk_verify sdk) table (Some key) t) (\<lambda>_.
                   require (length key \<le> 512) (migration ''not a regular file of limited size'')
                   (require (length key = 64 \<and> contains key app \<and> contains key bootloader) (migration ''key not embedded'') (Inr ())))
              else Inr ()) (\<lambda>_.
       Inr (app, bootloader, table))))))))))"

definition unchanged_native :: "bytes \<Rightarrow> layout \<Rightarrow> nat \<Rightarrow> bytes \<Rightarrow> bytes \<Rightarrow> bytes \<Rightarrow> bytes res" where
  "unchanged_native flash layout selected app bootloader table =
     (let t = l_target layout in
      bindE (key_of ''apps'' (l_apps layout)) (\<lambda>apps.
      let offset = (if selected = 0 then fst apps else snd apps) in
      bindE (signed_image (pslice flash offset (offset + APP_SIZE)) t True True) (\<lambda>original_app.
      bindE (signed_image (pslice flash (boot_offset t) TABLE_OFFSET) t False False) (\<lambda>original_boot.
      let table_size = (if t = Esp32c3 then 3072 else 3140) in
      require (app = original_app \<and> bootloader = original_boot \<and> table = pslice flash TABLE_OFFSET (TABLE_OFFSET + table_size))
        (migration ''original state needs the current firmware'') (Inr flash)))))"

definition prepare :: "sdk \<Rightarrow> prepare_args \<Rightarrow> (migration_receipt \<times> written_file list) res" where
  "prepare sdk a =
     bindE (compare_backups (pa_backup_a a) (pa_backup_b a)) (\<lambda>flash.
     bindE (layout_named (pa_layout a)) (\<lambda>layout.
     let t = l_target layout in
     require (pa_original_state a \<longrightarrow> l_native layout) (migration ''original state needs a native source'')
     (bindE (case pa_source_key a of None \<Rightarrow> Inr None | Some f \<Rightarrow> bindE (read_file f False 4096) (\<lambda>k. Inr (Some k))) (\<lambda>source_key.
      bindE (read_file (pa_key a) False 4096) (\<lambda>key.
      bindE (inspect_source sdk flash layout (pa_device_id a) source_key (pa_efuse_mac a)) (\<lambda>(records, report, old_at).
      bindE (check_firmware sdk a t key) (\<lambda>(app, bootloader, table).
      let store_size = (if t = Esp32c3 then 0xb000 else 0x6000) in
      bindE (if l_native layout
             then bindE (key_of ''store'' (l_store layout)) (\<lambda>(offset, _). Inr (pslice flash offset (offset + store_size)))
             else generate_store sdk records store_size) (\<lambda>store.
      let keep = (l_native layout \<and> (pa_original_state a \<or> NATIVE_OPERATION_KEY \<in> set (map fst records)));
          selected = (if keep then (case sr_selected report of None \<Rightarrow> 1 | Some s \<Rightarrow> s) else 1) in
      bindE (if keep then unchanged_native flash layout selected app bootloader table
             else build_candidate (sdk_parse sdk) (sdk_generate sdk) (cleared_source (pa_layout a) flash) t app bootloader table store old_at) (\<lambda>candidate.
      let receipt = \<lparr>mr_source = report, mr_target = t, mr_candidate_sha256 = digest candidate, mr_app_sha256 = digest app,
            mr_app_size = length app, mr_key_sha256 = digest key, mr_bootloader_sha256 = digest bootloader, mr_table_sha256 = digest table,
            mr_selected_slot = selected, mr_preserved = map (\<lambda>(k, _, v). (k, digest v)) records\<rparr> in
      Inr (receipt, [Source_flash flash, Receipt_file receipt] @ (case old_at of None \<Rightarrow> [] | Some raw \<Rightarrow> [Old_at raw]) @
             [Candidate_flash candidate]))))))))))"

subsection \<open>What the parts of a preparation give\<close>

lemma read_file_length: "read_file f is_private maximum = Inr raw \<Longrightarrow> length raw \<le> maximum"
  by (auto simp: read_file_def res_simps Let_def)

lemma native_layouts:
  assumes "layout_named name = Inr layout"
  shows "l_name layout = name" and "l_native layout \<Longrightarrow> layout = native_layout (l_target layout)"
proof -
  have "layout \<in> set LAYOUTS" "l_name layout = name"
    using assms by (auto simp: layout_named_def res_simps find_Some_iff)
  then show "l_name layout = name" "l_native layout \<Longrightarrow> layout = native_layout (l_target layout)"
    by (auto simp: LAYOUTS_def layout_defs native_layout_def)
qed

lemma native_layout_parts:
  "l_apps (native_layout t) = Some APP_OFFSETS" "l_store (native_layout t) = Some (store_offset t, FLASH_SIZE - store_offset t)"
  by (cases t; simp add: native_layout_def layout_defs store_offset_def FLASH_SIZE_def)+

lemma check_firmware_facts:
  assumes "check_firmware sdk a t key = Inr (app, bootloader, table)"
  shows "signed_image app t True True = Inr app" and "signed_image bootloader t False False = Inr bootloader"
    and "length app \<le> APP_SIZE" and "sdk_verify sdk key t app"
  using assms by (auto simp: check_firmware_def verify_signature_def res_simps dest: read_file_length)

lemma cleared_source_length: "length flash = FLASH_SIZE \<Longrightarrow> length (cleared_source name flash) = FLASH_SIZE"
  by (simp add: cleared_source_def erase_range_def length_set_slice FLASH_SIZE_def Let_def)

lemma cleared_source_identity:
  assumes "length flash = FLASH_SIZE" and "name \<noteq> ''esp32_at''"
  shows "pslice (cleared_source name flash) 0x9000 0xf000 = pslice flash 0x9000 0xf000"
  using assms by (simp add: cleared_source_def erase_range_def FLASH_SIZE_def Let_def pslice_set_slice_below)

lemma generate_store_length:
  assumes "generate_store sdk records n = Inr store" and "\<forall>rows n raw. sdk_nvs_generate sdk rows n = Some raw \<longrightarrow> length raw = n"
  shows "length store = n"
  using assms by (auto simp: generate_store_def res_simps split: if_splits)

lemma inspect_native_selected:
  assumes "inspect_source sdk flash layout device_id source_key efuse_mac = Inr (records, report, old_at)" and "l_native layout"
  shows "\<exists>selected states. ota_selection flash layout = Inr (selected, states) \<and> sr_selected report = Some selected"
proof -
  have "layout \<noteq> c3_mqtt_factory" "layout \<noteq> esp32_at"
    using assms(2) by (auto simp: layout_defs)
  then show ?thesis
    using assms by (auto simp: inspect_source_def inspect_native_def inspect_native_store_def res_simps Let_def split: option.splits)
qed

text \<open>The steps of an accepted preparation.\<close>

definition keeps_flash :: "prepare_args \<Rightarrow> layout \<Rightarrow> records \<Rightarrow> bool" where
  "keeps_flash a layout records = (l_native layout \<and> (pa_original_state a \<or> NATIVE_OPERATION_KEY \<in> set (map fst records)))"

definition store_size_of :: "target \<Rightarrow> nat" where
  "store_size_of t = (if t = Esp32c3 then 0xb000 else 0x6000)"

lemma store_size_of_eq: "store_size_of t = FLASH_SIZE - store_offset t"
  by (cases t) (simp_all add: store_size_of_def store_offset_def FLASH_SIZE_def)

lemma prepare_steps:
  assumes "prepare sdk a = Inr (receipt, files)"
  obtains flash layout source_key key records report old_at app bootloader table store candidate where
    "compare_backups (pa_backup_a a) (pa_backup_b a) = Inr flash" "layout_named (pa_layout a) = Inr layout"
    "inspect_source sdk flash layout (pa_device_id a) source_key (pa_efuse_mac a) = Inr (records, report, old_at)"
    "check_firmware sdk a (l_target layout) key = Inr (app, bootloader, table)"
    "if l_native layout then \<exists>offset n. l_store layout = Some (offset, n) \<and> store = pslice flash offset (offset + store_size_of (l_target layout))
     else generate_store sdk records (store_size_of (l_target layout)) = Inr store"
    "mr_selected_slot receipt = (if keeps_flash a layout records then (case sr_selected report of None \<Rightarrow> 1 | Some s \<Rightarrow> s) else 1)"
    "if keeps_flash a layout records then unchanged_native flash layout (mr_selected_slot receipt) app bootloader table = Inr candidate
     else build_candidate (sdk_parse sdk) (sdk_generate sdk) (cleared_source (pa_layout a) flash) (l_target layout) app bootloader table store old_at
       = Inr candidate"
    "mr_source receipt = report" "mr_target receipt = l_target layout" "mr_candidate_sha256 receipt = digest candidate"
    "mr_app_sha256 receipt = digest app" "mr_preserved receipt = map (\<lambda>(k, _, v). (k, digest v)) records"
    "hd files = Source_flash flash" "last files = Candidate_flash candidate" "read_file (pa_key a) False 4096 = Inr key"
proof -
  obtain flash layout source_key key records report old_at app bootloader table store candidate where
    steps: "compare_backups (pa_backup_a a) (pa_backup_b a) = Inr flash" "layout_named (pa_layout a) = Inr layout"
      "inspect_source sdk flash layout (pa_device_id a) source_key (pa_efuse_mac a) = Inr (records, report, old_at)"
      "check_firmware sdk a (l_target layout) key = Inr (app, bootloader, table)"
      "(if l_native layout then bindE (key_of ''store'' (l_store layout)) (\<lambda>(offset, _). Inr (pslice flash offset (offset + store_size_of (l_target layout))))
        else generate_store sdk records (store_size_of (l_target layout))) = Inr store"
      "(if keeps_flash a layout records
        then unchanged_native flash layout (if keeps_flash a layout records then (case sr_selected report of None \<Rightarrow> 1 | Some s \<Rightarrow> s) else 1) app bootloader table
        else build_candidate (sdk_parse sdk) (sdk_generate sdk) (cleared_source (pa_layout a) flash) (l_target layout) app bootloader table store old_at)
       = Inr candidate"
      "receipt = \<lparr>mr_source = report, mr_target = l_target layout, mr_candidate_sha256 = digest candidate, mr_app_sha256 = digest app,
            mr_app_size = length app, mr_key_sha256 = digest key, mr_bootloader_sha256 = digest bootloader, mr_table_sha256 = digest table,
            mr_selected_slot = (if keeps_flash a layout records then (case sr_selected report of None \<Rightarrow> 1 | Some s \<Rightarrow> s) else 1),
            mr_preserved = map (\<lambda>(k, _, v). (k, digest v)) records\<rparr>"
      "files = [Source_flash flash, Receipt_file receipt] @ (case old_at of None \<Rightarrow> [] | Some raw \<Rightarrow> [Old_at raw]) @ [Candidate_flash candidate]"
      "read_file (pa_key a) False 4096 = Inr key"
    using assms unfolding prepare_def Let_def res_simps keeps_flash_def [symmetric] store_size_of_def [symmetric] by (auto simp: res_simps)
  show thesis
    by (rule that [OF steps(1-4), of store candidate]) (use steps in \<open>auto simp: res_simps split: if_splits\<close>)
qed

lemma built_candidate:
  assumes "build_candidate (sdk_parse sdk) (sdk_generate sdk) source t app bootloader table store old_at = Inr candidate"
    and "length source = FLASH_SIZE" "length app \<le> APP_SIZE" "length store = FLASH_SIZE - store_offset t"
    and app: "signed_image app t True True = Inr app"
  shows "length candidate = FLASH_SIZE" "ota_selection candidate (native_layout t) = Inr (1, [(0, 2), (1, 2)])"
    "signed_image (pslice candidate (snd APP_OFFSETS) (snd APP_OFFSETS + APP_SIZE)) t True True = Inr app"
    "pslice candidate 0x9000 0xf000 = pslice source 0x9000 0xf000" "pslice candidate (store_offset t) FLASH_SIZE = store"
proof -
  note w = build_candidate_writes [OF assms(1-4)]
  note parts = candidate_parts [OF w]
  show "length candidate = FLASH_SIZE" "pslice candidate (store_offset t) FLASH_SIZE = store"
    using parts by simp_all
  show "ota_selection candidate (native_layout t) = Inr (1, [(0, 2), (1, 2)])"
    by (rule candidate_selection [OF parts(5)])
  have "288 \<le> length app"
    using app by (auto simp: signed_image_eq_Inr app_descriptor_ok_def)
  then show "signed_image (pslice candidate (snd APP_OFFSETS) (snd APP_OFFSETS + APP_SIZE)) t True True = Inr app"
    unfolding parts(4) slot_image_def by (rule app_image.parse_slot(1) [OF app _ assms(3)])
  have "kept_region t 0x9000 0xf000"
    by (cases t) (simp_all add: kept_region_def offset_defs)
  then show "pslice candidate 0x9000 0xf000 = pslice source 0x9000 0xf000"
    unfolding w(2) by (rule flash.rd_writes_other [OF kept_region_disjoint [OF w(1)]])
qed

lemma prepared_store_length:
  assumes "if l_native layout then \<exists>offset n. l_store layout = Some (offset, n) \<and> store = pslice flash offset (offset + store_size_of (l_target layout))
     else generate_store sdk records (store_size_of (l_target layout)) = Inr store"
    and "layout_named name = Inr layout" "length flash = FLASH_SIZE"
    and "\<forall>rows n raw. sdk_nvs_generate sdk rows n = Some raw \<longrightarrow> length raw = n"
  shows "length store = FLASH_SIZE - store_offset (l_target layout)"
proof (cases "l_native layout")
  case True
  then have "l_store layout = Some (store_offset (l_target layout), FLASH_SIZE - store_offset (l_target layout))"
    using native_layouts(2) [OF assms(2)] native_layout_parts(2) by metis
  moreover have "store_offset (l_target layout) \<le> FLASH_SIZE"
    by (simp add: store_offset_def FLASH_SIZE_def)
  ultimately show ?thesis
    using assms(1,3) True by (auto simp: store_size_of_eq)
next
  case False
  with assms(1) generate_store_length [OF _ assms(4)] show ?thesis
    by (simp add: store_size_of_eq)
qed

text \<open>The boot selector chooses a slot, and this slot holds exactly an application.\<close>

definition boots_app :: "bytes \<Rightarrow> target \<Rightarrow> nat \<Rightarrow> bytes \<Rightarrow> bool" where
  "boots_app candidate t slot app = ((\<exists>states. ota_selection candidate (native_layout t) = Inr (slot, states)) \<and>
     (let offset = (if slot = 0 then fst APP_OFFSETS else snd APP_OFFSETS) in signed_image (pslice candidate offset (offset + APP_SIZE)) t True True = Inr app))"

lemma kept_candidate_boots:
  assumes keeps: "keeps_flash a layout records" and "layout_named (pa_layout a) = Inr layout"
    and "inspect_source sdk flash layout (pa_device_id a) source_key (pa_efuse_mac a) = Inr (records, report, old_at)"
    and unchanged: "unchanged_native flash layout (case sr_selected report of None \<Rightarrow> 1 | Some s \<Rightarrow> s) app bootloader table = Inr candidate"
  shows "candidate = flash \<and> boots_app candidate (l_target layout) (case sr_selected report of None \<Rightarrow> 1 | Some s \<Rightarrow> s) app"
proof -
  have native: "l_native layout" "layout = native_layout (l_target layout)"
    using keeps native_layouts(2) [OF assms(2)] by (auto simp: keeps_flash_def)
  obtain s states where "ota_selection flash layout = Inr (s, states)" "sr_selected report = Some s"
    using inspect_native_selected [OF assms(3) native(1)] by blast
  then show ?thesis
    using unchanged native_layout_parts(1) [of "l_target layout"] native(2)
    by (auto simp: boots_app_def unchanged_native_def res_simps Let_def)
qed

text \<open>
  C1: what a migration writes boots the checked firmware on the same device.  When \<^verbatim>\<open>prepare\<close> returns, both
  backups are the flash it archived first; the candidate it lists last has the recorded digest and the size of the
  flash; the boot selector of the candidate chooses the recorded slot, which holds exactly the bytes of the application file the operator gave, one complete signed
  image whose signature verifies with the key file the operator gave, and whose digest is the recorded one; and, for every source but the AT one (which has no
  identity of this product), the identity partition of the device is
  unchanged.  This covers the sources that are kept as they are as well as the converted ones.
\<close>

theorem migration_boots_checked_app:
  assumes "prepare sdk a = Inr (receipt, files)"
    and "\<forall>rows n raw. sdk_nvs_generate sdk rows n = Some raw \<longrightarrow> length raw = n"
  shows "\<exists>flash candidate states app key offset.
    bk_content (pa_backup_a a) = flash \<and> bk_content (pa_backup_b a) = flash \<and> hd files = Source_flash flash \<and>
    last files = Candidate_flash candidate \<and> length candidate = FLASH_SIZE \<and> mr_candidate_sha256 receipt = digest candidate \<and>
    ota_selection candidate (native_layout (mr_target receipt)) = Inr (mr_selected_slot receipt, states) \<and>
    offset = (if mr_selected_slot receipt = 0 then fst APP_OFFSETS else snd APP_OFFSETS) \<and>
    signed_image (pslice candidate offset (offset + APP_SIZE)) (mr_target receipt) True True = Inr app \<and>
    read_file (pa_app a) False APP_SIZE = Inr app \<and> read_file (pa_key a) False 4096 = Inr key \<and>
    verify_signature (sdk_verify sdk) app (Some key) (mr_target receipt) = Inr () \<and> mr_app_sha256 receipt = digest app \<and>
    (pa_layout a \<noteq> ''esp32_at'' \<longrightarrow> pslice candidate 0x9000 0xf000 = pslice flash 0x9000 0xf000)"
proof -
  obtain flash layout source_key key records report old_at app bootloader table store candidate where
    steps: "compare_backups (pa_backup_a a) (pa_backup_b a) = Inr flash" "layout_named (pa_layout a) = Inr layout"
      "inspect_source sdk flash layout (pa_device_id a) source_key (pa_efuse_mac a) = Inr (records, report, old_at)"
      "check_firmware sdk a (l_target layout) key = Inr (app, bootloader, table)"
    and store: "if l_native layout then \<exists>offset n. l_store layout = Some (offset, n) \<and> store = pslice flash offset (offset + store_size_of (l_target layout))
     else generate_store sdk records (store_size_of (l_target layout)) = Inr store"
    and selected: "mr_selected_slot receipt = (if keeps_flash a layout records then (case sr_selected report of None \<Rightarrow> 1 | Some s \<Rightarrow> s) else 1)"
    and candidate: "if keeps_flash a layout records then unchanged_native flash layout (mr_selected_slot receipt) app bootloader table = Inr candidate
     else build_candidate (sdk_parse sdk) (sdk_generate sdk) (cleared_source (pa_layout a) flash) (l_target layout) app bootloader table store old_at
       = Inr candidate"
    and receipt: "mr_target receipt = l_target layout" "mr_candidate_sha256 receipt = digest candidate" "mr_app_sha256 receipt = digest app"
    and files: "hd files = Source_flash flash" "last files = Candidate_flash candidate" "read_file (pa_key a) False 4096 = Inr key"
    by (rule prepare_steps [OF assms(1)]) blast
  note flash = compare_backups_common [OF steps(1)]
  note fw = check_firmware_facts [OF steps(4)]
  have given: "read_file (pa_app a) False APP_SIZE = Inr app" "verify_signature (sdk_verify sdk) app (Some key) (l_target layout) = Inr ()"
    using steps(4) by (auto simp: check_firmware_def res_simps)
  have "boots_app candidate (l_target layout) (mr_selected_slot receipt) app \<and> length candidate = FLASH_SIZE \<and>
    (pa_layout a \<noteq> ''esp32_at'' \<longrightarrow> pslice candidate 0x9000 0xf000 = pslice flash 0x9000 0xf000)"
  proof (cases "keeps_flash a layout records")
    case True
    with candidate selected flash(4) kept_candidate_boots [OF True steps(2,3)] show ?thesis by auto
  next
    case False
    with candidate selected have built: "build_candidate (sdk_parse sdk) (sdk_generate sdk) (cleared_source (pa_layout a) flash) (l_target layout)
        app bootloader table store old_at = Inr candidate" and one: "mr_selected_slot receipt = 1"
      by simp_all
    note b = built_candidate [OF built cleared_source_length [OF flash(4)] fw(3) prepared_store_length [OF store steps(2) flash(4) assms(2)] fw(1)]
    then show ?thesis
      using one cleared_source_identity [OF flash(4)] by (auto simp: boots_app_def)
  qed
  then show ?thesis
    using flash(1,2) files receipt given by (auto simp: boots_app_def Let_def)
qed

subsection \<open>The configuration\<close>

lemma update_key_set: "fst ` set (AList.update k v xs) = insert k (fst ` set xs)"
  by (induction xs) auto

lemma nvs_records_keys:
  assumes "nvs_records parse raw offset n allowed unused = Inr records"
  shows "distinct (map fst records)" and "set (map fst records) \<subseteq> set allowed"
proof -
  obtain groups where allowed: "list_all (\<lambda>key. key \<in> set allowed) (map fst groups)"
    and run: "for_each (\<lambda>records (key, es). bindE (group_record es) (\<lambda>value. Inr (AList.update key value records))) [] groups = Inr records"
    using assms by (auto simp: nvs_records_def res_simps Let_def)
  have "distinct (map fst records) \<and> fst ` set records = fst ` set groups"
  proof (rule for_each_inv [OF run, where I = "\<lambda>gs rs. distinct (map fst rs) \<and> fst ` set rs = fst ` set gs"])
    fix gs :: groups and g t t'
    assume inv: "distinct (map fst t) \<and> fst ` set t = fst ` set gs"
      and step: "(case g of (key, es) \<Rightarrow> bindE (group_record es) (\<lambda>value. Inr (AList.update key value t))) = Inr t'"
    obtain v where "t' = AList.update (fst g) v t"
      using step by (cases g) (auto simp: res_simps)
    with inv show "distinct (map fst t') \<and> fst ` set t' = fst ` set (gs @ [g])"
      by (simp add: update_key_set distinct_update)
  qed simp
  then show "distinct (map fst records)" "set (map fst records) \<subseteq> set allowed"
    using allowed by (auto simp: list_all_iff)
qed

lemma only_key:
  assumes "distinct (map fst xs)" and "set (map fst xs) \<subseteq> {k}"
  shows "xs = (case map_of xs k of None \<Rightarrow> [] | Some v \<Rightarrow> [(k, v)])"
proof (cases xs)
  case (Cons x ys)
  with assms have "fst x = k" "k \<notin> set (map fst ys)" "set (map fst ys) \<subseteq> {k}" by auto
  then have "ys = []" by (cases ys) auto
  with Cons \<open>fst x = k\<close> show ?thesis by (cases x) simp
qed simp

lemma kept_records_config:
  assumes "distinct (map fst store)" and "set (map fst store) \<subseteq> set (CONFIG_KEY # RETIRED_KEYS)"
  shows "kept_records store = (case map_of store CONFIG_KEY of None \<Rightarrow> [] | Some v \<Rightarrow> [(CONFIG_KEY, v)])"
proof -
  have "set (map fst (kept_records store)) \<subseteq> {CONFIG_KEY}"
    using assms(2) by (auto simp: kept_records_def)
  moreover have "distinct (map fst (kept_records store))"
    using assms(1) by (auto simp: kept_records_def distinct_map inj_on_def)
  moreover have "CONFIG_KEY \<notin> set RETIRED_KEYS"
    by (simp add: CONFIG_KEY_def RETIRED_KEYS_def)
  then have "map_of (kept_records store) CONFIG_KEY = map_of store CONFIG_KEY"
    unfolding kept_records_def by (induction store) auto
  ultimately show ?thesis
    using only_key by metis
qed

definition migrated_config :: "bytes \<Rightarrow> nat \<Rightarrow> bytes \<Rightarrow> bool" where
  "migrated_config old r new = (validate_v3_config new = Inr r \<and>
     (new = old \<or> validate_v1_config old = Inr r \<and> v3_settings new = v1_settings old \<or>
      validate_v2_config old = Inr r \<and> v3_settings new = v2_settings old))"

lemma migrate_config_facts:
  assumes "migrate_config name store = Inr (found, store')" and "distinct (map fst store)"
    and "list_all (\<lambda>(_, kind, _). kind = ''blob'') store"
  shows "set (map fst store') = set (map fst store)" and "distinct (map fst store')"
    and "case map_of store CONFIG_KEY of None \<Rightarrow> found = None \<and> map_of store' CONFIG_KEY = None
      | Some (kind, old) \<Rightarrow> \<exists>r new. found = Some r \<and> map_of store' CONFIG_KEY = Some (''blob'', new) \<and> migrated_config old r new"
proof -
  have *: "set (map fst store') = set (map fst store) \<and> distinct (map fst store') \<and>
    (case map_of store CONFIG_KEY of None \<Rightarrow> found = None \<and> map_of store' CONFIG_KEY = None
      | Some (kind, old) \<Rightarrow> \<exists>r new. found = Some r \<and> map_of store' CONFIG_KEY = Some (''blob'', new) \<and> migrated_config old r new)"
  proof (cases "map_of store CONFIG_KEY")
    case None
    with assms show ?thesis by (simp add: migrate_config_def)
  next
    case (Some v)
    obtain kind old where v: "v = (kind, old)" by fastforce
    then have "(CONFIG_KEY, kind, old) \<in> set store"
      using Some by (auto dest: map_of_SomeD)
    note entry = this
    have kind: "kind = ''blob''"
      using assms(3) entry by (auto simp: list_all_iff)
    have key: "CONFIG_KEY \<in> fst ` set store"
      using entry by (metis fst_conv image_eqI)
    have updated: "set (map fst (AList.update CONFIG_KEY x store)) = set (map fst store)"
      "distinct (map fst (AList.update CONFIG_KEY x store))" "map_of (AList.update CONFIG_KEY x store) CONFIG_KEY = Some x" for x
      using key assms(2) by (simp_all add: update_key_set distinct_update update_conv' insert_absorb)
    consider (v1) r c where "validate_v1_config old = Inr r" "convert_v1_wifi_only old = Inr c" "found = Some r"
        "store' = AList.update CONFIG_KEY (''blob'', c) store"
      | (v2) r c where "validate_v2_config old = Inr r" "convert_v2_preserving_mqtt old = Inr c" "found = Some r"
        "store' = AList.update CONFIG_KEY (''blob'', c) store"
      | (v3) r where "validate_v3_config old = Inr r" "found = Some r" "store' = store"
      using assms(1) Some v by (auto simp: migrate_config_def res_simps split: if_splits)
    then have "set (map fst store') = set (map fst store) \<and> distinct (map fst store') \<and>
      (\<exists>r new. found = Some r \<and> map_of store' CONFIG_KEY = Some (''blob'', new) \<and> migrated_config old r new)"
    proof cases
      case v1
      with convert_v1_valid [OF v1(1)] updated show ?thesis
        by (simp only: v1(2) sum.inject) (auto simp: migrated_config_def)
    next
      case v2
      with convert_v2_valid [OF v2(1)] updated show ?thesis
        by (simp only: v2(2) sum.inject) (auto simp: migrated_config_def)
    next
      case v3
      then show ?thesis
        using assms(2) Some v kind by (auto simp: migrated_config_def)
    qed
    then show ?thesis
      unfolding Some v by (simp only: option.case prod.case)
  qed
  then show "set (map fst store') = set (map fst store)" "distinct (map fst store')"
    "case map_of store CONFIG_KEY of None \<Rightarrow> found = None \<and> map_of store' CONFIG_KEY = None
      | Some (kind, old) \<Rightarrow> \<exists>r new. found = Some r \<and> map_of store' CONFIG_KEY = Some (''blob'', new) \<and> migrated_config old r new"
    by blast+
qed

lemma dict_eq_single: "dict_eq actual [(k, v)] \<Longrightarrow> map_of actual k = Some v \<and> set (map fst actual) = {k}"
  by (cases actual) (auto simp: dict_eq_def split: if_splits)

lemma nvs_records_at:
  assumes "pslice memory offset (offset + n) = raw" and "length raw = n"
  shows "nvs_records parse memory offset n allowed unused = nvs_records parse raw 0 n allowed unused"
  using assms by (simp add: nvs_records_def)

lemma inspect_base_facts:
  assumes "inspect_source sdk flash layout device_id source_key efuse_mac = Inr (records, report, old_at)"
    and "layout \<notin> {c3_mqtt_factory, esp32_at}" and "\<not> l_native layout"
  shows "\<exists>offset n store0 store. l_store layout = Some (offset, n) \<and>
    nvs_records (sdk_nvs sdk) flash offset n (CONFIG_KEY # RETIRED_KEYS) [] = Inr store0 \<and>
    list_all (\<lambda>(_, kind, _). kind = ''blob'') store0 \<and> migrate_config (l_name layout) store0 = Inr (sr_revision report, store) \<and>
    records = kept_records store"
  using assms by (auto simp: inspect_source_def inspect_base_def res_simps split: option.splits)

text \<open>
  What the store of a candidate says about the configuration of its source: \<open>store0\<close> are the records of the
  source, \<open>found\<close> is the revision of the receipt.
\<close>

definition config_kept :: "sdk \<Rightarrow> target \<Rightarrow> records \<Rightarrow> nat option \<Rightarrow> bytes \<Rightarrow> bool" where
  "config_kept sdk t store0 found candidate = (case map_of store0 CONFIG_KEY of
       None \<Rightarrow> found = None \<and> pslice candidate (store_offset t) FLASH_SIZE = erased (store_size_of t)
     | Some (kind, old) \<Rightarrow> \<exists>r new actual. found = Some r \<and> migrated_config old r new \<and>
         nvs_records (sdk_nvs sdk) candidate (store_offset t) (store_size_of t) [CONFIG_KEY] [] = Inr actual \<and>
         set (map fst actual) = {CONFIG_KEY} \<and> map_of actual CONFIG_KEY = Some (''blob'', new))"

lemma config_kept_new_store:
  assumes gs: "generate_store sdk records (store_size_of t) = Inr store"
    and records: "records = (case map_of store1 CONFIG_KEY of None \<Rightarrow> [] | Some v \<Rightarrow> [(CONFIG_KEY, v)])"
    and mig: "case map_of store0 CONFIG_KEY of None \<Rightarrow> found = None \<and> map_of store1 CONFIG_KEY = None
      | Some (kind, old) \<Rightarrow> \<exists>r new. found = Some r \<and> map_of store1 CONFIG_KEY = Some (''blob'', new) \<and> migrated_config old r new"
    and at: "pslice candidate (store_offset t) FLASH_SIZE = store"
    and rd: "nvs_records (sdk_nvs sdk) candidate (store_offset t) (store_size_of t) [CONFIG_KEY] [] = nvs_records (sdk_nvs sdk) store 0 (store_size_of t) [CONFIG_KEY] []"
  shows "config_kept sdk t store0 found candidate"
proof (cases "map_of store0 CONFIG_KEY")
  case None
  with mig records gs at show ?thesis
    by (simp add: generate_store_def config_kept_def)
next
  case (Some v)
  obtain kind old where v: "v = (kind, old)" by fastforce
  then obtain r new where new: "found = Some r" "map_of store1 CONFIG_KEY = Some (''blob'', new)" "migrated_config old r new"
    using mig Some by auto
  then have "records = [(CONFIG_KEY, ''blob'', new)]"
    using records by simp
  then obtain actual where actual: "nvs_records (sdk_nvs sdk) store 0 (store_size_of t) [CONFIG_KEY] [] = Inr actual"
    "dict_eq actual [(CONFIG_KEY, ''blob'', new)]"
    using gs by (auto simp: generate_store_def res_simps)
  show ?thesis
    unfolding config_kept_def Some v rd option.case prod.case
    using new actual(1) dict_eq_single [OF actual(2)] by blast
qed

text \<open>
  C2: the migrated store holds the configuration and nothing that was retired.  For a Base source of an older
  layout, the store region of the candidate reads back as exactly the source's configuration record in the
  current version: it is accepted by the version 3 check with the revision of the receipt, and it is
  the old record itself or its conversion with the same settings.  Without a configuration the store is erased.
\<close>

theorem migration_keeps_configuration:
  assumes "prepare sdk a = Inr (receipt, files)"
    and gen: "\<forall>rows n raw. sdk_nvs_generate sdk rows n = Some raw \<longrightarrow> length raw = n"
    and layout: "layout_named (pa_layout a) = Inr layout" "layout \<notin> {c3_mqtt_factory, esp32_at}" "\<not> l_native layout"
  shows "\<exists>candidate offset n store0. last files = Candidate_flash candidate \<and> l_store layout = Some (offset, n) \<and>
    nvs_records (sdk_nvs sdk) (bk_content (pa_backup_a a)) offset n (CONFIG_KEY # RETIRED_KEYS) [] = Inr store0 \<and>
    config_kept sdk (l_target layout) store0 (sr_revision (mr_source receipt)) candidate"
proof -
  obtain flash layout' source_key key records report old_at app bootloader table store candidate where
    steps: "compare_backups (pa_backup_a a) (pa_backup_b a) = Inr flash" "layout_named (pa_layout a) = Inr layout'"
      "inspect_source sdk flash layout' (pa_device_id a) source_key (pa_efuse_mac a) = Inr (records, report, old_at)"
      "check_firmware sdk a (l_target layout') key = Inr (app, bootloader, table)"
    and new_store: "if l_native layout' then \<exists>offset n. l_store layout' = Some (offset, n) \<and> store = pslice flash offset (offset + store_size_of (l_target layout'))
     else generate_store sdk records (store_size_of (l_target layout')) = Inr store"
    and candidate: "if keeps_flash a layout' records then unchanged_native flash layout' (mr_selected_slot receipt) app bootloader table = Inr candidate
     else build_candidate (sdk_parse sdk) (sdk_generate sdk) (cleared_source (pa_layout a) flash) (l_target layout') app bootloader table store old_at
       = Inr candidate"
    and out: "mr_source receipt = report" "last files = Candidate_flash candidate"
    by (rule prepare_steps [OF assms(1)]) blast
  have [simp]: "layout' = layout"
    using layout(1) steps(2) by simp
  note flash = compare_backups_common [OF steps(1)]
  note fw = check_firmware_facts [OF steps(4)]
  have built: "build_candidate (sdk_parse sdk) (sdk_generate sdk) (cleared_source (pa_layout a) flash) (l_target layout) app bootloader table store old_at = Inr candidate"
    and gs: "generate_store sdk records (store_size_of (l_target layout)) = Inr store"
    using candidate new_store layout(3) by (simp_all add: keeps_flash_def)
  have at: "pslice candidate (store_offset (l_target layout)) FLASH_SIZE = store"
    using built_candidate(5) [OF built cleared_source_length [OF flash(4)]] fw prepared_store_length [OF new_store steps(2) flash(4) gen] by simp
  have len: "length store = store_size_of (l_target layout)"
    using generate_store_length [OF gs gen] .
  obtain offset n store0 store1 where src: "l_store layout = Some (offset, n)"
    "nvs_records (sdk_nvs sdk) flash offset n (CONFIG_KEY # RETIRED_KEYS) [] = Inr store0"
    "list_all (\<lambda>(_, kind, _). kind = ''blob'') store0" "migrate_config (l_name layout) store0 = Inr (sr_revision report, store1)"
    "records = kept_records store1"
    using inspect_base_facts [OF steps(3)] layout by auto
  note keys = nvs_records_keys [OF src(2)]
  note mig = migrate_config_facts [OF src(4) keys(1) src(3)]
  have records: "records = (case map_of store1 CONFIG_KEY of None \<Rightarrow> [] | Some v \<Rightarrow> [(CONFIG_KEY, v)])"
    unfolding src(5) by (rule kept_records_config) (use mig(1,2) keys(2) in auto)
  have "store_offset (l_target layout) + store_size_of (l_target layout) = FLASH_SIZE"
    by (simp add: store_size_of_eq store_offset_def FLASH_SIZE_def)
  then have rd: "nvs_records (sdk_nvs sdk) candidate (store_offset (l_target layout)) (store_size_of (l_target layout)) [CONFIG_KEY] [] =
      nvs_records (sdk_nvs sdk) store 0 (store_size_of (l_target layout)) [CONFIG_KEY] []"
    using at len by (intro nvs_records_at) simp_all
  have "config_kept sdk (l_target layout) store0 (sr_revision report) candidate"
    by (rule config_kept_new_store [OF gs records mig(3) at rd])
  then show ?thesis
    using out src(1,2) flash(1) by blast
qed

end
