(* ===== verification/Migration_Run.thy ===== *)
theory Migration_Run
  imports Migration
begin

text \<open>
  One complete migration, evaluated: an ESP32 of the product layout with one valid boot record, one signed
  application, an identity partition with the device UUID and a store with a version 3 configuration.  It
  instantiates the SDK with concrete functions and is the witness of the properties of \<open>Migration\<close>.
\<close>

subsection \<open>The device\<close>

definition run_app :: bytes where
  "run_app = sample_app @ zeros 68"

definition run_config :: bytes where
  "run_config = ascii ''EBCF'' @ [3] @ zeros 35"

definition run_device :: string where
  "run_device = ''3f0c2a1e-5b7d-4e2f-8a9b-0c1d2e3f4a5b''"

definition run_flash :: bytes where
  "run_flash = erased 0x9000 @ replicate 0x6000 1 @ erased 0x1000 @ valid_record 1 @ erased 0xffe0 @ run_app @
     erased 0x3d9e8c @ replicate 0x6000 2"

definition run_entry :: "nat \<Rightarrow> string \<Rightarrow> string \<Rightarrow> bytes \<Rightarrow> nvs_entry" where
  "run_entry i key kind payload = (sample_nvs_entry i key 1 kind)\<lparr>e_span := 2, e_size := length payload,
     e_children := [\<lparr>c_index = i + 1, c_state = ''Written'', c_raw = payload\<rparr>]\<rparr>"

definition run_free :: "nat list" where
  "run_free = [3..<126]"

definition run_page :: "string \<Rightarrow> string \<Rightarrow> string \<Rightarrow> bytes \<Rightarrow> nvs_page list" where
  "run_page ns key kind payload = [sample_page ''Active'' ([sample_nvs_entry 0 ns 0 ''uint8_t'', run_entry 1 key kind payload] @
     map empty_entry run_free), sample_page ''Empty'' []]"

definition run_partitions :: "partition list" where
  "run_partitions = (case expected_partitions esp32_product of
     Inl _ \<Rightarrow> []
   | Inr es \<Rightarrow> map (\<lambda>(name, t, s, offset, n). \<lparr>p_name = name, p_type = t, p_subtype = s, p_offset = offset, p_size = n,
       p_encrypted = False, p_readonly = (name = str ''at_old_raw'')\<rparr>) es)"

definition run_sdk :: sdk where
  "run_sdk = \<lparr>sdk_parse = (\<lambda>_. Some run_partitions), sdk_generate = (\<lambda>_ _. Some []),
     sdk_nvs = (\<lambda>raw. if hd raw = 1 then run_page ''base_identity'' ''device_uuid'' ''string'' (ascii run_device @ [0])
                       else run_page ''base_config'' ''committed'' ''blob'' run_config),
     sdk_nvs_generate = (\<lambda>rows n. Some (replicate n 2)), sdk_verify = (\<lambda>_ _ _. True)\<rparr>"

definition run_backup :: "int \<Rightarrow> backup" where
  "run_backup inode = \<lparr>bk_regular = True, bk_own = True, bk_mode = 256, bk_size = FLASH_SIZE, bk_mtime = 5, bk_identity = (1, inode),
     bk_content = run_flash, bk_after = (FLASH_SIZE, 5)\<rparr>"

definition run_file :: "bytes \<Rightarrow> in_file" where
  "run_file raw = \<lparr>if_regular = True, if_own = True, if_mode = 256, if_size = length raw, if_content = raw, if_unchanged = True\<rparr>"

definition run_args :: prepare_args where
  "run_args = \<lparr>pa_layout = ''esp32_product'', pa_backup_a = run_backup 1, pa_backup_b = run_backup 2, pa_device_id = Some (str run_device),
     pa_efuse_mac = None, pa_source_key = Some (run_file (zeros 64)), pa_key = run_file (zeros 64), pa_app = run_file run_app,
     pa_bootloader = run_file sample_app, pa_table = run_file [], pa_original_state = False\<rparr>"

subsection \<open>Its flash and its records\<close>

lemma run_app_length: "length run_app = 372"
  by (simp add: run_app_def sample_app_length)

lemma run_flash_length: "length run_flash = FLASH_SIZE"
  by (simp add: run_flash_def run_app_length FLASH_SIZE_def)

lemma run_flash_parts:
  "pslice run_flash 0x9000 0xf000 = replicate 0x6000 1"
  "pslice run_flash 0x10000 (0x10000 + 32) = valid_record 1"
  "pslice run_flash 0x11000 (0x11000 + 32) = erased 32"
  "pslice run_flash 0x20000 0x140000 = run_app @ erased (0x120000 - 372)"
  "pslice run_flash 0x140000 0x141000 = erased 0x1000"
  "pslice run_flash 0x3fa000 0x400000 = replicate 0x6000 2"
  by (simp_all add: run_flash_def run_app_length erased_def slice_simps)

lemma compare_loop_same:
  assumes "b = a" and "offset + length a = FLASH_SIZE"
  shows "compare_loop offset contents a b = Inr (contents @ a, [], [])"
  using assms
proof (induction offset contents a b rule: compare_loop.induct)
  case (1 offset contents a b)
  show ?case
  proof (cases "FLASH_SIZE \<le> offset")
    case True
    then have "length a = 0"
      using 1(3) by linarith
    then have "a = []" by simp
    with 1(2) True show ?thesis by (subst compare_loop.simps) simp
  next
    case False
    then have ne: "take 65536 a \<noteq> []"
      using 1(3) by auto
    have "offset + length (take 65536 a) + length (drop 65536 a) = FLASH_SIZE"
      using 1(3) by simp
    then have "compare_loop (offset + length (take 65536 a)) (contents @ take 65536 a) (drop 65536 a) (drop 65536 b) =
        Inr ((contents @ take 65536 a) @ drop 65536 a, [], [])"
      using 1(1) [OF False refl refl _ ne] 1(2) by simp
    then show ?thesis
      using False ne 1(2) by (simp add: compare_loop.simps [of offset] Let_def)
  qed
qed

lemma run_backups: "compare_backups (run_backup 1) (run_backup 2) = Inr run_flash"
  using compare_loop_same [of run_flash run_flash 0 "[]"]
  by (simp add: compare_backups_def private_regular_file_def run_backup_def run_flash_length)

lemma run_page_records:
  assumes "for_each (\<lambda>covered entry. bindE (validate_entry entry) (\<lambda>_. Inr (covered @ entry_indices entry))) [] es = Inr [0, 1, 2]"
    and "filter (\<lambda>e. e_state e = ''Written'') es = es"
    and "for_each namespace_step [] es = Inr [(1, fst k)]" and "for_each (group_step [(1, fst k)]) [] es = Inr [(k, g)]"
    and "group_record g = Inr v" and "k \<in> set allowed"
    and "parse (pslice raw offset (offset + n)) = [sample_page ''Active'' (es @ map empty_entry run_free), sample_page ''Empty'' []]"
  shows "nvs_records parse raw offset n allowed unused = Inr [(k, v)]"
proof -
  have "[0, 1, 2] @ run_free = [0..<126]"
    by (simp add: run_free_def upt_conv_Cons)
  then have "sort ([0, 1, 2] @ run_free) = [0..<126]"
    by (metis sorted_sort_id sorted_upt)
  then have "validate_page (sample_page ''Active'' (es @ map empty_entry run_free)) = Inr ()"
    by (simp add: validate_page_def sample_page_def for_each_append assms(1) empty_entries_covered
        del: append.simps One_nat_def upt_rec_numeral sort_key_simps)
  moreover have "validate_page (sample_page ''Empty'' []) = Inr ()"
    by (simp add: validate_page_def sample_page_def)
  moreover have "filter (\<lambda>e. e_state e = ''Written'') (map empty_entry is) = []" for "is"
    by (simp add: filter_empty_conv empty_entry_def)
  ultimately show ?thesis
    using assms(2-6) unfolding nvs_records_def assms(7) Let_def by (simp add: sample_page_def)
qed

lemma run_identity_records: "identity_records run_sdk run_flash = Inr [(DEVICE_KEY, ''string'', ascii run_device @ [0])]"
  unfolding identity_records_def
proof (rule run_page_records)
  let ?es = "[sample_nvs_entry 0 ''base_identity'' 0 ''uint8_t'', run_entry 1 ''device_uuid'' ''string'' (ascii run_device @ [0])]"
  let ?g = "[run_entry 1 ''device_uuid'' ''string'' (ascii run_device @ [0])]"
  show "for_each (\<lambda>covered entry. bindE (validate_entry entry) (\<lambda>_. Inr (covered @ entry_indices entry))) [] ?es = Inr [0, 1, 2]"
    by code_simp
  show "filter (\<lambda>e. e_state e = ''Written'') ?es = ?es"
    by (simp add: sample_nvs_entry_def run_entry_def)
  show "for_each namespace_step [] ?es = Inr [(1, fst DEVICE_KEY)]"
    by code_simp
  show "for_each (group_step [(1, fst DEVICE_KEY)]) [] ?es = Inr [(DEVICE_KEY, ?g)]"
    by code_simp
  show "group_record ?g = Inr (''string'', ascii run_device @ [0])"
    by code_simp
  show "sdk_nvs run_sdk (pslice run_flash 0x9000 (0x9000 + 0x6000)) = [sample_page ''Active'' (?es @ map empty_entry run_free), sample_page ''Empty'' []]"
    using run_flash_parts(1) by (simp add: run_sdk_def run_page_def)
qed simp

lemma run_config_records:
  assumes "pslice raw offset (offset + n) = replicate 0x6000 2" and "CONFIG_KEY \<in> set allowed"
  shows "nvs_records (sdk_nvs run_sdk) raw offset n allowed unused = Inr [(CONFIG_KEY, ''blob'', run_config)]"
proof (rule run_page_records)
  let ?es = "[sample_nvs_entry 0 ''base_config'' 0 ''uint8_t'', run_entry 1 ''committed'' ''blob'' run_config]"
  let ?g = "[run_entry 1 ''committed'' ''blob'' run_config]"
  show "for_each (\<lambda>covered entry. bindE (validate_entry entry) (\<lambda>_. Inr (covered @ entry_indices entry))) [] ?es = Inr [0, 1, 2]"
    by code_simp
  show "filter (\<lambda>e. e_state e = ''Written'') ?es = ?es"
    by (simp add: sample_nvs_entry_def run_entry_def)
  show "for_each namespace_step [] ?es = Inr [(1, fst CONFIG_KEY)]"
    by code_simp
  show "for_each (group_step [(1, fst CONFIG_KEY)]) [] ?es = Inr [(CONFIG_KEY, ?g)]"
    by code_simp
  show "group_record ?g = Inr (''blob'', run_config)"
    by code_simp
  show "sdk_nvs run_sdk (pslice raw offset (offset + n)) = [sample_page ''Active'' (?es @ map empty_entry run_free), sample_page ''Empty'' []]"
    by (simp add: assms(1) run_sdk_def run_page_def)
qed (fact assms)

lemma run_config_valid: "validate_v3_config run_config = Inr 0"
  by code_simp

lemma run_selection: "ota_selection run_flash esp32_product = Inr (0, [(0, 2)])"
proof -
  have "ota_record_ok run_flash 0x10000" "ota_record run_flash 0x10000 = Some (1, 2)"
    by (rule valid_record_read [OF run_flash_parts(2)]; simp)+
  moreover have "ota_record_ok run_flash 0x11000" "ota_record run_flash 0x11000 = None"
    using run_flash_parts(3) by (simp_all add: ota_record_ok_def ota_record_def)
  ultimately show ?thesis
    by (simp add: ota_selection_eq_Inr records_states_def slot_of_def layout_defs)
qed

subsection \<open>The run\<close>

definition run_table :: entries where
  "run_table = map (\<lambda>p. (p_name p, partition_fields p)) run_partitions"

lemma run_expected:
  "expected_partitions esp32_product = Inr
     [(str ''nvs'', 1, 2, 0x9000, 0x6000), (str ''phy_init'', 1, 1, 0xf000, 0x1000), (str ''otadata'', 1, 0, 0x10000, 0x2000),
      (str ''ota_0'', 0, 0x10, 0x20000, 0x120000), (str ''ota_1'', 0, 0x11, 0x140000, 0x120000),
      (str ''base_store'', 1, 2, 0x3fa000, 0x6000), (str ''coredump'', 1, 3, 0x12000, 0xe000),
      (str ''product_pkgs'', 1, 6, 0x260000, 0x186000), (str ''frp_scratch'', 1, 6, 0x3ea000, 0x10000),
      (str ''at_old_raw'', 1, 6, 0x3e6000, 0x4000)]"
  by (simp add: expected_partitions_def layout_defs)

lemma run_parsed: "parse_table (sdk_parse run_sdk) raw = Inr run_table"
proof -
  have "distinct (map p_name run_partitions)" "list_all (\<lambda>p. \<not> p_encrypted p) run_partitions"
    by (simp_all add: run_partitions_def run_expected)
  then show ?thesis
    by (simp add: parse_table_def run_sdk_def run_table_def)
qed

lemma run_layout: "check_old_layout (sdk_parse run_sdk) (sdk_generate run_sdk) run_flash esp32_product = Inr run_table"
proof -
  have "\<not> l_native esp32_product" "esp32_product \<noteq> esp32_at" "esp32_product \<noteq> c3_mqtt_factory"
    by (simp_all add: layout_defs)
  then show ?thesis
    unfolding check_old_layout_def run_parsed run_expected
    by (simp add: run_table_def run_partitions_def run_expected partition_fields_def)
qed

lemma run_slot: "signed_image (run_app @ pad) Esp32 True True = Inr run_app"
  using signed_image_pad [OF sample_app_signed] sample_app_length by (simp add: run_app_def)

lemma run_inspected:
  "\<exists>report archive. inspect_source run_sdk run_flash esp32_product (Some (str run_device)) (Some (zeros 64)) None =
     Inr ([(CONFIG_KEY, ''blob'', run_config)], report, Some archive) \<and> length archive = 0x5000 \<and> sr_revision report = Some 0"
proof -
  have "esp32_product \<noteq> esp32_at" "esp32_product \<noteq> c3_mqtt_factory" "\<not> l_native esp32_product"
    by (simp_all add: layout_defs)
  moreover have "valid_uuid_text (str run_device)"
    by code_simp
  moreover have "migration_identity run_sdk run_flash (str run_device) = Inr ()"
  proof -
    have "utf8_encode (str run_device) = Some (ascii run_device)" "sdk_types_ok [(DEVICE_KEY, ''string'', ascii run_device @ [0])]"
      "phy_ok migration [(DEVICE_KEY, ''string'', ascii run_device @ [0])] = Inr ()"
      by code_simp+
    then show ?thesis
      by (simp add: migration_identity_def run_identity_records)
  qed
  moreover have "\<exists>report archive. inspect_base run_sdk run_flash esp32_product (str run_device) (Some (zeros 64)) =
     Inr ([(CONFIG_KEY, ''blob'', run_config)], report, Some archive) \<and> length archive = 0x5000 \<and> sr_revision report = Some 0"
  proof -
    have parts: "l_store esp32_product = Some (0x3fa000, 0x6000)" "l_apps esp32_product = Some (0x20000, 0x140000)"
      "l_app_size esp32_product = Some 0x120000" "l_target esp32_product = Esp32" "l_name esp32_product = ''esp32_product''"
      by (simp_all add: layout_defs)
    have records: "nvs_records (sdk_nvs run_sdk) run_flash 0x3fa000 0x6000 (CONFIG_KEY # RETIRED_KEYS) [] = Inr [(CONFIG_KEY, ''blob'', run_config)]"
      using run_flash_parts(6) by (intro run_config_records) simp_all
    have slot0: "old_slot run_sdk (Some (zeros 64)) run_flash esp32_product 0x120000 [(0, 2)] [] (0, 0x20000) = Inr [(0, run_app)]"
      using run_flash_parts(4) run_slot [of "erased (0x120000 - 372)"]
      by (simp add: old_slot_def parts verify_signature_def run_sdk_def)
    have slot1: "old_slot run_sdk (Some (zeros 64)) run_flash esp32_product 0x120000 [(0, 2)] [(0, run_app)] (1, 0x140000) = Inr [(0, run_app)]"
      using run_flash_parts(5) by (simp add: old_slot_def)
    have keys: "map_of [(CONFIG_KEY, ''blob'', run_config)] k = None" if "k \<in> set RETIRED_KEYS" for k
      using that by (auto simp: CONFIG_KEY_def RETIRED_KEYS_def)
    have packages: "old_packages run_flash esp32_product [(CONFIG_KEY, ''blob'', run_config)] [(0, run_app)] = Inr None"
      using keys by (simp add: old_packages_def RETIRED_KEYS_def)
    have operation: "operation_terminal [(CONFIG_KEY, ''blob'', run_config)] f = Inr None" for f
      using keys [of NATIVE_OPERATION_KEY] by (simp add: operation_terminal_def RETIRED_KEYS_def NATIVE_OPERATION_KEY_def)
    have config: "migrate_config ''esp32_product'' [(CONFIG_KEY, ''blob'', run_config)] = Inr (Some 0, [(CONFIG_KEY, ''blob'', run_config)])"
      by (simp add: migrate_config_def run_config_valid)
    have kept: "kept_records [(CONFIG_KEY, ''blob'', run_config)] = [(CONFIG_KEY, ''blob'', run_config)]"
      by (simp add: kept_records_def CONFIG_KEY_def RETIRED_KEYS_def)
    have "length (widened_archive run_flash) = 0x5000"
      using run_flash_length by (simp add: widened_archive_def FLASH_SIZE_def Let_def)
    then show ?thesis
      by (simp add: inspect_base_def parts records config run_selection slot0 slot1 [simplified] packages operation kept bare_report_def)
  qed
  ultimately show ?thesis
    by (simp add: inspect_source_def run_layout)
qed

lemma contains_middle: "contains pat (pre @ pat @ post)"
proof (induction pre)
  case Nil
  have "take (length pat) (pat @ post) = pat" by simp
  then show ?case by (cases "pat @ post") (auto simp del: take_append)
qed simp

lemma run_key_embedded: "contains (zeros 64) sample_app" "contains (zeros 64) run_app"
proof -
  have "zeros 208 = zeros 64 @ zeros 144"
    by (simp add: zeros_def flip: replicate_add)
  then obtain pre post where split: "sample_app = pre @ zeros 64 @ post"
    unfolding sample_app_def by (metis append.assoc)
  show "contains (zeros 64) sample_app"
    unfolding split by (rule contains_middle)
  show "contains (zeros 64) run_app"
    unfolding run_app_def split append.assoc by (rule contains_middle)
qed

lemma run_read: "length raw \<le> maximum \<Longrightarrow> read_file (run_file raw) False maximum = Inr raw"
  by (simp add: read_file_def run_file_def)

lemma run_firmware: "check_firmware run_sdk run_args Esp32 (zeros 64) = Inr (run_app, sample_app, [])"
proof -
  have files: "pa_app run_args = run_file run_app" "pa_bootloader run_args = run_file sample_app" "pa_table run_args = run_file []"
    by (simp_all add: run_args_def)
  have verified: "sdk_verify run_sdk k t raw" for k t raw
    by (simp add: run_sdk_def)
  show ?thesis
    using run_slot [of "[]"] sample_app_boot run_key_embedded
    by (simp add: check_firmware_def files run_read run_app_length sample_app_length layout_simps verify_signature_def verified)
qed

lemma run_built:
  assumes "length archive = 0x5000"
  shows "\<exists>candidate. build_candidate (sdk_parse run_sdk) (sdk_generate run_sdk) source Esp32 run_app sample_app [] store (Some archive) = Inr candidate"
proof -
  have "bootloader_ok Esp32 sample_app"
    using sample_app_header sample_app_length by (simp add: bootloader_ok_def image_header_ok_def offset_defs layout_simps)
  moreover have "archive_writes Esp32 (Some archive) = Inr [(0x3e5000, 0x3ea000, archive)]"
    using assms by (simp add: archive_writes_def ARCHIVE_SIZE_val)
  moreover have "table_from_csv (sdk_generate run_sdk) path b = Inr []" for path b
    by (simp add: table_from_csv_def run_sdk_def)
  ultimately show ?thesis
    by (simp add: build_candidate_def run_parsed dict_eq_def)
qed

lemma run_store: "generate_store run_sdk [(CONFIG_KEY, ''blob'', run_config)] 0x6000 = Inr (replicate 0x6000 2)"
proof -
  have "pslice (replicate 0x6000 2) 0 (0 + 0x6000) = replicate 0x6000 (2 :: 8 word)"
    by (simp add: slice_simps)
  note read = run_config_records [OF this, of "[CONFIG_KEY]" "[]", simplified]
  have "\<exists>rows. store_rows [(CONFIG_KEY, ''blob'', run_config)] = Inr rows"
    by (simp add: store_rows_def CONFIG_KEY_def)
  moreover have "sdk_nvs_generate run_sdk rows 0x6000 = Some (replicate 0x6000 2)" for rows
    by (simp add: run_sdk_def)
  ultimately show ?thesis
    using read by (auto simp: generate_store_def dict_eq_def)
qed

lemma run_prepared:
  "\<exists>receipt files. prepare run_sdk run_args = Inr (receipt, files) \<and> mr_target receipt = Esp32 \<and> mr_selected_slot receipt = 1 \<and>
     sr_revision (mr_source receipt) = Some 0 \<and>
     (\<exists>archive candidate. files = [Source_flash run_flash, Receipt_file receipt, Old_at archive, Candidate_flash candidate] \<and> length archive = 0x5000 \<and>
       length candidate = FLASH_SIZE)"
proof -
  obtain report archive where inspected: "inspect_source run_sdk run_flash esp32_product (Some (str run_device)) (Some (zeros 64)) None =
     Inr ([(CONFIG_KEY, ''blob'', run_config)], report, Some archive)" "length archive = 0x5000" "sr_revision report = Some 0"
    using run_inspected by blast
  obtain candidate where built: "build_candidate (sdk_parse run_sdk) (sdk_generate run_sdk) (cleared_source ''esp32_product'' run_flash) Esp32 run_app sample_app []
      (replicate 0x6000 2) (Some archive) = Inr candidate"
    using run_built [OF inspected(2)] by blast
  have "length (replicate 0x6000 (2 :: 8 word)) = FLASH_SIZE - store_offset Esp32"
    by (simp add: FLASH_SIZE_def store_offset_def)
  then have sized: "length candidate = FLASH_SIZE"
    using built_candidate [OF built cleared_source_length [OF run_flash_length] check_firmware_facts(3) [OF run_firmware] _ check_firmware_facts(1) [OF run_firmware]]
    by simp
  have layout: "layout_named ''esp32_product'' = Inr esp32_product" "l_target esp32_product = Esp32" "\<not> l_native esp32_product"
    by (simp_all add: layout_named_def LAYOUTS_def layout_defs)
  have args: "pa_layout run_args = ''esp32_product''" "pa_backup_a run_args = run_backup 1" "pa_backup_b run_args = run_backup 2"
    "pa_device_id run_args = Some (str run_device)" "pa_efuse_mac run_args = None" "pa_source_key run_args = Some (run_file (zeros 64))"
    "pa_key run_args = run_file (zeros 64)" "\<not> pa_original_state run_args"
    by (simp_all add: run_args_def)
  show ?thesis
    by (simp add: prepare_def args run_backups [simplified] layout run_read inspected(1,2,3) run_firmware run_store built sized)
qed

subsection \<open>The properties at this run\<close>

lemma run_generates: "\<forall>rows n raw. sdk_nvs_generate run_sdk rows n = Some raw \<longrightarrow> length raw = n"
  by (simp add: run_sdk_def)

theorem migration_boots_checked_app_witness:
  "\<exists>receipt files candidate states. prepare run_sdk run_args = Inr (receipt, files) \<and> last files = Candidate_flash candidate \<and>
     length candidate = FLASH_SIZE \<and> ota_selection candidate (native_layout Esp32) = Inr (1, states) \<and>
     pslice candidate 0x9000 0xf000 = replicate 0x6000 1"
proof -
  obtain receipt files where run: "prepare run_sdk run_args = Inr (receipt, files)" "mr_target receipt = Esp32" "mr_selected_slot receipt = 1"
    using run_prepared by blast
  have "bk_content (pa_backup_a run_args) = run_flash" "pa_layout run_args \<noteq> ''esp32_at''"
    by (simp_all add: run_args_def run_backup_def)
  then show ?thesis
    using migration_boots_checked_app [OF run(1) run_generates] run run_flash_parts(1) by fastforce
qed

theorem migration_keeps_configuration_witness:
  "\<exists>receipt files candidate actual new. prepare run_sdk run_args = Inr (receipt, files) \<and> last files = Candidate_flash candidate \<and>
     nvs_records (sdk_nvs run_sdk) candidate 0x3fa000 0x6000 [CONFIG_KEY] [] = Inr actual \<and>
     map_of actual CONFIG_KEY = Some (''blob'', new) \<and> validate_v3_config new = Inr 0"
proof -
  obtain receipt files where run: "prepare run_sdk run_args = Inr (receipt, files)" "sr_revision (mr_source receipt) = Some 0"
    using run_prepared by blast
  have args: "bk_content (pa_backup_a run_args) = run_flash" "layout_named (pa_layout run_args) = Inr esp32_product"
    by (simp_all add: run_args_def run_backup_def layout_named_def LAYOUTS_def layout_defs)
  have layout: "esp32_product \<notin> {c3_mqtt_factory, esp32_at}" "\<not> l_native esp32_product" "l_store esp32_product = Some (0x3fa000, 0x6000)"
    "l_target esp32_product = Esp32"
    by (simp_all add: layout_defs)
  have source: "nvs_records (sdk_nvs run_sdk) run_flash 0x3fa000 0x6000 (CONFIG_KEY # RETIRED_KEYS) [] = Inr [(CONFIG_KEY, ''blob'', run_config)]"
    using run_flash_parts(6) by (intro run_config_records) simp_all
  obtain candidate where candidate: "last files = Candidate_flash candidate"
    "config_kept run_sdk Esp32 [(CONFIG_KEY, ''blob'', run_config)] (Some 0) candidate"
    using migration_keeps_configuration [OF run(1) run_generates args(2) layout(1,2)] args(1) layout(3,4) source run(2) by auto
  have "store_offset Esp32 = 0x3fa000" "store_size_of Esp32 = 0x6000"
    by (simp_all add: store_offset_def store_size_of_def)
  then show ?thesis
    using candidate run(1) by (auto simp: config_kept_def migrated_config_def)
qed

end
