(* ===== verification/Build_Identity.thy ===== *)
theory Build_Identity
  imports Json_Text Image
begin

text \<open>
  The identity of a firmware build (\<^verbatim>\<open>build_identity.py\<close>): the JSON text of its files, the choice
  between a formal identity of the Core and a local one (\<^verbatim>\<open>resolve\<close>), the 320-byte descriptor that is compiled
  into the image, the generated sources and their preparation in a directory, and the inspection of
  an image for exactly one identity.

  The Core (\<^verbatim>\<open>package_identity.py\<close> of another repository) and git are parameters: \<open>core\<close> is the decoded
  answer of the Core to the command line it is given, \<open>sources_ok\<close> what \<^verbatim>\<open>validate_source_inputs\<close> returns or raises.  The
  environment variables are a function; \<open>release\<close> is the decoded \<^verbatim>\<open>release.json\<close>.

  Lemmas: the fixed-width fields determine their texts, so the descriptor determines the identity; the
  preparation in verify mode changes no file.
\<close>

subsection \<open>Texts\<close>

definition encoded :: "pyval \<Rightarrow> bytes" where
  "encoded v = map word_of_nat (json_dumps (sorted_keys v) @ [10])"

definition decode_pairs :: "(pystr \<times> pyval) list \<Rightarrow> (pystr \<times> pyval) list res" where
  "decode_pairs items = for_each (\<lambda>result (key, item).
     if key \<in> set (map fst result) then Inl (Raise ValueError ''repeated field'') else Inr (result @ [(key, item)])) [] items"

definition decode_constant :: "pystr \<Rightarrow> pyval res" where
  "decode_constant _ = Inl (Raise ValueError ''not a finite number'')"

definition number_text :: "pystr \<Rightarrow> bool" where
  "number_text s = (case s of [] \<Rightarrow> False | c # cs \<Rightarrow> s = [48] \<or> 49 \<le> c \<and> c \<le> 57 \<and> list_all is_digit cs)"

definition version_text :: "pystr \<Rightarrow> bool" where
  "version_text s = (case split_on 46 s of [a, b, c] \<Rightarrow> number_text a \<and> number_text b \<and> number_text c | _ \<Rightarrow> False)"

definition LAB_SUFFIX :: pystr where
  "LAB_SUFFIX = str ''-capacity-lab''"

definition build_version_text :: "pystr \<Rightarrow> bool" where
  "build_version_text s = (let n = length s - length LAB_SUFFIX in
     version_text s \<or> drop n s = LAB_SUFFIX \<and> version_text (take n s))"

definition run_id_char :: "nat \<Rightarrow> bool" where
  "run_id_char c = (97 \<le> c \<and> c \<le> 122 \<or> is_digit c \<or> c = 95)"

definition run_id_text :: "pystr \<Rightarrow> bool" where
  "run_id_text s = (case s of [] \<Rightarrow> False
     | c # cs \<Rightarrow> run_id_char c \<and> list_all (\<lambda>d. run_id_char d \<or> d = 46 \<or> d = 45) cs)"

definition lower_hex_text :: "nat \<Rightarrow> pystr \<Rightarrow> bool" where
  "lower_hex_text n s = (length s = n \<and> list_all is_lower_hex s)"

subsection \<open>The descriptor\<close>

definition target_name :: "target \<Rightarrow> string" where
  "target_name t = (case t of Esp32c3 \<Rightarrow> ''esp32c3'' | Esp32 \<Rightarrow> ''esp32'')"

definition architecture :: "target \<Rightarrow> string" where
  "architecture t = (case t of Esp32c3 \<Rightarrow> ''riscv32'' | Esp32 \<Rightarrow> ''xtensa'')"

definition MAGIC :: nat where "MAGIC = 0x31424245"
definition DESCRIPTOR_SIZE :: nat where [layout_simps]: "DESCRIPTOR_SIZE = 320"
definition MAX_NUMBER :: int where "MAX_NUMBER = 9007199254740991"

definition fixed :: "pystr \<Rightarrow> nat \<Rightarrow> bytes res" where
  "fixed text width =
     bindE (of_option (Raise UnicodeError ''encode'') (ascii_encode text)) (\<lambda>raw.
     require (length raw < width \<and> 0 \<notin> set raw) (Raise ValueError ''identity field exceeds its width'')
     (Inr (raw @ zeros (width - length raw))))"

definition text_field :: "(pystr \<times> pyval) list \<Rightarrow> string \<Rightarrow> pystr \<Rightarrow> pystr res" where
  "text_field d key absent = (case map_of d (str key) of
      None \<Rightarrow> Inr absent
    | Some (PStr s) \<Rightarrow> Inr s
    | Some _ \<Rightarrow> Inl (Raise TypeError key))"

definition LOCAL_KEYS :: "string list" where
  "LOCAL_KEYS = [''version'', ''platform'', ''application_id'', ''architecture'', ''variant'', ''local_validation'', ''run_id'']"

definition FORMAL_KEYS :: "string list" where
  "FORMAL_KEYS = LOCAL_KEYS @ [''build_number'', ''source_commit_sha'', ''input_sha256'']"

definition identity_error :: exn where
  "identity_error = Raise ValueError ''identity, version or target differ''"

definition identity_fields :: "(pystr \<times> pyval) list \<Rightarrow> target \<Rightarrow> (bool \<times> pystr) res" where
  "identity_fields d t = (case map_of d (str ''local_validation'') of
      Some (PBool local) \<Rightarrow>
        require (keys_are d (if local then LOCAL_KEYS else FORMAL_KEYS) \<and>
                 map_of d (str ''platform'') = Some (PStr (str ''firmware'')) \<and>
                 map_of d (str ''application_id'') = Some (PStr (str ''esp-base'')) \<and>
                 map_of d (str ''variant'') = Some (PStr (str (target_name t))) \<and>
                 map_of d (str ''architecture'') = Some (PStr (str (architecture t)))) identity_error
        (case map_of d (str ''version'') of
           Some (PStr version) \<Rightarrow> require (build_version_text version) identity_error (Inr (local, version))
         | _ \<Rightarrow> Inl identity_error)
    | _ \<Rightarrow> Inl identity_error)"

definition formal_error :: exn where
  "formal_error = Raise ValueError ''formal number or frozen source invalid''"

definition build_number :: "(pystr \<times> pyval) list \<Rightarrow> bool \<Rightarrow> pystr \<Rightarrow> nat res" where
  "build_number d local version =
     (if local then require (map_of d (str ''run_id'') = Some (PStr [])) (Raise ValueError ''local identity with a run'') (Inr 0)
      else (case map_of d (str ''build_number'') of
          Some (PInt n) \<Rightarrow>
            require (1 \<le> n \<and> n \<le> MAX_NUMBER \<and> 45 \<notin> set version) formal_error
            (bindE (text_field d ''run_id'' []) (\<lambda>run. require (run_id_text run) formal_error
            (bindE (text_field d ''source_commit_sha'' []) (\<lambda>source. require (lower_hex_text 40 source) formal_error
            (bindE (text_field d ''input_sha256'' []) (\<lambda>inputs. require (lower_hex_text 64 inputs) formal_error
            (Inr (nat n))))))))
        | _ \<Rightarrow> Inl formal_error))"

definition descriptor_of :: "(pystr \<times> pyval) list \<Rightarrow> target \<Rightarrow> bytes res" where
  "descriptor_of d t =
     bindE (identity_fields d t) (\<lambda>(local, version).
     bindE (build_number d local version) (\<lambda>number.
     bindE (fixed version 32) (\<lambda>version_field.
     bindE (bindE (text_field d ''source_commit_sha'' []) (\<lambda>s. fixed s 41)) (\<lambda>source_field.
     bindE (bindE (text_field d ''input_sha256'' []) (\<lambda>s. fixed s 65)) (\<lambda>input_field.
     bindE (bindE (text_field d ''run_id'' []) (\<lambda>s. fixed s 128)) (\<lambda>run_field.
     bindE (fixed (str (target_name t)) 16) (\<lambda>target_field.
     Inr (to_le 4 MAGIC @ to_le 4 DESCRIPTOR_SIZE @ to_le 8 number @ to_le 4 1 @ to_le 4 (if local then 1 else 0) @
          version_field @ source_field @ input_field @ run_field @ target_field @ zeros 14))))))))"

definition descriptor_bytes :: "pyval \<Rightarrow> target \<Rightarrow> bytes res" where
  "descriptor_bytes value t = bindE (as_dict (Raise AttributeError ''get'') value) (\<lambda>d. descriptor_of d t)"

subsection \<open>Inspection of an image\<close>

fun walk_segments :: "bytes \<Rightarrow> nat \<Rightarrow> nat \<Rightarrow> unit res" where
  "walk_segments data 0 offset = Inr ()"
| "walk_segments data (Suc n) offset =
     require (offset + 8 \<le> length data) (Raise ValueError ''segment header cut off'')
     (let offset' = offset + 8 + u32 data (offset + 4) in
      require (offset' \<le> length data) (Raise ValueError ''segment body cut off'') (walk_segments data n offset'))"

definition native_version :: "(pystr \<times> pyval) list \<Rightarrow> bytes res" where
  "native_version d =
     bindE (py_getitem d ''version'') (\<lambda>v. bindE (as_text (Raise AttributeError ''encode'') v) (\<lambda>s. fixed s 32))"

definition inspect_image :: "bytes \<Rightarrow> pyval \<Rightarrow> target \<Rightarrow> pyval res" where
  "inspect_image data value t =
     require (32 + 256 + DESCRIPTOR_SIZE \<le> length data \<and> data ! 0 = 0xe9 \<and> 1 \<le> unat (data ! 1) \<and> unat (data ! 1) \<le> 16)
       (Raise ValueError ''image header or length'')
     (require (from_le (pslice data 12 14) = chip_id t) (Raise ValueError ''image of another chip'')
     (require (256 + DESCRIPTOR_SIZE \<le> u32 data 28) (Raise ValueError ''first segment without identity'')
     (bindE (walk_segments data (unat (data ! 1)) 24) (\<lambda>_.
      require (u32 data 32 = 0xabcd5432) (Raise ValueError ''app descriptor'')
      (bindE (as_dict (Raise TypeError ''version'') value) (\<lambda>d.
       bindE (native_version d) (\<lambda>version_field.
       require (pslice data 48 80 = version_field) (Raise ValueError ''native version'')
       (bindE (fixed (str ''esp_base'') 32) (\<lambda>name_field.
        require (pslice data 80 112 = name_field) (Raise ValueError ''native product'')
        (bindE (descriptor_bytes value t) (\<lambda>descriptor.
         require (pslice data 288 (288 + DESCRIPTOR_SIZE) = descriptor) (Raise ValueError ''embedded identity'') (Inr value))))))))))))"

subsection \<open>The generated files\<close>

text \<open>\<^verbatim>\<open>f"{value}"\<close> of a number, and \<^verbatim>\<open>json.dumps\<close> of a text.\<close>

definition source_prefix :: string where
  "source_prefix = ''// Generated from the current build identity; do not edit.'' @ [CHR 0x0A] @
     ''#include '' @ [CHR 0x22] @ ''esp_base_build.h'' @ [CHR 0x22, CHR 0x0A] @
     ''#ifdef __APPLE__'' @ [CHR 0x0A] @
     ''#define BUILD_SECTION '' @ [CHR 0x22] @ ''__DATA_CONST,__esp_base_build'' @ [CHR 0x22, CHR 0x0A] @
     ''#else'' @ [CHR 0x0A] @ ''#define BUILD_SECTION '' @ [CHR 0x22] @ ''.rodata_custom_desc'' @ [CHR 0x22, CHR 0x0A] @ ''#endif'' @ [CHR 0x0A] @
     ''const __attribute__((section(BUILD_SECTION), used)) esp_base_build_t esp_base_build = {'' @ [CHR 0x0A]"

definition source_text :: "(pystr \<times> pyval) list \<Rightarrow> target \<Rightarrow> pystr res" where
  "source_text d t =
     bindE (for_each (\<lambda>out field. bindE (text_field d field []) (\<lambda>s. Inr (out @ str (''    .'' @ field @ '' = '') @ json_str s @ str '','' @ [10])))
       [] [''version'', ''source_commit_sha'', ''input_sha256'', ''run_id'']) (\<lambda>fields.
     Inr (str source_prefix @
          str ''    .magic = '' @ decimal MAGIC @ str ''U, .size = 320U, .schema_version = 1U,'' @ [10] @
          str ''    .build_number = UINT64_C('' @ (case map_of d (str ''build_number'') of Some (PInt n) \<Rightarrow> decimal (nat n) | _ \<Rightarrow> decimal 0) @ str ''),'' @ [10] @
          str ''    .local_validation = '' @ (if map_of d (str ''local_validation'') = Some (PBool True) then str ''1'' else str ''0'') @ str ''U,'' @ [10] @
          fields @ str ''    .target = '' @ json_str (str (target_name t)) @ str '','' @ [10] @ str ''};'' @ [10]))"

definition generated :: "pyval \<Rightarrow> target \<Rightarrow> (string \<times> bytes) list res" where
  "generated value t =
     bindE (descriptor_bytes value t) (\<lambda>_.
     bindE (as_dict (Raise AttributeError ''get'') value) (\<lambda>d.
     bindE (source_text d t) (\<lambda>source.
     bindE (text_field d ''version'' []) (\<lambda>version.
     Inr [(''build.json'', encoded value), (''esp_base_build.c'', map word_of_nat source),
          (''identity.cmake'', map word_of_nat (str ''set(PROJECT_VER '' @ [34] @ version @ [34] @ str '')'' @ [10]))]))))"

subsection \<open>Preparation of a directory\<close>

datatype node = Absent | Link | File bytes | Directory

type_synonym files = "string \<Rightarrow> node"

definition prepare_file :: "bool \<Rightarrow> files \<Rightarrow> string \<times> bytes \<Rightarrow> unit res \<times> files" where
  "prepare_file verify files = (\<lambda>(name, data).
     let different = (if verify then (Inl (Raise ValueError ''identity or generated bytes changed''), files)
                      else (Inr (), files(name := File data))) in
     (case files name of
        Link \<Rightarrow> (Inl (Raise ValueError ''generated file is a link''), files)
      | Directory \<Rightarrow> (Inl (Raise OSError name), files)
      | Absent \<Rightarrow> different
      | File old \<Rightarrow> if old = data then (Inr (), files) else different))"

fun prepare_files :: "bool \<Rightarrow> files \<Rightarrow> (string \<times> bytes) list \<Rightarrow> unit res \<times> files" where
  "prepare_files verify files [] = (Inr (), files)"
| "prepare_files verify files (f # fs) = (case prepare_file verify files f of
     (Inl e, files') \<Rightarrow> (Inl e, files')
   | (Inr _, files') \<Rightarrow> prepare_files verify files' fs)"

text \<open>The node of the directory itself, and its files.  An absent directory holds no files; it is created unless verifying.\<close>

definition prepare_identity :: "node \<Rightarrow> files \<Rightarrow> pyval \<Rightarrow> target \<Rightarrow> bool \<Rightarrow> unit res \<times> files" where
  "prepare_identity directory files value t verify =
     (if directory = Link then (Inl (Raise ValueError ''generated directory is a link''), files)
      else if \<not> verify \<and> (\<exists>raw. directory = File raw) then (Inl (Raise OSError ''mkdir''), files)
      else (case generated value t of
          Inl e \<Rightarrow> (Inl e, files)
        | Inr outputs \<Rightarrow> prepare_files verify files outputs))"

subsection \<open>Resolution of the identity\<close>

definition FORMAL_VARIABLES :: "string list" where
  "FORMAL_VARIABLES = [''FAST_DEPLOY_RUN_ID'', ''FAST_DEPLOY_CLIENT_VERSION_SNAPSHOT_FILE'', ''FAST_DEPLOY_PACKAGE_CORE_ROOT'',
     ''FAST_DEPLOY_SOURCE_REF'', ''FAST_DEPLOY_RESOLVED_COMMIT_SHA'', ''FAST_DEPLOY_CORE_COMMIT_SHA'']"

definition env_text :: "(string \<Rightarrow> pystr option) \<Rightarrow> string \<Rightarrow> pystr" where
  "env_text env key = (case env key of None \<Rightarrow> [] | Some s \<Rightarrow> s)"

definition is_absolute :: "pystr \<Rightarrow> bool" where
  "is_absolute path = (take 1 path = [47])"

definition release_version :: "pyval \<Rightarrow> pystr res" where
  "release_version release = (case release of
      PDict d \<Rightarrow>
        require (keys_are d [''version'']) (Raise ValueError ''release.json'')
        (case map_of d (str ''version'') of
           Some (PStr version) \<Rightarrow> require (version_text version) (Raise ValueError ''release.json'') (Inr version)
         | _ \<Rightarrow> Inl (Raise ValueError ''release.json''))
    | PStr s \<Rightarrow> Inl (Raise ValueError ''release.json'')
    | PList vs \<Rightarrow> Inl (Raise (if list_ex (\<lambda>v. case v of PList _ \<Rightarrow> True | PDict _ \<Rightarrow> True | _ \<Rightarrow> False) vs \<or> set vs = {PStr (str ''version'')}
                              then TypeError else ValueError) ''release.json'')
    | _ \<Rightarrow> Inl (Raise TypeError ''release.json''))"

definition core_command :: "target \<Rightarrow> string list" where
  "core_command t = [''resolve'', ''--platform'', ''firmware'', ''--application-id'', ''esp-base'', ''--architecture'', architecture t,
     ''--variant'', target_name t]"

definition local_identity :: "pystr \<Rightarrow> pystr \<Rightarrow> target \<Rightarrow> pyval" where
  "local_identity version suffix t = PDict [(str ''version'', PStr (version @ suffix)), (str ''platform'', PStr (str ''firmware'')),
     (str ''application_id'', PStr (str ''esp-base'')), (str ''architecture'', PStr (str (architecture t))),
     (str ''variant'', PStr (str (target_name t))), (str ''local_validation'', PBool True), (str ''run_id'', PStr [])]"

definition resolve ::
  "(string \<Rightarrow> pystr option) \<Rightarrow> pyval res \<Rightarrow> (pystr \<Rightarrow> string list \<Rightarrow> pyval res) \<Rightarrow> unit res \<Rightarrow> target \<Rightarrow> pystr \<Rightarrow> pyval res" where
  "resolve env release core sources_ok t suffix =
     bindE (bindE release release_version) (\<lambda>version.
     require (suffix = [] \<or> suffix = LAB_SUFFIX) (Raise ValueError ''unknown suffix'')
     (bindE
        (if list_ex (\<lambda>key. env_text env key \<noteq> []) FORMAL_VARIABLES then
           (let root = env_text env ''FAST_DEPLOY_PACKAGE_CORE_ROOT'' in
            require (is_absolute root) (Raise ValueError ''formal input without Core root'')
            (bindE (core root (core_command t)) (\<lambda>value.
             bindE (as_dict (Raise AttributeError ''get'') value) (\<lambda>d.
             require (map_of d (str ''local_validation'') = Some (PBool False) \<and> map_of d (str ''version'') = Some (PStr version) \<and> suffix = [])
               (Raise ValueError ''formal build fell back'')
               (bindE sources_ok (\<lambda>_. Inr value))))))
         else Inr (local_identity version suffix t)) (\<lambda>value.
      bindE (descriptor_bytes value t) (\<lambda>_. Inr value))))"

subsection \<open>The fields determine the identity\<close>

lemma fixed_eq_Inr:
  "fixed text width = Inr field \<longleftrightarrow>
     (\<exists>raw. ascii_encode text = Some raw \<and> length raw < width \<and> 0 \<notin> set raw \<and> field = raw @ zeros (width - length raw))"
  by (auto simp: fixed_def res_simps)

lemma fixed_length: "fixed text width = Inr field \<Longrightarrow> length field = width"
  by (auto simp: fixed_eq_Inr)

lemma fixed_raw:
  assumes "fixed text width = Inr field"
  shows "ascii_encode text = Some (takeWhile (\<lambda>b. b \<noteq> 0) field)"
proof -
  obtain raw where raw: "ascii_encode text = Some raw" "length raw < width" "0 \<notin> set raw" "field = raw @ zeros (width - length raw)"
    using assms by (auto simp: fixed_eq_Inr)
  then have "takeWhile (\<lambda>b. b \<noteq> 0) (zeros (width - length raw)) = []"
    by (simp add: zeros_def)
  moreover have "\<forall>b \<in> set raw. b \<noteq> 0"
    using raw(3) by auto
  ultimately show ?thesis
    using raw(1,4) by (simp add: takeWhile_append2)
qed

lemma fixed_inj: "fixed a width = Inr field \<Longrightarrow> fixed b width = Inr field \<Longrightarrow> a = b"
  using fixed_raw [of a width field] fixed_raw [of b width field] ascii_text.enc_inj by metis

text \<open>What a descriptor stands for, as a typed value, with its dictionary and its bytes.\<close>

record build_id =
  bi_target :: target
  bi_local :: bool
  bi_version :: pystr
  bi_number :: nat
  bi_run :: pystr
  bi_source :: pystr
  bi_inputs :: pystr

definition identity_dict :: "build_id \<Rightarrow> (pystr \<times> pyval) list" where
  "identity_dict b =
     [(str ''version'', PStr (bi_version b)), (str ''platform'', PStr (str ''firmware'')),
      (str ''application_id'', PStr (str ''esp-base'')), (str ''architecture'', PStr (str (architecture (bi_target b)))),
      (str ''variant'', PStr (str (target_name (bi_target b)))), (str ''local_validation'', PBool (bi_local b)),
      (str ''run_id'', PStr (bi_run b))] @
     (if bi_local b then []
      else [(str ''build_number'', PInt (int (bi_number b))), (str ''source_commit_sha'', PStr (bi_source b)),
            (str ''input_sha256'', PStr (bi_inputs b))])"

definition id_fields :: "build_id \<Rightarrow> (pystr \<times> nat) list" where
  "id_fields b = [(bi_version b, 32), (bi_source b, 41), (bi_inputs b, 65), (bi_run b, 128), (str (target_name (bi_target b)), 16)]"

definition wf_id :: "build_id \<Rightarrow> bool" where
  "wf_id b = (bi_number b < 256 ^ 8 \<and> (bi_local b \<longrightarrow> bi_number b = 0 \<and> bi_run b = [] \<and> bi_source b = [] \<and> bi_inputs b = []))"

definition packs_to :: "build_id \<Rightarrow> bytes \<Rightarrow> bool" where
  "packs_to b raw = (\<exists>fs. list_all2 (\<lambda>(text, width) field. fixed text width = Inr field) (id_fields b) fs \<and>
     raw = (to_le 4 MAGIC @ to_le 4 DESCRIPTOR_SIZE @ to_le 8 (bi_number b) @ to_le 4 1 @ to_le 4 (if bi_local b then 1 else 0)) @ concat fs @ zeros 14)"

lemma fields_inj:
  assumes "list_all2 (\<lambda>(text, width) field. fixed text width = Inr field) xs fs"
    and "list_all2 (\<lambda>(text, width) field. fixed text width = Inr field) ys gs"
    and "map snd xs = map snd ys" and "concat fs @ r = concat gs @ r'"
  shows "xs = ys"
  using assms
proof (induction xs arbitrary: ys fs gs)
  case (Cons x xs)
  obtain s width where x: "x = (s, width)" by fastforce
  obtain s' ys' where y: "ys = (s', width) # ys'" "map snd xs = map snd ys'"
    using Cons.prems(3) x by (cases ys) auto
  obtain f fs' where f: "fs = f # fs'" "fixed s width = Inr f" "list_all2 (\<lambda>(text, width) field. fixed text width = Inr field) xs fs'"
    using Cons.prems(1) x by (auto simp: list_all2_Cons1)
  obtain g gs' where g: "gs = g # gs'" "fixed s' width = Inr g" "list_all2 (\<lambda>(text, width) field. fixed text width = Inr field) ys' gs'"
    using Cons.prems(2) y by (auto simp: list_all2_Cons1)
  have "length f = length g"
    using fixed_length f(2) g(2) by metis
  then have "f = g" "concat fs' @ r = concat gs' @ r'"
    using Cons.prems(4) f(1) g(1) by auto
  then show ?case
    using Cons.IH [OF f(3) g(3) y(2)] fixed_inj f(2) g(2) x y(1) by auto
qed simp

lemma packs_inj:
  assumes "packs_to a raw" and "packs_to b raw" and "wf_id a" and "wf_id b"
  shows "a = b"
proof -
  let ?head = "\<lambda>b. to_le 4 MAGIC @ to_le 4 DESCRIPTOR_SIZE @ to_le 8 (bi_number b) @ to_le 4 1 @ to_le 4 (if bi_local b then 1 else 0)"
  obtain fs gs where fs: "list_all2 (\<lambda>(text, width) field. fixed text width = Inr field) (id_fields a) fs" "raw = ?head a @ concat fs @ zeros 14"
    and gs: "list_all2 (\<lambda>(text, width) field. fixed text width = Inr field) (id_fields b) gs" "raw = ?head b @ concat gs @ zeros 14"
    using assms(1,2) by (auto simp: packs_to_def)
  have split: "?head a = ?head b" "concat fs @ zeros 14 = concat gs @ zeros 14"
    using fs(2) gs(2) by (auto dest!: append_eq_append_conv [THEN iffD1, rotated])
  have "id_fields a = id_fields b"
    by (rule fields_inj [OF fs(1) gs(1) _ split(2)]) (simp add: id_fields_def)
  then have texts: "bi_version a = bi_version b" "bi_source a = bi_source b" "bi_inputs a = bi_inputs b" "bi_run a = bi_run b"
    "target_name (bi_target a) = target_name (bi_target b)"
    by (simp_all add: id_fields_def str_inj_iff)
  have "from_le (to_le 8 (bi_number a)) = from_le (to_le 8 (bi_number b))"
    using split(1) by simp
  then have "bi_number a = bi_number b"
    using assms(3,4) from_le_to_le by (simp add: wf_id_def)
  moreover have "from_le (to_le 4 (if bi_local a then 1 else 0)) = from_le (to_le 4 (if bi_local b then 1 else 0))"
    using split(1) by simp
  then have "bi_local a = bi_local b"
    using from_le_to_le [of 1 4] from_le_to_le [of 0 4] by (auto split: if_splits)
  moreover have "bi_target a = bi_target b"
    using texts(5) by (simp add: target_name_def split: target.splits)
  ultimately show ?thesis
    using texts by simp
qed

lemma map_of_same:
  assumes "set (map fst d) = set (map fst e)" and "\<forall>k \<in> set (map fst e). map_of d k = map_of e k"
  shows "map_of d = map_of e"
proof
  fix k
  show "map_of d k = map_of e k"
    using assms by (cases "k \<in> set (map fst e)") (auto simp: map_of_eq_None_iff [THEN iffD2])
qed

lemma text_field_present:
  assumes "text_field d k [] = Inr s" and "str k \<in> set (map fst d)"
  shows "map_of d (str k) = Some (PStr s)"
proof -
  have "map_of d (str k) \<noteq> None"
    using assms(2) by (simp add: map_of_eq_None_iff)
  with assms(1) show ?thesis
    by (auto simp: text_field_def split: option.splits pyval.splits)
qed

lemma text_field_absent: "str k \<notin> set (map fst d) \<Longrightarrow> text_field d k [] = Inr []"
  by (simp add: text_field_def map_of_eq_None_iff [THEN iffD2])

lemma identity_fields_eq_Inr:
  "identity_fields d t = Inr (local, version) \<longleftrightarrow>
     map_of d (str ''local_validation'') = Some (PBool local) \<and> keys_are d (if local then LOCAL_KEYS else FORMAL_KEYS) \<and>
     map_of d (str ''platform'') = Some (PStr (str ''firmware'')) \<and>
     map_of d (str ''application_id'') = Some (PStr (str ''esp-base'')) \<and>
     map_of d (str ''variant'') = Some (PStr (str (target_name t))) \<and>
     map_of d (str ''architecture'') = Some (PStr (str (architecture t))) \<and>
     map_of d (str ''version'') = Some (PStr version) \<and> build_version_text version"
  by (auto simp: identity_fields_def res_simps split: option.splits pyval.splits)

lemma formal_number:
  assumes "build_number d False version = Inr number"
  shows "map_of d (str ''build_number'') = Some (PInt (int number))" and "number < 256 ^ 8"
  using assms by (auto simp: build_number_def MAX_NUMBER_def res_simps split: option.splits pyval.splits)

lemma descriptor_of_facts:
  assumes "descriptor_of d t = Inr raw"
  shows "\<exists>b. bi_target b = t \<and> wf_id b \<and> map_of d = map_of (identity_dict b) \<and> packs_to b raw"
proof -
  obtain local version number vf sf nf rf tf src inp run where
    fields: "identity_fields d t = Inr (local, version)" and number: "build_number d local version = Inr number"
    and texts: "fixed version 32 = Inr vf" "text_field d ''source_commit_sha'' [] = Inr src" "fixed src 41 = Inr sf"
      "text_field d ''input_sha256'' [] = Inr inp" "fixed inp 65 = Inr nf" "text_field d ''run_id'' [] = Inr run" "fixed run 128 = Inr rf"
      "fixed (str (target_name t)) 16 = Inr tf"
    and raw: "raw = to_le 4 MAGIC @ to_le 4 DESCRIPTOR_SIZE @ to_le 8 number @ to_le 4 1 @ to_le 4 (if local then 1 else 0) @
       vf @ sf @ nf @ rf @ tf @ zeros 14"
    using assms by (auto simp: descriptor_of_def res_simps)
  note d = fields [unfolded identity_fields_eq_Inr]
  let ?b = "\<lparr>bi_target = t, bi_local = local, bi_version = version, bi_number = number, bi_run = run, bi_source = src, bi_inputs = inp\<rparr>"
  have keys: "set (map fst d) = str ` set (if local then LOCAL_KEYS else FORMAL_KEYS)"
    using d keys_are_iff by blast
  have run: "map_of d (str ''run_id'') = Some (PStr run)"
    by (rule text_field_present [OF texts(6)], unfold keys) (auto simp: LOCAL_KEYS_def FORMAL_KEYS_def)
  have "packs_to ?b raw"
    unfolding packs_to_def raw using texts by (intro exI [of _ "[vf, sf, nf, rf, tf]"]) (simp add: id_fields_def)
  moreover have "wf_id ?b \<and> map_of d = map_of (identity_dict ?b)"
  proof (cases local)
    case True
    have "str ''source_commit_sha'' \<notin> set (map fst d)" "str ''input_sha256'' \<notin> set (map fst d)"
      unfolding keys using True by (simp_all add: LOCAL_KEYS_def str_inj_iff)
    then have absent: "src = []" "inp = []"
      using texts(2,4) text_field_absent by auto
    have local_number: "number = 0" "run = []"
      using number True run by (auto simp: build_number_def res_simps)
    have "map_of d = map_of (identity_dict ?b)"
    proof (rule map_of_same)
      show "set (map fst d) = set (map fst (identity_dict ?b))"
        unfolding keys using True by (auto simp: LOCAL_KEYS_def identity_dict_def)
      show "\<forall>k \<in> set (map fst (identity_dict ?b)). map_of d k = map_of (identity_dict ?b) k"
        using d run True by (simp add: identity_dict_def str_inj_iff)
    qed
    with absent local_number True show ?thesis
      by (simp add: wf_id_def)
  next
    case False
    have source: "map_of d (str ''source_commit_sha'') = Some (PStr src)"
      by (rule text_field_present [OF texts(2)], unfold keys) (use False in \<open>auto simp: FORMAL_KEYS_def\<close>)
    have input: "map_of d (str ''input_sha256'') = Some (PStr inp)"
      by (rule text_field_present [OF texts(4)], unfold keys) (use False in \<open>auto simp: FORMAL_KEYS_def\<close>)
    have formal: "build_number d False version = Inr number"
      using number False by simp
    note n = formal_number [OF formal]
    have "map_of d = map_of (identity_dict ?b)"
    proof (rule map_of_same)
      show "set (map fst d) = set (map fst (identity_dict ?b))"
        unfolding keys using False by (auto simp: LOCAL_KEYS_def FORMAL_KEYS_def identity_dict_def)
      show "\<forall>k \<in> set (map fst (identity_dict ?b)). map_of d k = map_of (identity_dict ?b) k"
        using d run False source input n(1) by (simp add: identity_dict_def str_inj_iff)
    qed
    with n(2) False show ?thesis
      by (simp add: wf_id_def)
  qed
  ultimately show ?thesis
    by (intro exI [of _ ?b]) simp
qed

lemma inspected_descriptor:
  assumes "inspect_image data value t = Inr r"
  shows "\<exists>d. value = PDict d \<and> r = value \<and> descriptor_of d t = Inr (pslice data 288 608)"
  using assms by (auto simp: inspect_image_def descriptor_bytes_def DESCRIPTOR_SIZE_def res_simps)

text \<open>
  An image carries one identity.  If \<open>inspect_image\<close> accepts the same image for two identities, they are for
  the same target and have the same value under every key: a formal image is never accepted as a local one,
  as one with another number, run, source commit or input digest, or for the other chip.
\<close>

theorem image_carries_one_identity:
  assumes "inspect_image data (PDict d) t = Inr r" and "inspect_image data (PDict d') t' = Inr r'"
  shows "t = t' \<and> map_of d = map_of d'"
proof -
  obtain b where b: "bi_target b = t" "wf_id b" "map_of d = map_of (identity_dict b)" "packs_to b (pslice data 288 608)"
    using inspected_descriptor [OF assms(1)] descriptor_of_facts by fastforce
  obtain b' where b': "bi_target b' = t'" "wf_id b'" "map_of d' = map_of (identity_dict b')" "packs_to b' (pslice data 288 608)"
    using inspected_descriptor [OF assms(2)] descriptor_of_facts by fastforce
  have "b = b'"
    by (rule packs_inj [OF b(4) b'(4) b(2) b'(2)])
  with b b' show ?thesis by simp
qed

text \<open>An image of a local build, with the keys of the identity in two orders.\<close>

definition sample_identity :: build_id where
  "sample_identity = \<lparr>bi_target = Esp32, bi_local = True, bi_version = str ''1.2.0'', bi_number = 0, bi_run = [], bi_source = [],
     bi_inputs = []\<rparr>"

definition field_bytes :: "string \<Rightarrow> nat \<Rightarrow> bytes" where
  "field_bytes s width = ascii s @ zeros (width - length s)"

definition sample_descriptor :: bytes where
  "sample_descriptor = to_le 4 MAGIC @ to_le 4 320 @ to_le 8 0 @ to_le 4 1 @ to_le 4 1 @ field_bytes ''1.2.0'' 32 @ zeros 41 @ zeros 65 @
     zeros 128 @ field_bytes ''esp32'' 16 @ zeros 14"

definition sample_identity_image :: bytes where
  "sample_identity_image = [0xe9, 1] @ zeros 26 @ [0x40, 2, 0, 0] @ [0x32, 0x54, 0xcd, 0xab] @ zeros 12 @ field_bytes ''1.2.0'' 32 @
     field_bytes ''esp_base'' 32 @ zeros 176 @ sample_descriptor"

lemma sample_fields:
  "fixed (str ''1.2.0'') 32 = Inr (field_bytes ''1.2.0'' 32)" "fixed (str ''esp32'') 16 = Inr (field_bytes ''esp32'' 16)"
  "fixed (str ''esp_base'') 32 = Inr (field_bytes ''esp_base'' 32)"
  by code_simp+

lemma sample_descriptor_of:
  assumes "map_of d = map_of (identity_dict sample_identity)"
  shows "descriptor_of d Esp32 = Inr sample_descriptor"
proof -
  have version: "build_version_text (str ''1.2.0'')"
    by code_simp
  have "set (map fst d) = dom (map_of d)"
    by (simp add: dom_map_of_conv_image_fst)
  also have "\<dots> = set (map fst (identity_dict sample_identity))"
    unfolding assms by (simp add: dom_map_of_conv_image_fst)
  also have "\<dots> = str ` set LOCAL_KEYS"
    by (simp add: identity_dict_def sample_identity_def LOCAL_KEYS_def)
  finally have "keys_are d LOCAL_KEYS"
    by (simp add: keys_are_iff)
  then have fields: "identity_fields d Esp32 = Inr (True, str ''1.2.0'')"
    by (simp add: identity_fields_eq_Inr assms version identity_dict_def sample_identity_def str_inj_iff)
  have number: "build_number d True (str ''1.2.0'') = Inr 0"
    by (simp add: build_number_def assms identity_dict_def sample_identity_def str_inj_iff)
  have absent: "text_field d ''source_commit_sha'' [] = Inr []" "text_field d ''input_sha256'' [] = Inr []" "text_field d ''run_id'' [] = Inr []"
    by (simp_all add: text_field_def assms identity_dict_def sample_identity_def str_inj_iff)
  have empty: "fixed [] 41 = Inr (zeros 41)" "fixed [] 65 = Inr (zeros 65)" "fixed [] 128 = Inr (zeros 128)"
    by (simp_all add: fixed_def ascii_encode_def)
  have "fixed (str (target_name Esp32)) 16 = Inr (field_bytes ''esp32'' 16)"
    using sample_fields(2) by (simp add: target_name_def)
  then show ?thesis
    by (simp add: descriptor_of_def fields number absent sample_fields empty sample_descriptor_def DESCRIPTOR_SIZE_def)
qed

lemma sample_image_inspected:
  assumes "map_of d = map_of (identity_dict sample_identity)"
  shows "inspect_image sample_identity_image (PDict d) Esp32 = Inr (PDict d)"
proof -
  note fields = field_bytes_def DESCRIPTOR_SIZE_def slice_simps
  have length: "length sample_descriptor = 320" "length (field_bytes ''1.2.0'' 32) = 32" "length (field_bytes ''esp_base'' 32) = 32"
    by (simp_all add: sample_descriptor_def field_bytes_def)
  note image = sample_identity_image_def length slice_simps
  have parts: "length sample_identity_image = 608" "sample_identity_image ! 0 = 0xe9" "sample_identity_image ! 1 = 1"
    "from_le (pslice sample_identity_image 12 14) = 0" "u32 sample_identity_image 28 = 576" "u32 sample_identity_image 32 = 0xabcd5432"
    "pslice sample_identity_image 48 80 = field_bytes ''1.2.0'' 32" "pslice sample_identity_image 80 112 = field_bytes ''esp_base'' 32"
    "pslice sample_identity_image 288 608 = sample_descriptor"
    by (simp_all add: image u32_def zeros_def from_le_zeros [unfolded zeros_def])
  have "walk_segments sample_identity_image 1 24 = Inr ()"
    using parts(1,5) by (simp add: eval_nat_numeral(3) [of num.One])
  moreover have "native_version d = Inr (field_bytes ''1.2.0'' 32)"
    using sample_fields(1) by (simp add: native_version_def py_getitem_def assms identity_dict_def sample_identity_def)
  ultimately show ?thesis
    using parts sample_descriptor_of [OF assms] sample_fields(3)
    by (simp add: inspect_image_def DESCRIPTOR_SIZE_def chip_id_def descriptor_bytes_def)
qed

theorem image_carries_one_identity_witness:
  "inspect_image sample_identity_image (PDict (rev (identity_dict sample_identity))) Esp32 = Inr (PDict (rev (identity_dict sample_identity))) \<and>
   map_of (rev (identity_dict sample_identity)) = map_of (identity_dict sample_identity)"
proof -
  have same: "map_of (rev (identity_dict sample_identity)) = map_of (identity_dict sample_identity)"
    by (rule map_of_same) (auto simp: identity_dict_def sample_identity_def str_inj_iff)
  note inspected = sample_image_inspected [OF refl] sample_image_inspected [OF same]
  show ?thesis
    using inspected(2) image_carries_one_identity [OF inspected(2,1)] by simp
qed

subsection \<open>Preparation and resolution\<close>

text \<open>In verify mode no file changes, and success means that every file already has the generated bytes.\<close>

lemma prepare_files_verify:
  "prepare_files True files fs = (r, files') \<Longrightarrow> files' = files \<and> (r = Inr () \<longleftrightarrow> (\<forall>(name, data) \<in> set fs. files name = File data))"
proof (induction fs)
  case (Cons f fs)
  then show ?case
    by (cases f; cases "files (fst f)") (auto simp: prepare_file_def Let_def split: if_splits)
qed auto

text \<open>Otherwise the files of a successful preparation are the generated ones.\<close>

lemma prepare_files_write:
  assumes "prepare_files False files fs = (Inr (), files')" and "distinct (map fst fs)"
  shows "(\<forall>(name, data) \<in> set fs. files' name = File data) \<and> (\<forall>name. name \<notin> fst ` set fs \<longrightarrow> files' name = files name)"
  using assms
proof (induction fs arbitrary: files)
  case (Cons f fs)
  obtain name data where f: "f = (name, data)" by fastforce
  obtain mid where mid: "prepare_file False files f = (Inr (), mid)" "prepare_files False mid fs = (Inr (), files')"
    using Cons.prems(1) by (auto split: prod.splits sum.splits)
  have "mid = files(name := File data)"
    using mid(1) f by (cases "files name") (auto simp: prepare_file_def Let_def split: if_splits)
  then show ?case
    using Cons.IH [OF mid(2)] Cons.prems(2) f by auto
qed simp

lemma prepared_then_verified:
  assumes "prepare_identity directory files value t False = (Inr (), files')" and "directory = Absent \<or> directory = Directory"
  shows "prepare_identity Directory files' value t True = (Inr (), files')"
proof -
  obtain outputs where outputs: "generated value t = Inr outputs" "prepare_files False files outputs = (Inr (), files')"
    using assms by (auto simp: prepare_identity_def split: sum.splits if_splits)
  have "map fst outputs = [''build.json'', ''esp_base_build.c'', ''identity.cmake'']"
    using outputs(1) by (auto simp: generated_def res_simps)
  then have "distinct (map fst outputs)" by simp
  then have "\<forall>(name, data) \<in> set outputs. files' name = File data"
    using prepare_files_write [OF outputs(2)] by blast
  then have "prepare_files True files' outputs = (Inr (), files')"
    using prepare_files_verify [of files' outputs] by (metis surj_pair)
  with outputs(1) show ?thesis
    by (simp add: prepare_identity_def)
qed

text \<open>A resolved identity fits its target, and it is formal exactly when a formal variable is set.\<close>

lemma resolved_identity:
  assumes "resolve env release core sources_ok t suffix = Inr value"
  shows "\<exists>d b. value = PDict d \<and> bi_target b = t \<and> map_of d = map_of (identity_dict b) \<and>
    (bi_local b \<longleftrightarrow> list_all (\<lambda>key. env_text env key = []) FORMAL_VARIABLES)"
proof -
  obtain d raw where d: "value = PDict d" "descriptor_of d t = Inr raw"
    using assms by (auto simp: resolve_def descriptor_bytes_def res_simps)
  obtain b where b: "bi_target b = t" "map_of d = map_of (identity_dict b)"
    using descriptor_of_facts [OF d(2)] by blast
  have "map_of d (str ''local_validation'') = Some (PBool (bi_local b))"
    unfolding b(2) by (simp add: identity_dict_def str_inj_iff)
  moreover have "map_of d (str ''local_validation'') = Some (PBool (list_all (\<lambda>key. env_text env key = []) FORMAL_VARIABLES))"
    using assms d(1) unfolding list.pred_set resolve_def
    by (auto simp: res_simps Let_def local_identity_def list_ex_iff str_inj_iff split: if_splits)
  ultimately show ?thesis
    using d(1) b by auto
qed

end
