(* ===== verification/Write_Once.thy ===== *)
theory Write_Once
  imports Build_Identity
begin

text \<open>
  \<^verbatim>\<open>write_once\<close> of \<^verbatim>\<open>build_package.py\<close>, which freezes an input or a receipt under a path: the result when
  one process runs it alone, and the step relation of any number of processes that run it on the same path
  at the same time.  The steps are the system calls that touch the path, in the order of the code: the test for a
  link, the test whether the path exists, \<^verbatim>\<open>os.link\<close> of the private candidate (which is atomic and fails
  when the path exists), and reading the path.  A process may stop after any step.

  Lemmas: a single process behaves like the function, and rule induction gives the invariant of all reachable states.
\<close>

definition write_once :: "node \<Rightarrow> bytes \<Rightarrow> unit res \<times> node" where
  "write_once n data = (case n of
      Link \<Rightarrow> (Inl (Raise ValueError ''a link''), n)
    | Absent \<Rightarrow> (Inr (), File data)
    | Directory \<Rightarrow> (Inl (Raise ValueError ''not a regular file''), n)
    | File old \<Rightarrow> (if old = data then Inr () else Inl (Raise ValueError ''frozen input differs''), n))"

datatype phase = Start | Unlinked | Missing | Present | Finished | Refused

type_synonym race = "node \<times> (nat \<Rightarrow> phase)"

inductive write_step :: "(nat \<Rightarrow> bytes) \<Rightarrow> race \<Rightarrow> race \<Rightarrow> bool" for data where
  link: "ph i = Start \<Longrightarrow> write_step data (Link, ph) (Link, ph(i := Refused))"
| no_link: "ph i = Start \<Longrightarrow> n \<noteq> Link \<Longrightarrow> write_step data (n, ph) (n, ph(i := Unlinked))"
| missing: "ph i = Unlinked \<Longrightarrow> write_step data (Absent, ph) (Absent, ph(i := Missing))"
| present: "ph i = Unlinked \<Longrightarrow> n \<noteq> Absent \<Longrightarrow> write_step data (n, ph) (n, ph(i := Present))"
| publish: "ph i = Missing \<Longrightarrow> write_step data (Absent, ph) (File (data i), ph(i := Finished))"
| lost: "ph i = Missing \<Longrightarrow> n \<noteq> Absent \<Longrightarrow> write_step data (n, ph) (n, ph(i := Present))"
| same: "ph i = Present \<Longrightarrow> write_step data (File (data i), ph) (File (data i), ph(i := Finished))"
| different: "ph i = Present \<Longrightarrow> n \<noteq> File (data i) \<Longrightarrow> write_step data (n, ph) (n, ph(i := Refused))"

inductive_cases write_step_FileE: "write_step data (File raw, ph) (n', ph')"

abbreviation races :: "(nat \<Rightarrow> bytes) \<Rightarrow> race \<Rightarrow> race \<Rightarrow> bool" where
  "races data \<equiv> (write_step data)\<^sup>*\<^sup>*"

lemma three_steps: "write_step data a b \<Longrightarrow> write_step data b c \<Longrightarrow> write_step data c d \<Longrightarrow> races data a d"
  by (meson converse_rtranclp_into_rtranclp r_into_rtranclp)

lemma seven_steps:
  assumes "write_step data a b" "write_step data b c" "write_step data c d" "write_step data d e" "write_step data e f"
    "write_step data f g" "write_step data g h"
  shows "races data a h"
  using rtranclp_trans [OF three_steps [OF assms(1,2,3)] three_steps [OF assms(4,5,6)]] assms(7) by (rule rtranclp.rtrancl_into_rtrancl)

lemma write_once_alone:
  assumes "write_once n (data i) = (r, n')" and "ph i = Start"
  shows "races data (n, ph) (n', ph(i := (if r = Inr () then Finished else Refused)))"
proof -
  have start: "write_step data (n, ph) (n, ph(i := Unlinked))" if "n \<noteq> Link"
    using no_link [of ph i n data] that assms(2) by simp
  have read: "races data (n, ph) (n, ph(i := p))"
    if "n \<noteq> Link" "n \<noteq> Absent" "write_step data (n, ph(i := Present)) (n, ph(i := p))" for p
    using three_steps [OF start [OF that(1)] _ that(3)] present [of "ph(i := Unlinked)" i n data] that(2) by simp
  show ?thesis
  proof (cases n)
    case Absent
    then show ?thesis
      using three_steps [OF start, of "(Absent, ph(i := Missing))" "(File (data i), ph(i := Finished))"]
        missing [of "ph(i := Unlinked)" i data] publish [of "ph(i := Missing)" i data] assms
      by (simp add: write_once_def)
  next
    case Link
    then show ?thesis
      using link [of ph i data] assms by (auto simp: write_once_def)
  next
    case (File old)
    then show ?thesis
      using read [of Finished] read [of Refused] same [of "ph(i := Present)" i data] different [of "ph(i := Present)" i n data] assms(1)
      by (auto simp: write_once_def split: if_splits)
  next
    case Directory
    then show ?thesis
      using read [of Refused] different [of "ph(i := Present)" i n data] assms(1) by (auto simp: write_once_def)
  qed
qed

definition race_inv :: "(nat \<Rightarrow> bytes) \<Rightarrow> node \<Rightarrow> race \<Rightarrow> bool" where
  "race_inv data n0 = (\<lambda>(n, ph).
     (\<forall>i. ph i = Finished \<longrightarrow> n = File (data i)) \<and> (n0 \<noteq> Absent \<longrightarrow> n = n0) \<and>
     (n0 = Absent \<longrightarrow> (if n = Absent then \<forall>i. ph i \<in> {Start, Unlinked, Missing} else \<exists>i. ph i = Finished)))"

lemma race_inv_update:
  assumes "race_inv data n0 (n, ph)" and "ph i \<noteq> Finished"
    and "p = Finished \<and> n = File (data i) \<or> p = Refused \<and> n \<noteq> Absent \<or> p = Present \<and> n \<noteq> Absent \<or> p = Missing \<or> p = Unlinked \<or>
      p = Refused \<and> n0 \<noteq> Absent"
  shows "race_inv data n0 (n, ph(i := p))"
proof -
  have some: "\<exists>j. (ph(i := p)) j = Finished" if "\<exists>j. ph j = Finished"
  proof -
    from that obtain j where "ph j = Finished" ..
    with assms(2) show ?thesis by (intro exI [of _ j]) auto
  qed
  show ?thesis
    using assms some unfolding race_inv_def by (cases "n = Absent"; cases "n0 = Absent") (auto simp del: fun_upd_apply simp: fun_upd_def)
qed

lemma race_inv_step:
  assumes "write_step data (n, ph) (n', ph')" and "race_inv data n0 (n, ph)"
  shows "race_inv data n0 (n', ph')"
  using assms(1)
proof cases
  case (publish i)
  with assms(2) show ?thesis
    by (cases "n0 = Absent") (auto simp: race_inv_def)
next
  case (different i)
  then have "n \<noteq> Absent \<or> n0 \<noteq> Absent"
    using assms(2) by (auto simp: race_inv_def dest!: spec [of _ i])
  with different race_inv_update [OF assms(2), of i Refused] show ?thesis by auto
qed (use race_inv_update [OF assms(2)] in auto)

lemma race_inv_reachable: "races data (n0, \<lambda>_. Start) s \<Longrightarrow> race_inv data n0 s"
proof (induction rule: rtranclp_induct)
  case base
  show ?case by (simp add: race_inv_def)
next
  case (step s s')
  then show ?case
    by (cases s; cases s') (auto intro: race_inv_step)
qed

text \<open>A file that is there stays as it is.\<close>

lemma file_stays: "write_step data (File raw, ph) (n', ph') \<Longrightarrow> n' = File raw"
  by (erule write_step_FileE) auto

text \<open>
  C37: concurrent writers never disagree about a frozen file.  Whatever the interleaving of any number of
  processes that run \<^verbatim>\<open>write_once\<close> on one path: a process that succeeds leaves exactly its own bytes there, so two
  that succeed wrote the same bytes; what was there before is never replaced; and when nothing was there, the path
  is either still free with nobody done, or holds the bytes of a process that succeeded.
\<close>

theorem write_once_agrees:
  assumes "races data (n0, \<lambda>_. Start) (n, ph)"
  shows "(\<forall>i. ph i = Finished \<longrightarrow> n = File (data i)) \<and> (n0 \<noteq> Absent \<longrightarrow> n = n0) \<and>
    (n0 = Absent \<longrightarrow> n = Absent \<and> (\<forall>i. ph i \<in> {Start, Unlinked, Missing}) \<or> (\<exists>i. ph i = Finished \<and> n = File (data i)))"
  using race_inv_reachable [OF assms] by (auto simp: race_inv_def split: if_splits)

text \<open>Two writers that both found the path free: the first one publishes, the second one finds other bytes.\<close>

definition two :: "phase \<Rightarrow> phase \<Rightarrow> nat \<Rightarrow> phase" where
  "two p q = (\<lambda>i. if i = 0 then p else if i = 1 then q else Start)"

lemma two_simps: "two p q 0 = p" "two p q 1 = q" "(two p q)(0 := r) = two r q" "(two p q)(1 := r) = two p r" "two Start Start = (\<lambda>_. Start)"
  by (auto simp: two_def)

definition two_data :: "nat \<Rightarrow> bytes" where
  "two_data i = (if i = 0 then [1] else [2])"

lemma two_writers: "races two_data (Absent, \<lambda>_. Start) (File (two_data 0), two Finished Refused)"
proof (rule seven_steps)
  note update = two_simps(3,4)
  show "write_step two_data (Absent, \<lambda>_. Start) (Absent, two Unlinked Start)"
    using no_link [of "two Start Start" 0 Absent two_data] unfolding update by (simp add: two_simps)
  show "write_step two_data (Absent, two Unlinked Start) (Absent, two Unlinked Unlinked)"
    using no_link [of "two Unlinked Start" 1 Absent two_data] unfolding update by (simp add: two_simps(2) del: One_nat_def)
  show "write_step two_data (Absent, two Unlinked Unlinked) (Absent, two Missing Unlinked)"
    using missing [of "two Unlinked Unlinked" 0 two_data] unfolding update by (simp add: two_simps)
  show "write_step two_data (Absent, two Missing Unlinked) (Absent, two Missing Missing)"
    using missing [of "two Missing Unlinked" 1 two_data] unfolding update by (simp add: two_simps(2) del: One_nat_def)
  show "write_step two_data (Absent, two Missing Missing) (File (two_data 0), two Finished Missing)"
    using publish [of "two Missing Missing" 0 two_data] unfolding update by (simp add: two_simps)
  show "write_step two_data (File (two_data 0), two Finished Missing) (File (two_data 0), two Finished Present)"
    using lost [of "two Finished Missing" 1 "File (two_data 0)" two_data] unfolding update by (simp add: two_simps(2) del: One_nat_def)
  show "write_step two_data (File (two_data 0), two Finished Present) (File (two_data 0), two Finished Refused)"
    using different [of "two Finished Present" 1 "File (two_data 0)" two_data] unfolding update
    by (simp add: two_simps(2) two_data_def del: One_nat_def)
qed

theorem write_once_agrees_witness:
  "races two_data (Absent, \<lambda>_. Start) (File (two_data 0), two Finished Refused) \<and>
   two Finished Refused 0 = Finished \<and> File (two_data 0) = File [1]"
  using write_once_agrees [OF two_writers] two_writers by (simp add: two_data_def two_simps)

end
