(* ===== verification/Package.thy ===== *)
theory Package
  imports Write_Once "HOL-Library.AList"
begin

text \<open>
  The verification of a firmware package (\<^verbatim>\<open>verify_package\<close> of \<^verbatim>\<open>build_package.py\<close>) and the checks of the package
  build on its inputs: the values of \<^verbatim>\<open>sdkconfig\<close>, the required configuration, the run inputs frozen by
  the Core, the public key, and the native facts of a built directory.

  Parameters (record \<open>package_env\<close>): the JSON decoder with the hooks of \<^verbatim>\<open>decode_json\<close>, the values of float texts,
  the checks of the \<^verbatim>\<open>cryptography\<close> library on a public key, the verifier \<^verbatim>\<open>espsecure\<close>, and the Core's
  \<^verbatim>\<open>verify-recorded-identity\<close>.  An archive is the list of its entries as \<^verbatim>\<open>zipfile\<close> gives them; files are their bytes.
  A value of an unexpected JSON type raises \<^verbatim>\<open>TypeError\<close> here; the source raises \<^verbatim>\<open>TypeError\<close>, or \<^verbatim>\<open>AttributeError\<close> where it
  calls a method of the value.

  Lemmas: what an accepted package guarantees about its files, its image, its keys and its identity.
\<close>

subsection \<open>The SDK configuration\<close>

definition is_line_break :: "nat \<Rightarrow> bool" where
  "is_line_break c = (c \<in> {10, 11, 12, 13, 28, 29, 30, 0x85, 0x2028, 0x2029})"

text \<open>\<^verbatim>\<open>str.splitlines()\<close>; \<open>line\<close> is the current line so far.\<close>

fun split_lines :: "pystr \<Rightarrow> pystr \<Rightarrow> pystr list" where
  "split_lines line [] = (if line = [] then [] else [line])"
| "split_lines line (c # cs) =
     (if \<not> is_line_break c then split_lines (line @ [c]) cs
      else line # split_lines [] (if c = 13 \<and> take 1 cs = [10] then drop 1 cs else cs))"

definition config_key_text :: "pystr \<Rightarrow> bool" where
  "config_key_text k =
     (take 7 k = str ''CONFIG_'' \<and> 7 < length k \<and> list_all (\<lambda>c. 65 \<le> c \<and> c \<le> 90 \<or> is_digit c \<or> c = 95) k)"

definition config_match :: "pystr \<Rightarrow> (pystr \<times> pystr) option" where
  "config_match line =
     (let key = takeWhile (\<lambda>c. c \<noteq> 61) line; rest = dropWhile (\<lambda>c. c \<noteq> 61) line;
          off_key = takeWhile (\<lambda>c. c \<noteq> 32) (drop 2 line); off_rest = dropWhile (\<lambda>c. c \<noteq> 32) (drop 2 line) in
      if config_key_text key \<and> rest \<noteq> [] then Some (key, tl rest)
      else if take 2 line = str ''# '' \<and> config_key_text off_key \<and> off_rest = str '' is not set'' then Some (off_key, str ''n'')
      else None)"

definition config_line :: "(pystr \<times> pystr) list \<Rightarrow> pystr \<Rightarrow> (pystr \<times> pystr) list res" where
  "config_line values line = (case config_match line of
      None \<Rightarrow> require (line = [] \<or> hd line = 35) (Raise ValueError ''unknown line in sdkconfig'') (Inr values)
    | Some (key, v) \<Rightarrow>
        require (map_of values key = None \<or> map_of values key = Some v) (Raise ValueError ''sdkconfig values conflict'')
          (Inr (AList.update key v values)))"

definition config_values :: "bytes \<Rightarrow> (pystr \<times> pystr) list res" where
  "config_values raw =
     bindE (of_option (Raise UnicodeError ''sdkconfig'') (utf8_decode raw)) (\<lambda>content. for_each config_line [] (split_lines [] content))"

subsection \<open>Keys\<close>

definition public_key :: "(target \<Rightarrow> bytes \<Rightarrow> bool) \<Rightarrow> bytes \<Rightarrow> target \<Rightarrow> bytes res" where
  "public_key crypto data t =
     require (\<not> contains (ascii ''PRIVATE KEY'') data) (Raise ValueError ''a private key'')
     (require (t = Esp32 \<longrightarrow> length data = 64) (Raise ValueError ''not a native P-256 key'')
     (require (crypto t data) (Raise ValueError ''not a key of the target'') (Inr data)))"

record key_file =
  kf_link :: bool
  kf_file :: bool
  kf_inside :: bool
  kf_content :: bytes

definition REQUIRED_CONFIG :: "string list" where
  "REQUIRED_CONFIG = [''CONFIG_APP_REPRODUCIBLE_BUILD'', ''CONFIG_SECURE_SIGNED_APPS_NO_SECURE_BOOT'',
     ''CONFIG_SECURE_SIGNED_ON_UPDATE_NO_SECURE_BOOT'', ''CONFIG_BOOTLOADER_APP_ROLLBACK_ENABLE'',
     ''CONFIG_PARTITION_TABLE_CUSTOM'', ''CONFIG_ESPTOOLPY_FLASHSIZE_4MB'']"

definition cfg :: "(pystr \<times> pystr) list \<Rightarrow> string \<Rightarrow> pystr option" where
  "cfg config key = map_of config (str key)"

definition config_contract :: "(pystr \<times> pystr) list \<Rightarrow> target \<Rightarrow> unit res" where
  "config_contract config t =
     require (list_all (\<lambda>key. cfg config key = Some (str ''y'')) REQUIRED_CONFIG) (Raise ValueError ''delivery configuration'')
     (require ((cfg config ''CONFIG_SECURE_BOOT'' = None \<or> cfg config ''CONFIG_SECURE_BOOT'' = Some (str ''n'')) \<and>
               cfg config ''CONFIG_IDF_TARGET'' = Some (json_str (str (target_name t))))
       (Raise ValueError ''target or hardware security'')
     (require (cfg config (if t = Esp32c3 then ''CONFIG_SECURE_SIGNED_APPS_RSA_SCHEME'' else ''CONFIG_SECURE_SIGNED_APPS_ECDSA_SCHEME'') = Some (str ''y'') \<and>
               cfg config ''CONFIG_PARTITION_TABLE_CUSTOM_FILENAME'' =
                 Some (json_str (str (if t = Esp32c3 then ''partitions/c3-partition-table.csv'' else ''partitions/esp32-partition-table.csv''))) \<and>
               cfg config ''CONFIG_PARTITION_TABLE_OFFSET'' = Some (str ''0x8000'') \<and>
               cfg config ''CONFIG_PARTITION_TABLE_MD5'' = Some (str (if t = Esp32c3 then ''y'' else ''n'')))
       (Raise ValueError ''signature scheme or partition file'')
     (require (t = Esp32 \<longrightarrow> cfg config ''CONFIG_SECURE_SIGNED_ON_BOOT_NO_SECURE_BOOT'' = Some (str ''y''))
       (Raise ValueError ''signed boot check'') (Inr ()))))"

definition check_config ::
  "(pystr \<Rightarrow> pyval res) \<Rightarrow> (pystr \<Rightarrow> key_file) \<Rightarrow> (target \<Rightarrow> pystr \<Rightarrow> bytes res) \<Rightarrow> (target \<Rightarrow> bytes \<Rightarrow> bool) \<Rightarrow>
   (pystr \<times> pystr) list \<Rightarrow> target \<Rightarrow> bytes \<Rightarrow> bool res" where
  "check_config loads key_at extract crypto config t verification_key =
     bindE (config_contract config t) (\<lambda>_.
     let automatic = (cfg config ''CONFIG_SECURE_BOOT_BUILD_SIGNED_BINARIES'' = Some (str ''y'')) in
     if \<not> automatic \<and> t = Esp32c3 then Inr False
     else
       (let name = (if automatic then ''CONFIG_SECURE_BOOT_SIGNING_KEY'' else ''CONFIG_SECURE_BOOT_VERIFICATION_KEY'');
            quoted = (case cfg config name of None \<Rightarrow> [34, 34] | Some s \<Rightarrow> s) in
        bindE (loads quoted) (\<lambda>v.
        bindE (as_text (Raise TypeError ''key path'') v) (\<lambda>path.
        let file = key_at path in
        require (is_absolute path \<and> \<not> kf_link file \<and> kf_file file \<and> \<not> kf_inside file) (Raise ValueError ''key outside the repository'')
        (if automatic
         then bindE (extract t path) (\<lambda>output. bindE (public_key crypto output t) (\<lambda>public.
              require (public = verification_key) (Raise ValueError ''signing key differs'') (Inr automatic)))
         else require (kf_content file = verification_key) (Raise ValueError ''embedded key differs'') (Inr automatic))))))"

subsection \<open>The frozen inputs\<close>

definition without :: "string \<Rightarrow> (pystr \<times> pyval) list \<Rightarrow> (pystr \<times> pyval) list" where
  "without key d = filter (\<lambda>(k, _). k \<noteq> str key) d"

definition dict_field :: "(pystr \<times> pyval) list \<Rightarrow> string \<Rightarrow> (pystr \<times> pyval) list res" where
  "dict_field d key = bindE (py_getitem d key) (as_dict (Raise TypeError key))"

definition portable_input :: "pyval \<Rightarrow> pyval res" where
  "portable_input v =
     bindE (as_dict (Raise TypeError ''inputs'') v) (\<lambda>d.
     bindE (for_each (\<lambda>result name. bindE (dict_field d name) (\<lambda>e.
        Inr (AList.update (str name) (PDict (without ''path'' e)) result))) (without ''sdk_root'' d) [''sdkconfig'', ''verification_key'']) (\<lambda>result.
     bindE (dict_field d ''tools'') (\<lambda>tools.
     bindE (for_each (\<lambda>out (name, tool). bindE (as_dict (Raise TypeError ''tool'') tool) (\<lambda>e. Inr (out @ [(name, PDict (without ''path'' e))]))) [] tools) (\<lambda>portable.
     Inr (PDict (AList.update (str ''tools'') (PDict portable) result))))))"

definition core_encoded :: "pyval \<Rightarrow> bytes res" where
  "core_encoded v = of_option (Raise UnicodeError ''encode'') (utf8_encode (json_dumps_raw (sorted_keys v) @ [10]))"

definition find_target :: "pyval \<Rightarrow> target option" where
  "find_target v = (if v = PStr (str ''esp32c3'') then Some Esp32c3 else if v = PStr (str ''esp32'') then Some Esp32 else None)"

definition hashable :: "pyval \<Rightarrow> bool" where
  "hashable v = (case v of PList _ \<Rightarrow> False | PDict _ \<Rightarrow> False | _ \<Rightarrow> True)"

record package_env =
  pe_loads :: "bytes \<Rightarrow> pyval res"
  pe_fnorm :: "string \<Rightarrow> pyval"
  pe_crypto :: "target \<Rightarrow> bytes \<Rightarrow> bool"
  pe_verify :: "bytes \<Rightarrow> target \<Rightarrow> bytes \<Rightarrow> bool"
  pe_recorded :: "pyval \<Rightarrow> pyval \<Rightarrow> target \<Rightarrow> pyval res"

definition text_list :: "string list \<Rightarrow> pyval" where
  "text_list xs = PList (map (\<lambda>s. PStr (str s)) xs)"

definition input_command :: "target \<Rightarrow> pyval" where
  "input_command t = text_list [''python3'', ''tools/package_entry.py'', ''inputs'', target_name t]"

definition expected_manifest :: "target \<Rightarrow> pyval" where
  "expected_manifest t = PDict [(str ''schema_version'', PInt 1), (str ''repo_name'', PStr (str ''esp-base'')),
     (str ''config_path'', PStr (str ''release.json'')), (str ''platform'', PStr (str ''firmware'')),
     (str ''application_id'', PStr (str ''esp-base'')), (str ''variant'', PStr (str (target_name t))),
     (str ''architectures'', text_list [architecture t]), (str ''entry'', PStr (str ''tools/package_entry.py'')),
     (str ''artifact'', PStr (str (''esp-base-'' @ target_name t @ ''.zip''))), (str ''identity_entry'', PStr (str ''build.json'')),
     (str ''input_commands'', PList [input_command t])]"

definition is_int :: "pyval option \<Rightarrow> bool" where
  "is_int v = (case v of Some (PInt _) \<Rightarrow> True | _ \<Rightarrow> False)"

definition command_ok :: "package_env \<Rightarrow> pyval \<Rightarrow> target \<Rightarrow> pyval \<Rightarrow> bool" where
  "command_ok env inputs t command = (case command of
      PDict c \<Rightarrow>
        keys_are c [''argv'', ''executable'', ''executable_sha256'', ''stdout''] \<and>
        (case map_of c (str ''argv'') of Some argv \<Rightarrow> py_eq (pe_fnorm env) argv (input_command t) | None \<Rightarrow> False) \<and>
        (case map_of c (str ''executable'') of Some (PStr path) \<Rightarrow> is_absolute path | _ \<Rightarrow> False) \<and>
        (case map_of c (str ''executable_sha256'') of Some (PStr sha) \<Rightarrow> lower_hex_text 64 sha | _ \<Rightarrow> False) \<and>
        map_of c (str ''stdout'') = Some (PStr (map unat (encoded inputs)))
    | _ \<Rightarrow> False)"

definition validate_run_inputs :: "package_env \<Rightarrow> pyval \<Rightarrow> bytes \<Rightarrow> pyval \<Rightarrow> pyval \<Rightarrow> unit res" where
  "validate_run_inputs env snapshot manifest_raw inputs context =
     bindE (as_dict (Raise TypeError ''inputs'') inputs) (\<lambda>ins.
     bindE (py_getitem ins ''target'') (\<lambda>target_value.
     bindE (pe_loads env manifest_raw) (\<lambda>manifest.
     bindE (of_option (Raise (if hashable target_value then KeyError else TypeError) ''target'') (find_target target_value)) (\<lambda>t.
     bindE (case manifest of PDict m \<Rightarrow> Inr m | _ \<Rightarrow> Inl (Raise ValueError ''package declaration'')) (\<lambda>m.
     require (is_int (map_of m (str ''schema_version'')) \<and> py_eq (pe_fnorm env) manifest (expected_manifest t))
       (Raise ValueError ''package declaration'')
     (bindE (as_dict (Raise TypeError ''context'') context) (\<lambda>ctx.
      bindE (py_getitem ctx ''job_manifest_sha256'') (\<lambda>job_sha.
      require (job_sha = PStr (digest manifest_raw)) (Raise ValueError ''package declaration'')
      (case snapshot of
         PDict s \<Rightarrow>
           require (keys_are s [''schema_version'', ''kind'', ''commands''] \<and> map_of s (str ''schema_version'') = Some (PInt 1) \<and>
                    map_of s (str ''kind'') = Some (PStr (str ''standalone-package-inputs'')))
             (Raise ValueError ''input snapshot'')
           (case map_of s (str ''commands'') of
              Some (PList [command]) \<Rightarrow>
                bindE (core_encoded snapshot) (\<lambda>raw.
                bindE (py_getitem ctx ''profile_snapshot_id'') (\<lambda>snapshot_id.
                require (snapshot_id = PStr (digest raw)) (Raise ValueError ''input snapshot'')
                (require (command_ok env inputs t command) (Raise ValueError ''tool output differs'') (Inr ()))))
            | _ \<Rightarrow> Inl (Raise ValueError ''input snapshot''))
       | _ \<Rightarrow> Inl (Raise ValueError ''input snapshot''))))))))))"

subsection \<open>The package\<close>

record zip_item =
  z_name :: pystr
  z_size :: nat
  z_regular :: bool
  z_content :: "bytes res"

definition BUILD_FILE_NAMES :: "string list" where
  "BUILD_FILE_NAMES = [''esp_base.elf'', ''bootloader.bin'', ''partition-table.bin'', ''ota_data_initial.bin'']"

definition PACKAGE_FILES :: "string list" where
  "PACKAGE_FILES = [''firmware.bin'', ''verification-key.bin'', ''sdk-lock.json'', ''LICENSE'', ''inputs.json'', ''context.json'',
     ''version-snapshot.json'', ''build.json'', ''dependencies.lock''] @ BUILD_FILE_NAMES"

definition RUN_FILES :: "string list" where
  "RUN_FILES = [''package-inputs.json'', ''package-manifest.json'']"

definition zip_read :: "zip_item list \<Rightarrow> pystr \<Rightarrow> bytes res" where
  "zip_read items name = (case find (\<lambda>item. z_name item = name) items of
      None \<Rightarrow> Inl (Raise KeyError ''no such entry'')
    | Some item \<Rightarrow> z_content item)"

definition check_names :: "zip_item list \<Rightarrow> unit res" where
  "check_names items =
     require (distinct (map z_name items) \<and> list_all (\<lambda>item. 47 \<notin> set (z_name item) \<and> 92 \<notin> set (z_name item)) items \<and>
              list_all (\<lambda>item. z_size item \<le> 64 * 1024 * 1024 \<and> z_regular item) items)
       (Raise ValueError ''entries repeated or out of bounds'') (Inr ())"

definition signature_scheme :: "target \<Rightarrow> string" where
  "signature_scheme t = (case t of Esp32c3 \<Rightarrow> ''rsa-3072-v2'' | Esp32 \<Rightarrow> ''ecdsa-p256-v1'')"

definition members :: "package_env \<Rightarrow> pyval \<Rightarrow> string list" where
  "members env schema = PACKAGE_FILES @ (if py_eq (pe_fnorm env) schema (PInt 2) then RUN_FILES else [])"

definition illegal :: exn where
  "illegal = Raise ValueError ''package identity or file set''"

text \<open>The first check of the manifest; it returns the target, the schema version and the listed files.\<close>

definition check_manifest ::
  "package_env \<Rightarrow> pystr list \<Rightarrow> (pystr \<times> pyval) list \<Rightarrow> pyval \<Rightarrow> (target \<times> int \<times> (pystr \<times> pyval) list) res" where
  "check_manifest env names m identity =
     bindE (py_getitem m ''schema_version'') (\<lambda>schema.
     bindE (case schema of PInt n \<Rightarrow> require (n = 1 \<or> n = 2) illegal (Inr n) | _ \<Rightarrow> Inl illegal) (\<lambda>version.
     bindE (py_getitem m ''kind'') (\<lambda>kind. require (kind = PStr (str ''esp-base-firmware'')) illegal
     (bindE (py_getitem m ''target'') (\<lambda>target_value.
      bindE (of_option (if hashable target_value then illegal else Raise TypeError ''target'') (find_target target_value)) (\<lambda>t.
      bindE (py_getitem m ''signature_scheme'') (\<lambda>scheme. require (scheme = PStr (str (signature_scheme t))) illegal
      (bindE (py_getitem m ''build'') (\<lambda>build. require (py_eq (pe_fnorm env) build identity) illegal
      (bindE (as_dict (Raise TypeError ''identity'') identity) (\<lambda>i.
       bindE (py_getitem i ''local_validation'') (\<lambda>local. require (local = PBool False) illegal
       (bindE (py_getitem m ''slot_capacity_bytes'') (\<lambda>capacity. require (py_eq (pe_fnorm env) capacity (PInt (int SLOT_BYTES))) illegal
       (bindE (py_getitem m ''signing_trust'') (\<lambda>trust.
        require (trust = PStr (str ''software-test'') \<or> trust = PStr (str ''release'')) illegal
        (bindE (dict_field m ''files'') (\<lambda>files.
         require (keys_are files (members env schema)) illegal
         (require (set names = str ` set (members env schema @ [''manifest.json'', ''manifest.signed.bin''])) illegal
          (Inr (t, version, files)))))))))))))))))))))"

definition check_files :: "package_env \<Rightarrow> zip_item list \<Rightarrow> (pystr \<times> pyval) list \<Rightarrow> unit res" where
  "check_files env items files =
     for_each (\<lambda>_ (name, expected).
       bindE (zip_read items name) (\<lambda>data.
       require (py_eq (pe_fnorm env) (PDict [(str ''sha256'', PStr (digest data)), (str ''bytes'', PInt (int (length data)))]) expected)
         (Raise ValueError ''file digest or size'') (Inr ()))) () files"

definition check_keys_and_manifest ::
  "package_env \<Rightarrow> zip_item list \<Rightarrow> target \<Rightarrow> bytes option \<Rightarrow> (bytes \<times> bytes) res" where
  "check_keys_and_manifest env items t trusted =
     bindE (zip_read items (str ''firmware.bin'')) (\<lambda>img.
     bindE (zip_read items (str ''verification-key.bin'')) (\<lambda>key.
     bindE (public_key (pe_crypto env) key t) (\<lambda>_.
     bindE (case trusted of None \<Rightarrow> Inr ()
            | Some k \<Rightarrow> bindE (public_key (pe_crypto env) k t) (\<lambda>k'.
                require (k' = key) (Raise ValueError ''key is not the authorised one'') (Inr ()))) (\<lambda>_.
     bindE (zip_read items (str ''manifest.json'')) (\<lambda>manifest.
     bindE (zip_read items (str ''manifest.signed.bin'')) (\<lambda>signed.
     bindE (verify_signed (pe_verify env) signed manifest key t) (\<lambda>_. Inr (img, key))))))))"

definition same_items :: "package_env \<Rightarrow> (pystr \<times> pyval) list \<Rightarrow> (pystr \<times> pyval) list \<Rightarrow> (string \<times> string) list \<Rightarrow> bool res" where
  "same_items env d e keys = for_each (\<lambda>ok (k, k').
     if ok then bindE (py_getitem d k) (\<lambda>v. bindE (py_getitem e k') (\<lambda>w. Inr (py_eq (pe_fnorm env) v w))) else Inr False) True keys"

definition check_binding ::
  "package_env \<Rightarrow> zip_item list \<Rightarrow> (pystr \<times> pyval) list \<Rightarrow> pyval \<Rightarrow> target \<Rightarrow> int \<Rightarrow> (pystr \<times> pyval) list \<Rightarrow> unit res" where
  "check_binding env items m identity t version files =
     bindE (bindE (zip_read items (str ''inputs.json'')) (pe_loads env)) (\<lambda>inputs.
     bindE (bindE (zip_read items (str ''context.json'')) (pe_loads env)) (\<lambda>context.
     bindE (bindE (zip_read items (str ''version-snapshot.json'')) (pe_loads env)) (\<lambda>snapshot.
     bindE (if version = 2
            then bindE (bindE (zip_read items (str ''package-inputs.json'')) (pe_loads env)) (\<lambda>run.
                 bindE (zip_read items (str ''package-manifest.json'')) (\<lambda>raw. validate_run_inputs env run raw inputs context))
            else bindE (as_dict (Raise TypeError ''context'') context) (\<lambda>ctx.
                 bindE (py_getitem ctx ''profile_snapshot_id'') (\<lambda>snapshot_id.
                 require (snapshot_id = PStr (digest (encoded inputs))) (Raise ValueError ''historical inputs'') (Inr ())))) (\<lambda>_.
     bindE (as_dict (Raise TypeError ''inputs'') inputs) (\<lambda>ins.
     bindE (as_dict (Raise TypeError ''identity'') identity) (\<lambda>i.
     let unbound = Raise ValueError ''manifest not bound to the inputs'' in
     bindE (same_items env ins m [(''target'', ''target''), (''signing_trust'', ''signing_trust'')]) (\<lambda>a. require a unbound
     (bindE (same_items env ins i [(''source_commit_sha'', ''source_commit_sha'')]) (\<lambda>b. require b unbound
     (bindE (same_items env ins m [(''components'', ''components'')]) (\<lambda>c. require c unbound
     (bindE (dict_field ins ''sdkconfig'') (\<lambda>config.
      bindE (same_items env config m [(''values_sha256'', ''sdkconfig_values_sha256'')]) (\<lambda>d. require d unbound
      (bindE (py_getitem m ''input_manifest_sha256'') (\<lambda>sha. require (sha = PStr (digest (encoded inputs))) unbound
      (bindE (same_items env ins files [(''verification_key'', ''verification-key.bin''), (''sdk_lock'', ''sdk-lock.json''),
                (''dependency_lock'', ''dependencies.lock'')]) (\<lambda>e. require e unbound
      (bindE (pe_recorded env context snapshot t) (\<lambda>recorded.
       require (py_eq (pe_fnorm env) recorded identity) unbound (Inr ())))))))))))))))))))))"

definition check_image :: "package_env \<Rightarrow> bytes \<Rightarrow> bytes \<Rightarrow> pyval \<Rightarrow> target \<Rightarrow> unit res" where
  "check_image env img key identity t =
     bindE (inspect_image img identity t) (\<lambda>_.
     bindE (signed_image img t True True) (\<lambda>native.
     require (native = img \<and> length img \<le> SLOT_BYTES) (Raise ValueError ''firmware exceeds the slot'')
     (require (pe_verify env key t img) (Raise SubprocessError ''espsecure'') (Inr ()))))"

definition verify_package :: "package_env \<Rightarrow> zip_item list \<Rightarrow> bool \<Rightarrow> bytes option \<Rightarrow> pyval res" where
  "verify_package env items require_release trusted =
     bindE (check_names items) (\<lambda>_.
     bindE (bindE (zip_read items (str ''manifest.json'')) (pe_loads env)) (\<lambda>manifest.
     bindE (bindE (zip_read items (str ''build.json'')) (pe_loads env)) (\<lambda>identity.
     bindE (as_dict (Raise TypeError ''manifest'') manifest) (\<lambda>m.
     bindE (check_manifest env (map z_name items) m identity) (\<lambda>(t, version, files).
     require (require_release \<longrightarrow> map_of m (str ''signing_trust'') = Some (PStr (str ''release'')) \<and> trusted \<noteq> None)
       (Raise ValueError ''release needs the release chain and a trusted key'')
     (bindE (check_files env items files) (\<lambda>_.
      bindE (check_keys_and_manifest env items t trusted) (\<lambda>(img, key).
      bindE (check_binding env items m identity t version files) (\<lambda>_.
      bindE (check_image env img key identity t) (\<lambda>_. Inr manifest))))))))))"

subsection \<open>What an accepted package guarantees\<close>

lemma check_manifest_facts:
  assumes "check_manifest env names m identity = Inr (t, version, files)"
  shows "\<exists>schema build. map_of m (str ''schema_version'') = Some schema \<and> keys_are files (members env schema) \<and>
      set names = str ` set (members env schema @ [''manifest.json'', ''manifest.signed.bin'']) \<and>
      map_of m (str ''target'') = Some (PStr (str (target_name t))) \<and>
      map_of m (str ''files'') = Some (PDict files) \<and> map_of m (str ''build'') = Some build \<and> py_eq (pe_fnorm env) build identity"
    and "\<exists>i. identity = PDict i \<and> map_of i (str ''local_validation'') = Some (PBool False)"
proof -
  have *: "\<exists>schema build v i. map_of m (str ''schema_version'') = Some schema \<and> keys_are files (members env schema) \<and>
      set names = str ` set (members env schema @ [''manifest.json'', ''manifest.signed.bin'']) \<and>
      map_of m (str ''target'') = Some v \<and> find_target v = Some t \<and>
      map_of m (str ''files'') = Some (PDict files) \<and> map_of m (str ''build'') = Some build \<and> py_eq (pe_fnorm env) build identity \<and>
      identity = PDict i \<and> map_of i (str ''local_validation'') = Some (PBool False)"
    using assms unfolding check_manifest_def res_simps dict_field_def by (elim exE conjE) (simp add: res_simps)
  have "v = PStr (str (target_name t))" if "find_target v = Some t" for v
    using that by (auto simp: find_target_def target_name_def split: if_splits)
  with * show "\<exists>schema build. map_of m (str ''schema_version'') = Some schema \<and> keys_are files (members env schema) \<and>
      set names = str ` set (members env schema @ [''manifest.json'', ''manifest.signed.bin'']) \<and>
      map_of m (str ''target'') = Some (PStr (str (target_name t))) \<and>
      map_of m (str ''files'') = Some (PDict files) \<and> map_of m (str ''build'') = Some build \<and> py_eq (pe_fnorm env) build identity"
    "\<exists>i. identity = PDict i \<and> map_of i (str ''local_validation'') = Some (PBool False)"
    by metis+
qed

lemma check_files_each:
  assumes "check_files env items files = Inr ()" and "(name, expected) \<in> set files"
  shows "\<exists>data. zip_read items name = Inr data \<and>
    py_eq (pe_fnorm env) (PDict [(str ''sha256'', PStr (digest data)), (str ''bytes'', PInt (int (length data)))]) expected"
proof -
  have "\<forall>(name, expected) \<in> set files. \<exists>data. zip_read items name = Inr data \<and>
      py_eq (pe_fnorm env) (PDict [(str ''sha256'', PStr (digest data)), (str ''bytes'', PInt (int (length data)))]) expected"
    by (rule for_each_inv [OF assms(1) [unfolded check_files_def]]) (auto simp: res_simps)
  with assms(2) show ?thesis by blast
qed

lemma check_image_facts:
  assumes "check_image env img key identity t = Inr ()"
  shows "inspect_image img identity t = Inr identity" and "signed_image img t True True = Inr img"
    and "length img \<le> SLOT_BYTES" and "pe_verify env key t img"
  using assms inspected_descriptor by (auto simp: check_image_def res_simps)

text \<open>
  What a package is accepted for: its complete set of files with their digests, a manifest and an image signed
  with the key it contains, an image that carries the identity of the package, and a recorded identity.
\<close>

definition package_holds :: "package_env \<Rightarrow> zip_item list \<Rightarrow> target \<Rightarrow> (pystr \<times> pyval) list \<Rightarrow> bytes \<Rightarrow> bytes \<Rightarrow> pyval \<Rightarrow> bool" where
  "package_holds env items t files img key identity =
     (distinct (map z_name items) \<and>
      set (map z_name items) = set (map fst files) \<union> {str ''manifest.json'', str ''manifest.signed.bin''} \<and>
      str ` set PACKAGE_FILES \<subseteq> set (map fst files) \<and>
      (\<forall>(name, expected) \<in> set files. \<exists>data. zip_read items name = Inr data \<and>
         py_eq (pe_fnorm env) (PDict [(str ''sha256'', PStr (digest data)), (str ''bytes'', PInt (int (length data)))]) expected) \<and>
      zip_read items (str ''firmware.bin'') = Inr img \<and> zip_read items (str ''verification-key.bin'') = Inr key \<and>
      (\<exists>manifest signed. zip_read items (str ''manifest.json'') = Inr manifest \<and> zip_read items (str ''manifest.signed.bin'') = Inr signed \<and>
         take (length manifest) signed = manifest \<and> pe_verify env key t signed) \<and>
      signed_image img t True True = Inr img \<and> length img \<le> SLOT_BYTES \<and> pe_verify env key t img \<and>
      inspect_image img identity t = Inr identity)"

text \<open>
  The identity of a package: \<^verbatim>\<open>manifest.json\<close> is the manifest, \<^verbatim>\<open>build.json\<close> is the identity, the manifest names this identity, the
  digest of the inputs in the archive and their source, and the Core's record of the context and the snapshot gives this identity.
\<close>

definition decoded_member :: "package_env \<Rightarrow> zip_item list \<Rightarrow> string \<Rightarrow> pyval \<Rightarrow> bool" where
  "decoded_member env items name v = (\<exists>raw. zip_read items (str name) = Inr raw \<and> pe_loads env raw = Inr v)"

definition package_identified :: "package_env \<Rightarrow> zip_item list \<Rightarrow> target \<Rightarrow> (pystr \<times> pyval) list \<Rightarrow> (pystr \<times> pyval) list \<Rightarrow> bool" where
  "package_identified env items t m identity =
     (decoded_member env items ''manifest.json'' (PDict m) \<and> decoded_member env items ''build.json'' (PDict identity) \<and>
      (\<exists>build. map_of m (str ''build'') = Some build \<and> py_eq (pe_fnorm env) build (PDict identity)) \<and>
      (\<exists>inputs a b. decoded_member env items ''inputs.json'' (PDict inputs) \<and>
         map_of m (str ''input_manifest_sha256'') = Some (PStr (digest (encoded (PDict inputs)))) \<and>
         map_of inputs (str ''source_commit_sha'') = Some a \<and> map_of identity (str ''source_commit_sha'') = Some b \<and> py_eq (pe_fnorm env) a b) \<and>
      (\<exists>context snapshot recorded. decoded_member env items ''context.json'' context \<and> decoded_member env items ''version-snapshot.json'' snapshot \<and>
         pe_recorded env context snapshot t = Inr recorded \<and> py_eq (pe_fnorm env) recorded (PDict identity)))"

lemma check_binding_facts:
  assumes "check_binding env items m (PDict identity) t version files = Inr ()"
  shows "(\<exists>inputs a b. decoded_member env items ''inputs.json'' (PDict inputs) \<and>
         map_of m (str ''input_manifest_sha256'') = Some (PStr (digest (encoded (PDict inputs)))) \<and>
         map_of inputs (str ''source_commit_sha'') = Some a \<and> map_of identity (str ''source_commit_sha'') = Some b \<and> py_eq (pe_fnorm env) a b) \<and>
    (\<exists>context snapshot recorded. decoded_member env items ''context.json'' context \<and> decoded_member env items ''version-snapshot.json'' snapshot \<and>
         pe_recorded env context snapshot t = Inr recorded \<and> py_eq (pe_fnorm env) recorded (PDict identity))"
proof -
  obtain inputs raw ctx raw_context snapshot raw_snapshot ins ok recorded sha where steps:
      "zip_read items (str ''inputs.json'') = Inr raw" "pe_loads env raw = Inr inputs"
      "zip_read items (str ''context.json'') = Inr raw_context" "pe_loads env raw_context = Inr ctx"
      "zip_read items (str ''version-snapshot.json'') = Inr raw_snapshot" "pe_loads env raw_snapshot = Inr snapshot"
      "as_dict (Raise TypeError ''inputs'') inputs = Inr ins" "same_items env ins identity [(''source_commit_sha'', ''source_commit_sha'')] = Inr ok" ok
      "py_getitem m ''input_manifest_sha256'' = Inr sha" "sha = PStr (digest (encoded inputs))"
      "pe_recorded env ctx snapshot t = Inr recorded" "py_eq (pe_fnorm env) recorded (PDict identity)"
    using assms unfolding check_binding_def Let_def bindE_eq_Inr require_eq_Inr by (elim exE conjE) (simp add: as_dict_def)
  from steps(8,9) obtain a b where "map_of ins (str ''source_commit_sha'') = Some a" "map_of identity (str ''source_commit_sha'') = Some b" "py_eq (pe_fnorm env) a b"
    by (auto simp: same_items_def py_getitem_def res_simps)
  moreover have "inputs = PDict ins" using steps(7) by (simp add: as_dict_eq_Inr)
  ultimately show ?thesis
    using steps by (auto simp: decoded_member_def py_getitem_def res_simps)
qed

lemma verify_signed_front:
  assumes "verify_signed check img raw key t = Inr ()"
  shows "take (length raw) img = raw" and "check key t img"
proof -
  let ?p = "if t = Esp32c3 then padding_to_4096 (length raw) else 0"
  have front: "take (length raw + ?p) img = raw @ erased ?p"
    using assms by (simp add: verify_signed_def Let_def res_simps)
  show "take (length raw) img = raw"
    using arg_cong [OF front, of "take (length raw)"] by simp
  show "check key t img"
    using assms by (simp add: verify_signed_def Let_def res_simps)
qed

text \<open>
  C6: an accepted package is complete and its firmware is what it says.  When \<^verbatim>\<open>verify_package\<close> returns a manifest, it is what
  \<^verbatim>\<open>manifest.json\<close> decodes to, and the bytes of this file are at the front of the signed manifest; the
  archive holds exactly the files of its manifest (at least the required ones) with their digests and sizes, and the
  signed manifest; the manifest and the image are signed with the contained key; the image is exactly one complete signed image
  for the target that fits the slot, and it carries the formal identity that \<^verbatim>\<open>build.json\<close> holds, that the manifest names and that the Core recorded; the manifest
  is bound to the inputs in the archive, which have the source of the identity; and a release verification
  accepts only the key the caller trusts.
\<close>

theorem verified_package_sound:
  assumes "verify_package env items require_release trusted = Inr manifest"
  shows "\<exists>m t files img key identity. manifest = PDict m \<and> map_of m (str ''target'') = Some (PStr (str (target_name t))) \<and>
    map_of m (str ''files'') = Some (PDict files) \<and> package_holds env items t files img key (PDict identity) \<and>
    package_identified env items t m identity \<and> map_of identity (str ''local_validation'') = Some (PBool False) \<and>
    (trusted \<noteq> None \<longrightarrow> trusted = Some key) \<and>
    (require_release \<longrightarrow> trusted = Some key \<and> map_of m (str ''signing_trust'') = Some (PStr (str ''release'')))"
proof -
  obtain identity m t version files img key where
    steps: "check_names items = Inr ()" "check_manifest env (map z_name items) m identity = Inr (t, version, files)"
      "check_files env items files = Inr ()" "check_keys_and_manifest env items t trusted = Inr (img, key)"
      "check_image env img key identity t = Inr ()"
    and m: "manifest = PDict m" and binding: "check_binding env items m identity t version files = Inr ()"
    and decoded: "decoded_member env items ''manifest.json'' (PDict m)" "decoded_member env items ''build.json'' identity"
    and release: "require_release \<longrightarrow> map_of m (str ''signing_trust'') = Some (PStr (str ''release'')) \<and> trusted \<noteq> None"
    using assms by (auto simp: verify_package_def res_simps as_dict_eq_Inr decoded_member_def)
  obtain schema i build where
    man: "map_of m (str ''target'') = Some (PStr (str (target_name t)))" "map_of m (str ''files'') = Some (PDict files)"
      "keys_are files (members env schema)"
      "set (map z_name items) = str ` set (members env schema @ [''manifest.json'', ''manifest.signed.bin''])"
      "identity = PDict i" "map_of i (str ''local_validation'') = Some (PBool False)"
      "map_of m (str ''build'') = Some build" "py_eq (pe_fnorm env) build identity"
    using check_manifest_facts [OF steps(2)] by blast
  have keys: "set (map fst files) = str ` set (members env schema)"
    using man(3) by (simp add: keys_are_iff)
  obtain raw signed where kf: "zip_read items (str ''firmware.bin'') = Inr img" "zip_read items (str ''verification-key.bin'') = Inr key"
      "zip_read items (str ''manifest.json'') = Inr raw" "zip_read items (str ''manifest.signed.bin'') = Inr signed"
      "verify_signed (pe_verify env) signed raw key t = Inr ()" "trusted \<noteq> None \<longrightarrow> trusted = Some key"
    using steps(4) by (auto simp: check_keys_and_manifest_def public_key_def res_simps split: option.splits)
  note signed = verify_signed_front [OF kf(5)]
  have "distinct (map z_name items)"
    using steps(1) by (auto simp: check_names_def res_simps)
  then have "package_holds env items t files img key (PDict i)"
    unfolding package_holds_def
    using man(4) keys check_files_each [OF steps(3)] kf signed check_image_facts [OF steps(5)] man(5)
    by (auto simp: members_def)
  moreover have "package_identified env items t m i"
    using decoded man(5,7,8) check_binding_facts [of env items m i t version files] binding by (auto simp: package_identified_def)
  ultimately show ?thesis
    using m man release kf(6) by blast
qed

end
