(* ===== verification/Package_Run.thy ===== *)
theory Package_Run
  imports Package
begin

text \<open>
  One firmware package, verified from end to end: a formal release build for the ESP32 with its image, key, manifest and
  recorded identity.  It is the witness of the property of \<open>Package\<close>.  The JSON decoder is a function that knows the
  five JSON files of this package; digests stay symbolic.
\<close>

subsection \<open>The image\<close>

definition run_identity :: build_id where
  "run_identity = \<lparr>bi_target = Esp32, bi_local = False, bi_version = str ''1.2.0'', bi_number = 7, bi_run = str ''run-7'',
     bi_source = replicate 40 97, bi_inputs = replicate 64 98\<rparr>"

definition release_descriptor :: bytes where
  "release_descriptor = to_le 4 MAGIC @ to_le 4 320 @ to_le 8 7 @ to_le 4 1 @ to_le 4 0 @ field_bytes ''1.2.0'' 32 @
     (replicate 40 97 @ zeros 1) @ (replicate 64 98 @ zeros 1) @ field_bytes ''run-7'' 128 @ field_bytes ''esp32'' 16 @ zeros 14"

definition release_segment :: bytes where
  "release_segment = [0x32, 0x54, 0xcd, 0xab] @ zeros 12 @ field_bytes ''1.2.0'' 32 @ field_bytes ''esp_base'' 32 @ zeros 176 @
     release_descriptor"

definition release_image :: bytes where
  "release_image = ([0xe9, 1] @ zeros 26 @ [0x40, 2, 0, 0]) @ release_segment @ zeros 15 @ [foldl (XOR) 0xef release_segment] @ zeros 68"

lemma release_lengths: "length release_descriptor = 320" "length release_segment = 576" "length release_image = 692"
  "length (field_bytes ''1.2.0'' 32) = 32" "length (field_bytes ''esp_base'' 32) = 32"
  by (simp_all add: release_descriptor_def release_segment_def release_image_def field_bytes_def)

lemma release_fields:
  "fixed (str ''run-7'') 128 = Inr (field_bytes ''run-7'' 128)"
  "fixed (replicate 40 97) 41 = Inr (replicate 40 97 @ zeros 1)" "fixed (replicate 64 98) 65 = Inr (replicate 64 98 @ zeros 1)"
proof -
  show "fixed (str ''run-7'') 128 = Inr (field_bytes ''run-7'' 128)"
    by code_simp
  show "fixed (replicate 40 97) 41 = Inr (replicate 40 97 @ zeros 1)" "fixed (replicate 64 98) 65 = Inr (replicate 64 98 @ zeros 1)"
    by (simp_all add: fixed_def ascii_encode_def list_all_iff)
qed

lemma release_descriptor_of: "descriptor_of (identity_dict run_identity) Esp32 = Inr release_descriptor"
proof -
  have texts: "build_version_text (str ''1.2.0'')" "run_id_text (str ''run-7'')" "45 \<notin> set (str ''1.2.0'')"
    by code_simp+
  have hexes: "lower_hex_text 40 (replicate 40 97)" "lower_hex_text 64 (replicate 64 98)"
    by (simp_all add: lower_hex_text_def list_all_iff is_lower_hex_def)
  have "keys_are (identity_dict run_identity) FORMAL_KEYS"
    by (auto simp: keys_are_iff identity_dict_def run_identity_def FORMAL_KEYS_def LOCAL_KEYS_def)
  then have fields: "identity_fields (identity_dict run_identity) Esp32 = Inr (False, str ''1.2.0'')"
    by (simp add: identity_fields_eq_Inr texts identity_dict_def run_identity_def str_inj_iff)
  have present: "text_field (identity_dict run_identity) ''source_commit_sha'' [] = Inr (replicate 40 97)"
    "text_field (identity_dict run_identity) ''input_sha256'' [] = Inr (replicate 64 98)"
    "text_field (identity_dict run_identity) ''run_id'' [] = Inr (str ''run-7'')"
    by (simp_all add: text_field_def identity_dict_def run_identity_def str_inj_iff)
  have "map_of (identity_dict run_identity) (str ''build_number'') = Some (PInt 7)"
    by (simp add: identity_dict_def run_identity_def str_inj_iff)
  then have number: "build_number (identity_dict run_identity) False (str ''1.2.0'') = Inr 7"
    by (simp add: build_number_def present texts hexes MAX_NUMBER_def)
  have "fixed (str (target_name Esp32)) 16 = Inr (field_bytes ''esp32'' 16)"
    using sample_fields(2) by (simp add: target_name_def)
  then show ?thesis
    by (simp add: descriptor_of_def fields number present sample_fields release_fields release_descriptor_def DESCRIPTOR_SIZE_def)
qed

lemma release_parts:
  "release_image ! 0 = 0xe9" "release_image ! 1 = 1" "release_image ! 23 = 0" "release_image ! 623 = foldl (XOR) 0xef release_segment"
  "from_le (pslice release_image 12 14) = 0" "u32 release_image 28 = 576" "pslice release_image 32 608 = release_segment"
  "u32 release_image 32 = 0xabcd5432" "pslice release_image 48 80 = field_bytes ''1.2.0'' 32"
  "pslice release_image 80 112 = field_bytes ''esp_base'' 32" "pslice release_image 288 608 = release_descriptor"
proof -
  let ?head = "[0xe9, 1] @ zeros 26 @ [0x40, 2, 0, 0] :: bytes"
  have head: "length ?head = 32" by simp
  have inner: "pslice release_image a b = pslice release_segment (a - 32) (b - 32)" if "32 \<le> a" "b \<le> 608" for a b
    using that release_lengths(2) unfolding release_image_def by (simp add: pslice_append_right pslice_append_left del: append.simps)
  show "pslice release_image 32 608 = release_segment"
    using inner [of 32 608] release_lengths(2) by (simp add: pslice_def)
  show "release_image ! 0 = 0xe9" "release_image ! 1 = 1" "release_image ! 23 = 0"
    by (simp_all add: release_image_def nth_append zeros_def)
  show "release_image ! 623 = foldl (XOR) 0xef release_segment"
    using release_lengths(2) by (simp add: release_image_def nth_append)
  show "from_le (pslice release_image 12 14) = 0" "u32 release_image 28 = 576"
    by (simp_all add: release_image_def u32_def zeros_def from_le_zeros [unfolded zeros_def] slice_simps)
  note segment = release_segment_def release_lengths(1,4,5) slice_simps
  show "u32 release_image 32 = 0xabcd5432" "pslice release_image 48 80 = field_bytes ''1.2.0'' 32"
    "pslice release_image 80 112 = field_bytes ''esp_base'' 32" "pslice release_image 288 608 = release_descriptor"
    by (simp_all add: u32_def inner) (simp_all add: segment)
qed

lemma release_inspected: "inspect_image release_image (PDict (identity_dict run_identity)) Esp32 = Inr (PDict (identity_dict run_identity))"
proof -
  have "walk_segments release_image 1 24 = Inr ()"
    using release_parts(6) release_lengths(3) by (simp add: eval_nat_numeral(3) [of num.One])
  moreover have "native_version (identity_dict run_identity) = Inr (field_bytes ''1.2.0'' 32)"
    using sample_fields(1) by (simp add: native_version_def py_getitem_def identity_dict_def run_identity_def str_inj_iff)
  ultimately show ?thesis
    using release_parts release_lengths(3) release_descriptor_of sample_fields(3)
    by (simp add: inspect_image_def DESCRIPTOR_SIZE_def chip_id_def descriptor_bytes_def)
qed

lemma release_signed: "signed_image release_image Esp32 True True = Inr release_image"
proof -
  have segments: "image_segments release_image 1 24 0xef = Inr (608, foldl (XOR) 0xef release_segment)"
    using release_parts(6,7) release_lengths(3) by (simp add: eval_nat_numeral(3) [of num.One])
  have "takeWhile (\<lambda>b. b \<noteq> 0) (field_bytes ''esp_base'' 32) = ascii ''esp_base''"
    by code_simp
  then show ?thesis
    using segments release_parts release_lengths(3)
    by (simp add: signed_image_def image_body_end_def image_header_ok_def chip_id_def app_descriptor_ok_def signed_end_def)
qed

subsection \<open>The package\<close>

definition run_key :: bytes where
  "run_key = replicate 64 1"

definition run_content :: "string \<Rightarrow> bytes" where
  "run_content name = (case map_of [(''firmware.bin'', release_image), (''verification-key.bin'', run_key), (''manifest.json'', [1]),
     (''build.json'', [2]), (''inputs.json'', [3]), (''context.json'', [4]), (''version-snapshot.json'', [5]),
     (''manifest.signed.bin'', [1] @ zeros 68)] name of None \<Rightarrow> [] | Some raw \<Rightarrow> raw)"

definition run_items :: "zip_item list" where
  "run_items = map (\<lambda>name. \<lparr>z_name = str name, z_size = length (run_content name), z_regular = True, z_content = Inr (run_content name)\<rparr>)
     (PACKAGE_FILES @ [''manifest.json'', ''manifest.signed.bin''])"

definition run_fact :: "string \<Rightarrow> pyval" where
  "run_fact name = PDict [(str ''sha256'', PStr (digest (run_content name))), (str ''bytes'', PInt (int (length (run_content name))))]"

definition run_files :: "(pystr \<times> pyval) list" where
  "run_files = map (\<lambda>name. (str name, run_fact name)) PACKAGE_FILES"

definition run_inputs :: "(pystr \<times> pyval) list" where
  "run_inputs = [(str ''target'', PStr (str ''esp32'')), (str ''signing_trust'', PStr (str ''release'')),
     (str ''source_commit_sha'', PStr (replicate 40 97)), (str ''components'', PDict []),
     (str ''sdkconfig'', PDict [(str ''values_sha256'', PStr (digest []))]), (str ''verification_key'', run_fact ''verification-key.bin''),
     (str ''sdk_lock'', run_fact ''sdk-lock.json''), (str ''dependency_lock'', run_fact ''dependencies.lock'')]"

definition run_manifest :: "(pystr \<times> pyval) list" where
  "run_manifest = [(str ''schema_version'', PInt 1), (str ''kind'', PStr (str ''esp-base-firmware'')), (str ''target'', PStr (str ''esp32'')),
     (str ''signature_scheme'', PStr (str ''ecdsa-p256-v1'')), (str ''build'', PDict (identity_dict run_identity)),
     (str ''slot_capacity_bytes'', PInt (int SLOT_BYTES)), (str ''signing_trust'', PStr (str ''release'')), (str ''files'', PDict run_files),
     (str ''components'', PDict []), (str ''sdkconfig_values_sha256'', PStr (digest [])),
     (str ''input_manifest_sha256'', PStr (digest (encoded (PDict run_inputs))))]"

definition run_loads :: "bytes \<Rightarrow> pyval res" where
  "run_loads raw = (case map_of [([1], PDict run_manifest), ([2], PDict (identity_dict run_identity)), ([3], PDict run_inputs),
     ([4], PDict [(str ''profile_snapshot_id'', PStr (digest (encoded (PDict run_inputs))))]), ([5], PDict [])] raw of
       None \<Rightarrow> Inl (Raise ValueError ''JSON'') | Some v \<Rightarrow> Inr v)"

definition run_env :: package_env where
  "run_env = \<lparr>pe_loads = run_loads, pe_fnorm = (\<lambda>_. PNone), pe_crypto = (\<lambda>_ _. True), pe_verify = (\<lambda>_ _ _. True),
     pe_recorded = (\<lambda>_ _ _. Inr (PDict (identity_dict run_identity)))\<rparr>"

lemma find_map_str: "find (\<lambda>item. z_name item = str name) (map f names) =
    (if name \<in> set names then Some (f name) else None)" if "\<And>n. z_name (f n) = str n"
  using that by (induction names) (auto simp: str_inj_iff)

lemma release_read: "name \<in> set (PACKAGE_FILES @ [''manifest.json'', ''manifest.signed.bin'']) \<Longrightarrow> zip_read run_items (str name) = Inr (run_content name)"
  unfolding zip_read_def run_items_def by (subst find_map_str) auto

lemma release_reads:
  "zip_read run_items (str ''firmware.bin'') = Inr release_image" "zip_read run_items (str ''verification-key.bin'') = Inr run_key"
  "zip_read run_items (str ''manifest.json'') = Inr [1]" "zip_read run_items (str ''build.json'') = Inr [2]"
  "zip_read run_items (str ''inputs.json'') = Inr [3]" "zip_read run_items (str ''context.json'') = Inr [4]"
  "zip_read run_items (str ''version-snapshot.json'') = Inr [5]" "zip_read run_items (str ''manifest.signed.bin'') = Inr ([1] @ zeros 68)"
  by (subst release_read; simp add: PACKAGE_FILES_def run_content_def)+

text \<open>An environment that decodes the files of this package and accepts its keys, signatures and record.\<close>

definition reads_release :: "package_env \<Rightarrow> bool" where
  "reads_release env = (pe_loads env [1] = Inr (PDict run_manifest) \<and> pe_loads env [2] = Inr (PDict (identity_dict run_identity)) \<and>
     pe_loads env [3] = Inr (PDict run_inputs) \<and> pe_loads env [5] = Inr (PDict []) \<and>
     pe_loads env [4] = Inr (PDict [(str ''profile_snapshot_id'', PStr (digest (encoded (PDict run_inputs))))]) \<and>
     pe_crypto env = (\<lambda>_ _. True) \<and> pe_verify env = (\<lambda>_ _ _. True) \<and> pe_recorded env = (\<lambda>_ _ _. Inr (PDict (identity_dict run_identity))))"

lemma run_env_reads: "reads_release run_env"
  by (simp add: reads_release_def run_env_def run_loads_def)

lemma run_decoded:
  assumes "reads_release env"
  shows "pe_loads env [1] = Inr (PDict run_manifest)" "pe_loads env [2] = Inr (PDict (identity_dict run_identity))"
    "pe_loads env [3] = Inr (PDict run_inputs)" "pe_loads env [5] = Inr (PDict [])"
    "pe_loads env [4] = Inr (PDict [(str ''profile_snapshot_id'', PStr (digest (encoded (PDict run_inputs))))])"
    "pe_crypto env = (\<lambda>_ _. True)" "pe_verify env = (\<lambda>_ _ _. True)"
    "pe_recorded env = (\<lambda>_ _ _. Inr (PDict (identity_dict run_identity)))"
  using assms by (simp_all add: reads_release_def)

lemma run_names: "check_names run_items = Inr ()"
proof -
  have "distinct (map str (PACKAGE_FILES @ [''manifest.json'', ''manifest.signed.bin'']))"
    by (simp add: PACKAGE_FILES_def BUILD_FILE_NAMES_def str_inj_iff)
  moreover have "list_all (\<lambda>name. 47 \<notin> set (str name) \<and> 92 \<notin> set (str name)) (PACKAGE_FILES @ [''manifest.json'', ''manifest.signed.bin''])"
    by code_simp
  moreover have "length (run_content name) \<le> 692" for name
    using release_lengths(3) by (simp add: run_content_def run_key_def split: if_splits)
  then have "length (run_content name) \<le> 64 * 1024 * 1024" for name
    by (rule order_trans) simp
  ultimately show ?thesis
    unfolding check_names_def run_items_def by (simp add: list.pred_map comp_def list_all_iff)
qed

lemma run_manifest_checked:
  "check_manifest env (map z_name run_items) run_manifest (PDict (identity_dict run_identity)) = Inr (Esp32, 1, run_files)"
proof -
  have members: "members env (PInt 1) = PACKAGE_FILES"
    by (simp add: members_def py_eq_def)
  have files: "keys_are run_files PACKAGE_FILES"
    by (simp add: keys_are_iff run_files_def image_image)
  have names: "set (map z_name run_items) = str ` set (PACKAGE_FILES @ [''manifest.json'', ''manifest.signed.bin''])"
    by (simp add: run_items_def image_image)
  have local: "map_of (identity_dict run_identity) (str ''local_validation'') = Some (PBool False)"
    by (simp add: identity_dict_def run_identity_def str_inj_iff)
  have m: "map_of run_manifest (str ''schema_version'') = Some (PInt 1)" "map_of run_manifest (str ''kind'') = Some (PStr (str ''esp-base-firmware''))"
    "map_of run_manifest (str ''target'') = Some (PStr (str ''esp32''))" "map_of run_manifest (str ''signature_scheme'') = Some (PStr (str ''ecdsa-p256-v1''))"
    "map_of run_manifest (str ''build'') = Some (PDict (identity_dict run_identity))"
    "map_of run_manifest (str ''slot_capacity_bytes'') = Some (PInt (int SLOT_BYTES))"
    "map_of run_manifest (str ''signing_trust'') = Some (PStr (str ''release''))" "map_of run_manifest (str ''files'') = Some (PDict run_files)"
    by (simp_all add: run_manifest_def str_inj_iff)
  show ?thesis
    by (simp add: check_manifest_def py_getitem_def m members files names [simplified] local find_target_def signature_scheme_def dict_field_def str_inj_iff)
qed

lemma run_files_checked: "check_files env run_items run_files = Inr ()"
proof -
  have "for_each (\<lambda>_ (name, expected). bindE (zip_read run_items name) (\<lambda>data.
       require (py_eq (pe_fnorm env) (PDict [(str ''sha256'', PStr (digest data)), (str ''bytes'', PInt (int (length data)))]) expected)
         (Raise ValueError ''file digest or size'') (Inr ()))) () (map (\<lambda>name. (str name, run_fact name)) names) = Inr ()"
    if "set names \<subseteq> set PACKAGE_FILES" for names
    using that by (induction names) (auto simp: release_read run_fact_def)
  then show ?thesis
    by (simp add: check_files_def run_files_def)
qed

lemma run_keys_checked:
  assumes "reads_release env" and "trusted = None \<or> trusted = Some run_key"
  shows "check_keys_and_manifest env run_items Esp32 trusted = Inr (release_image, run_key)"
proof -
  have "contains (ascii ''PRIVATE KEY'') (replicate n 1) = False" for n
    by (induction n) (auto simp: ascii_def)
  then have "public_key (pe_crypto env) run_key Esp32 = Inr run_key"
    by (simp add: public_key_def run_key_def run_decoded [OF assms(1)])
  moreover have "verify_signed (pe_verify env) ([1] @ zeros 68) [1] run_key Esp32 = Inr ()"
    by (simp add: verify_signed_def layout_simps erased_def run_decoded [OF assms(1)])
  ultimately show ?thesis
    using assms(2) by (auto simp: check_keys_and_manifest_def release_reads)
qed

lemma run_bound:
  assumes "reads_release env"
  shows "check_binding env run_items run_manifest (PDict (identity_dict run_identity)) Esp32 1 run_files = Inr ()"
proof -
  have ins: "py_getitem run_inputs ''target'' = Inr (PStr (str ''esp32''))" "py_getitem run_inputs ''signing_trust'' = Inr (PStr (str ''release''))"
    "py_getitem run_inputs ''source_commit_sha'' = Inr (PStr (replicate 40 97))" "py_getitem run_inputs ''components'' = Inr (PDict [])"
    "py_getitem run_inputs ''sdkconfig'' = Inr (PDict [(str ''values_sha256'', PStr (digest []))])"
    "py_getitem run_inputs ''verification_key'' = Inr (run_fact ''verification-key.bin'')"
    "py_getitem run_inputs ''sdk_lock'' = Inr (run_fact ''sdk-lock.json'')" "py_getitem run_inputs ''dependency_lock'' = Inr (run_fact ''dependencies.lock'')"
    by (simp_all add: py_getitem_def run_inputs_def str_inj_iff)
  have man: "py_getitem run_manifest ''target'' = Inr (PStr (str ''esp32''))" "py_getitem run_manifest ''signing_trust'' = Inr (PStr (str ''release''))"
    "py_getitem run_manifest ''components'' = Inr (PDict [])" "py_getitem run_manifest ''sdkconfig_values_sha256'' = Inr (PStr (digest []))"
    "py_getitem run_manifest ''input_manifest_sha256'' = Inr (PStr (digest (encoded (PDict run_inputs))))"
    by (simp_all add: py_getitem_def run_manifest_def str_inj_iff)
  have other: "py_getitem (identity_dict run_identity) ''source_commit_sha'' = Inr (PStr (replicate 40 97))"
    "py_getitem [(str ''values_sha256'', v)] ''values_sha256'' = Inr v" "py_getitem [(str ''profile_snapshot_id'', v)] ''profile_snapshot_id'' = Inr v" for v
    by (simp_all add: py_getitem_def identity_dict_def run_identity_def str_inj_iff)
  have files: "py_getitem run_files ''verification-key.bin'' = Inr (run_fact ''verification-key.bin'')"
    "py_getitem run_files ''sdk-lock.json'' = Inr (run_fact ''sdk-lock.json'')" "py_getitem run_files ''dependencies.lock'' = Inr (run_fact ''dependencies.lock'')"
    by (simp_all add: py_getitem_def run_files_def PACKAGE_FILES_def BUILD_FILE_NAMES_def str_inj_iff)
  show ?thesis
    by (simp add: check_binding_def release_reads run_decoded [OF assms] dict_field_def same_items_def ins man other files)
qed

lemma run_image_checked:
  assumes "reads_release env"
  shows "check_image env release_image run_key (PDict (identity_dict run_identity)) Esp32 = Inr ()"
  using release_inspected release_signed release_lengths(3) by (simp add: check_image_def layout_simps run_decoded [OF assms])

lemma run_package_verified:
  assumes "reads_release env" and "trusted = None \<and> \<not> release \<or> trusted = Some run_key"
  shows "verify_package env run_items release trusted = Inr (PDict run_manifest)"
proof -
  have trust: "map_of run_manifest (str ''signing_trust'') = Some (PStr (str ''release''))"
    by (simp add: run_manifest_def str_inj_iff)
  have "check_keys_and_manifest env run_items Esp32 trusted = Inr (release_image, run_key)"
    using assms(2) by (intro run_keys_checked [OF assms(1)]) auto
  then show ?thesis
    using assms(2)
    by (auto simp: verify_package_def run_names release_reads run_decoded [OF assms(1)] run_manifest_checked run_files_checked trust
        run_bound [OF assms(1)] run_image_checked [OF assms(1)])
qed

theorem verified_package_sound_witness:
  "\<exists>m t files img key identity. PDict run_manifest = PDict m \<and> package_holds run_env run_items t files img key (PDict identity) \<and> Some run_key = Some key"
  using verified_package_sound [OF run_package_verified [OF run_env_reads, of "Some run_key" True]] by blast

end
