(* ===== verification/Build_Facts.thy ===== *)
theory Build_Facts
  imports Package "HOL-Library.Product_Lexorder"
begin

text \<open>
  The package build around a compiled directory (\<^verbatim>\<open>build_package.py\<close>): the environment of the build, the facts of a
  built directory (\<^verbatim>\<open>built_facts\<close>, \<^verbatim>\<open>bootstrap_facts\<close>), the verification key read back from a linked ELF file, and the
  binding of the frozen inputs to the run of the Core (\<^verbatim>\<open>run_inputs\<close>, \<^verbatim>\<open>validate_input\<close>).

  The ELF reader \<^verbatim>\<open>pyelftools\<close> is a parameter: \<open>elf_of\<close> gives the symbols by name and the address and bytes of a section.  The
  SDK's partition tools are \<open>sdk_parse\<close> and \<open>sdk_generate\<close> as in \<open>Flash_Layout\<close>; the facts of the public components (\<^verbatim>\<open>component_facts\<close>), of the
  tools and of git are arguments.  A built directory is the bytes of its files.

  Lemmas: what accepted facts say about the unsigned image, the bootloader and the table, and that a signed image
  accepted for an unpadded build is one complete image with the identity of the build.
\<close>

subsection \<open>The environment of the build\<close>

definition REJECTED_VARIABLES :: "string list" where
  "REJECTED_VARIABLES = [''CFLAGS'', ''CXXFLAGS'', ''CPPFLAGS'', ''LDFLAGS'', ''EXTRA_COMPONENT_DIRS'', ''CMAKE_TOOLCHAIN_FILE'',
     ''CMAKE_PROJECT_INCLUDE'', ''IDF_COMPONENT_MANAGER'']"

definition environment :: "(string \<Rightarrow> pystr option) \<Rightarrow> (string \<Rightarrow> pystr option) res" where
  "environment env =
     require (list_all (\<lambda>key. env_text env key = []) REJECTED_VARIABLES) (Raise ValueError ''environment overrides the inputs'')
     (Inr (env(''IDF_CCACHE_ENABLE'' := Some (str ''0''), ''CCACHE_DISABLE'' := Some (str ''1''), ''SDKCONFIG'' := None,
               ''SDKCONFIG_DEFAULTS'' := None, ''IDF_TARGET'' := None, ''PROJECT_VER'' := None)))"

subsection \<open>The embedded key\<close>

record elf_symbol =
  sy_section :: "nat option"
  sy_value :: int

record elf_file =
  el_symbols :: "(string \<Rightarrow> elf_symbol list option) option"
  el_section :: "nat \<Rightarrow> int \<times> bytes"

definition KEY_SYMBOL :: string where
  "KEY_SYMBOL = ''_binary_signature_verification_key_bin_''"

definition embedded_public_key :: "elf_file \<Rightarrow> bytes res" where
  "embedded_public_key elf = (case el_symbols elf of
      None \<Rightarrow> Inl (Raise ValueError ''no unique key symbol'')
    | Some symbols \<Rightarrow> (case (symbols (KEY_SYMBOL @ ''start''), symbols (KEY_SYMBOL @ ''end'')) of
        (Some [start], Some [stop]) \<Rightarrow> (case sy_section start of
            None \<Rightarrow> Inl (Raise ValueError ''key symbol range'')
          | Some index \<Rightarrow>
              require (sy_section stop = Some index \<and> sy_value stop - sy_value start = 64) (Raise ValueError ''key symbol range'')
              (let (addr, data) = el_section elf index; offset = sy_value start - addr in
               require (0 \<le> offset \<and> offset \<le> int (length data) - 64) (Raise ValueError ''key outside its section'')
               (Inr (pslice data (nat offset) (nat offset + 64)))))
      | _ \<Rightarrow> Inl (Raise ValueError ''no unique key symbol'')))"

subsection \<open>The facts of a built directory\<close>

record built_dir =
  bd_sdkconfig :: bytes
  bd_unsigned :: bytes
  bd_elf :: bytes
  bd_boot_elf :: bytes
  bd_bootloader :: bytes
  bd_table :: bytes
  bd_otadata :: bytes

record build_tools =
  bt_parse :: "bytes \<Rightarrow> partition list option"
  bt_generate :: "string \<Rightarrow> bool \<Rightarrow> bytes option"
  bt_elf :: "bytes \<Rightarrow> elf_file res"
  bt_verify :: "bytes \<Rightarrow> target \<Rightarrow> bytes \<Rightarrow> bool"

definition fact :: "bytes \<Rightarrow> pyval" where
  "fact data = PDict [(str ''sha256'', PStr (digest data)), (str ''bytes'', PInt (int (length data)))]"

definition unsigned_name :: "bool \<Rightarrow> string" where
  "unsigned_name automatic = (if automatic then ''esp_base-unsigned.bin'' else ''esp_base.bin'')"

definition app_slots :: "entries \<Rightarrow> (nat \<times> nat) list" where
  "app_slots table = sort (map (\<lambda>(_, _, _, offset, size, _). (offset, size)) (filter (\<lambda>(_, t, _). t = 0) table))"

definition same_key :: "build_tools \<Rightarrow> bytes \<Rightarrow> bytes \<Rightarrow> unit res" where
  "same_key tools key raw =
     bindE (bindE (bt_elf tools raw) embedded_public_key) (\<lambda>k. require (k = key) (Raise ValueError ''embedded key differs'') (Inr ()))"

definition bootstrap_facts :: "build_tools \<Rightarrow> built_dir \<Rightarrow> target \<Rightarrow> bool \<Rightarrow> bytes \<Rightarrow> unit res" where
  "bootstrap_facts tools dir t automatic key =
     bindE (signed_image (bd_bootloader dir) t False True) (\<lambda>native.
     require (native = bd_bootloader dir \<and> length native \<le> 0x8000 - (if t = Esp32 then 0x1000 else 0)) (Raise ValueError ''bootloader'')
     (bindE (table_from_csv (bt_generate tools) (csv_path t) (t = Esp32)) (\<lambda>expected.
      let table = bd_table dir; trailer = (if t = Esp32 \<and> automatic then 68 else 0) in
      require (length table = length expected + trailer \<and> take (length expected) table = expected) (Raise ValueError ''partition table'')
      (bindE (parse_table (bt_parse tools) table) (\<lambda>entries.
       require (app_slots entries = [(0x20000, SLOT_BYTES), (0x200000, SLOT_BYTES)]) (Raise ValueError ''app slots'')
       (require (bd_otadata dir = erased 8192) (Raise ValueError ''initial OTA data'')
       (if t = Esp32 then
          bindE (same_key tools key (bd_elf dir)) (\<lambda>_.
          bindE (same_key tools key (bd_boot_elf dir)) (\<lambda>_.
          if trailer \<noteq> 0 then verify_signed (bt_verify tools) table expected key t else Inr ()))
        else Inr ())))))))"

definition built_facts ::
  "build_tools \<Rightarrow> built_dir \<Rightarrow> target \<Rightarrow> bool \<Rightarrow> bytes \<Rightarrow> pystr \<Rightarrow> pyval res \<Rightarrow> pyval \<Rightarrow> pyval res" where
  "built_facts tools dir t automatic key values_sha256 components identity =
     bindE (config_values (bd_sdkconfig dir)) (\<lambda>config.
     require (digest (encoded (PDict (map (\<lambda>(k, v). (k, PStr v)) config))) = values_sha256) (Raise ValueError ''SDK configuration differs'')
     (bindE (inspect_image (bd_unsigned dir) identity t) (\<lambda>_.
      bindE (signed_image (bd_unsigned dir) t True False) (\<lambda>body.
      require (bd_unsigned dir = body @ erased (length (bd_unsigned dir) - length body)) (Raise ValueError ''unsigned tail'')
      (require (take 6 (bd_elf dir) = [0x7f, 0x45, 0x4c, 0x46, 1, 1] \<and>
                from_le (pslice (bd_elf dir) 18 20) = (if t = Esp32c3 then 243 else 94)) (Raise ValueError ''ELF architecture'')
      (bindE (bootstrap_facts tools dir t automatic key) (\<lambda>_.
       bindE components (\<lambda>c.
       Inr (PDict [(str ''files'', PDict [(str ''esp_base.elf'', fact (bd_elf dir)), (str ''bootloader/bootloader.bin'', fact (bd_bootloader dir)),
                      (str ''partition_table/partition-table.bin'', fact (bd_table dir)), (str ''ota_data_initial.bin'', fact (bd_otadata dir))]),
                   (str ''unsigned'', fact (bd_unsigned dir)), (str ''components'', c)])))))))))"

subsection \<open>The run of the Core\<close>

record core_run =
  cr_snapshot_path :: pystr
  cr_request :: "pyval res"
  cr_original :: "pyval res"
  cr_manifest :: bytes
  cr_inputs :: "pyval res"
  cr_inputs_raw :: bytes
  cr_profile :: "pystr option"
  cr_interpreter :: pystr
  cr_interpreter_raw :: bytes

definition request_ok :: "package_env \<Rightarrow> (pystr \<times> pyval) list \<Rightarrow> pyval \<Rightarrow> pyval \<Rightarrow> pyval \<Rightarrow> pystr option \<Rightarrow> bool" where
  "request_ok env request context manifest snapshot_id profile =
     (keys_are request [''schema_version'', ''kind'', ''context'', ''manifest''] \<and>
      map_of request (str ''schema_version'') = Some (PInt 1) \<and>
      map_of request (str ''kind'') = Some (PStr (str ''standalone-package-run'')) \<and>
      (case map_of request (str ''context'') of Some c \<Rightarrow> py_eq (pe_fnorm env) c context | None \<Rightarrow> False) \<and>
      (case map_of request (str ''manifest'') of Some m \<Rightarrow> py_eq (pe_fnorm env) m manifest | None \<Rightarrow> False) \<and>
      snapshot_id = (case profile of None \<Rightarrow> PNone | Some p \<Rightarrow> PStr p))"

definition run_inputs_of :: "package_env \<Rightarrow> core_run \<Rightarrow> pyval \<Rightarrow> (string \<times> bytes) list res" where
  "run_inputs_of env run v =
     require (is_absolute (cr_snapshot_path run)) (Raise ValueError ''formal build without Core'')
     (bindE (cr_request run) (\<lambda>request.
      bindE (cr_original run) (\<lambda>original.
      bindE (as_dict (Raise TypeError ''original'') original) (\<lambda>orig.
      bindE (py_getitem orig ''context'') (\<lambda>context.
      bindE (cr_inputs run) (\<lambda>snapshot.
      bindE (as_dict (Raise TypeError ''request'') request) (\<lambda>r.
      bindE (pe_loads env (cr_manifest run)) (\<lambda>manifest.
      bindE (as_dict (Raise TypeError ''context'') context) (\<lambda>ctx.
      bindE (py_getitem ctx ''profile_snapshot_id'') (\<lambda>snapshot_id.
      require (request_ok env r context manifest snapshot_id (cr_profile run)) (Raise ValueError ''original request differs'')
      (bindE (portable_input v) (\<lambda>portable.
       bindE (validate_run_inputs env snapshot (cr_manifest run) portable context) (\<lambda>_.
       bindE (as_dict (Raise TypeError ''snapshot'') snapshot) (\<lambda>s.
       (case map_of s (str ''commands'') of
          Some (PList [PDict command]) \<Rightarrow>
            require (map_of command (str ''executable'') = Some (PStr (cr_interpreter run)) \<and>
                     map_of command (str ''executable_sha256'') = Some (PStr (digest (cr_interpreter_raw run))))
              (Raise ValueError ''interpreter differs'')
            (Inr [(''package-inputs.json'', cr_inputs_raw run), (''package-manifest.json'', cr_manifest run)])
        | _ \<Rightarrow> Inl (Raise TypeError ''command''))))))))))))))))"

definition validate_input ::
  "package_env \<Rightarrow> (pyval \<Rightarrow> pyval res) \<Rightarrow> (pyval \<Rightarrow> pyval res) \<Rightarrow> core_run \<Rightarrow> bytes \<Rightarrow> (pyval \<times> pyval) res" where
  "validate_input env current_of identity_of run raw =
     bindE (pe_loads env raw) (\<lambda>v.
     bindE (as_dict (Raise TypeError ''input'') v) (\<lambda>d.
     require (map_of d (str ''signing_trust'') \<in> {Some (PStr (str ''software-test'')), Some (PStr (str ''release''))})
       (Raise ValueError ''signing trust'')
     (bindE (current_of v) (\<lambda>current.
      require (encoded current = raw \<and> py_eq (pe_fnorm env) v current) (Raise ValueError ''inputs have drifted'')
      (bindE (run_inputs_of env run v) (\<lambda>_.
       bindE (bindE (py_getitem d ''target'') identity_of) (\<lambda>identity.
       bindE (as_dict (Raise TypeError ''identity'') identity) (\<lambda>i.
       bindE (py_getitem i ''local_validation'') (\<lambda>local.
       require (local = PBool False) (Raise ValueError ''local identity'')
       (bindE (py_getitem i ''source_commit_sha'') (\<lambda>a.
        bindE (py_getitem d ''source_commit_sha'') (\<lambda>b.
        require (py_eq (pe_fnorm env) a b) (Raise ValueError ''another source'') (Inr (v, identity))))))))))))))"

subsection \<open>What the facts say\<close>

lemma built_image:
  assumes "built_facts tools dir t automatic key values_sha256 components identity = Inr native"
  shows "\<exists>body. signed_image (bd_unsigned dir) t True False = Inr body \<and>
      bd_unsigned dir = body @ erased (length (bd_unsigned dir) - length body)"
    and "inspect_image (bd_unsigned dir) identity t = Inr identity"
    and "signed_image (bd_bootloader dir) t False True = Inr (bd_bootloader dir)"
    and "bd_otadata dir = erased 8192"
    and "t = Esp32 \<Longrightarrow> \<exists>elf boot_elf. bt_elf tools (bd_elf dir) = Inr elf \<and> embedded_public_key elf = Inr key \<and>
      bt_elf tools (bd_boot_elf dir) = Inr boot_elf \<and> embedded_public_key boot_elf = Inr key"
  using assms inspected_descriptor
  by (auto simp: built_facts_def bootstrap_facts_def same_key_def res_simps Let_def split: if_splits)

text \<open>
  A build whose unsigned image has no padding is signed into one complete image.  With padding the package build accepts the
  signed file as well, but its final verification does not: the image reader looks for the signature right after the body.
\<close>

lemma built_image_signed:
  assumes "built_facts tools dir t automatic key values_sha256 components identity = Inr native"
    and "signed_image (bd_unsigned dir) t True False = Inr (bd_unsigned dir)"
    and "verify_signed espsecure data (bd_unsigned dir) k t = Inr ()"
  shows "signed_image data t True True = Inr data \<and> espsecure k t data"
proof -
  have "espsecure k t data"
    using assms(3) by (simp add: verify_signed_def Let_def res_simps)
  moreover have "signed_image data t True True = Inr data"
  proof -
    let ?p = "if t = Esp32c3 then padding_to_4096 (length (bd_unsigned dir)) else 0"
    have len: "length data = length (bd_unsigned dir) + ?p + (if t = Esp32c3 then 4096 else 68)"
      and front: "take (length (bd_unsigned dir) + ?p) data = bd_unsigned dir @ erased ?p"
      using assms(3) by (simp_all add: verify_signed_def Let_def res_simps)
    obtain b where b: "image_body_end t (bd_unsigned dir) = Inr b" "app_descriptor_ok (bd_unsigned dir)" "b = length (bd_unsigned dir)"
      using signed_image_whole [OF assms(2)] by blast
    have same: "take b data = take b (bd_unsigned dir)"
      using arg_cong [OF front, of "take b"] b(3) by simp
    have "image_body_end t data = Inr b"
      using len b(3) by (intro image_body_end_prefix [OF b(1)] same) simp
    moreover have "288 \<le> b"
      using b(2,3) by (simp add: app_descriptor_ok_def)
    then have "app_descriptor_ok data"
      using app_descriptor_ok_prefix [OF b(2) same] b(3) len by simp
    moreover have "signed_end t b = length data"
      using len b(3) padding_rounds_up [of b] by (simp add: signed_end_def)
    ultimately show ?thesis
      by (auto simp: signed_image_eq_Inr)
  qed
  ultimately show ?thesis by blast
qed

end
