(* ===== verification/Sdk_Check.thy ===== *)
theory Sdk_Check
  imports Package Serial_Port Capacity_Lines
begin

text \<open>
  The managed SDK (\<^verbatim>\<open>check_sdk.py\<close>, \<^verbatim>\<open>prepare_sdk.py\<close>): the check of a checkout of ESP-IDF against the lock of this
  repository, and the application of the managed patches.

  A checkout is a function from paths relative to the root of ESP-IDF to nodes; the root itself is the empty path and the paths
  of the lock are relative.  \<^verbatim>\<open>git\<close> is a parameter: \<open>se_git\<close> is the standard output of a query in a directory,
  \<open>se_show\<close> the content of a file in \<^verbatim>\<open>HEAD\<close>, \<open>se_apply_check\<close> and \<open>se_apply\<close> apply a patch; a failing
  subprocess is a \<open>SubprocessError\<close>.  \<open>se_own\<close> are the files of this repository, \<open>se_lock\<close> the bytes of
  \<^verbatim>\<open>sdk-lock.json\<close>, whose parsed value is the record \<open>sdk_lock\<close>.

  Lemmas: what a passed check says about every managed file, and that preparing touches only a pristine official checkout
  to which every patch applies, and leaves a checkout that passes the check.
\<close>

subsection \<open>The lock\<close>

record managed_file =
  mf_path :: pystr
  mf_before :: pystr
  mf_after :: pystr

record managed_patch =
  mp_repository :: pystr
  mp_path :: pystr
  mp_sha256 :: pystr
  mp_files :: "managed_file list"

record sdk_lock =
  lk_schema :: int
  lk_idf_revision :: pystr
  lk_lwip_path :: pystr
  lk_lwip_revision :: pystr
  lk_tlsf_path :: pystr
  lk_tlsf_revision :: pystr
  lk_stamp :: pystr
  lk_patches :: "managed_patch list"

type_synonym checkout = "pystr \<Rightarrow> node"

record sdk_env =
  se_root :: "pystr res"
  se_own :: "pystr \<Rightarrow> node"
  se_lock :: bytes
  se_git :: "checkout \<Rightarrow> pystr \<Rightarrow> string list \<Rightarrow> pystr res"
  se_show :: "checkout \<Rightarrow> pystr \<Rightarrow> pystr \<Rightarrow> bytes res"
  se_resolve :: "checkout \<Rightarrow> pystr \<Rightarrow> pystr res"
  se_link_dir :: "checkout \<Rightarrow> pystr \<Rightarrow> bool"
  se_apply_check :: "checkout \<Rightarrow> pystr \<Rightarrow> bytes \<Rightarrow> unit res"
  se_apply :: "checkout \<Rightarrow> pystr \<Rightarrow> bytes \<Rightarrow> unit res \<times> checkout"

subsection \<open>The check\<close>

definition git :: "sdk_env \<Rightarrow> checkout \<Rightarrow> pystr \<Rightarrow> string list \<Rightarrow> pystr res" where
  "git env tree repo args = bindE (se_git env tree repo args) (\<lambda>out. Inr (rstrip (\<lambda>c. c = 10) out))"

definition patch_input :: "sdk_env \<Rightarrow> managed_patch \<Rightarrow> (managed_patch \<times> bytes) res" where
  "patch_input env patch = (case se_own env (mp_path patch) of
      File raw \<Rightarrow> require (digest raw = mp_sha256 patch) (Raise ValueError ''patch digest'') (Inr (patch, raw))
    | _ \<Rightarrow> Inl (Raise ValueError ''patch is not a regular file''))"

definition patch_inputs :: "sdk_env \<Rightarrow> sdk_lock \<Rightarrow> (managed_patch \<times> bytes) list res" where
  "patch_inputs env lock =
     require (lk_schema lock = 2) (Raise ValueError ''lock without the managed contract'')
     (bindE (for_each (\<lambda>result patch. bindE (patch_input env patch) (\<lambda>p. Inr (result @ [p]))) [] (lk_patches lock)) (\<lambda>result.
      require (set (map (\<lambda>(patch, _). mp_repository patch) result) = {str ''idf'', str ''tlsf''} \<and> length result = 2)
        (Raise ValueError ''patch repositories'') (Inr result)))"

definition repository_path :: "sdk_lock \<Rightarrow> managed_patch \<Rightarrow> pystr" where
  "repository_path lock patch = (if mp_repository patch = str ''idf'' then [] else lk_tlsf_path lock)"

definition under :: "pystr \<Rightarrow> pystr \<Rightarrow> pystr" where
  "under repo path = (if repo = [] then path else repo @ [47] @ path)"

definition TOPLEVEL :: "string list" where "TOPLEVEL = [''rev-parse'', ''--show-toplevel'']"
definition HEAD_REVISION :: "string list" where "HEAD_REVISION = [''rev-parse'', ''HEAD'']"
definition STATUS :: "string list" where "STATUS = [''status'', ''--porcelain'', ''--untracked-files=normal'']"
definition STAGED :: "string list" where "STAGED = [''diff'', ''--cached'', ''--name-only'']"
definition SUBMODULES :: "string list" where "SUBMODULES = [''submodule'', ''status'', ''--recursive'']"

text \<open>A repository of its own at the locked revision.\<close>

definition own_repository :: "sdk_env \<Rightarrow> checkout \<Rightarrow> pystr \<Rightarrow> pystr \<Rightarrow> unit res" where
  "own_repository env tree repo commit =
     bindE (git env tree repo TOPLEVEL) (\<lambda>top.
     bindE (se_resolve env tree repo) (\<lambda>real.
     require (top = real) (Raise ValueError ''another repository'')
     (bindE (git env tree repo HEAD_REVISION) (\<lambda>head. require (head = commit) (Raise ValueError ''another commit'') (Inr ())))))"

definition check_revisions :: "sdk_env \<Rightarrow> checkout \<Rightarrow> sdk_lock \<Rightarrow> bool \<Rightarrow> unit res" where
  "check_revisions env tree lock patched =
     bindE (se_root env) (\<lambda>_.
     bindE (git env tree [] HEAD_REVISION) (\<lambda>head.
     require (head = lk_idf_revision lock) (Raise ValueError ''ESP-IDF commit'')
     (require (tree (lk_lwip_path lock) = Directory \<or> tree (lk_lwip_path lock) = Link \<and> se_link_dir env tree (lk_lwip_path lock))
       (Raise ValueError ''lwIP commit'')
     (bindE (own_repository env tree (lk_lwip_path lock) (lk_lwip_revision lock)) (\<lambda>_.
      bindE (git env tree (lk_lwip_path lock) STATUS) (\<lambda>changes.
      require (changes = []) (Raise ValueError ''lwIP has changes'')
      (require (patched \<longrightarrow> tree (lk_stamp lock) = File (se_lock env)) (Raise ValueError ''derivation stamp'')
      (own_repository env tree (lk_tlsf_path lock) (lk_tlsf_revision lock)))))))))"

definition allowed :: "sdk_lock \<Rightarrow> bool \<Rightarrow> managed_patch \<Rightarrow> pystr set" where
  "allowed lock patched patch =
     (if patched then mf_path ` set (mp_files patch) else {}) \<union>
     (if mp_repository patch = str ''idf'' then {lk_lwip_path lock} \<union> (if patched then {lk_tlsf_path lock} else {}) else {})"

definition expected_status :: "sdk_lock \<Rightarrow> bool \<Rightarrow> managed_patch \<Rightarrow> pystr set" where
  "expected_status lock patched patch =
     (\<lambda>name. str '' M '' @ name) ` allowed lock patched patch \<union>
     (if patched \<and> mp_repository patch = str ''idf'' then {str ''?? '' @ lk_stamp lock} else {})"

definition check_item :: "sdk_env \<Rightarrow> checkout \<Rightarrow> pystr \<Rightarrow> bool \<Rightarrow> managed_file \<Rightarrow> unit res" where
  "check_item env tree repo patched item =
     bindE (se_show env tree repo (mf_path item)) (\<lambda>original.
     case tree (under repo (mf_path item)) of
       File raw \<Rightarrow>
         require (digest original = mf_before item) (Raise ValueError ''official source digest'')
         (require (digest raw = (if patched then mf_after item else mf_before item)) (Raise ValueError ''managed source digest'') (Inr ()))
     | _ \<Rightarrow> Inl (Raise ValueError ''not a regular file''))"

definition check_patch :: "sdk_env \<Rightarrow> checkout \<Rightarrow> sdk_lock \<Rightarrow> bool \<Rightarrow> managed_patch \<Rightarrow> unit res" where
  "check_patch env tree lock patched patch =
     (let repo = repository_path lock patch in
      bindE (git env tree repo STAGED) (\<lambda>staged.
      require (staged = []) (Raise ValueError ''index contains changes'')
      (bindE (git env tree repo (STATUS @ [''--ignore-submodules=none''])) (\<lambda>out.
       require (set (split_lines [] out) = expected_status lock patched patch) (Raise ValueError ''differs beyond its inputs'')
       (for_each (\<lambda>_ item. check_item env tree repo patched item) () (mp_files patch))))))"

definition submodule_line :: "sdk_lock \<Rightarrow> pystr \<Rightarrow> unit res" where
  "submodule_line lock line = (case words_of line of
      commit # sub # _ \<Rightarrow>
        require (\<not> startswith commit (str ''-'') \<and> \<not> startswith commit (str ''U'')) (Raise ValueError ''submodule is unavailable'')
        (require (startswith commit (str ''+'') \<longrightarrow> sub = lk_lwip_path lock \<and> drop 1 commit = lk_lwip_revision lock)
          (Raise ValueError ''submodule differs'') (Inr ()))
    | _ \<Rightarrow> Inl (Raise ValueError ''submodule status''))"

definition check_sdk :: "sdk_env \<Rightarrow> checkout \<Rightarrow> sdk_lock \<Rightarrow> bool \<Rightarrow> unit res" where
  "check_sdk env tree lock patched =
     bindE (check_revisions env tree lock patched) (\<lambda>_.
     bindE (patch_inputs env lock) (\<lambda>patches.
     bindE (for_each (\<lambda>_ (patch, _). check_patch env tree lock patched patch) () patches) (\<lambda>_.
     bindE (git env tree [] SUBMODULES) (\<lambda>out.
     for_each (\<lambda>_. submodule_line lock) () (split_lines [] out)))))"

subsection \<open>Applying the patches\<close>

text \<open>The stamp is created exclusively; its mode is not part of the model.\<close>

definition write_stamp :: "sdk_env \<Rightarrow> checkout \<Rightarrow> sdk_lock \<Rightarrow> unit res \<times> checkout" where
  "write_stamp env tree lock =
     (if tree (lk_stamp lock) = Absent then (Inr (), tree(lk_stamp lock := File (se_lock env)))
      else (Inl (Raise OSError ''stamp exists''), tree))"

fun apply_patches :: "sdk_env \<Rightarrow> sdk_lock \<Rightarrow> checkout \<Rightarrow> (managed_patch \<times> bytes) list \<Rightarrow> unit res \<times> checkout" where
  "apply_patches env lock tree [] = (Inr (), tree)"
| "apply_patches env lock tree ((patch, raw) # patches) = (case se_apply env tree (repository_path lock patch) raw of
      (Inl e, tree') \<Rightarrow> (Inl e, tree')
    | (Inr _, tree') \<Rightarrow> apply_patches env lock tree' patches)"

definition applicable :: "sdk_env \<Rightarrow> checkout \<Rightarrow> sdk_lock \<Rightarrow> (managed_patch \<times> bytes) list res" where
  "applicable env tree lock =
     bindE (check_sdk env tree lock False) (\<lambda>_.
     bindE (patch_inputs env lock) (\<lambda>patches.
     bindE (for_each (\<lambda>_ (patch, raw). se_apply_check env tree (repository_path lock patch) raw) () patches) (\<lambda>_. Inr patches)))"

definition prepare_sdk :: "sdk_env \<Rightarrow> checkout \<Rightarrow> sdk_lock \<Rightarrow> unit res \<times> checkout" where
  "prepare_sdk env tree lock = (case check_sdk env tree lock True of
      Inr _ \<Rightarrow> (Inr (), tree)
    | Inl e \<Rightarrow>
       if exc e \<notin> {ValueError, UnicodeError, SubprocessError} then (Inl e, tree)
       else (case applicable env tree lock of
          Inl e' \<Rightarrow> (Inl e', tree)
        | Inr patches \<Rightarrow> (case apply_patches env lock tree patches of
            (Inl e', tree') \<Rightarrow> (Inl e', tree')
          | (Inr _, tree') \<Rightarrow> (case write_stamp env tree' lock of
              (Inl e', tree'') \<Rightarrow> (Inl e', tree'')
            | (Inr _, tree'') \<Rightarrow> (check_sdk env tree'' lock True, tree'')))))"

text \<open>The exit status of both tools; an exception of another class leaves the program.\<close>

definition sdk_main :: "unit res \<Rightarrow> nat res" where
  "sdk_main r = (case r of
      Inr _ \<Rightarrow> Inr 0
    | Inl e \<Rightarrow> if exc e \<in> {OSError, TimeoutError, SubprocessError, ValueError, UnicodeError} then Inr 1 else Inl e)"

subsection \<open>What a passed check says\<close>

lemma patch_inputs_facts:
  assumes "patch_inputs env lock = Inr patches"
  shows "map fst patches = lk_patches lock" and "\<forall>(patch, raw) \<in> set patches. se_own env (mp_path patch) = File raw \<and> digest raw = mp_sha256 patch"
proof -
  have run: "for_each (\<lambda>result patch. bindE (patch_input env patch) (\<lambda>p. Inr (result @ [p]))) [] (lk_patches lock) = Inr patches"
    using assms by (auto simp: patch_inputs_def res_simps)
  have "map fst patches = lk_patches lock \<and> (\<forall>(patch, raw) \<in> set patches. se_own env (mp_path patch) = File raw \<and> digest raw = mp_sha256 patch)"
    by (rule for_each_inv [OF run, of "\<lambda>done result. map fst result = done \<and>
          (\<forall>(patch, raw) \<in> set result. se_own env (mp_path patch) = File raw \<and> digest raw = mp_sha256 patch)"])
      (auto simp: patch_input_def res_simps split: node.splits)
  then show "map fst patches = lk_patches lock" and "\<forall>(patch, raw) \<in> set patches. se_own env (mp_path patch) = File raw \<and> digest raw = mp_sha256 patch"
    by auto
qed

lemma check_item_iff:
  "check_item env tree repo patched item = Inr () \<longleftrightarrow>
     (\<exists>original raw. se_show env tree repo (mf_path item) = Inr original \<and> digest original = mf_before item \<and>
        tree (under repo (mf_path item)) = File raw \<and> digest raw = (if patched then mf_after item else mf_before item))"
  by (cases "tree (under repo (mf_path item))") (auto simp: check_item_def res_simps)

lemma for_each_unit: "for_each (\<lambda>_. f) () xs = Inr () \<longleftrightarrow> (\<forall>x \<in> set xs. f x = Inr ())"
  by (induction xs) (auto simp: res_simps)

definition patch_exact :: "sdk_env \<Rightarrow> checkout \<Rightarrow> sdk_lock \<Rightarrow> bool \<Rightarrow> managed_patch \<Rightarrow> bool" where
  "patch_exact env tree lock patched patch =
     (let repo = repository_path lock patch in
      git env tree repo STAGED = Inr [] \<and>
      (\<exists>out. git env tree repo (STATUS @ [''--ignore-submodules=none'']) = Inr out \<and> set (split_lines [] out) = expected_status lock patched patch) \<and>
      (\<forall>item \<in> set (mp_files patch). check_item env tree repo patched item = Inr ()))"

lemma check_patch_iff: "check_patch env tree lock patched patch = Inr () \<longleftrightarrow> patch_exact env tree lock patched patch"
  by (auto simp: check_patch_def patch_exact_def Let_def res_simps for_each_unit)

text \<open>
  A line of \<^verbatim>\<open>git submodule status\<close> begins with the revision, marked \<^verbatim>\<open>-\<close> for a submodule that is not initialised, \<^verbatim>\<open>U\<close> for one
  with merge conflicts, and \<^verbatim>\<open>+\<close> for one that is not at the gitlink of its parent.
\<close>

definition submodules_pinned :: "sdk_env \<Rightarrow> checkout \<Rightarrow> sdk_lock \<Rightarrow> bool" where
  "submodules_pinned env tree lock = (\<exists>out. git env tree [] SUBMODULES = Inr out \<and>
     (\<forall>line \<in> set (split_lines [] out). \<exists>commit sub rest. words_of line = commit # sub # rest \<and>
        \<not> startswith commit (str ''-'') \<and> \<not> startswith commit (str ''U'') \<and>
        (startswith commit (str ''+'') \<longrightarrow> sub = lk_lwip_path lock \<and> drop 1 commit = lk_lwip_revision lock)))"

lemma submodule_line_Inr:
  "submodule_line lock line = Inr () \<Longrightarrow> \<exists>commit sub rest. words_of line = commit # sub # rest \<and>
     \<not> startswith commit (str ''-'') \<and> \<not> startswith commit (str ''U'') \<and>
     (startswith commit (str ''+'') \<longrightarrow> sub = lk_lwip_path lock \<and> drop 1 commit = lk_lwip_revision lock)"
  by (auto simp: submodule_line_def res_simps split: list.splits)

definition checked_exactly :: "sdk_env \<Rightarrow> checkout \<Rightarrow> sdk_lock \<Rightarrow> bool \<Rightarrow> managed_patch \<Rightarrow> managed_file \<Rightarrow> bool" where
  "checked_exactly env tree lock patched patch item =
     (\<exists>original raw. se_show env tree (repository_path lock patch) (mf_path item) = Inr original \<and> digest original = mf_before item \<and>
        tree (under (repository_path lock patch) (mf_path item)) = File raw \<and>
        digest raw = (if patched then mf_after item else mf_before item))"

lemma check_revisions_facts:
  assumes "check_revisions env tree lock patched = Inr ()"
  shows "git env tree [] HEAD_REVISION = Inr (lk_idf_revision lock)"
    and "git env tree (lk_lwip_path lock) HEAD_REVISION = Inr (lk_lwip_revision lock)"
    and "git env tree (lk_lwip_path lock) STATUS = Inr []"
    and "git env tree (lk_tlsf_path lock) HEAD_REVISION = Inr (lk_tlsf_revision lock)"
    and "patched \<Longrightarrow> tree (lk_stamp lock) = File (se_lock env)"
  using assms by (auto simp: check_revisions_def own_repository_def res_simps)

text \<open>
  C10: a checkout that passes the check is exactly the managed SDK.  The three repositories are at the locked commits; every patch
  of the lock is in this repository with its digest; every managed file is a regular file with the digest recorded for
  it, and its official original has the recorded digest; what \<^verbatim>\<open>git status\<close> lists in the two patched repositories is exactly the
  managed files, the submodules and the stamp; nothing is staged; no submodule is uninitialised or in conflict, and only
  lwIP may differ from its gitlink, and then it is at the revision the lock names.
\<close>

theorem checked_sdk_exact:
  assumes "check_sdk env tree lock patched = Inr ()"
  shows "git env tree [] HEAD_REVISION = Inr (lk_idf_revision lock) \<and>
    git env tree (lk_lwip_path lock) HEAD_REVISION = Inr (lk_lwip_revision lock) \<and> git env tree (lk_lwip_path lock) STATUS = Inr [] \<and>
    git env tree (lk_tlsf_path lock) HEAD_REVISION = Inr (lk_tlsf_revision lock) \<and>
    (patched \<longrightarrow> tree (lk_stamp lock) = File (se_lock env)) \<and> submodules_pinned env tree lock \<and>
    (\<forall>patch \<in> set (lk_patches lock). (\<exists>raw. se_own env (mp_path patch) = File raw \<and> digest raw = mp_sha256 patch) \<and>
       patch_exact env tree lock patched patch \<and> (\<forall>item \<in> set (mp_files patch). checked_exactly env tree lock patched patch item))"
proof -
  obtain patches out where steps: "check_revisions env tree lock patched = Inr ()" "patch_inputs env lock = Inr patches"
      "for_each (\<lambda>_ (patch, _). check_patch env tree lock patched patch) () patches = Inr ()"
      "git env tree [] SUBMODULES = Inr out" "for_each (\<lambda>_. submodule_line lock) () (split_lines [] out) = Inr ()"
    using assms by (auto simp: check_sdk_def res_simps)
  note revisions = check_revisions_facts [OF steps(1)]
  have pinned: "submodules_pinned env tree lock"
    using steps(4,5) submodule_line_Inr [of lock] by (auto simp: submodules_pinned_def for_each_unit)
  have each: "(\<exists>raw. se_own env (mp_path patch) = File raw \<and> digest raw = mp_sha256 patch) \<and>
       patch_exact env tree lock patched patch \<and> (\<forall>item \<in> set (mp_files patch). checked_exactly env tree lock patched patch item)"
    if patch: "patch \<in> set (lk_patches lock)" for patch
  proof -
    have "patch \<in> fst ` set patches"
      using patch patch_inputs_facts(1) [OF steps(2), symmetric] by simp
    then obtain raw where raw: "(patch, raw) \<in> set patches" by force
    then have "check_patch env tree lock patched patch = Inr ()"
      using steps(3) by (auto simp: for_each_unit)
    then have exact: "patch_exact env tree lock patched patch"
      by (simp only: check_patch_iff)
    then have "\<forall>item \<in> set (mp_files patch). checked_exactly env tree lock patched patch item"
      by (simp add: patch_exact_def Let_def check_item_iff checked_exactly_def)
    with exact patch_inputs_facts(2) [OF steps(2)] raw show ?thesis by blast
  qed
  show ?thesis
    by (intro conjI impI revisions pinned ballI) (use each in blast)+
qed

text \<open>
  C11: preparing the SDK is all or nothing up to the first write, and idempotent.  Whatever the outcome, the checkout is changed only if
  it passed the check of the pristine official sources and every patch of the lock applies to it; and when \<^verbatim>\<open>prepare\<close> returns, the
  checkout passes the check of the managed SDK and preparing it again changes nothing.
\<close>

theorem prepared_sdk_checked:
  assumes "prepare_sdk env tree lock = (r, tree')"
  shows "(r = Inr () \<longrightarrow> check_sdk env tree' lock True = Inr () \<and> prepare_sdk env tree' lock = (Inr (), tree')) \<and>
    (tree' \<noteq> tree \<longrightarrow> check_sdk env tree lock False = Inr () \<and> (\<exists>patches. map fst patches = lk_patches lock \<and>
       (\<forall>(patch, raw) \<in> set patches. se_own env (mp_path patch) = File raw \<and> digest raw = mp_sha256 patch \<and>
          se_apply_check env tree (repository_path lock patch) raw = Inr ())))"
proof -
  have stable: "prepare_sdk env t lock = (Inr (), t)" if "check_sdk env t lock True = Inr ()" for t
    using that by (simp add: prepare_sdk_def)
  have "check_sdk env tree' lock True = Inr ()" if "r = Inr ()"
    using assms that by (auto simp: prepare_sdk_def split: sum.splits if_splits prod.splits)
  moreover have "check_sdk env tree lock False = Inr () \<and> (\<exists>patches. map fst patches = lk_patches lock \<and>
       (\<forall>(patch, raw) \<in> set patches. se_own env (mp_path patch) = File raw \<and> digest raw = mp_sha256 patch \<and>
          se_apply_check env tree (repository_path lock patch) raw = Inr ()))" if changed: "tree' \<noteq> tree"
  proof -
    obtain patches where "applicable env tree lock = Inr patches"
      using assms changed
      by (cases "check_sdk env tree lock True"; cases "applicable env tree lock") (auto simp: prepare_sdk_def split: if_splits)
    then have steps: "check_sdk env tree lock False = Inr ()" "patch_inputs env lock = Inr patches"
        "for_each (\<lambda>_ (patch, raw). se_apply_check env tree (repository_path lock patch) raw) () patches = Inr ()"
      by (auto simp: applicable_def res_simps)
    have "se_apply_check env tree (repository_path lock patch) raw = Inr ()" if "(patch, raw) \<in> set patches" for patch raw
      using steps(3) that by (force simp: for_each_unit)
    with steps(1) patch_inputs_facts [OF steps(2)] show ?thesis by blast
  qed
  ultimately show ?thesis
    using stable by blast
qed

subsection \<open>One checkout\<close>

text \<open>A lock with one managed file in each repository; \<^verbatim>\<open>git\<close> answers for the official and for the prepared checkout.\<close>

definition small_file :: "pystr \<Rightarrow> managed_file" where
  "small_file path = \<lparr> mf_path = path, mf_before = digest [1], mf_after = digest [2] \<rparr>"

definition small_lock :: sdk_lock where
  "small_lock = \<lparr> lk_schema = 2, lk_idf_revision = str ''i'', lk_lwip_path = str ''l'', lk_lwip_revision = str ''m'',
     lk_tlsf_path = str ''t'', lk_tlsf_revision = str ''u'', lk_stamp = str ''s'',
     lk_patches = [\<lparr> mp_repository = str ''idf'', mp_path = str ''p'', mp_sha256 = digest [3], mp_files = [small_file (str ''a'')] \<rparr>,
       \<lparr> mp_repository = str ''tlsf'', mp_path = str ''q'', mp_sha256 = digest [4], mp_files = [small_file (str ''b'')] \<rparr>] \<rparr>"

definition small_git :: "checkout \<Rightarrow> pystr \<Rightarrow> string list \<Rightarrow> pystr res" where
  "small_git tree repo args = Inr (
     if args = TOPLEVEL then repo
     else if args = HEAD_REVISION then (if repo = [] then str ''i'' else if repo = str ''l'' then str ''m'' else str ''u'')
     else if args = SUBMODULES then str ''+m l'' @ [10] @ str '' u t'' @ [10]
     else if args = STATUS @ [''--ignore-submodules=none''] then
       (if repo = [] then (if tree (str ''s'') = Absent then str '' M l'' else str '' M a'' @ [10] @ str '' M l'' @ [10] @ str '' M t'' @ [10] @ str ''?? s'')
        else (if tree (str ''s'') = Absent then [] else str '' M b''))
     else [])"

definition small_sdk :: sdk_env where
  "small_sdk = \<lparr> se_root = Inr (str ''/sdk''), se_own = (\<lambda>path. if path = str ''p'' then File [3] else if path = str ''q'' then File [4] else Absent),
     se_lock = [7], se_git = small_git, se_show = (\<lambda>_ _ _. Inr [1]), se_resolve = (\<lambda>_ repo. Inr repo), se_link_dir = (\<lambda>_ _. False),
     se_apply_check = (\<lambda>_ _ _. Inr ()),
     se_apply = (\<lambda>tree repo _. (Inr (), tree(under repo (if repo = [] then str ''a'' else str ''b'') := File [2]))) \<rparr>"

definition official_tree :: checkout where
  "official_tree path = (if path = str ''a'' \<or> path = str ''t/b'' then File [1] else if path = str ''l'' \<or> path = str ''t'' then Directory else Absent)"

definition managed_tree :: checkout where
  "managed_tree = official_tree(str ''a'' := File [2], str ''t/b'' := File [2], str ''s'' := File [7])"

lemmas small_defs = small_lock_def small_file_def small_sdk_def small_git_def TOPLEVEL_def HEAD_REVISION_def STATUS_def STAGED_def SUBMODULES_def

lemma small_revisions:
  "check_revisions small_sdk official_tree small_lock False = Inr ()" "check_revisions small_sdk managed_tree small_lock True = Inr ()"
  "check_revisions small_sdk official_tree small_lock True = Inl (Raise ValueError ''derivation stamp'')"
  by (simp_all add: check_revisions_def own_repository_def git_def small_defs official_tree_def managed_tree_def str_def rstrip_def)

lemma small_inputs: "patch_inputs small_sdk small_lock = Inr (zip (lk_patches small_lock) [[3], [4]])"
  by (simp add: patch_inputs_def patch_input_def small_defs str_def)

lemma small_checked:
  "check_patch small_sdk official_tree small_lock False patch = Inr ()" "check_patch small_sdk managed_tree small_lock True patch = Inr ()"
  if "patch \<in> set (lk_patches small_lock)"
  using that
  by (auto simp: check_patch_def check_item_def git_def small_defs official_tree_def managed_tree_def repository_path_def under_def
      expected_status_def allowed_def str_def rstrip_def is_line_break_def insert_commute)

lemma small_submodules:
  "bindE (git small_sdk tree [] SUBMODULES) (\<lambda>out. for_each (\<lambda>_. submodule_line small_lock) () (split_lines [] out)) = Inr ()"
  by (simp add: git_def small_defs submodule_line_def words_of_def py_space_def startswith_def str_def rstrip_def is_line_break_def)

lemma small_checks:
  "check_sdk small_sdk official_tree small_lock False = Inr ()" "check_sdk small_sdk managed_tree small_lock True = Inr ()"
  "check_sdk small_sdk official_tree small_lock True = Inl (Raise ValueError ''derivation stamp'')"
proof -
  have "for_each (\<lambda>_ (patch, _). check_patch small_sdk tree small_lock patched patch) () (zip (lk_patches small_lock) [[3], [4 :: 8 word]]) = Inr ()"
    if "\<forall>patch \<in> set (lk_patches small_lock). check_patch small_sdk tree small_lock patched patch = Inr ()" for tree patched
    using that by (auto simp: for_each_unit dest: set_zip_leftD)
  then show "check_sdk small_sdk official_tree small_lock False = Inr ()" "check_sdk small_sdk managed_tree small_lock True = Inr ()"
    using small_checked by (simp_all add: check_sdk_def small_revisions small_inputs small_submodules)
  show "check_sdk small_sdk official_tree small_lock True = Inl (Raise ValueError ''derivation stamp'')"
    by (simp add: check_sdk_def small_revisions)
qed

lemma small_prepared: "prepare_sdk small_sdk official_tree small_lock = (Inr (), managed_tree)"
proof -
  have patches: "applicable small_sdk official_tree small_lock = Inr (zip (lk_patches small_lock) [[3], [4]])"
    using small_inputs by (simp add: applicable_def small_checks) (simp add: small_defs)
  have "apply_patches small_sdk small_lock official_tree (zip (lk_patches small_lock) [[3], [4]]) =
      (Inr (), official_tree(str ''a'' := File [2], str ''t/b'' := File [2]))"
    by (simp add: small_defs repository_path_def under_def str_def)
  moreover have "write_stamp small_sdk (official_tree(str ''a'' := File [2], str ''t/b'' := File [2])) small_lock = (Inr (), managed_tree)"
    by (simp add: write_stamp_def managed_tree_def small_defs official_tree_def str_def)
  ultimately show ?thesis
    by (simp add: prepare_sdk_def patches small_checks)
qed

theorem checked_sdk_exact_witness:
  "git small_sdk managed_tree [] HEAD_REVISION = Inr (str ''i'') \<and>
   list_all (\<lambda>patch. list_all (checked_exactly small_sdk managed_tree small_lock True patch) (mp_files patch)) (lk_patches small_lock)"
  using checked_sdk_exact [OF small_checks(2)] by (simp add: list_all_iff) (simp add: small_defs)

theorem prepared_sdk_checked_witness:
  "prepare_sdk small_sdk managed_tree small_lock = (Inr (), managed_tree) \<and> official_tree (str ''s'') \<noteq> managed_tree (str ''s'')"
  using prepared_sdk_checked [OF small_prepared] by (simp add: managed_tree_def official_tree_def str_def)

end
