(* ===== verification/Package_Build.thy ===== *)
theory Package_Build
  imports Build_Facts Write_Once Sdk_Check
begin

text \<open>
  The package build itself (\<^verbatim>\<open>build_package.py\<close>): the sources (\<^verbatim>\<open>validate_source_inputs\<close>), the collection of the inputs (\<^verbatim>\<open>tools_fact\<close>, \<^verbatim>\<open>component_facts\<close>,
  \<^verbatim>\<open>current_inputs\<close>), the build of a directory (\<^verbatim>\<open>locked_build\<close>, \<^verbatim>\<open>build\<close>), and the assembly of the package
  (\<^verbatim>\<open>package\<close>).

  The state is the build directory, an association list from names to nodes; an operation on it is an \<open>act\<close>.  Everything
  outside the directory is the record \<open>host\<close>: the environment variables, the readers of other files, the SDK checkout, and the external
  programs (the build system, \<^verbatim>\<open>espsecure\<close>, the Core).  A function that looks at the world twice has two hosts as arguments,
  the world before and after its long-running steps, so nothing is assumed to stay as it was.  Facts about the files
  of a directory are read in one go, so when several files are wrong the error may be that of another one.  The artifact is
  written by the Core, to a path that may lie in the build directory.  The lock file is created; that \<^verbatim>\<open>flock\<close> excludes other processes is not part of the model.

  Lemmas: no operation of the assembly replaces a file of the directory but the artifact, a finished build has frozen its receipt, and what is
  delivered is what was built and frozen.
\<close>

subsection \<open>The build directory\<close>

type_synonym dir = "(string \<times> node) list"

type_synonym 'a act = "dir \<Rightarrow> 'a res \<times> dir"

definition node_at :: "dir \<Rightarrow> string \<Rightarrow> node" where
  "node_at d name = (case map_of d name of None \<Rightarrow> Absent | Some n \<Rightarrow> n)"

definition bindA :: "'a act \<Rightarrow> ('a \<Rightarrow> 'b act) \<Rightarrow> 'b act" where
  "bindA a f d = (case a d of (Inl e, d') \<Rightarrow> (Inl e, d') | (Inr x, d') \<Rightarrow> f x d')"

definition liftA :: "'a res \<Rightarrow> 'a act" where
  "liftA r d = (r, d)"

definition readA :: "(dir \<Rightarrow> 'a res) \<Rightarrow> 'a act" where
  "readA f d = (f d, d)"

definition freeze :: "string \<Rightarrow> bytes \<Rightarrow> unit act" where
  "freeze name data d = (case write_once (node_at d name) data of (r, n) \<Rightarrow> (r, AList.update name n d))"

definition regular :: "dir \<Rightarrow> string \<Rightarrow> bytes res" where
  "regular d name = (case node_at d name of
      File raw \<Rightarrow> Inr raw
    | Absent \<Rightarrow> Inl (Raise OSError name)
    | _ \<Rightarrow> Inl (Raise ValueError ''not a regular file''))"

subsection \<open>The sources\<close>

text \<open>
  What \<^verbatim>\<open>validate_source_inputs\<close> of \<^verbatim>\<open>build_identity.py\<close> finds: the output of \<^verbatim>\<open>git status\<close>, the members below each
  directory with their paths, and whether git tracks all of a list of files.
\<close>

record source_tree =
  so_status :: "bytes res"
  so_members :: "string \<Rightarrow> (pystr \<times> node) list"
  so_tracked :: "pystr list \<Rightarrow> bool"

definition SOURCE_DIRECTORIES :: "string list" where
  "SOURCE_DIRECTORIES = [''firmware/apps'', ''firmware/components'', ''firmware/partitions'', ''tools'']"

definition SOURCE_SUFFIXES :: "string list" where
  "SOURCE_SUFFIXES = [''.c'', ''.cpp'', ''.h'', ''.hpp'', ''.S'', ''.s'', ''.cmake'', ''.py'', ''.csv'', ''.yml'']"

definition base_name :: "pystr \<Rightarrow> pystr" where
  "base_name path = rev (takeWhile (\<lambda>c. c \<noteq> 47) (rev path))"

definition path_suffix :: "pystr \<Rightarrow> pystr" where
  "path_suffix name =
     (let tail = rev (takeWhile (\<lambda>c. c \<noteq> 46) (rev name)) in
      if tail = [] \<or> length name \<le> Suc (length tail) then [] else 46 # tail)"

definition source_name :: "pystr \<Rightarrow> bool" where
  "source_name path =
     (let name = base_name path in
      path_suffix name \<in> set (map str SOURCE_SUFFIXES) \<or> name = str ''CMakeLists.txt'' \<or> startswith name (str ''Kconfig''))"

definition source_member :: "pystr list \<Rightarrow> pystr \<times> node \<Rightarrow> pystr list res" where
  "source_member files = (\<lambda>(path, node). (case node of
      Link \<Rightarrow> Inl (Raise ValueError ''source through a link'')
    | File _ \<Rightarrow> Inr (if source_name path then files @ [path] else files)
    | _ \<Rightarrow> Inr files))"

definition validate_source_inputs :: "source_tree \<Rightarrow> unit res" where
  "validate_source_inputs sources =
     bindE (so_status sources) (\<lambda>out.
     require (list_all (\<lambda>b. b = 32 \<or> 9 \<le> b \<and> b \<le> 13) out) (Raise ValueError ''sources not saved'')
     (bindE (for_each source_member [] (concat (map (so_members sources) SOURCE_DIRECTORIES))) (\<lambda>files.
      require (so_tracked sources files) (Raise ValueError ''sources not in git'') (Inr ()))))"

text \<open>Accepted sources hold no link, and git tracks every compiled input below the directories.\<close>

definition member_accepted :: "pystr list \<Rightarrow> pystr \<times> node \<Rightarrow> bool" where
  "member_accepted files = (\<lambda>(path, node). node \<noteq> Link \<and> (source_name path \<and> (\<exists>raw. node = File raw) \<longrightarrow> path \<in> set files))"

lemma source_member_Inr: "source_member files m = Inr files' \<Longrightarrow> member_accepted files' m \<and> set files \<subseteq> set files'"
  by (cases m; cases "snd m") (auto simp: source_member_def member_accepted_def)

lemma member_accepted_mono: "member_accepted files m \<Longrightarrow> set files \<subseteq> set files' \<Longrightarrow> member_accepted files' m"
  by (auto simp: member_accepted_def)

lemma validated_sources:
  assumes "validate_source_inputs sources = Inr ()"
  shows "\<exists>files. so_tracked sources files \<and> (\<forall>directory \<in> set SOURCE_DIRECTORIES. \<forall>m \<in> set (so_members sources directory). member_accepted files m)"
proof -
  obtain files where files: "for_each source_member [] (concat (map (so_members sources) SOURCE_DIRECTORIES)) = Inr files" "so_tracked sources files"
    using assms by (auto simp: validate_source_inputs_def res_simps)
  have "\<forall>m \<in> set (concat (map (so_members sources) SOURCE_DIRECTORIES)). member_accepted files m"
  proof (rule for_each_inv [OF files(1)])
    show "\<forall>m \<in> set []. member_accepted [] m" by simp
  next
    fix seen t m t'
    assume before: "\<forall>m \<in> set seen. member_accepted t m" and "source_member t m = Inr t'"
    then have step: "member_accepted t' m" "set t \<subseteq> set t'"
      by (simp_all only: source_member_Inr)
    have "member_accepted t' x" if "x \<in> set seen" for x
      using before that by (blast intro: member_accepted_mono [OF _ step(2)])
    with step(1) show "\<forall>m \<in> set (seen @ [m]). member_accepted t' m"
      by simp
  qed
  with files(2) show ?thesis by auto
qed

subsection \<open>The host\<close>

record component_tree =
  ct_lock :: "pyval res"
  ct_hash_ok :: "pystr \<Rightarrow> pyval \<Rightarrow> unit res"
  ct_members :: "pystr \<Rightarrow> (pystr \<times> node) list"

record host =
  ho_env :: "string \<Rightarrow> pystr option"
  ho_sdk :: sdk_env
  ho_checkout :: checkout
  ho_sdk_lock :: sdk_lock
  ho_read :: "pystr \<Rightarrow> bytes res"
  ho_absolute :: "pystr \<Rightarrow> pystr"
  ho_own :: "string \<Rightarrow> bytes res"
  ho_commit :: "pystr res"
  ho_sources :: source_tree
  ho_key_at :: "pystr \<Rightarrow> key_file"
  ho_text_loads :: "pystr \<Rightarrow> pyval res"
  ho_extract :: "target \<Rightarrow> pystr \<Rightarrow> bytes res"
  ho_which :: "string \<Rightarrow> (pystr \<times> bytes res \<times> pystr res) option"
  ho_python :: "pystr \<times> pystr \<times> (pystr \<times> pyval) list"
  ho_components :: "target \<Rightarrow> component_tree"
  ho_run :: core_run
  ho_package :: package_env
  ho_tools :: build_tools
  ho_release :: "pyval res"
  ho_core :: "pystr \<Rightarrow> string list \<Rightarrow> pyval res"
  ho_root :: pystr
  ho_executable :: pystr
  ho_directory :: pystr
  ho_dir_link :: bool
  ho_dir_inside :: bool
  ho_link_exists :: "string \<Rightarrow> bool"
  ho_run_program :: "pystr list \<Rightarrow> (string \<Rightarrow> pystr option) \<Rightarrow> unit act"
  ho_sign :: "target \<Rightarrow> pyval \<Rightarrow> bytes \<Rightarrow> bytes res"
  ho_member :: "pystr \<Rightarrow> string option"
  ho_node :: "pystr \<Rightarrow> node"
  ho_package_directory :: "(string \<times> bytes) list \<Rightarrow> pystr \<Rightarrow> node \<Rightarrow> pyval res \<times> node"
  ho_zip :: "bytes \<Rightarrow> zip_item list res"

subsection \<open>The collection of the inputs\<close>

definition compiler :: "target \<Rightarrow> string" where
  "compiler t = (if t = Esp32c3 then ''riscv32'' else ''xtensa'') @ ''-esp-elf-gcc''"

text \<open>\<^verbatim>\<open>{..., **fact(path)}\<close>: the items of a fact.\<close>

definition fact_items :: "bytes \<Rightarrow> (pystr \<times> pyval) list" where
  "fact_items data = [(str ''sha256'', PStr (digest data)), (str ''bytes'', PInt (int (length data)))]"

definition tool_fact :: "host \<Rightarrow> string \<Rightarrow> pyval res" where
  "tool_fact h name = (case ho_which h name of
      None \<Rightarrow> Inl (Raise ValueError ''tool missing'')
    | Some (path, content, version) \<Rightarrow>
        bindE content (\<lambda>raw.
        bindE version (\<lambda>out.
        bindE (case split_lines [] out of [] \<Rightarrow> Inl (Raise IndexError ''version'') | line # _ \<Rightarrow> Inr line) (\<lambda>line.
        Inr (PDict ((str ''path'', PStr path) # fact_items raw @ [(str ''version'', PStr line)]))))))"

definition tools_fact :: "host \<Rightarrow> target \<Rightarrow> pyval res" where
  "tools_fact h t =
     bindE (for_each (\<lambda>result name. bindE (tool_fact h name) (\<lambda>f. Inr (result @ [(str name, f)]))) [] [''cmake'', ''ninja'', compiler t]) (\<lambda>result.
     case ho_python h of (path, version, packages) \<Rightarrow>
       Inr (PDict (result @ [(str ''python'', PDict [(str ''path'', PStr path), (str ''version'', PStr version), (str ''packages'', PDict packages)])])))"

definition member_fact :: "(pystr \<times> pyval) list \<Rightarrow> pystr \<times> node \<Rightarrow> (pystr \<times> pyval) list res" where
  "member_fact result = (\<lambda>(name, node). (case node of
      Link \<Rightarrow> Inl (Raise ValueError ''component reads through a link'')
    | File raw \<Rightarrow> Inr (result @ [(name, fact raw)])
    | _ \<Rightarrow> Inr result))"

definition component_fact :: "component_tree \<Rightarrow> pystr \<Rightarrow> pyval \<Rightarrow> pyval res" where
  "component_fact c name entry =
     bindE (as_dict (Raise TypeError ''entry'') entry) (\<lambda>e.
     bindE (py_getitem e ''component_hash'') (\<lambda>locked.
     bindE (ct_hash_ok c name locked) (\<lambda>_.
     bindE (for_each member_fact [] (ct_members c name)) (\<lambda>files.
     Inr (PDict [(str ''locked_hash'', locked), (str ''files_sha256'', PStr (digest (encoded (PDict files))))])))))"

definition component_facts :: "component_tree \<Rightarrow> pyval res" where
  "component_facts c =
     bindE (bindE (ct_lock c) (as_dict (Raise TypeError ''dependencies.lock''))) (\<lambda>lock.
     bindE (dict_field lock ''dependencies'') (\<lambda>dependencies.
     bindE (for_each (\<lambda>result (name, entry).
        if name = str ''idf'' then Inr result else bindE (component_fact c name entry) (\<lambda>f. Inr (result @ [(name, f)]))) [] dependencies) (\<lambda>result.
     Inr (PDict result))))"

definition config_dict :: "(pystr \<times> pystr) list \<Rightarrow> pyval" where
  "config_dict config = PDict (map (\<lambda>(k, v). (k, PStr v)) config)"

definition dependency_lock_path :: "target \<Rightarrow> string" where
  "dependency_lock_path t = ''firmware/dependencies.lock'' @ (if t = Esp32 then ''.esp32'' else [])"

definition current_inputs :: "host \<Rightarrow> target \<Rightarrow> pystr \<Rightarrow> pystr \<Rightarrow> pyval \<Rightarrow> pyval res" where
  "current_inputs h t sdkconfig_path key_path trust =
     require (is_absolute (env_text (ho_env h) ''IDF_PATH'')) (Raise ValueError ''IDF_PATH'')
     (bindE (se_root (ho_sdk h)) (\<lambda>idf.
      bindE (check_sdk (ho_sdk h) (ho_checkout h) (ho_sdk_lock h) True) (\<lambda>_.
      let sdkconfig = ho_absolute h sdkconfig_path; key = ho_absolute h key_path in
      bindE (bindE (ho_read h key) (\<lambda>raw. public_key (pe_crypto (ho_package h)) raw t)) (\<lambda>verification.
      bindE (bindE (ho_read h sdkconfig) config_values) (\<lambda>config.
      bindE (check_config (ho_text_loads h) (ho_key_at h) (ho_extract h) (pe_crypto (ho_package h)) config t verification) (\<lambda>automatic.
      bindE (ho_commit h) (\<lambda>sha.
      bindE (validate_source_inputs (ho_sources h)) (\<lambda>_.
      bindE (ho_own h ''sdk-lock.json'') (\<lambda>sdk_lock_raw.
      bindE (ho_own h (dependency_lock_path t)) (\<lambda>dependency_lock.
      bindE (component_facts (ho_components h t)) (\<lambda>components.
      bindE (ho_read h sdkconfig) (\<lambda>sdkconfig_raw.
      bindE (ho_read h key) (\<lambda>key_raw.
      bindE (tools_fact h t) (\<lambda>tools.
      Inr (PDict [(str ''schema_version'', PInt 1), (str ''target'', PStr (str (target_name t))), (str ''source_commit_sha'', PStr sha),
        (str ''sdk_root'', PStr idf), (str ''sdk_lock'', fact sdk_lock_raw), (str ''dependency_lock'', fact dependency_lock),
        (str ''components'', components),
        (str ''sdkconfig'', PDict ((str ''path'', PStr sdkconfig) # fact_items sdkconfig_raw @ [(str ''values_sha256'', PStr (digest (encoded (config_dict config))))])),
        (str ''verification_key'', PDict ((str ''path'', PStr key) # fact_items key_raw)),
        (str ''automatic_signing'', PBool automatic), (str ''signing_trust'', trust), (str ''tools'', tools)])))))))))))))))"

subsection \<open>The frozen inputs\<close>

record frozen =
  fz_target :: target
  fz_sdk_root :: pystr
  fz_sdkconfig :: pystr
  fz_values_sha256 :: pystr
  fz_key :: pystr
  fz_automatic :: bool
  fz_trust :: pyval
  fz_components :: pyval

definition text_at :: "(pystr \<times> pyval) list \<Rightarrow> string \<Rightarrow> pystr res" where
  "text_at d key = bindE (py_getitem d key) (as_text (Raise TypeError key))"

definition target_at :: "(pystr \<times> pyval) list \<Rightarrow> target res" where
  "target_at d = bindE (py_getitem d ''target'') (\<lambda>v. of_option (Raise KeyError ''target'') (find_target v))"

definition frozen_of :: "pyval \<Rightarrow> frozen res" where
  "frozen_of v =
     bindE (as_dict (Raise TypeError ''input'') v) (\<lambda>d.
     bindE (target_at d) (\<lambda>t.
     bindE (text_at d ''sdk_root'') (\<lambda>idf.
     bindE (dict_field d ''sdkconfig'') (\<lambda>config.
     bindE (text_at config ''path'') (\<lambda>config_path.
     bindE (text_at config ''values_sha256'') (\<lambda>values.
     bindE (bindE (dict_field d ''verification_key'') (\<lambda>key. text_at key ''path'')) (\<lambda>key_path.
     bindE (py_getitem d ''automatic_signing'') (\<lambda>automatic.
     bindE (py_getitem d ''signing_trust'') (\<lambda>trust.
     bindE (py_getitem d ''components'') (\<lambda>components.
     Inr \<lparr>fz_target = t, fz_sdk_root = idf, fz_sdkconfig = config_path, fz_values_sha256 = values, fz_key = key_path,
       fz_automatic = (automatic = PBool True), fz_trust = trust, fz_components = components\<rparr>))))))))))"

text \<open>The inputs as they are now, for the paths and the target of the frozen ones; another target is rejected.\<close>

definition current_of :: "host \<Rightarrow> pyval \<Rightarrow> pyval res" where
  "current_of h v =
     bindE (as_dict (Raise TypeError ''input'') v) (\<lambda>d.
     bindE (target_at d) (\<lambda>t.
     bindE (bindE (dict_field d ''sdkconfig'') (\<lambda>config. text_at config ''path'')) (\<lambda>config_path.
     bindE (bindE (dict_field d ''verification_key'') (\<lambda>key. text_at key ''path'')) (\<lambda>key_path.
     bindE (py_getitem d ''signing_trust'') (\<lambda>trust.
     current_inputs h t config_path key_path trust)))))"

definition identity_of :: "host \<Rightarrow> pyval \<Rightarrow> pyval res" where
  "identity_of h v =
     bindE (of_option (Raise KeyError ''target'') (find_target v)) (\<lambda>t. resolve (ho_env h) (ho_release h) (ho_core h) (validate_source_inputs (ho_sources h)) t [])"

definition validated :: "host \<Rightarrow> bytes \<Rightarrow> (pyval \<times> pyval) res" where
  "validated h raw = validate_input (ho_package h) (current_of h) (identity_of h) (ho_run h) raw"

subsection \<open>The build\<close>

definition LOCK_FILE :: string where "LOCK_FILE = ''.firmware.lock''"
definition BUILD_RECEIPT :: string where "BUILD_RECEIPT = ''firmware-build.json''"
definition BUILD_INPUT :: string where "BUILD_INPUT = ''firmware-input.json''"

definition lock_build :: "host \<Rightarrow> unit act" where
  "lock_build h d =
     (if \<not> (is_absolute (ho_directory h) \<and> \<not> ho_dir_link h \<and> \<not> ho_dir_inside h) then (Inl (Raise ValueError ''build directory''), d)
      else (case node_at d LOCK_FILE of
          Absent \<Rightarrow> (Inr (), AList.update LOCK_FILE (File []) d)
        | File _ \<Rightarrow> (Inr (), d)
        | _ \<Rightarrow> (Inl (Raise OSError ''lock''), d)))"

definition exists_at :: "host \<Rightarrow> dir \<Rightarrow> string \<Rightarrow> bool" where
  "exists_at h d name = (case node_at d name of Absent \<Rightarrow> False | Link \<Rightarrow> ho_link_exists h name | _ \<Rightarrow> True)"

definition read_json_at :: "host \<Rightarrow> dir \<Rightarrow> string \<Rightarrow> pyval res" where
  "read_json_at h d name = (case node_at d name of File raw \<Rightarrow> pe_loads (ho_package h) raw | _ \<Rightarrow> Inl (Raise ValueError ''not a regular file''))"

definition built_dir_of :: "dir \<Rightarrow> target \<Rightarrow> bool \<Rightarrow> built_dir res" where
  "built_dir_of d t automatic =
     bindE (regular d ''sdkconfig'') (\<lambda>sdkconfig.
     bindE (regular d (unsigned_name automatic)) (\<lambda>unsigned_raw.
     bindE (regular d ''esp_base.elf'') (\<lambda>elf.
     bindE (regular d ''bootloader/bootloader.bin'') (\<lambda>bootloader.
     bindE (regular d ''partition_table/partition-table.bin'') (\<lambda>table.
     bindE (regular d ''ota_data_initial.bin'') (\<lambda>otadata.
     bindE (if t = Esp32 then regular d ''bootloader/bootloader.elf'' else Inr []) (\<lambda>boot_elf.
     Inr \<lparr>bd_sdkconfig = sdkconfig, bd_unsigned = unsigned_raw, bd_elf = elf, bd_boot_elf = boot_elf, bd_bootloader = bootloader,
       bd_table = table, bd_otadata = otadata\<rparr>)))))))"

definition facts_of :: "host \<Rightarrow> frozen \<Rightarrow> pyval \<Rightarrow> dir \<Rightarrow> pyval res" where
  "facts_of h fz identity d =
     bindE (built_dir_of d (fz_target fz) (fz_automatic fz)) (\<lambda>bd.
     bindE (if fz_target fz = Esp32 then ho_read h (fz_key fz) else Inr []) (\<lambda>key.
     built_facts (ho_tools h) bd (fz_target fz) (fz_automatic fz) key (fz_values_sha256 fz)
       (component_facts (ho_components h (fz_target fz))) identity))"

definition binding :: "pyval \<Rightarrow> pyval \<Rightarrow> pyval" where
  "binding v identity = PDict [(str ''input'', v), (str ''build'', identity)]"

definition build_result :: "pyval \<Rightarrow> pyval \<Rightarrow> pyval \<Rightarrow> pyval" where
  "build_result v identity native = PDict [(str ''binding'', binding v identity), (str ''native'', native)]"

definition build_command :: "host \<Rightarrow> frozen \<Rightarrow> pystr list" where
  "build_command h fz =
     [ho_executable h, fz_sdk_root fz @ str ''/tools/idf.py'', str ''-C'', ho_root h @ str ''/firmware'', str ''-B'', ho_directory h,
      str (''-DIDF_TARGET='' @ target_name (fz_target fz)), str ''-DESP_BASE_APP=esp_base'',
      str ''-DSDKCONFIG='' @ ho_directory h @ str ''/sdkconfig'', str ''-DSDKCONFIG_DEFAULTS='', str ''-DCCACHE_ENABLE=OFF'']"

definition run_build :: "host \<Rightarrow> frozen \<Rightarrow> string \<Rightarrow> unit act" where
  "run_build h fz action = bindA (liftA (environment (ho_env h))) (\<lambda>env. ho_run_program h (build_command h fz @ [str action]) env)"

definition same_value :: "host \<Rightarrow> pyval \<Rightarrow> pyval \<Rightarrow> string \<Rightarrow> unit res" where
  "same_value h a b message = require (py_eq (pe_fnorm (ho_package h)) a b) (Raise ValueError message) (Inr ())"

text \<open>A completed build: its receipt and its bytes are checked again.\<close>

definition completed_build :: "host \<Rightarrow> frozen \<Rightarrow> pyval \<Rightarrow> pyval \<Rightarrow> dir \<Rightarrow> pyval res" where
  "completed_build h fz v identity d =
     bindE (facts_of h fz identity d) (\<lambda>native.
     bindE (read_json_at h d BUILD_RECEIPT) (\<lambda>found.
     bindE (same_value h found (build_result v identity native) ''finished build changed'') (\<lambda>_. Inr (build_result v identity native))))"

definition unknown_directory :: "host \<Rightarrow> dir \<Rightarrow> unit res" where
  "unknown_directory h d =
     require (\<not> (\<not> exists_at h d BUILD_INPUT \<and> list_ex (\<lambda>(name, node). name \<noteq> LOCK_FILE \<and> node \<noteq> Absent) d))
       (Raise ValueError ''unknown build directory'') (Inr ())"

definition take_config :: "host \<Rightarrow> frozen \<Rightarrow> unit act" where
  "take_config h fz = bindA (readA (\<lambda>d. Inr (exists_at h d ''sdkconfig''))) (\<lambda>found.
     if found then liftA (Inr ()) else bindA (liftA (ho_read h (fz_sdkconfig fz))) (freeze ''sdkconfig''))"

definition compiled :: "host \<Rightarrow> host \<Rightarrow> bytes \<Rightarrow> frozen \<Rightarrow> pyval \<Rightarrow> pyval \<Rightarrow> pyval act" where
  "compiled h h' raw fz v identity =
     bindA (readA (unknown_directory h)) (\<lambda>_.
     bindA (freeze BUILD_INPUT (encoded (binding v identity))) (\<lambda>_.
     bindA (take_config h fz) (\<lambda>_.
     bindA (run_build h fz ''reconfigure'') (\<lambda>_.
     bindA (liftA (component_facts (ho_components h (fz_target fz)))) (\<lambda>before.
     bindA (liftA (same_value h before (fz_components fz) ''components have drifted'')) (\<lambda>_.
     bindA (run_build h fz ''build'') (\<lambda>_.
     bindA (readA (facts_of h' fz identity)) (\<lambda>native.
     bindA (liftA (bindE (as_dict (Raise TypeError ''native'') native) (\<lambda>n. bindE (py_getitem n ''components'') (\<lambda>c. same_value h' c before ''components changed'')))) (\<lambda>_.
     bindA (liftA (bindE (validated h' raw) (\<lambda>(v', identity'). bindE (same_value h' v' v ''inputs changed'') (\<lambda>_. same_value h' identity' identity ''identity changed'')))) (\<lambda>_.
     bindA (freeze BUILD_RECEIPT (encoded (build_result v identity native))) (\<lambda>_.
     liftA (Inr (build_result v identity native)))))))))))))"

definition build :: "host \<Rightarrow> host \<Rightarrow> bytes \<Rightarrow> pyval act" where
  "build h h' raw =
     bindA (liftA (validated h raw)) (\<lambda>(v, identity).
     bindA (liftA (frozen_of v)) (\<lambda>fz.
     bindA (lock_build h) (\<lambda>_.
     bindA (readA (\<lambda>d. Inr (exists_at h d BUILD_RECEIPT))) (\<lambda>done.
     if done then readA (completed_build h fz v identity) else compiled h h' raw fz v identity))))"

subsection \<open>The package\<close>

text \<open>
  The artifact, by its path; the files a caller gives in place of the ones of the directory: the signed image, the signed manifest and the signed partition
  table, by path; and whether only the manifest is wanted (then the source's artifact is \<^verbatim>\<open>None\<close>, and \<open>pa_artifact\<close> is not used).
\<close>

record package_args =
  pa_artifact :: pystr
  pa_image :: "pystr option"
  pa_manifest :: "pystr option"
  pa_manifest_only :: bool
  pa_partition :: "pystr option"

definition PACKAGE_MANIFEST :: string where "PACKAGE_MANIFEST = ''firmware-package-manifest.json''"
definition SIGNED_MANIFEST :: string where "SIGNED_MANIFEST = ''firmware-package-manifest.signed.bin''"

definition required_variable :: "host \<Rightarrow> string \<Rightarrow> pystr res" where
  "required_variable h name = of_option (Raise KeyError name) (ho_env h name)"

definition recorded_identity :: "host \<Rightarrow> pyval \<Rightarrow> pyval \<Rightarrow> target \<Rightarrow> pyval res" where
  "recorded_identity h context snapshot t =
     require (is_absolute (env_text (ho_env h) ''FAST_DEPLOY_PACKAGE_CORE_ROOT'')) (Raise ValueError ''no trusted Core'')
     (pe_recorded (ho_package h) context snapshot t)"

text \<open>The context and the version snapshot of the record the Core left beside its run.\<close>

definition core_record :: "host \<Rightarrow> (pyval \<times> pyval) res" where
  "core_record h =
     bindE (required_variable h ''FAST_DEPLOY_CLIENT_VERSION_SNAPSHOT_FILE'') (\<lambda>_.
     bindE (cr_original (ho_run h)) (\<lambda>original.
     bindE (as_dict (Raise TypeError ''original'') original) (\<lambda>orig.
     bindE (py_getitem orig ''context'') (\<lambda>context.
     bindE (py_getitem orig ''version_snapshot'') (\<lambda>snapshot. Inr (context, snapshot))))))"

definition BUILD_PATHS :: "string list" where
  "BUILD_PATHS = [''esp_base.elf'', ''bootloader/bootloader.bin'', ''partition_table/partition-table.bin'', ''ota_data_initial.bin'']"

definition file_name :: "string \<Rightarrow> string" where
  "file_name path = rev (takeWhile (\<lambda>c. c \<noteq> CHR ''/'') (rev path))"

definition build_files :: "dir \<Rightarrow> (string \<times> bytes) list res" where
  "build_files d = for_each (\<lambda>files path. bindE (regular d path) (\<lambda>raw. Inr (files @ [(file_name path, raw)]))) [] BUILD_PATHS"

text \<open>The files of the package but the manifest.\<close>

definition collected ::
  "host \<Rightarrow> frozen \<Rightarrow> pyval \<Rightarrow> pyval \<Rightarrow> bytes \<Rightarrow> pyval \<Rightarrow> pyval \<Rightarrow> dir \<Rightarrow> (string \<times> bytes) list res" where
  "collected h fz v identity signed_raw context snapshot d =
     bindE (ho_read h (fz_key fz)) (\<lambda>key.
     bindE (ho_own h ''sdk-lock.json'') (\<lambda>sdk_lock_raw.
     bindE (ho_own h ''LICENSE'') (\<lambda>license.
     bindE (portable_input v) (\<lambda>portable.
     bindE (run_inputs_of (ho_package h) (ho_run h) v) (\<lambda>run.
     bindE (ho_own h (dependency_lock_path (fz_target fz))) (\<lambda>dependencies.
     bindE (build_files d) (\<lambda>built.
     Inr ([(''firmware.bin'', signed_raw), (''verification-key.bin'', key), (''sdk-lock.json'', sdk_lock_raw), (''LICENSE'', license),
           (''inputs.json'', encoded portable), (''context.json'', encoded context), (''version-snapshot.json'', encoded snapshot),
           (''build.json'', encoded identity)] @ run @ [(''dependencies.lock'', dependencies)] @ built))))))))"

text \<open>A partition table signed outside replaces the one of the build, on the one path that has it.\<close>

definition signed_table :: "host \<Rightarrow> frozen \<Rightarrow> package_args \<Rightarrow> dir \<Rightarrow> (string \<times> bytes) list \<Rightarrow> (string \<times> bytes) list res" where
  "signed_table h fz a d files =
     (if fz_target fz = Esp32 \<and> \<not> fz_automatic fz then
        (case pa_partition a of
           None \<Rightarrow> Inl (Raise ValueError ''signed partition table missing'')
         | Some path \<Rightarrow>
             bindE (ho_read h path) (\<lambda>signed_raw.
             bindE (regular d ''partition_table/partition-table.bin'') (\<lambda>table.
             bindE (ho_read h (fz_key fz)) (\<lambda>key.
             bindE (verify_signed (pe_verify (ho_package h)) signed_raw table key Esp32) (\<lambda>_.
             Inr (AList.update ''partition-table.bin'' signed_raw files))))))
      else require (pa_partition a = None) (Raise ValueError ''no separate partition table'') (Inr files))"

definition package_manifest :: "frozen \<Rightarrow> pyval \<Rightarrow> pyval \<Rightarrow> pyval \<Rightarrow> (string \<times> bytes) list \<Rightarrow> (pystr \<times> pyval) list" where
  "package_manifest fz portable identity components files =
     [(str ''schema_version'', PInt 2), (str ''kind'', PStr (str ''esp-base-firmware'')), (str ''build'', identity),
      (str ''target'', PStr (str (target_name (fz_target fz)))), (str ''slot_capacity_bytes'', PInt (int SLOT_BYTES)),
      (str ''signing_trust'', fz_trust fz), (str ''signature_scheme'', PStr (str (signature_scheme (fz_target fz)))),
      (str ''input_manifest_sha256'', PStr (digest (encoded portable))), (str ''sdkconfig_values_sha256'', PStr (fz_values_sha256 fz)),
      (str ''components'', components), (str ''files'', PDict (map (\<lambda>(name, data). (str name, fact data)) files))]"

text \<open>The signed manifest: given, kept from an earlier run, or signed now with the key of the configuration.\<close>

definition sign_manifest :: "host \<Rightarrow> frozen \<Rightarrow> package_args \<Rightarrow> bytes \<Rightarrow> bytes \<Rightarrow> unit act" where
  "sign_manifest h fz a key manifest = (case pa_manifest a of
      Some path \<Rightarrow>
        bindA (liftA (ho_read h path)) (\<lambda>signed_raw.
        bindA (liftA (verify_signed (pe_verify (ho_package h)) signed_raw manifest key (fz_target fz))) (\<lambda>_.
        freeze SIGNED_MANIFEST signed_raw))
    | None \<Rightarrow>
        bindA (readA (\<lambda>d. Inr (exists_at h d SIGNED_MANIFEST))) (\<lambda>found.
        if found then liftA (Inr ())
        else bindA (liftA (require (fz_automatic fz) (Raise ValueError ''manifest to be signed outside'') (Inr ()))) (\<lambda>_.
             bindA (liftA (bindE (bindE (ho_read h (fz_sdkconfig fz)) config_values) (\<lambda>config.
               bindE (of_option (Raise KeyError ''signing key'') (cfg config ''CONFIG_SECURE_BOOT_SIGNING_KEY'')) (ho_text_loads h)))) (\<lambda>signing_key.
             bindA (liftA (ho_sign h (fz_target fz) signing_key manifest)) (freeze SIGNED_MANIFEST)))))"

text \<open>The identity without what the Core will add again, as it is staged for the Core.\<close>

definition staged_identity :: "(pystr \<times> pyval) list \<Rightarrow> (pystr \<times> pyval) list" where
  "staged_identity identity =
     AList.update (str ''run_id'') (PStr []) (AList.update (str ''local_validation'') (PBool True)
       (without ''build_number'' (without ''source_commit_sha'' (without ''input_sha256'' identity))))"

definition stage :: "(string \<times> bytes) list \<Rightarrow> bytes \<Rightarrow> bytes \<Rightarrow> (pystr \<times> pyval) list \<Rightarrow> (string \<times> bytes) list" where
  "stage files manifest signed_raw identity =
     AList.update ''build.json'' (encoded (PDict (staged_identity identity))) (files @ [(''manifest.json'', manifest), (''manifest.signed.bin'', signed_raw)])"

text \<open>
  The Core's \<^verbatim>\<open>package-directory\<close> gets the staged files and the path of the artifact, which may lie in the build directory: \<open>ho_member\<close> says
  which of its files the path names, \<open>ho_node\<close> what is at any other path.  It answers with a report and leaves a node at the path, whether it succeeds or not; it
  touches nothing else in the build directory.
\<close>

definition core_package :: "host \<Rightarrow> pystr \<Rightarrow> (string \<times> bytes) list \<Rightarrow> (pyval \<times> node) act" where
  "core_package h path files d = (case ho_member h path of
      Some name \<Rightarrow> (case ho_package_directory h files path (node_at d name) of (r, n) \<Rightarrow> (bindE r (\<lambda>report. Inr (report, n)), AList.update name n d))
    | None \<Rightarrow> (case ho_package_directory h files path (ho_node h path) of (r, n) \<Rightarrow> (bindE r (\<lambda>report. Inr (report, n)), d)))"

text \<open>\<^verbatim>\<open>zipfile.ZipFile\<close> on the bytes of the artifact.\<close>

definition artifact_items :: "host \<Rightarrow> node \<Rightarrow> zip_item list res" where
  "artifact_items h n = (case n of
      File raw \<Rightarrow> ho_zip h raw
    | Absent \<Rightarrow> Inl (Raise OSError ''artifact'')
    | _ \<Rightarrow> Inl (Raise ValueError ''not a regular file''))"

text \<open>The last looks at the world before the Core is called: the staged files.\<close>

definition ready_to_deliver ::
  "host \<Rightarrow> host \<Rightarrow> bytes \<Rightarrow> frozen \<Rightarrow> pyval \<Rightarrow> pyval \<Rightarrow> pyval \<Rightarrow> (string \<times> bytes) list \<Rightarrow> bytes \<Rightarrow> dir \<Rightarrow> (string \<times> bytes) list res" where
  "ready_to_deliver h h' raw fz v identity native files manifest d =
     bindE (regular d SIGNED_MANIFEST) (\<lambda>signed_raw.
     bindE (as_dict (Raise AttributeError ''items'') identity) (\<lambda>i.
     bindE (validated h' raw) (\<lambda>(v', identity').
     bindE (same_value h' v' v ''inputs changed'') (\<lambda>_.
     bindE (same_value h' identity' identity ''inputs changed'') (\<lambda>_.
     bindE (facts_of h' fz identity d) (\<lambda>native'.
     bindE (same_value h' native' native ''build changed'') (\<lambda>_.
     bindE (required_variable h' ''FAST_DEPLOY_PACKAGE_CORE_ROOT'') (\<lambda>_. Inr (stage files manifest signed_raw i)))))))))"

definition delivered ::
  "host \<Rightarrow> host \<Rightarrow> bytes \<Rightarrow> package_args \<Rightarrow> frozen \<Rightarrow> pyval \<Rightarrow> pyval \<Rightarrow> pyval \<Rightarrow> (string \<times> bytes) list \<Rightarrow> bytes \<Rightarrow> pyval act" where
  "delivered h h' raw a fz v identity native files manifest =
     bindA (readA (ready_to_deliver h h' raw fz v identity native files manifest)) (\<lambda>staged.
     bindA (core_package h' (pa_artifact a) staged) (\<lambda>(report, n).
     liftA (bindE (artifact_items h' n) (\<lambda>items.
       bindE (verify_package (ho_package h') items False None) (\<lambda>_. Inr report)))))"

definition assembled ::
  "host \<Rightarrow> host \<Rightarrow> bytes \<Rightarrow> package_args \<Rightarrow> frozen \<Rightarrow> pyval \<Rightarrow> pyval \<Rightarrow> pyval \<Rightarrow> bytes \<Rightarrow> (string \<times> bytes) list \<Rightarrow> pyval act" where
  "assembled h h' raw a fz v identity native key files =
     bindA (liftA (portable_input v)) (\<lambda>portable.
     bindA (liftA (bindE (as_dict (Raise TypeError ''native'') native) (\<lambda>n. py_getitem n ''components''))) (\<lambda>components.
     let manifest = encoded (PDict (package_manifest fz portable identity components files)) in
     bindA (freeze PACKAGE_MANIFEST manifest) (\<lambda>_.
     if pa_manifest_only a then
       liftA (Inr (PDict [(str ''manifest'', PStr (ho_directory h @ str ''/'' @ str PACKAGE_MANIFEST)), (str ''sha256'', PStr (digest manifest))]))
     else bindA (sign_manifest h fz a key manifest) (\<lambda>_.
       bindA (readA (\<lambda>d. bindE (regular d SIGNED_MANIFEST) (\<lambda>signed_raw.
         verify_signed (pe_verify (ho_package h)) signed_raw manifest key (fz_target fz)))) (\<lambda>_.
       delivered h h' raw a fz v identity native files manifest)))))"

definition package_checks :: "host \<Rightarrow> package_args \<Rightarrow> frozen \<Rightarrow> pyval \<Rightarrow> pyval \<Rightarrow> dir \<Rightarrow> (pyval \<times> bytes \<times> (string \<times> bytes) list) res" where
  "package_checks h a fz v identity d =
     bindE (facts_of h fz identity d) (\<lambda>native.
     bindE (bindE (read_json_at h d BUILD_RECEIPT) (\<lambda>found. same_value h found (build_result v identity native) ''build receipt differs'')) (\<lambda>_.
     bindE (case pa_image a of Some path \<Rightarrow> ho_read h path | None \<Rightarrow> regular d ''esp_base.bin'') (\<lambda>signed_raw.
     bindE (regular d (unsigned_name (fz_automatic fz))) (\<lambda>unsigned_raw.
     bindE (ho_read h (fz_key fz)) (\<lambda>key.
     bindE (verify_signed (pe_verify (ho_package h)) signed_raw unsigned_raw key (fz_target fz)) (\<lambda>_.
     bindE (inspect_image signed_raw identity (fz_target fz)) (\<lambda>_.
     bindE (core_record h) (\<lambda>(context, snapshot).
     bindE (recorded_identity h context snapshot (fz_target fz)) (\<lambda>recorded.
     bindE (same_value h recorded identity ''recorded identity differs'') (\<lambda>_.
     bindE (bindE (collected h fz v identity signed_raw context snapshot d) (signed_table h fz a d)) (\<lambda>files.
     Inr (native, key, files))))))))))))"

definition package :: "host \<Rightarrow> host \<Rightarrow> bytes \<Rightarrow> package_args \<Rightarrow> pyval act" where
  "package h h' raw a =
     bindA (liftA (validated h raw)) (\<lambda>(v, identity).
     bindA (liftA (frozen_of v)) (\<lambda>fz.
     bindA (lock_build h) (\<lambda>_.
     bindA (readA (package_checks h a fz v identity)) (\<lambda>(native, key, files).
     assembled h h' raw a fz v identity native key files))))"

subsection \<open>Nothing is replaced\<close>

text \<open>Every file outside \<open>extra\<close> stays as it was, and outside \<open>extra\<close> only the named nodes change.\<close>

named_theorems calm_intros \<open>actions that keep every file\<close>

definition kept :: "string set \<Rightarrow> dir \<Rightarrow> dir \<Rightarrow> bool" where
  "kept extra d d' = (\<forall>name raw. name \<notin> extra \<and> node_at d name = File raw \<longrightarrow> node_at d' name = File raw)"

definition calm :: "string set \<Rightarrow> string set \<Rightarrow> 'a act \<Rightarrow> bool" where
  "calm extra names a = (\<forall>d. kept extra d (snd (a d)) \<and> (\<forall>name. name \<notin> names \<union> extra \<longrightarrow> node_at (snd (a d)) name = node_at d name))"

lemma node_at_update: "node_at (AList.update name n d) name' = (if name' = name then n else node_at d name')"
  by (simp add: node_at_def update_conv')

lemma calm_lift [calm_intros]: "calm extra names (liftA r)"
  by (simp add: calm_def kept_def liftA_def)

lemma calm_read [calm_intros]: "calm extra names (readA f)"
  by (simp add: calm_def kept_def readA_def)

lemma write_once_keeps: "write_once n data = (r, n') \<Longrightarrow> n = File raw \<Longrightarrow> n' = File raw"
  by (auto simp: write_once_def)

lemma calm_freeze [calm_intros]: "name \<in> names \<Longrightarrow> calm extra names (freeze name data)"
  by (auto simp: calm_def kept_def freeze_def node_at_update split: prod.splits dest: write_once_keeps)

lemma calm_lock [calm_intros]: "LOCK_FILE \<in> names \<Longrightarrow> calm extra names (lock_build h)"
  by (auto simp: calm_def kept_def lock_build_def node_at_update split: node.splits)

lemma calm_bind [calm_intros]:
  assumes "calm extra names a" and "\<And>x. calm extra names (f x)"
  shows "calm extra names (bindA a f)"
  unfolding calm_def
proof
  fix d
  obtain r d1 where first: "a d = (r, d1)" by (cases "a d")
  have step: "kept extra d d1" "\<forall>name. name \<notin> names \<union> extra \<longrightarrow> node_at d1 name = node_at d name"
    using assms(1) [unfolded calm_def, rule_format, of d] by (simp_all add: first)
  show "kept extra d (snd (bindA a f d)) \<and> (\<forall>name. name \<notin> names \<union> extra \<longrightarrow> node_at (snd (bindA a f d)) name = node_at d name)"
  proof (cases r)
    case (Inl e)
    with step first show ?thesis by (simp add: bindA_def)
  next
    case (Inr x)
    have "kept extra d1 (snd (f x d1))" "\<forall>name. name \<notin> names \<union> extra \<longrightarrow> node_at (snd (f x d1)) name = node_at d1 name"
      using assms(2) [of x, unfolded calm_def] by blast+
    with step Inr first show ?thesis by (simp add: bindA_def kept_def)
  qed
qed

lemma calm_sign [calm_intros]: "SIGNED_MANIFEST \<in> names \<Longrightarrow> calm extra names (sign_manifest h fz a key manifest)"
  by (auto simp: sign_manifest_def intro!: calm_intros split: option.splits)

lemma calm_core [calm_intros]: "set_option (ho_member h path) \<subseteq> extra \<Longrightarrow> calm extra names (core_package h path files)"
  by (auto simp: calm_def kept_def core_package_def node_at_update split: option.splits prod.splits)

text \<open>The file of the build directory that the artifact is, if it is one.\<close>

definition artifact_names :: "host \<Rightarrow> package_args \<Rightarrow> string set" where
  "artifact_names h a = (if pa_manifest_only a then {} else set_option (ho_member h (pa_artifact a)))"

lemma calm_delivered [calm_intros]: "set_option (ho_member h' (pa_artifact a)) \<subseteq> extra \<Longrightarrow> calm extra names (delivered h h' raw a fz v identity native files manifest)"
  by (auto simp: delivered_def intro!: calm_intros split: prod.splits)

lemma calm_assembled [calm_intros]:
  "PACKAGE_MANIFEST \<in> names \<Longrightarrow> SIGNED_MANIFEST \<in> names \<Longrightarrow> artifact_names h' a \<subseteq> extra \<Longrightarrow> calm extra names (assembled h h' raw a fz v identity native key files)"
  by (auto simp: assembled_def Let_def artifact_names_def intro!: calm_intros)

lemma calm_package: "calm (artifact_names h' a) {LOCK_FILE, PACKAGE_MANIFEST, SIGNED_MANIFEST} (package h h' raw a)"
  by (auto simp: package_def intro!: calm_intros split: prod.splits)

text \<open>
  C8: packaging replaces nothing but the artifact it is asked for.  Whatever the run of \<^verbatim>\<open>package\<close> meets and however it ends, every file of the build directory
  other than the artifact (when its path lies in the directory) has the bytes it had, and besides the artifact the only names that can appear are the lock, the frozen manifest and
  its signed form; a run for the manifest only has no artifact.
\<close>

theorem package_replaces_nothing:
  "kept (artifact_names h' a) d (snd (package h h' raw a d)) \<and>
   {name. node_at (snd (package h h' raw a d)) name \<noteq> node_at d name} \<subseteq> {LOCK_FILE, PACKAGE_MANIFEST, SIGNED_MANIFEST} \<union> artifact_names h' a"
  using calm_package [of h' a h raw] unfolding calm_def by blast

subsection \<open>What a finished build and a delivery say\<close>

named_theorems act_simps \<open>when an action returns\<close>

lemma bindA_eq_Inr [act_simps]: "bindA a f d = (Inr y, d') \<longleftrightarrow> (\<exists>x d1. a d = (Inr x, d1) \<and> f x d1 = (Inr y, d'))"
  by (auto simp: bindA_def split: prod.splits sum.splits)

lemma liftA_eq_Inr [act_simps]: "liftA r d = (Inr x, d') \<longleftrightarrow> r = Inr x \<and> d' = d"
  by (auto simp: liftA_def)

lemma readA_eq_Inr [act_simps]: "readA f d = (Inr x, d') \<longleftrightarrow> f d = Inr x \<and> d' = d"
  by (auto simp: readA_def)

lemma freeze_eq_Inr [act_simps]: "freeze name data d = (Inr x, d') \<longleftrightarrow>
    d' = AList.update name (File data) d \<and> (node_at d name = Absent \<or> node_at d name = File data)"
  by (auto simp: freeze_def write_once_def split: node.splits if_splits)

lemma regular_eq_Inr: "regular d name = Inr raw \<longleftrightarrow> node_at d name = File raw"
  by (auto simp: regular_def split: node.splits)

lemma facts_of_receipt: "facts_of h fz identity (AList.update BUILD_RECEIPT n d) = facts_of h fz identity d"
  by (simp add: facts_of_def built_dir_of_def regular_def node_at_update BUILD_RECEIPT_def unsigned_name_def)

definition receipt_says :: "host \<Rightarrow> dir \<Rightarrow> pyval \<Rightarrow> bool" where
  "receipt_says h d result = (\<exists>raw. node_at d BUILD_RECEIPT = File raw \<and>
     (raw = encoded result \<or> (\<exists>found. pe_loads (ho_package h) raw = Inr found \<and> py_eq (pe_fnorm (ho_package h)) found result)))"

text \<open>
  C9: a build that returns has frozen what it built.  The result binds the validated inputs and identity to the facts of the directory as
  it is left, read at the start of the run (a finished build) or after the compilation; and the receipt in the directory says exactly this result.
\<close>

theorem finished_build_frozen:
  assumes "build h h' raw d = (Inr result, d')"
  shows "\<exists>v identity fz native. validated h raw = Inr (v, identity) \<and> frozen_of v = Inr fz \<and> result = build_result v identity native \<and>
    (facts_of h fz identity d' = Inr native \<or> facts_of h' fz identity d' = Inr native) \<and> receipt_says h d' result"
proof -
  obtain v identity fz d1 where start: "validated h raw = Inr (v, identity)" "frozen_of v = Inr fz"
    and rest: "(if exists_at h d1 BUILD_RECEIPT then readA (completed_build h fz v identity) else compiled h h' raw fz v identity) d1 = (Inr result, d')"
    using assms by (auto simp: build_def act_simps split: prod.splits)
  show ?thesis
  proof (cases "exists_at h d1 BUILD_RECEIPT")
    case True
    then have "completed_build h fz v identity d1 = Inr result" and "d' = d1"
      using rest by (auto simp: act_simps)
    then obtain native found where native: "facts_of h fz identity d' = Inr native" "read_json_at h d' BUILD_RECEIPT = Inr found"
        "py_eq (pe_fnorm (ho_package h)) found (build_result v identity native)" "result = build_result v identity native"
      by (auto simp: completed_build_def same_value_def res_simps)
    then have "receipt_says h d' result"
      by (auto simp: receipt_says_def read_json_at_def split: node.splits)
    with start native show ?thesis by blast
  next
    case False
    then obtain native d2 where native: "facts_of h' fz identity d2 = Inr native" "result = build_result v identity native"
        "d' = AList.update BUILD_RECEIPT (File (encoded result)) d2"
      using rest by (auto simp: compiled_def act_simps)
    then have "receipt_says h d' result"
      by (simp add: receipt_says_def node_at_update)
    with start native show ?thesis
      by (auto simp: facts_of_receipt)
  qed
qed

lemma sign_manifest_keeps: "sign_manifest h fz a key manifest d = (r, d') \<Longrightarrow> node_at d' PACKAGE_MANIFEST = node_at d PACKAGE_MANIFEST"
  using calm_sign [of "{SIGNED_MANIFEST}" "{}" h fz a key manifest, unfolded calm_def, rule_format, of d]
  by (auto simp: PACKAGE_MANIFEST_def SIGNED_MANIFEST_def)

lemma packaged_firmware:
  assumes "package_checks h a fz v identity d = Inr (native, key, files)"
  shows "\<exists>firmware unsigned_raw. map_of files ''firmware.bin'' = Some firmware \<and> node_at d (unsigned_name (fz_automatic fz)) = File unsigned_raw \<and>
    ho_read h (fz_key fz) = Inr key \<and> map_of files ''verification-key.bin'' = Some key \<and>
    verify_signed (pe_verify (ho_package h)) firmware unsigned_raw key (fz_target fz) = Inr () \<and>
    inspect_image firmware identity (fz_target fz) = Inr identity"
proof -
  obtain firmware unsigned_raw ctx snapshot files0 where steps:
      "regular d (unsigned_name (fz_automatic fz)) = Inr unsigned_raw" "ho_read h (fz_key fz) = Inr key"
      "verify_signed (pe_verify (ho_package h)) firmware unsigned_raw key (fz_target fz) = Inr ()" "returns (inspect_image firmware identity (fz_target fz))"
      "collected h fz v identity firmware ctx snapshot d = Inr files0" "signed_table h fz a d files0 = Inr files"
    using assms by (auto simp: package_checks_def res_simps returns_iff)
  have "map_of files0 ''firmware.bin'' = Some firmware" "map_of files0 ''verification-key.bin'' = Some key"
    using steps(2,5) by (auto simp: collected_def res_simps)
  moreover have "map_of files name = map_of files0 name" if "name \<noteq> ''partition-table.bin''" for name
    using steps(6) that by (auto simp: signed_table_def res_simps update_conv' split: if_splits option.splits)
  moreover have "inspect_image firmware identity (fz_target fz) = Inr identity"
    using steps(4) inspected_descriptor by (auto simp: returns_iff)
  ultimately show ?thesis
    using steps by (auto simp: regular_eq_Inr)
qed

lemma frozen_then_signed:
  assumes "freeze PACKAGE_MANIFEST manifest d1 = (Inr (), d2)" and "sign_manifest h fz a key manifest d2 = (Inr (), d3)"
  shows "kept {} d1 d3"
proof -
  have "kept {} d1 d2" "kept {} d2 d3"
    using calm_freeze [of PACKAGE_MANIFEST "{PACKAGE_MANIFEST}" "{}" manifest, unfolded calm_def, rule_format, of d1]
      calm_sign [of "{SIGNED_MANIFEST}" "{}" h fz a key manifest, unfolded calm_def, rule_format, of d2] assms by simp_all
  then show ?thesis by (simp add: kept_def)
qed

lemma packaged_receipt: "package_checks h a fz v identity d = Inr (native, key, files) \<Longrightarrow> receipt_says h d (build_result v identity native)"
  by (auto simp: package_checks_def receipt_says_def read_json_at_def same_value_def res_simps split: node.splits)

lemma one_command_Inr:
  "(case m of Some (PList [PDict command]) \<Rightarrow> require (c command) e (Inr x) | _ \<Rightarrow> Inl e') = Inr y \<Longrightarrow> y = x"
  by (auto simp: res_simps split: option.splits pyval.splits list.splits)

lemma run_inputs_names: "run_inputs_of env r v = Inr run \<Longrightarrow> \<exists>a b. run = [(''package-inputs.json'', a), (''package-manifest.json'', b)]"
  unfolding run_inputs_of_def require_eq_Inr bindE_eq_Inr by (elim conjE exE) (drule one_command_Inr, blast)

lemma built_files_packaged:
  assumes "package_checks h a fz v identity d = Inr (native, key, files)"
  shows "list_all (\<lambda>path. \<exists>data. node_at d path = File data \<and> map_of files (file_name path) = Some data) [''esp_base.elf'', ''bootloader/bootloader.bin'', ''ota_data_initial.bin'']"
proof -
  obtain firmware ctx snapshot files0 where steps: "collected h fz v identity firmware ctx snapshot d = Inr files0" "signed_table h fz a d files0 = Inr files"
    using assms by (auto simp: package_checks_def res_simps)
  have "map_of files name = map_of files0 name" if "name \<noteq> ''partition-table.bin''" for name
    using steps(2) that by (auto simp: signed_table_def res_simps update_conv' split: if_splits option.splits)
  moreover obtain key sdk_raw license portable run dependencies elf boot table ota where files0: "map_of run ''esp_base.elf'' = None" "map_of run ''bootloader.bin'' = None"
      "map_of run ''ota_data_initial.bin'' = None"
      "files0 = [(''firmware.bin'', firmware), (''verification-key.bin'', key), (''sdk-lock.json'', sdk_raw), (''LICENSE'', license),
           (''inputs.json'', encoded portable), (''context.json'', encoded ctx), (''version-snapshot.json'', encoded snapshot),
           (''build.json'', encoded identity)] @ run @ [(''dependencies.lock'', dependencies), (''esp_base.elf'', elf), (''bootloader.bin'', boot),
           (''partition-table.bin'', table), (''ota_data_initial.bin'', ota)]"
      "node_at d ''esp_base.elf'' = File elf" "node_at d ''bootloader/bootloader.bin'' = File boot" "node_at d ''ota_data_initial.bin'' = File ota"
    using steps(1)
    by (auto simp: collected_def build_files_def BUILD_PATHS_def file_name_def bindE_eq_Inr regular_eq_Inr dest!: run_inputs_names)
  ultimately show ?thesis
    by (simp add: file_name_def map_add_def)
qed

lemma core_package_eq_Inr:
  "core_package h path files d = (Inr (report, n), d') \<longleftrightarrow> (\<exists>before. ho_package_directory h files path before = (Inr report, n) \<and>
     (case ho_member h path of None \<Rightarrow> before = ho_node h path \<and> d' = d | Some name \<Rightarrow> before = node_at d name \<and> d' = AList.update name n d))"
  by (auto simp: core_package_def res_simps split: option.splits prod.splits)

text \<open>The Core was called with the staged files, left the artifact, and the archive in it passed the verification.\<close>

definition artifact_delivered :: "host \<Rightarrow> pystr \<Rightarrow> (string \<times> bytes) list \<Rightarrow> pyval \<Rightarrow> dir \<Rightarrow> bool" where
  "artifact_delivered h path staged report d' =
     (\<exists>before archive items. ho_package_directory h staged path before = (Inr report, File archive) \<and>
        (case ho_member h path of None \<Rightarrow> before = ho_node h path | Some name \<Rightarrow> node_at d' name = File archive) \<and>
        ho_zip h archive = Inr items \<and> returns (verify_package (ho_package h) items False None))"

text \<open>
  C7: what is delivered is what was built and frozen.  When \<^verbatim>\<open>package\<close> returns the report of a package, then in the directory \<open>dm\<close> with which the Core was called
  (which is the directory as it is left, but for the artifact if that lies in it) the receipt of the build says the
  facts of the directory, and they still hold; the firmware is the compiled
  image of the directory with a valid signature of the frozen key, and it carries the validated identity; the linked program, the bootloader and the boot
  selector are those of the directory; the manifest that lists the digest of every
  packaged file and the components of the build is frozen in the directory together with its signed form, which verifies with the same key.  The Core received exactly these files, and
  the archive it left at the path of the artifact has passed the verification of packages.
\<close>

theorem delivered_package_frozen:
  assumes "package h h' raw a d = (Inr report, d')" and "\<not> pa_manifest_only a"
  shows "\<exists>dm v i fz n native' key files manifest signed_raw firmware unsigned_raw portable components.
    (\<forall>name. name \<notin> artifact_names h' a \<longrightarrow> node_at d' name = node_at dm name) \<and>
    validated h raw = Inr (v, PDict i) \<and> frozen_of v = Inr fz \<and> ho_read h (fz_key fz) = Inr key \<and>
    map_of files ''firmware.bin'' = Some firmware \<and> node_at dm (unsigned_name (fz_automatic fz)) = File unsigned_raw \<and>
    verify_signed (pe_verify (ho_package h)) firmware unsigned_raw key (fz_target fz) = Inr () \<and>
    inspect_image firmware (PDict i) (fz_target fz) = Inr (PDict i) \<and>
    list_all (\<lambda>path. \<exists>data. node_at dm path = File data \<and> map_of files (file_name path) = Some data) [''esp_base.elf'', ''bootloader/bootloader.bin'', ''ota_data_initial.bin''] \<and>
    receipt_says h dm (build_result v (PDict i) (PDict n)) \<and> facts_of h' fz (PDict i) dm = Inr native' \<and>
    py_eq (pe_fnorm (ho_package h')) native' (PDict n) \<and> map_of n (str ''components'') = Some components \<and> portable_input v = Inr portable \<and>
    manifest = encoded (PDict (package_manifest fz portable (PDict i) components files)) \<and>
    node_at dm PACKAGE_MANIFEST = File manifest \<and> node_at dm SIGNED_MANIFEST = File signed_raw \<and>
    verify_signed (pe_verify (ho_package h)) signed_raw manifest key (fz_target fz) = Inr () \<and>
    artifact_delivered h' (pa_artifact a) (stage files manifest signed_raw i) report d'"
proof -
  obtain v identity fz d1 native key files where start: "validated h raw = Inr (v, identity)" "frozen_of v = Inr fz"
      "package_checks h a fz v identity d1 = Inr (native, key, files)" "lock_build h d = (Inr (), d1)"
    and rest: "assembled h h' raw a fz v identity native key files d1 = (Inr report, d')"
    using assms(1) by (auto simp: package_def act_simps split: prod.splits)
  obtain portable n components d2 dm where parts: "portable_input v = Inr portable" "native = PDict n" "map_of n (str ''components'') = Some components"
    and frozen: "freeze PACKAGE_MANIFEST (encoded (PDict (package_manifest fz portable identity components files))) d1 = (Inr (), d2)"
    and sm: "sign_manifest h fz a key (encoded (PDict (package_manifest fz portable identity components files))) d2 = (Inr (), dm)"
    and last: "bindE (regular dm SIGNED_MANIFEST) (\<lambda>signed_raw.
        verify_signed (pe_verify (ho_package h)) signed_raw (encoded (PDict (package_manifest fz portable identity components files))) key (fz_target fz)) = Inr ()"
      "delivered h h' raw a fz v identity native files (encoded (PDict (package_manifest fz portable identity components files))) dm = (Inr report, d')"
    using rest assms(2) by (auto simp: assembled_def Let_def bindA_eq_Inr liftA_eq_Inr readA_eq_Inr py_getitem_def res_simps as_dict_def split: pyval.splits)
  let ?m = "encoded (PDict (package_manifest fz portable identity components files))"
  have manifest: "node_at dm PACKAGE_MANIFEST = File ?m"
    using frozen sign_manifest_keeps [OF sm] by (simp add: freeze_eq_Inr node_at_update)
  obtain staged artifact where staged: "ready_to_deliver h h' raw fz v identity native files ?m dm = Inr staged"
      "core_package h' (pa_artifact a) staged dm = (Inr (report, artifact), d')"
      "\<exists>items x. artifact_items h' artifact = Inr items \<and> verify_package (ho_package h') items False None = Inr x"
    using last(2) by (auto simp: delivered_def bindA_eq_Inr liftA_eq_Inr readA_eq_Inr res_simps)
  obtain signed_raw i native' where s: "node_at dm SIGNED_MANIFEST = File signed_raw" "identity = PDict i"
      "verify_signed (pe_verify (ho_package h)) signed_raw ?m key (fz_target fz) = Inr ()" "facts_of h' fz identity dm = Inr native'"
      "py_eq (pe_fnorm (ho_package h')) native' native" "staged = stage files ?m signed_raw i"
    using last(1) staged(1) by (auto simp: ready_to_deliver_def same_value_def res_simps regular_eq_Inr)
  have delivery: "artifact_delivered h' (pa_artifact a) staged report d'"
    using staged(2,3) by (auto simp: artifact_delivered_def core_package_eq_Inr artifact_items_def node_at_update returns_def split: node.splits option.splits sum.splits)
  have same: "\<forall>name. name \<notin> artifact_names h' a \<longrightarrow> node_at d' name = node_at dm name"
    using staged(2) assms(2) by (auto simp: core_package_eq_Inr node_at_update artifact_names_def split: option.splits)
  obtain firmware unsigned_raw where f: "map_of files ''firmware.bin'' = Some firmware" "node_at d1 (unsigned_name (fz_automatic fz)) = File unsigned_raw"
      "ho_read h (fz_key fz) = Inr key" "verify_signed (pe_verify (ho_package h)) firmware unsigned_raw key (fz_target fz) = Inr ()"
      "inspect_image firmware identity (fz_target fz) = Inr identity"
    using packaged_firmware [OF start(3)] by blast
  have keep: "node_at dm name = File data" if "node_at d1 name = File data" for name data
    using frozen_then_signed [OF frozen sm] that by (auto simp: kept_def)
  have built: "list_all (\<lambda>path. \<exists>data. node_at dm path = File data \<and> map_of files (file_name path) = Some data) [''esp_base.elf'', ''bootloader/bootloader.bin'', ''ota_data_initial.bin'']"
    using built_files_packaged [OF start(3)] keep by (auto elim!: list.pred_mono_strong)
  have receipt: "receipt_says h dm (build_result v identity native)"
    using packaged_receipt [OF start(3)] keep by (auto simp: receipt_says_def)
  show ?thesis
    using start(1,2) f(1,3-5) keep [OF f(2)] built receipt parts manifest s same delivery
    by (intro exI conjI) (assumption | simp)+
qed

end
