(* ===== verification/Package_Entry.thy ===== *)
theory Package_Entry
  imports Package_Build
begin

text \<open>
  The entry of the Core (\<^verbatim>\<open>package_entry.py\<close>): it collects the inputs, freezes them beside the record of the run, builds, and
  packages or asks for an external signature.

  The state is the node of \<^verbatim>\<open>firmware-input.json\<close> in the directory of the run and the build directory.  The argument \<open>w\<close> is the
  world at the steps of a run: 0 while the inputs are collected, 1 and 2 before and after the build, 3 and 4 before and after
  packaging.  Paths are texts; \<open>parent_path\<close> and \<open>join_path\<close> are \<^verbatim>\<open>Path.parent\<close> and \<^verbatim>\<open>/\<close>.

  Lemmas: a run that returns has frozen its inputs, finished its build and delivered a package with a signed manifest.
\<close>

definition parent_path :: "pystr \<Rightarrow> pystr" where
  "parent_path path = rev (drop 1 (dropWhile (\<lambda>c. c \<noteq> 47) (rev path)))"

definition join_path :: "pystr \<Rightarrow> pystr \<Rightarrow> pystr" where
  "join_path directory name = (if is_absolute name then name else directory @ [47] @ name)"

definition absolute_variable :: "host \<Rightarrow> string \<Rightarrow> pystr res" where
  "absolute_variable h name =
     (let path = env_text (ho_env h) name in require (is_absolute path) (Raise ValueError name) (Inr path))"

definition entry_inputs :: "host \<Rightarrow> pyval \<Rightarrow> pyval res" where
  "entry_inputs h v =
     bindE (of_option (Raise (if hashable v then ValueError else TypeError) ''unknown target'') (find_target v)) (\<lambda>t.
     let trust = env_text (ho_env h) ''ESP_BASE_SIGNING_TRUST'' in
     require (trust = str ''software-test'' \<or> trust = str ''release'') (Raise ValueError ''signing trust'')
     (bindE (absolute_variable h ''ESP_BASE_SDKCONFIG'') (\<lambda>sdkconfig.
      bindE (absolute_variable h ''ESP_BASE_VERIFICATION_KEY'') (\<lambda>key.
      current_inputs h t sdkconfig key (PStr trust)))))"

definition signed_variable :: "host \<Rightarrow> string \<Rightarrow> pystr option res" where
  "signed_variable h name =
     (let path = env_text (ho_env h) (''ESP_BASE_SIGNED_'' @ name) in
      if path = [] then Inr None else require (is_absolute path) (Raise ValueError name) (Inr (Some path)))"

text \<open>What an entry run finds: the frozen value and whether it signs its manifest itself.\<close>

definition requested :: "host \<Rightarrow> pystr \<Rightarrow> (pyval \<times> bool) res" where
  "requested h artifact =
     require (is_absolute (cr_snapshot_path (ho_run h))) (Raise ValueError ''not called by the Core'')
     (bindE (bindE (cr_request (ho_run h)) (as_dict (Raise TypeError ''request''))) (\<lambda>request.
      bindE (dict_field request ''manifest'') (\<lambda>declared.
      bindE (bindE (py_getitem declared ''variant'') (entry_inputs h)) (\<lambda>v.
      bindE (run_inputs_of (ho_package h) (ho_run h) v) (\<lambda>_.
      bindE (text_at declared ''artifact'') (\<lambda>name.
      require (artifact = join_path (parent_path (cr_snapshot_path (ho_run h))) name) (Raise ValueError ''artifact path'')
      (bindE (frozen_of v) (\<lambda>fz. Inr (v, fz_automatic fz)))))))))"

definition signed_args :: "host \<Rightarrow> pystr \<Rightarrow> package_args res" where
  "signed_args h artifact =
     bindE (signed_variable h ''IMAGE'') (\<lambda>img.
     bindE (signed_variable h ''PARTITION'') (\<lambda>partition.
     bindE (signed_variable h ''MANIFEST'') (\<lambda>manifest.
     Inr \<lparr>pa_artifact = artifact, pa_image = img, pa_manifest = manifest, pa_manifest_only = False, pa_partition = partition\<rparr>)))"

definition entry_package :: "(nat \<Rightarrow> host) \<Rightarrow> bytes \<Rightarrow> bool \<Rightarrow> package_args \<Rightarrow> pyval act" where
  "entry_package w raw automatic a =
     (if \<not> automatic \<and> pa_manifest a = None then
        bindA (package (w 3) (w 4) raw (a\<lparr>pa_manifest_only := True\<rparr>)) (\<lambda>_. liftA (Inl (Raise ValueError ''sign the manifest and repeat the run'')))
      else package (w 3) (w 4) raw a)"

definition entry_run :: "(nat \<Rightarrow> host) \<Rightarrow> pystr \<Rightarrow> node \<times> dir \<Rightarrow> pyval res \<times> node \<times> dir" where
  "entry_run w artifact = (\<lambda>(n, d). case requested (w 0) artifact of
      Inl e \<Rightarrow> (Inl e, n, d)
    | Inr (v, automatic) \<Rightarrow> (case write_once n (encoded v) of
        (Inl e, n') \<Rightarrow> (Inl e, n', d)
      | (Inr _, n') \<Rightarrow> (case bindA (build (w 1) (w 2) (encoded v)) (\<lambda>_.
            bindA (liftA (signed_args (w 3) artifact)) (entry_package w (encoded v) automatic)) d of (r, d') \<Rightarrow> (r, n', d'))))"

text \<open>The two forms of the command line; the result is what goes to the standard output.\<close>

definition entry_main :: "(nat \<Rightarrow> host) \<Rightarrow> pystr list \<Rightarrow> node \<times> dir \<Rightarrow> bytes res \<times> node \<times> dir" where
  "entry_main w args s = (case args of
      [command, t] \<Rightarrow>
        if command = str ''inputs'' then (bindE (bindE (entry_inputs (w 0) (PStr t)) portable_input) (\<lambda>v. Inr (encoded v)), s)
        else (Inl (Raise ValueError ''usage''), s)
    | [artifact] \<Rightarrow> (case entry_run w artifact s of (r, s') \<Rightarrow> (bindE r (\<lambda>v. Inr (encoded v)), s'))
    | _ \<Rightarrow> (Inl (Raise ValueError ''usage''), s))"

text \<open>
  A run of the entry that returns has delivered the package of its frozen inputs.  The inputs collected for the declared target were frozen
  and nothing else was there; the build and the packaging of exactly these bytes returned, one after the other; the
  manifest was signed by the build or outside; and the artifact is the one the Core declared.
\<close>

theorem entry_delivers_frozen_inputs:
  assumes "entry_run w artifact (n, d) = (Inr report, n', d')"
  shows "\<exists>v fz a result d1. frozen_of v = Inr fz \<and> n' = File (encoded v) \<and> (n = Absent \<or> n = n') \<and>
    (\<exists>request declared name variant. cr_request (ho_run (w 0)) = Inr (PDict request) \<and> map_of request (str ''manifest'') = Some (PDict declared) \<and>
       map_of declared (str ''variant'') = Some variant \<and> entry_inputs (w 0) variant = Inr v \<and>
       map_of declared (str ''artifact'') = Some (PStr name) \<and> artifact = join_path (parent_path (cr_snapshot_path (ho_run (w 0)))) name) \<and>
    build (w 1) (w 2) (encoded v) d = (Inr result, d1) \<and> package (w 3) (w 4) (encoded v) a d1 = (Inr report, d') \<and>
    pa_artifact a = artifact \<and> \<not> pa_manifest_only a \<and> (fz_automatic fz \<or> pa_manifest a \<noteq> None)"
proof -
  obtain v automatic where req: "requested (w 0) artifact = Inr (v, automatic)"
    and once: "write_once n (encoded v) = (Inr (), n')"
    and run: "bindA (build (w 1) (w 2) (encoded v)) (\<lambda>_. bindA (liftA (signed_args (w 3) artifact)) (entry_package w (encoded v) automatic)) d = (Inr report, d')"
    using assms by (auto simp: entry_run_def split: sum.splits prod.splits)
  obtain request declared variant name fz where r: "cr_request (ho_run (w 0)) = Inr (PDict request)" "map_of request (str ''manifest'') = Some (PDict declared)"
      "map_of declared (str ''variant'') = Some variant" "entry_inputs (w 0) variant = Inr v" "map_of declared (str ''artifact'') = Some (PStr name)"
      "artifact = join_path (parent_path (cr_snapshot_path (ho_run (w 0)))) name" "frozen_of v = Inr fz" "automatic = fz_automatic fz"
    using req by (auto simp: requested_def dict_field_def text_at_def res_simps)
  obtain result a d1 where b: "build (w 1) (w 2) (encoded v) d = (Inr result, d1)" "signed_args (w 3) artifact = Inr a"
      "entry_package w (encoded v) automatic a d1 = (Inr report, d')"
    using run by (auto simp: act_simps)
  have "package (w 3) (w 4) (encoded v) a d1 = (Inr report, d')" "automatic \<or> pa_manifest a \<noteq> None"
    using b(3) by (auto simp: entry_package_def act_simps split: if_splits)
  moreover have "\<not> pa_manifest_only a" "pa_artifact a = artifact"
    using b(2) by (auto simp: signed_args_def res_simps)
  moreover have "n' = File (encoded v)" "n = Absent \<or> n = n'"
    using once by (auto simp: write_once_def split: node.splits if_splits)
  ultimately show ?thesis
    using r b(1) by (intro exI conjI) (assumption | simp)+
qed

end
