(* ===== verification/Plain_Text.thy ===== *)
theory Plain_Text
  imports Build_Identity Capacity_Lines "HOL-Library.Multiset"
begin

text \<open>
  Texts whose code points all have an encoding, which the concrete runs of the tools write as JSON: the texts of the
  program, decimal numbers and digests are plain, and JSON values of plain texts are written as plain texts.  The length of a JSON text is bounded by the lengths of the
  texts in the value.
\<close>

definition plain_char :: "nat \<Rightarrow> bool" where
  "plain_char c \<longleftrightarrow> c < 0xd800 \<or> 0xe000 \<le> c \<and> c < 0x10000"

definition plain_text :: "pystr \<Rightarrow> bool" where
  "plain_text s \<longleftrightarrow> list_all plain_char s"

lemma plain_numeral [simp]: "plain_char (numeral n) \<longleftrightarrow> (numeral n :: nat) < 0xd800 \<or> (0xe000 :: nat) \<le> numeral n \<and> (numeral n :: nat) < 0x10000"
  by (simp add: plain_char_def)

lemma plain_small: "c < 0xd800 \<Longrightarrow> plain_char c"
  by (simp add: plain_char_def)

lemma plain_append [simp]: "plain_text (a @ b) \<longleftrightarrow> plain_text a \<and> plain_text b"
  by (simp add: plain_text_def)

lemma plain_Nil [simp]: "plain_text []"
  by (simp add: plain_text_def)

lemma plain_Cons [simp]: "plain_text (c # s) \<longleftrightarrow> plain_char c \<and> plain_text s"
  by (simp add: plain_text_def)

lemma plain_str [simp]: "plain_text (str s)"
proof -
  have "(of_char c :: nat) < 0xd800" for c :: char
  proof -
    have "(of_char c :: nat) < 256" by simp
    then show ?thesis by linarith
  qed
  then show ?thesis
    by (simp add: plain_text_def str_def list_all_iff plain_small)
qed

lemma plain_concat: "plain_text (concat xs) \<longleftrightarrow> list_all plain_text xs"
  by (induction xs) simp_all

lemma plain_encoded: "plain_text s \<Longrightarrow> \<exists>bs. utf8_encode s = Some bs \<and> length bs \<le> 3 * length s"
proof (induction s)
  case Nil
  show ?case by simp
next
  case (Cons c s)
  then obtain bs where "utf8_encode s = Some bs" "length bs \<le> 3 * length s" by auto
  moreover have "\<exists>b. utf8_encode1 c = Some b \<and> length b \<le> 3"
    using Cons.prems by (auto simp: utf8_encode1_def plain_char_def)
  ultimately show ?case by auto
qed

lemma hex_digit_plain: "k < 16 \<Longrightarrow> hex_digit k < 128"
  by (simp add: hex_digit_def)

lemma raw_char_plain: "plain_char c \<Longrightarrow> plain_text (raw_char c) \<and> length (raw_char c) \<le> 6"
  by (auto simp: raw_char_def json_char_def hex4_def plain_char_def intro!: order_less_trans [OF hex_digit_plain])

lemma plain_decimal [simp]: "plain_text (decimal n)"
proof (induction n rule: decimal.induct)
  case (1 n)
  show ?case
  proof (cases "n < 10")
    case True
    then show ?thesis by (subst decimal.simps) (simp add: plain_small)
  next
    case False
    have "plain_char (48 + n mod 10)"
      using mod_less_divisor [of 10 n] by (intro plain_small) linarith
    with False 1 show ?thesis by (subst decimal.simps) simp
  qed
qed

fun plain_val :: "pyval \<Rightarrow> bool"
  and plain_items :: "pyval list \<Rightarrow> bool"
  and plain_pairs :: "(pystr \<times> pyval) list \<Rightarrow> bool" where
  "plain_val (PStr s) \<longleftrightarrow> plain_text s"
| "plain_val (PList vs) \<longleftrightarrow> plain_items vs"
| "plain_val (PDict d) \<longleftrightarrow> plain_pairs d"
| "plain_val v \<longleftrightarrow> True"
| "plain_items [] \<longleftrightarrow> True"
| "plain_items (v # vs) \<longleftrightarrow> plain_val v \<and> plain_items vs"
| "plain_pairs [] \<longleftrightarrow> True"
| "plain_pairs ((k, v) # d) \<longleftrightarrow> plain_text k \<and> plain_val v \<and> plain_pairs d"

lemma plain_pairs_all: "plain_pairs d \<longleftrightarrow> list_all (\<lambda>(k, v). plain_text k \<and> plain_val v) d"
  by (induction d) auto

lemma sorted_plain:
  "plain_val (sorted_keys v) = plain_val v" "plain_items (sorted_items vs) = plain_items vs" "plain_pairs (sorted_pairs d) = plain_pairs d"
proof (induction v and vs and d rule: sorted_keys_sorted_items_sorted_pairs.induct)
  case (2 d)
  then show ?case by (simp add: plain_pairs_all list_all_iff)
qed simp_all

lemma digest_hex64: "lower_hex_text 64 (digest raw)"
  by (simp add: lower_hex_text_def digest_def sha256.hexdigest_lower)

lemma plain_digest: "plain_text (digest raw)"
proof -
  have "list_all is_lower_hex (digest raw)"
    using digest_hex64 by (simp add: lower_hex_text_def)
  moreover have "is_lower_hex c \<Longrightarrow> plain_char c" for c
    by (rule plain_small) (auto simp: is_lower_hex_def is_digit_def)
  ultimately show ?thesis
    by (auto simp: plain_text_def list_all_iff)
qed

lemma plain_comma_join: "list_all plain_text ps \<Longrightarrow> plain_text (comma_join ps)"
  by (cases ps) (simp_all add: comma_join_def plain_concat list_all_iff)

lemma plain_raw: "plain_text s \<Longrightarrow> plain_text (concat (map raw_char s))"
  by (induction s) (use raw_char_plain in \<open>auto\<close>)

lemma plain_json_raw:
  "plain_val v \<Longrightarrow> plain_text (json_dumps_raw v)"
  "plain_items vs \<Longrightarrow> list_all plain_text (raw_items vs)"
  "plain_pairs d \<Longrightarrow> list_all plain_text (raw_pairs d)"
  by (induction v and vs and d rule: json_dumps_raw_raw_items_raw_pairs.induct)
    (simp_all add: plain_raw plain_comma_join)

subsection \<open>The length of a JSON text\<close>

lemma sum_list_sort_key: "sum_list (map f (sort_key g xs)) = (sum_list (map f xs) :: nat)"
  using sum_mset_sum_list [of "map f (sort_key g xs)"] sum_mset_sum_list [of "map f xs"] by simp

fun dump_size :: "pyval \<Rightarrow> nat"
  and dump_items :: "pyval list \<Rightarrow> nat"
  and dump_pairs :: "(pystr \<times> pyval) list \<Rightarrow> nat" where
  "dump_size (PStr s) = 12 * length s + 2"
| "dump_size (PList vs) = 2 + dump_items vs"
| "dump_size (PDict d) = 2 + dump_pairs d"
| "dump_size (PFloat s) = length s"
| "dump_size v = 20"
| "dump_items [] = 0"
| "dump_items (v # vs) = 1 + dump_size v + dump_items vs"
| "dump_pairs [] = 0"
| "dump_pairs ((k, v) # d) = 12 * length k + 4 + dump_size v + dump_pairs d"

fun small_val :: "pyval \<Rightarrow> bool"
  and small_items :: "pyval list \<Rightarrow> bool"
  and small_pairs :: "(pystr \<times> pyval) list \<Rightarrow> bool" where
  "small_val (PInt n) \<longleftrightarrow> 0 \<le> n \<and> n < 10 ^ 18"
| "small_val (PList vs) \<longleftrightarrow> small_items vs"
| "small_val (PDict d) \<longleftrightarrow> small_pairs d"
| "small_val v \<longleftrightarrow> True"
| "small_items [] \<longleftrightarrow> True"
| "small_items (v # vs) \<longleftrightarrow> small_val v \<and> small_items vs"
| "small_pairs [] \<longleftrightarrow> True"
| "small_pairs ((k, v) # d) \<longleftrightarrow> small_val v \<and> small_pairs d"

lemma json_str_size: "length (json_str s) \<le> 12 * length s + 2"
proof -
  have "length (json_char c) \<le> 12" for c
    by (simp add: json_char_def hex4_def)
  then have "length (concat (map json_char s)) \<le> 12 * length s"
    by (induction s) (simp_all add: add_mono)
  then show ?thesis by (simp add: json_str_def)
qed

lemma comma_join_size: "length (comma_join ps) \<le> sum_list (map (\<lambda>p. Suc (length p)) ps)"
  by (cases ps) (simp_all add: comma_join_def length_concat comp_def)

lemma dump_size_bound:
  "small_val v \<Longrightarrow> length (json_dumps v) \<le> dump_size v"
  "small_items vs \<Longrightarrow> sum_list (map (\<lambda>p. Suc (length p)) (json_items vs)) \<le> dump_items vs"
  "small_pairs d \<Longrightarrow> sum_list (map (\<lambda>p. Suc (length p)) (json_pairs d)) \<le> dump_pairs d"
proof (induction v and vs and d rule: json_dumps_json_items_json_pairs.induct)
  case (3 n)
  then have "length (decimal (nat n)) \<le> 18"
    by (intro decimal_length) (simp_all add: nat_less_iff)
  with 3 show ?case by simp
next
  case (5 s)
  then show ?case using json_str_size by simp
next
  case (6 vs)
  then show ?case using comma_join_size [of "json_items vs"] by simp
next
  case (7 d)
  then show ?case using comma_join_size [of "json_pairs d"] by simp
next
  case (11 k v d)
  then show ?case using json_str_size [of k] by simp
qed simp_all

lemma dump_pairs_sum: "dump_pairs d = sum_list (map (\<lambda>(k, v). 12 * length k + 4 + dump_size v) d)"
  by (induction d) auto

lemma small_pairs_all: "small_pairs d \<longleftrightarrow> list_all (\<lambda>(k, v). small_val v) d"
  by (induction d) auto

lemma sorted_size:
  "dump_size (sorted_keys v) = dump_size v \<and> small_val (sorted_keys v) = small_val v"
  "dump_items (sorted_items vs) = dump_items vs \<and> small_items (sorted_items vs) = small_items vs"
  "dump_pairs (sorted_pairs d) = dump_pairs d \<and> small_pairs (sorted_pairs d) = small_pairs d"
proof (induction v and vs and d rule: sorted_keys_sorted_items_sorted_pairs.induct)
  case (2 d)
  have "dump_pairs (sort_key fst (sorted_pairs d)) = dump_pairs (sorted_pairs d)"
    by (simp only: dump_pairs_sum sum_list_sort_key)
  moreover have "small_pairs (sort_key fst (sorted_pairs d)) = small_pairs (sorted_pairs d)"
    by (simp add: small_pairs_all list_all_iff)
  ultimately show ?case using 2 by simp
qed simp_all

lemma encoded_size: "small_val v \<Longrightarrow> length (encoded v) \<le> dump_size v + 1"
  using dump_size_bound(1) [of "sorted_keys v"] sorted_size(1) [of v] by (simp add: encoded_def)

end
