(* ===== verification/Package_Build_Run.thy ===== *)
theory Package_Build_Run
  imports Package_Run Package_Entry Capacity_Frame Plain_Text
begin

text \<open>
  One run of the package entry from end to end: a finished ESP32 build with automatic signing is collected, checked again and packaged.
  It is the witness of the properties of \<open>Package_Build\<close> and \<open>Package_Entry\<close>.  The image, the identity and the archive the
  Core returns are those of \<open>Package_Run\<close>, the checkout that of \<open>Sdk_Check\<close>; digests stay symbolic.
\<close>
subsection \<open>The configuration\<close>

definition built_config :: "(string \<times> string) list" where
  "built_config = map (\<lambda>key. (key, ''y'')) (REQUIRED_CONFIG @ [''CONFIG_SECURE_SIGNED_APPS_ECDSA_SCHEME'',
       ''CONFIG_SECURE_SIGNED_ON_BOOT_NO_SECURE_BOOT'', ''CONFIG_SECURE_BOOT_BUILD_SIGNED_BINARIES'']) @
     [(''CONFIG_IDF_TARGET'', ''\"esp32\"''), (''CONFIG_PARTITION_TABLE_CUSTOM_FILENAME'', ''\"partitions/esp32-partition-table.csv\"''),
      (''CONFIG_PARTITION_TABLE_OFFSET'', ''0x8000''), (''CONFIG_PARTITION_TABLE_MD5'', ''n''), (''CONFIG_SECURE_BOOT_SIGNING_KEY'', ''\"/k\"'')]"

definition config_content :: "(string \<times> string) list \<Rightarrow> pystr" where
  "config_content config = concat (map (\<lambda>(k, v). str k @ [61] @ str v @ [10]) config)"

definition built_sdkconfig :: bytes where
  "built_sdkconfig = map word_of_nat (config_content built_config)"

definition config_pairs :: "(string \<times> string) list \<Rightarrow> (pystr \<times> pystr) list" where
  "config_pairs = map (\<lambda>(k, v). (str k, str v))"

lemma split_line: "\<forall>c \<in> set xs. \<not> is_line_break c \<Longrightarrow> split_lines line (xs @ 10 # ys) = (line @ xs) # split_lines [] ys"
  by (induction xs arbitrary: line) (simp_all add: is_line_break_def)

lemma break_range: "is_line_break c \<Longrightarrow> c < 32 \<or> 127 \<le> c"
  by (auto simp: is_line_break_def)

definition config_entry_ok :: "string \<times> string \<Rightarrow> bool" where
  "config_entry_ok = (\<lambda>(k, v). config_key_text (str k) \<and> list_all (\<lambda>c. 32 \<le> c \<and> c < 127) (str k @ str v))"

lemma split_config:
  "list_all config_entry_ok config \<Longrightarrow> split_lines [] (config_content config) = map (\<lambda>(k, v). str k @ [61] @ str v) config"
proof (induction config)
  case Nil
  show ?case by (simp add: config_content_def)
next
  case (Cons e config)
  obtain k v where e: "e = (k, v)" by (cases e)
  have "\<forall>c \<in> set (str k @ [61] @ str v). 32 \<le> c \<and> c < 127"
    using Cons.prems by (auto simp: e config_entry_ok_def list_all_iff)
  then have "\<forall>c \<in> set (str k @ [61] @ str v). \<not> is_line_break c"
    using break_range by fastforce
  with Cons show ?case
    using split_line [of "str k @ [61] @ str v" "[]" "config_content config"] by (simp add: e config_content_def)
qed

lemma config_match_pair:
  assumes "config_key_text (str k)"
  shows "config_match (str k @ [61] @ str v) = Some (str k, str v)"
proof -
  have "\<forall>c \<in> set (str k). c \<noteq> 61"
    using assms by (auto simp: config_key_text_def list_all_iff is_digit_def)
  then have "takeWhile (\<lambda>c. c \<noteq> 61) (str k @ [61] @ str v) = str k" "dropWhile (\<lambda>c. c \<noteq> 61) (str k @ [61] @ str v) = 61 # str v"
    by (simp_all add: takeWhile_append2 dropWhile_append2)
  with assms show ?thesis
    by (simp add: config_match_def)
qed

lemma config_lines:
  assumes "list_all config_entry_ok config" "distinct (map fst acc @ map fst config)"
  shows "for_each config_line (config_pairs acc) (map (\<lambda>(k, v). str k @ [61] @ str v) config) = Inr (config_pairs (acc @ config))"
  using assms
proof (induction config arbitrary: acc)
  case Nil
  show ?case by simp
next
  case (Cons e config)
  obtain k v where e: "e = (k, v)" by (cases e)
  have fresh: "str k \<notin> fst ` set (config_pairs acc)"
    using Cons.prems(2) by (force simp: e config_pairs_def str_inj_iff)
  have key: "config_key_text (str k)"
    using Cons.prems(1) by (simp add: e config_entry_ok_def)
  have "config_line (config_pairs acc) (str k @ [61] @ str v) = Inr (config_pairs (acc @ [e]))"
    using fresh by (simp add: config_line_def config_match_pair [OF key, simplified] map_of_eq_None_iff update_new_key)
      (simp add: e config_pairs_def)
  moreover have "for_each config_line (config_pairs (acc @ [e])) (map (\<lambda>(k, v). str k @ [61] @ str v) config) = Inr (config_pairs ((acc @ [e]) @ config))"
    using Cons.prems by (intro Cons.IH) auto
  ultimately show ?case by (simp add: e)
qed

lemma built_config_ok: "list_all config_entry_ok built_config" "distinct (map fst built_config)"
proof -
  show "list_all config_entry_ok built_config"
    by (simp add: built_config_def REQUIRED_CONFIG_def config_entry_ok_def config_key_text_def str_def is_digit_def)
  show "distinct (map fst built_config)"
    by (simp add: built_config_def REQUIRED_CONFIG_def)
qed

lemma config_ascii: "list_all config_entry_ok config \<Longrightarrow> \<forall>c \<in> set (config_content config). c < 128"
proof (induction config)
  case Nil
  show ?case by (simp add: config_content_def)
next
  case (Cons e config)
  obtain k v where e: "e = (k, v)" by (cases e)
  have "\<forall>c \<in> set (str k @ str v). 32 \<le> c \<and> c < 127"
    using Cons.prems by (simp add: e config_entry_ok_def list_all_iff)
  then have "\<forall>c \<in> set (str k @ str v). c < 128"
    by (intro ballI) (drule (1) bspec, simp)
  with Cons show ?case
    by (auto simp: e config_content_def)
qed

lemma built_config_values: "config_values built_sdkconfig = Inr (config_pairs built_config)"
proof -
  have "\<forall>c \<in> set (config_content built_config). c < 128"
    by (rule config_ascii [OF built_config_ok(1)])
  then have "map unat built_sdkconfig = config_content built_config" and small: "list_all (\<lambda>b. unat b < 128) built_sdkconfig"
    by (auto simp: built_sdkconfig_def list_all_iff unat_byte_of_nat intro!: map_idI)
  then have "utf8_decode built_sdkconfig = Some (config_content built_config)"
    using utf8_encode_ascii [OF small] utf8_decode_encode by metis
  then show ?thesis
    using config_lines [of built_config "[]"] built_config_ok split_config [OF built_config_ok(1)]
    by (simp add: config_values_def config_pairs_def)
qed

lemma config_content_size: "length (config_content built_config) \<le> 1000"
  by (simp add: config_content_def built_config_def REQUIRED_CONFIG_def)

lemma built_contract: "config_contract (config_pairs built_config) Esp32 = Inr ()"
proof -
  have quoted: "json_str (str ''esp32'') = str ''\"esp32\"''"
    "json_str (str ''partitions/esp32-partition-table.csv'') = str ''\"partitions/esp32-partition-table.csv\"''"
    by (simp_all add: json_str_def json_char_def str_def)
  show ?thesis
    by (simp add: config_contract_def cfg_def config_pairs_def built_config_def REQUIRED_CONFIG_def str_inj_iff target_name_def quoted)
qed

subsection \<open>The directory\<close>

definition release_unsigned :: bytes where
  "release_unsigned = ([0xe9, 1] @ zeros 26 @ [0x40, 2, 0, 0]) @ release_segment @ zeros 15 @ [foldl (XOR) 0xef release_segment]"

definition small_bootloader :: bytes where
  "small_bootloader = [0xe9, 1] @ zeros 45 @ [0xef]"

definition small_elf :: bytes where
  "small_elf = [0x7f, 0x45, 0x4c, 0x46, 1, 1] @ zeros 12 @ [94, 0]"

definition finished_dir :: dir where
  "finished_dir = [(BUILD_RECEIPT, File [11]), (''sdkconfig'', File built_sdkconfig), (''esp_base-unsigned.bin'', File release_unsigned),
     (''esp_base.bin'', File release_image), (''esp_base.elf'', File small_elf), (''bootloader/bootloader.bin'', File small_bootloader),
     (''bootloader/bootloader.elf'', File []), (''partition_table/partition-table.bin'', File ([9] @ zeros 68)),
     (''ota_data_initial.bin'', File (erased 8192))]"

definition built_record :: built_dir where
  "built_record = \<lparr>bd_sdkconfig = built_sdkconfig, bd_unsigned = release_unsigned, bd_elf = small_elf, bd_boot_elf = [],
     bd_bootloader = small_bootloader, bd_table = [9] @ zeros 68, bd_otadata = erased 8192\<rparr>"

definition small_partition :: "string \<Rightarrow> nat \<Rightarrow> partition" where
  "small_partition name offset = \<lparr>p_name = str name, p_type = 0, p_subtype = 16, p_offset = offset, p_size = SLOT_BYTES, p_encrypted = False, p_readonly = False\<rparr>"

definition key_elf :: elf_file where
  "key_elf = \<lparr>el_symbols = Some (\<lambda>name. Some [\<lparr>sy_section = Some 0, sy_value = (if name = KEY_SYMBOL @ ''end'' then 64 else 0)\<rparr>]),
     el_section = (\<lambda>_. (0, run_key))\<rparr>"

definition small_tools :: build_tools where
  "small_tools = \<lparr>bt_parse = (\<lambda>_. Some [small_partition ''ota_0'' 0x20000, small_partition ''ota_1'' 0x200000]),
     bt_generate = (\<lambda>_ _. Some [9]), bt_elf = (\<lambda>_. Inr key_elf), bt_verify = (\<lambda>_ _ _. True)\<rparr>"

definition built_native :: pyval where
  "built_native = PDict [(str ''files'', PDict [(str ''esp_base.elf'', fact small_elf), (str ''bootloader/bootloader.bin'', fact small_bootloader),
        (str ''partition_table/partition-table.bin'', fact ([9] @ zeros 68)), (str ''ota_data_initial.bin'', fact (erased 8192))]),
     (str ''unsigned'', fact release_unsigned), (str ''components'', PDict [])]"

abbreviation built_identity :: pyval where
  "built_identity \<equiv> PDict (identity_dict run_identity)"

lemma unsigned_parts:
  "length release_unsigned = 624" "release_image = release_unsigned @ zeros 68"
  "release_unsigned ! 0 = 0xe9" "release_unsigned ! 1 = 1" "release_unsigned ! 23 = 0" "release_unsigned ! 623 = foldl (XOR) 0xef release_segment"
  "from_le (pslice release_unsigned 12 14) = 0" "u32 release_unsigned 28 = 576" "pslice release_unsigned 32 608 = release_segment"
  "u32 release_unsigned 32 = 0xabcd5432" "pslice release_unsigned 48 80 = field_bytes ''1.2.0'' 32"
  "pslice release_unsigned 80 112 = field_bytes ''esp_base'' 32" "pslice release_unsigned 288 608 = release_descriptor"
proof -
  show len: "length release_unsigned = 624"
    by (simp add: release_unsigned_def release_lengths)
  show img: "release_image = release_unsigned @ zeros 68"
    by (simp add: release_image_def release_unsigned_def)
  have part: "pslice release_image a b = pslice release_unsigned a b" if "b \<le> 624" for a b
    using that by (simp add: img pslice_append_left len)
  have byte: "release_image ! i = release_unsigned ! i" if "i < 624" for i
    using that by (simp add: img nth_append len)
  show "release_unsigned ! 0 = 0xe9" "release_unsigned ! 1 = 1" "release_unsigned ! 23 = 0" "release_unsigned ! 623 = foldl (XOR) 0xef release_segment"
    using release_parts byte [of 0] byte [of 1] byte [of 23] byte [of 623] by simp_all
  show "from_le (pslice release_unsigned 12 14) = 0" "u32 release_unsigned 28 = 576" "pslice release_unsigned 32 608 = release_segment"
    "u32 release_unsigned 32 = 0xabcd5432" "pslice release_unsigned 48 80 = field_bytes ''1.2.0'' 32"
    "pslice release_unsigned 80 112 = field_bytes ''esp_base'' 32" "pslice release_unsigned 288 608 = release_descriptor"
    using release_parts by (simp_all add: u32_def part)
qed

lemma unsigned_inspected: "inspect_image release_unsigned built_identity Esp32 = Inr built_identity"
proof -
  have "walk_segments release_unsigned 1 24 = Inr ()"
    using unsigned_parts by (simp add: eval_nat_numeral(3) [of num.One])
  moreover have "native_version (identity_dict run_identity) = Inr (field_bytes ''1.2.0'' 32)"
    using sample_fields(1) by (simp add: native_version_def py_getitem_def identity_dict_def run_identity_def str_inj_iff)
  ultimately show ?thesis
    using unsigned_parts release_descriptor_of sample_fields(3)
    by (simp add: inspect_image_def DESCRIPTOR_SIZE_def chip_id_def descriptor_bytes_def)
qed

lemma unsigned_image: "signed_image release_unsigned Esp32 True False = Inr release_unsigned"
proof -
  have segments: "image_segments release_unsigned 1 24 0xef = Inr (608, foldl (XOR) 0xef release_segment)"
    using unsigned_parts by (simp add: eval_nat_numeral(3) [of num.One])
  have "takeWhile (\<lambda>b. b \<noteq> 0) (field_bytes ''esp_base'' 32) = ascii ''esp_base''"
    by code_simp
  then show ?thesis
    using segments unsigned_parts
    by (simp add: signed_image_def image_body_end_def image_header_ok_def chip_id_def app_descriptor_ok_def)
qed

lemma bootloader_image: "signed_image small_bootloader Esp32 False True = Inr small_bootloader" "length small_bootloader = 48"
  by code_simp+

lemma elf_facts: "take 6 small_elf = [0x7f, 0x45, 0x4c, 0x46, 1, 1]" "from_le (pslice small_elf 18 20) = 94"
  by code_simp+

lemma elf_key: "embedded_public_key key_elf = Inr run_key"
  by (simp add: embedded_public_key_def key_elf_def KEY_SYMBOL_def run_key_def pslice_def)

lemma table_slots: "bindE (parse_table (bt_parse small_tools) raw) (\<lambda>entries. Inr (app_slots entries)) = Inr [(0x20000, SLOT_BYTES), (0x200000, SLOT_BYTES)]"
  by (simp add: parse_table_def small_tools_def small_partition_def app_slots_def partition_fields_def str_inj_iff sort_key_def)

subsection \<open>The world\<close>

definition built_values :: pystr where
  "built_values = digest (encoded (config_dict (config_pairs built_config)))"

definition built_tool :: pyval where
  "built_tool = PDict ((str ''path'', PStr (str ''/t'')) # fact_items [5] @ [(str ''version'', PStr (str ''v1''))])"

definition built_inputs :: "(pystr \<times> pyval) list" where
  "built_inputs = [(str ''schema_version'', PInt 1), (str ''target'', PStr (str ''esp32'')), (str ''source_commit_sha'', PStr (replicate 40 97)),
     (str ''sdk_root'', PStr (str ''/sdk'')), (str ''sdk_lock'', fact [12]), (str ''dependency_lock'', fact [12]), (str ''components'', PDict []),
     (str ''sdkconfig'', PDict ((str ''path'', PStr (str ''/config'')) # fact_items built_sdkconfig @ [(str ''values_sha256'', PStr built_values)])),
     (str ''verification_key'', PDict ((str ''path'', PStr (str ''/key'')) # fact_items run_key)),
     (str ''automatic_signing'', PBool True), (str ''signing_trust'', PStr (str ''release'')),
     (str ''tools'', PDict [(str ''cmake'', built_tool), (str ''ninja'', built_tool), (str ''xtensa-esp-elf-gcc'', built_tool),
        (str ''python'', PDict [(str ''path'', PStr (str ''/p'')), (str ''version'', PStr (str ''3'')), (str ''packages'', PDict [])])])]"

definition portable_tool :: pyval where
  "portable_tool = PDict (fact_items [5] @ [(str ''version'', PStr (str ''v1''))])"

definition built_portable :: "(pystr \<times> pyval) list" where
  "built_portable = [(str ''schema_version'', PInt 1), (str ''target'', PStr (str ''esp32'')), (str ''source_commit_sha'', PStr (replicate 40 97)),
     (str ''sdk_lock'', fact [12]), (str ''dependency_lock'', fact [12]), (str ''components'', PDict []),
     (str ''sdkconfig'', PDict (fact_items built_sdkconfig @ [(str ''values_sha256'', PStr built_values)])),
     (str ''verification_key'', PDict (fact_items run_key)),
     (str ''automatic_signing'', PBool True), (str ''signing_trust'', PStr (str ''release'')),
     (str ''tools'', PDict [(str ''cmake'', portable_tool), (str ''ninja'', portable_tool), (str ''xtensa-esp-elf-gcc'', portable_tool),
        (str ''python'', PDict [(str ''version'', PStr (str ''3'')), (str ''packages'', PDict [])])])]"

definition run_command :: "(pystr \<times> pyval) list" where
  "run_command = [(str ''argv'', input_command Esp32), (str ''executable'', PStr (str ''/p'')), (str ''executable_sha256'', PStr (digest [8])),
     (str ''stdout'', PStr (map unat (encoded (PDict built_portable))))]"

definition run_snapshot :: pyval where
  "run_snapshot = PDict [(str ''schema_version'', PInt 1), (str ''kind'', PStr (str ''standalone-package-inputs'')), (str ''commands'', PList [PDict run_command])]"

definition snapshot_raw :: bytes where
  "snapshot_raw = (case core_encoded run_snapshot of Inr raw \<Rightarrow> raw | _ \<Rightarrow> [])"

definition run_context :: pyval where
  "run_context = PDict [(str ''profile_snapshot_id'', PStr (digest snapshot_raw)), (str ''job_manifest_sha256'', PStr (digest [6]))]"

definition run_request :: pyval where
  "run_request = PDict [(str ''schema_version'', PInt 1), (str ''kind'', PStr (str ''standalone-package-run'')), (str ''context'', run_context),
     (str ''manifest'', expected_manifest Esp32)]"

definition built_core :: core_run where
  "built_core = \<lparr>cr_snapshot_path = str ''/r/s'', cr_request = Inr run_request,
     cr_original = Inr (PDict [(str ''context'', run_context), (str ''version_snapshot'', PDict [])]), cr_manifest = [6],
     cr_inputs = Inr run_snapshot, cr_inputs_raw = [7], cr_profile = Some (digest snapshot_raw), cr_interpreter = str ''/p'', cr_interpreter_raw = [8]\<rparr>"

definition built_loads :: "bytes \<Rightarrow> pyval res" where
  "built_loads raw = (if raw = [6] then Inr (expected_manifest Esp32)
     else if raw = [11] then Inr (build_result (PDict built_inputs) built_identity built_native)
     else if raw = encoded (PDict built_inputs) then Inr (PDict built_inputs) else run_loads raw)"

definition built_env :: package_env where
  "built_env = run_env\<lparr>pe_loads := built_loads\<rparr>"

definition built_variables :: "string \<Rightarrow> pystr option" where
  "built_variables = map_of [(''IDF_PATH'', str ''/sdk''), (''FAST_DEPLOY_PACKAGE_CORE_ROOT'', str ''/c''),
     (''FAST_DEPLOY_CLIENT_VERSION_SNAPSHOT_FILE'', str ''/r/s''), (''ESP_BASE_SIGNING_TRUST'', str ''release''),
     (''ESP_BASE_SDKCONFIG'', str ''/config''), (''ESP_BASE_VERIFICATION_KEY'', str ''/key'')]"

definition built_host :: host where
  "built_host = \<lparr>ho_env = built_variables, ho_sdk = small_sdk, ho_checkout = managed_tree, ho_sdk_lock = small_lock,
     ho_read = (\<lambda>path. if path = str ''/config'' then Inr built_sdkconfig else if path = str ''/key'' then Inr run_key else Inl (Raise OSError ''open'')),
     ho_absolute = (\<lambda>path. path), ho_own = (\<lambda>_. Inr [12]), ho_commit = Inr (replicate 40 97), ho_sources = \<lparr>so_status = Inr [], so_members = (\<lambda>_. []), so_tracked = (\<lambda>_. True)\<rparr>,
     ho_key_at = (\<lambda>_. \<lparr>kf_link = False, kf_file = True, kf_inside = False, kf_content = []\<rparr>), ho_text_loads = (\<lambda>_. Inr (PStr (str ''/k''))),
     ho_extract = (\<lambda>_ _. Inr run_key), ho_which = (\<lambda>_. Some (str ''/t'', Inr [5], Inr (str ''v1''))), ho_python = (str ''/p'', str ''3'', []),
     ho_components = (\<lambda>_. \<lparr>ct_lock = Inr (PDict [(str ''dependencies'', PDict [(str ''idf'', PNone)])]), ct_hash_ok = (\<lambda>_ _. Inr ()), ct_members = (\<lambda>_. [])\<rparr>),
     ho_run = built_core, ho_package = built_env, ho_tools = small_tools, ho_release = Inr (PDict [(str ''version'', PStr (str ''1.2.0''))]),
     ho_core = (\<lambda>_ _. Inr built_identity), ho_root = str ''/e'', ho_executable = str ''/p'', ho_directory = str ''/r/firmware-build'', ho_dir_link = False,
     ho_dir_inside = False, ho_link_exists = (\<lambda>_. True), ho_run_program = (\<lambda>_ _ d. (Inr (), d)), ho_sign = (\<lambda>_ _ manifest. Inr (manifest @ zeros 68)),
     ho_member = (\<lambda>_. None), ho_node = (\<lambda>_. Absent), ho_package_directory = (\<lambda>_ _ _. (Inr (PDict []), File [90])), ho_zip = (\<lambda>_. Inr run_items)\<rparr>"

lemma built_public: "public_key (pe_crypto built_env) run_key Esp32 = Inr run_key"
proof -
  have "contains (ascii ''PRIVATE KEY'') (replicate n 1) = False" for n
    by (induction n) (auto simp: ascii_def)
  then show ?thesis
    by (simp add: public_key_def run_key_def built_env_def run_env_def)
qed

lemma built_checked:
  "check_config (ho_text_loads built_host) (ho_key_at built_host) (ho_extract built_host) (pe_crypto built_env) (config_pairs built_config) Esp32 run_key = Inr True"
proof -
  have "cfg (config_pairs built_config) ''CONFIG_SECURE_BOOT_BUILD_SIGNED_BINARIES'' = Some (str ''y'')"
    "\<exists>quoted. cfg (config_pairs built_config) ''CONFIG_SECURE_BOOT_SIGNING_KEY'' = Some quoted"
    by (simp_all add: cfg_def config_pairs_def built_config_def REQUIRED_CONFIG_def str_inj_iff)
  moreover have "is_absolute (str ''/k'')"
    by (simp add: is_absolute_def str_def)
  ultimately show ?thesis
    using built_contract built_public by (auto simp: check_config_def built_host_def Let_def)
qed

lemma built_tools_fact:
  "tools_fact built_host Esp32 = Inr (PDict [(str ''cmake'', built_tool), (str ''ninja'', built_tool), (str ''xtensa-esp-elf-gcc'', built_tool),
     (str ''python'', PDict [(str ''path'', PStr (str ''/p'')), (str ''version'', PStr (str ''3'')), (str ''packages'', PDict [])])])"
proof -
  have "split_lines [] (str ''v1'') = [str ''v1'']"
    by (simp add: str_def is_line_break_def)
  then have "tool_fact built_host name = Inr built_tool" for name
    by (simp add: tool_fact_def built_host_def built_tool_def)
  moreover have "ho_python built_host = (str ''/p'', str ''3'', [])"
    by (simp add: built_host_def)
  ultimately show ?thesis
    by (simp add: tools_fact_def compiler_def)
qed

lemma built_components: "component_facts (ho_components built_host t) = Inr (PDict [])"
  by (simp add: component_facts_def built_host_def dict_field_def py_getitem_def)

lemma built_current: "current_inputs built_host Esp32 (str ''/config'') (str ''/key'') (PStr (str ''release'')) = Inr (PDict built_inputs)"
proof -
  have absolute: "is_absolute (env_text (ho_env built_host) ''IDF_PATH'')"
    by (simp add: built_host_def built_variables_def env_text_def is_absolute_def str_def)
  have reads: "ho_read built_host (str ''/config'') = Inr built_sdkconfig" "ho_read built_host (str ''/key'') = Inr run_key"
    by (simp_all add: built_host_def str_inj_iff)
  have parts: "ho_sdk built_host = small_sdk" "ho_checkout built_host = managed_tree" "ho_sdk_lock built_host = small_lock"
    "se_root small_sdk = Inr (str ''/sdk'')" "ho_absolute built_host path = path" "ho_own built_host name = Inr [12]"
    "ho_commit built_host = Inr (replicate 40 97)" "validate_source_inputs (ho_sources built_host) = Inr ()" "ho_package built_host = built_env" for path name
    by (simp_all add: built_host_def small_sdk_def validate_source_inputs_def SOURCE_DIRECTORIES_def)
  show ?thesis
    using absolute
    by (simp add: current_inputs_def parts reads small_checks built_public built_config_values built_checked built_components built_tools_fact
        built_inputs_def built_values_def target_name_def)
qed

subsection \<open>The run of the Core and the validation\<close>

lemma built_portable: "portable_input (PDict built_inputs) = Inr (PDict built_portable)"
  by (simp add: portable_input_def built_inputs_def built_portable_def without_def dict_field_def py_getitem_def str_inj_iff
      built_tool_def portable_tool_def fact_items_def)

lemma encoded_not_single: "encoded v \<noteq> [b]" if "b \<noteq> 10" for v
  using that by (simp add: encoded_def append_eq_Cons_conv)

lemma sorted_floats:
  "floats_printable v \<Longrightarrow> floats_printable (sorted_keys v)"
  "list_all floats_printable vs \<Longrightarrow> list_all floats_printable (sorted_items vs)"
  "list_all (\<lambda>(k, v). floats_printable v) d \<Longrightarrow> list_all (\<lambda>(k, v). floats_printable v) (sorted_pairs d)"
  by (induction v and vs and d rule: sorted_keys_sorted_items_sorted_pairs.induct) (simp_all add: list_all_iff)

lemma encoded_ascii: "floats_printable v \<Longrightarrow> list_all (\<lambda>c. c < 128) (map unat (encoded v))"
proof -
  assume "floats_printable v"
  then have "floats_printable (sorted_keys v)"
    by (rule sorted_floats)
  then have "printable (json_dumps (sorted_keys v))"
    by (rule json_dumps_printable)
  then show ?thesis
    by (auto simp: encoded_def list_all_iff unat_byte_of_nat)
qed

lemma snapshot_encoded: "core_encoded run_snapshot = Inr snapshot_raw"
proof -
  have "list_all (\<lambda>c. c < 128) (map unat (encoded (PDict built_portable)))"
    by (rule encoded_ascii) (simp add: built_portable_def fact_def fact_items_def portable_tool_def)
  then have "plain_text (map unat (encoded (PDict built_portable)))"
    by (auto simp: plain_text_def list_all_iff plain_char_def)
  then have "plain_val run_snapshot"
    using plain_digest by (simp add: run_snapshot_def run_command_def input_command_def text_list_def target_name_def)
  then have "plain_text (json_dumps_raw (sorted_keys run_snapshot) @ [10])"
    using plain_json_raw(1) [of "sorted_keys run_snapshot"] sorted_plain(1) [of run_snapshot] by simp
  then obtain raw where "utf8_encode (json_dumps_raw (sorted_keys run_snapshot) @ [10]) = Some raw"
    using plain_encoded by blast
  then have "core_encoded run_snapshot = Inr raw"
    by (simp add: core_encoded_def)
  then show ?thesis
    by (simp add: snapshot_raw_def)
qed

lemma run_loads_built:
  "pe_loads built_env [6] = Inr (expected_manifest Esp32)" "pe_loads built_env (encoded (PDict built_inputs)) = Inr (PDict built_inputs)"
  "pe_loads built_env [11] = Inr (build_result (PDict built_inputs) built_identity built_native)"
  by (simp_all add: built_env_def built_loads_def encoded_not_single)

lemma built_reads: "reads_release built_env"
proof -
  have "[b] \<noteq> encoded v" if "b \<noteq> 10" for b v
    using encoded_not_single [OF that] by metis
  then show ?thesis
    using run_env_reads by (simp add: reads_release_def built_env_def built_loads_def run_env_def)
qed

lemma built_command_ok: "command_ok built_env (PDict built_portable) Esp32 (PDict run_command)"
  using digest_hex64 by (simp add: command_ok_def run_command_def keys_are_iff str_inj_iff is_absolute_def) (simp add: str_def)

lemma built_run_validated: "validate_run_inputs built_env run_snapshot [6] (PDict built_portable) run_context = Inr ()"
proof -
  have ins: "py_getitem built_portable ''target'' = Inr (PStr (str ''esp32''))"
    by (simp add: py_getitem_def built_portable_def str_inj_iff)
  have man: "\<exists>m. expected_manifest Esp32 = PDict m \<and> is_int (map_of m (str ''schema_version''))"
    by (simp add: expected_manifest_def is_int_def)
  have snap: "run_snapshot = PDict s \<Longrightarrow> keys_are s [''schema_version'', ''kind'', ''commands''] \<and> map_of s (str ''schema_version'') = Some (PInt 1) \<and>
      map_of s (str ''kind'') = Some (PStr (str ''standalone-package-inputs'')) \<and> map_of s (str ''commands'') = Some (PList [PDict run_command])" for s
    by (auto simp: run_snapshot_def keys_are_iff str_inj_iff)
  obtain s where s: "run_snapshot = PDict s"
    by (simp add: run_snapshot_def)
  obtain c where c: "run_context = PDict c" "py_getitem c ''job_manifest_sha256'' = Inr (PStr (digest [6]))"
      "py_getitem c ''profile_snapshot_id'' = Inr (PStr (digest snapshot_raw))"
    by (simp add: run_context_def py_getitem_def str_inj_iff)
  obtain m where m: "expected_manifest Esp32 = PDict m" "is_int (map_of m (str ''schema_version''))"
    using man by blast
  show ?thesis
    using snap [OF s] snapshot_encoded built_command_ok m(2)
    by (simp add: validate_run_inputs_def ins find_target_def str_inj_iff s c m(1) run_loads_built(1))
qed

lemma built_run_inputs: "run_inputs_of built_env built_core (PDict built_inputs) = Inr [(''package-inputs.json'', [7]), (''package-manifest.json'', [6])]"
proof -
  obtain r where r: "run_request = PDict r" "keys_are r [''schema_version'', ''kind'', ''context'', ''manifest'']"
      "map_of r (str ''schema_version'') = Some (PInt 1)" "map_of r (str ''kind'') = Some (PStr (str ''standalone-package-run''))"
      "map_of r (str ''context'') = Some run_context" "map_of r (str ''manifest'') = Some (expected_manifest Esp32)"
    by (simp add: run_request_def keys_are_iff str_inj_iff)
  obtain c where c: "run_context = PDict c" "py_getitem c ''profile_snapshot_id'' = Inr (PStr (digest snapshot_raw))"
    by (simp add: run_context_def py_getitem_def str_inj_iff)
  obtain s where s: "run_snapshot = PDict s" "map_of s (str ''commands'') = Some (PList [PDict run_command])"
    by (simp add: run_snapshot_def str_inj_iff)
  have command: "map_of run_command (str ''executable'') = Some (PStr (str ''/p''))" "map_of run_command (str ''executable_sha256'') = Some (PStr (digest [8]))"
    by (simp_all add: run_command_def str_inj_iff)
  have core: "is_absolute (cr_snapshot_path built_core)" "cr_request built_core = Inr run_request" "cr_manifest built_core = [6]"
    "cr_original built_core = Inr (PDict [(str ''context'', run_context), (str ''version_snapshot'', PDict [])])" "cr_inputs built_core = Inr run_snapshot"
    "cr_inputs_raw built_core = [7]" "cr_profile built_core = Some (digest snapshot_raw)" "cr_interpreter built_core = str ''/p''" "cr_interpreter_raw built_core = [8]"
    by (simp_all add: built_core_def is_absolute_def str_def)
  have "request_ok built_env r run_context (expected_manifest Esp32) (PStr (digest snapshot_raw)) (Some (digest snapshot_raw))"
    using r by (simp add: request_ok_def)
  moreover have "py_getitem [(str ''context'', run_context), (str ''version_snapshot'', PDict [])] ''context'' = Inr run_context"
    by (simp add: py_getitem_def)
  ultimately show ?thesis
    using built_run_validated
    by (simp add: run_inputs_of_def core run_loads_built(1) built_portable r(1) c s command)
qed

lemma built_items:
  "py_getitem built_inputs ''target'' = Inr (PStr (str ''esp32''))" "map_of built_inputs (str ''signing_trust'') = Some (PStr (str ''release''))"
  "py_getitem built_inputs ''source_commit_sha'' = Inr (PStr (replicate 40 97))"
  "py_getitem (identity_dict run_identity) ''local_validation'' = Inr (PBool False)"
  "py_getitem (identity_dict run_identity) ''source_commit_sha'' = Inr (PStr (replicate 40 97))"
  by (simp_all add: py_getitem_def built_inputs_def identity_dict_def run_identity_def str_inj_iff)

lemma built_current_of: "current_of built_host (PDict built_inputs) = Inr (PDict built_inputs)"
proof -
  have "bindE (dict_field built_inputs ''sdkconfig'') (\<lambda>config. text_at config ''path'') = Inr (str ''/config'')"
    "bindE (dict_field built_inputs ''verification_key'') (\<lambda>key. text_at key ''path'') = Inr (str ''/key'')"
    "py_getitem built_inputs ''signing_trust'' = Inr (PStr (str ''release''))" "target_at built_inputs = Inr Esp32"
    by (simp_all add: dict_field_def text_at_def target_at_def py_getitem_def find_target_def built_inputs_def str_inj_iff)
  then show ?thesis
    by (simp add: current_of_def built_current)
qed

lemma built_resolved: "identity_of built_host (PStr (str ''esp32'')) = Inr built_identity"
proof -
  have version: "version_text (str ''1.2.0'')"
    by code_simp
  have root: "env_text built_variables ''FAST_DEPLOY_PACKAGE_CORE_ROOT'' = str ''/c''"
    by (simp add: env_text_def built_variables_def)
  then have "list_ex (\<lambda>key. env_text built_variables key \<noteq> []) FORMAL_VARIABLES"
    by (auto simp: list_ex_iff FORMAL_VARIABLES_def str_def)
  moreover have "is_absolute (str ''/c'')"
    by (simp add: is_absolute_def str_def)
  moreover have "map_of (identity_dict run_identity) (str ''local_validation'') = Some (PBool False)"
    "map_of (identity_dict run_identity) (str ''version'') = Some (PStr (str ''1.2.0''))"
    by (simp_all add: identity_dict_def run_identity_def str_inj_iff)
  moreover have "release_version (PDict [(str ''version'', PStr (str ''1.2.0''))]) = Inr (str ''1.2.0'')"
    by (simp add: release_version_def version keys_are_iff)
  moreover have "descriptor_bytes built_identity Esp32 = Inr release_descriptor"
    using release_descriptor_of by (simp add: descriptor_bytes_def)
  ultimately show ?thesis
    by (simp add: identity_of_def find_target_def str_inj_iff resolve_def built_host_def root validate_source_inputs_def SOURCE_DIRECTORIES_def)
qed

lemma built_validated: "validated built_host (encoded (PDict built_inputs)) = Inr (PDict built_inputs, built_identity)"
proof -
  have host: "ho_package built_host = built_env" "ho_run built_host = built_core"
    by (simp_all add: built_host_def)
  show ?thesis
    by (simp add: validated_def validate_input_def host run_loads_built(2) built_items built_current_of built_run_inputs built_resolved)
qed

definition built_frozen :: frozen where
  "built_frozen = \<lparr>fz_target = Esp32, fz_sdk_root = str ''/sdk'', fz_sdkconfig = str ''/config'', fz_values_sha256 = built_values, fz_key = str ''/key'',
     fz_automatic = True, fz_trust = PStr (str ''release''), fz_components = PDict []\<rparr>"

lemma built_frozen_of: "frozen_of (PDict built_inputs) = Inr built_frozen"
  by (simp add: frozen_of_def built_frozen_def dict_field_def text_at_def target_at_def py_getitem_def find_target_def built_inputs_def
      fact_items_def str_inj_iff)

subsection \<open>The facts of the directory\<close>

lemma built_facts_of_record:
  "built_facts small_tools built_record Esp32 True run_key built_values (Inr (PDict [])) built_identity = Inr built_native"
proof -
  have boot: "bootstrap_facts small_tools built_record Esp32 True run_key = Inr ()"
  proof -
    have "bindE (parse_table (bt_parse small_tools) raw) (\<lambda>entries.
        require (app_slots entries = [(0x20000, SLOT_BYTES), (0x200000, SLOT_BYTES)]) (Raise ValueError ''app slots'') x) = x" for raw and x :: "unit res"
      using table_slots [of raw] by (cases "parse_table (bt_parse small_tools) raw") simp_all
    moreover have "same_key small_tools run_key raw = Inr ()" for raw
      by (simp add: same_key_def small_tools_def elf_key)
    moreover have "verify_signed (bt_verify small_tools) ([9] @ zeros 68) [9] run_key Esp32 = Inr ()"
      by (simp add: verify_signed_def small_tools_def layout_simps erased_def)
    moreover have "table_from_csv (bt_generate small_tools) path x = Inr [9]" for path x
      by (simp add: table_from_csv_def small_tools_def)
    ultimately show ?thesis
      using bootloader_image by (simp add: bootstrap_facts_def built_record_def)
  qed
  have "digest (encoded (PDict (map (\<lambda>(k, v). (k, PStr v)) (config_pairs built_config)))) = built_values"
    by (simp add: built_values_def config_dict_def)
  moreover have "bd_sdkconfig built_record = built_sdkconfig" "bd_unsigned built_record = release_unsigned" "bd_elf built_record = small_elf"
    "bd_bootloader built_record = small_bootloader" "bd_table built_record = [9] @ zeros 68" "bd_otadata built_record = erased 8192"
    by (simp_all add: built_record_def)
  moreover have "erased 0 = []"
    by (simp add: erased_def)
  ultimately show ?thesis
    using boot unsigned_inspected unsigned_image elf_facts
    by (simp add: built_facts_def built_config_values built_native_def)
qed

definition same_build :: "dir \<Rightarrow> bool" where
  "same_build d = (\<forall>name \<in> set (map fst finished_dir). node_at d name = node_at finished_dir name)"

lemma finished_nodes:
  assumes "map_of finished_dir name = Some n" "same_build d"
  shows "node_at d name = n"
proof -
  have "name \<in> set (map fst finished_dir)"
    using map_of_SomeD [OF assms(1)] by force
  moreover have "node_at finished_dir name = n"
    by (simp add: node_at_def assms(1))
  ultimately show ?thesis
    using assms(2) unfolding same_build_def by metis
qed

lemma finished_files:
  assumes "same_build d"
  shows "node_at d BUILD_RECEIPT = File [11]" "node_at d ''sdkconfig'' = File built_sdkconfig" "node_at d ''esp_base-unsigned.bin'' = File release_unsigned"
    "node_at d ''esp_base.bin'' = File release_image" "node_at d ''esp_base.elf'' = File small_elf" "node_at d ''bootloader/bootloader.bin'' = File small_bootloader"
    "node_at d ''bootloader/bootloader.elf'' = File []" "node_at d ''partition_table/partition-table.bin'' = File ([9] @ zeros 68)"
    "node_at d ''ota_data_initial.bin'' = File (erased 8192)"
  by (rule finished_nodes [OF _ assms]; simp add: finished_dir_def BUILD_RECEIPT_def)+

lemma finished_facts: "same_build d \<Longrightarrow> facts_of built_host built_frozen built_identity d = Inr built_native"
proof -
  assume same: "same_build d"
  have "ho_read built_host (str ''/key'') = Inr run_key" "ho_tools built_host = small_tools"
    by (simp_all add: built_host_def str_inj_iff)
  moreover have "built_dir_of d Esp32 True = Inr built_record"
    by (simp add: built_dir_of_def regular_def finished_files [OF same] unsigned_name_def built_record_def)
  ultimately show ?thesis
    using built_facts_of_record by (simp add: facts_of_def built_components built_frozen_def)
qed

subsection \<open>The package\<close>

definition built_artifact :: pystr where
  "built_artifact = str ''/r/esp-base-esp32.zip''"

definition no_args :: package_args where
  "no_args = \<lparr>pa_artifact = built_artifact, pa_image = None, pa_manifest = None, pa_manifest_only = False, pa_partition = None\<rparr>"

definition built_files :: "(string \<times> bytes) list" where
  "built_files = [(''firmware.bin'', release_image), (''verification-key.bin'', run_key), (''sdk-lock.json'', [12]), (''LICENSE'', [12]),
     (''inputs.json'', encoded (PDict built_portable)), (''context.json'', encoded run_context), (''version-snapshot.json'', encoded (PDict [])),
     (''build.json'', encoded built_identity), (''package-inputs.json'', [7]), (''package-manifest.json'', [6]), (''dependencies.lock'', [12]),
     (''esp_base.elf'', small_elf), (''bootloader.bin'', small_bootloader), (''partition-table.bin'', [9] @ zeros 68), (''ota_data_initial.bin'', erased 8192)]"

definition built_manifest :: bytes where
  "built_manifest = encoded (PDict (package_manifest built_frozen (PDict built_portable) built_identity (PDict []) built_files))"

lemma length_digest: "length (digest raw) = 64"
  using digest_hex64 by (simp add: lower_hex_text_def)

lemma built_sizes:
  "length (encoded (PDict built_portable)) < 10 ^ 18" "length (encoded run_context) < 10 ^ 18" "length (encoded (PDict [])) < 10 ^ 18"
  "length (encoded built_identity) < 10 ^ 18"
proof -
  have "small_val (PDict built_portable)" "dump_size (PDict built_portable) \<le> 100000"
    using config_content_size
    by (simp_all add: built_portable_def fact_def fact_items_def portable_tool_def built_values_def length_digest run_key_def built_sdkconfig_def)
  then show "length (encoded (PDict built_portable)) < 10 ^ 18"
    using encoded_size [of "PDict built_portable"] by simp
  show "length (encoded run_context) < 10 ^ 18" "length (encoded (PDict [])) < 10 ^ 18"
    using encoded_size [of run_context] encoded_size [of "PDict []"] by (simp_all add: run_context_def length_digest)
  show "length (encoded built_identity) < 10 ^ 18"
    using encoded_size [of built_identity] by (simp add: identity_dict_def run_identity_def architecture_def target_name_def)
qed

lemma built_manifest_size: "length built_manifest \<le> 100000"
proof -
  let ?m = "PDict (package_manifest built_frozen (PDict built_portable) built_identity (PDict []) built_files)"
  have "small_val ?m"
    using built_sizes unsigned_parts(2)
    by (simp add: package_manifest_def built_files_def fact_def built_frozen_def identity_dict_def run_identity_def layout_simps
        release_lengths run_key_def small_elf_def small_bootloader_def)
  moreover have "dump_size ?m \<le> 99999"
    by (simp add: package_manifest_def built_files_def fact_def built_frozen_def identity_dict_def run_identity_def length_digest built_values_def
        target_name_def signature_scheme_def architecture_def)
  ultimately show ?thesis
    using encoded_size [of ?m] by (simp add: built_manifest_def)
qed

lemma built_build_files:
  assumes "same_build d"
  shows "build_files d = Inr [(''esp_base.elf'', small_elf), (''bootloader.bin'', small_bootloader), (''partition-table.bin'', [9] @ zeros 68),
    (''ota_data_initial.bin'', erased 8192)]"
  by (simp add: build_files_def BUILD_PATHS_def file_name_def regular_def finished_files [OF assms])

lemma built_checks: "same_build d \<Longrightarrow> package_checks built_host no_args built_frozen (PDict built_inputs) built_identity d = Inr (built_native, run_key, built_files)"
proof -
  assume same: "same_build d"
  have host: "ho_read built_host (str ''/key'') = Inr run_key" "ho_own built_host name = Inr [12]" "ho_package built_host = built_env" "ho_run built_host = built_core" for name
    by (simp_all add: built_host_def str_inj_iff)
  have env: "pe_verify built_env key t raw" "pe_recorded built_env c s t = Inr built_identity" for key t raw c s
    by (simp_all add: built_env_def run_env_def)
  have receipt: "read_json_at built_host d BUILD_RECEIPT = Inr (build_result (PDict built_inputs) built_identity built_native)"
    by (simp add: read_json_at_def finished_files [OF same] host run_loads_built)
  have signature: "verify_signed (pe_verify built_env) release_image release_unsigned run_key Esp32 = Inr ()"
    by (simp add: verify_signed_def unsigned_parts(1,2) env erased_def layout_simps)
  have "cr_original built_core = Inr (PDict [(str ''context'', run_context), (str ''version_snapshot'', PDict [])])"
    by (simp add: built_core_def)
  then have core: "core_record built_host = Inr (run_context, PDict [])"
    by (simp add: core_record_def required_variable_def host py_getitem_def str_inj_iff) (simp add: built_host_def built_variables_def)
  have recorded: "recorded_identity built_host run_context (PDict []) Esp32 = Inr built_identity"
    by (simp add: recorded_identity_def host env) (simp add: built_host_def built_variables_def env_text_def is_absolute_def str_def)
  have "collected built_host built_frozen (PDict built_inputs) built_identity release_image run_context (PDict []) d = Inr built_files"
    by (simp add: collected_def host built_frozen_def built_portable built_run_inputs built_build_files [OF same, simplified] built_files_def)
  then show ?thesis
    using signature core recorded
    by (simp add: package_checks_def finished_facts [OF same] receipt same_value_def no_args_def regular_def finished_files [OF same] host
        release_inspected unsigned_name_def signed_table_def) (simp add: built_frozen_def regular_def finished_files [OF same] host release_inspected unsigned_name_def)
qed

definition locked_dir :: dir where
  "locked_dir = AList.update LOCK_FILE (File []) finished_dir"

definition packaged_dir :: dir where
  "packaged_dir = AList.update SIGNED_MANIFEST (File (built_manifest @ zeros 68)) (AList.update PACKAGE_MANIFEST (File built_manifest) locked_dir)"

lemmas dir_names = LOCK_FILE_def BUILD_RECEIPT_def PACKAGE_MANIFEST_def SIGNED_MANIFEST_def

lemma finished_dirs: "same_build finished_dir" "same_build locked_dir" "same_build packaged_dir"
  by (simp_all add: same_build_def locked_dir_def packaged_dir_def node_at_update) (simp_all add: finished_dir_def dir_names)

lemma new_nodes:
  "node_at finished_dir LOCK_FILE = Absent" "node_at locked_dir LOCK_FILE = File []" "node_at locked_dir PACKAGE_MANIFEST = Absent"
  "node_at locked_dir SIGNED_MANIFEST = Absent"
  by (simp_all add: locked_dir_def node_at_update) (simp_all add: finished_dir_def dir_names node_at_def)

lemma built_lock: "lock_build built_host finished_dir = (Inr (), locked_dir)" "lock_build built_host locked_dir = (Inr (), locked_dir)"
proof -
  have "is_absolute (ho_directory built_host)" "\<not> ho_dir_link built_host" "\<not> ho_dir_inside built_host"
    by (simp_all add: built_host_def is_absolute_def str_def)
  then show "lock_build built_host finished_dir = (Inr (), locked_dir)" "lock_build built_host locked_dir = (Inr (), locked_dir)"
    using new_nodes by (simp_all add: lock_build_def locked_dir_def [symmetric])
qed

lemma built_finished: "build built_host built_host (encoded (PDict built_inputs)) finished_dir = (Inr (build_result (PDict built_inputs) built_identity built_native), locked_dir)"
proof -
  have "exists_at built_host locked_dir BUILD_RECEIPT"
    by (simp add: exists_at_def finished_files [OF finished_dirs(2)])
  moreover have "read_json_at built_host locked_dir BUILD_RECEIPT = Inr (build_result (PDict built_inputs) built_identity built_native)"
    using run_loads_built(3) by (simp add: read_json_at_def finished_files [OF finished_dirs(2)] built_host_def)
  ultimately show ?thesis
    by (simp add: build_def bindA_def liftA_def readA_def built_validated built_frozen_of built_lock completed_build_def finished_facts [OF finished_dirs(2)]
        same_value_def)
qed

lemma built_signed: "verify_signed (pe_verify built_env) (built_manifest @ zeros 68) built_manifest run_key Esp32 = Inr ()"
  using built_manifest_size by (simp add: verify_signed_def erased_def layout_simps built_env_def run_env_def)

lemma built_sign_manifest:
  assumes "node_at d SIGNED_MANIFEST = Absent"
  shows "sign_manifest built_host built_frozen no_args run_key built_manifest d = (Inr (), AList.update SIGNED_MANIFEST (File (built_manifest @ zeros 68)) d)"
proof -
  have "ho_read built_host (str ''/config'') = Inr built_sdkconfig" "ho_text_loads built_host quoted = Inr (PStr (str ''/k''))"
    "ho_sign built_host t key raw = Inr (raw @ zeros 68)" for quoted t key raw
    by (simp_all add: built_host_def)
  moreover have "\<exists>quoted. cfg (config_pairs built_config) ''CONFIG_SECURE_BOOT_SIGNING_KEY'' = Some quoted"
    by (simp add: cfg_def config_pairs_def built_config_def REQUIRED_CONFIG_def str_inj_iff)
  moreover have "fz_automatic built_frozen" "fz_sdkconfig built_frozen = str ''/config''"
    by (simp_all add: built_frozen_def)
  ultimately show ?thesis
    using assms
    by (auto simp: sign_manifest_def no_args_def exists_at_def bindA_def liftA_def readA_def built_config_values freeze_def write_once_def)
qed

lemma built_delivered: "delivered built_host built_host (encoded (PDict built_inputs)) no_args built_frozen (PDict built_inputs) built_identity built_native built_files built_manifest packaged_dir = (Inr (PDict []), packaged_dir)"
proof -
  have "regular packaged_dir SIGNED_MANIFEST = Inr (built_manifest @ zeros 68)"
    by (simp add: regular_def packaged_dir_def node_at_update)
  moreover have "required_variable built_host ''FAST_DEPLOY_PACKAGE_CORE_ROOT'' = Inr (str ''/c'')"
    by (simp add: required_variable_def built_host_def built_variables_def)
  moreover have "core_package built_host path files d = (Inr (PDict [], File [90]), d)" "artifact_items built_host (File [90]) = Inr run_items" "ho_package built_host = built_env" for files path d
    by (simp_all add: built_host_def core_package_def artifact_items_def)
  ultimately show ?thesis
    using run_package_verified [OF built_reads, of None False]
    by (simp add: delivered_def ready_to_deliver_def bindA_def liftA_def readA_def built_validated same_value_def finished_facts [OF finished_dirs(3)])
qed

lemma built_packaged: "package built_host built_host (encoded (PDict built_inputs)) no_args locked_dir = (Inr (PDict []), packaged_dir)"
proof -
  have components: "bindE (as_dict (Raise TypeError ''native'') built_native) (\<lambda>n. py_getitem n ''components'') = Inr (PDict [])"
    by (simp add: built_native_def py_getitem_def str_inj_iff)
  have frozen: "freeze PACKAGE_MANIFEST built_manifest locked_dir = (Inr (), AList.update PACKAGE_MANIFEST (File built_manifest) locked_dir)"
    using new_nodes by (simp add: freeze_def write_once_def)
  have signed: "sign_manifest built_host built_frozen no_args run_key built_manifest (AList.update PACKAGE_MANIFEST (File built_manifest) locked_dir) = (Inr (), packaged_dir)"
    unfolding packaged_dir_def
    by (rule built_sign_manifest) (simp add: node_at_update new_nodes, simp add: dir_names)
  have host: "ho_package built_host = built_env" "fz_target built_frozen = Esp32" "\<not> pa_manifest_only no_args"
    by (simp_all add: built_host_def built_frozen_def no_args_def)
  have "bindE (regular packaged_dir SIGNED_MANIFEST) (\<lambda>signed_raw. verify_signed (pe_verify built_env) signed_raw built_manifest run_key Esp32) = Inr ()"
    using built_signed by (simp add: regular_def packaged_dir_def node_at_update)
  then have "assembled built_host built_host (encoded (PDict built_inputs)) no_args built_frozen (PDict built_inputs) built_identity built_native run_key built_files locked_dir
      = (Inr (PDict []), packaged_dir)"
    using frozen signed
    by (simp add: assembled_def Let_def bindA_def liftA_def readA_def built_portable components built_manifest_def [symmetric] host built_delivered)
  then show ?thesis
    by (simp add: package_def bindA_def liftA_def readA_def built_validated built_frozen_of built_lock built_checks [OF finished_dirs(2)])
qed

theorem finished_build_frozen_witness:
  "receipt_says built_host locked_dir (build_result (PDict built_inputs) built_identity built_native)"
  using finished_build_frozen [OF built_finished] by blast

lemma no_artifact: "\<not> pa_manifest_only no_args" "pa_artifact no_args = built_artifact" "artifact_names built_host no_args = {}"
  by (simp_all add: no_args_def built_host_def artifact_names_def)

theorem delivered_package_frozen_witness:
  "\<exists>manifest signed_raw files i. node_at packaged_dir PACKAGE_MANIFEST = File manifest \<and> node_at packaged_dir SIGNED_MANIFEST = File signed_raw \<and>
     artifact_delivered built_host built_artifact (stage files manifest signed_raw i) (PDict []) packaged_dir"
  using delivered_package_frozen [OF built_packaged no_artifact(1)] unfolding no_artifact by (elim exE conjE) (simp, blast)

subsection \<open>The run of the entry\<close>

lemma built_requested: "requested built_host built_artifact = Inr (PDict built_inputs, True)"
proof -
  have variables: "env_text built_variables ''ESP_BASE_SIGNING_TRUST'' = str ''release''" "env_text built_variables ''ESP_BASE_SDKCONFIG'' = str ''/config''"
    "env_text built_variables ''ESP_BASE_VERIFICATION_KEY'' = str ''/key''" "is_absolute (str ''/config'')" "is_absolute (str ''/key'')"
    by (simp_all add: env_text_def built_variables_def is_absolute_def) (simp_all add: str_def)
  then have inputs: "entry_inputs built_host (PStr (str ''esp32'')) = Inr (PDict built_inputs)"
    using built_current by (simp add: entry_inputs_def find_target_def str_inj_iff absolute_variable_def built_host_def Let_def)
  have declared: "\<exists>m. expected_manifest Esp32 = PDict m \<and> map_of m (str ''variant'') = Some (PStr (str ''esp32'')) \<and>
      map_of m (str ''artifact'') = Some (PStr (str ''esp-base-esp32.zip''))"
    by (simp add: expected_manifest_def target_name_def str_inj_iff)
  then obtain m where m: "expected_manifest Esp32 = PDict m" "py_getitem m ''variant'' = Inr (PStr (str ''esp32''))" "text_at m ''artifact'' = Inr (str ''esp-base-esp32.zip'')"
    by (auto simp: py_getitem_def text_at_def)
  obtain r where request: "run_request = PDict r" "dict_field r ''manifest'' = Inr m"
    by (simp add: run_request_def dict_field_def py_getitem_def m(1) str_inj_iff)
  have core: "is_absolute (str ''/r/s'')" "cr_snapshot_path built_core = str ''/r/s''" "cr_request built_core = Inr run_request"
    "ho_run built_host = built_core" "ho_package built_host = built_env"
    by (simp_all add: built_core_def built_host_def is_absolute_def str_def)
  have "built_artifact = join_path (parent_path (str ''/r/s'')) (str ''esp-base-esp32.zip'')"
    by (simp add: built_artifact_def join_path_def parent_path_def is_absolute_def str_def)
  then show ?thesis
    by (simp add: requested_def core request m(2,3) inputs built_run_inputs built_frozen_of) (simp add: built_frozen_def)
qed

lemma built_entry: "entry_run (\<lambda>_. built_host) built_artifact (Absent, finished_dir) = (Inr (PDict []), File (encoded (PDict built_inputs)), packaged_dir)"
proof -
  have "signed_args built_host built_artifact = Inr no_args"
    by (simp add: signed_args_def signed_variable_def built_host_def built_variables_def env_text_def no_args_def)
  then show ?thesis
    using built_packaged
    by (simp add: entry_run_def built_requested write_once_def bindA_def liftA_def built_finished entry_package_def)
qed

theorem entry_delivers_frozen_inputs_witness:
  "\<exists>v fz a result d1. frozen_of v = Inr fz \<and> File (encoded (PDict built_inputs)) = File (encoded v) \<and>
     build built_host built_host (encoded v) finished_dir = (Inr result, d1) \<and> package built_host built_host (encoded v) a d1 = (Inr (PDict []), packaged_dir)"
  using entry_delivers_frozen_inputs [OF built_entry] by blast

end
