(* ===== verification/Resource_Report.thy ===== *)
theory Resource_Report
  imports Serial_Port Capacity_Lines "HOL-Library.AList"
begin

text \<open>
  The report on MQTT resource snapshots (\<^verbatim>\<open>mqtt_resource_report.py\<close>): the lines of a serial log, the state machine that
  collects the snapshots, and the summary with its issues.

  A log is the text of the stream after decoding.  The Unicode tables behind \<^verbatim>\<open>\\w\<close> and \<^verbatim>\<open>\\d\<close> are the parameters \<open>word_char\<close>
  and \<open>digit_of\<close>.  A regular expression of the source is a function that returns its groups.  A median of
  an even number of samples can be half a number; \<open>median2\<close> is twice the median.

  Properties: every snapshot of an accepted log is complete and counted correctly, and a summary without issues
  bounds every sample by the baselines.
\<close>

subsection \<open>The lines\<close>

text \<open>The lines of a text stream with universal newlines, with their line feeds.\<close>

fun stream_lines :: "pystr \<Rightarrow> pystr \<Rightarrow> pystr list" where
  "stream_lines line [] = (if line = [] then [] else [line])"
| "stream_lines line (c # cs) =
     (if c = 10 then (line @ [10]) # stream_lines [] cs
      else if c = 13 then (line @ [10]) # stream_lines [] (if take 1 cs = [10] then drop 1 cs else cs)
      else stream_lines (line @ [c]) cs)"

record unicode =
  word_char :: "nat \<Rightarrow> bool"
  digit_of :: "nat \<Rightarrow> int option"

definition digit_char :: "unicode \<Rightarrow> nat \<Rightarrow> bool" where
  "digit_char u c = (digit_of u c \<noteq> None)"

text \<open>The groups of a pattern whose groups cannot hold a blank: one prefix and one character class for each word.\<close>

definition word_groups :: "(string \<times> (nat \<Rightarrow> bool)) list \<Rightarrow> pystr list \<Rightarrow> pystr list option" where
  "word_groups pattern parts =
     (if length parts = length pattern \<and>
         list_all (\<lambda>((pre, ok), part). startswith part (str pre) \<and> str pre \<noteq> part \<and> list_all ok (drop (length pre) part)) (zip pattern parts)
      then Some (map (\<lambda>((pre, ok), part). drop (length pre) part) (zip pattern parts)) else None)"

definition head_pattern :: "unicode \<Rightarrow> (string \<times> (nat \<Rightarrow> bool)) list" where
  "head_pattern u = [(''phase='', word_char u), (''cycle='', digit_char u)]"

text \<open>A pattern of a fixed first word and groups after single blanks.\<close>

definition line_groups :: "string \<Rightarrow> (string \<times> (nat \<Rightarrow> bool)) list \<Rightarrow> pystr \<Rightarrow> pystr list option" where
  "line_groups first pattern line = (case split_on 32 line of
     w # ws \<Rightarrow> if w = str first then word_groups pattern ws else None | [] \<Rightarrow> None)"

definition RESOURCE_FIELDS :: "string list" where
  "RESOURCE_FIELDS = [''heap='', ''min_heap='', ''largest='', ''tasks='', ''sockets='', ''socket_errors='']"

definition RESOURCE :: "unicode \<Rightarrow> pystr \<Rightarrow> pystr list option" where
  "RESOURCE u = line_groups ''EBASE_MQTT_RESOURCE'' (head_pattern u @ map (\<lambda>f. (f, digit_char u)) RESOURCE_FIELDS)"

definition TIMER_START :: "unicode \<Rightarrow> pystr \<Rightarrow> pystr list option" where
  "TIMER_START u = line_groups ''EBASE_MQTT_TIMERS_BEGIN'' (head_pattern u)"

definition TIMER_END :: "unicode \<Rightarrow> pystr \<Rightarrow> pystr list option" where
  "TIMER_END u = line_groups ''EBASE_MQTT_TIMERS_END'' (head_pattern u @ [(''error='', digit_char u)])"

text \<open>
  \<^verbatim>\<open>name=(.+) stack_bytes=(\\d+)\<close> takes the digits at the end of the line and the last \<^verbatim>\<open>stack_bytes=\<close> before them; the
  name may hold blanks.
\<close>

definition TASK :: "unicode \<Rightarrow> pystr \<Rightarrow> pystr list option" where
  "TASK u line =
     (let number = rev (takeWhile (digit_char u) (rev line)); front = rstrip (digit_char u) line;
          mark = str '' stack_bytes=''; body = take (length front - length mark) front in
      if number \<noteq> [] \<and> length mark \<le> length front \<and> drop (length front - length mark) front = mark then
        (case split_on 32 body of
           w # p # c # n # ns \<Rightarrow>
             (let name = drop (length (w @ p @ c) + 3) body in
              if w = str ''EBASE_MQTT_TASK'' \<and> startswith name (str ''name='') \<and> name \<noteq> str ''name='' then
                (case word_groups (head_pattern u) [p, c] of
                   Some [phase, cycle] \<Rightarrow> Some [phase, cycle, drop 5 name, number] | _ \<Rightarrow> None)
              else None)
         | _ \<Rightarrow> None)
      else None)"

text \<open>\<^verbatim>\<open>(\\S.*?)\\s+\\d+ ... \\s*\<close>: the six numbers are the last six words; the name is what is before them.\<close>

definition strip_number :: "unicode \<Rightarrow> pystr option \<Rightarrow> pystr option" where
  "strip_number u text = (case text of None \<Rightarrow> None
     | Some s \<Rightarrow> (let t = rstrip (digit_char u) s; v = rstrip py_space t in if t = s \<or> v = t then None else Some v))"

definition TIMER_ROW :: "unicode \<Rightarrow> pystr \<Rightarrow> pystr option" where
  "TIMER_ROW u line = (case (strip_number u ^^ 6) (Some (rstrip py_space line)) of
     Some (c # cs) \<Rightarrow> if py_space c then None else Some (c # cs) | _ \<Rightarrow> None)"

definition number_of :: "unicode \<Rightarrow> pystr \<Rightarrow> int res" where
  "number_of u s = of_option (Raise ValueError ''int'') (py_int (digit_of u) s)"

subsection \<open>Collecting the snapshots\<close>

type_synonym key = "pystr \<times> int"

record snapshot =
  sn_heap :: int
  sn_min_heap :: int
  sn_largest :: int
  sn_tasks :: int
  sn_sockets :: int
  sn_socket_errors :: int
  sn_task_stacks :: "(pystr \<times> int) list"
  sn_timers :: "int option"
  sn_timer_names :: "(pystr \<times> int) list"

record collection =
  co_snapshots :: "(key \<times> snapshot) list"
  co_current :: "key option"
  co_timer_key :: "key option"

definition change :: "key \<Rightarrow> (snapshot \<Rightarrow> snapshot) \<Rightarrow> (key \<times> snapshot) list \<Rightarrow> (key \<times> snapshot) list" where
  "change k f snaps = map (\<lambda>(k', s). (k', if k' = k then f s else s)) snaps"

definition begin_snapshot :: "unicode \<Rightarrow> collection \<Rightarrow> pystr list \<Rightarrow> collection res" where
  "begin_snapshot u st groups =
     require (co_current st = None) (Raise ValueError ''snapshot not finished'')
     (bindE (number_of u (groups ! 1)) (\<lambda>cycle.
      let key = (groups ! 0, cycle) in
      require (key \<notin> set (map fst (co_snapshots st))) (Raise ValueError ''snapshot repeated'')
      (bindE (for_each (\<lambda>ns text. bindE (number_of u text) (\<lambda>n. Inr (ns @ [n]))) [] (drop 2 groups)) (\<lambda>ns.
       Inr (st\<lparr>co_current := Some key, co_snapshots := co_snapshots st @
         [(key, \<lparr>sn_heap = ns ! 0, sn_min_heap = ns ! 1, sn_largest = ns ! 2, sn_tasks = ns ! 3, sn_sockets = ns ! 4,
                 sn_socket_errors = ns ! 5, sn_task_stacks = [], sn_timers = None, sn_timer_names = []\<rparr>)]\<rparr>)))))"

definition stacks_of :: "collection \<Rightarrow> key \<Rightarrow> (pystr \<times> int) list" where
  "stacks_of st key = (case map_of (co_snapshots st) key of None \<Rightarrow> [] | Some s \<Rightarrow> sn_task_stacks s)"

definition add_task :: "unicode \<Rightarrow> collection \<Rightarrow> pystr list \<Rightarrow> collection res" where
  "add_task u st groups =
     bindE (number_of u (groups ! 1)) (\<lambda>cycle.
     let key = (groups ! 0, cycle); name = groups ! 2 in
     require (co_current st = Some key \<and> co_timer_key st = None \<and> name \<notin> set (map fst (stacks_of st key)))
       (Raise ValueError ''task row'')
     (bindE (number_of u (groups ! 3)) (\<lambda>stack.
      Inr (st\<lparr>co_snapshots := change key (\<lambda>s. s\<lparr>sn_task_stacks := sn_task_stacks s @ [(name, stack)]\<rparr>) (co_snapshots st)\<rparr>))))"

definition begin_timers :: "unicode \<Rightarrow> collection \<Rightarrow> pystr list \<Rightarrow> collection res" where
  "begin_timers u st groups =
     bindE (number_of u (groups ! 1)) (\<lambda>cycle.
     let key = (groups ! 0, cycle) in
     require (co_current st = Some key \<and> co_timer_key st = None) (Raise ValueError ''start of timers'')
     (Inr (st\<lparr>co_timer_key := Some key, co_snapshots := change key (\<lambda>s. s\<lparr>sn_timers := Some 0\<rparr>) (co_snapshots st)\<rparr>)))"

definition end_timers :: "unicode \<Rightarrow> collection \<Rightarrow> pystr list \<Rightarrow> collection res" where
  "end_timers u st groups =
     bindE (number_of u (groups ! 1)) (\<lambda>cycle.
     require (co_current st = Some (groups ! 0, cycle) \<and> co_timer_key st = co_current st) (Raise ValueError ''end of timers'')
     (bindE (number_of u (groups ! 2)) (\<lambda>error.
      require (error = 0) (Raise ValueError ''end of timers'') (Inr (st\<lparr>co_current := None, co_timer_key := None\<rparr>)))))"

definition count_timer :: "pystr \<Rightarrow> snapshot \<Rightarrow> snapshot" where
  "count_timer name s = s\<lparr>sn_timers := map_option (\<lambda>n. n + 1) (sn_timers s),
     sn_timer_names := AList.update name ((case map_of (sn_timer_names s) name of None \<Rightarrow> 0 | Some n \<Rightarrow> n) + 1) (sn_timer_names s)\<rparr>"

definition timer_line :: "unicode \<Rightarrow> collection \<Rightarrow> key \<Rightarrow> pystr \<Rightarrow> collection res" where
  "timer_line u st key line = (case TIMER_ROW u line of
      Some name \<Rightarrow> Inr (st\<lparr>co_snapshots := change key (count_timer name) (co_snapshots st)\<rparr>)
    | None \<Rightarrow> require (list_all py_space line \<or> line = str ''Timer stats:'' \<or> startswith line (str ''Name ''))
                (Raise ValueError ''timer table'') (Inr st))"

definition resource_prefix :: "pystr \<Rightarrow> bool" where
  "resource_prefix line = list_ex (\<lambda>p. startswith line (str p)) [''EBASE_MQTT_RESOURCE'', ''EBASE_MQTT_TASK'', ''EBASE_MQTT_TIMERS_'']"

definition collect_line :: "unicode \<Rightarrow> collection \<Rightarrow> pystr \<Rightarrow> collection res" where
  "collect_line u st line = (case RESOURCE u line of Some groups \<Rightarrow> begin_snapshot u st groups
      | None \<Rightarrow>
     (case TASK u line of Some groups \<Rightarrow> add_task u st groups
      | None \<Rightarrow>
     (case TIMER_START u line of Some groups \<Rightarrow> begin_timers u st groups
      | None \<Rightarrow>
     (case TIMER_END u line of Some groups \<Rightarrow> end_timers u st groups
      | None \<Rightarrow>
        require (\<not> resource_prefix line) (Raise ValueError ''log format'')
        (case co_timer_key st of None \<Rightarrow> Inr st | Some key \<Rightarrow> timer_line u st key line)))))"

definition collect :: "unicode \<Rightarrow> collection \<Rightarrow> pystr \<Rightarrow> collection res" where
  "collect u st raw = collect_line u st (rstrip (\<lambda>c. c = 13 \<or> c = 10) raw)"

definition parse_log :: "unicode \<Rightarrow> pystr \<Rightarrow> (key \<times> snapshot) list res" where
  "parse_log u content =
     bindE (for_each (collect u) \<lparr>co_snapshots = [], co_current = None, co_timer_key = None\<rparr> (stream_lines [] content)) (\<lambda>st.
     require (co_current st = None \<and> co_timer_key st = None) (Raise ValueError ''log cut off'') (Inr (co_snapshots st)))"


subsection \<open>The summary\<close>

datatype issue = Issue (issue_key: key) (issue_error: string) (issue_task: "pystr option")

record phase_report =
  pr_samples :: nat
  pr_heap_min :: int
  pr_heap_max :: int
  pr_first_median2 :: int
  pr_last_median2 :: int
  pr_largest :: "int list"
  pr_tasks :: "int list"
  pr_sockets :: "int list"
  pr_timers :: "int option list"

record report =
  rp_cycles :: int
  rp_passed :: bool
  rp_issues :: "issue list"
  rp_minimum_stacks :: "(pystr \<times> int) list"
  rp_phases :: "(string \<times> phase_report) list"
  rp_initial_names :: "(pystr \<times> int) list"
  rp_changes :: "(pystr \<times> int) list"
  rp_minimum_heap :: int

definition expected_keys :: "int \<Rightarrow> key list" where
  "expected_keys cycles = (str ''before_create'', 0) # map (\<lambda>n. (str ''destroyed'', n)) [1..cycles] @
     map (\<lambda>n. (str ''requested'', n)) [0..cycles]"

definition names_of :: "snapshot \<Rightarrow> pystr set" where
  "names_of s = set (map fst (sn_task_stacks s))"

definition count_of :: "(pystr \<times> int) list \<Rightarrow> pystr \<Rightarrow> int" where
  "count_of names name = (case map_of names name of None \<Rightarrow> 0 | Some n \<Rightarrow> n)"

definition no_timers :: "snapshot \<Rightarrow> bool" where
  "no_timers s = (sn_timers s = None \<or> sn_timers s = Some 0)"

definition sample_issues :: "snapshot \<Rightarrow> snapshot \<Rightarrow> key \<Rightarrow> snapshot \<Rightarrow> issue list" where
  "sample_issues baseline online key s =
     (let required = (if fst key = str ''requested'' then insert (str ''mqtt_task'') (names_of baseline) else names_of baseline) in
      (if names_of s \<noteq> required \<or> sn_tasks s \<noteq> int (card (names_of s)) then [Issue key ''task_set_changed'' None] else []) @
      (if sn_sockets s \<noteq> sn_sockets baseline + (if fst key = str ''requested'' then 1 else 0) \<or> sn_socket_errors s \<noteq> 0
       then [Issue key ''socket_count_or_scan_error'' None] else []) @
      (if no_timers s \<or> fst key \<noteq> str ''before_create'' \<and>
            list_ex (\<lambda>(name, count). count_of (sn_timer_names online) name < count) (sn_timer_names s)
       then [Issue key ''esp_timer_count_increased_or_missing'' None] else []) @
      concat (map (\<lambda>(name, count). if count < 1024 then [Issue key ''task_stack_below_1024_bytes'' (Some name)] else []) (sn_task_stacks s)))"

definition lower_stack :: "(pystr \<times> int) list \<Rightarrow> pystr \<times> int \<Rightarrow> (pystr \<times> int) list" where
  "lower_stack d = (\<lambda>(name, count). AList.update name (min (case map_of d name of None \<Rightarrow> count | Some n \<Rightarrow> n) count) d)"

definition median2 :: "int list \<Rightarrow> int" where
  "median2 xs = (let s = sort xs; n = length s in
     if odd n then 2 * s ! (n div 2) else s ! (n div 2 - 1) + s ! (n div 2))"

definition sorted_values :: "int list \<Rightarrow> int list" where
  "sorted_values xs = sort (remdups xs)"

definition sorted_timers :: "int option list \<Rightarrow> int option list res" where
  "sorted_timers ts =
     (if None \<notin> set ts then Inr (map Some (sorted_values (map the ts)))
      else require (set ts = {None}) (Raise TypeError ''sorted'') (Inr [None]))"

definition phase_rows :: "(key \<times> snapshot) list \<Rightarrow> string \<Rightarrow> snapshot list" where
  "phase_rows snaps phase = map snd (sort_key (\<lambda>(k, _). snd k) (filter (\<lambda>(k, _). fst k = str phase) snaps))"

definition phase_step :: "(key \<times> snapshot) list \<Rightarrow> (string \<times> phase_report) list \<Rightarrow> string \<Rightarrow> (string \<times> phase_report) list res" where
  "phase_step snaps phases phase =
     (let rows = phase_rows snaps phase; heaps = map sn_heap rows in
      if rows = [] then Inr phases
      else bindE (sorted_timers (map sn_timers rows)) (\<lambda>timers.
        Inr (phases @ [(phase, \<lparr>pr_samples = length rows, pr_heap_min = Min (set heaps), pr_heap_max = Max (set heaps),
          pr_first_median2 = median2 (take 10 heaps), pr_last_median2 = median2 (drop (length heaps - 10) heaps),
          pr_largest = sorted_values (map sn_largest rows), pr_tasks = sorted_values (map sn_tasks rows),
          pr_sockets = sorted_values (map sn_sockets rows), pr_timers = timers\<rparr>)])))"

text \<open>The names of a set union have no order; here those of the baseline come first.\<close>

definition timer_changes :: "snapshot \<Rightarrow> snapshot \<Rightarrow> (pystr \<times> int) list" where
  "timer_changes baseline online =
     (let names = remdups (map fst (sn_timer_names baseline) @ map fst (sn_timer_names online));
          delta = (\<lambda>name. count_of (sn_timer_names online) name - count_of (sn_timer_names baseline) name) in
      map (\<lambda>name. (name, delta name)) (filter (\<lambda>name. delta name \<noteq> 0) names))"

definition summarize_samples :: "(key \<times> snapshot) list \<Rightarrow> int \<Rightarrow> report res" where
  "summarize_samples snaps cycles =
     require (set (map fst snaps) = set (expected_keys cycles)) (Raise ValueError ''set of snapshots'')
     (bindE (of_option (Raise KeyError ''before_create'') (map_of snaps (str ''before_create'', 0))) (\<lambda>baseline.
      bindE (of_option (Raise KeyError ''requested'') (map_of snaps (str ''requested'', 0))) (\<lambda>online.
      require (sn_task_stacks baseline \<noteq> [] \<and> \<not> no_timers baseline) (Raise ValueError ''baseline without facts'')
      (let issues = concat (map (\<lambda>(key, s). sample_issues baseline online key s) snaps) in
       bindE (for_each (phase_step snaps) [] [''destroyed'', ''requested'']) (\<lambda>phases.
       Inr \<lparr>rp_cycles = cycles, rp_passed = (issues = []), rp_issues = issues,
            rp_minimum_stacks = foldl lower_stack [] (concat (map (\<lambda>(_, s). sn_task_stacks s) snaps)),
            rp_phases = phases, rp_initial_names = sn_timer_names online, rp_changes = timer_changes baseline online,
            rp_minimum_heap = Min (set (map (\<lambda>(_, s). sn_min_heap s) snaps))\<rparr>)))))"

text \<open>\<^verbatim>\<open>main\<close>: the exit status and the report; the content is what reading the log gives.\<close>

definition resource_main :: "unicode \<Rightarrow> pystr res \<Rightarrow> int \<Rightarrow> nat \<times> report option" where
  "resource_main u content cycles =
     (if \<not> (0 \<le> cycles \<and> cycles \<le> 100) then (2, None)
      else (case bindE (bindE content (parse_log u)) (\<lambda>snaps. summarize_samples snaps cycles) of
          Inl _ \<Rightarrow> (1, None)
        | Inr r \<Rightarrow> (if rp_passed r then 0 else 1, Some r)))"

subsection \<open>What a collection keeps\<close>

definition counted :: "snapshot \<Rightarrow> bool" where
  "counted s \<longleftrightarrow> sn_timers s = Some (sum_list (map snd (sn_timer_names s)))"

definition shape_ok :: "snapshot \<Rightarrow> bool" where
  "shape_ok s \<longleftrightarrow> distinct (map fst (sn_task_stacks s)) \<and> distinct (map fst (sn_timer_names s)) \<and> (\<forall>n \<in> snd ` set (sn_timer_names s). 1 \<le> n)"

definition sample_ok :: "key option \<Rightarrow> key option \<Rightarrow> key \<Rightarrow> snapshot \<Rightarrow> bool" where
  "sample_ok current timer_key k s \<longleftrightarrow> shape_ok s \<and>
     (if current = Some k \<and> timer_key = None then sn_timers s = None \<and> sn_timer_names s = [] else counted s)"

definition collection_ok :: "collection \<Rightarrow> bool" where
  "collection_ok st \<longleftrightarrow> distinct (map fst (co_snapshots st)) \<and> (co_timer_key st = None \<or> co_timer_key st = co_current st) \<and>
     (\<forall>(k, s) \<in> set (co_snapshots st). sample_ok (co_current st) (co_timer_key st) k s)"

lemma map_fst_change [simp]: "map fst (change k f snaps) = map fst snaps"
  by (induction snaps) (auto simp: change_def)

lemma in_change: "(k', s) \<in> set (change k f snaps) \<longleftrightarrow> (\<exists>s0. (k', s0) \<in> set snaps \<and> s = (if k' = k then f s0 else s0))"
  unfolding change_def by (force simp: image_iff)

lemma sum_update_count:
  "distinct (map fst d) \<Longrightarrow> sum_list (map snd (AList.update k ((case map_of d k of None \<Rightarrow> 0 | Some n \<Rightarrow> n) + 1) d)) = sum_list (map snd d) + (1::int)"
proof (induction d)
  case Nil
  show ?case by simp
next
  case (Cons e d)
  then show ?case
    by (cases e) (auto simp: map_of_eq_None_iff [symmetric] split: option.splits)
qed

lemma update_counts_positive:
  assumes "\<forall>n \<in> snd ` set d. 1 \<le> n"
  shows "\<forall>n \<in> snd ` set (AList.update k ((case map_of d k of None \<Rightarrow> 0 | Some n \<Rightarrow> n) + (1::int)) d). 1 \<le> n"
proof
  fix n
  assume "n \<in> snd ` set (AList.update k ((case map_of d k of None \<Rightarrow> 0 | Some n \<Rightarrow> n) + 1) d)"
  then have "n \<in> snd ` set d \<or> n = (case map_of d k of None \<Rightarrow> 0 | Some n \<Rightarrow> n) + 1"
    by (induction d) (auto split: if_splits)
  moreover have "1 \<le> (case map_of d k of None \<Rightarrow> 0 | Some n \<Rightarrow> n) + (1::int)"
    using assms by (auto split: option.splits dest!: map_of_SomeD)
  ultimately show "1 \<le> n" using assms by auto
qed

lemma count_timer_ok:
  assumes "shape_ok s" "counted s"
  shows "shape_ok (count_timer name s) \<and> counted (count_timer name s)"
proof -
  let ?d = "sn_timer_names s"
  let ?d' = "AList.update name ((case map_of ?d name of None \<Rightarrow> 0 | Some n \<Rightarrow> n) + 1) ?d"
  have d: "distinct (map fst ?d)" "\<forall>n \<in> snd ` set ?d. 1 \<le> n"
    using assms(1) unfolding shape_ok_def by blast+
  have "sn_timer_names (count_timer name s) = ?d'" "sn_task_stacks (count_timer name s) = sn_task_stacks s"
    "sn_timers (count_timer name s) = map_option (\<lambda>n. n + 1) (sn_timers s)"
    by (cases s; simp add: count_timer_def)+
  moreover have "sum_list (map snd ?d') = sum_list (map snd ?d) + 1" "distinct (map fst ?d')" "\<forall>n \<in> snd ` set ?d'. 1 \<le> n"
    using sum_update_count [OF d(1)] distinct_update [OF d(1)] update_counts_positive [OF d(2)] by blast+
  ultimately show ?thesis
    using assms by (simp add: shape_ok_def counted_def)
qed

lemma collection_ok_change:
  assumes "collection_ok st" and "co_timer_key st' = None \<or> co_timer_key st' = co_current st'"
    and "co_snapshots st' = change key f (co_snapshots st)"
    and "\<And>k s. (k, s) \<in> set (co_snapshots st) \<Longrightarrow> sample_ok (co_current st) (co_timer_key st) k s \<Longrightarrow>
      sample_ok (co_current st') (co_timer_key st') k (if k = key then f s else s)"
  shows "collection_ok st'"
proof -
  have old: "distinct (map fst (co_snapshots st))"
    "\<And>k s. (k, s) \<in> set (co_snapshots st) \<Longrightarrow> sample_ok (co_current st) (co_timer_key st) k s"
    using assms(1) by (auto simp: collection_ok_def)
  have "sample_ok (co_current st') (co_timer_key st') k s" if new: "(k, s) \<in> set (co_snapshots st')" for k s
  proof -
    obtain s0 where s0: "(k, s0) \<in> set (co_snapshots st)" "s = (if k = key then f s0 else s0)"
      using new unfolding assms(3) in_change by blast
    show ?thesis
      unfolding s0(2) by (rule assms(4) [OF s0(1) old(2) [OF s0(1)]])
  qed
  then show ?thesis
    using assms(2,3) old(1) by (auto simp: collection_ok_def)
qed

lemma begin_snapshot_keeps:
  assumes "begin_snapshot u st groups = Inr st'" and "collection_ok st"
  shows "collection_ok st'"
proof -
  obtain key and s :: snapshot where new: "co_current st = None" "key \<notin> set (map fst (co_snapshots st))" "sn_task_stacks s = []" "sn_timers s = None"
    "sn_timer_names s = []" "st' = st\<lparr>co_current := Some key, co_snapshots := co_snapshots st @ [(key, s)]\<rparr>"
    using assms(1) unfolding begin_snapshot_def require_eq_Inr bindE_eq_Inr Let_def sum.inject
    by (metis snapshot.select_convs(7,8,9))
  have old: "sample_ok None None k s'" if "(k, s') \<in> set (co_snapshots st)" for k s'
    using assms(2) new(1) that by (auto simp: collection_ok_def)
  have "sample_ok (Some key) None k s'" if "(k, s') \<in> set (co_snapshots st)" for k s'
    using old [OF that] new(2) that by (force simp: sample_ok_def)
  moreover have "sample_ok (Some key) None key s"
    using new(3-5) by (simp add: sample_ok_def shape_ok_def)
  ultimately show ?thesis
    using assms(2) new(1,2,6) by (auto simp: collection_ok_def)
qed

lemma add_task_keeps:
  assumes "add_task u st groups = Inr st'" and "collection_ok st"
  shows "collection_ok st'"
proof -
  obtain key name stack where new: "co_current st = Some key" "co_timer_key st = None" "name \<notin> set (map fst (stacks_of st key))"
    "st' = st\<lparr>co_snapshots := change key (\<lambda>s. s\<lparr>sn_task_stacks := sn_task_stacks s @ [(name, stack)]\<rparr>) (co_snapshots st)\<rparr>"
    using assms(1) by (auto simp: add_task_def res_simps Let_def)
  have fresh: "name \<notin> set (map fst (sn_task_stacks s))" if "(key, s) \<in> set (co_snapshots st)" for s
    using that assms(2) new(3) by (simp add: collection_ok_def stacks_of_def)
  show ?thesis
    by (rule collection_ok_change [OF assms(2), of st' key "\<lambda>s. s\<lparr>sn_task_stacks := sn_task_stacks s @ [(name, stack)]\<rparr>"])
      (use new fresh in \<open>auto simp: sample_ok_def shape_ok_def counted_def\<close>)
qed

lemma begin_timers_keeps:
  assumes "begin_timers u st groups = Inr st'" and "collection_ok st"
  shows "collection_ok st'"
proof -
  obtain key where new: "co_current st = Some key" "co_timer_key st = None"
    "st' = st\<lparr>co_timer_key := Some key, co_snapshots := change key (\<lambda>s. s\<lparr>sn_timers := Some 0\<rparr>) (co_snapshots st)\<rparr>"
    using assms(1) by (auto simp: begin_timers_def res_simps Let_def)
  show ?thesis
    by (rule collection_ok_change [OF assms(2), of st' key "\<lambda>s. s\<lparr>sn_timers := Some 0\<rparr>"])
      (use new in \<open>auto simp: sample_ok_def shape_ok_def counted_def split: if_splits\<close>)
qed

lemma end_timers_keeps:
  assumes "end_timers u st groups = Inr st'" and "collection_ok st"
  shows "collection_ok st'"
proof -
  obtain key where "co_current st = Some key" "co_timer_key st = Some key" "st' = st\<lparr>co_current := None, co_timer_key := None\<rparr>"
    using assms(1) by (auto simp: end_timers_def res_simps Let_def)
  then show ?thesis
    using assms(2) by (auto simp: collection_ok_def sample_ok_def)
qed

lemma timer_line_keeps:
  assumes "timer_line u st key line = Inr st'" and "collection_ok st" and "co_timer_key st = Some key"
  shows "collection_ok st'"
proof (cases "TIMER_ROW u line")
  case None
  then show ?thesis
    using assms(1,2) by (simp add: timer_line_def res_simps)
next
  case (Some name)
  then have st': "st' = st\<lparr>co_snapshots := change key (count_timer name) (co_snapshots st)\<rparr>"
    using assms(1) by (simp add: timer_line_def)
  show ?thesis
    by (rule collection_ok_change [OF assms(2), of st' key "count_timer name"])
      (use st' assms(2,3) count_timer_ok in \<open>auto simp: sample_ok_def collection_ok_def\<close>)
qed

lemma collect_keeps:
  assumes "collect u st raw = Inr st'" and "collection_ok st"
  shows "collection_ok st'"
  using assms begin_snapshot_keeps add_task_keeps begin_timers_keeps end_timers_keeps timer_line_keeps
  by (auto simp: collect_def collect_line_def res_simps split: option.splits)

lemma parsed_samples_complete:
  assumes "parse_log u content = Inr snaps"
  shows "distinct (map fst snaps) \<and> (\<forall>(k, s) \<in> set snaps. shape_ok s \<and> counted s)"
proof -
  obtain st where st: "for_each (collect u) \<lparr>co_snapshots = [], co_current = None, co_timer_key = None\<rparr> (stream_lines [] content) = Inr st"
    "co_current st = None" "snaps = co_snapshots st"
    using assms by (auto simp: parse_log_def res_simps)
  have "collection_ok st"
  proof (rule for_each_inv [OF st(1), where I = "\<lambda>_. collection_ok"])
    show "collection_ok \<lparr>co_snapshots = [], co_current = None, co_timer_key = None\<rparr>"
      by (simp add: collection_ok_def)
  qed (rule collect_keeps)
  then show ?thesis
    using st(2,3) by (auto simp: collection_ok_def sample_ok_def)
qed


text \<open>
  Every snapshot of an accepted log is complete.  The snapshots have distinct keys; in each the task names are
  distinct, the timer table was closed, every listed timer name is distinct and counted at least once, and the number of
  timers is the sum of these counts.  No row of one snapshot is counted in another, whatever lines interleave.
\<close>

theorem parsed_snapshots_complete:
  assumes "parse_log u content = Inr snaps"
  shows "distinct (map fst snaps) \<and> (\<forall>(k, s) \<in> set snaps. distinct (map fst (sn_task_stacks s)) \<and> distinct (map fst (sn_timer_names s)) \<and>
    (\<forall>n \<in> snd ` set (sn_timer_names s). 1 \<le> n) \<and> sn_timers s = Some (sum_list (map snd (sn_timer_names s))))"
  using parsed_samples_complete [OF assms] by (auto simp: shape_ok_def counted_def)

subsection \<open>What a passed report says\<close>

lemma count_of_in: "distinct (map fst d) \<Longrightarrow> (n, c) \<in> set d \<Longrightarrow> count_of d n = c"
  by (simp add: count_of_def)

lemma count_of_nonneg: "\<forall>c \<in> snd ` set d. 1 \<le> c \<Longrightarrow> 0 \<le> count_of d n"
  by (force simp: count_of_def split: option.splits dest!: map_of_SomeD)

lemma count_of_absent: "n \<notin> fst ` set d \<Longrightarrow> count_of d n = 0"
  by (simp add: count_of_def map_of_eq_None_iff [THEN iffD2])

lemma sum_counts:
  assumes "distinct (map fst d)"
  shows "sum_list (map snd d) = (\<Sum>n \<in> fst ` set d. count_of d n)"
proof -
  have "map snd d = map (count_of d) (map fst d)"
    using count_of_in [OF assms] by auto
  then show ?thesis
    by (simp only: sum_list_distinct_conv_sum_set [OF assms] set_map)
qed

lemma sum_counts_mono:
  assumes "distinct (map fst a)" "distinct (map fst b)" "\<forall>c \<in> snd ` set b. 1 \<le> c"
    and "\<forall>(n, c) \<in> set a. c \<le> count_of b n"
  shows "sum_list (map snd a) \<le> sum_list (map snd b)"
proof -
  have "sum_list (map snd a) \<le> (\<Sum>n \<in> fst ` set a. count_of b n)"
    unfolding sum_counts [OF assms(1)] using assms(4) count_of_in [OF assms(1)] by (intro sum_mono) fastforce
  also have "\<dots> = (\<Sum>n \<in> fst ` set a \<inter> fst ` set b. count_of b n)"
    by (intro sum.mono_neutral_right) (auto intro: count_of_absent)
  also have "\<dots> \<le> (\<Sum>n \<in> fst ` set b. count_of b n)"
    using count_of_nonneg [OF assms(3)] by (intro sum_mono2) auto
  finally show ?thesis
    unfolding sum_counts [OF assms(2)] .
qed

lemma lower_stack_bounds:
  "map_of d n = Some m \<Longrightarrow> \<exists>m'. map_of (foldl lower_stack d xs) n = Some m' \<and> m' \<le> m"
proof (induction xs arbitrary: d m)
  case Nil
  then show ?case by simp
next
  case (Cons x xs)
  have "\<exists>m1. map_of (lower_stack d x) n = Some m1 \<and> m1 \<le> m"
    using Cons.prems by (cases "n = fst x") (auto simp: lower_stack_def update_conv' split: prod.splits)
  with Cons.IH show ?case by fastforce
qed

lemma minimum_stack_below:
  assumes "(n, c) \<in> set xs"
  shows "\<exists>m. map_of (foldl lower_stack [] xs) n = Some m \<and> m \<le> c"
proof -
  obtain before after where xs: "xs = before @ (n, c) # after"
    using assms by (meson split_list)
  let ?d = "foldl lower_stack [] before"
  have "map_of (lower_stack ?d (n, c)) n = Some (min (case map_of ?d n of None \<Rightarrow> c | Some m \<Rightarrow> m) c)"
    by (simp add: lower_stack_def update_conv')
  from lower_stack_bounds [OF this, of after] show ?thesis
    unfolding xs by (auto simp: min_le_iff_disj)
qed

definition sample_bounded :: "snapshot \<Rightarrow> snapshot \<Rightarrow> key \<Rightarrow> snapshot \<Rightarrow> bool" where
  "sample_bounded baseline online k s \<longleftrightarrow>
     names_of s = (if fst k = str ''requested'' then insert (str ''mqtt_task'') (names_of baseline) else names_of baseline) \<and> sn_tasks s = int (card (names_of s)) \<and>
     sn_sockets s = sn_sockets baseline + (if fst k = str ''requested'' then 1 else 0) \<and> sn_socket_errors s = 0 \<and>
     (\<forall>(n, c) \<in> set (sn_task_stacks s). 1024 \<le> c) \<and>
     (fst k = str ''before_create'' \<or> (\<exists>a b. sn_timers s = Some a \<and> sn_timers online = Some b \<and> 1 \<le> a \<and> a \<le> b))"

lemma if_singleton_Nil: "(if b then [x] else []) = [] \<longleftrightarrow> \<not> b"
  by simp

lemma stack_issues_Nil:
  "concat (map (\<lambda>(n, c). if c < (1024::int) then [f n] else []) xs) = [] \<longleftrightarrow> (\<forall>(n, c) \<in> set xs. 1024 \<le> c)"
  by (induction xs) (auto split: if_splits)

lemma list_ex_exceeds: "list_ex (\<lambda>(n, c). f n < c) xs \<longleftrightarrow> \<not> (\<forall>(n, c) \<in> set xs. c \<le> (f n :: int))"
  by (induction xs) auto

lemma sample_issues_Nil:
  "sample_issues baseline online k s = [] \<longleftrightarrow>
     names_of s = (if fst k = str ''requested'' then insert (str ''mqtt_task'') (names_of baseline) else names_of baseline) \<and> sn_tasks s = int (card (names_of s)) \<and>
     sn_sockets s = sn_sockets baseline + (if fst k = str ''requested'' then 1 else 0) \<and> sn_socket_errors s = 0 \<and>
     \<not> no_timers s \<and> (fst k = str ''before_create'' \<or> (\<forall>(n, c) \<in> set (sn_timer_names s). c \<le> count_of (sn_timer_names online) n)) \<and>
     (\<forall>(n, c) \<in> set (sn_task_stacks s). 1024 \<le> c)"
  unfolding sample_issues_def Let_def append_is_Nil_conv if_singleton_Nil stack_issues_Nil list_ex_exceeds
  by blast

lemma no_issues_bounded:
  assumes "sample_issues baseline online k s = []" "shape_ok s" "counted s" "shape_ok online" "counted online"
  shows "sample_bounded baseline online k s"
proof -
  let ?sum = "\<lambda>s. sum_list (map snd (sn_timer_names s))"
  have clean: "\<not> no_timers s" "fst k = str ''before_create'' \<or> (\<forall>(n, c) \<in> set (sn_timer_names s). c \<le> count_of (sn_timer_names online) n)"
    using assms(1) unfolding sample_issues_Nil by blast+
  have "?sum s \<le> ?sum online" if "fst k \<noteq> str ''before_create''"
    using assms(2,4) clean(2) that by (intro sum_counts_mono) (simp_all add: shape_ok_def)
  moreover have "?sum s \<noteq> 0"
    using assms(3) clean(1) by (simp add: no_timers_def counted_def)
  moreover have "0 \<le> ?sum s"
    using assms(2) by (intro sum_list_nonneg) (force simp: shape_ok_def)
  ultimately have "fst k = str ''before_create'' \<or> (\<exists>a b. sn_timers s = Some a \<and> sn_timers online = Some b \<and> 1 \<le> a \<and> a \<le> b)"
    using assms(3,5) by (auto simp: counted_def)
  then show ?thesis
    using assms(1) unfolding sample_bounded_def sample_issues_Nil by blast
qed

lemma length_expected_keys: "0 \<le> cycles \<Longrightarrow> card (set (expected_keys cycles)) = 2 * nat cycles + 2"
proof -
  assume "0 \<le> cycles"
  moreover have "distinct (expected_keys cycles)"
    by (auto simp: expected_keys_def distinct_map inj_on_def str_def)
  ultimately show ?thesis
    using distinct_card [of "expected_keys cycles"] by (simp only: expected_keys_def) (simp del: set_append set_map set_simps)
qed

text \<open>
  C16: a passed resource report bounds every sample.  With exit status 0 the log holds exactly the \<^verbatim>\<open>2 * cycles + 2\<close> expected
  snapshots: one before the client is created, one after each of the cycles \<^verbatim>\<open>1..cycles\<close> destroyed it, and one in each of the cycles
  \<^verbatim>\<open>0..cycles\<close> after the request.  In every one of them the tasks are those of the baseline (and the MQTT task while online), there is exactly
  one more socket while online and no scan error, every stack kept 1024 bytes, and after the baseline there are no
  more timers than at the first online sample.  The reported minima are lower bounds of all samples.
\<close>

theorem passed_report_bounds:
  assumes "resource_main u (Inr content) cycles = (0, Some r)"
  shows "\<exists>snaps baseline online. parse_log u content = Inr snaps \<and> length snaps = 2 * nat cycles + 2 \<and> distinct (map fst snaps) \<and>
    set (map fst snaps) = {(str ''before_create'', 0)} \<union> {(str ''destroyed'', n) |n. 1 \<le> n \<and> n \<le> cycles} \<union>
      {(str ''requested'', n) |n. 0 \<le> n \<and> n \<le> cycles} \<and>
    map_of snaps (str ''before_create'', 0) = Some baseline \<and> map_of snaps (str ''requested'', 0) = Some online \<and>
    (\<forall>(k, s) \<in> set snaps. sample_bounded baseline online k s \<and> rp_minimum_heap r \<le> sn_min_heap s \<and>
       (\<forall>(n, c) \<in> set (sn_task_stacks s). \<exists>m. map_of (rp_minimum_stacks r) n = Some m \<and> m \<le> c))"
proof -
  obtain snaps where run: "parse_log u content = Inr snaps" "summarize_samples snaps cycles = Inr r" "rp_passed r" "0 \<le> cycles"
    using assms by (auto simp: resource_main_def res_simps split: if_splits sum.splits)
  obtain baseline online where b: "set (map fst snaps) = set (expected_keys cycles)"
    "map_of snaps (str ''before_create'', 0) = Some baseline" "map_of snaps (str ''requested'', 0) = Some online"
    "rp_passed r = (concat (map (\<lambda>(key, s). sample_issues baseline online key s) snaps) = [])"
    "rp_minimum_stacks r = foldl lower_stack [] (concat (map (\<lambda>(_, s). sn_task_stacks s) snaps))"
    "rp_minimum_heap r = Min (set (map (\<lambda>(_, s). sn_min_heap s) snaps))"
    using run(2) by (auto simp: summarize_samples_def res_simps Let_def)
  have complete: "distinct (map fst snaps)" "\<And>k s. (k, s) \<in> set snaps \<Longrightarrow> shape_ok s \<and> counted s"
    using parsed_samples_complete [OF run(1)] by auto
  have keys: "set (map fst snaps) = {(str ''before_create'', 0)} \<union> {(str ''destroyed'', n) |n. 1 \<le> n \<and> n \<le> cycles} \<union>
      {(str ''requested'', n) |n. 0 \<le> n \<and> n \<le> cycles}"
    unfolding b(1) by (auto simp: expected_keys_def)
  have "length snaps = 2 * nat cycles + 2"
    using distinct_card [OF complete(1)] b(1) length_expected_keys [OF run(4)] by simp
  moreover have "sample_bounded baseline online k s" if "(k, s) \<in> set snaps" for k s
  proof (rule no_issues_bounded)
    show "sample_issues baseline online k s = []"
      using that run(3) b(4) by auto
  qed (use complete(2) that map_of_SomeD [OF b(3)] in blast)+
  moreover have "rp_minimum_heap r \<le> sn_min_heap s" if "(k, s) \<in> set snaps" for k s
    unfolding b(6) using that by (intro Min_le) force+
  moreover have "\<exists>m. map_of (rp_minimum_stacks r) n = Some m \<and> m \<le> c"
    if "(k, s) \<in> set snaps" "(n, c) \<in> set (sn_task_stacks s)" for k s n c
    unfolding b(5) using that by (intro minimum_stack_below, cases k) (auto intro!: bexI [of _ "(k, s)"])
  ultimately have "\<forall>(k, s) \<in> set snaps. sample_bounded baseline online k s \<and> rp_minimum_heap r \<le> sn_min_heap s \<and>
       (\<forall>(n, c) \<in> set (sn_task_stacks s). \<exists>m. map_of (rp_minimum_stacks r) n = Some m \<and> m \<le> c)" "length snaps = 2 * nat cycles + 2"
    by auto
  then show ?thesis
    using run(1) b(2,3) complete(1) keys by (intro exI conjI) assumption+
qed


text \<open>A log of two samples, with ASCII tables.\<close>

definition ascii_tables :: unicode where
  "ascii_tables = \<lparr>word_char = (\<lambda>c. is_ascii_letter c \<or> is_digit c \<or> c = 95),
     digit_of = (\<lambda>c. if is_digit c then Some (int c - 48) else None)\<rparr>"

definition report_lines :: "string list" where
  "report_lines = [''EBASE_MQTT_RESOURCE phase=before_create cycle=0 heap=207404 min_heap=103232 largest=114688 tasks=1 sockets=0 socket_errors=0'',
     ''EBASE_MQTT_TASK phase=before_create cycle=0 name=Tmr Svc stack_bytes=1724'',
     ''EBASE_MQTT_TIMERS_BEGIN phase=before_create cycle=0'',
     ''phy timer 0 1 2 3 4 5'',
     ''EBASE_MQTT_TIMERS_END phase=before_create cycle=0 error=0'',
     ''EBASE_MQTT_RESOURCE phase=requested cycle=0 heap=141360 min_heap=103232 largest=114688 tasks=2 sockets=1 socket_errors=0'',
     ''EBASE_MQTT_TASK phase=requested cycle=0 name=Tmr Svc stack_bytes=1700'',
     ''EBASE_MQTT_TASK phase=requested cycle=0 name=mqtt_task stack_bytes=2696'',
     ''EBASE_MQTT_TIMERS_BEGIN phase=requested cycle=0'',
     ''phy timer 0 1 2 3 4 5'',
     ''EBASE_MQTT_TIMERS_END phase=requested cycle=0 error=0'']"

definition report_content :: pystr where
  "report_content = concat (map (\<lambda>l. str l @ [10]) report_lines)"

lemma stream_line:
  "10 \<notin> set l \<Longrightarrow> 13 \<notin> set l \<Longrightarrow> stream_lines line (l @ 10 # rest) = (line @ l @ [10]) # stream_lines [] rest"
  by (induction l arbitrary: line) auto

lemma report_content_lines: "stream_lines [] report_content = map (\<lambda>l. str l @ [10]) report_lines"
proof -
  have "stream_lines [] (concat (map (\<lambda>l. str l @ [10]) ls)) = map (\<lambda>l. str l @ [10]) ls"
    if "list_all (\<lambda>l. 10 \<notin> set (str l) \<and> 13 \<notin> set (str l)) ls" for ls
    using that by (induction ls) (simp_all add: stream_line)
  moreover have "list_all (\<lambda>l. 10 \<notin> set (str l) \<and> 13 \<notin> set (str l)) report_lines"
    by (simp add: report_lines_def str_def)
  ultimately show ?thesis by (simp add: report_content_def)
qed

lemmas row_simps = rstrip_def str_def digit_char_def ascii_tables_def is_digit_def py_space_def is_ascii_letter_def

lemma rstrip_snoc: "\<not> p x \<Longrightarrow> rstrip p (xs @ [x]) = xs @ [x]"
  by (simp add: rstrip_def)

lemma rstrip_all: "list_all p ys \<Longrightarrow> rstrip p (xs @ ys) = rstrip p xs"
  by (induction ys arbitrary: xs rule: rev_induct) (simp_all add: rstrip_def)

lemma strip_digit:
  assumes "is_digit d" "\<not> py_space c"
  shows "strip_number ascii_tables (Some (xs @ [c, 32, d])) = Some (xs @ [c])"
proof -
  have "rstrip (digit_char ascii_tables) ((xs @ [c, 32]) @ [d]) = rstrip (digit_char ascii_tables) (xs @ [c, 32])"
    using assms(1) by (intro rstrip_all) (simp add: digit_char_def ascii_tables_def)
  moreover have "rstrip (digit_char ascii_tables) ((xs @ [c]) @ [32]) = (xs @ [c]) @ [32]"
    by (rule rstrip_snoc) (simp add: digit_char_def ascii_tables_def is_digit_def)
  moreover have "rstrip py_space ((xs @ [c]) @ [32]) = rstrip py_space (xs @ [c])"
    by (rule rstrip_all) (simp add: py_space_def)
  moreover have "rstrip py_space (xs @ [c]) = xs @ [c]"
    by (rule rstrip_snoc) (rule assms(2))
  ultimately show ?thesis
    by (simp add: strip_number_def Let_def)
qed

lemma six_times: "(f ^^ 6) x = f (f (f (f (f (f x)))))"
  by (simp add: eval_nat_numeral)

lemma timer_row: "TIMER_ROW ascii_tables (str ''phy timer 0 1 2 3 4 5'') = Some (str ''phy timer'')"
proof -
  have row: "str ''phy timer 0 1 2 3 4 5'' = str ''phy time'' @ [114, 32, 48, 32, 49, 32, 50, 32, 51, 32, 52, 32, 53]"
    by (simp add: str_def)
  have strip: "strip_number ascii_tables (Some (str ''phy time'' @ xs @ [c, 32, d])) = Some (str ''phy time'' @ xs @ [c])"
    if "is_digit d" "\<not> py_space c" for xs c d
    using strip_digit [OF that, of "str ''phy time'' @ xs"] by simp
  have "rstrip py_space (str ''phy timer 0 1 2 3 4 5'') = str ''phy timer 0 1 2 3 4 5''"
    by (simp add: row_simps)
  then show ?thesis
    unfolding TIMER_ROW_def row
    using strip [of 53 52 "[114, 32, 48, 32, 49, 32, 50, 32, 51, 32]"] strip [of 52 51 "[114, 32, 48, 32, 49, 32, 50, 32]"]
      strip [of 51 50 "[114, 32, 48, 32, 49, 32]"] strip [of 50 49 "[114, 32, 48, 32]"] strip [of 49 48 "[114, 32]"] strip [of 48 114 "[]"]
    by (simp add: six_times is_digit_def py_space_def str_def)
qed

lemmas pattern_simps = RESOURCE_def TASK_def TIMER_START_def TIMER_END_def line_groups_def word_groups_def head_pattern_def RESOURCE_FIELDS_def startswith_def Let_def row_simps

lemma report_line_1:
  "RESOURCE ascii_tables (str ''EBASE_MQTT_RESOURCE phase=before_create cycle=0 heap=207404 min_heap=103232 largest=114688 tasks=1 sockets=0 socket_errors=0'') = Some (map str [''before_create'', ''0'', ''207404'', ''103232'', ''114688'', ''1'', ''0'', ''0''])"
  by (simp_all add: pattern_simps)

lemma report_line_2:
  "RESOURCE ascii_tables (str ''EBASE_MQTT_TASK phase=before_create cycle=0 name=Tmr Svc stack_bytes=1724'') = None"
  "TASK ascii_tables (str ''EBASE_MQTT_TASK phase=before_create cycle=0 name=Tmr Svc stack_bytes=1724'') = Some (map str [''before_create'', ''0'', ''Tmr Svc'', ''1724''])"
  by (simp_all add: pattern_simps)

lemma report_line_3:
  "RESOURCE ascii_tables (str ''EBASE_MQTT_TIMERS_BEGIN phase=before_create cycle=0'') = None"
  "TASK ascii_tables (str ''EBASE_MQTT_TIMERS_BEGIN phase=before_create cycle=0'') = None"
  "TIMER_START ascii_tables (str ''EBASE_MQTT_TIMERS_BEGIN phase=before_create cycle=0'') = Some (map str [''before_create'', ''0''])"
  by (simp_all add: pattern_simps)

lemma report_line_4:
  "RESOURCE ascii_tables (str ''EBASE_MQTT_TIMERS_END phase=before_create cycle=0 error=0'') = None"
  "TASK ascii_tables (str ''EBASE_MQTT_TIMERS_END phase=before_create cycle=0 error=0'') = None"
  "TIMER_START ascii_tables (str ''EBASE_MQTT_TIMERS_END phase=before_create cycle=0 error=0'') = None"
  "TIMER_END ascii_tables (str ''EBASE_MQTT_TIMERS_END phase=before_create cycle=0 error=0'') = Some (map str [''before_create'', ''0'', ''0''])"
  by (simp_all add: pattern_simps)

lemma report_line_5:
  "RESOURCE ascii_tables (str ''EBASE_MQTT_RESOURCE phase=requested cycle=0 heap=141360 min_heap=103232 largest=114688 tasks=2 sockets=1 socket_errors=0'') = Some (map str [''requested'', ''0'', ''141360'', ''103232'', ''114688'', ''2'', ''1'', ''0''])"
  by (simp_all add: pattern_simps)

lemma report_line_6:
  "RESOURCE ascii_tables (str ''EBASE_MQTT_TASK phase=requested cycle=0 name=Tmr Svc stack_bytes=1700'') = None"
  "TASK ascii_tables (str ''EBASE_MQTT_TASK phase=requested cycle=0 name=Tmr Svc stack_bytes=1700'') = Some (map str [''requested'', ''0'', ''Tmr Svc'', ''1700''])"
  by (simp_all add: pattern_simps)

lemma report_line_7:
  "RESOURCE ascii_tables (str ''EBASE_MQTT_TASK phase=requested cycle=0 name=mqtt_task stack_bytes=2696'') = None"
  "TASK ascii_tables (str ''EBASE_MQTT_TASK phase=requested cycle=0 name=mqtt_task stack_bytes=2696'') = Some (map str [''requested'', ''0'', ''mqtt_task'', ''2696''])"
  by (simp_all add: pattern_simps)

lemma report_line_8:
  "RESOURCE ascii_tables (str ''EBASE_MQTT_TIMERS_BEGIN phase=requested cycle=0'') = None"
  "TASK ascii_tables (str ''EBASE_MQTT_TIMERS_BEGIN phase=requested cycle=0'') = None"
  "TIMER_START ascii_tables (str ''EBASE_MQTT_TIMERS_BEGIN phase=requested cycle=0'') = Some (map str [''requested'', ''0''])"
  by (simp_all add: pattern_simps)

lemma report_line_9:
  "RESOURCE ascii_tables (str ''EBASE_MQTT_TIMERS_END phase=requested cycle=0 error=0'') = None"
  "TASK ascii_tables (str ''EBASE_MQTT_TIMERS_END phase=requested cycle=0 error=0'') = None"
  "TIMER_START ascii_tables (str ''EBASE_MQTT_TIMERS_END phase=requested cycle=0 error=0'') = None"
  "TIMER_END ascii_tables (str ''EBASE_MQTT_TIMERS_END phase=requested cycle=0 error=0'') = Some (map str [''requested'', ''0'', ''0''])"
  by (simp_all add: pattern_simps)

lemma report_line_10:
  "RESOURCE ascii_tables (str ''phy timer 0 1 2 3 4 5'') = None"
  "TASK ascii_tables (str ''phy timer 0 1 2 3 4 5'') = None"
  "TIMER_START ascii_tables (str ''phy timer 0 1 2 3 4 5'') = None"
  "TIMER_END ascii_tables (str ''phy timer 0 1 2 3 4 5'') = None"
  "\<not> resource_prefix (str ''phy timer 0 1 2 3 4 5'')"
  by (simp_all add: pattern_simps resource_prefix_def)

lemma report_numbers:
  "number_of ascii_tables (str ''0'') = Inr 0"
  "number_of ascii_tables (str ''1'') = Inr 1"
  "number_of ascii_tables (str ''2'') = Inr 2"
  "number_of ascii_tables (str ''207404'') = Inr 207404"
  "number_of ascii_tables (str ''103232'') = Inr 103232"
  "number_of ascii_tables (str ''114688'') = Inr 114688"
  "number_of ascii_tables (str ''1724'') = Inr 1724"
  "number_of ascii_tables (str ''141360'') = Inr 141360"
  "number_of ascii_tables (str ''1700'') = Inr 1700"
  "number_of ascii_tables (str ''2696'') = Inr 2696"
  by (simp_all add: number_of_def py_int_def ascii_tables_def is_digit_def str_def)

definition before_create_sample :: snapshot where
  "before_create_sample = \<lparr>sn_heap = 207404, sn_min_heap = 103232, sn_largest = 114688, sn_tasks = 1, sn_sockets = 0, sn_socket_errors = 0,
     sn_task_stacks = [(str ''Tmr Svc'', 1724)], sn_timers = Some 1, sn_timer_names = [(str ''phy timer'', 1)]\<rparr>"

definition requested_sample :: snapshot where
  "requested_sample = \<lparr>sn_heap = 141360, sn_min_heap = 103232, sn_largest = 114688, sn_tasks = 2, sn_sockets = 1, sn_socket_errors = 0,
     sn_task_stacks = [(str ''Tmr Svc'', 1700), (str ''mqtt_task'', 2696)], sn_timers = Some 1, sn_timer_names = [(str ''phy timer'', 1)]\<rparr>"

definition report_samples :: "(key \<times> snapshot) list" where
  "report_samples = [((str ''before_create'', 0), before_create_sample), ((str ''requested'', 0), requested_sample)]"

lemmas collect_simps = collect_line_def begin_snapshot_def add_task_def begin_timers_def end_timers_def timer_line_def count_timer_def stacks_of_def
  change_def Let_def report_numbers timer_row report_line_1 report_line_2 report_line_3 report_line_4 report_line_5 report_line_6 report_line_7
  report_line_8 report_line_9 report_line_10

lemma report_collected:
  "for_each (collect_line ascii_tables) \<lparr>co_snapshots = [], co_current = None, co_timer_key = None\<rparr> (map str report_lines) =
     Inr \<lparr>co_snapshots = report_samples, co_current = None, co_timer_key = None\<rparr>"
  by (simp add: report_lines_def collect_simps report_samples_def before_create_sample_def requested_sample_def str_inj_iff)

lemma report_parsed: "parse_log ascii_tables report_content = Inr report_samples"
proof -
  have "for_each (collect ascii_tables) st (map (\<lambda>l. str l @ [10]) ls) = for_each (collect_line ascii_tables) st (map str ls)"
    if "list_all (\<lambda>l. rstrip (\<lambda>c. c = 13 \<or> c = 10) (str l @ [10]) = str l) ls" for ls st
    using that by (induction ls arbitrary: st) (auto simp: collect_def bindE_def split: sum.splits)
  moreover have "list_all (\<lambda>l. rstrip (\<lambda>c. c = 13 \<or> c = 10) (str l @ [10]) = str l) report_lines"
    by (simp add: report_lines_def rstrip_def str_def)
  ultimately show ?thesis
    by (simp add: parse_log_def report_content_lines report_collected)
qed


theorem parsed_snapshots_complete_witness:
  "parse_log ascii_tables report_content = Inr report_samples \<and> distinct (map fst report_samples) \<and>
     sn_timers requested_sample = Some (sum_list (map snd (sn_timer_names requested_sample)))"
  using report_parsed parsed_snapshots_complete [OF report_parsed] by (auto simp: report_samples_def)

lemma report_rows: "phase_rows report_samples ''destroyed'' = []" "phase_rows report_samples ''requested'' = [requested_sample]"
  by (simp_all add: phase_rows_def report_samples_def str_inj_iff)

lemma report_issues:
  "sample_issues before_create_sample requested_sample (str ''before_create'', 0) before_create_sample = []"
  "sample_issues before_create_sample requested_sample (str ''requested'', 0) requested_sample = []"
  by (simp_all add: sample_issues_def before_create_sample_def requested_sample_def names_of_def no_timers_def count_of_def str_inj_iff insert_commute)

lemma report_passed: "\<exists>r. resource_main ascii_tables (Inr report_content) 0 = (0, Some r) \<and> rp_minimum_heap r = 103232"
proof -
  have "\<exists>r. summarize_samples report_samples 0 = Inr r \<and> rp_passed r \<and> rp_minimum_heap r = 103232"
    using report_issues
    by (simp add: summarize_samples_def phase_step_def report_rows sorted_timers_def Let_def)
      (simp add: report_samples_def expected_keys_def before_create_sample_def requested_sample_def no_timers_def str_inj_iff)
  then show ?thesis
    by (auto simp: resource_main_def report_parsed)
qed

theorem passed_report_bounds_witness:
  "\<exists>r. resource_main ascii_tables (Inr report_content) 0 = (0, Some r) \<and> rp_minimum_heap r = 103232 \<and>
     sample_bounded before_create_sample requested_sample (str ''requested'', 0) requested_sample"
proof -
  obtain r where r: "resource_main ascii_tables (Inr report_content) 0 = (0, Some r)" "rp_minimum_heap r = 103232"
    using report_passed by blast
  with passed_report_bounds [OF r(1)] report_parsed show ?thesis
    by (auto simp: report_samples_def str_inj_iff)
qed

end
