(* ===== verification/Observer_Source.thy ===== *)
theory Observer_Source
  imports Python_Values
begin

text \<open>
  The C source and header of the capacity observer, the constants \<^verbatim>\<open>SOURCE\<close> and \<^verbatim>\<open>HEADER\<close> of
  \<^verbatim>\<open>prepare_capacity_observer.py\<close>, as lists of lines.  Characters outside ASCII are code points.
\<close>

definition SOURCE_LINES_1 :: "pystr list" where
  "SOURCE_LINES_1 = [
     str ''// SPDX-License-Identifier: Apache-2.0'',
     str ''/* '' @ [19968, 27425, 24615, 23454, 39564, 21103, 26412, 65307, 19981, 21462, 24471, 20923, 32467, 29983, 20135, 38236, 20687, 30340, 23481, 37327, 36164, 26684, 12290] @ str '' */'',
     str ''#include \"esp_base_capacity_observer.h\"'',
     str ''#include \"sdkconfig.h\"'',
     str ''#include \"esp_heap_caps.h\"'',
     str ''#include \"freertos/FreeRTOS.h\"'',
     str ''#include \"freertos/task.h\"'',
     str ''#include <inttypes.h>'',
     str ''#include <stdbool.h>'',
     str ''#include <stdio.h>'',
     str ''#include <string.h>'',
     [],
     str ''#if !CONFIG_FREERTOS_USE_TRACE_FACILITY || !CONFIG_FREERTOS_UNICORE || CONFIG_FREERTOS_SMP || !CONFIG_FREERTOS_TASK_PRE_DELETION_HOOK'',
     str ''#error \"Capacity observer requires the explicit non-SMP single-core trace and task cleanup lab build\"'',
     str ''#endif'',
     str ''@@TARGET_GUARD@@'',
     str ''_Static_assert(sizeof(StackType_t) == 1, \"Fixed IDF stack high-water units must be bytes\");'',
     str ''enum { CAPACITY_TASK_LIMIT = 32, CAPACITY_EXIT_LIMIT = 64, CAPACITY_PERIOD_MS = 5000 };'',
     str ''typedef struct {'',
     str ''    char name[configMAX_TASK_NAME_LEN];'',
     str ''    UBaseType_t number, minimum_stack_bytes, priority;'',
     str ''    eTaskState state;'',
     str ''} capacity_task_fact_t;'',
     str ''static TaskStatus_t s_capacity_tasks[CAPACITY_TASK_LIMIT];'',
     str ''static capacity_task_fact_t s_capacity_facts[CAPACITY_TASK_LIMIT];'',
     str ''static uint64_t s_capacity_next_ms;'',
     str ''static bool s_capacity_started;'',
     str ''/* BSS'' @ [31435, 21363, 21487, 25910, 38598] @ str ''app_main'' @ [20043, 21069, 30340, 27491, 24120, 28165, 29702, 65307, 39318] @ str ''poll'' @ [19981, 33021, 28165, 31354, 26089, 26399, 20107, 23454, 12290] @ str '' */'',
     str ''static capacity_task_fact_t s_capacity_exits[CAPACITY_EXIT_LIMIT];'',
     str ''static portMUX_TYPE s_capacity_exit_mux = portMUX_INITIALIZER_UNLOCKED;'',
     str ''static unsigned s_capacity_exit_head, s_capacity_exit_count;'',
     str ''static uint32_t s_capacity_exit_dropped;'',
     [],
     str ''static void copy_fact(capacity_task_fact_t *out, const TaskStatus_t *task)'',
     str ''{'',
     str ''    memset(out, 0, sizeof *out);'',
     str ''    if (task->pcTaskName != NULL) {'',
     str ''        strncpy(out->name, task->pcTaskName, sizeof out->name - 1);'',
     str ''        for (size_t i = 0; out->name[i]; ++i)'',
     str ''            if ((unsigned char)out->name[i] < 0x20 || (unsigned char)out->name[i] > 0x7e)'',
     str ''                out->name[i] = '?';'',
     str ''    }'',
     str ''    if (!out->name[0]) memcpy(out->name, \"unknown\", 8);'',
     str ''    out->number = task->xTaskNumber;'',
     str ''    out->minimum_stack_bytes = task->usStackHighWaterMark;'',
     str ''    out->priority = task->uxCurrentPriority;'',
     str ''    out->state = task->eCurrentState;'',
     str ''}'',
     [],
     str ''void vTaskPreDeletionHook(void *tcb)'',
     str ''{'',
     str ''    /* '' @ [38145, 23450] @ str ''IDF non-SMP cleanup'' @ [24050, 37322, 25918] @ str ''kernel'' @ [38145, 65292, 30446, 26631, 19981, 20877, 36816, 34892, 19988, 26632, 23578, 26410, 37322, 25918, 12290],
     str ''     * eDeleted'' @ [36991, 20813, 26597, 35810, 24050, 31227, 38500, 30340, 29366, 24577, 38142, 34920, 65307, 20165, 22797, 21046, 20107, 23454, 65292, 26080] @ str ''heap/log/TLSP'' @ [12290] @ str '' */'']"

definition SOURCE_LINES_2 :: "pystr list" where
  "SOURCE_LINES_2 = [
     str ''    TaskStatus_t task = {0};'',
     str ''    capacity_task_fact_t fact;'',
     str ''    vTaskGetInfo((TaskHandle_t)tcb, &task, pdTRUE, eDeleted);'',
     str ''    copy_fact(&fact, &task);'',
     str ''    portENTER_CRITICAL(&s_capacity_exit_mux);'',
     str ''    if (s_capacity_exit_count < CAPACITY_EXIT_LIMIT) {'',
     str ''        const unsigned tail = (s_capacity_exit_head + s_capacity_exit_count) % CAPACITY_EXIT_LIMIT;'',
     str ''        s_capacity_exits[tail] = fact;'',
     str ''        ++s_capacity_exit_count;'',
     str ''    } else if (s_capacity_exit_dropped < UINT32_MAX) {'',
     str ''        ++s_capacity_exit_dropped;'',
     str ''    }'',
     str ''    portEXIT_CRITICAL(&s_capacity_exit_mux);'',
     str ''}'',
     [],
     str ''static void flush_exits(void)'',
     str ''{'',
     str ''    flockfile(stdout);'',
     str ''    /* '' @ [26377, 38480] @ str ''control pass'' @ [65306, 25345, 32493, 36864, 20986, 20063, 19981, 33021, 35753, 26412, 27425] @ str ''flush'' @ [26080, 38480, 24310, 38271, 12290] @ str '' */'',
     str ''    for (unsigned i = 0; i < CAPACITY_EXIT_LIMIT; ++i) {'',
     str ''        capacity_task_fact_t fact;'',
     str ''        bool present;'',
     str ''        portENTER_CRITICAL(&s_capacity_exit_mux);'',
     str ''        present = s_capacity_exit_count != 0;'',
     str ''        if (present) {'',
     str ''            fact = s_capacity_exits[s_capacity_exit_head];'',
     str ''            s_capacity_exit_head = (s_capacity_exit_head + 1) % CAPACITY_EXIT_LIMIT;'',
     str ''            --s_capacity_exit_count;'',
     str ''        }'',
     str ''        portEXIT_CRITICAL(&s_capacity_exit_mux);'',
     str ''        if (!present) break;'',
     str ''        printf(\"ESP_BASE_LAB_TASK_EXIT phase=task_predelete task=%s task_number=%u minimum_stack_bytes=%u'' @ [92] @ str ''n\",'',
     str ''               fact.name, (unsigned)fact.number, (unsigned)fact.minimum_stack_bytes);'',
     str ''    }'',
     str ''    portENTER_CRITICAL(&s_capacity_exit_mux);'',
     str ''    const uint32_t dropped = s_capacity_exit_dropped;'',
     str ''    portEXIT_CRITICAL(&s_capacity_exit_mux);'',
     str ''    /* sticky'' @ [19988, 39281, 21644, 65307, 21407] @ str ''parser'' @ [23545, 26410, 30693] @ str ''ESP_BASE_LAB_'' @ [34892, 20351, 25972, 36718, 22833, 26684, 12290] @ str '' */'',
     str ''    if (dropped != 0)'',
     str ''        printf(\"ESP_BASE_LAB_TASK_EXIT_OVERFLOW dropped=%\" PRIu32 \" limit=64'' @ [92] @ str ''n\", dropped);'',
     str ''    fflush(stdout);'',
     str ''    funlockfile(stdout);'',
     str ''}'',
     [],
     str ''void esp_base_capacity_observer_poll(uint64_t now_ms)'',
     str ''{'',
     str ''    if (!s_capacity_started) {'',
     str ''        puts(\"ESP_BASE_CAPACITY_OBSERVER LAB_ONLY target=@@TARGET@@ period_ms=5000\"'',
     str ''             \" task_limit=32 exit_limit=64 other_capability_domains=unmeasured\"'',
     str ''             \" worker_exit_coverage=ota_before_done_and_normal_task_cleanup\"'',
     str ''             \" uncaptured_exits=reset_panic_before_cleanup non_task_stacks=unmeasured\"'',
     str ''             \" largest_history=unmeasured full_peak_qualification=0\"'',
     str ''             \" frozen_signed_image_qualification=0 observation_cost_added_back=0\");'']"

definition SOURCE_LINES_3 :: "pystr list" where
  "SOURCE_LINES_3 = [
     str ''    }'',
     str ''    flush_exits();'',
     str ''    if (s_capacity_started && now_ms < s_capacity_next_ms) return;'',
     str ''    s_capacity_started = true;'',
     str ''    s_capacity_next_ms = now_ms <= UINT64_MAX - CAPACITY_PERIOD_MS ?'',
     str ''        now_ms + CAPACITY_PERIOD_MS : UINT64_MAX;'',
     str ''    const unsigned caps = MALLOC_CAP_INTERNAL | MALLOC_CAP_8BIT;'',
     str ''    const size_t free_bytes = heap_caps_get_free_size(caps);'',
     str ''    const size_t min_bytes = heap_caps_get_minimum_free_size(caps);'',
     str ''    const size_t largest_bytes = heap_caps_get_largest_free_block(caps);'',
     str ''    const UBaseType_t control_stack_bytes = uxTaskGetStackHighWaterMark(NULL);'',
     str ''    /* '' @ [22266, 23450, 21333, 26680, 65306, 21517, 23383] @ str ''/'' @ [32534, 21495] @ str ''/'' @ [26368, 20302, 26632, 24517, 39035, 22312, 24674, 22797, 35843, 24230, 21069, 22797, 21046, 65307, 26085, 24535, 19981, 20511, 29992] @ str ''TCB'' @ [25351, 38024, 12290] @ str '' */'',
     str ''    vTaskSuspendAll();'',
     str ''    const UBaseType_t expected = uxTaskGetNumberOfTasks();'',
     str ''    UBaseType_t captured = expected <= CAPACITY_TASK_LIMIT ?'',
     str ''        uxTaskGetSystemState(s_capacity_tasks, CAPACITY_TASK_LIMIT, NULL) : 0;'',
     str ''    if (captured > CAPACITY_TASK_LIMIT) captured = 0;'',
     str ''    for (UBaseType_t i = 0; i < captured; ++i) copy_fact(&s_capacity_facts[i], &s_capacity_tasks[i]);'',
     str ''    (void)xTaskResumeAll();'',
     str ''    flockfile(stdout);'',
     str ''    printf(\"ESP_BASE_LAB_MEMORY uptime_ms=%\" PRIu64 \" free_bytes=%zu min_bytes=%zu\"'',
     str ''           \" largest_bytes=%zu control_stack_min_bytes=%u'' @ [92] @ str ''n\", now_ms, free_bytes,'',
     str ''           min_bytes, largest_bytes, (unsigned)control_stack_bytes);'',
     str ''    printf(\"ESP_BASE_LAB_TASKS uptime_ms=%\" PRIu64 \" expected=%u captured=%u workspace_bytes=%zu'' @ [92] @ str ''n\",'',
     str ''           now_ms, (unsigned)expected, (unsigned)captured,'',
     str ''           sizeof s_capacity_tasks + sizeof s_capacity_facts + sizeof s_capacity_next_ms + sizeof s_capacity_started +'',
     str ''           sizeof s_capacity_exits + sizeof s_capacity_exit_mux + sizeof s_capacity_exit_head +'',
     str ''           sizeof s_capacity_exit_count + sizeof s_capacity_exit_dropped);'',
     str ''    for (UBaseType_t i = 0; i < captured; ++i) {'',
     str ''        const capacity_task_fact_t *fact = &s_capacity_facts[i];'',
     str ''        printf(\"ESP_BASE_LAB_TASK uptime_ms=%\" PRIu64 \" task=%s task_number=%u\"'',
     str ''               \" minimum_stack_bytes=%u priority=%u state=%u'' @ [92] @ str ''n\", now_ms, fact->name,'',
     str ''               (unsigned)fact->number, (unsigned)fact->minimum_stack_bytes,'',
     str ''               (unsigned)fact->priority, (unsigned)fact->state);'',
     str ''    }'',
     str ''    fflush(stdout);'',
     str ''    funlockfile(stdout);'',
     str ''}'',
     [],
     str ''void esp_base_capacity_observer_ota_exit(void)'',
     str ''{'',
     str ''    TaskStatus_t task = {0};'',
     str ''    capacity_task_fact_t fact;'',
     str ''    vTaskSuspendAll();'',
     str ''    vTaskGetInfo(NULL, &task, pdTRUE, eInvalid);'',
     str ''    copy_fact(&fact, &task);'',
     str ''    (void)xTaskResumeAll();'',
     str ''    flockfile(stdout);'',
     str ''    printf(\"ESP_BASE_LAB_TASK_EXIT phase=ota_worker_exit task=%s task_number=%u minimum_stack_bytes=%u'' @ [92] @ str ''n\",'',
     str ''           fact.name, (unsigned)fact.number, (unsigned)fact.minimum_stack_bytes);'',
     str ''    fflush(stdout);'',
     str ''    funlockfile(stdout);'',
     str ''}'']"

definition HEADER_LINES :: "pystr list" where
  "HEADER_LINES = [
     str ''// SPDX-License-Identifier: Apache-2.0'',
     str ''#pragma once'',
     str ''#include <stdint.h>'',
     str ''void esp_base_capacity_observer_poll(uint64_t now_ms);'',
     str ''void esp_base_capacity_observer_ota_exit(void);'']"

definition text_of_lines :: "pystr list \<Rightarrow> pystr" where
  "text_of_lines ls = concat (map (\<lambda>l. l @ [10]) ls)"

definition SOURCE :: pystr where
  "SOURCE = text_of_lines (SOURCE_LINES_1 @ SOURCE_LINES_2 @ SOURCE_LINES_3)"

definition HEADER :: pystr where
  "HEADER = text_of_lines HEADER_LINES"

end
