(* ===== verification/Observer_Build.thy ===== *)
theory Observer_Build
  imports Build_Identity Observer_Source "HOL-Library.Sublist" "HOL-Library.AList"
begin

text \<open>
  The preparation of a source copy for the laboratory capacity observer (\<^verbatim>\<open>prepare_capacity_observer.py\<close>): the checks of
  the copy against the frozen baseline, the insertions into three sources, the generated files, and the ordered writes
  with the receipt at the end.

  The copy is a map from relative paths to nodes; what the operating system says beyond that (owner, links, whether a file
  changed while it was read, where a path resolves) is the record \<open>observer_env\<close>, with \<^verbatim>\<open>json.loads\<close> and
  \<^verbatim>\<open>difflib.unified_diff\<close> as parameters.

  Properties: a prepared copy differs from the baseline by insertions and new files only, and its receipt is written last.
\<close>

abbreviation preparation :: "string \<Rightarrow> exn" where
  "preparation t \<equiv> Raise PreparationError t"

subsection \<open>Texts\<close>

text \<open>\<^verbatim>\<open>s.count(pat)\<close> and \<^verbatim>\<open>s.replace(pat, new)\<close> of a non-empty \<open>pat\<close>.\<close>

function count_sub :: "'a list \<Rightarrow> 'a list \<Rightarrow> nat" where
  "count_sub pat s =
     (if s = [] \<or> pat = [] then 0
      else if take (length pat) s = pat then Suc (count_sub pat (drop (length pat) s))
      else count_sub pat (tl s))"
  by pat_completeness auto
termination
  by (relation "measure (\<lambda>(pat, s). length s)") (auto simp: neq_Nil_conv)

function replace_sub :: "'a list \<Rightarrow> 'a list \<Rightarrow> 'a list \<Rightarrow> 'a list" where
  "replace_sub pat new s =
     (if s = [] \<or> pat = [] then s
      else if take (length pat) s = pat then new @ replace_sub pat new (drop (length pat) s)
      else hd s # replace_sub pat new (tl s))"
  by pat_completeness auto
termination
  by (relation "measure (\<lambda>(pat, new, s). length s)") (auto simp: neq_Nil_conv)

declare count_sub.simps [simp del] replace_sub.simps [simp del]

text \<open>
  \<^verbatim>\<open>re.findall(rb"(?m)^PRE(CLASS+)SUF$", s)\<close> where no character of \<^verbatim>\<open>SUF\<close> is in \<^verbatim>\<open>CLASS\<close>, so that a match takes all
  characters of the class; \<open>start\<close> says that a line starts here.
\<close>

function find_groups :: "bytes \<Rightarrow> (8 word \<Rightarrow> bool) \<Rightarrow> bytes \<Rightarrow> bool \<Rightarrow> bytes \<Rightarrow> bytes list" where
  "find_groups pre ok suf start [] = []"
| "find_groups pre ok suf start (b # bs) =
     (let group = takeWhile ok (drop (length pre) (b # bs)); rest = drop (length pre + length group) (b # bs);
          after = drop (length suf) rest in
      if start \<and> take (length pre) (b # bs) = pre \<and> group \<noteq> [] \<and> take (length suf) rest = suf \<and> (after = [] \<or> hd after = 10)
      then group # find_groups pre ok suf False after
      else find_groups pre ok suf (b = 10) bs)"
  by pat_completeness auto
termination
proof (relation "measure (\<lambda>(pre, ok, suf, start, s). length s)")
  fix pre suf bs group rest after :: bytes and ok start and b :: "8 word"
  assume "group = takeWhile ok (drop (length pre) (b # bs))" "rest = drop (length pre + length group) (b # bs)"
    "after = drop (length suf) rest"
    "start \<and> take (length pre) (b # bs) = pre \<and> group \<noteq> [] \<and> take (length suf) rest = suf \<and> (after = [] \<or> hd after = 10)"
  then have "length after < length (b # bs)"
    by (cases group) auto
  then show "((pre, ok, suf, False, after), (pre, ok, suf, start, b # bs)) \<in> measure (\<lambda>(pre, ok, suf, start, s). length s)"
    by simp
qed auto

definition word_byte :: "8 word \<Rightarrow> bool" where
  "word_byte b = (let c = unat b in is_ascii_letter c \<or> is_digit c \<or> c = 95)"

text \<open>\<^verbatim>\<open>s.splitlines(True)\<close>: the lines with their ends; \<open>line\<close> is the current line so far.\<close>

definition line_break :: "nat \<Rightarrow> bool" where
  "line_break c = (c \<in> {10, 11, 12, 13, 28, 29, 30, 0x85, 0x2028, 0x2029})"

fun split_keeping_ends :: "pystr \<Rightarrow> pystr \<Rightarrow> pystr list" where
  "split_keeping_ends line [] = (if line = [] then [] else [line])"
| "split_keeping_ends line (c # cs) =
     (if \<not> line_break c then split_keeping_ends (line @ [c]) cs
      else if c = 13 \<and> take 1 cs = [10] then (line @ [13, 10]) # split_keeping_ends [] (drop 1 cs)
      else (line @ [c]) # split_keeping_ends [] cs)"

definition lines_keeping_ends :: "pystr \<Rightarrow> pystr list" where
  "lines_keeping_ends s = split_keeping_ends [] s"

text \<open>\<^verbatim>\<open>json.dumps(v, ensure_ascii=False, indent=2)\<close> of a value whose keys are sorted; \<open>n\<close> is the depth.\<close>

definition raw_str :: "pystr \<Rightarrow> pystr" where
  "raw_str s = [34] @ concat (map raw_char s) @ [34]"

definition new_line :: "nat \<Rightarrow> pystr" where
  "new_line n = 10 # replicate (2 * n) 32"

definition block :: "nat \<Rightarrow> nat \<Rightarrow> nat \<Rightarrow> pystr list \<Rightarrow> pystr" where
  "block n left right items = (if items = [] then [left, right]
     else left # new_line (Suc n) @ hd items @ concat (map (\<lambda>item. 44 # new_line (Suc n) @ item) (tl items)) @ new_line n @ [right])"

fun json_indent :: "nat \<Rightarrow> pyval \<Rightarrow> pystr"
  and indent_items :: "nat \<Rightarrow> pyval list \<Rightarrow> pystr list"
  and indent_pairs :: "nat \<Rightarrow> (pystr \<times> pyval) list \<Rightarrow> pystr list" where
  "json_indent n (PStr s) = raw_str s"
| "json_indent n (PList vs) = block n 91 93 (indent_items (Suc n) vs)"
| "json_indent n (PDict d) = block n 123 125 (indent_pairs (Suc n) d)"
| "json_indent n v = json_dumps v"
| "indent_items n [] = []"
| "indent_items n (v # vs) = json_indent n v # indent_items n vs"
| "indent_pairs n [] = []"
| "indent_pairs n ((k, v) # d) = (raw_str k @ str '': '' @ json_indent n v) # indent_pairs n d"

subsection \<open>Names and anchors\<close>

definition PROTOCOL :: string where "PROTOCOL = ''firmware/components/device_protocol/esp_base_protocol.c''"
definition CMAKE :: string where "CMAKE = ''firmware/components/device_protocol/CMakeLists.txt''"
definition FIRMWARE_CMAKE :: string where "FIRMWARE_CMAKE = ''firmware/CMakeLists.txt''"
definition OBSERVER_C :: string where "OBSERVER_C = ''firmware/components/device_protocol/esp_base_capacity_observer.c''"
definition OBSERVER_H :: string where "OBSERVER_H = ''firmware/components/device_protocol/esp_base_capacity_observer.h''"
definition DEFAULTS :: string where "DEFAULTS = ''capacity_observer_lab.defaults''"
definition PATCH :: string where "PATCH = ''capacity_observer_patch.diff''"
definition RECEIPT :: string where "RECEIPT = ''capacity_observer_receipt.json''"
definition MAIN_C :: string where "MAIN_C = ''firmware/apps/esp_base/main/esp_base_main.c''"

lemmas path_defs = PROTOCOL_def CMAKE_def FIRMWARE_CMAKE_def OBSERVER_C_def OBSERVER_H_def DEFAULTS_def PATCH_def RECEIPT_def MAIN_C_def

definition INCLUDE_ANCHOR :: pystr where
  "INCLUDE_ANCHOR = str ''#include \"control_state.h\"'' @ [10]"

definition CONTROL_ANCHOR :: pystr where
  "CONTROL_ANCHOR = str ''        esp_base_control_state_note_progress(&s_control_state);'' @ [10]"

definition EXIT_ANCHOR :: pystr where
  "EXIT_ANCHOR = str ''    atomic_store_explicit(&s_ota_result, result, memory_order_relaxed);'' @ [10]"

definition CMAKE_ANCHOR :: pystr where
  "CMAKE_ANCHOR = str ''    SRCS \"esp_base_capacity.c\" \"flash_observation.c\" \"esp_base_protocol.c\"''"

definition VERSION_ANCHOR :: pystr where
  "VERSION_ANCHOR = str ''    set(ESP_BASE_VERSION_SUFFIX \"\")''"

definition upper_name :: "target \<Rightarrow> string" where
  "upper_name t = (case t of Esp32c3 \<Rightarrow> ''ESP32C3'' | Esp32 \<Rightarrow> ''ESP32'')"

definition target_guard :: "target \<Rightarrow> pystr" where
  "target_guard t = str ''#if !defined(CONFIG_IDF_TARGET_'' @ str (upper_name t) @ str '') || !CONFIG_IDF_TARGET_'' @ str (upper_name t) @ [10] @
     str ''#error \"Prepared capacity observer target mismatch\"'' @ [10] @ str ''#endif''"

definition cmake_guard :: "target \<Rightarrow> pystr" where
  "cmake_guard t = text_of_lines
     [str ''if(NOT CMAKE_BUILD_EARLY_EXPANSION)'',
      str ''    if(NOT ESP_BASE_CAPACITY_OBSERVER_LAB OR NOT CONFIG_FREERTOS_USE_TRACE_FACILITY OR NOT CONFIG_FREERTOS_TASK_PRE_DELETION_HOOK OR CONFIG_FREERTOS_SMP)'',
      str ''        message(FATAL_ERROR \"LAB_ONLY capacity observer requires explicit lab flag, non-SMP trace and task cleanup defaults; never release\")'',
      str ''    endif()'',
      str ''    if(NOT IDF_TARGET STREQUAL \"'' @ str (target_name t) @ str ''\")'',
      str ''        message(FATAL_ERROR \"Capacity observer target differs from prepared receipt\")'',
      str ''    endif()'',
      str ''endif()'']"

definition DEFAULTS_TEXT :: pystr where
  "DEFAULTS_TEXT = text_of_lines [str ''# LAB_ONLY; only for the independent observer build.'', str ''CONFIG_FREERTOS_USE_TRACE_FACILITY=y'',
     str ''CONFIG_FREERTOS_TASK_PRE_DELETION_HOOK=y'']"

subsection \<open>The insertions\<close>

definition protocol_source :: "pystr \<Rightarrow> pystr" where
  "protocol_source protocol =
     (let a = replace_sub INCLUDE_ANCHOR (INCLUDE_ANCHOR @ str ''#include \"esp_base_capacity_observer.h\"'' @ [10]) protocol;
          b = replace_sub CONTROL_ANCHOR (str ''        esp_base_capacity_observer_poll(uptime_ms());'' @ [10] @ CONTROL_ANCHOR) a in
      replace_sub EXIT_ANCHOR (str ''    esp_base_capacity_observer_ota_exit();'' @ [10] @ EXIT_ANCHOR) b)"

definition cmake_source :: "target \<Rightarrow> pystr \<Rightarrow> pystr" where
  "cmake_source t cmake = cmake_guard t @ replace_sub CMAKE_ANCHOR (CMAKE_ANCHOR @ str '' \"esp_base_capacity_observer.c\"'') cmake"

definition firmware_cmake_source :: "pystr \<Rightarrow> pystr" where
  "firmware_cmake_source text = replace_sub VERSION_ANCHOR (str ''    set(ESP_BASE_VERSION_SUFFIX \"-capacity-lab\")'') text"

definition observer_source :: "target \<Rightarrow> pystr" where
  "observer_source t = replace_sub (str ''@@TARGET@@'') (str (target_name t)) (replace_sub (str ''@@TARGET_GUARD@@'') (target_guard t) SOURCE)"

definition anchors_unique :: "pystr \<Rightarrow> pystr \<Rightarrow> pystr \<Rightarrow> bool" where
  "anchors_unique protocol cmake firmware_cmake =
     (list_all (\<lambda>anchor. count_sub anchor protocol = 1) [INCLUDE_ANCHOR, CONTROL_ANCHOR, EXIT_ANCHOR] \<and>
      count_sub CMAKE_ANCHOR cmake = 1 \<and> count_sub VERSION_ANCHOR firmware_cmake = 1)"


subsection \<open>The copy and what the system says about it\<close>

type_synonym tree = "pystr \<Rightarrow> node"

record source_root =
  ro_link :: bool
  ro_directory :: "bool res"
  ro_own :: bool
  ro_mode :: nat
  ro_git_above :: bool
  ro_intersects :: "bool res"
  ro_walk :: "(bool \<times> bool) list"

record observer_env =
  ob_root :: source_root
  ob_root_text :: pystr
  ob_frozen_roots :: nat
  ob_baseline :: "bytes res"
  ob_loads :: "bytes \<Rightarrow> pyval res"
  ob_is_canonical :: "pystr \<Rightarrow> bool res"
  ob_inside :: "pystr \<Rightarrow> bool res"
  ob_canonical :: "pystr \<Rightarrow> bytes res"
  ob_links :: "pystr \<Rightarrow> nat"
  ob_stable :: "pystr \<Rightarrow> bool"
  ob_link_exists :: "pystr \<Rightarrow> bool"
  ob_diff :: "pystr list \<Rightarrow> pystr list \<Rightarrow> pystr \<Rightarrow> pystr list"

definition MAXIMUM :: nat where
  "MAXIMUM = 2 * 1024 * 1024"

definition read_input :: "observer_env \<Rightarrow> tree \<Rightarrow> pystr \<Rightarrow> bytes res" where
  "read_input env tree path = (case tree path of
      File raw \<Rightarrow>
        require (length raw \<le> MAXIMUM \<and> ob_links env path = 1) (preparation ''not an independent regular file'')
        (require (ob_stable env path) (preparation ''input changed while reading'') (Inr raw))
    | Directory \<Rightarrow> Inl (preparation ''not an independent regular file'')
    | _ \<Rightarrow> Inl (Raise OSError ''open''))"

definition safe_source :: "source_root \<Rightarrow> unit res" where
  "safe_source root =
     require (\<not> ro_link root) (preparation ''root is a link'')
     (bindE (ro_directory root) (\<lambda>d. require d (preparation ''root is not a directory'')
      (require (ro_own root \<and> ro_mode root AND 63 = 0) (preparation ''root is not private'')
      (require (\<not> ro_git_above root) (preparation ''root inside a repository'')
      (bindE (ro_intersects root) (\<lambda>i. require (\<not> i) (preparation ''root meets a frozen source'')
       (for_each (\<lambda>_ (git, linked).
          require (\<not> git) (preparation ''nested repository'') (require (\<not> linked) (preparation ''linked directory'') (Inr ())))
        () (ro_walk root))))))))"

text \<open>\<^verbatim>\<open>write_file\<close> with its readback; an error after truncation leaves the new bytes in place.\<close>

definition write_node :: "observer_env \<Rightarrow> tree \<Rightarrow> pystr \<Rightarrow> bytes \<Rightarrow> bool \<Rightarrow> unit res \<times> tree" where
  "write_node env tree path raw new =
     (let written = (case read_input env (tree(path := File raw)) path of
          Inl e \<Rightarrow> (Inl e, tree(path := File raw))
        | Inr back \<Rightarrow> (require (back = raw) (preparation ''readback differs'') (Inr ()), tree(path := File raw))) in
      case tree path of
        Absent \<Rightarrow> if \<not> new then (Inl (Raise OSError ''open''), tree)
          else if ob_links env path \<noteq> 1 then (Inl (preparation ''output is not independent''), tree(path := File [])) else written
      | File _ \<Rightarrow> if new then (Inl (Raise OSError ''exists''), tree)
          else if ob_links env path \<noteq> 1 then (Inl (preparation ''output is not independent''), tree) else written
      | _ \<Rightarrow> (Inl (Raise OSError ''open''), tree))"

fun write_nodes :: "observer_env \<Rightarrow> tree \<Rightarrow> (pystr \<times> bytes \<times> bool) list \<Rightarrow> unit res \<times> tree" where
  "write_nodes env tree [] = (Inr (), tree)"
| "write_nodes env tree ((path, raw, new) # rest) = (case write_node env tree path raw new of
      (Inl e, tree') \<Rightarrow> (Inl e, tree')
    | (Inr _, tree') \<Rightarrow> write_nodes env tree' rest)"

subsection \<open>The baseline\<close>

definition caught_baseline :: "exn \<Rightarrow> bool" where
  "caught_baseline e = (exc e \<in> {ValueError, UnicodeError, KeyError, TypeError})"

text \<open>The members the baseline receipt lists.\<close>

definition baseline_members :: "observer_env \<Rightarrow> bytes \<Rightarrow> pyval list res" where
  "baseline_members env raw = reraise caught_baseline (preparation ''baseline receipt'')
     (bindE (ob_loads env raw) (\<lambda>v.
      bindE (as_dict (preparation ''source_inputs'') v) (\<lambda>d.
      bindE (of_option (preparation ''source_inputs'') (map_of d (str ''source_inputs''))) (\<lambda>i.
      bindE (as_dict (preparation ''source_inputs'') i) (\<lambda>inputs.
      bindE (of_option (preparation ''source_root'') (map_of inputs (str ''source_root''))) (\<lambda>r.
      bindE (as_text (preparation ''source_root'') r) (\<lambda>root.
      bindE (ob_is_canonical env root) (\<lambda>canonical. require canonical (preparation ''another source root'')
      (bindE (py_getitem inputs ''files'') (\<lambda>members.
       case members of
         PList (m # ms) \<Rightarrow> Inr (m # ms)
       | _ \<Rightarrow> Inl (preparation ''production inputs'')))))))))))"

definition relative_path :: "pystr \<Rightarrow> bool" where
  "relative_path path = list_all (\<lambda>part. part \<notin> {[], str ''.'', str ''..''}) (split_on 47 path)"

definition member_fields :: "pyval \<Rightarrow> (pystr \<times> pystr \<times> nat) res" where
  "member_fields member =
     (let bad = preparation ''baseline member'' in
      bindE (as_dict bad member) (\<lambda>d.
      require (keys_are d [''path'', ''sha256'', ''size_bytes'']) bad
      (case (map_of d (str ''path''), map_of d (str ''sha256''), map_of d (str ''size_bytes'')) of
         (Some (PStr path), Some (PStr sha), Some (PInt size_bytes)) \<Rightarrow>
           require (path \<noteq> [] \<and> lower_hex_text 64 sha \<and> 0 \<le> size_bytes \<and> size_bytes \<le> int MAXIMUM) bad
             (Inr (path, sha, nat size_bytes))
       | _ \<Rightarrow> Inl bad)))"

definition laboratory_marks :: "bytes \<Rightarrow> bool" where
  "laboratory_marks raw = list_ex (\<lambda>mark. contains (ascii mark) raw) [''ESP_BASE_LAB_ONLY'', ''ESP_BASE_LAB_MEMORY'', ''esp_base_capacity_observer'']"

definition check_member :: "observer_env \<Rightarrow> tree \<Rightarrow> (pystr \<times> bytes) list \<Rightarrow> pyval \<Rightarrow> (pystr \<times> bytes) list res" where
  "check_member env tree before member =
     bindE (member_fields member) (\<lambda>(path, sha, size_bytes).
     require (relative_path path \<and> path \<notin> set (map fst before)) (preparation ''baseline path'')
     (bindE (ob_inside env path) (\<lambda>inside. require inside (preparation ''member outside the copy'')
      (bindE (read_input env tree path) (\<lambda>raw.
       require (digest raw = sha \<and> length raw = size_bytes) (preparation ''copy differs from the baseline'')
       (bindE (ob_canonical env path) (\<lambda>canonical. require (raw = canonical) (preparation ''copy differs from the baseline'')
        (require (path \<in> set (map str [PROTOCOL, CMAKE, FIRMWARE_CMAKE, MAIN_C]) \<longrightarrow> \<not> laboratory_marks raw)
          (preparation ''source already has laboratory inputs'')
         (Inr (before @ [(path, raw)]))))))))))"

definition member_of :: "(pystr \<times> bytes) list \<Rightarrow> string \<Rightarrow> bytes res" where
  "member_of before name = of_option (preparation ''baseline without required inputs'') (map_of before (str name))"

definition product_version :: "observer_env \<Rightarrow> bytes \<Rightarrow> pystr res" where
  "product_version env raw =
     bindE (ob_loads env raw) (\<lambda>release. case release of
       PDict d \<Rightarrow> (case map_of d (str ''version'') of
          Some (PStr version) \<Rightarrow> require (keys_are d [''version''] \<and> version_text version) (preparation ''product version'') (Inr version)
        | _ \<Rightarrow> Inl (preparation ''product version''))
     | _ \<Rightarrow> Inl (preparation ''product version''))"

definition selected_lock :: "target \<Rightarrow> string" where
  "selected_lock t = (if t = Esp32 then ''firmware/dependencies.lock.esp32'' else ''firmware/dependencies.lock'')"

definition check_lock :: "target \<Rightarrow> (pystr \<times> bytes) list \<Rightarrow> unit res" where
  "check_lock t before = (case map_of before (str (selected_lock t)) of
      Some raw \<Rightarrow> require (find_groups (ascii ''target: '') word_byte [] True raw = [ascii (target_name t)]) (preparation ''target differs from the lock'') (Inr ())
    | None \<Rightarrow> Inl (preparation ''target differs from the lock''))"

definition sdkconfig_path :: string where
  "sdkconfig_path = ''firmware/sdkconfig''"

definition check_sdkconfig :: "observer_env \<Rightarrow> tree \<Rightarrow> target \<Rightarrow> unit res" where
  "check_sdkconfig env tree t =
     (let path = str sdkconfig_path in
      if tree path = Absent \<or> tree path = Link \<and> \<not> ob_link_exists env path then Inr ()
      else bindE (read_input env tree path) (\<lambda>config.
        require (find_groups (ascii ''CONFIG_IDF_TARGET=\"'') (\<lambda>b. b \<noteq> 34) [34] True config = [ascii (target_name t)]) (preparation ''sdkconfig of another target'')
        (require (\<not> list_ex (\<lambda>mark. contains (ascii mark) config)
            [''CONFIG_FREERTOS_USE_TRACE_FACILITY=y'', ''CONFIG_FREERTOS_TASK_PRE_DELETION_HOOK=y'', ''CONFIG_EMQTT_PLAINTEXT_LAB=y''])
          (preparation ''sdkconfig of a laboratory build'') (Inr ()))))"

definition new_names :: "string list" where
  "new_names = [OBSERVER_C, OBSERVER_H, DEFAULTS, PATCH, RECEIPT]"

definition edited_names :: "string list" where
  "edited_names = [PROTOCOL, CMAKE, FIRMWARE_CMAKE]"


subsection \<open>Preparing the copy\<close>

text \<open>The checks of the copy; they return the members read, the listed members, the version and the digest of the receipt.\<close>

definition checked_copy ::
  "observer_env \<Rightarrow> tree \<Rightarrow> target \<Rightarrow> ((pystr \<times> bytes) list \<times> pyval list \<times> pystr \<times> pystr) res" where
  "checked_copy env tree t =
     require (ob_frozen_roots env \<noteq> 0) (preparation ''frozen roots'')
     (bindE (safe_source (ob_root env)) (\<lambda>_.
      bindE (ob_baseline env) (\<lambda>baseline.
      bindE (baseline_members env baseline) (\<lambda>members.
      bindE (for_each (check_member env tree) [] members) (\<lambda>before.
      require (list_all (\<lambda>name. str name \<in> set (map fst before)) [PROTOCOL, CMAKE, FIRMWARE_CMAKE, ''sdk-lock.json'', ''release.json''])
        (preparation ''baseline without required inputs'')
      (bindE (bindE (member_of before ''release.json'') (product_version env)) (\<lambda>version.
       bindE (check_lock t before) (\<lambda>_.
       bindE (check_sdkconfig env tree t) (\<lambda>_.
       require (list_all (\<lambda>name. tree (str name) = Absent) new_names) (preparation ''copy already has laboratory outputs'')
       (Inr (before, members, version, digest baseline)))))))))))"

definition decoded :: "(pystr \<times> bytes) list \<Rightarrow> string \<Rightarrow> pystr res" where
  "decoded before name = bindE (member_of before name) (\<lambda>raw. of_option (Raise UnicodeError name) (utf8_decode raw))"

definition encoded_text :: "pystr \<Rightarrow> bytes res" where
  "encoded_text s = of_option (Raise UnicodeError ''encode'') (utf8_encode s)"

text \<open>The new content of the files, in the order they are written.\<close>

definition observer_texts :: "target \<Rightarrow> (pystr \<times> bytes) list \<Rightarrow> (string \<times> pystr) list res" where
  "observer_texts t before =
     bindE (decoded before PROTOCOL) (\<lambda>protocol.
     bindE (decoded before CMAKE) (\<lambda>cmake.
     bindE (decoded before FIRMWARE_CMAKE) (\<lambda>firmware_cmake.
     require (anchors_unique protocol cmake firmware_cmake) (preparation ''anchors'')
     (Inr [(PROTOCOL, protocol_source protocol), (CMAKE, cmake_source t cmake), (FIRMWARE_CMAKE, firmware_cmake_source firmware_cmake),
           (OBSERVER_C, observer_source t), (OBSERVER_H, HEADER), (DEFAULTS, DEFAULTS_TEXT)]))))"

definition patch_text :: "observer_env \<Rightarrow> (pystr \<times> bytes) list \<Rightarrow> (string \<times> pystr) list \<Rightarrow> pystr res" where
  "patch_text env before texts =
     for_each (\<lambda>patch (name, new).
       bindE (of_option (Raise UnicodeError name) (utf8_decode (case map_of before (str name) of None \<Rightarrow> [] | Some raw \<Rightarrow> raw))) (\<lambda>old.
       Inr (patch @ concat (ob_diff env (lines_keeping_ends old) (lines_keeping_ends new) (str name))))) [] texts"

definition observer_outputs :: "observer_env \<Rightarrow> target \<Rightarrow> (pystr \<times> bytes) list \<Rightarrow> (pystr \<times> bytes) list res" where
  "observer_outputs env t before =
     bindE (observer_texts t before) (\<lambda>texts.
     bindE (for_each (\<lambda>out (name, s). bindE (encoded_text s) (\<lambda>raw. Inr (out @ [(str name, raw)]))) [] texts) (\<lambda>outputs.
     bindE (bindE (patch_text env before texts) encoded_text) (\<lambda>patch.
     Inr (outputs @ [(str PATCH, patch)]))))"

definition generated_files :: "(pystr \<times> bytes) list \<Rightarrow> pyval" where
  "generated_files outputs =
     PDict (map (\<lambda>(name, raw). (name, PDict [(str ''sha256'', PStr (digest raw)), (str ''size_bytes'', PInt (int (length raw)))])) outputs)"

definition observer_report ::
  "observer_env \<Rightarrow> target \<Rightarrow> pyval list \<Rightarrow> pystr \<Rightarrow> pystr \<Rightarrow> (pystr \<times> bytes) list \<Rightarrow> bytes \<Rightarrow> (pystr \<times> pyval) list" where
  "observer_report env t members version baseline_sha256 outputs patch =
     map (\<lambda>(k, v). (str k, v))
     [(''schema_version'', PInt 1), (''observer_revision'', PInt 2), (''artifact_kind'', PStr (str ''lab_only_capacity_observer_source'')),
      (''lab_only'', PBool True), (''software_only'', PBool True), (''candidate_qualified'', PBool False),
      (''project_version'', PStr (version @ LAB_SUFFIX)), (''target'', PStr (str (target_name t))), (''source_root'', PStr (ob_root_text env)),
      (''baseline_receipt_sha256'', PStr baseline_sha256), (''baseline_production_inputs'', PList members),
      (''lab_source_patch_sha256'', PStr (digest patch)), (''generated_files'', generated_files outputs),
      (''required_cmake_option'', PStr (str ''ESP_BASE_CAPACITY_OBSERVER_LAB=ON'')), (''lab_defaults'', PStr (str DEFAULTS)),
      (''sample_period_ms'', PInt 5000), (''task_limit'', PInt 32), (''extra_tasks'', PInt 0), (''extra_queues'', PInt 0),
      (''exit_fact_limit'', PInt 64), (''exit_flush_limit_per_control_pass'', PInt 64), (''exit_capture_from_bss'', PBool True),
      (''exit_overflow_invalidates_parser'', PBool True), (''extra_tlsp'', PInt 0),
      (''sample_capabilities'', PStr (str ''MALLOC_CAP_INTERNAL|MALLOC_CAP_8BIT'')), (''stack_unit'', PStr (str ''bytes'')),
      (''worker_exit_coverage'', PList (map (\<lambda>s. PStr (str s)) [''base_ota_before_done'', ''all_freertos_normal_cleanup''])),
      (''unobserved_worker_exits'', PList (map (\<lambda>s. PStr (str s)) [''reset'', ''panic'', ''deletion_not_yet_cleaned_up''])),
      (''unobserved_stack_domains'', PList (map (\<lambda>s. PStr (str s)) [''bootloader'', ''ROM'', ''non_RTOS_startup'', ''ISR''])),
      (''heap_hooks_enabled'', PBool False), (''global_largest_block_history_measured'', PBool False),
      (''workspace_cost'', PStr (str ''reported by the actual compiled sizeof expression; also inspect ELF/map'')),
      (''observation_cost_added_back'', PBool False), (''metrics_are_sequential_samples'', PBool True),
      (''other_capability_domains_measured'', PBool False), (''full_peak_or_native_lifecycle_qualification'', PBool False),
      (''frozen_signed_image_qualification'', PBool False), (''production_release_allowed'', PBool False),
      (''production_release_gate_implemented'', PBool False), (''hardware_write_authorized'', PBool False),
      (''physical_device_access'', PBool False), (''build_verified'', PBool False),
      (''qualification_limits'', PList (map (\<lambda>s. PStr (str s)) [''instrumented laboratory candidate only'',
         ''control-pass sampling can miss transient allocations'', ''trace changes TCB and observer reserves workspace'',
         ''reset, panic and pending cleanup may omit exit facts'', ''exit overflow or output loss disqualifies the observation'',
         ''non-task stacks remain unobserved'', ''printf may add stack depth after the reported sample'',
         ''no physical fault, cycle or 72-hour qualification'']))]"

definition receipt_bytes :: "(pystr \<times> pyval) list \<Rightarrow> bytes res" where
  "receipt_bytes report = encoded_text (json_indent 0 (sorted_keys (PDict report)) @ [10])"

text \<open>The plan: everything up to the first write.\<close>

definition observer_plan :: "observer_env \<Rightarrow> tree \<Rightarrow> target \<Rightarrow> ((pystr \<times> bytes) list \<times> (pystr \<times> pyval) list) res" where
  "observer_plan env tree t =
     bindE (checked_copy env tree t) (\<lambda>(before, members, version, baseline_sha256).
     bindE (observer_outputs env t before) (\<lambda>outputs.
     bindE (of_option (Raise KeyError PATCH) (map_of outputs (str PATCH))) (\<lambda>patch.
     let report = observer_report env t members version baseline_sha256 outputs patch in
     bindE (for_each (\<lambda>_ name. bindE (read_input env tree (str name)) (\<lambda>raw.
        require (map_of before (str name) = Some raw) (preparation ''source changed before writing'') (Inr ()))) () edited_names) (\<lambda>_.
     Inr (outputs, report)))))"

definition prepare_observer :: "observer_env \<Rightarrow> tree \<Rightarrow> target \<Rightarrow> (pystr \<times> pyval) list res \<times> tree" where
  "prepare_observer env tree t = (case observer_plan env tree t of
      Inl e \<Rightarrow> (Inl e, tree)
    | Inr (outputs, report) \<Rightarrow>
       (case write_nodes env tree (map (\<lambda>(name, raw). (name, raw, name \<notin> set (map str edited_names))) outputs) of
          (Inl e, tree') \<Rightarrow> (Inl e, tree')
        | (Inr _, tree') \<Rightarrow>
           (case receipt_bytes report of
              Inl e \<Rightarrow> (Inl e, tree')
            | Inr raw \<Rightarrow> (case write_node env tree' (str RECEIPT) raw True of
                 (Inl e, tree'') \<Rightarrow> (Inl e, tree'') | (Inr _, tree'') \<Rightarrow> (Inr report, tree'')))))"


subsection \<open>Insertions\<close>

lemma subseq_replace: "subseq pat new \<Longrightarrow> subseq s (replace_sub pat new s)"
proof (induction pat new s rule: replace_sub.induct)
  case (1 pat new s)
  show ?case
  proof (cases "s = [] \<or> pat = []")
    case True
    then show ?thesis by (subst replace_sub.simps) simp
  next
    case False
    show ?thesis
    proof (cases "take (length pat) s = pat")
      case True
      then have s: "s = pat @ drop (length pat) s"
        by (metis append_take_drop_id)
      have "subseq (pat @ drop (length pat) s) (new @ replace_sub pat new (drop (length pat) s))"
        using 1 False True by (intro list_emb_append_mono) blast+
      then show ?thesis
        using s False True by (subst replace_sub.simps) simp
    next
      case False2: False
      obtain c cs where s: "s = c # cs"
        using False by (cases s) auto
      have "subseq cs (replace_sub pat new cs)"
        using 1(2) [OF False False2] 1(3) s by simp
      then show ?thesis
        using False False2 by (subst replace_sub.simps) (simp add: s)
    qed
  qed
qed

lemma subseq_prefix: "subseq a (a @ b)"
  by (rule subseq_rev_drop_many) simp

lemma subseq_suffix: "subseq a (b @ a)"
  by (rule subseq_drop_many) simp

lemma protocol_source_adds: "subseq protocol (protocol_source protocol)"
  unfolding protocol_source_def Let_def
  by (rule subseq_order.trans [OF subseq_replace [OF subseq_prefix]
    subseq_order.trans [OF subseq_replace subseq_replace]]) (simp_all only: subseq_suffix append_assoc [symmetric])

lemma cmake_source_adds: "subseq cmake (cmake_source t cmake)"
  unfolding cmake_source_def by (rule subseq_order.trans [OF subseq_replace [OF subseq_prefix] subseq_suffix])

lemma firmware_cmake_source_adds: "subseq s (firmware_cmake_source s)"
proof -
  have "VERSION_ANCHOR = str ''    set(ESP_BASE_VERSION_SUFFIX \"'' @ str ''\")''"
    "str ''    set(ESP_BASE_VERSION_SUFFIX \"-capacity-lab\")'' = str ''    set(ESP_BASE_VERSION_SUFFIX \"'' @ str ''-capacity-lab'' @ str ''\")''"
    by (simp_all add: VERSION_ANCHOR_def str_def)
  then show ?thesis
    unfolding firmware_cmake_source_def using subseq_replace [OF list_emb_append_mono [OF _ subseq_suffix]] by (metis subseq_order.refl)
qed

subsection \<open>The writes\<close>

lemma write_node_Inr:
  assumes "write_node env tree path raw new = (Inr u, tree')"
  shows "tree' = tree(path := File raw) \<and> (if new then tree path = Absent else (\<exists>old. tree path = File old))"
  using assms
  by (auto simp: write_node_def Let_def require_def split: node.splits if_splits sum.splits)

lemma write_node_other: "write_node env tree path raw new = (r, tree') \<Longrightarrow> p \<noteq> path \<Longrightarrow> tree' p = tree p"
  by (auto simp: write_node_def Let_def require_def split: node.splits if_splits sum.splits)

lemma write_nodes_other:
  "write_nodes env tree ws = (r, tree') \<Longrightarrow> p \<notin> fst ` set ws \<Longrightarrow> tree' p = tree p"
proof (induction env tree ws arbitrary: r rule: write_nodes.induct)
  case (1 env tree)
  then show ?case by simp
next
  case (2 env tree path raw new rest)
  obtain r1 tree1 where w: "write_node env tree path raw new = (r1, tree1)" by (cases "write_node env tree path raw new")
  have "tree1 p = tree p"
    using write_node_other [OF w] 2(3) by auto
  then show ?case
    using 2 w by (cases r1) auto
qed

lemma write_nodes_Inr:
  assumes "write_nodes env tree ws = (Inr u, tree')" "distinct (map fst ws)" "(path, raw, new) \<in> set ws"
  shows "tree' path = File raw \<and> (if new then tree path = Absent else (\<exists>old. tree path = File old))"
  using assms
proof (induction env tree ws rule: write_nodes.induct)
  case (1 env tree)
  then show ?case by simp
next
  case (2 env tree path1 raw1 new1 rest)
  obtain tree1 where w: "write_node env tree path1 raw1 new1 = (Inr (), tree1)" and rest: "write_nodes env tree1 rest = (Inr u, tree')"
    using 2(2) by (auto split: prod.splits sum.splits)
  note first = write_node_Inr [OF w]
  show ?case
  proof (cases "(path, raw, new) = (path1, raw1, new1)")
    case True
    then have "tree' path = tree1 path"
      using 2(3) by (intro write_nodes_other [OF rest]) auto
    with True first show ?thesis by auto
  next
    case False
    then have mem: "(path, raw, new) \<in> set rest" and "path \<noteq> path1"
      using 2(3,4) by (auto simp: image_iff)
    have "tree' path = File raw \<and> (if new then tree1 path = Absent else (\<exists>old. tree1 path = File old))"
      using 2(1) [OF w [symmetric] refl rest _ mem] 2(3) by auto
    then show ?thesis
      using first \<open>path \<noteq> path1\<close> by (cases new) auto
  qed
qed


subsection \<open>What a plan says\<close>

lemma read_input_Inr: "read_input env tree path = Inr raw \<Longrightarrow> tree path = File raw"
  by (auto simp: read_input_def res_simps split: node.splits)

definition member_frozen :: "observer_env \<Rightarrow> tree \<Rightarrow> pyval \<Rightarrow> bool" where
  "member_frozen env tree m \<longleftrightarrow> (\<exists>path sha size_bytes raw. member_fields m = Inr (path, sha, size_bytes) \<and> tree path = File raw \<and>
     digest raw = sha \<and> length raw = size_bytes \<and> ob_canonical env path = Inr raw)"

lemma members_frozen:
  assumes "for_each (check_member env tree) [] members = Inr before"
  shows "\<forall>m \<in> set members. member_frozen env tree m"
  by (rule for_each_inv [OF assms, where I = "\<lambda>seen _. \<forall>m \<in> set seen. member_frozen env tree m"])
    (auto simp: check_member_def member_frozen_def res_simps split: prod.splits dest!: read_input_Inr)

lemma output_list:
  assumes "for_each (\<lambda>out (name, s). bindE (encoded_text s) (\<lambda>raw. Inr (out @ [(str name, raw)]))) start texts = Inr outputs"
  shows "\<exists>raws. outputs = start @ raws \<and> list_all2 (\<lambda>(name, s) (name', raw). name' = str name \<and> utf8_decode raw = Some s) texts raws"
  using assms
proof (induction texts arbitrary: start)
  case Nil
  then show ?case by simp
next
  case (Cons t texts)
  obtain name s where t: "t = (name, s)" by (cases t)
  obtain raw where raw: "encoded_text s = Inr raw"
    "for_each (\<lambda>out (name, s). bindE (encoded_text s) (\<lambda>raw. Inr (out @ [(str name, raw)]))) (start @ [(str name, raw)]) texts = Inr outputs"
    using Cons.prems by (auto simp: t res_simps)
  have "utf8_decode raw = Some s"
    using raw(1) by (simp add: encoded_text_def res_simps utf8_decode_encode)
  moreover obtain raws where "outputs = (start @ [(str name, raw)]) @ raws"
    "list_all2 (\<lambda>(name, s) (name', raw). name' = str name \<and> utf8_decode raw = Some s) texts raws"
    using Cons.IH [OF raw(2)] by blast
  ultimately show ?case
    by (intro exI [of _ "(str name, raw) # raws"]) (simp add: t)
qed

definition added_to :: "tree \<Rightarrow> (pystr \<times> bytes) list \<Rightarrow> string \<Rightarrow> bool" where
  "added_to tree outputs name \<longleftrightarrow> (\<exists>raw raw' old new. tree (str name) = File raw \<and> (str name, raw') \<in> set outputs \<and>
     utf8_decode raw = Some old \<and> utf8_decode raw' = Some new \<and> subseq old new)"

lemma plan_facts:
  assumes "observer_plan env tree t = Inr (outputs, report)"
  shows "map fst outputs = map str (edited_names @ [OBSERVER_C, OBSERVER_H, DEFAULTS, PATCH])"
    and "\<forall>name \<in> set edited_names. added_to tree outputs name"
    and "\<forall>name \<in> set new_names. tree (str name) = Absent"
    and "map_of report (str ''generated_files'') = Some (generated_files outputs)"
    and "\<exists>raw members. ob_baseline env = Inr raw \<and> baseline_members env raw = Inr members \<and> (\<forall>m \<in> set members. member_frozen env tree m)"
proof -
  obtain before members version sha patch0 where copy: "checked_copy env tree t = Inr (before, members, version, sha)"
    and out: "observer_outputs env t before = Inr outputs"
    and reread: "for_each (\<lambda>_ name. bindE (read_input env tree (str name)) (\<lambda>raw.
        require (map_of before (str name) = Some raw) (preparation ''source changed before writing'') (Inr ()))) () edited_names = Inr ()"
    and report: "report = observer_report env t members version sha outputs patch0"
    using assms by (auto simp: observer_plan_def res_simps Let_def)
  show "\<exists>raw members. ob_baseline env = Inr raw \<and> baseline_members env raw = Inr members \<and> (\<forall>m \<in> set members. member_frozen env tree m)"
    and "\<forall>name \<in> set new_names. tree (str name) = Absent"
    using copy members_frozen by (auto simp: checked_copy_def res_simps list_all_iff)
  show "map_of report (str ''generated_files'') = Some (generated_files outputs)"
    by (simp add: report observer_report_def str_inj_iff)
  obtain texts patch raws where texts: "observer_texts t before = Inr texts" and outputs: "outputs = raws @ [(str PATCH, patch)]"
    and raws: "list_all2 (\<lambda>(name, s) (name', raw). name' = str name \<and> utf8_decode raw = Some s) texts raws"
    using out output_list [of "[]"] by (fastforce simp: observer_outputs_def res_simps)
  obtain protocol cmake firmware_cmake where
    old: "decoded before PROTOCOL = Inr protocol" "decoded before CMAKE = Inr cmake" "decoded before FIRMWARE_CMAKE = Inr firmware_cmake"
    and shape: "texts = [(PROTOCOL, protocol_source protocol), (CMAKE, cmake_source t cmake), (FIRMWARE_CMAKE, firmware_cmake_source firmware_cmake),
           (OBSERVER_C, observer_source t), (OBSERVER_H, HEADER), (DEFAULTS, DEFAULTS_TEXT)]"
    using texts by (auto simp: observer_texts_def res_simps)
  obtain r1 r2 r3 r4 r5 r6 where
    new: "raws = [(str PROTOCOL, r1), (str CMAKE, r2), (str FIRMWARE_CMAKE, r3), (str OBSERVER_C, r4), (str OBSERVER_H, r5), (str DEFAULTS, r6)]"
      "utf8_decode r1 = Some (protocol_source protocol)" "utf8_decode r2 = Some (cmake_source t cmake)"
      "utf8_decode r3 = Some (firmware_cmake_source firmware_cmake)"
    using raws unfolding shape by (auto simp: list_all2_Cons1)
  show "map fst outputs = map str (edited_names @ [OBSERVER_C, OBSERVER_H, DEFAULTS, PATCH])"
    by (simp add: outputs new(1) edited_names_def)
  have read: "\<exists>raw. tree (str name) = File raw \<and> utf8_decode raw = Some s"
    if "name \<in> set edited_names" "decoded before name = Inr s" for name s
    using reread that by (auto simp: edited_names_def decoded_def member_of_def res_simps dest!: read_input_Inr)
  show "\<forall>name \<in> set edited_names. added_to tree outputs name"
    using read [OF _ old(1)] read [OF _ old(2)] read [OF _ old(3)] new(2-4) protocol_source_adds cmake_source_adds firmware_cmake_source_adds
    unfolding added_to_def outputs new(1) edited_names_def by fastforce
qed


lemma output_writes:
  assumes "observer_plan env tree t = Inr (outputs, report)"
  defines "ws \<equiv> map (\<lambda>(name, raw). (name, raw, name \<notin> set (map str edited_names))) outputs"
  shows "distinct (map fst ws)" and "map fst ws = map str (edited_names @ [OBSERVER_C, OBSERVER_H, DEFAULTS, PATCH])"
    and "str RECEIPT \<notin> fst ` set ws" and "\<And>name raw. (name, raw) \<in> set outputs \<Longrightarrow> (name, raw, name \<notin> set (map str edited_names)) \<in> set ws"
proof -
  have "map fst ws = map fst outputs"
    by (simp add: ws_def case_prod_beta)
  then show fsts: "map fst ws = map str (edited_names @ [OBSERVER_C, OBSERVER_H, DEFAULTS, PATCH])"
    using plan_facts(1) [OF assms(1)] by simp
  have "distinct (map str (edited_names @ [OBSERVER_C, OBSERVER_H, DEFAULTS, PATCH, RECEIPT]))"
    by (simp add: edited_names_def str_inj_iff) (simp add: path_defs)
  then show "distinct (map fst ws)" and "str RECEIPT \<notin> fst ` set ws"
    using fsts by (auto simp flip: set_map)
  show "(name, raw, name \<notin> set (map str edited_names)) \<in> set ws" if "(name, raw) \<in> set outputs" for name raw
    using that by (force simp: ws_def)
qed

text \<open>
  C15: preparing an observer copy only adds.  When \<^verbatim>\<open>prepare\<close> returns, every member of the frozen baseline was in the copy
  with the recorded digest and the bytes of the canonical source; the three edited sources contain their old text as a
  subsequence, so nothing of the production source was removed; every other new file was absent; nothing else changed; and
  the report holds the digest and size of every file that was written.
\<close>

theorem observer_only_adds:
  assumes "prepare_observer env tree t = (Inr report, tree')"
  shows "\<exists>raw members outputs files. ob_baseline env = Inr raw \<and> baseline_members env raw = Inr members \<and>
    (\<forall>m \<in> set members. member_frozen env tree m) \<and> (\<forall>name \<in> set edited_names. added_to tree outputs name) \<and>
    (\<forall>name \<in> set new_names. tree (str name) = Absent) \<and>
    (\<forall>p. p \<notin> set (map str (edited_names @ new_names)) \<longrightarrow> tree' p = tree p) \<and>
    map fst outputs @ [str RECEIPT] = map str (edited_names @ new_names) \<and>
    map_of report (str ''generated_files'') = Some (PDict files) \<and>
    (\<forall>(name, new) \<in> set outputs. tree' name = File new \<and>
       map_of files name = Some (PDict [(str ''sha256'', PStr (digest new)), (str ''size_bytes'', PInt (int (length new)))]))"
proof -
  obtain outputs tree1 receipt where plan: "observer_plan env tree t = Inr (outputs, report)"
    and w1: "write_nodes env tree (map (\<lambda>(name, raw). (name, raw, name \<notin> set (map str edited_names))) outputs) = (Inr (), tree1)"
    and w2: "write_node env tree1 (str RECEIPT) receipt True = (Inr (), tree')"
    using assms by (auto simp: prepare_observer_def split: sum.splits prod.splits)
  note writes = output_writes [OF plan]
  have there: "tree' name = File new" if "(name, new) \<in> set outputs" for name new
  proof -
    have "name \<noteq> str RECEIPT"
      using writes(3) writes(4) [OF that] by force
    then have "tree' name = tree1 name"
      by (rule write_node_other [OF w2])
    then show ?thesis
      using write_nodes_Inr [OF w1 writes(1) writes(4) [OF that]] by simp
  qed
  have other: "tree' p = tree p" if "p \<notin> set (map str (edited_names @ new_names))" for p
  proof -
    have "p \<notin> fst ` set (map (\<lambda>(name, raw). (name, raw, name \<notin> set (map str edited_names))) outputs)"
      using that writes(2) unfolding set_map [symmetric] by (auto simp: new_names_def)
    then have "tree1 p = tree p"
      by (rule write_nodes_other [OF w1])
    moreover have "p \<noteq> str RECEIPT"
      using that by (auto simp: new_names_def)
    ultimately show ?thesis
      using write_node_other [OF w2] by simp
  qed
  have "distinct (map fst outputs)"
    using writes(1) by (simp add: case_prod_beta comp_def)
  then have listed: "map_of (map (\<lambda>(name, raw). (name, PDict [(str ''sha256'', PStr (digest raw)), (str ''size_bytes'', PInt (int (length raw)))])) outputs) name =
      Some (PDict [(str ''sha256'', PStr (digest new)), (str ''size_bytes'', PInt (int (length new)))])" if "(name, new) \<in> set outputs" for name new
    using that by (simp add: map_of_map)
  obtain raw members where "ob_baseline env = Inr raw" "baseline_members env raw = Inr members" "\<forall>m \<in> set members. member_frozen env tree m"
    using plan_facts(5) [OF plan] by blast
  moreover have "map fst outputs @ [str RECEIPT] = map str (edited_names @ new_names)"
    using plan_facts(1) [OF plan] by (simp add: new_names_def)
  ultimately show ?thesis
    using plan_facts(2,3) [OF plan] plan_facts(4) [OF plan, unfolded generated_files_def] there other listed
    by (intro exI conjI) (assumption | fast)+
qed

text \<open>
  The receipt is written last.  If a run changes the receipt, whether it returns or raises, then every other output is
  in place with exactly the planned bytes; and a run that is rejected before the first write leaves the copy as it was.
\<close>

theorem observer_receipt_last:
  assumes "prepare_observer env tree t = (r, tree')"
  shows "(tree' (str RECEIPT) \<noteq> tree (str RECEIPT) \<longrightarrow> (\<exists>outputs report. observer_plan env tree t = Inr (outputs, report) \<and>
       (\<forall>(name, new) \<in> set outputs. tree' name = File new))) \<and>
     (\<not> returns (observer_plan env tree t) \<longrightarrow> tree' = tree)"
proof (cases "observer_plan env tree t")
  case (Inl e)
  then show ?thesis
    using assms by (simp add: prepare_observer_def)
next
  case (Inr plan)
  obtain outputs report where plan: "observer_plan env tree t = Inr (outputs, report)"
    using Inr by (cases plan) simp
  note writes = output_writes [OF plan]
  let ?ws = "map (\<lambda>(name, raw). (name, raw, name \<notin> set (map str edited_names))) outputs"
  obtain r1 tree1 where w1: "write_nodes env tree ?ws = (r1, tree1)" by (cases "write_nodes env tree ?ws")
  have "tree1 (str RECEIPT) = tree (str RECEIPT)"
    using write_nodes_other [OF w1 writes(3)] .
  moreover have "\<forall>(name, new) \<in> set outputs. tree' name = File new" if changed: "tree' (str RECEIPT) \<noteq> tree1 (str RECEIPT)"
  proof -
    obtain receipt r2 where ok: "r1 = Inr ()" and w2: "write_node env tree1 (str RECEIPT) receipt True = (r2, tree')"
      using assms changed plan w1 by (auto simp: prepare_observer_def split: sum.splits prod.splits)
    have "tree' name = File new" if "(name, new) \<in> set outputs" for name new
    proof -
      have "name \<noteq> str RECEIPT"
        using writes(3) writes(4) [OF that] by force
      then show ?thesis
        using write_node_other [OF w2] write_nodes_Inr [OF w1 [unfolded ok] writes(1) writes(4) [OF that]] by simp
    qed
    then show ?thesis by auto
  qed
  ultimately show ?thesis
    using plan by auto
qed

end
