(* ===== verification/Observer_Run.thy ===== *)
theory Observer_Run
  imports Observer_Build Plain_Text
begin

text \<open>
  One concrete preparation of an observer copy, evaluated from end to end: a copy of six small files for the C3.  The
  digests stay symbolic.  The readback of a file needs a bound of its size, so the first part bounds the size of
  encoded texts, of replaced texts and of indented JSON.
\<close>

subsection \<open>Sizes\<close>

lemma replace_size:
  assumes "plain_text s" "plain_text new"
  shows "plain_text (replace_sub pat new s) \<and> length (replace_sub pat new s) \<le> length s + length (filter (\<lambda>c. c = hd pat) s) * length new"
  using assms
proof (induction pat new s rule: replace_sub.induct)
  case (1 pat new s)
  show ?case
  proof (cases "s = [] \<or> pat = []")
    case True
    with 1(3) show ?thesis by (subst (1 2) replace_sub.simps) simp
  next
    case nonempty: False
    obtain c cs where s: "s = c # cs"
      using nonempty by (cases s) auto
    show ?thesis
    proof (cases "take (length pat) s = pat")
      case True
      let ?rest = "drop (length pat) s"
      obtain p ps where pat: "pat = p # ps"
        using nonempty by (cases pat) auto
      have split: "s = pat @ ?rest"
        using True by (metis append_take_drop_id)
      have ih: "plain_text (replace_sub pat new ?rest) \<and> length (replace_sub pat new ?rest) \<le> length ?rest + length (filter (\<lambda>c. c = hd pat) ?rest) * length new"
        using 1(1) [OF nonempty True] 1(3,4) split by (metis plain_append)
      have "Suc (length (filter (\<lambda>c. c = hd pat) ?rest)) \<le> length (filter (\<lambda>c. c = hd pat) s)"
        by (subst (2) split) (simp add: pat)
      then have "length new + length (filter (\<lambda>c. c = hd pat) ?rest) * length new \<le> length (filter (\<lambda>c. c = hd pat) s) * length new"
        by (metis mult_Suc mult_le_mono1)
      with ih nonempty True 1(4) show ?thesis
        by (subst (1 2) replace_sub.simps) auto
    next
      case False
      have "plain_text (replace_sub pat new cs) \<and> length (replace_sub pat new cs) \<le> length cs + length (filter (\<lambda>c. c = hd pat) cs) * length new"
        using 1(2) [OF nonempty False] 1(3,4) s by simp
      with nonempty False 1(3) s show ?thesis
        by (subst (1 2) replace_sub.simps) (auto simp: algebra_simps)
    qed
  qed
qed

lemma raw_str_plain: "plain_text s \<Longrightarrow> plain_text (raw_str s) \<and> length (raw_str s) \<le> 6 * length s + 2"
proof -
  assume "plain_text s"
  then have "plain_text (concat (map raw_char s)) \<and> length (concat (map raw_char s)) \<le> 6 * length s"
    by (induction s) (use raw_char_plain in \<open>auto, fastforce\<close>)
  then show ?thesis by (simp add: raw_str_def)
qed


subsection \<open>Indented JSON\<close>

text \<open>A bound of the length of a value indented at depth \<open>n\<close>.\<close>

fun weight :: "nat \<Rightarrow> pyval \<Rightarrow> nat"
  and weight_items :: "nat \<Rightarrow> pyval list \<Rightarrow> nat"
  and weight_pairs :: "nat \<Rightarrow> (pystr \<times> pyval) list \<Rightarrow> nat" where
  "weight n (PStr s) = 6 * length s + 2"
| "weight n (PList vs) = 2 * n + 3 + weight_items (Suc n) vs"
| "weight n (PDict d) = 2 * n + 3 + weight_pairs (Suc n) d"
| "weight n v = length (json_dumps v)"
| "weight_items n [] = 0"
| "weight_items n (v # vs) = 2 * n + 2 + weight n v + weight_items n vs"
| "weight_pairs n [] = 0"
| "weight_pairs n ((k, v) # d) = 2 * n + 6 + 6 * length k + weight n v + weight_pairs n d"

lemma plain_new_line: "plain_text (new_line n) \<and> length (new_line n) = 2 * n + 1"
  by (simp add: new_line_def plain_text_def list_all_iff)

lemma block_size:
  assumes "list_all plain_text items" "plain_char left" "plain_char right"
  shows "plain_text (block n left right items)" and "length (block n left right items) \<le> 2 * n + 3 + sum_list (map (\<lambda>item. length item + 2 * Suc n + 2) items)"
proof -
  have "length (concat (map (\<lambda>item. 44 # new_line (Suc n) @ item) xs)) = sum_list (map (\<lambda>item. length item + 2 * Suc n + 2) xs)" for xs
    by (induction xs) (simp_all add: plain_new_line)
  then show "length (block n left right items) \<le> 2 * n + 3 + sum_list (map (\<lambda>item. length item + 2 * Suc n + 2) items)"
    by (cases items) (simp_all add: block_def plain_new_line)
  show "plain_text (block n left right items)"
    using assms by (cases items) (simp_all add: block_def plain_new_line plain_concat list_all_iff)
qed

lemma json_indent_size:
  "plain_val v \<Longrightarrow> plain_text (json_indent n v) \<and> length (json_indent n v) \<le> weight n v"
  "plain_items vs \<Longrightarrow> list_all plain_text (indent_items n vs) \<and> sum_list (map (\<lambda>item. length item + 2 * n + 2) (indent_items n vs)) \<le> weight_items n vs"
  "plain_pairs d \<Longrightarrow> list_all plain_text (indent_pairs n d) \<and> sum_list (map (\<lambda>item. length item + 2 * n + 2) (indent_pairs n d)) \<le> weight_pairs n d"
proof (induction n v and n vs and n d rule: json_indent_indent_items_indent_pairs.induct)
  case (1 n s)
  then show ?case using raw_str_plain [of s] by simp
next
  case (2 n vs)
  then show ?case using block_size [of "indent_items (Suc n) vs" 91 93 n] by simp
next
  case (3 n d)
  then show ?case using block_size [of "indent_pairs (Suc n) d" 123 125 n] by simp
qed (auto dest: raw_str_plain)


lemma weight_pairs_sum: "weight_pairs n d = sum_list (map (\<lambda>(k, v). 2 * n + 6 + 6 * length k + weight n v) d)"
  by (induction d) auto

lemma sorted_weight:
  "weight n (sorted_keys v) = weight n v" "weight_items n (sorted_items vs) = weight_items n vs" "weight_pairs n (sorted_pairs d) = weight_pairs n d"
proof (induction v and vs and d arbitrary: n and n and n rule: sorted_keys_sorted_items_sorted_pairs.induct)
  case (2 d)
  have "weight_pairs (Suc n) (sort_key fst (sorted_pairs d)) = weight_pairs (Suc n) (sorted_pairs d)"
    by (simp only: weight_pairs_sum sum_list_sort_key)
  with 2 show ?case by simp
qed simp_all

subsection \<open>Writes that succeed\<close>

definition writable :: "tree \<Rightarrow> pystr \<times> bytes \<times> bool \<Rightarrow> bool" where
  "writable tree = (\<lambda>(path, raw, new). length raw \<le> MAXIMUM \<and> (if new then tree path = Absent else (\<exists>old. tree path = File old)))"

lemma write_node_ok:
  assumes "ob_links env path = 1" "ob_stable env path" "writable tree (path, raw, new)"
  shows "write_node env tree path raw new = (Inr (), tree(path := File raw))"
  using assms by (auto simp: write_node_def writable_def read_input_def Let_def split: if_splits)

lemma write_nodes_ok:
  assumes "\<And>path. ob_links env path = 1" "\<And>path. ob_stable env path" "list_all (writable tree) ws" "distinct (map fst ws)"
  shows "\<exists>tree'. write_nodes env tree ws = (Inr (), tree')"
  using assms(3,4)
proof (induction ws arbitrary: tree)
  case Nil
  show ?case by simp
next
  case (Cons w ws)
  obtain path raw new where w: "w = (path, raw, new)" by (cases w)
  have "writable (tree(path := File raw)) e" if "e \<in> set ws" for e
  proof -
    have "fst e \<noteq> path" "writable tree e"
      using that Cons.prems w by (auto simp: list_all_iff)
    then show ?thesis by (auto simp: writable_def split: prod.splits)
  qed
  then have "list_all (writable (tree(path := File raw))) ws"
    by (simp add: list_all_iff)
  with Cons w assms(1,2) show ?case
    by (simp add: write_node_ok)
qed

subsection \<open>The sample\<close>

definition text_bytes :: "pystr \<Rightarrow> bytes" where
  "text_bytes = map word_of_nat"

lemma text_bytes_coded:
  assumes "list_all (\<lambda>c. c < 128) s"
  shows "utf8_decode (text_bytes s) = Some s"
proof -
  have "map unat (text_bytes s) = s"
    using assms by (induction s) (simp_all add: text_bytes_def unat_of_nat)
  moreover have "list_all (\<lambda>b. unat b < 128) (text_bytes s)"
    using assms by (auto simp: text_bytes_def list_all_iff unat_of_nat)
  ultimately show ?thesis
    using utf8_encode_ascii [of "text_bytes s"] utf8_decode_encode by simp
qed

definition sample_protocol :: pystr where
  "sample_protocol = INCLUDE_ANCHOR @ CONTROL_ANCHOR @ EXIT_ANCHOR"

definition copy_files :: "(string \<times> bytes) list" where
  "copy_files = [(PROTOCOL, text_bytes sample_protocol), (CMAKE, text_bytes CMAKE_ANCHOR), (FIRMWARE_CMAKE, text_bytes VERSION_ANCHOR),
     (''sdk-lock.json'', [1]), (''release.json'', [2]), (''firmware/dependencies.lock'', ascii ''target: esp32c3'')]"

definition copy_content :: "pystr \<Rightarrow> bytes option" where
  "copy_content = map_of (map (\<lambda>(name, raw). (str name, raw)) copy_files)"

definition copy_tree :: tree where
  "copy_tree path = (case copy_content path of None \<Rightarrow> Absent | Some raw \<Rightarrow> File raw)"

definition copy_member :: "string \<times> bytes \<Rightarrow> pyval" where
  "copy_member = (\<lambda>(name, raw). PDict [(str ''path'', PStr (str name)), (str ''sha256'', PStr (digest raw)), (str ''size_bytes'', PInt (int (length raw)))])"

definition copy_env :: observer_env where
  "copy_env = \<lparr>ob_root = \<lparr>ro_link = False, ro_directory = Inr True, ro_own = True, ro_mode = 448, ro_git_above = False, ro_intersects = Inr False,
       ro_walk = [(False, False)]\<rparr>, ob_root_text = str ''/lab'', ob_frozen_roots = 1, ob_baseline = Inr [0],
     ob_loads = (\<lambda>raw. if raw = [0] then Inr (PDict [(str ''source_inputs'', PDict [(str ''source_root'', PStr (str ''/src'')),
         (str ''files'', PList (map copy_member copy_files))])]) else Inr (PDict [(str ''version'', PStr (str ''1.2.3''))])),
     ob_is_canonical = (\<lambda>_. Inr True), ob_inside = (\<lambda>_. Inr True),
     ob_canonical = (\<lambda>path. of_option (Raise OSError ''open'') (copy_content path)), ob_links = (\<lambda>_. 1), ob_stable = (\<lambda>_. True),
     ob_link_exists = (\<lambda>_. False), ob_diff = (\<lambda>_ _ _. [])\<rparr>"

lemma copy_env_simps [simp]:
  "ob_links copy_env path = 1" "ob_stable copy_env path" "ob_inside copy_env path = Inr True" "ob_canonical copy_env path = of_option (Raise OSError ''open'') (copy_content path)"
  by (simp_all add: copy_env_def)

lemma copy_small: "\<forall>(name, raw) \<in> set copy_files. length raw \<le> 300"
  by (simp add: copy_files_def text_bytes_def sample_protocol_def INCLUDE_ANCHOR_def CONTROL_ANCHOR_def EXIT_ANCHOR_def CMAKE_ANCHOR_def
    VERSION_ANCHOR_def str_def ascii_def)

lemma copy_distinct: "distinct (map (\<lambda>(name, raw). str name) copy_files)"
  by (simp add: copy_files_def str_inj_iff) (simp add: path_defs)

lemma copy_content_in: "(name, raw) \<in> set copy_files \<Longrightarrow> copy_content (str name) = Some raw"
  using copy_distinct unfolding copy_content_def case_prod_beta by (intro map_of_is_SomeI) (auto simp: comp_def intro: rev_image_eqI)

lemma copy_read: "(name, raw) \<in> set copy_files \<Longrightarrow> read_input copy_env copy_tree (str name) = Inr raw"
  using copy_small by (force simp: read_input_def copy_tree_def copy_content_in MAXIMUM_def)

lemma copy_paths: "\<forall>(name, raw) \<in> set copy_files. relative_path (str name) \<and> str name \<noteq> []"
  by (simp add: copy_files_def path_defs relative_path_def str_def)

lemma contains_set: "contains pat s \<Longrightarrow> set pat \<subseteq> set s"
proof (induction s)
  case Nil
  then show ?case by simp
next
  case (Cons a s)
  have "set pat \<subseteq> set (a # s)" if "take (length pat) (a # s) = pat"
    using set_take_subset [of "length pat" "a # s"] unfolding that .
  with Cons show ?case by auto
qed

lemma unmarked:
  assumes "(76 :: 8 word) \<notin> set raw" "\<not> contains (ascii ''esp_base_capacity_observer'') raw"
  shows "\<not> laboratory_marks raw"
proof -
  have "76 \<in> set (ascii ''ESP_BASE_LAB_ONLY'')" "76 \<in> set (ascii ''ESP_BASE_LAB_MEMORY'')"
    by (simp_all add: ascii_def)
  with assms show ?thesis
    by (auto simp: laboratory_marks_def dest!: contains_set)
qed

lemma copy_unmarked:
  "\<not> laboratory_marks (text_bytes sample_protocol)" "\<not> laboratory_marks (text_bytes CMAKE_ANCHOR)" "\<not> laboratory_marks (text_bytes VERSION_ANCHOR)"
proof -
  note texts = text_bytes_def sample_protocol_def INCLUDE_ANCHOR_def CONTROL_ANCHOR_def EXIT_ANCHOR_def CMAKE_ANCHOR_def VERSION_ANCHOR_def str_def
  have v: "118 \<in> set (ascii ''esp_base_capacity_observer'')"
    by (simp add: ascii_def)
  have "118 \<notin> set (text_bytes sample_protocol)" "118 \<notin> set (text_bytes VERSION_ANCHOR)"
    by (simp_all add: texts)
  then have "\<not> contains (ascii ''esp_base_capacity_observer'') (text_bytes sample_protocol)"
    "\<not> contains (ascii ''esp_base_capacity_observer'') (text_bytes VERSION_ANCHOR)"
    using v by (auto dest: contains_set)
  moreover have "\<not> contains (ascii ''esp_base_capacity_observer'') (text_bytes CMAKE_ANCHOR)"
    by (simp add: texts ascii_def)
  moreover have "(76 :: 8 word) \<notin> set (text_bytes sample_protocol)" "(76 :: 8 word) \<notin> set (text_bytes CMAKE_ANCHOR)" "(76 :: 8 word) \<notin> set (text_bytes VERSION_ANCHOR)"
    by (simp_all add: texts)
  ultimately show "\<not> laboratory_marks (text_bytes sample_protocol)" "\<not> laboratory_marks (text_bytes CMAKE_ANCHOR)"
    "\<not> laboratory_marks (text_bytes VERSION_ANCHOR)"
    by (simp_all add: unmarked)
qed

lemma copy_member_checked:
  assumes "(name, raw) \<in> set copy_files" "str name \<notin> set (map fst before)"
  shows "check_member copy_env copy_tree before (copy_member (name, raw)) = Inr (before @ [(str name, raw)])"
proof -
  have size: "length raw \<le> MAXIMUM"
    using copy_small assms(1) by (fastforce simp: MAXIMUM_def)
  have fields: "member_fields (copy_member (name, raw)) = Inr (str name, digest raw, length raw)"
    using copy_paths assms(1) size
    by (auto simp: member_fields_def copy_member_def keys_are_iff digest_hex64 str_inj_iff Let_def)
  have "str name \<in> set (map str [PROTOCOL, CMAKE, FIRMWARE_CMAKE, MAIN_C]) \<Longrightarrow> \<not> laboratory_marks raw"
    using assms(1) copy_unmarked by (auto simp: copy_files_def str_inj_iff path_defs)
  with fields assms copy_paths copy_read [OF assms(1)] copy_content_in [OF assms(1)] show ?thesis
    by (auto simp: check_member_def)
qed

lemma copy_checked: "for_each (check_member copy_env copy_tree) [] (map copy_member copy_files) = Inr (map (\<lambda>(name, raw). (str name, raw)) copy_files)"
proof -
  have "for_each (check_member copy_env copy_tree) before (map copy_member fs) = Inr (before @ map (\<lambda>(name, raw). (str name, raw)) fs)"
    if "set fs \<subseteq> set copy_files" "distinct (map fst before @ map (\<lambda>(name, raw). str name) fs)" for fs before
    using that
  proof (induction fs arbitrary: before)
    case Nil
    show ?case by simp
  next
    case (Cons f fs)
    obtain name raw where f: "f = (name, raw)" by (cases f)
    have "check_member copy_env copy_tree before (copy_member (name, raw)) = Inr (before @ [(str name, raw)])"
      using Cons.prems f by (intro copy_member_checked) auto
    with Cons f show ?case by simp
  qed
  from this [of copy_files "[]"] copy_distinct show ?thesis by simp
qed


lemma copy_names: "map fst (map (\<lambda>(name, raw). (str name, raw)) copy_files) = map str (edited_names @ [''sdk-lock.json'', ''release.json'', ''firmware/dependencies.lock''])"
  by (simp add: copy_files_def edited_names_def)

lemma copy_absent: "name \<in> set new_names \<or> name = sdkconfig_path \<Longrightarrow> copy_tree (str name) = Absent"
  by (auto simp: copy_tree_def copy_content_def copy_files_def new_names_def sdkconfig_path_def str_inj_iff path_defs)

definition copy_before :: "(pystr \<times> bytes) list" where
  "copy_before = map (\<lambda>(name, raw). (str name, raw)) copy_files"

lemma copy_before_content: "map_of copy_before = copy_content"
  by (simp add: copy_before_def copy_content_def)

lemma copy_accepted:
  "checked_copy copy_env copy_tree Esp32c3 = Inr (copy_before, map copy_member copy_files, str ''1.2.3'', digest [0])"
proof -
  have "baseline_members copy_env [0] = Inr (map copy_member copy_files)"
    by (simp add: baseline_members_def copy_env_def py_getitem_def copy_files_def str_inj_iff)
  moreover have "safe_source (ob_root copy_env) = Inr ()" "ob_baseline copy_env = Inr [0]" "ob_frozen_roots copy_env \<noteq> 0"
    by (simp_all add: safe_source_def copy_env_def)
  moreover have "list_all (\<lambda>name. str name \<in> set (map fst copy_before)) [PROTOCOL, CMAKE, FIRMWARE_CMAKE, ''sdk-lock.json'', ''release.json'']"
    unfolding copy_before_def copy_names by (simp add: edited_names_def)
  moreover have "bindE (member_of copy_before ''release.json'') (product_version copy_env) = Inr (str ''1.2.3'')"
  proof -
    have "copy_content (str ''release.json'') = Some [2]"
      by (rule copy_content_in) (simp add: copy_files_def)
    then show ?thesis
      by (simp add: member_of_def copy_before_content product_version_def copy_env_def keys_are_def version_text_def number_text_def str_def is_digit_def)
  qed
  moreover have "check_lock Esp32c3 copy_before = Inr ()"
  proof -
    have "copy_content (str ''firmware/dependencies.lock'') = Some (ascii ''target: esp32c3'')"
      by (rule copy_content_in) (simp add: copy_files_def)
    moreover have "find_groups (ascii ''target: '') word_byte [] True (ascii ''target: esp32c3'') = [ascii ''esp32c3'']"
      by code_simp
    ultimately show ?thesis
      by (simp add: check_lock_def selected_lock_def copy_before_content target_name_def)
  qed
  moreover have "check_sdkconfig copy_env copy_tree Esp32c3 = Inr ()"
    by (simp add: check_sdkconfig_def copy_absent Let_def)
  moreover have "list_all (\<lambda>name. copy_tree (str name) = Absent) new_names"
    by (simp add: list_all_iff copy_absent)
  moreover have "for_each (check_member copy_env copy_tree) [] (map copy_member copy_files) = Inr copy_before"
    unfolding copy_before_def by (rule copy_checked)
  ultimately show ?thesis
    by (simp add: checked_copy_def)
qed

lemma count_sub_none:
  assumes "x \<in> set pat" "x \<notin> set s"
  shows "count_sub pat s = 0"
  using assms
proof (induction pat s rule: count_sub.induct)
  case (1 pat s)
  have "take (length pat) s \<noteq> pat"
    using 1(3,4) in_set_takeD [of x "length pat" s] by auto
  with 1 show ?case
    by (subst count_sub.simps) (auto dest: list.set_sel(2) [rotated])
qed

text \<open>A text whose first \<open>x\<close> is that of the pattern holds the pattern here, and then only in the rest.\<close>

lemma first_mismatch:
  assumes "\<exists>p q. pat = p @ x # q \<and> x \<notin> set p" "x \<notin> set (h # a)"
  shows "take (length pat) ((h # a) @ pat @ c) \<noteq> pat"
proof
  obtain p q where pat: "pat = p @ x # q" "x \<notin> set p"
    using assms(1) by blast
  assume "take (length pat) ((h # a) @ pat @ c) = pat"
  then have "((h # a) @ pat @ c) ! length p = pat ! length p"
    using nth_take [of "length p" "length pat" "(h # a) @ pat @ c"] by (simp add: pat(1))
  moreover have "((h # a) @ pat @ c) ! length p = (h # a @ p) ! length p"
    using nth_append [of "h # a @ p" "x # q @ c" "length p"] by (simp add: pat(1))
  moreover have "(h # a @ p) ! length p \<in> set (h # a @ p)"
    by (rule nth_mem) simp
  ultimately have "x \<in> set (h # a @ p)"
    by (simp add: pat(1))
  with assms(2) pat(2) show False by auto
qed

lemma count_sub_at:
  assumes "\<exists>p q. pat = p @ x # q \<and> x \<notin> set p" "x \<notin> set a"
  shows "count_sub pat (a @ pat @ c) = Suc (count_sub pat c)"
proof -
  have "pat \<noteq> []"
    using assms(1) by auto
  show ?thesis
    using assms(2)
  proof (induction a)
    case Nil
    show ?case using \<open>pat \<noteq> []\<close> by (subst count_sub.simps) simp
  next
    case (Cons h a)
    then show ?case
      using \<open>pat \<noteq> []\<close> first_mismatch [OF assms(1) Cons.prems] by (subst count_sub.simps) simp
  qed
qed

lemma anchor_char:
  "\<exists>p q. INCLUDE_ANCHOR = p @ 34 # q \<and> 34 \<notin> set p" "\<exists>p q. CONTROL_ANCHOR = p @ 38 # q \<and> 38 \<notin> set p"
  "\<exists>p q. EXIT_ANCHOR = p @ 120 # q \<and> 120 \<notin> set p" "\<exists>p q. CMAKE_ANCHOR = p @ 34 # q \<and> 34 \<notin> set p"
  "\<exists>p q. VERSION_ANCHOR = p @ 34 # q \<and> 34 \<notin> set p"
  by (rule split_list_first, simp add: INCLUDE_ANCHOR_def CONTROL_ANCHOR_def EXIT_ANCHOR_def CMAKE_ANCHOR_def VERSION_ANCHOR_def str_def)+

lemma copy_anchors: "anchors_unique sample_protocol CMAKE_ANCHOR VERSION_ANCHOR"
proof -
  note texts = INCLUDE_ANCHOR_def CONTROL_ANCHOR_def EXIT_ANCHOR_def CMAKE_ANCHOR_def VERSION_ANCHOR_def str_def
  have "count_sub INCLUDE_ANCHOR (CONTROL_ANCHOR @ EXIT_ANCHOR) = 0"
    by (rule count_sub_none [of 34]) (simp_all add: texts)
  moreover have "count_sub CONTROL_ANCHOR EXIT_ANCHOR = 0"
    by (rule count_sub_none [of 103]) (simp_all add: texts)
  moreover have "38 \<notin> set INCLUDE_ANCHOR" "120 \<notin> set (INCLUDE_ANCHOR @ CONTROL_ANCHOR)"
    by (simp_all add: texts)
  moreover have "count_sub pat [] = 0" for pat :: pystr
    by (subst count_sub.simps) simp
  ultimately have "count_sub INCLUDE_ANCHOR sample_protocol = 1" "count_sub CONTROL_ANCHOR sample_protocol = 1" "count_sub EXIT_ANCHOR sample_protocol = 1"
    "count_sub CMAKE_ANCHOR CMAKE_ANCHOR = 1" "count_sub VERSION_ANCHOR VERSION_ANCHOR = 1"
    using count_sub_at [OF anchor_char(1), of "[]" "CONTROL_ANCHOR @ EXIT_ANCHOR"] count_sub_at [OF anchor_char(2), of INCLUDE_ANCHOR EXIT_ANCHOR]
      count_sub_at [OF anchor_char(3), of "INCLUDE_ANCHOR @ CONTROL_ANCHOR" "[]"] count_sub_at [OF anchor_char(4), of "[]" "[]"]
      count_sub_at [OF anchor_char(5), of "[]" "[]"]
    unfolding sample_protocol_def by auto
  then show ?thesis
    by (simp add: anchors_unique_def)
qed


subsection \<open>The outputs of the sample\<close>

lemma replace_sub_none:
  assumes "x \<in> set pat" "x \<notin> set s"
  shows "replace_sub pat new s = s"
  using assms
proof (induction pat new s rule: replace_sub.induct)
  case (1 pat new s)
  have "take (length pat) s \<noteq> pat"
    using 1(3,4) in_set_takeD [of x "length pat" s] by auto
  with 1 show ?case
    by (cases s) (subst replace_sub.simps; simp)+
qed

lemma replace_sub_at:
  assumes "\<exists>p q. pat = p @ x # q \<and> x \<notin> set p" "x \<notin> set a"
  shows "replace_sub pat new (a @ pat @ c) = a @ new @ replace_sub pat new c"
proof -
  have "pat \<noteq> []"
    using assms(1) by auto
  show ?thesis
    using assms(2)
  proof (induction a)
    case Nil
    show ?case using \<open>pat \<noteq> []\<close> by (subst replace_sub.simps) simp
  next
    case (Cons h a)
    then show ?case
      using \<open>pat \<noteq> []\<close> first_mismatch [OF assms(1) Cons.prems] by (subst replace_sub.simps) simp
  qed
qed

lemma replace_filter:
  "x \<notin> set new \<Longrightarrow> length (filter (\<lambda>c. c = x) (replace_sub pat new s)) \<le> length (filter (\<lambda>c. c = x) s)"
proof (induction pat new s rule: replace_sub.induct)
  case (1 pat new s)
  show ?case
  proof (cases "s = [] \<or> pat = []")
    case True
    then show ?thesis by (subst replace_sub.simps) simp
  next
    case nonempty: False
    obtain c cs where s: "s = c # cs"
      using nonempty by (cases s) auto
    have new: "filter (\<lambda>c. c = x) new = []"
      using 1(3) by (auto simp: filter_empty_conv)
    show ?thesis
    proof (cases "take (length pat) s = pat")
      case True
      have "length (filter (\<lambda>c. c = x) (drop (length pat) s)) \<le> length (filter (\<lambda>c. c = x) s)"
        by (metis append_take_drop_id filter_append le_add2 length_append)
      with 1(1) [OF nonempty True 1(3)] nonempty True new show ?thesis
        by (subst replace_sub.simps) simp
    next
      case False
      with 1(2) [OF nonempty False 1(3)] nonempty s show ?thesis
        by (subst replace_sub.simps) auto
    qed
  qed
qed

lemma source_lines_size:
  "length (text_of_lines ls) = sum_list (map (\<lambda>l. Suc (length l)) ls)"
  "length (filter (\<lambda>c. c = 64) (text_of_lines ls)) = sum_list (map (\<lambda>l. length (filter (\<lambda>c. c = 64) l)) ls)"
  by (induction ls) (simp_all add: text_of_lines_def)

lemma text_of_lines_plain: "plain_text (text_of_lines ls) \<longleftrightarrow> list_all plain_text ls"
  by (induction ls) (simp_all add: text_of_lines_def)

lemma source_plain: "plain_text SOURCE"
  unfolding SOURCE_def text_of_lines_plain SOURCE_LINES_1_def SOURCE_LINES_2_def SOURCE_LINES_3_def
  by simp

lemma source_ats:
  "sum_list (map (\<lambda>l. length (filter (\<lambda>c. c = 64) l)) SOURCE_LINES_1) = 4"
  "sum_list (map (\<lambda>l. length (filter (\<lambda>c. c = 64) l)) SOURCE_LINES_2) = 4"
  "sum_list (map (\<lambda>l. length (filter (\<lambda>c. c = 64) l)) SOURCE_LINES_3) = 0"
  unfolding SOURCE_LINES_1_def SOURCE_LINES_2_def SOURCE_LINES_3_def by (simp_all add: str_def)

lemma source_lengths:
  "list_all (\<lambda>l. length l \<le> 160) SOURCE_LINES_1" "list_all (\<lambda>l. length l \<le> 160) SOURCE_LINES_2" "list_all (\<lambda>l. length l \<le> 160) SOURCE_LINES_3"
  unfolding SOURCE_LINES_1_def SOURCE_LINES_2_def SOURCE_LINES_3_def by simp_all


lemma source_bounds: "length SOURCE \<le> 26000" "length (filter (\<lambda>c. c = 64) SOURCE) = 8"
proof -
  have line: "sum_list (map (\<lambda>l. Suc (length l)) ls) \<le> 161 * length ls" if "list_all (\<lambda>l. length l \<le> 160) ls" for ls :: "pystr list"
    using that by (induction ls) auto
  have "length SOURCE_LINES_1 = 53" "length SOURCE_LINES_2 = 53" "length SOURCE_LINES_3 = 53"
    unfolding SOURCE_LINES_1_def SOURCE_LINES_2_def SOURCE_LINES_3_def by simp_all
  then show "length SOURCE \<le> 26000"
    using line [OF source_lengths(1)] line [OF source_lengths(2)] line [OF source_lengths(3)]
    by (simp only: SOURCE_def source_lines_size map_append sum_list.append)
  show "length (filter (\<lambda>c. c = 64) SOURCE) = 8"
    using source_ats by (simp only: SOURCE_def source_lines_size map_append sum_list.append)
qed

lemma guard_size: "plain_text (target_guard Esp32c3)" "64 \<notin> set (target_guard Esp32c3)" "length (target_guard Esp32c3) \<le> 200"
  "plain_text (str (target_name Esp32c3))" "length (str (target_name Esp32c3)) = 7"
  by (simp_all add: target_guard_def upper_name_def target_name_def plain_char_def) (simp add: str_def)

lemma observer_source_size: "plain_text (observer_source Esp32c3) \<and> 3 * length (observer_source Esp32c3) \<le> MAXIMUM"
proof -
  let ?a = "replace_sub (str ''@@TARGET_GUARD@@'') (target_guard Esp32c3) SOURCE"
  have hd: "hd (str ''@@TARGET_GUARD@@'') = 64" "hd (str ''@@TARGET@@'') = 64"
    by (simp_all add: str_def)
  have a: "plain_text ?a" "length ?a \<le> 26000 + 8 * 200"
    using replace_size [OF source_plain guard_size(1), of "str ''@@TARGET_GUARD@@''"] source_bounds guard_size(3) unfolding hd by auto
  have "length (filter (\<lambda>c. c = 64) ?a) \<le> 8"
    using replace_filter [OF guard_size(2), of "str ''@@TARGET_GUARD@@'' " SOURCE] source_bounds(2) by simp
  then have "length (filter (\<lambda>c. c = 64) ?a) * 7 \<le> 56"
    by simp
  then show ?thesis
    using replace_size [OF a(1) guard_size(4), of "str ''@@TARGET@@''"] a(2) unfolding hd guard_size(5)
    by (simp add: observer_source_def MAXIMUM_def)
qed

definition prepared_texts :: "(string \<times> pystr) list" where
  "prepared_texts = [(PROTOCOL, protocol_source sample_protocol), (CMAKE, cmake_source Esp32c3 CMAKE_ANCHOR), (FIRMWARE_CMAKE, firmware_cmake_source VERSION_ANCHOR),
     (OBSERVER_C, observer_source Esp32c3), (OBSERVER_H, HEADER), (DEFAULTS, DEFAULTS_TEXT)]"

lemma prepared_protocol:
  "protocol_source sample_protocol =
     (INCLUDE_ANCHOR @ str ''#include \"esp_base_capacity_observer.h\"'' @ [10]) @
     (str ''        esp_base_capacity_observer_poll(uptime_ms());'' @ [10] @ CONTROL_ANCHOR) @
     (str ''    esp_base_capacity_observer_ota_exit();'' @ [10] @ EXIT_ANCHOR)"
proof -
  note texts = INCLUDE_ANCHOR_def CONTROL_ANCHOR_def EXIT_ANCHOR_def str_def
  let ?inc = "INCLUDE_ANCHOR @ str ''#include \"esp_base_capacity_observer.h\"'' @ [10]"
  let ?ctl = "str ''        esp_base_capacity_observer_poll(uptime_ms());'' @ [10] @ CONTROL_ANCHOR"
  have none: "replace_sub INCLUDE_ANCHOR new (CONTROL_ANCHOR @ EXIT_ANCHOR) = CONTROL_ANCHOR @ EXIT_ANCHOR"
    "replace_sub CONTROL_ANCHOR new EXIT_ANCHOR = EXIT_ANCHOR" for new
    by (rule replace_sub_none [of 34], simp_all add: texts) (rule replace_sub_none [of 103], simp_all add: texts)
  have "replace_sub pat new [] = []" for pat new :: pystr
    by (subst replace_sub.simps) simp
  moreover have "38 \<notin> set ?inc" "120 \<notin> set (?inc @ ?ctl)"
    by (simp_all add: texts)
  ultimately show ?thesis
    using replace_sub_at [OF anchor_char(1), of "[]" ?inc "CONTROL_ANCHOR @ EXIT_ANCHOR"] replace_sub_at [OF anchor_char(2), of ?inc ?ctl EXIT_ANCHOR]
      replace_sub_at [OF anchor_char(3), of "?inc @ ?ctl" "str ''    esp_base_capacity_observer_ota_exit();'' @ [10] @ EXIT_ANCHOR" "[]"] none
    unfolding protocol_source_def sample_protocol_def Let_def by simp
qed

lemma prepared_cmake:
  "cmake_source Esp32c3 CMAKE_ANCHOR = cmake_guard Esp32c3 @ CMAKE_ANCHOR @ str '' \"esp_base_capacity_observer.c\"''"
  "firmware_cmake_source VERSION_ANCHOR = str ''    set(ESP_BASE_VERSION_SUFFIX \"-capacity-lab\")''"
proof -
  have "replace_sub pat new [] = []" for pat new :: pystr
    by (subst replace_sub.simps) simp
  then show "cmake_source Esp32c3 CMAKE_ANCHOR = cmake_guard Esp32c3 @ CMAKE_ANCHOR @ str '' \"esp_base_capacity_observer.c\"''"
    "firmware_cmake_source VERSION_ANCHOR = str ''    set(ESP_BASE_VERSION_SUFFIX \"-capacity-lab\")''"
    using replace_sub_at [OF anchor_char(4), of "[]" _ "[]"] replace_sub_at [OF anchor_char(5), of "[]" _ "[]"]
    unfolding cmake_source_def firmware_cmake_source_def by simp_all
qed

lemma prepared_sizes: "\<forall>(name, s) \<in> set prepared_texts. plain_text s \<and> 3 * length s \<le> MAXIMUM"
  using observer_source_size unfolding prepared_texts_def prepared_protocol prepared_cmake
  by (simp add: INCLUDE_ANCHOR_def CONTROL_ANCHOR_def EXIT_ANCHOR_def CMAKE_ANCHOR_def VERSION_ANCHOR_def cmake_guard_def HEADER_def HEADER_LINES_def
      DEFAULTS_TEXT_def text_of_lines_def target_name_def MAXIMUM_def)


lemma encode_all:
  assumes "\<forall>(name, s) \<in> set texts. plain_text s \<and> 3 * length s \<le> MAXIMUM"
  shows "\<exists>raws. for_each (\<lambda>out (name, s). bindE (encoded_text s) (\<lambda>raw. Inr (out @ [(str name, raw)]))) start texts = Inr (start @ raws) \<and>
    (\<forall>(name, raw) \<in> set raws. length raw \<le> MAXIMUM)"
  using assms
proof (induction texts arbitrary: start)
  case Nil
  show ?case by simp
next
  case (Cons t texts)
  obtain name s where t: "t = (name, s)" by (cases t)
  obtain raw where raw: "utf8_encode s = Some raw" "length raw \<le> MAXIMUM"
    using plain_encoded [of s] Cons.prems t by fastforce
  obtain raws where "for_each (\<lambda>out (name, s). bindE (encoded_text s) (\<lambda>raw. Inr (out @ [(str name, raw)]))) (start @ [(str name, raw)]) texts = Inr ((start @ [(str name, raw)]) @ raws)"
    "\<forall>(name, raw) \<in> set raws. length raw \<le> MAXIMUM"
    using Cons.IH [of "start @ [(str name, raw)]"] Cons.prems by auto
  then show ?case
    using raw by (intro exI [of _ "(str name, raw) # raws"]) (simp add: t encoded_text_def)
qed

lemma copy_decoded:
  "decoded copy_before PROTOCOL = Inr sample_protocol" "decoded copy_before CMAKE = Inr CMAKE_ANCHOR" "decoded copy_before FIRMWARE_CMAKE = Inr VERSION_ANCHOR"
proof -
  have content: "copy_content (str PROTOCOL) = Some (text_bytes sample_protocol)" "copy_content (str CMAKE) = Some (text_bytes CMAKE_ANCHOR)"
    "copy_content (str FIRMWARE_CMAKE) = Some (text_bytes VERSION_ANCHOR)"
    by (rule copy_content_in, simp add: copy_files_def)+
  have "list_all (\<lambda>c. c < 128) sample_protocol" "list_all (\<lambda>c. c < 128) CMAKE_ANCHOR" "list_all (\<lambda>c. c < 128) VERSION_ANCHOR"
    by (simp_all add: sample_protocol_def INCLUDE_ANCHOR_def CONTROL_ANCHOR_def EXIT_ANCHOR_def CMAKE_ANCHOR_def VERSION_ANCHOR_def str_def)
  then show "decoded copy_before PROTOCOL = Inr sample_protocol" "decoded copy_before CMAKE = Inr CMAKE_ANCHOR" "decoded copy_before FIRMWARE_CMAKE = Inr VERSION_ANCHOR"
    by (simp_all add: decoded_def member_of_def copy_before_content content text_bytes_coded)
qed

lemma copy_patch: "patch_text copy_env copy_before prepared_texts = Inr []"
proof -
  have "for_each (\<lambda>patch (name, new). bindE (of_option (Raise UnicodeError name) (utf8_decode (case map_of copy_before (str name) of None \<Rightarrow> [] | Some raw \<Rightarrow> raw)))
      (\<lambda>old. Inr (patch @ concat (ob_diff copy_env (lines_keeping_ends old) (lines_keeping_ends new) (str name))))) [] texts = Inr []"
    if "\<forall>(name, s) \<in> set texts. \<exists>old. utf8_decode (case map_of copy_before (str name) of None \<Rightarrow> [] | Some raw \<Rightarrow> raw) = Some old" for texts
    using that by (induction texts) (auto simp: copy_env_def)
  moreover have "\<forall>(name, s) \<in> set prepared_texts. \<exists>old. utf8_decode (case map_of copy_before (str name) of None \<Rightarrow> [] | Some raw \<Rightarrow> raw) = Some old"
  proof -
    have "map_of copy_before (str name) = None" if "name \<in> set new_names" for name
      using copy_absent [of name] that by (simp add: copy_before_content copy_tree_def split: option.splits)
    then show ?thesis
      using copy_decoded by (auto simp: prepared_texts_def decoded_def member_of_def res_simps new_names_def)
  qed
  ultimately show ?thesis
    by (simp add: patch_text_def)
qed

lemma copy_outputs: "\<exists>outputs. observer_outputs copy_env Esp32c3 copy_before = Inr outputs \<and> (\<forall>(name, raw) \<in> set outputs. length raw \<le> MAXIMUM)"
proof -
  have "observer_texts Esp32c3 copy_before = Inr prepared_texts"
    by (simp add: observer_texts_def copy_decoded copy_anchors prepared_texts_def)
  moreover obtain raws where "for_each (\<lambda>out (name, s). bindE (encoded_text s) (\<lambda>raw. Inr (out @ [(str name, raw)]))) [] prepared_texts = Inr raws"
    "\<forall>(name, raw) \<in> set raws. length raw \<le> MAXIMUM"
    using encode_all [OF prepared_sizes, of "[]"] by auto
  moreover have "encoded_text [] = Inr []"
    by (simp add: encoded_text_def)
  ultimately show ?thesis
    by (auto simp: observer_outputs_def copy_patch)
qed

lemma decimal_short: "n < 10 ^ Suc k \<Longrightarrow> length (decimal n) \<le> Suc k"
proof (induction k arbitrary: n)
  case 0
  then show ?case by (subst decimal.simps) simp
next
  case (Suc k)
  show ?case
  proof (cases "n < 10")
    case True
    then show ?thesis by (subst decimal.simps) simp
  next
    case False
    have "length (decimal (n div 10)) \<le> Suc k"
      using Suc.prems by (intro Suc.IH) (simp add: div_less_iff_less_mult)
    with False show ?thesis by (subst decimal.simps) simp
  qed
qed

lemma generated_size:
  assumes "length raw \<le> MAXIMUM"
  shows "plain_val (PDict [(str ''sha256'', PStr (digest raw)), (str ''size_bytes'', PInt (int (length raw)))])"
    and "weight n (PDict [(str ''sha256'', PStr (digest raw)), (str ''size_bytes'', PInt (int (length raw)))]) \<le> 6 * n + 600"
proof -
  show "plain_val (PDict [(str ''sha256'', PStr (digest raw)), (str ''size_bytes'', PInt (int (length raw)))])"
    by (simp add: plain_digest)
  have "length (decimal (length raw)) \<le> 7"
    using decimal_short [of "length raw" 6] assms by (simp add: MAXIMUM_def)
  moreover have "length (digest raw) = 64"
    using digest_hex64 by (simp add: lower_hex_text_def)
  ultimately show "weight n (PDict [(str ''sha256'', PStr (digest raw)), (str ''size_bytes'', PInt (int (length raw)))]) \<le> 6 * n + 600"
    by simp
qed

lemma generated_files_size:
  assumes "\<forall>(name, raw) \<in> set outputs. length raw \<le> MAXIMUM \<and> plain_text name \<and> length name \<le> 100"
  shows "plain_val (generated_files outputs)" and "weight n (generated_files outputs) \<le> 2 * n + 3 + length outputs * (8 * n + 1400)"
proof -
  let ?entry = "\<lambda>(name, raw). (name, PDict [(str ''sha256'', PStr (digest raw)), (str ''size_bytes'', PInt (int (length raw)))])"
  have "plain_pairs (map ?entry outputs) \<and> weight_pairs (Suc n) (map ?entry outputs) \<le> length outputs * (8 * n + 1400)"
    using assms
  proof (induction outputs)
    case Nil
    show ?case by simp
  next
    case (Cons out outputs)
    obtain name raw where out: "out = (name, raw)" by (cases out)
    show ?case
      using Cons generated_size(1) [of raw] generated_size(2) [of raw "Suc n"] by (simp add: out del: weight.simps plain_val.simps)
  qed
  then show "plain_val (generated_files outputs)" and "weight n (generated_files outputs) \<le> 2 * n + 3 + length outputs * (8 * n + 1400)"
    by (simp_all add: generated_files_def)
qed

lemma copy_members_size: "plain_items (map copy_member copy_files)" "weight_items n (map copy_member copy_files) \<le> 6 * (10 * n + 2000)"
proof -
  have member: "plain_val (copy_member (name, raw)) \<and> weight n (copy_member (name, raw)) \<le> 8 * n + 1800"
    if "length raw \<le> MAXIMUM" "length name \<le> 100" for name raw
    using generated_size(1) [of raw] generated_size(2) [of raw "Suc n"] that by (simp add: copy_member_def)
  have "plain_items (map copy_member fs) \<and> weight_items n (map copy_member fs) \<le> length fs * (10 * n + 2000)"
    if "\<forall>(name, raw) \<in> set fs. length raw \<le> MAXIMUM \<and> length name \<le> 100" for fs
    using that
  proof (induction fs)
    case Nil
    show ?case by simp
  next
    case (Cons f fs)
    then show ?case
      using member [of "snd f" "fst f"] by (cases f) (simp del: weight.simps plain_val.simps)
  qed
  moreover have "\<forall>(name, raw) \<in> set copy_files. length name \<le> 100"
    by (simp add: copy_files_def path_defs)
  moreover have "\<forall>(name, raw) \<in> set copy_files. length raw \<le> MAXIMUM"
    using copy_small by (fastforce simp: MAXIMUM_def)
  moreover have "length copy_files = 6"
    by (simp add: copy_files_def)
  ultimately have "plain_items (map copy_member copy_files) \<and> weight_items n (map copy_member copy_files) \<le> length copy_files * (10 * n + 2000)"
    by blast
  then show "plain_items (map copy_member copy_files)" "weight_items n (map copy_member copy_files) \<le> 6 * (10 * n + 2000)"
    by (simp_all add: \<open>length copy_files = 6\<close>)
qed

lemma report_size:
  assumes "map fst outputs = map str (edited_names @ [OBSERVER_C, OBSERVER_H, DEFAULTS, PATCH])" "\<forall>(name, raw) \<in> set outputs. length raw \<le> MAXIMUM"
  shows "\<exists>raw. receipt_bytes (observer_report copy_env Esp32c3 (map copy_member copy_files) (str ''1.2.3'') (digest [0]) outputs patch) = Inr raw \<and> length raw \<le> MAXIMUM"
proof -
  let ?report = "observer_report copy_env Esp32c3 (map copy_member copy_files) (str ''1.2.3'') (digest [0]) outputs patch"
  have digests: "plain_text (digest raw)" "length (digest raw) = 64" for raw
    using digest_hex64 [of raw] by (simp_all add: lower_hex_text_def plain_digest)
  have "\<forall>(name, raw) \<in> set outputs. plain_text name \<and> length name \<le> 100"
  proof -
    have "\<forall>name \<in> set (map fst outputs). plain_text name \<and> length name \<le> 100"
      unfolding assms(1) edited_names_def by (simp add: path_defs)
    then show ?thesis by auto
  qed
  then have files: "plain_val (generated_files outputs)" "weight 1 (generated_files outputs) \<le> 5 + length outputs * 1408"
    using generated_files_size(1) [of outputs] generated_files_size(2) [of outputs 1] assms(2) by fastforce+
  have "length outputs = 7"
    using arg_cong [OF assms(1), of length] by (simp add: edited_names_def)
  then have weights: "weight (Suc 0) (generated_files outputs) \<le> 9861" "weight_items (Suc (Suc 0)) (map copy_member copy_files) \<le> 12120"
    using files(2) copy_members_size(2) [of 2] by (simp_all add: numeral_2_eq_2)
  have numbers: "length (decimal n) \<le> 7" if "n < 10 ^ 7" for n
    using decimal_short [of n 6] that by simp
  have "plain_val (PDict ?report)"
    using digests(1) files(1) copy_members_size(1)
    by (simp add: observer_report_def LAB_SUFFIX_def target_name_def copy_env_def path_defs)
  moreover have "weight 0 (PDict ?report) \<le> 100000"
    using weights digests(2) numbers [of "Suc 0"] numbers [of 0] numbers [of 2] numbers [of 32] numbers [of 64] numbers [of 5000]
    by (simp add: observer_report_def LAB_SUFFIX_def target_name_def copy_env_def path_defs)
  ultimately have "plain_text (json_indent 0 (sorted_keys (PDict ?report)))" "length (json_indent 0 (sorted_keys (PDict ?report))) \<le> 100000"
    using json_indent_size(1) [of "sorted_keys (PDict ?report)" 0] sorted_plain(1) [of "PDict ?report"] sorted_weight(1) [of 0 "PDict ?report"]
    by (simp_all del: sorted_keys.simps weight.simps plain_val.simps)
  then show ?thesis
    using plain_encoded [of "json_indent 0 (sorted_keys (PDict ?report)) @ [10]"]
    by (auto simp: receipt_bytes_def encoded_text_def MAXIMUM_def plain_char_def simp del: sorted_keys.simps)
qed

lemma copy_edited: "name \<in> set edited_names \<Longrightarrow> \<exists>raw. (name, raw) \<in> set copy_files"
  by (auto simp: edited_names_def copy_files_def)

lemma copy_plan:
  "\<exists>outputs patch. observer_plan copy_env copy_tree Esp32c3 =
       Inr (outputs, observer_report copy_env Esp32c3 (map copy_member copy_files) (str ''1.2.3'') (digest [0]) outputs patch) \<and>
     (\<forall>(name, raw) \<in> set outputs. length raw \<le> MAXIMUM)"
proof -
  obtain outputs where out: "observer_outputs copy_env Esp32c3 copy_before = Inr outputs" "\<forall>(name, raw) \<in> set outputs. length raw \<le> MAXIMUM"
    using copy_outputs by blast
  obtain patch where patch: "map_of outputs (str PATCH) = Some patch"
  proof -
    have "str PATCH \<in> fst ` set outputs"
      using out(1) by (auto simp: observer_outputs_def res_simps)
    then show ?thesis
      using that by (metis map_of_eq_None_iff option.exhaust)
  qed
  have read: "read_input copy_env copy_tree (str name) = of_option e (copy_content (str name)) \<and> copy_content (str name) \<noteq> None" if edited: "name \<in> set edited_names" for name e
  proof -
    obtain raw where "(name, raw) \<in> set copy_files"
      using copy_edited [OF edited] by blast
    then show ?thesis by (simp add: copy_read copy_content_in)
  qed
  have "for_each (\<lambda>_ name. bindE (read_input copy_env copy_tree (str name)) (\<lambda>raw.
        require (map_of copy_before (str name) = Some raw) (preparation ''source changed before writing'') (Inr ()))) () names = Inr ()"
    if "set names \<subseteq> set edited_names" for names
    using that by (induction names) (use read in \<open>fastforce simp: copy_before_content\<close>)+
  then show ?thesis
    using out patch by (auto simp: observer_plan_def copy_accepted Let_def)
qed

lemma copy_prepared: "\<exists>report tree'. prepare_observer copy_env copy_tree Esp32c3 = (Inr report, tree')"
proof -
  obtain outputs patch where plan: "observer_plan copy_env copy_tree Esp32c3 =
       Inr (outputs, observer_report copy_env Esp32c3 (map copy_member copy_files) (str ''1.2.3'') (digest [0]) outputs patch)"
    and small: "\<forall>(name, raw) \<in> set outputs. length raw \<le> MAXIMUM"
    using copy_plan by blast
  note writes = output_writes [OF plan]
  let ?ws = "map (\<lambda>(name, raw). (name, raw, name \<notin> set (map str edited_names))) outputs"
  have "writable copy_tree (name, raw, name \<notin> set (map str edited_names))" if mem: "(name, raw) \<in> set outputs" for name raw
  proof -
    have "name \<in> set (map fst ?ws)"
      using mem by force
    then have "name \<in> set (map str edited_names) \<or> name \<in> set (map str new_names)"
      unfolding writes(2) by (auto simp: new_names_def)
    moreover have "\<exists>old. copy_tree (str n) = File old" if "n \<in> set edited_names" for n
      using copy_edited [OF that] copy_content_in by (auto simp: copy_tree_def)
    moreover have "length raw \<le> MAXIMUM"
      using small mem by auto
    ultimately show ?thesis
      using copy_absent by (auto simp: writable_def)
  qed
  then have "list_all (writable copy_tree) ?ws"
    by (auto simp: list_all_iff)
  then obtain tree1 where w1: "write_nodes copy_env copy_tree ?ws = (Inr (), tree1)"
    using write_nodes_ok [OF _ _ _ writes(1)] by (meson copy_env_simps(1,2))
  obtain raw where raw: "receipt_bytes (observer_report copy_env Esp32c3 (map copy_member copy_files) (str ''1.2.3'') (digest [0]) outputs patch) = Inr raw" "length raw \<le> MAXIMUM"
    using report_size [OF plan_facts(1) [OF plan] small] by blast
  have "tree1 (str RECEIPT) = Absent"
    using write_nodes_other [OF w1 writes(3)] copy_absent by (simp add: new_names_def)
  then have "write_node copy_env tree1 (str RECEIPT) raw True = (Inr (), tree1(str RECEIPT := File raw))"
    using raw(2) by (intro write_node_ok) (simp_all add: writable_def)
  then show ?thesis
    using plan w1 raw(1) by (simp add: prepare_observer_def)
qed


theorem observer_only_adds_witness:
  "\<exists>report tree'. prepare_observer copy_env copy_tree Esp32c3 = (Inr report, tree') \<and>
     tree' (str ''firmware/dependencies.lock'') = File (ascii ''target: esp32c3'') \<and> (\<exists>raw. tree' (str OBSERVER_C) = File raw)"
proof -
  obtain report tree' where run: "prepare_observer copy_env copy_tree Esp32c3 = (Inr report, tree')"
    using copy_prepared by blast
  obtain outputs files where "\<forall>p. p \<notin> set (map str (edited_names @ new_names)) \<longrightarrow> tree' p = copy_tree p"
    and names: "map fst outputs @ [str RECEIPT] = map str (edited_names @ new_names)"
    and "\<forall>(name, new) \<in> set outputs. tree' name = File new \<and>
       map_of files name = Some (PDict [(str ''sha256'', PStr (digest new)), (str ''size_bytes'', PInt (int (length new)))])"
    using observer_only_adds [OF run] by blast
  moreover have "copy_tree (str ''firmware/dependencies.lock'') = File (ascii ''target: esp32c3'')"
    using copy_content_in [of "''firmware/dependencies.lock''" "ascii ''target: esp32c3''"] by (simp add: copy_tree_def copy_files_def)
  moreover have "str ''firmware/dependencies.lock'' \<notin> set (map str (edited_names @ new_names))"
    by (simp add: edited_names_def new_names_def str_inj_iff) (simp add: path_defs)
  moreover have "str OBSERVER_C \<in> fst ` set outputs"
    using arg_cong [OF names, of "\<lambda>xs. str OBSERVER_C \<in> set xs"] by (auto simp: new_names_def str_inj_iff path_defs)
  ultimately show ?thesis
    using run by fastforce
qed

theorem observer_receipt_last_witness:
  "\<exists>report tree'. prepare_observer copy_env copy_tree Esp32c3 = (Inr report, tree') \<and> tree' (str RECEIPT) \<noteq> copy_tree (str RECEIPT) \<and>
     (\<exists>outputs report'. observer_plan copy_env copy_tree Esp32c3 = Inr (outputs, report') \<and> list_all (\<lambda>(name, new). tree' name = File new) outputs)"
proof -
  obtain report tree' where run: "prepare_observer copy_env copy_tree Esp32c3 = (Inr report, tree')"
    using copy_prepared by blast
  then obtain receipt tree1 where "write_node copy_env tree1 (str RECEIPT) receipt True = (Inr (), tree')"
    by (auto simp: prepare_observer_def split: sum.splits prod.splits)
  then have "tree' (str RECEIPT) \<noteq> copy_tree (str RECEIPT)"
    using copy_absent [of RECEIPT] by (auto dest!: write_node_Inr simp: new_names_def)
  with observer_receipt_last [OF run] run show ?thesis
    by (auto simp: list_all_iff)
qed

end
