(* ===== verification/Mqtt_Lab.thy ===== *)
theory Mqtt_Lab
  imports Complex_Main Event_Publish Device_Control
begin

text \<open>
  The laboratory check of the MQTT application (\<^verbatim>\<open>mqtt_lab_check.py\<close>): it connects to an isolated broker, proves with fresh
  random payloads that the device answers, measures the round trips, and sends the control words of the optional checks (dynamic
  subscriptions, station cycles, rebuild cycles).

  The state \<open>lab\<close> is the environment and the trace of the run.  Waiting loops consume ticks as in \<open>Event_Publish\<close>; a
  timeout is in the ticks, so the two timeouts of the command line do not appear in the loops.  What the client library answers to the \<open>k\<close>-th publication, the
  random payload drawn before it, and the readings of the monotonic clock just before it and after its echo, in seconds, are functions of \<open>k\<close>.
  Clock readings are rational numbers and the latency is their exact difference in milliseconds, rounded to three decimals with ties to even; that
  the code computes it in floating point is not modelled.  This client posts no \<open>Disconnected\<close> item.

  Lemmas: whatever happens, the run publishes a prefix of its plan, each entry once; a report is
  printed only when every step of the plan was answered by the device; and a device that answers every step gets its report.
\<close>

subsection \<open>The state\<close>

datatype delivery = Rejected | Unconfirmed | Delivered

datatype occurrence =
    Opened
  | Asked "(pystr \<times> int) list"
  | Sent pystr bytes int
  | Seen item
  | Closed

record lab =
  lw_connect :: "unit res"
  lw_subscribe :: "bool \<times> int"
  lw_answer :: "nat \<Rightarrow> delivery"
  lw_random :: "nat \<Rightarrow> nat \<Rightarrow> bytes"
  lw_clock :: "nat \<Rightarrow> rat \<times> rat"
  lw_ticks :: "tick list"
  lw_trace :: "occurrence list"

type_synonym 'a lab_act = "lab \<Rightarrow> 'a res \<times> lab"

fun sent_messages :: "occurrence list \<Rightarrow> (pystr \<times> bytes \<times> int) list" where
  "sent_messages [] = []"
| "sent_messages (Sent topic payload qos # os) = (topic, payload, qos) # sent_messages os"
| "sent_messages (_ # os) = sent_messages os"

definition published :: "lab \<Rightarrow> nat" where
  "published w = length (sent_messages (lw_trace w))"

definition record_trace :: "occurrence list \<Rightarrow> lab \<Rightarrow> lab" where
  "record_trace new w = w\<lparr>lw_trace := lw_trace w @ new\<rparr>"

definition liftL :: "'a res \<Rightarrow> 'a lab_act" where
  "liftL r w = (r, w)"

definition bindL :: "'a lab_act \<Rightarrow> ('a \<Rightarrow> 'b lab_act) \<Rightarrow> 'b lab_act" where
  "bindL a f w = (case a w of (Inl e, w') \<Rightarrow> (Inl e, w') | (Inr x, w') \<Rightarrow> f x w')"

definition whenL :: "bool \<Rightarrow> unit lab_act \<Rightarrow> unit lab_act" where
  "whenL c a = (if c then a else liftL (Inr ()))"

fun repeatL :: "nat \<Rightarrow> unit lab_act \<Rightarrow> unit lab_act" where
  "repeatL 0 a = liftL (Inr ())"
| "repeatL (Suc n) a = bindL a (\<lambda>_. repeatL n a)"

subsection \<open>Arguments and credentials\<close>

record lab_args =
  la_port :: int
  la_device :: pystr
  la_plaintext :: bool
  la_cycles :: int
  la_samples :: bool
  la_subscriptions :: bool
  la_wifi_cycles :: int
  la_timeout :: rat
  la_ready_timeout :: rat

definition lab_arguments :: "lab_args \<Rightarrow> unit res" where
  "lab_arguments a = (case uuid_parse (la_device a) of
      None \<Rightarrow> Inl (Raise ValueError ''badly formed hexadecimal UUID string'')
    | Some parsed \<Rightarrow>
        require (uuid_version parsed = Some 4 \<and> uuid_str parsed = la_device a \<and> 0 \<le> la_cycles a \<and> la_cycles a \<le> 100 \<and>
                 1 \<le> la_port a \<and> la_port a \<le> 65535) (usage ''identity, cycles or port'')
        (require (0 < la_timeout a \<and> la_timeout a \<le> 120 \<and> 0 < la_ready_timeout a \<and> la_ready_timeout a \<le> 180) (usage ''timeout'')
        (require (0 \<le> la_wifi_cycles a \<and> la_wifi_cycles a \<le> 10) (usage ''station cycles'') (Inr ()))))"

definition load_credentials :: "(bytes \<Rightarrow> pyval res) \<Rightarrow> file_facts \<Rightarrow> (pystr \<times> pyval) list res" where
  "load_credentials loads f =
     bindE (load_private_config loads f) (\<lambda>v. (case v of
        PDict d \<Rightarrow>
          require (keys_are d [''username'', ''password''] \<and>
                   list_all (\<lambda>(_, x). case x of PStr s \<Rightarrow> s \<noteq> [] \<and> 0 \<notin> set s | _ \<Rightarrow> False) d)
            (Raise ValueError ''laboratory account'') (Inr d)
      | _ \<Rightarrow> Inl (Raise ValueError ''laboratory account'')))"

subsection \<open>Waiting and publishing\<close>

abbreviation no_answer :: exn where
  "no_answer \<equiv> Raise TimeoutError ''no result of the device''"

text \<open>The result, the items that were taken from the queue, and the ticks that are left.\<close>

fun await :: "(item \<Rightarrow> bool) \<Rightarrow> tick list \<Rightarrow> item res \<times> item list \<times> tick list" where
  "await p [] = (Inl no_answer, [], [])"
| "await p (t # ts) =
     (if t_expired t then (Inl no_answer, [], ts)
      else if t_overflow t then (Inl (Raise RuntimeError ''observation queue overflow''), [], ts)
      else (case t_item t of
          None \<Rightarrow> (Inl no_answer, [], ts)
        | Some i \<Rightarrow>
            if i = Connected False then (Inl (Raise RuntimeError ''account refused''), [i], ts)
            else if p i then (Inr i, [i], ts)
            else (case await p ts of (r, seen, ts') \<Rightarrow> (r, i # seen, ts'))))"

definition wait_for :: "(item \<Rightarrow> bool) \<Rightarrow> item lab_act" where
  "wait_for p w = (case await p (lw_ticks w) of (r, seen, ts) \<Rightarrow> (r, record_trace (map Seen seen) (w\<lparr>lw_ticks := ts\<rparr>)))"

definition lab_topic :: "pystr \<Rightarrow> string \<Rightarrow> pystr" where
  "lab_topic device topic = str ''esp-base-lab/'' @ device @ str ''/'' @ str topic"

definition publish :: "pystr \<Rightarrow> string \<Rightarrow> bytes \<Rightarrow> int \<Rightarrow> unit lab_act" where
  "publish device topic payload qos w =
     (case lw_answer w (published w) of
        Rejected \<Rightarrow> Inl (Raise RuntimeError ''publication failed'')
      | Unconfirmed \<Rightarrow> Inl (Raise TimeoutError ''publication unconfirmed'')
      | Delivered \<Rightarrow> Inr (),
      record_trace [Sent (lab_topic device topic) payload qos] w)"

definition token_bytes :: "nat \<Rightarrow> bytes lab_act" where
  "token_bytes n w = (Inr (lw_random w (published w) n), w)"

definition is_echo :: "pystr \<Rightarrow> bytes \<Rightarrow> int \<Rightarrow> item \<Rightarrow> bool" where
  "is_echo device payload qos i = (i = Message (lab_topic device ''out'') payload qos False)"

definition is_online :: "pystr \<Rightarrow> bool \<Rightarrow> item \<Rightarrow> bool" where
  "is_online device live i = (case i of
      Message topic payload qos retain \<Rightarrow> topic = lab_topic device ''status'' \<and> payload = ascii ''online'' \<and> (live \<longrightarrow> \<not> retain)
    | _ \<Rightarrow> False)"

text \<open>\<^verbatim>\<open>round((after - before) * 1000, 3)\<close>.\<close>

definition round_even :: "rat \<Rightarrow> int" where
  "round_even x = (let n = \<lfloor>x\<rfloor>; part = x - of_int n in if part < 1 / 2 \<or> part = 1 / 2 \<and> even n then n else n + 1)"

definition milliseconds :: "rat \<times> rat \<Rightarrow> rat" where
  "milliseconds = (\<lambda>(before, after). of_int (round_even ((after - before) * 1000 * 1000)) / 1000)"

text \<open>The latency of an echo.\<close>

definition echo :: "pystr \<Rightarrow> bytes \<Rightarrow> int \<Rightarrow> string \<Rightarrow> rat lab_act" where
  "echo device payload qos topic w =
     (let readings = lw_clock w (published w) in
      bindL (publish device topic payload qos) (\<lambda>_.
      bindL (wait_for (is_echo device payload qos)) (\<lambda>_. liftL (Inr (milliseconds readings)))) w)"

text \<open>An echo of a fresh payload.\<close>

definition proof_echo :: "pystr \<Rightarrow> string \<Rightarrow> string \<Rightarrow> unit lab_act" where
  "proof_echo device head topic =
     bindL (token_bytes 32) (\<lambda>token. bindL (echo device (ascii head @ token) 1 topic) (\<lambda>_. liftL (Inr ())))"

definition ready :: "pystr \<Rightarrow> unit lab_act" where
  "ready device = bindL (wait_for (is_online device False)) (\<lambda>_. proof_echo device ''ready-proof-'' ''in'')"

definition live_ready :: "pystr \<Rightarrow> unit lab_act" where
  "live_ready device = bindL (wait_for (is_online device True)) (\<lambda>_. proof_echo device ''fresh-proof-'' ''in'')"

definition control :: "pystr \<Rightarrow> string \<Rightarrow> unit lab_act" where
  "control device word = publish device ''in'' (ascii word) 0"

definition resource_sample :: "pystr \<Rightarrow> unit lab_act" where
  "resource_sample device = bindL (control device '':stats'') (\<lambda>_. proof_echo device ''after-stats-'' ''in'')"

subsection \<open>The negative check\<close>

definition delivered_on :: "pystr \<Rightarrow> bytes \<Rightarrow> item \<Rightarrow> bool" where
  "delivered_on device payload i = (case i of
      Message topic content qos retain \<Rightarrow> topic = lab_topic device ''out'' \<and> content = payload
    | _ \<Rightarrow> False)"

text \<open>The loop runs until its deadline; \<open>live\<close> says whether the sentinel has come back.\<close>

fun watch :: "pystr \<Rightarrow> bytes \<Rightarrow> bytes \<Rightarrow> bool \<Rightarrow> tick list \<Rightarrow> bool res \<times> item list \<times> tick list" where
  "watch device payload sentinel live [] = (Inr live, [], [])"
| "watch device payload sentinel live (t # ts) =
     (if t_expired t then (Inr live, [], ts)
      else (case t_item t of
          None \<Rightarrow> watch device payload sentinel live ts
        | Some i \<Rightarrow>
            if t_overflow t then (Inl (Raise RuntimeError ''observation queue overflow''), [i], ts)
            else if delivered_on device payload i then (Inl (Raise RuntimeError ''message of an unsubscribed topic''), [i], ts)
            else (case watch device payload sentinel (live \<or> delivered_on device sentinel i) ts of (r, seen, ts') \<Rightarrow> (r, i # seen, ts'))))"

definition watch_for :: "pystr \<Rightarrow> bytes \<Rightarrow> bytes \<Rightarrow> bool lab_act" where
  "watch_for device payload sentinel w =
     (case watch device payload sentinel False (lw_ticks w) of (r, seen, ts) \<Rightarrow> (r, record_trace (map Seen seen) (w\<lparr>lw_ticks := ts\<rparr>)))"

definition no_extra_echo :: "pystr \<Rightarrow> unit lab_act" where
  "no_extra_echo device =
     bindL (token_bytes 32) (\<lambda>t1. let payload = ascii ''unsubscribed-proof-'' @ t1 in
     bindL (publish device ''extra'' payload 1) (\<lambda>_.
     bindL (token_bytes 32) (\<lambda>t2. let sentinel = ascii ''still-live-'' @ t2 in
     bindL (publish device ''in'' sentinel 1) (\<lambda>_.
     bindL (watch_for device payload sentinel) (\<lambda>live.
     liftL (require live (Raise TimeoutError ''no proof that the device is online'') (Inr ())))))))"

subsection \<open>The session\<close>

record lab_case =
  lc_qos :: int
  lc_bytes :: nat
  lc_ms :: rat

definition lab_sizes :: "(int \<times> nat) list" where
  "lab_sizes = [(0, 0), (0, 1), (0, 127), (0, 1024), (0, 4096), (1, 0), (1, 1), (1, 127), (1, 1024), (1, 4096)]"

fun lab_cases :: "pystr \<Rightarrow> (int \<times> nat) list \<Rightarrow> lab_case list \<Rightarrow> lab_case list lab_act" where
  "lab_cases device [] cases = liftL (Inr cases)"
| "lab_cases device ((qos, amount) # rest) cases =
     bindL (token_bytes amount) (\<lambda>payload.
     bindL (echo device payload qos ''in'') (\<lambda>latency.
     lab_cases device rest (cases @ [\<lparr>lc_qos = qos, lc_bytes = amount, lc_ms = latency\<rparr>])))"

definition subscription_check :: "pystr \<Rightarrow> unit lab_act" where
  "subscription_check device =
     bindL (no_extra_echo device) (\<lambda>_.
     bindL (control device '':subscribe'') (\<lambda>_. bindL (live_ready device) (\<lambda>_. bindL (proof_echo device ''subscribed-proof-'' ''extra'') (\<lambda>_.
     bindL (control device '':restart'') (\<lambda>_. bindL (live_ready device) (\<lambda>_. bindL (proof_echo device ''resubscribed-proof-'' ''extra'') (\<lambda>_.
     bindL (control device '':unsubscribe'') (\<lambda>_. bindL (live_ready device) (\<lambda>_. bindL (no_extra_echo device) (\<lambda>_.
     bindL (control device '':restart'') (\<lambda>_. bindL (live_ready device) (\<lambda>_. no_extra_echo device))))))))))))"

definition wifi_cycle :: "pystr \<Rightarrow> unit lab_act" where
  "wifi_cycle device = bindL (control device '':wifi-cycle'') (\<lambda>_. live_ready device)"

definition rebuild_cycle :: "lab_args \<Rightarrow> unit lab_act" where
  "rebuild_cycle a =
     bindL (control (la_device a) '':cycle'') (\<lambda>_.
     bindL (wait_for (is_online (la_device a) True)) (\<lambda>_.
     bindL (proof_echo (la_device a) ''cycle-proof-'' ''in'') (\<lambda>_.
     whenL (la_samples a) (resource_sample (la_device a)))))"

definition join :: "lab_args \<Rightarrow> unit lab_act" where
  "join a =
     bindL (wait_for (\<lambda>i. i = Connected True)) (\<lambda>_.
     bindL (\<lambda>w. (Inr (lw_subscribe w), record_trace [Asked [(lab_topic (la_device a) ''out'', 1), (lab_topic (la_device a) ''status'', 1)]] w)) (\<lambda>(ok, mid).
     bindL (liftL (require ok (Raise RuntimeError ''subscription not submitted'') (Inr ()))) (\<lambda>_.
     bindL (wait_for (\<lambda>i. case i of Subscribed m codes \<Rightarrow> m = mid | _ \<Rightarrow> False)) (\<lambda>i.
     liftL (require (i = Subscribed mid [1, 1]) (Raise RuntimeError ''subscription not granted'') (Inr ()))))))"

definition checks :: "lab_args \<Rightarrow> lab_case list lab_act" where
  "checks a =
     bindL (ready (la_device a)) (\<lambda>_.
     bindL (whenL (la_samples a) (resource_sample (la_device a))) (\<lambda>_.
     bindL (lab_cases (la_device a) lab_sizes []) (\<lambda>cases.
     bindL (whenL (la_subscriptions a) (subscription_check (la_device a))) (\<lambda>_.
     bindL (repeatL (nat (la_wifi_cycles a)) (wifi_cycle (la_device a))) (\<lambda>_.
     bindL (repeatL (nat (la_cycles a)) (rebuild_cycle a)) (\<lambda>_. liftL (Inr cases)))))))"

subsection \<open>The report\<close>

record lab_report =
  lr_transport :: string
  lr_cases :: "lab_case list"
  lr_cycles :: int
  lr_p50 :: rat
  lr_p95 :: rat
  lr_subscriptions :: bool
  lr_wifi_cycles :: int
  lr_samples :: int

text \<open>\<^verbatim>\<open>statistics.median\<close> of sorted data that is not empty.\<close>

definition median_sorted :: "rat list \<Rightarrow> rat" where
  "median_sorted xs = (let n = length xs in if odd n then xs ! (n div 2) else (xs ! (n div 2 - 1) + xs ! (n div 2)) / 2)"

definition lab_result :: "lab_args \<Rightarrow> lab_case list \<Rightarrow> lab_report" where
  "lab_result a cases = (let latencies = sort (map lc_ms cases) in
     \<lparr>lr_transport = (if la_plaintext a then ''tcp-lab'' else ''tls''), lr_cases = cases, lr_cycles = la_cycles a,
      lr_p50 = median_sorted latencies, lr_p95 = last latencies, lr_subscriptions = la_subscriptions a,
      lr_wifi_cycles = la_wifi_cycles a, lr_samples = (if la_samples a then la_cycles a + 1 else 0)\<rparr>)"

definition closing :: "'a lab_act \<Rightarrow> 'a lab_act" where
  "closing a w = (case a w of (r, w') \<Rightarrow> (r, record_trace [Closed] w'))"

definition lab_connect :: "unit lab_act" where
  "lab_connect w = (lw_connect w, record_trace [Opened] w)"

definition lab_main :: "(bytes \<Rightarrow> pyval res) \<Rightarrow> file_facts \<Rightarrow> lab_args \<Rightarrow> lab_report lab_act" where
  "lab_main loads f a =
     bindL (liftL (lab_arguments a)) (\<lambda>_.
     bindL (liftL (load_credentials loads f)) (\<lambda>_.
     bindL lab_connect (\<lambda>_.
     closing (bindL (join a) (\<lambda>_. bindL (checks a) (\<lambda>cases. liftL (Inr (lab_result a cases))))))))"

text \<open>The exit status: \<^verbatim>\<open>parser.error\<close> leaves with 2, every exception with 1.\<close>

definition lab_exit :: "'a res \<Rightarrow> nat" where
  "lab_exit r = (case r of Inr _ \<Rightarrow> 0 | Inl e \<Rightarrow> if exc e = SystemExit then 2 else 1)"

subsection \<open>The plan\<close>

text \<open>
  What a run is meant to do, as a list of steps: send a control word, wait until the device is online, prove the connection by an echo of a
  fresh payload, and prove that an unsubscribed topic stays silent.
\<close>

datatype step =
    Control string
  | Online bool
  | Echo string bytes nat int
  | Silent

fun publications :: "step \<Rightarrow> (string \<times> bytes \<times> nat option \<times> int) list" where
  "publications (Control word) = [(''in'', ascii word, None, 0)]"
| "publications (Online live) = []"
| "publications (Echo topic head amount qos) = [(topic, head, Some amount, qos)]"
| "publications Silent = [(''extra'', ascii ''unsubscribed-proof-'', Some 32, 1), (''in'', ascii ''still-live-'', Some 32, 1)]"

definition sample_plan :: "step list" where
  "sample_plan = [Control '':stats'', Echo ''in'' (ascii ''after-stats-'') 32 1]"

definition live_plan :: "step list" where
  "live_plan = [Online True, Echo ''in'' (ascii ''fresh-proof-'') 32 1]"

definition subscription_plan :: "step list" where
  "subscription_plan = [Silent, Control '':subscribe''] @ live_plan @ [Echo ''extra'' (ascii ''subscribed-proof-'') 32 1, Control '':restart''] @ live_plan @
     [Echo ''extra'' (ascii ''resubscribed-proof-'') 32 1, Control '':unsubscribe''] @ live_plan @ [Silent, Control '':restart''] @ live_plan @ [Silent]"

definition session_plan :: "lab_args \<Rightarrow> step list" where
  "session_plan a =
     [Online False, Echo ''in'' (ascii ''ready-proof-'') 32 1] @ (if la_samples a then sample_plan else []) @
     map (\<lambda>(qos, amount). Echo ''in'' [] amount qos) lab_sizes @
     (if la_subscriptions a then subscription_plan else []) @
     concat (replicate (nat (la_wifi_cycles a)) (Control '':wifi-cycle'' # live_plan)) @
     concat (replicate (nat (la_cycles a)) ([Control '':cycle'', Online True, Echo ''in'' (ascii ''cycle-proof-'') 32 1] @ (if la_samples a then sample_plan else [])))"

text \<open>The messages of a plan, when the \<open>k\<close>-th publication is the next one.\<close>

fun fill :: "(nat \<Rightarrow> nat \<Rightarrow> bytes) \<Rightarrow> pystr \<Rightarrow> nat \<Rightarrow> (string \<times> bytes \<times> nat option \<times> int) list \<Rightarrow> (pystr \<times> bytes \<times> int) list" where
  "fill random device k [] = []"
| "fill random device k ((topic, head, amount, qos) # ps) =
     (lab_topic device topic, head @ (case amount of None \<Rightarrow> [] | Some n \<Rightarrow> random k n), qos) # fill random device (Suc k) ps"

definition planned :: "(nat \<Rightarrow> nat \<Rightarrow> bytes) \<Rightarrow> pystr \<Rightarrow> nat \<Rightarrow> step list \<Rightarrow> (pystr \<times> bytes \<times> int) list" where
  "planned random device k steps = fill random device k (concat (map publications steps))"

text \<open>What the trace holds when a step has succeeded: only the items before the decisive one are left open.\<close>

fun step_trace :: "(nat \<Rightarrow> nat \<Rightarrow> bytes) \<Rightarrow> pystr \<Rightarrow> nat \<Rightarrow> step \<Rightarrow> occurrence list \<Rightarrow> bool" where
  "step_trace random device k (Control word) new \<longleftrightarrow> new = [Sent (lab_topic device ''in'') (ascii word) 0]"
| "step_trace random device k (Online live) new \<longleftrightarrow> (\<exists>before i. new = map Seen (before @ [i]) \<and> is_online device live i)"
| "step_trace random device k (Echo topic head amount qos) new \<longleftrightarrow>
     (let payload = head @ random k amount in
      \<exists>before. new = Sent (lab_topic device topic) payload qos # map Seen (before @ [Message (lab_topic device ''out'') payload qos False]))"
| "step_trace random device k Silent new \<longleftrightarrow>
     (let payload = ascii ''unsubscribed-proof-'' @ random k 32; sentinel = ascii ''still-live-'' @ random (Suc k) 32 in
      \<exists>seen. new = [Sent (lab_topic device ''extra'') payload 1, Sent (lab_topic device ''in'') sentinel 1] @ map Seen seen \<and>
        \<not> list_ex (delivered_on device payload) seen \<and> list_ex (delivered_on device sentinel) seen)"

fun achieved :: "(nat \<Rightarrow> nat \<Rightarrow> bytes) \<Rightarrow> pystr \<Rightarrow> nat \<Rightarrow> step list \<Rightarrow> occurrence list \<Rightarrow> bool" where
  "achieved random device k [] new \<longleftrightarrow> new = []"
| "achieved random device k (s # steps) new \<longleftrightarrow>
     (\<exists>a b. new = a @ b \<and> step_trace random device k s a \<and> achieved random device (k + length (publications s)) steps b)"

subsection \<open>Following a plan\<close>

lemma sent_append [simp]: "sent_messages (a @ b) = sent_messages a @ sent_messages b"
  by (induction a rule: sent_messages.induct) simp_all

lemma sent_seen [simp]: "sent_messages (map Seen seen) = []"
  by (induction seen) simp_all

lemma fill_append: "fill random device k (ps @ qs) = fill random device k ps @ fill random device (k + length ps) qs"
  by (induction ps arbitrary: k) auto

lemma length_fill [simp]: "length (fill random device k ps) = length ps"
  by (induction ps arbitrary: k) auto

lemma planned_Nil [simp]: "planned random device k [] = []"
  by (simp add: planned_def)

lemma planned_append: "planned random device k (s @ t) = planned random device k s @ planned random device (k + length (planned random device k s)) t"
  by (simp add: planned_def fill_append)

lemma step_trace_sent: "step_trace random device k s new \<Longrightarrow> sent_messages new = planned random device k [s]"
  by (cases s) (auto simp: planned_def Let_def simp flip: map_append)

lemma achieved_sent: "achieved random device k steps new \<Longrightarrow> sent_messages new = planned random device k steps"
proof (induction steps arbitrary: k new)
  case (Cons s steps)
  then show ?case
    using planned_append [of random device k "[s]" steps] by (auto dest!: step_trace_sent) (simp add: planned_def)
qed simp

lemma length_planned: "length (planned random device k steps) = length (concat (map publications steps))"
  by (simp add: planned_def)

lemma achieved_append:
  "achieved random device k (s @ t) new \<longleftrightarrow>
     (\<exists>a b. new = a @ b \<and> achieved random device k s a \<and> achieved random device (k + length (planned random device k s)) t b)"
proof (induction s arbitrary: k new)
  case (Cons x s)
  have "achieved random device k ((x # s) @ t) new \<longleftrightarrow> (\<exists>a c d. new = a @ c @ d \<and> step_trace random device k x a \<and>
      achieved random device (k + length (publications x)) s c \<and>
      achieved random device (k + length (planned random device k (x # s))) t d)"
    by (simp add: Cons.IH length_planned add.assoc) blast
  also have "\<dots> \<longleftrightarrow> (\<exists>a b. new = a @ b \<and> achieved random device k (x # s) a \<and> achieved random device (k + length (planned random device k (x # s))) t b)"
    by (simp del: length_planned) (metis append_assoc)
  finally show ?case .
qed simp

text \<open>A successful action has achieved the steps; a failing one has published a prefix of their messages.\<close>

definition keeps_plan :: "(nat \<Rightarrow> nat \<Rightarrow> bytes) \<Rightarrow> pystr \<Rightarrow> nat \<Rightarrow> step list \<Rightarrow> 'a res \<Rightarrow> occurrence list \<Rightarrow> bool" where
  "keeps_plan random device k steps r new = (case r of
      Inr _ \<Rightarrow> achieved random device k steps new
    | Inl _ \<Rightarrow> \<exists>n. sent_messages new = take n (planned random device k steps))"

definition follows :: "pystr \<Rightarrow> step list \<Rightarrow> 'a lab_act \<Rightarrow> bool" where
  "follows device steps a = (\<forall>w r w'. a w = (r, w') \<longrightarrow> lw_random w' = lw_random w \<and>
     (\<exists>new. lw_trace w' = lw_trace w @ new \<and> keeps_plan (lw_random w) device (published w) steps r new))"

lemma keeps_plan_simps [simp]:
  "keeps_plan random device k steps (Inr x) new \<longleftrightarrow> achieved random device k steps new"
  "keeps_plan random device k steps (Inl e) new \<longleftrightarrow> (\<exists>n. sent_messages new = take n (planned random device k steps))"
  by (simp_all add: keeps_plan_def)

lemma keeps_plan_append:
  assumes "achieved random device k s new"
    and "keeps_plan random device (k + length (planned random device k s)) t r later"
  shows "keeps_plan random device k (s @ t) r (new @ later)"
proof (cases r)
  case (Inl e)
  then obtain n where "sent_messages later = take n (planned random device (k + length (planned random device k s)) t)"
    using assms(2) by auto
  then have "sent_messages (new @ later) = take (length (planned random device k s) + n) (planned random device k (s @ t))"
    by (simp add: achieved_sent [OF assms(1)] planned_append [of _ _ _ s t])
  with Inl show ?thesis by (auto simp del: sent_append)
qed (use assms in \<open>auto simp: achieved_append\<close>)

lemma keeps_plan_short: "keeps_plan random device k s (Inl e) new \<Longrightarrow> keeps_plan random device k (s @ t) (Inl e) new"
proof -
  assume "keeps_plan random device k s (Inl e) new"
  then obtain n where "sent_messages new = take n (planned random device k s)" by auto
  then have "sent_messages new = take (min n (length (planned random device k s))) (planned random device k (s @ t))"
    by (simp add: planned_append [of _ _ _ s t] min_def)
  then show ?thesis by auto
qed

named_theorems plan_intros \<open>actions that follow a plan\<close>

lemma record_trace_simps [simp]:
  "lw_trace (record_trace new w) = lw_trace w @ new" "lw_random (record_trace new w) = lw_random w"
  "lw_ticks (record_trace new w) = lw_ticks w" "lw_answer (record_trace new w) = lw_answer w" "lw_clock (record_trace new w) = lw_clock w"
  by (simp_all add: record_trace_def)

lemma bindL_assoc: "bindL (bindL a f) g = bindL a (\<lambda>x. bindL (f x) g)"
  by (rule ext) (auto simp: bindL_def split: prod.splits sum.splits)

lemma bindL_lift [simp]: "bindL (liftL (Inr x)) f = f x"
  by (rule ext) (simp add: bindL_def liftL_def)

lemma follows_lift [plan_intros]: "follows device [] (liftL r)"
  by (cases r) (auto simp: follows_def liftL_def)

lemma follows_bind:
  assumes "follows device s a" and "\<And>x. follows device t (f x)"
  shows "follows device (s @ t) (bindL a f)"
  unfolding follows_def
proof (intro allI impI)
  fix w r w'' assume run: "bindL a f w = (r, w'')"
  obtain ra w' where a: "a w = (ra, w')" by (cases "a w")
  then obtain new where new: "lw_random w' = lw_random w" "lw_trace w' = lw_trace w @ new"
      "keeps_plan (lw_random w) device (published w) s ra new"
    using assms(1) [unfolded follows_def, rule_format, OF a] by blast
  show "lw_random w'' = lw_random w \<and> (\<exists>new. lw_trace w'' = lw_trace w @ new \<and> keeps_plan (lw_random w) device (published w) (s @ t) r new)"
  proof (cases ra)
    case (Inl e)
    with run a have "r = Inl e" "w'' = w'" by (simp_all add: bindL_def)
    with Inl new keeps_plan_short show ?thesis by blast
  next
    case (Inr x)
    then have complete: "achieved (lw_random w) device (published w) s new" using new(3) by simp
    have count: "published w' = published w + length (planned (lw_random w) device (published w) s)"
      using new(2) achieved_sent [OF complete] by (simp add: published_def)
    have "f x w' = (r, w'')" using run a Inr by (simp add: bindL_def)
    then obtain later where later: "lw_random w'' = lw_random w'" "lw_trace w'' = lw_trace w' @ later"
        "keeps_plan (lw_random w') device (published w') t r later"
      using assms(2) [unfolded follows_def, rule_format] by blast
    with keeps_plan_append [OF complete] new(1,2) count show ?thesis by simp
  qed
qed

lemma follows_last: "follows device s a \<Longrightarrow> (\<And>x. follows device [] (f x)) \<Longrightarrow> follows device s (bindL a f)"
  using follows_bind [of device s a "[]" f] by simp

lemma follows_step: "follows device [s] a \<Longrightarrow> (\<And>x. follows device t (f x)) \<Longrightarrow> follows device (s # t) (bindL a f)"
  using follows_bind [of device "[s]" a t f] by simp

lemma follows_when: "follows device s a \<Longrightarrow> follows device (if c then s else []) (whenL c a)"
  by (simp add: whenL_def follows_lift)

lemma follows_repeat: "follows device s a \<Longrightarrow> follows device (concat (replicate n s)) (repeatL n a)"
  by (induction n) (simp_all add: follows_lift follows_bind)

lemma await_found: "await p ts = (Inr i, seen, ts') \<Longrightarrow> p i \<and> (\<exists>before. seen = before @ [i])"
  by (induction ts arbitrary: seen) (auto split: if_splits option.splits prod.splits)

lemma wait_for_eq: "wait_for p w = (r, w') \<longleftrightarrow> (\<exists>seen ts. await p (lw_ticks w) = (r, seen, ts) \<and> w' = record_trace (map Seen seen) (w\<lparr>lw_ticks := ts\<rparr>))"
  by (auto simp: wait_for_def split: prod.splits)

lemma follows_online [plan_intros]: "follows device [Online live] (wait_for (is_online device live))"
proof -
  have "keeps_plan random device k [Online live] r (map Seen seen)" if "await (is_online device live) ticks = (r, seen, ts)"
    for random k r seen ticks ts
    using that by (cases r) (auto simp: planned_def dest!: await_found)
  then show ?thesis by (auto simp: follows_def wait_for_eq)
qed

lemma follows_control [plan_intros]: "follows device [Control word] (control device word)"
  by (auto simp: follows_def control_def publish_def planned_def split: delivery.splits intro: exI [of _ 1])

lemma follows_fresh_echo:
  "follows device [Echo topic head n qos] (bindL (token_bytes n) (\<lambda>token. echo device (head @ token) qos topic))"
  unfolding follows_def
proof (intro allI impI)
  fix w r w' assume run: "bindL (token_bytes n) (\<lambda>token. echo device (head @ token) qos topic) w = (r, w')"
  let ?payload = "head @ lw_random w (published w) n"
  let ?sent = "Sent (lab_topic device topic) ?payload qos"
  show "lw_random w' = lw_random w \<and> (\<exists>new. lw_trace w' = lw_trace w @ new \<and> keeps_plan (lw_random w) device (published w) [Echo topic head n qos] r new)"
  proof (cases "lw_answer w (published w)")
    case Delivered
    obtain r' seen ts where found: "await (is_echo device ?payload qos) (lw_ticks w) = (r', seen, ts)"
      by (metis prod_cases3)
    then have "w' = record_trace (?sent # map Seen seen) (w\<lparr>lw_ticks := ts\<rparr>)" "r = Inr x \<Longrightarrow> \<exists>i. r' = Inr i" for x
      using run Delivered
      by (auto simp: bindL_def token_bytes_def echo_def publish_def wait_for_def record_trace_def liftL_def Let_def split: sum.splits)
    moreover have "sent_messages (?sent # map Seen seen) = take 1 (planned (lw_random w) device (published w) [Echo topic head n qos])"
      by (simp add: planned_def)
    moreover have "achieved (lw_random w) device (published w) [Echo topic head n qos] (?sent # map Seen seen)" if i: "r' = Inr i" for i
    proof -
      obtain before where "seen = before @ [Message (lab_topic device ''out'') ?payload qos False]"
        using found i await_found [of "is_echo device ?payload qos" "lw_ticks w" i seen ts] by (auto simp: is_echo_def)
      then show ?thesis
        by (simp only: achieved.simps step_trace.simps Let_def append_Nil2) blast
    qed
    ultimately show ?thesis
      by (cases r) (force simp del: achieved.simps)+
  qed (use run in \<open>auto simp: bindL_def token_bytes_def echo_def publish_def planned_def intro!: exI [of _ 1] exI [of _ "[?sent]"]\<close>)
qed

lemma follows_echo:
  assumes "\<And>x. follows device t (g x)"
  shows "follows device (Echo topic head n qos # t) (bindL (token_bytes n) (\<lambda>token. bindL (echo device (head @ token) qos topic) g))"
  using follows_step [OF follows_fresh_echo [of device topic head n qos] assms] by (simp only: bindL_assoc)

lemma follows_proof [plan_intros]: "follows device [Echo topic (ascii head) 32 1] (proof_echo device head topic)"
  unfolding proof_echo_def by (intro follows_echo follows_lift)

lemma follows_ready [plan_intros]: "follows device [Online False, Echo ''in'' (ascii ''ready-proof-'') 32 1] (ready device)"
  unfolding ready_def by (intro follows_step plan_intros)

lemma follows_live [plan_intros]: "follows device live_plan (live_ready device)"
  unfolding live_ready_def live_plan_def by (intro follows_step plan_intros)

lemma follows_sample [plan_intros]: "follows device sample_plan (resource_sample device)"
  unfolding resource_sample_def sample_plan_def by (intro follows_step plan_intros)

lemma watch_Inr:
  "watch device payload sentinel live ts = (Inr live', seen, ts') \<Longrightarrow>
     \<not> list_ex (delivered_on device payload) seen \<and> live' = (live \<or> list_ex (delivered_on device sentinel) seen)"
  by (induction ts arbitrary: live seen) (fastforce split: if_splits option.splits prod.splits)+

lemma follows_silent [plan_intros]: "follows device [Silent] (no_extra_echo device)"
  unfolding follows_def
proof (intro allI impI)
  fix w r w' assume run: "no_extra_echo device w = (r, w')"
  let ?payload = "ascii ''unsubscribed-proof-'' @ lw_random w (published w) 32"
  let ?sentinel = "ascii ''still-live-'' @ lw_random w (Suc (published w)) 32"
  let ?extra = "Sent (lab_topic device ''extra'') ?payload 1" and ?in = "Sent (lab_topic device ''in'') ?sentinel 1"
  have next_one: "published (record_trace [?extra] w) = Suc (published w)"
    by (simp add: published_def)
  have plan: "planned (lw_random w) device (published w) [Silent] = [(lab_topic device ''extra'', ?payload, 1), (lab_topic device ''in'', ?sentinel, 1)]"
    by (simp add: planned_def)
  show "lw_random w' = lw_random w \<and> (\<exists>new. lw_trace w' = lw_trace w @ new \<and> keeps_plan (lw_random w) device (published w) [Silent] r new)"
  proof (cases "lw_answer w (published w) = Delivered \<and> lw_answer w (Suc (published w)) = Delivered")
    case True
    obtain r' seen ts where found: "watch device ?payload ?sentinel False (lw_ticks w) = (r', seen, ts)"
      by (metis prod_cases3)
    then have "w' = record_trace ([?extra, ?in] @ map Seen seen) (w\<lparr>lw_ticks := ts\<rparr>)" "r = Inr x \<Longrightarrow> r' = Inr True" for x
      using run True next_one
      by (auto simp: no_extra_echo_def Let_def bindL_def token_bytes_def publish_def watch_for_def liftL_def record_trace_def require_def split: sum.splits if_splits)
    moreover have "sent_messages ([?extra, ?in] @ map Seen seen) = take 2 (planned (lw_random w) device (published w) [Silent])"
      by (simp add: plan)
    moreover have "achieved (lw_random w) device (published w) [Silent] ([?extra, ?in] @ map Seen seen)" if "r' = Inr True"
      using found that watch_Inr [of device ?payload ?sentinel False "lw_ticks w" True seen ts]
      by (simp add: Let_def) blast
    ultimately show ?thesis
      by (cases r) (force simp del: achieved.simps)+
  next
    case False
    then obtain new e where "w' = record_trace new w" "r = Inl e" "new = [?extra] \<or> new = [?extra, ?in]"
      using run next_one
      by (auto simp: no_extra_echo_def Let_def bindL_def token_bytes_def publish_def record_trace_def split: delivery.splits)
    then show ?thesis
      by (auto simp: plan intro: exI [of _ 1] exI [of _ 2])
  qed
qed

lemma follows_cases:
  "follows device (map (\<lambda>(qos, amount). Echo ''in'' [] amount qos) sizes) (lab_cases device sizes cases)"
proof (induction device sizes cases rule: lab_cases.induct)
  case (2 device qos amount rest cases)
  have "follows device (Echo ''in'' [] amount qos # map (\<lambda>(qos, amount). Echo ''in'' [] amount qos) rest)
      (bindL (token_bytes amount) (\<lambda>token. bindL (echo device ([] @ token) qos ''in'')
        (\<lambda>latency. lab_cases device rest (cases @ [\<lparr>lc_qos = qos, lc_bytes = amount, lc_ms = latency\<rparr>]))))"
    by (rule follows_echo) (rule "2.IH")
  then show ?case by simp
qed (simp add: follows_lift)

lemma follows_subscriptions: "follows device subscription_plan (subscription_check device)"
  unfolding subscription_plan_def subscription_check_def append.simps
  by (intro follows_step follows_bind plan_intros)

lemma follows_wifi: "follows device (Control '':wifi-cycle'' # live_plan) (wifi_cycle device)"
  unfolding wifi_cycle_def by (intro follows_step plan_intros)

lemma follows_rebuild:
  "follows (la_device a) ([Control '':cycle'', Online True, Echo ''in'' (ascii ''cycle-proof-'') 32 1] @ (if la_samples a then sample_plan else [])) (rebuild_cycle a)"
  unfolding rebuild_cycle_def append.simps by (intro follows_step follows_when plan_intros)

lemma follows_checks: "follows (la_device a) (session_plan a) (checks a)"
  unfolding session_plan_def checks_def
  by (intro follows_bind follows_last [OF follows_repeat] follows_when follows_repeat follows_cases follows_subscriptions follows_wifi follows_rebuild plan_intros)

subsection \<open>The clock\<close>

text \<open>No action changes the readings; so a latency is that of the publication it belongs to.\<close>

named_theorems steady_intros \<open>actions that leave the readings of the clock\<close>

definition steady :: "'a lab_act \<Rightarrow> bool" where
  "steady a = (\<forall>w. lw_clock (snd (a w)) = lw_clock w)"

lemma steady_lift [steady_intros]: "steady (liftL r)"
  by (simp add: steady_def liftL_def)

lemma steady_bind [steady_intros]: "steady a \<Longrightarrow> (\<And>x. steady (f x)) \<Longrightarrow> steady (bindL a f)"
  by (simp add: steady_def bindL_def split: prod.splits sum.splits) (metis snd_conv)

lemma steady_wait [steady_intros]: "steady (wait_for p)"
  by (simp add: steady_def wait_for_def split: prod.splits)

lemma steady_publish [steady_intros]: "steady (publish device topic payload qos)"
  by (simp add: steady_def publish_def)

lemma steady_token [steady_intros]: "steady (token_bytes n)"
  by (simp add: steady_def token_bytes_def)

lemma steady_ask [steady_intros]: "steady (\<lambda>w. (Inr (lw_subscribe w), record_trace new w))"
  by (simp add: steady_def)

lemma steady_at: "steady a \<Longrightarrow> lw_clock (snd (a w)) = lw_clock w"
  by (simp add: steady_def)

lemma steady_echo [steady_intros]: "steady (echo device payload qos topic)"
  unfolding steady_def echo_def Let_def by (intro allI) (rule steady_at, intro steady_intros)

lemma steady_ready [steady_intros]: "steady (ready device)"
  unfolding ready_def proof_echo_def by (intro steady_intros)

lemma steady_sample [steady_intros]: "steady (resource_sample device)"
  unfolding resource_sample_def proof_echo_def control_def by (intro steady_intros)

lemma steady_join: "steady (join a)"
proof -
  have "steady (case p of (ok, mid) \<Rightarrow> bindL (liftL (require ok e (Inr ()))) (\<lambda>_. bindL (wait_for (q mid)) (\<lambda>i. liftL (c mid i))))" for p e q c
    by (cases p) (simp, intro steady_intros)
  then show ?thesis
    unfolding join_def by (intro steady_intros)
qed

lemma steadyD: "steady a \<Longrightarrow> a w = (r, w') \<Longrightarrow> lw_clock w' = lw_clock w"
  by (metis snd_conv steady_def)

lemma follows_count:
  "follows device s a \<Longrightarrow> a w = (Inr x, w') \<Longrightarrow> published w' = published w + length (planned (lw_random w) device (published w) s)"
  by (fastforce simp: follows_def published_def dest: achieved_sent)

lemma echo_latency:
  assumes "echo device payload qos topic w = (Inr l, w')"
  shows "l = milliseconds (lw_clock w (published w)) \<and> published w' = Suc (published w) \<and> lw_clock w' = lw_clock w"
  using assms steadyD [OF steady_echo assms]
  by (auto simp: echo_def Let_def bindL_def publish_def wait_for_def liftL_def published_def split: prod.splits sum.splits)

lemma cases_latencies:
  "lab_cases device sizes cases w = (Inr cases', w') \<Longrightarrow>
     map lc_ms cases' = map lc_ms cases @ map (\<lambda>i. milliseconds (lw_clock w (published w + i))) [0..<length sizes]"
proof (induction device sizes cases arbitrary: w rule: lab_cases.induct)
  case (1 device cases)
  then show ?case by (simp add: liftL_def)
next
  case (2 device qos amount rest cases)
  obtain payload l w1 where step: "echo device payload qos ''in'' w = (Inr l, w1)"
      "lab_cases device rest (cases @ [\<lparr>lc_qos = qos, lc_bytes = amount, lc_ms = l\<rparr>]) w1 = (Inr cases', w')"
    using "2.prems" by (auto simp: bindL_def token_bytes_def split: prod.splits sum.splits)
  have "map lc_ms cases' = map lc_ms cases @ [milliseconds (lw_clock w (published w))] @
      map (\<lambda>i. milliseconds (lw_clock w (Suc (published w) + i))) [0..<length rest]"
    using "2.IH" [OF step(2)] echo_latency [OF step(1)] by simp
  then show ?case
    by (simp add: map_upt_Suc del: upt_Suc)
qed

text \<open>The publication of the first round trip: after the proof of the connection and the first resource sample.\<close>

definition first_case :: "lab_args \<Rightarrow> nat" where
  "first_case a = (if la_samples a then 3 else 1)"

lemma checks_latencies:
  assumes "checks a w = (Inr cases, w')" and "published w = 0"
  shows "map lc_ms cases = map (\<lambda>i. milliseconds (lw_clock w (first_case a + i))) [0..<10]"
proof -
  obtain w1 w2 w3 where run: "ready (la_device a) w = (Inr (), w1)" "whenL (la_samples a) (resource_sample (la_device a)) w1 = (Inr (), w2)"
      "lab_cases (la_device a) lab_sizes [] w2 = (Inr cases, w3)"
    using assms(1) unfolding checks_def by (fastforce simp: bindL_def liftL_def split: prod.splits sum.splits)
  have "published w1 = 1"
    using follows_count [OF follows_ready run(1)] assms(2) by (simp add: planned_def)
  moreover have "published w2 = published w1 + (if la_samples a then 2 else 0)"
    using follows_count [OF follows_when [OF follows_sample] run(2)] by (simp add: planned_def sample_plan_def)
  moreover have "lw_clock w2 = lw_clock w"
    using steadyD [OF steady_ready run(1)] run(2) steadyD [OF steady_sample, of "la_device a" w1]
    by (auto simp: whenL_def liftL_def split: if_splits)
  ultimately have "published w2 = first_case a" "lw_clock w2 = lw_clock w"
    by (simp_all add: first_case_def)
  moreover have "length lab_sizes = 10"
    by (simp add: lab_sizes_def)
  ultimately show ?thesis
    using cases_latencies [OF run(3)] by (simp only: list.map append_Nil)
qed

lemma round_even_close: "\<bar>of_int (round_even x) - x\<bar> \<le> 1 / 2"
proof -
  have "of_int \<lfloor>x\<rfloor> \<le> x" "x < of_int \<lfloor>x\<rfloor> + 1"
    by linarith+
  then show ?thesis
    by (auto simp: round_even_def Let_def abs_le_iff)
qed

lemma milliseconds_close:
  "\<exists>n :: int. milliseconds (before, after) = of_int n / 1000 \<and> \<bar>milliseconds (before, after) - (after - before) * 1000\<bar> \<le> 1 / 2000"
proof -
  define x where "x = (after - before) * 1000 * 1000"
  have "milliseconds (before, after) - (after - before) * 1000 = (of_int (round_even x) - x) / 1000"
    by (simp add: milliseconds_def x_def field_simps)
  moreover have "milliseconds (before, after) = of_int (round_even x) / 1000"
    by (simp add: milliseconds_def x_def)
  moreover have "\<bar>(of_int (round_even x) - x) / 1000\<bar> \<le> 1 / 2000"
    using round_even_close [of x] by (simp add: abs_divide)
  ultimately have "milliseconds (before, after) = of_int (round_even x) / 1000" "\<bar>milliseconds (before, after) - (after - before) * 1000\<bar> \<le> 1 / 2000"
    by (simp_all only:)
  then show ?thesis by blast
qed

subsection \<open>The whole run\<close>

definition opening_trace :: "lab_args \<Rightarrow> occurrence list \<Rightarrow> bool" where
  "opening_trace a new = (\<exists>before between mid. new = Opened # map Seen (before @ [Connected True]) @
     [Asked [(lab_topic (la_device a) ''out'', 1), (lab_topic (la_device a) ''status'', 1)]] @ map Seen (between @ [Subscribed mid [1, 1]]))"

lemma opening_sent: "opening_trace a new \<Longrightarrow> sent_messages new = []"
  by (auto simp: opening_trace_def simp del: map_append)

lemma join_trace:
  assumes "join a w = (r, w')"
  shows "lw_random w' = lw_random w \<and> (\<exists>new. lw_trace w' = lw_trace w @ new \<and> sent_messages new = [] \<and>
    (r = Inr () \<longrightarrow> opening_trace a (Opened # new)))"
proof -
  let ?asked = "Asked [(lab_topic (la_device a) ''out'', 1), (lab_topic (la_device a) ''status'', 1)]"
  obtain ok mid where sub: "lw_subscribe w = (ok, mid)" by (cases "lw_subscribe w")
  obtain r1 seen1 ts1 where w1: "await (\<lambda>i. i = Connected True) (lw_ticks w) = (r1, seen1, ts1)" by (metis prod_cases3)
  obtain r2 seen2 ts2 where w2: "await (\<lambda>i. case i of Subscribed m codes \<Rightarrow> m = mid | _ \<Rightarrow> False) ts1 = (r2, seen2, ts2)" by (metis prod_cases3)
  consider (refused) e where "r1 = Inl e" | (unsubmitted) "r1 = Inr (Connected True)" "\<not> ok" | (submitted) "r1 = Inr (Connected True)" ok
    using await_found [of "\<lambda>i. i = Connected True" "lw_ticks w" _ seen1 ts1] w1 by (cases r1) auto
  then show ?thesis
  proof cases
    case submitted
    then have "w' = record_trace (map Seen seen1 @ [?asked] @ map Seen seen2) (w\<lparr>lw_ticks := ts2\<rparr>)"
        "r = Inr () \<Longrightarrow> r2 = Inr (Subscribed mid [1, 1])"
      using assms sub w1 w2
      by (auto simp: join_def bindL_def wait_for_def liftL_def record_trace_def require_def split: sum.splits if_splits)
    moreover have "\<exists>before. seen1 = before @ [Connected True]"
      using await_found w1 submitted(1) by metis
    moreover have "r2 = Inr (Subscribed mid [1, 1]) \<Longrightarrow> \<exists>between. seen2 = between @ [Subscribed mid [1, 1]]"
      using await_found w2 by metis
    ultimately show ?thesis by (fastforce simp: opening_trace_def)
  qed (use assms sub w1 in \<open>auto simp: join_def bindL_def wait_for_def liftL_def record_trace_def require_def\<close>)
qed

lemma lab_session:
  assumes "bindL (join a) (\<lambda>_. bindL (checks a) (\<lambda>cases. liftL (Inr (lab_result a cases)))) w = (r, w')" and "published w = 0"
  shows "\<exists>joined body. lw_trace w' = lw_trace w @ joined @ body \<and> sent_messages joined = [] \<and>
    keeps_plan (lw_random w) (la_device a) 0 (session_plan a) r body \<and>
    (returns r \<longrightarrow> opening_trace a (Opened # joined) \<and> (\<exists>w1 cases. checks a w1 = (Inr cases, w') \<and> published w1 = 0 \<and> lw_clock w1 = lw_clock w \<and> r = Inr (lab_result a cases)))"
proof -
  obtain r1 w1 where w1: "join a w = (r1, w1)" by (cases "join a w")
  then obtain joined where joined: "lw_random w1 = lw_random w" "lw_trace w1 = lw_trace w @ joined" "sent_messages joined = []"
      "r1 = Inr () \<Longrightarrow> opening_trace a (Opened # joined)"
    using join_trace [OF w1] by blast
  show ?thesis
  proof (cases r1)
    case (Inl e)
    then have "r = Inl e" "w' = w1" using assms(1) w1 by (simp_all add: bindL_def)
    with joined show ?thesis by (intro exI [of _ joined] exI [of _ "[]"]) (auto intro: exI [of _ 0])
  next
    case (Inr u)
    obtain r2 w2 where w2: "checks a w1 = (r2, w2)" by (cases "checks a w1")
    then have r: "w' = w2" "r = (case r2 of Inl e \<Rightarrow> Inl e | Inr cases \<Rightarrow> Inr (lab_result a cases))"
      using assms(1) w1 Inr by (auto simp: bindL_def liftL_def split: sum.splits)
    have none: "published w1 = 0" using assms(2) joined(2,3) by (simp add: published_def)
    obtain body where body: "lw_trace w2 = lw_trace w1 @ body" "keeps_plan (lw_random w) (la_device a) 0 (session_plan a) r2 body"
      using follows_checks [of a, unfolded follows_def, rule_format, OF w2] joined(1) none by auto
    then have "keeps_plan (lw_random w) (la_device a) 0 (session_plan a) r body"
      by (cases r2) (simp_all add: r)
    moreover have "returns r \<Longrightarrow> \<exists>cases. checks a w1 = (Inr cases, w') \<and> published w1 = 0 \<and> lw_clock w1 = lw_clock w \<and> r = Inr (lab_result a cases)"
      using w2 r none steadyD [OF steady_join w1] by (cases r2) (auto simp: returns_def)
    ultimately show ?thesis
      using joined body(1) Inr r(1) by (intro exI [of _ joined] exI [of _ body]) auto
  qed
qed

lemma lab_main_trace:
  assumes "lab_main loads f a w = (r, w')" and "lw_trace w = []"
  obtains (unopened) e where "r = Inl e" "lw_trace w' = []"
    | (refused) e where "r = Inl e" "lw_trace w' = [Opened]" "lw_connect w = Inl e"
    | (opened) joined body where "lw_trace w' = Opened # joined @ body @ [Closed]" "sent_messages joined = []"
        "keeps_plan (lw_random w) (la_device a) 0 (session_plan a) r body"
        "returns r \<Longrightarrow> lab_arguments a = Inr () \<and> opening_trace a (Opened # joined) \<and> (\<exists>w1 w2 cases. checks a w1 = (Inr cases, w2) \<and> published w1 = 0 \<and> lw_clock w1 = lw_clock w \<and> r = Inr (lab_result a cases))"
proof -
  consider (failed) e where "r = Inl e" "w' = w" | (valid) "lab_arguments a = Inr ()"
      "bindL lab_connect (\<lambda>_. closing (bindL (join a) (\<lambda>_. bindL (checks a) (\<lambda>cases. liftL (Inr (lab_result a cases)))))) w = (r, w')"
    using assms(1) by (auto simp: lab_main_def bindL_def liftL_def split: sum.splits)
  then show ?thesis
  proof cases
    case failed
    with assms(2) unopened show ?thesis by simp
  next
    case valid
    show ?thesis
    proof (cases "lw_connect w")
      case (Inl e)
      with valid(2) assms(2) refused [of e] show ?thesis by (auto simp: bindL_def lab_connect_def record_trace_def split: prod.splits)
    next
      case (Inr u)
      let ?w = "record_trace [Opened] w"
      obtain w2 where w2: "bindL (join a) (\<lambda>_. bindL (checks a) (\<lambda>cases. liftL (Inr (lab_result a cases)))) ?w = (r, w2)" "w' = record_trace [Closed] w2"
        using valid(2) Inr by (auto simp: bindL_def [of lab_connect] lab_connect_def closing_def split: prod.splits)
      then obtain joined body where "lw_trace w2 = lw_trace ?w @ joined @ body" "sent_messages joined = []"
          "keeps_plan (lw_random ?w) (la_device a) 0 (session_plan a) r body"
          "returns r \<longrightarrow> opening_trace a (Opened # joined) \<and> (\<exists>w1 cases. checks a w1 = (Inr cases, w2) \<and> published w1 = 0 \<and> lw_clock w1 = lw_clock w \<and> r = Inr (lab_result a cases))"
        using lab_session [OF w2(1)] assms(2) by (auto simp: published_def)
      with assms(2) valid(1) w2(2) opened [of joined body] show ?thesis by auto
    qed
  qed
qed

lemma cases_sizes:
  "lab_cases device sizes cases w = (Inr cases', w') \<Longrightarrow> map (\<lambda>c. (lc_qos c, lc_bytes c)) cases' = map (\<lambda>c. (lc_qos c, lc_bytes c)) cases @ sizes"
  by (induction device sizes cases arbitrary: w rule: lab_cases.induct) (auto simp: bindL_def liftL_def split: prod.splits sum.splits)

lemma checks_sizes: "checks a w = (Inr cases, w') \<Longrightarrow> map (\<lambda>c. (lc_qos c, lc_bytes c)) cases = lab_sizes"
  by (auto simp: checks_def bindL_def liftL_def dest!: cases_sizes split: prod.splits sum.splits)

lemma last_sorted: "sorted xs \<Longrightarrow> xs \<noteq> [] \<Longrightarrow> last xs = Max (set xs)"
proof (induction xs)
  case (Cons x xs)
  then show ?case by (cases "xs = []") (auto simp: max_def)
qed simp

lemma result_figures:
  assumes "length cases = 10"
  shows "lr_p95 (lab_result a cases) = Max (lc_ms ` set cases)"
    and "lr_p50 (lab_result a cases) = (sort (map lc_ms cases) ! 4 + sort (map lc_ms cases) ! 5) / 2"
proof -
  have "sort (map lc_ms cases) \<noteq> []"
    using assms by (metis length_0_conv length_map length_sort zero_neq_numeral)
  then show "lr_p95 (lab_result a cases) = Max (lc_ms ` set cases)"
    by (simp add: lab_result_def Let_def last_sorted)
  show "lr_p50 (lab_result a cases) = (sort (map lc_ms cases) ! 4 + sort (map lc_ms cases) ! 5) / 2"
    using assms by (simp add: lab_result_def Let_def median_sorted_def)
qed

subsection \<open>A device that answers\<close>

text \<open>The ticks of a device that answers every step at once; the window of a negative check ends after the sentinel.\<close>

definition got :: "item \<Rightarrow> tick" where
  "got i = \<lparr>t_expired = False, t_overflow = False, t_item = Some i\<rparr>"

definition window_end :: tick where
  "window_end = \<lparr>t_expired = True, t_overflow = False, t_item = None\<rparr>"

fun step_ticks :: "(nat \<Rightarrow> nat \<Rightarrow> bytes) \<Rightarrow> pystr \<Rightarrow> nat \<Rightarrow> step \<Rightarrow> tick list" where
  "step_ticks random device k (Control word) = []"
| "step_ticks random device k (Online live) = [got (Message (lab_topic device ''status'') (ascii ''online'') 1 False)]"
| "step_ticks random device k (Echo topic head amount qos) = [got (Message (lab_topic device ''out'') (head @ random k amount) qos False)]"
| "step_ticks random device k Silent = [got (Message (lab_topic device ''out'') (ascii ''still-live-'' @ random (Suc k) 32) 1 False), window_end]"

fun plan_ticks :: "(nat \<Rightarrow> nat \<Rightarrow> bytes) \<Rightarrow> pystr \<Rightarrow> nat \<Rightarrow> step list \<Rightarrow> tick list" where
  "plan_ticks random device k [] = []"
| "plan_ticks random device k (s # steps) = step_ticks random device k s @ plan_ticks random device (k + length (publications s)) steps"

lemma plan_ticks_append:
  "plan_ticks random device k (s @ t) = plan_ticks random device k s @ plan_ticks random device (k + length (planned random device k s)) t"
  by (induction s arbitrary: k) (simp_all add: length_planned add.assoc)

named_theorems served_intros \<open>actions that succeed when their plan is answered\<close>

definition served :: "pystr \<Rightarrow> step list \<Rightarrow> 'a lab_act \<Rightarrow> bool" where
  "served device steps a = (\<forall>w rest. (\<forall>k. lw_answer w k = Delivered) \<and> lw_ticks w = plan_ticks (lw_random w) device (published w) steps @ rest \<longrightarrow>
     (\<exists>x w'. a w = (Inr x, w') \<and> lw_ticks w' = rest \<and> lw_answer w' = lw_answer w \<and> lw_random w' = lw_random w \<and>
       published w' = published w + length (planned (lw_random w) device (published w) steps)))"

lemma servedI:
  assumes "\<And>w rest. (\<forall>k. lw_answer w k = Delivered) \<Longrightarrow> lw_ticks w = plan_ticks (lw_random w) device (published w) steps @ rest \<Longrightarrow>
     \<exists>x w'. a w = (Inr x, w') \<and> lw_ticks w' = rest \<and> lw_answer w' = lw_answer w \<and> lw_random w' = lw_random w \<and>
       published w' = published w + length (planned (lw_random w) device (published w) steps)"
  shows "served device steps a"
  using assms by (simp add: served_def)

lemma served_lift [served_intros]: "served device [] (liftL (Inr x))"
  by (simp add: served_def liftL_def)

lemma served_bind:
  assumes "served device s a" and "\<And>x. served device t (f x)"
  shows "served device (s @ t) (bindL a f)"
proof (rule servedI)
  fix w rest assume w: "\<forall>k. lw_answer w k = Delivered" "lw_ticks w = plan_ticks (lw_random w) device (published w) (s @ t) @ rest"
  let ?n = "length (planned (lw_random w) device (published w) s)"
  obtain x w1 where 1: "a w = (Inr x, w1)" "lw_ticks w1 = plan_ticks (lw_random w) device (published w + ?n) t @ rest"
      "lw_answer w1 = lw_answer w" "lw_random w1 = lw_random w" "published w1 = published w + ?n"
    using assms(1) [unfolded served_def, rule_format, of w "plan_ticks (lw_random w) device (published w + ?n) t @ rest"] w
    by (auto simp: plan_ticks_append)
  then obtain y w2 where "f x w1 = (Inr y, w2)" "lw_ticks w2 = rest" "lw_answer w2 = lw_answer w" "lw_random w2 = lw_random w"
      "published w2 = published w + ?n + length (planned (lw_random w) device (published w + ?n) t)"
    using assms(2) [of x, unfolded served_def, rule_format, of w1 rest] w(1) by auto
  with 1(1) show "\<exists>y w'. bindL a f w = (Inr y, w') \<and> lw_ticks w' = rest \<and> lw_answer w' = lw_answer w \<and> lw_random w' = lw_random w \<and>
      published w' = published w + length (planned (lw_random w) device (published w) (s @ t))"
    by (simp add: bindL_def planned_append [of _ _ _ s t])
qed

lemma served_step: "served device [s] a \<Longrightarrow> (\<And>x. served device t (f x)) \<Longrightarrow> served device (s # t) (bindL a f)"
  using served_bind [of device "[s]" a t f] by simp

lemma served_last: "served device s a \<Longrightarrow> (\<And>x. served device [] (f x)) \<Longrightarrow> served device s (bindL a f)"
  using served_bind [of device s a "[]" f] by simp

lemma served_when: "served device s a \<Longrightarrow> served device (if c then s else []) (whenL c a)"
  by (simp add: whenL_def served_lift)

lemma served_repeat: "served device s a \<Longrightarrow> served device (concat (replicate n s)) (repeatL n a)"
  by (induction n) (simp_all add: served_lift served_bind)

lemma published_record [simp]: "published (record_trace new w) = published w + length (sent_messages new)"
  by (simp add: published_def)

lemma published_ticks [simp]: "published (w\<lparr>lw_ticks := ts\<rparr>) = published w"
  by (simp add: published_def)

lemma served_control [served_intros]: "served device [Control word] (control device word)"
  by (rule servedI) (simp add: control_def publish_def planned_def)

lemma served_online [served_intros]: "served device [Online live] (wait_for (is_online device live))"
  by (rule servedI) (simp add: wait_for_def planned_def got_def is_online_def published_def)

lemma served_fresh_echo:
  "served device [Echo topic head n qos] (bindL (token_bytes n) (\<lambda>token. echo device (head @ token) qos topic))"
  by (rule servedI) (simp add: bindL_def token_bytes_def echo_def publish_def wait_for_def planned_def got_def is_echo_def published_def liftL_def Let_def)

lemma served_echo:
  assumes "\<And>x. served device t (g x)"
  shows "served device (Echo topic head n qos # t) (bindL (token_bytes n) (\<lambda>token. bindL (echo device (head @ token) qos topic) g))"
  using served_step [OF served_fresh_echo [of device topic head n qos] assms] by (simp only: bindL_assoc)

lemma served_silent [served_intros]: "served device [Silent] (no_extra_echo device)"
proof (rule servedI)
  fix w rest assume w: "\<forall>k. lw_answer w k = Delivered" "lw_ticks w = plan_ticks (lw_random w) device (published w) [Silent] @ rest"
  let ?sentinel = "ascii ''still-live-'' @ lw_random w (Suc (published w)) 32"
  have "watch device (ascii ''unsubscribed-proof-'' @ t) ?sentinel False (lw_ticks w) =
      (Inr True, [Message (lab_topic device ''out'') ?sentinel 1 False], rest)" for t
    using w(2) by (simp add: got_def window_end_def delivered_on_def ascii_def)
  with w(1) show "\<exists>x w'. no_extra_echo device w = (Inr x, w') \<and> lw_ticks w' = rest \<and> lw_answer w' = lw_answer w \<and> lw_random w' = lw_random w \<and>
      published w' = published w + length (planned (lw_random w) device (published w) [Silent])"
    by (simp add: no_extra_echo_def Let_def bindL_def token_bytes_def publish_def watch_for_def liftL_def planned_def)
qed

lemma served_proof [served_intros]: "served device [Echo topic (ascii head) 32 1] (proof_echo device head topic)"
  unfolding proof_echo_def by (intro served_echo served_lift)

lemma served_ready [served_intros]: "served device [Online False, Echo ''in'' (ascii ''ready-proof-'') 32 1] (ready device)"
  unfolding ready_def by (intro served_step served_intros)

lemma served_live [served_intros]: "served device live_plan (live_ready device)"
  unfolding live_ready_def live_plan_def by (intro served_step served_intros)

lemma served_sample [served_intros]: "served device sample_plan (resource_sample device)"
  unfolding resource_sample_def sample_plan_def by (intro served_step served_intros)

lemma served_cases:
  "served device (map (\<lambda>(qos, amount). Echo ''in'' [] amount qos) sizes) (lab_cases device sizes cases)"
proof (induction device sizes cases rule: lab_cases.induct)
  case (2 device qos amount rest cases)
  have "served device (Echo ''in'' [] amount qos # map (\<lambda>(qos, amount). Echo ''in'' [] amount qos) rest)
      (bindL (token_bytes amount) (\<lambda>token. bindL (echo device ([] @ token) qos ''in'')
        (\<lambda>latency. lab_cases device rest (cases @ [\<lparr>lc_qos = qos, lc_bytes = amount, lc_ms = latency\<rparr>]))))"
    by (rule served_echo) (rule "2.IH")
  then show ?case by simp
qed (simp add: served_lift)

lemma served_subscriptions: "served device subscription_plan (subscription_check device)"
  unfolding subscription_plan_def subscription_check_def append.simps
  by (intro served_step served_bind served_intros)

lemma served_wifi: "served device (Control '':wifi-cycle'' # live_plan) (wifi_cycle device)"
  unfolding wifi_cycle_def by (intro served_step served_intros)

lemma served_rebuild:
  "served (la_device a) ([Control '':cycle'', Online True, Echo ''in'' (ascii ''cycle-proof-'') 32 1] @ (if la_samples a then sample_plan else [])) (rebuild_cycle a)"
  unfolding rebuild_cycle_def append.simps by (intro served_step served_when served_intros)

lemma served_checks: "served (la_device a) (session_plan a) (checks a)"
  unfolding session_plan_def checks_def
  by (intro served_bind served_last [OF served_repeat] served_when served_repeat served_cases served_subscriptions served_wifi served_rebuild served_intros)

text \<open>A device that answers every step of the plan gets its report.\<close>

lemma answered_run_reports:
  assumes "lab_arguments a = Inr ()" and "load_credentials loads f = Inr account"
    and "lw_connect w = Inr ()" and "lw_subscribe w = (True, mid)" and "\<forall>k. lw_answer w k = Delivered" and "lw_trace w = []"
    and "lw_ticks w = [got (Connected True), got (Subscribed mid [1, 1])] @ plan_ticks (lw_random w) (la_device a) 0 (session_plan a) @ rest"
  shows "\<exists>report w'. lab_main loads f a w = (Inr report, w')"
proof -
  obtain w1 where join: "join a (record_trace [Opened] w) = (Inr (), w1)"
      and w1: "lw_answer w1 = lw_answer w" "lw_random w1 = lw_random w" "published w1 = 0"
        "lw_ticks w1 = plan_ticks (lw_random w) (la_device a) 0 (session_plan a) @ rest"
    using assms(4,6,7) by (simp add: join_def bindL_def wait_for_def got_def liftL_def published_def record_trace_def)
  then obtain cases w2 where "checks a w1 = (Inr cases, w2)"
    using served_checks [of a, unfolded served_def, rule_format, of w1 rest] assms(5) by auto
  with join assms(1-3) show ?thesis
    by (simp add: lab_main_def bindL_def [of "liftL _"] bindL_def [of lab_connect] lab_connect_def closing_def)
       (simp add: bindL_def liftL_def)
qed

text \<open>
  C30: whatever happens during a run, the tool publishes a prefix of its plan and nothing else.  In particular no control word is sent again
  after a timeout, a refused publication or a lost answer; and once the connection is open, the last thing the tool does is to close it.
\<close>

theorem lab_publishes_its_plan:
  assumes "lab_main loads f a w = (r, w')" and "lw_trace w = []"
  shows "(\<exists>n. sent_messages (lw_trace w') = take n (planned (lw_random w) (la_device a) 0 (session_plan a))) \<and>
    (lw_trace w' = [] \<or> lw_trace w' = [Opened] \<and> \<not> returns (lw_connect w) \<or> hd (lw_trace w') = Opened \<and> last (lw_trace w') = Closed)"
  using assms
proof (cases rule: lab_main_trace)
  case (opened joined body)
  have "\<exists>n. sent_messages body = take n (planned (lw_random w) (la_device a) 0 (session_plan a))"
  proof (cases r)
    case (Inr x)
    with opened(3) have "sent_messages body = planned (lw_random w) (la_device a) 0 (session_plan a)" by (simp add: achieved_sent)
    then show ?thesis by (metis take_all order_refl)
  qed (use opened(3) in simp)
  with opened(1,2) show ?thesis by simp
qed (auto simp: returns_def intro: exI [of _ 0])

text \<open>
  C31: a report is proved by the device.  When the tool prints a report, the connection was granted with both subscriptions, the trace holds every step of
  the plan in its order, each one answered (an echo with the same fresh bytes and quality of service that is no retained message, an online status,
  or the silence of an unsubscribed topic while the device was alive).  The cases are the ten round trips of the plan; the time of each is, to the
  nearest thousandth of a millisecond, that between the clock readings before its publication and after its echo.  The reported maximum is the largest of these times, and the
  median is the mean of the fifth and the sixth of them in ascending order.
\<close>

theorem lab_report_is_proved:
  assumes "lab_main loads f a w = (Inr report, w')" and "lw_trace w = []"
  shows "\<exists>joined body. lw_trace w' = joined @ body @ [Closed] \<and> opening_trace a joined \<and>
    achieved (lw_random w) (la_device a) 0 (session_plan a) body \<and> lab_arguments a = Inr () \<and>
    map (\<lambda>c. (lc_qos c, lc_bytes c)) (lr_cases report) = lab_sizes \<and>
    (\<forall>i < 10. \<exists>before after. lw_clock w (first_case a + i) = (before, after) \<and>
       (\<exists>n :: int. lc_ms (lr_cases report ! i) = of_int n / 1000) \<and> \<bar>lc_ms (lr_cases report ! i) - (after - before) * 1000\<bar> \<le> 1 / 2000) \<and>
    lr_p95 report = Max (lc_ms ` set (lr_cases report)) \<and>
    lr_p50 report = (sort (map lc_ms (lr_cases report)) ! 4 + sort (map lc_ms (lr_cases report)) ! 5) / 2"
  using assms
proof (cases rule: lab_main_trace)
  case (opened joined body)
  then obtain w1 w2 cases where run: "lab_arguments a = Inr ()" "opening_trace a (Opened # joined)" "checks a w1 = (Inr cases, w2)"
      "published w1 = 0" "lw_clock w1 = lw_clock w" and report: "report = lab_result a cases"
    by auto
  have sizes: "map (\<lambda>c. (lc_qos c, lc_bytes c)) cases = lab_sizes" using run(3) by (rule checks_sizes)
  from arg_cong [OF this, of length] have ten: "length cases = 10" by (simp add: lab_sizes_def)
  have latency: "lc_ms (cases ! i) = milliseconds (lw_clock w (first_case a + i))" if "i < 10" for i
    using arg_cong [OF checks_latencies [OF run(3,4)], of "\<lambda>xs. xs ! i"] that ten run(5) by simp
  have times: "\<forall>i < 10. \<exists>before after. lw_clock w (first_case a + i) = (before, after) \<and>
       (\<exists>n :: int. lc_ms (cases ! i) = of_int n / 1000) \<and> \<bar>lc_ms (cases ! i) - (after - before) * 1000\<bar> \<le> 1 / 2000"
    using latency milliseconds_close by (metis surj_pair)
  have "lr_cases report = cases" by (simp add: report lab_result_def Let_def)
  then show ?thesis
    using opened(1,3) run(1,2) sizes times result_figures [OF ten, of a] report
    by (intro exI [of _ "Opened # joined"] exI [of _ body]) simp
qed simp_all

subsection \<open>One run\<close>

text \<open>A run with all optional checks: resource samples, subscriptions, two station cycles and three rebuild cycles.\<close>

definition small_lab_args :: lab_args where
  "small_lab_args = \<lparr>la_port = 8883, la_device = client_device, la_plaintext = False, la_cycles = 3, la_samples = True, la_subscriptions = True,
     la_wifi_cycles = 2, la_timeout = 20, la_ready_timeout = 120\<rparr>"

definition small_lab :: lab where
  "small_lab = \<lparr>lw_connect = Inr (), lw_subscribe = (True, 7), lw_answer = (\<lambda>_. Delivered), lw_random = (\<lambda>k n. replicate n (word_of_nat k)),
     lw_clock = (\<lambda>k. (0, of_nat k / 16)), lw_ticks = [got (Connected True), got (Subscribed 7 [1, 1])] @
       plan_ticks (\<lambda>k n. replicate n (word_of_nat k)) client_device 0 (session_plan small_lab_args), lw_trace = []\<rparr>"

definition small_account :: pyval where
  "small_account = PDict [(str ''username'', PStr (str ''u'')), (str ''password'', PStr (str ''p''))]"

definition small_account_file :: file_facts where
  "small_account_file = \<lparr>pf_regular = True, pf_own = True, pf_mode = 0x180, pf_links = 1, pf_content = []\<rparr>"

lemma small_lab_runs: "\<exists>report w'. lab_main (\<lambda>_. Inr small_account) small_account_file small_lab_args small_lab = (Inr report, w')"
proof (rule answered_run_reports)
  show "lab_arguments small_lab_args = Inr ()"
    using client_device_canonical by (auto simp: canonical_uuid_def lab_arguments_def small_lab_args_def split: option.splits if_splits)
  show "load_credentials (\<lambda>_. Inr small_account) small_account_file = Inr [(str ''username'', PStr (str ''u'')), (str ''password'', PStr (str ''p''))]"
    by (simp add: load_credentials_def load_private_config_def small_account_def small_account_file_def keys_are_def) (simp add: str_def)
  show "lw_ticks small_lab = [got (Connected True), got (Subscribed 7 [1, 1])] @
      plan_ticks (lw_random small_lab) (la_device small_lab_args) 0 (session_plan small_lab_args) @ []"
    by (simp add: small_lab_def) (simp add: small_lab_args_def)
qed (simp_all add: small_lab_def)

theorem lab_publishes_its_plan_witness:
  "\<exists>w' :: lab. hd (lw_trace w') = Opened \<and> (\<exists>n. sent_messages (lw_trace w') = take n (planned (lw_random small_lab) (la_device small_lab_args) 0 (session_plan small_lab_args)))"
proof -
  obtain report w' where run: "lab_main (\<lambda>_. Inr small_account) small_account_file small_lab_args small_lab = (Inr report, w')"
    using small_lab_runs by blast
  have opened: "hd (lw_trace w') = Opened"
    using run by (cases rule: lab_main_trace) (simp_all add: small_lab_def)
  have "lw_trace small_lab = []" by (simp add: small_lab_def)
  from lab_publishes_its_plan [OF run this] opened show ?thesis by blast
qed

theorem lab_report_is_proved_witness:
  "\<exists>report w'. lab_main (\<lambda>_. Inr small_account) small_account_file small_lab_args small_lab = (Inr report, w') \<and>
     last (lw_trace w') = Closed \<and> length (lr_cases report) = 10 \<and> lr_p95 report = Max (lc_ms ` set (lr_cases report))"
proof -
  obtain report w' where run: "lab_main (\<lambda>_. Inr small_account) small_account_file small_lab_args small_lab = (Inr report, w')"
    using small_lab_runs by blast
  have "lw_trace small_lab = []" by (simp add: small_lab_def)
  from lab_report_is_proved [OF run this] have proved: "last (lw_trace w') = Closed"
      "map (\<lambda>c. (lc_qos c, lc_bytes c)) (lr_cases report) = lab_sizes" "lr_p95 report = Max (lc_ms ` set (lr_cases report))"
    by auto
  from arg_cong [OF proved(2), of length] have "length (lr_cases report) = 10" by (simp add: lab_sizes_def)
  with run proved(1,3) show ?thesis by blast
qed

end
