(* ===== verification/Private_Files.thy ===== *)
theory Private_Files
  imports Migration_Run Build_Identity Serial_Port
begin

text \<open>
  The files the migration tools leave outside the repository: the archive of \<^verbatim>\<open>archive_esp32_at.py\<close>, the
  \<^verbatim>\<open>base_store\<close> candidate of \<^verbatim>\<open>preflight_v3_migration.py\<close> and the output directory of \<^verbatim>\<open>prepare_native_layout.py\<close>,
  with the whole runs of the three tools around them and the check of the SDK checkout.

  The state is a file system, a function from names to nodes.  What the disk does is the record \<open>disk\<close>: whether a new file can be
  created, which bytes land in it and whether writing it raises (a full disk leaves a prefix), what \<^verbatim>\<open>fstat\<close> says of it when it is
  read back, and whether it can be removed; the name \<^verbatim>\<open>temporary\<close> stands for the temporary file of the preflight, and \<^verbatim>\<open>.\<close> for the output
  directory itself.  The facts about a parent directory are \<open>parent_facts\<close>.  The JSON text of the migration
  receipt is a parameter, as are the SDK's tools.

  Lemmas: the archive tool changes no other file and leaves the exact archive or, if it can remove its file, nothing; the preflight replaces no
  file; and in the output directory of a migration the candidate flash appears only after everything it retires is on the disk.
\<close>

unbundle bit_operations_syntax

subsection \<open>The disk\<close>

record disk =
  dk_create :: "string \<Rightarrow> unit res"
  dk_write :: "string \<Rightarrow> bytes \<Rightarrow> bytes \<times> unit res"
  dk_facts :: "string \<Rightarrow> in_file"
  dk_unlink :: "string \<Rightarrow> unit res"

text \<open>\<^verbatim>\<open>O_CREAT | O_EXCL | O_NOFOLLOW\<close>.\<close>

definition create_exclusive :: "disk \<Rightarrow> string \<Rightarrow> files \<Rightarrow> unit res" where
  "create_exclusive dk name fs = require (fs name = Absent) (Raise OSError ''file exists'') (dk_create dk name)"

text \<open>The file as it is opened again: its bytes are the ones that landed.\<close>

definition opened_again :: "disk \<Rightarrow> string \<Rightarrow> bytes \<Rightarrow> in_file" where
  "opened_again dk name landed = (dk_facts dk name)\<lparr>if_content := landed\<rparr>"

subsection \<open>Parent directories\<close>

record parent_facts =
  pd_resolves :: "unit res"
  pd_directory :: bool
  pd_own :: bool
  pd_mode :: nat
  pd_in_repository :: bool
  pd_git_above :: bool

text \<open>\<^verbatim>\<open>0o077\<close> is 63 and \<^verbatim>\<open>0o600\<close> is 384.\<close>

definition archive_parent :: "parent_facts \<Rightarrow> unit res" where
  "archive_parent pd =
     bindE (pd_resolves pd) (\<lambda>_.
     require (pd_directory pd \<and> pd_own pd \<and> pd_mode pd AND 63 = 0) (archive_error ''parent directory is not private'')
     (require (\<not> pd_in_repository pd) (archive_error ''inside the repository'')
     (require (\<not> pd_git_above pd) (archive_error ''inside a git repository'') (Inr ()))))"

definition output_parent :: "parent_facts \<Rightarrow> unit res" where
  "output_parent pd =
     bindE (pd_resolves pd) (\<lambda>_.
     require (pd_own pd \<and> pd_mode pd AND 63 = 0) (migration ''parent directory is not private'')
     (require (\<not> pd_in_repository pd \<and> \<not> pd_git_above pd) (migration ''inside a git repository'') (Inr ())))"

subsection \<open>The archive tool\<close>

record at_backup =
  ab_regular :: bool
  ab_own :: bool
  ab_mode :: nat
  ab_stat :: "nat \<times> int \<times> int"
  ab_identity :: "int \<times> int"
  ab_content :: bytes
  ab_after :: "nat \<times> int \<times> int"

definition read_backup :: "at_backup \<Rightarrow> bytes res" where
  "read_backup b =
     require (ab_regular b) (archive_error ''backup is not a regular file'')
     (require (ab_own b \<and> ab_mode b AND 127 = 0) (archive_error ''backup permissions'')
     (require (fst (ab_stat b) = FLASH_SIZE) (archive_error ''backup size'')
     (let contents = take (FLASH_SIZE + 1) (ab_content b) in
      require (ab_stat b = ab_after b) (archive_error ''backup changed while reading'')
      (require (length contents = FLASH_SIZE) (archive_error ''backup length changed'') (Inr contents)))))"

definition read_archive :: "in_file \<Rightarrow> bytes res" where
  "read_archive f =
     require (if_regular f \<and> if_own f \<and> if_mode f = 384 \<and> if_size f = ARCHIVE_SIZE) (archive_error ''archive permissions or length'')
     (Inr (take (ARCHIVE_SIZE + 1) (if_content f)))"

text \<open>\<^verbatim>\<open>except Exception: os.unlink(resolved); raise\<close>: the file that was created is removed.\<close>

definition removing :: "disk \<Rightarrow> string \<Rightarrow> files \<Rightarrow> unit res \<Rightarrow> unit res \<times> files" where
  "removing dk name fs r = (case r of
      Inr _ \<Rightarrow> (Inr (), fs)
    | Inl e \<Rightarrow> (case dk_unlink dk name of Inl e' \<Rightarrow> (Inl e', fs) | Inr _ \<Rightarrow> (Inl e, fs(name := Absent))))"

definition write_archive :: "disk \<Rightarrow> parent_facts \<Rightarrow> string \<Rightarrow> bytes \<Rightarrow> files \<Rightarrow> unit res \<times> files" where
  "write_archive dk pd name archive fs = (case bindE (archive_parent pd) (\<lambda>_. create_exclusive dk name fs) of
      Inl e \<Rightarrow> (Inl e, fs)
    | Inr _ \<Rightarrow> (case dk_write dk name archive of
        (landed, r) \<Rightarrow>
          let fs' = fs(name := File landed) in
          (case removing dk name fs' (bindE r (\<lambda>_. require (length landed = ARCHIVE_SIZE) (archive_error ''written length'') (Inr ()))) of
             (Inl e, fs'') \<Rightarrow> (Inl e, fs'')
           | (Inr _, fs'') \<Rightarrow>
               removing dk name fs'' (bindE (read_archive (opened_again dk name landed)) (\<lambda>check.
                 require (check = archive) (archive_error ''archive readback'') (Inr ()))))))"

definition archive_run :: "disk \<Rightarrow> parent_facts \<Rightarrow> at_backup \<Rightarrow> at_backup \<Rightarrow> string \<Rightarrow> files \<Rightarrow> unit res \<times> files" where
  "archive_run dk pd first second name fs =
     (case bindE (read_backup first) (\<lambda>a. bindE (read_backup second) (\<lambda>b.
         require (ab_identity first \<noteq> ab_identity second) (archive_error ''backups are one file'')
         (require (a = b) (archive_error ''backups differ'') (make_archive a)))) of
        Inl e \<Rightarrow> (Inl e, fs)
      | Inr archive \<Rightarrow> write_archive dk pd name archive fs)"

text \<open>The exit status; an exception of another class leaves the program.\<close>

definition exit_status :: "exc_class set \<Rightarrow> 'a res \<Rightarrow> nat res" where
  "exit_status caught r = (case r of Inr _ \<Rightarrow> Inr 0 | Inl e \<Rightarrow> if exc e \<in> caught then Inr 1 else Inl e)"

definition archive_main :: "disk \<Rightarrow> parent_facts \<Rightarrow> at_backup \<Rightarrow> at_backup \<Rightarrow> string \<Rightarrow> files \<Rightarrow> nat res \<times> files" where
  "archive_main dk pd first second name fs =
     (case archive_run dk pd first second name fs of (r, fs') \<Rightarrow> (exit_status {ArchiveError, OSError} r, fs'))"

subsection \<open>The SDK checkout\<close>

definition IDF_COMMIT :: string where "IDF_COMMIT = ''578cf89c343e388db43ba1f4ddcd602fedcb763c''"
definition NVS_GENERATOR_VERSION :: string where "NVS_GENERATOR_VERSION = ''0.1.9''"

definition strip :: "pystr \<Rightarrow> pystr" where
  "strip s = rev (dropWhile py_space (rev (dropWhile py_space s)))"

text \<open>What git and the file system say of the checkout.\<close>

record idf_facts =
  id_head :: "int \<times> pystr"
  id_diff :: int
  id_parsers :: bool

definition check_idf :: "idf_facts \<Rightarrow> unit res" where
  "check_idf i =
     require (fst (id_head i) = 0 \<and> strip (snd (id_head i)) = str IDF_COMMIT) (preflight ''ESP-IDF is not the locked commit'')
     (require (id_diff i = 0) (preflight ''SDK tools are changed'')
     (require (id_parsers i) (preflight ''SDK parsers missing'') (Inr ())))"

subsection \<open>The base store candidate\<close>

record output_place =
  op_in_repository :: bool
  op_parent :: bool
  op_link_resolves :: bool
  op_generator :: "string option"

definition exists_at :: "output_place \<Rightarrow> node \<Rightarrow> bool" where
  "exists_at op n = (case n of Absent \<Rightarrow> False | Link \<Rightarrow> op_link_resolves op | _ \<Rightarrow> True)"

text \<open>
  The candidate goes to a temporary file that is linked under the name of the output and then removed; the link fails when
  the name is taken.
\<close>

definition link_candidate :: "disk \<Rightarrow> string \<Rightarrow> bytes \<Rightarrow> files \<Rightarrow> unit res \<times> files" where
  "link_candidate dk name candidate fs = (case dk_create dk ''temporary'' of
      Inl e \<Rightarrow> (Inl e, fs)
    | Inr _ \<Rightarrow> (case dk_write dk ''temporary'' candidate of (landed, r) \<Rightarrow>
        let linked = bindE r (\<lambda>_. require (fs name = Absent) (Raise OSError ''file exists'') (dk_create dk name));
            fs' = (if returns linked then fs(name := File landed) else fs)
        in (case dk_unlink dk ''temporary'' of
              Inl e \<Rightarrow> (Inl e, fs')
            | Inr _ \<Rightarrow> (bindE linked (\<lambda>_. require (length landed = CANDIDATE_STORE_SIZE \<and> landed = candidate)
                  (preflight ''output readback'') (Inr ())), fs'))))"

definition write_candidate_file :: "sdk \<Rightarrow> disk \<Rightarrow> output_place \<Rightarrow> records \<Rightarrow> string \<Rightarrow> files \<Rightarrow> pystr res \<times> files" where
  "write_candidate_file sdk dk op store name fs =
     (case require (\<not> op_in_repository op) (preflight ''inside the repository'')
         (require (op_parent op \<and> \<not> exists_at op (fs name)) (preflight ''output exists'')
         (bindE (of_option (preflight ''no NVS generator'') (op_generator op)) (\<lambda>installed.
          require (installed = NVS_GENERATOR_VERSION) (preflight ''another NVS generator'') (write_candidate sdk store)))) of
        Inl e \<Rightarrow> (Inl e, fs)
      | Inr candidate \<Rightarrow> (case link_candidate dk name candidate fs of (r, fs') \<Rightarrow> (bindE r (\<lambda>_. Inr (digest candidate)), fs')))"

definition preflight_tool ::
  "sdk \<Rightarrow> disk \<Rightarrow> idf_facts \<Rightarrow> backup \<Rightarrow> backup \<Rightarrow> pystr \<Rightarrow> (output_place \<times> string) option \<Rightarrow> files \<Rightarrow>
     (audit_line list \<times> bytes \<times> pystr option) res \<times> files" where
  "preflight_tool sdk dk idf first second device_id output_to fs =
     (case require (valid_uuid_text device_id) (preflight ''device-id'')
         (bindE (check_idf idf) (\<lambda>_. bindE (compare_backups first second) (\<lambda>flash.
          bindE (audit sdk flash device_id) (\<lambda>(lines, store). Inr (flash, lines, store))))) of
        Inl e \<Rightarrow> (Inl e, fs)
      | Inr (flash, lines, store) \<Rightarrow> (case output_to of
          None \<Rightarrow> (Inr (lines, flash, None), fs)
        | Some (op, name) \<Rightarrow> (case write_candidate_file sdk dk op store name fs of
            (r, fs') \<Rightarrow> (bindE r (\<lambda>sha. Inr (lines, flash, Some sha)), fs'))))"

text \<open>Every exception ends the run with status 1.\<close>

definition preflight_main ::
  "sdk \<Rightarrow> disk \<Rightarrow> idf_facts \<Rightarrow> backup \<Rightarrow> backup \<Rightarrow> pystr \<Rightarrow> (output_place \<times> string) option \<Rightarrow> files \<Rightarrow> nat \<times> files" where
  "preflight_main sdk dk idf first second device_id output_to fs =
     (case preflight_tool sdk dk idf first second device_id output_to fs of (r, fs') \<Rightarrow> (if returns r then 0 else 1, fs'))"

subsection \<open>The output directory of a migration\<close>

text \<open>The node of the directory and the files in it.\<close>

definition private_output_directory :: "disk \<Rightarrow> parent_facts \<Rightarrow> node \<times> files \<Rightarrow> unit res \<times> node \<times> files" where
  "private_output_directory dk pd place = (case bindE (output_parent pd) (\<lambda>_.
       require (fst place = Absent) (migration ''output directory exists'') (dk_create dk ''.'')) of
      Inl e \<Rightarrow> (Inl e, place)
    | Inr _ \<Rightarrow> (Inr (), Directory, \<lambda>_. Absent))"

definition write_verified :: "disk \<Rightarrow> string \<Rightarrow> bytes \<Rightarrow> files \<Rightarrow> unit res \<times> files" where
  "write_verified dk name raw fs = (case create_exclusive dk name fs of
      Inl e \<Rightarrow> (Inl e, fs)
    | Inr _ \<Rightarrow> (case dk_write dk name raw of
        (landed, r) \<Rightarrow> (bindE r (\<lambda>_. bindE (read_file (opened_again dk name landed) True FLASH_SIZE) (\<lambda>again.
            require (again = raw) (migration ''output readback'') (Inr ()))), fs(name := File landed))))"

fun write_all :: "disk \<Rightarrow> (string \<times> bytes) list \<Rightarrow> files \<Rightarrow> unit res \<times> files" where
  "write_all dk [] fs = (Inr (), fs)"
| "write_all dk ((name, raw) # rest) fs = (case write_verified dk name raw fs of
      (Inl e, fs') \<Rightarrow> (Inl e, fs')
    | (Inr _, fs') \<Rightarrow> write_all dk rest fs')"

fun output_file :: "(migration_receipt \<Rightarrow> bytes) \<Rightarrow> written_file \<Rightarrow> string \<times> bytes" where
  "output_file receipt_text (Source_flash raw) = (''source-flash.bin'', raw)"
| "output_file receipt_text (Receipt_file receipt) = (''migration-receipt.json'', receipt_text receipt)"
| "output_file receipt_text (Old_at raw) = (''at-old-raw.bin'', raw)"
| "output_file receipt_text (Candidate_flash raw) = (''candidate-flash.bin'', raw)"

definition prepare_native ::
  "sdk \<Rightarrow> (migration_receipt \<Rightarrow> bytes) \<Rightarrow> disk \<Rightarrow> parent_facts \<Rightarrow> idf_facts \<Rightarrow> prepare_args \<Rightarrow> node \<times> files \<Rightarrow>
     migration_receipt res \<times> node \<times> files" where
  "prepare_native sdk receipt_text dk pd idf a place = (case bindE (check_idf idf) (\<lambda>_. prepare sdk a) of
      Inl e \<Rightarrow> (Inl e, place)
    | Inr (receipt, files) \<Rightarrow> (case private_output_directory dk pd place of
        (Inl e, place') \<Rightarrow> (Inl e, place')
      | (Inr _, n, fs) \<Rightarrow> (case write_all dk (map (output_file receipt_text) files) fs of
          (r, fs') \<Rightarrow> (bindE r (\<lambda>_. Inr receipt), n, fs'))))"

definition native_main ::
  "sdk \<Rightarrow> (migration_receipt \<Rightarrow> bytes) \<Rightarrow> disk \<Rightarrow> parent_facts \<Rightarrow> idf_facts \<Rightarrow> prepare_args \<Rightarrow> node \<times> files \<Rightarrow> nat res \<times> node \<times> files" where
  "native_main sdk receipt_text dk pd idf a place = (case prepare_native sdk receipt_text dk pd idf a place of
      (r, place') \<Rightarrow> (exit_status {MigrationError, PreflightError, ArchiveError, OSError} r, place'))"

subsection \<open>The archive is there or nothing is\<close>

lemma removing_Inr: "removing dk name fs r = (Inr u, fs') \<longleftrightarrow> r = Inr u \<and> fs' = fs"
  by (auto simp: removing_def split: sum.splits)

lemma removing_Inl: "removing dk name fs r = (Inl e, fs') \<Longrightarrow> \<not> returns r \<and> (returns (dk_unlink dk name) \<longrightarrow> fs' = fs(name := Absent)) \<and>
    (fs' = fs \<or> fs' = fs(name := Absent))"
  by (auto simp: removing_def returns_def split: sum.splits)

lemma write_archive_facts:
  assumes "write_archive dk pd name archive fs = (r, fs')" and "length archive \<le> ARCHIVE_SIZE"
  shows "(returns r \<longrightarrow> fs name = Absent \<and> fs' = fs(name := File archive)) \<and>
    (\<not> returns r \<and> returns (dk_unlink dk name) \<longrightarrow> fs' = fs) \<and> (\<forall>n. fs n \<noteq> Absent \<longrightarrow> fs' n = fs n)"
proof (cases "bindE (archive_parent pd) (\<lambda>_. create_exclusive dk name fs)")
  case (Inl e)
  with assms(1) have "r = Inl e" "fs' = fs" by (simp_all add: write_archive_def)
  then show ?thesis by (simp add: returns_def)
next
  case (Inr u)
  then have absent: "fs name = Absent" by (auto simp: create_exclusive_def res_simps)
  obtain landed w where w: "dk_write dk name archive = (landed, w)" by (cases "dk_write dk name archive")
  let ?fs = "fs(name := File landed)"
  let ?first = "bindE w (\<lambda>_. require (length landed = ARCHIVE_SIZE) (archive_error ''written length'') (Inr ()))"
  let ?second = "bindE (read_archive (opened_again dk name landed)) (\<lambda>check. require (check = archive) (archive_error ''archive readback'') (Inr ()))"
  have gone: "?fs(name := Absent) = fs" using absent by (simp add: fun_upd_idem)
  have run: "(case removing dk name ?fs ?first of (Inl e, fs'') \<Rightarrow> (Inl e, fs'') | (Inr _, fs'') \<Rightarrow> removing dk name fs'' ?second) = (r, fs')"
    using assms(1) Inr w by (simp add: write_archive_def Let_def)
  show ?thesis
  proof (cases r)
    case r: (Inl e)
    then have "removing dk name ?fs ?first = (Inl e, fs') \<or> removing dk name ?fs ?second = (Inl e, fs')"
      using run by (auto split: prod.splits sum.splits simp: removing_Inr)
    then show ?thesis
      using r removing_Inl [of dk name ?fs ?first e fs'] removing_Inl [of dk name ?fs ?second e fs'] gone absent by (auto simp: returns_def)
  next
    case r: (Inr v)
    then have "?first = Inr ()" "?second = Inr ()" "fs' = ?fs"
      using run by (auto split: prod.splits sum.splits simp: removing_Inr)
    moreover from this have "landed = archive"
      by (auto simp: res_simps read_archive_def opened_again_def)
    ultimately show ?thesis using r absent by simp
  qed
qed

text \<open>
  Whatever the disk does, a run of the archive tool that returns has left exactly the archive of the flash both backups hold, under a name
  that was free; a failing one has left no trace, if the disk lets it remove its file; and no other file is ever touched.
\<close>

lemma archive_all_or_nothing:
  assumes "archive_run dk pd first second name fs = (r, fs')"
  shows "(returns r \<longrightarrow> (\<exists>flash archive. read_backup first = Inr flash \<and> read_backup second = Inr flash \<and> ab_identity first \<noteq> ab_identity second \<and>
      make_archive flash = Inr archive \<and> fs name = Absent \<and> fs' = fs(name := File archive))) \<and>
    (\<not> returns r \<and> returns (dk_unlink dk name) \<longrightarrow> fs' = fs) \<and> (\<forall>n. fs n \<noteq> Absent \<longrightarrow> fs' n = fs n)"
proof -
  let ?checked = "bindE (read_backup first) (\<lambda>a. bindE (read_backup second) (\<lambda>b.
         require (ab_identity first \<noteq> ab_identity second) (archive_error ''backups are one file'')
         (require (a = b) (archive_error ''backups differ'') (make_archive a))))"
  show ?thesis
  proof (cases ?checked)
    case (Inl e)
    with assms have "r = Inl e" "fs' = fs" by (simp_all add: archive_run_def)
    then show ?thesis by (simp add: returns_def)
  next
    case (Inr archive)
    then obtain flash where flash: "read_backup first = Inr flash" "read_backup second = Inr flash" "ab_identity first \<noteq> ab_identity second"
        "make_archive flash = Inr archive"
      by (auto simp: res_simps)
    then have "length archive \<le> ARCHIVE_SIZE"
      by (auto simp: make_archive_def res_simps Let_def)
    moreover have "write_archive dk pd name archive fs = (r, fs')"
      using assms Inr by (simp add: archive_run_def)
    ultimately show ?thesis
      using write_archive_facts flash by blast
  qed
qed

text \<open>The preflight replaces no file, and when it reports the digest of a candidate, the file under the name it was given holds the candidate.\<close>

lemma link_candidate_facts:
  assumes "link_candidate dk name candidate fs = (r, fs')"
  shows "(\<forall>n. fs n \<noteq> Absent \<longrightarrow> fs' n = fs n) \<and> (\<forall>n. n \<noteq> name \<longrightarrow> fs' n = fs n) \<and> (returns r \<longrightarrow> fs' name = File candidate)"
  using assms by (auto simp: link_candidate_def Let_def res_simps returns_iff split: sum.splits prod.splits if_splits)

lemma preflight_output_exact:
  assumes "preflight_tool sdk dk idf first second device_id (Some (op, name)) fs = (r, fs')"
  shows "(\<forall>n. fs n \<noteq> Absent \<longrightarrow> fs' n = fs n) \<and>
    (\<forall>lines flash sha. r = Inr (lines, flash, Some sha) \<longrightarrow> (\<exists>store candidate. audit sdk flash device_id = Inr (lines, store) \<and>
       write_candidate sdk store = Inr candidate \<and> fs' name = File candidate \<and> sha = digest candidate))"
proof -
  let ?audited = "require (valid_uuid_text device_id) (preflight ''device-id'')
         (bindE (check_idf idf) (\<lambda>_. bindE (compare_backups first second) (\<lambda>flash.
          bindE (audit sdk flash device_id) (\<lambda>(lines, store). Inr (flash, lines, store)))))"
  show ?thesis
  proof (cases ?audited)
    case (Inl e)
    with assms have "r = Inl e" "fs' = fs" by (simp_all add: preflight_tool_def)
    then show ?thesis by simp
  next
    case (Inr x)
    then obtain flash lines store where x: "x = (flash, lines, store)" "audit sdk flash device_id = Inr (lines, store)"
      by (auto simp: res_simps)
    obtain r1 where r1: "write_candidate_file sdk dk op store name fs = (r1, fs')" "r = bindE r1 (\<lambda>sha. Inr (lines, flash, Some sha))"
      using assms Inr x by (auto simp: preflight_tool_def split: prod.splits)
    show ?thesis
    proof (cases "fs' = fs \<and> \<not> returns r1")
      case True
      with r1(2) show ?thesis by (auto simp: res_simps returns_def)
    next
      case False
      then obtain candidate r2 where c: "write_candidate sdk store = Inr candidate" "link_candidate dk name candidate fs = (r2, fs')"
          "r1 = bindE r2 (\<lambda>_. Inr (digest candidate))"
        using r1(1) by (auto simp: write_candidate_file_def res_simps returns_def split: sum.splits prod.splits)
      show ?thesis
        using link_candidate_facts [OF c(2)] c r1(2) x(2) by (auto simp: res_simps returns_iff)
    qed
  qed
qed

subsection \<open>The candidate comes last\<close>

lemma write_verified_facts:
  assumes "write_verified dk name raw fs = (r, fs')"
  shows "(returns r \<longrightarrow> fs name = Absent \<and> fs' = fs(name := File raw)) \<and> (\<forall>n. n \<noteq> name \<longrightarrow> fs' n = fs n)"
proof (cases "create_exclusive dk name fs")
  case (Inl e)
  with assms have "r = Inl e" "fs' = fs" by (simp_all add: write_verified_def)
  then show ?thesis by (simp add: returns_def)
next
  case (Inr u)
  obtain landed w where w: "dk_write dk name raw = (landed, w)" by (cases "dk_write dk name raw")
  then have fs': "fs' = fs(name := File landed)"
    and r: "r = bindE w (\<lambda>_. bindE (read_file (opened_again dk name landed) True FLASH_SIZE) (\<lambda>again. require (again = raw) (migration ''output readback'') (Inr ())))"
    using assms Inr by (simp_all add: write_verified_def)
  have "landed = raw" if "returns r"
    using that unfolding r by (auto simp: res_simps returns_iff read_file_def opened_again_def Let_def min_def split: if_splits)
  moreover have "fs name = Absent"
    using Inr by (auto simp: create_exclusive_def res_simps)
  ultimately show ?thesis by (simp add: fs')
qed

lemma write_all_in_order:
  assumes "write_all dk (xs @ [x]) fs = (r, fs')" and "distinct (map fst (xs @ [x]))" and "fs (fst x) = Absent"
  shows "(fs' (fst x) \<noteq> Absent \<longrightarrow> (\<forall>(n, raw) \<in> set xs. fs' n = File raw)) \<and>
    (returns r \<longrightarrow> (\<forall>(n, raw) \<in> set (xs @ [x]). fs' n = File raw)) \<and> (\<forall>n. n \<notin> fst ` set (xs @ [x]) \<longrightarrow> fs' n = fs n)"
  using assms
proof (induction xs arbitrary: fs)
  case Nil
  obtain name raw where x: "x = (name, raw)" by (cases x)
  obtain r1 fs1 where one: "write_verified dk name raw fs = (r1, fs1)" by (cases "write_verified dk name raw fs")
  then have "fs' = fs1" "returns r \<longleftrightarrow> returns r1"
    using Nil.prems(1) x by (auto simp: returns_def split: sum.splits)
  with write_verified_facts [OF one] x show ?case by auto
next
  case (Cons y xs)
  obtain name raw where y: "y = (name, raw)" by (cases y)
  obtain r1 fs1 where one: "write_verified dk name raw fs = (r1, fs1)" by (cases "write_verified dk name raw fs")
  note facts = write_verified_facts [OF one]
  have other: "fst x \<noteq> name" "name \<notin> fst ` set (xs @ [x])"
    using Cons.prems(2) y by auto
  show ?case
  proof (cases r1)
    case (Inl e)
    then have "r = Inl e" "fs' = fs1"
      using Cons.prems(1) y one by simp_all
    with facts other Cons.prems(3) y show ?thesis
      by (auto simp: returns_def)
  next
    case (Inr u)
    then have rest: "write_all dk (xs @ [x]) fs1 = (r, fs')" and fs1: "fs1 = fs(name := File raw)"
      using Cons.prems(1) y one facts by (simp_all add: returns_def)
    have "fs1 (fst x) = Absent" "distinct (map fst (xs @ [x]))"
      using Cons.prems(2,3) other fs1 by simp_all
    from Cons.IH [OF rest this(2,1)] fs1 other(2) y show ?thesis by auto
  qed
qed

lemma prepare_files:
  assumes "prepare sdk a = Inr (receipt, files)"
  obtains flash archives candidate where "files = [Source_flash flash, Receipt_file receipt] @ archives @ [Candidate_flash candidate]"
    "archives = [] \<or> (\<exists>raw. archives = [Old_at raw])" "mr_candidate_sha256 receipt = digest candidate"
    "compare_backups (pa_backup_a a) (pa_backup_b a) = Inr flash"
proof -
  obtain flash old_at candidate where parts: "compare_backups (pa_backup_a a) (pa_backup_b a) = Inr flash"
      "files = [Source_flash flash, Receipt_file receipt] @ (case old_at of None \<Rightarrow> [] | Some raw \<Rightarrow> [Old_at raw]) @ [Candidate_flash candidate]"
      "mr_candidate_sha256 receipt = digest candidate"
    using assms by (auto simp: prepare_def res_simps Let_def)
  show thesis
    by (rule that [OF parts(2) _ parts(3,1)]) (cases old_at; simp)
qed

lemma outputs_in_order:
  assumes "write_all dk (map (output_file receipt_text) ([Source_flash flash, Receipt_file receipt] @ archives @ [Candidate_flash candidate])) (\<lambda>_. Absent) = (r, fs)"
    and archives: "archives = [] \<or> (\<exists>raw. archives = [Old_at raw])"
  shows "(fs ''candidate-flash.bin'' \<noteq> Absent \<longrightarrow> fs ''source-flash.bin'' = File flash \<and> fs ''migration-receipt.json'' = File (receipt_text receipt) \<and>
      (\<forall>raw. archives = [Old_at raw] \<longrightarrow> fs ''at-old-raw.bin'' = File raw)) \<and> (returns r \<longrightarrow> fs ''candidate-flash.bin'' = File candidate) \<and>
    (\<forall>name. name \<notin> {''source-flash.bin'', ''migration-receipt.json'', ''at-old-raw.bin'', ''candidate-flash.bin''} \<longrightarrow> fs name = Absent)"
proof -
  let ?first = "[(''source-flash.bin'', flash), (''migration-receipt.json'', receipt_text receipt)] @ map (output_file receipt_text) archives"
  have all: "write_all dk (?first @ [(''candidate-flash.bin'', candidate)]) (\<lambda>_. Absent) = (r, fs)"
    using assms(1) by simp
  have "distinct (map fst (?first @ [(''candidate-flash.bin'', candidate)]))"
    using archives by auto
  note written = write_all_in_order [OF all this refl]
  have names: "fst ` set (?first @ [(''candidate-flash.bin'', candidate)]) \<subseteq> {''source-flash.bin'', ''migration-receipt.json'', ''at-old-raw.bin'', ''candidate-flash.bin''}"
    using archives by auto
  have "fs name = Absent" if "name \<notin> {''source-flash.bin'', ''migration-receipt.json'', ''at-old-raw.bin'', ''candidate-flash.bin''}" for name
  proof -
    from that names have "name \<notin> fst ` set (?first @ [(''candidate-flash.bin'', candidate)])" by blast
    with conjunct2 [OF conjunct2 [OF written]] show ?thesis by blast
  qed
  moreover have "fs ''candidate-flash.bin'' \<noteq> Absent \<longrightarrow> fs ''source-flash.bin'' = File flash \<and> fs ''migration-receipt.json'' = File (receipt_text receipt) \<and>
      (\<forall>raw. archives = [Old_at raw] \<longrightarrow> fs ''at-old-raw.bin'' = File raw)"
    using conjunct1 [OF written] by auto
  moreover have "returns r \<longrightarrow> fs ''candidate-flash.bin'' = File candidate"
    using conjunct1 [OF conjunct2 [OF written]] by simp
  ultimately show ?thesis by blast
qed

text \<open>
  C3: the candidate flash is written last.  However a migration run ends, and whatever the disk does to its writes, either nothing has changed, or the output directory
  did not exist before and holds nothing but files of this migration.  If a candidate flash exists in it, complete or not, then the complete source flash,
  which both backups hold, the receipt, and the archive of the old AT regions (if the source has them) are beside it, byte for byte.  When the run returns the receipt,
  the candidate is complete too, and the receipt has its digest.
\<close>

theorem candidate_flash_last:
  assumes "prepare_native sdk receipt_text dk pd idf a place = (r, n, fs)"
  shows "(n, fs) = place \<and> \<not> returns r \<or>
    fst place = Absent \<and> n = Directory \<and> (\<exists>receipt flash archives candidate.
      prepare sdk a = Inr (receipt, [Source_flash flash, Receipt_file receipt] @ archives @ [Candidate_flash candidate]) \<and>
      compare_backups (pa_backup_a a) (pa_backup_b a) = Inr flash \<and>
      (archives = [] \<or> (\<exists>raw. archives = [Old_at raw])) \<and>
      (fs ''candidate-flash.bin'' \<noteq> Absent \<longrightarrow> fs ''source-flash.bin'' = File flash \<and> fs ''migration-receipt.json'' = File (receipt_text receipt) \<and>
         (\<forall>raw. archives = [Old_at raw] \<longrightarrow> fs ''at-old-raw.bin'' = File raw)) \<and>
      (returns r \<longrightarrow> r = Inr receipt \<and> fs ''candidate-flash.bin'' = File candidate \<and> mr_candidate_sha256 receipt = digest candidate) \<and>
      (\<forall>name. name \<notin> {''source-flash.bin'', ''migration-receipt.json'', ''at-old-raw.bin'', ''candidate-flash.bin''} \<longrightarrow> fs name = Absent))"
proof (cases "bindE (check_idf idf) (\<lambda>_. prepare sdk a)")
  case (Inl e)
  with assms have "r = Inl e" "(n, fs) = place" by (simp_all add: prepare_native_def)
  then show ?thesis by (simp add: returns_def)
next
  case (Inr x)
  then obtain receipt files where x: "x = (receipt, files)" "prepare sdk a = Inr (receipt, files)"
    by (cases x) (auto simp: res_simps)
  obtain flash archives candidate where files: "files = [Source_flash flash, Receipt_file receipt] @ archives @ [Candidate_flash candidate]"
      "archives = [] \<or> (\<exists>raw. archives = [Old_at raw])" "mr_candidate_sha256 receipt = digest candidate"
      "compare_backups (pa_backup_a a) (pa_backup_b a) = Inr flash"
    by (rule prepare_files [OF x(2)])
  obtain made place' where fields: "private_output_directory dk pd place = (made, place')"
    by (cases "private_output_directory dk pd place")
  show ?thesis
  proof (cases made)
      case e: (Inl e)
      have "place' = place"
        using fields e by (auto simp: private_output_directory_def split: sum.splits)
      moreover have "r = Inl e" "(n, fs) = place'"
        using assms Inr x(1) fields e by (auto simp: prepare_native_def split: prod.splits)
      ultimately show ?thesis by (simp add: returns_def)
    next
      case u: (Inr u)
      then have place: "fst place = Absent" "place' = (Directory, \<lambda>_. Absent)"
        using fields by (auto simp: private_output_directory_def res_simps split: sum.splits)
      obtain r1 where r1: "write_all dk (map (output_file receipt_text) files) (\<lambda>_. Absent) = (r1, fs)" "r = bindE r1 (\<lambda>_. Inr receipt)" "n = Directory"
        using assms Inr x(1) fields u place(2) by (auto simp: prepare_native_def split: prod.splits)
      note written = outputs_in_order [OF r1(1) [unfolded files(1)] files(2)]
      have "returns r \<longrightarrow> r = Inr receipt \<and> returns r1"
        using r1(2) by (auto simp: returns_iff res_simps)
      with place(1) r1(3) x(2) files written show ?thesis
        by (intro disjI2 conjI, simp, simp) (rule exI [of _ receipt], rule exI [of _ flash], rule exI [of _ archives], rule exI [of _ candidate], simp)
    qed
qed

subsection \<open>A run on a sound disk\<close>

definition sound_disk :: disk where
  "sound_disk = \<lparr>dk_create = (\<lambda>_. Inr ()), dk_write = (\<lambda>_ raw. (raw, Inr ())),
     dk_facts = (\<lambda>name. \<lparr>if_regular = True, if_own = True, if_mode = 384,
       if_size = (if name = ''migration-receipt.json'' then 1 else if name = ''at-old-raw.bin'' then 0x5000 else FLASH_SIZE), if_content = [], if_unchanged = True\<rparr>),
     dk_unlink = (\<lambda>_. Inr ())\<rparr>"

definition private_parent :: parent_facts where
  "private_parent = \<lparr>pd_resolves = Inr (), pd_directory = True, pd_own = True, pd_mode = 448, pd_in_repository = False, pd_git_above = False\<rparr>"

definition locked_idf :: idf_facts where
  "locked_idf = \<lparr>id_head = (0, str IDF_COMMIT), id_diff = 0, id_parsers = True\<rparr>"

lemma sound_write:
  assumes "fs name = Absent" and "length raw = if_size (dk_facts sound_disk name)" and "length raw \<le> FLASH_SIZE"
  shows "write_verified sound_disk name raw fs = (Inr (), fs(name := File raw))"
  using assms by (simp add: write_verified_def create_exclusive_def sound_disk_def read_file_def opened_again_def Let_def)

theorem candidate_flash_last_witness:
  "\<exists>r fs archive. prepare_native run_sdk (\<lambda>_. [10]) sound_disk private_parent locked_idf run_args (Absent, \<lambda>_. Absent) = (r, Directory, fs) \<and> returns r \<and>
     fs ''source-flash.bin'' = File run_flash \<and> fs ''at-old-raw.bin'' = File archive \<and> fs ''candidate-flash.bin'' \<noteq> Absent"
proof -
  obtain receipt archive candidate where run: "prepare run_sdk run_args = Inr (receipt, [Source_flash run_flash, Receipt_file receipt, Old_at archive, Candidate_flash candidate])"
      "length archive = 0x5000" "length candidate = FLASH_SIZE"
    using run_prepared by blast
  have made: "private_output_directory sound_disk private_parent (Absent, \<lambda>_. Absent) = (Inr (), Directory, \<lambda>_. Absent)" "check_idf locked_idf = Inr ()"
    by (simp_all add: private_output_directory_def output_parent_def private_parent_def sound_disk_def check_idf_def locked_idf_def strip_def IDF_COMMIT_def)
       (simp add: str_def py_space_def)
  have sizes: "if_size (dk_facts sound_disk ''source-flash.bin'') = FLASH_SIZE" "if_size (dk_facts sound_disk ''migration-receipt.json'') = 1"
      "if_size (dk_facts sound_disk ''at-old-raw.bin'') = 0x5000" "if_size (dk_facts sound_disk ''candidate-flash.bin'') = FLASH_SIZE"
    by (simp_all add: sound_disk_def)
  obtain fs where fs: "prepare_native run_sdk (\<lambda>_. [10]) sound_disk private_parent locked_idf run_args (Absent, \<lambda>_. Absent) = (Inr receipt, Directory, fs)"
    using run made by (simp add: prepare_native_def sound_write run_flash_length sizes FLASH_SIZE_def)
  have "returns (Inr receipt)" by (simp add: returns_def)
  with candidate_flash_last [OF fs] run(1) have "fs ''source-flash.bin'' = File run_flash \<and> fs ''at-old-raw.bin'' = File archive \<and> fs ''candidate-flash.bin'' \<noteq> Absent"
    by auto
  with fs \<open>returns (Inr receipt)\<close> show ?thesis by blast
qed

end
