(* ===== verification/Evidence_Files.thy ===== *)
theory Evidence_Files
  imports Capacity_Requests Build_Identity
begin

text \<open>
  The files of the request evidence (\<^verbatim>\<open>_file_fact\<close> and the parts of \<^verbatim>\<open>_request_evidence\<close>, \<^verbatim>\<open>analyze\<close> and \<^verbatim>\<open>main\<close> of
  \<^verbatim>\<open>analyze_capacity.py\<close> that \<open>Capacity_Requests\<close> takes as parameters): a file is what the tool observes of it, whether it is a regular file, its
  size and times before and after reading, and its bytes.  \<open>open_file\<close> opens a path; \<^verbatim>\<open>json.loads\<close> on the decoded bytes is \<open>loads\<close>.

  A file of status lines is read with \<^verbatim>\<open>readline(16385)\<close>; the lines are the rows that \<open>Capacity_Requests\<close> checks.  All refusals of a
  file are of one class, so their order is not kept.

  Lemmas: reading by lines loses no byte, and accepted evidence speaks only of files that are on the disk with the digest it names.
\<close>

record evidence_file =
  ef_regular :: bool
  ef_before :: "int \<times> int \<times> int"
  ef_bytes :: bytes
  ef_after :: "int \<times> int \<times> int"

type_synonym evidence_disk = "pystr \<Rightarrow> evidence_file res"

text \<open>The limit of captured JSON: 1 MiB.\<close>

definition JSON_LIMIT :: int where "JSON_LIMIT = 1024 * 1024"

definition file_fact_of :: "evidence_disk \<Rightarrow> bool \<Rightarrow> pystr \<Rightarrow> (fact \<times> bytes) res" where
  "file_fact_of open_file capture path =
     refuse (\<not> is_absolute path) ''evidence path is not absolute''
     (bindE (open_file path) (\<lambda>f.
      refuse (\<not> ef_regular f \<or> capture \<and> JSON_LIMIT < fst (ef_before f)) ''evidence is not a regular file''
      (refuse (capture \<and> JSON_LIMIT < int (length (ef_bytes f))) ''evidence too long''
      (refuse (ef_before f \<noteq> ef_after f \<or> int (length (ef_bytes f)) \<noteq> fst (ef_before f)) ''evidence changed while reading''
      (Inr ((path, hex (sha256 (ef_bytes f)), int (length (ef_bytes f))), if capture then ef_bytes f else []))))))"

definition plain_fact :: "evidence_disk \<Rightarrow> pystr \<Rightarrow> (pystr \<times> int) res" where
  "plain_fact open_file path = bindE (file_fact_of open_file False path) (\<lambda>((_, sha, n), _). Inr (sha, n))"

subsection \<open>Lines\<close>

text \<open>\<^verbatim>\<open>readline(16385)\<close>: up to and with the next line feed, at most 16385 bytes.\<close>

definition next_line :: "bytes \<Rightarrow> bytes" where
  "next_line raw = take 16385 (takeWhile (\<lambda>b. b \<noteq> 10) raw @ (if 10 \<in> set raw then [10] else []))"

lemma next_line_prefix: "next_line raw @ drop (length (next_line raw)) raw = raw"
proof -
  have "takeWhile (\<lambda>b. b \<noteq> 10) raw @ (if 10 \<in> set raw then [10] else []) = take (length (takeWhile (\<lambda>b. b \<noteq> 10) raw) + (if 10 \<in> set raw then 1 else 0)) raw"
    by (induction raw) auto
  then obtain n where "takeWhile (\<lambda>b. b \<noteq> 10) raw @ (if 10 \<in> set raw then [10] else []) = take n raw" ..
  then have "next_line raw = take (min 16385 n) raw"
    by (simp add: next_line_def min.commute)
  then show ?thesis
    by (simp add: min_def)
qed

lemma next_line_Nil: "next_line raw = [] \<longleftrightarrow> raw = []"
  by (cases raw) (auto simp: next_line_def)

function read_lines :: "bytes \<Rightarrow> bytes list" where
  "read_lines raw = (if raw = [] then [] else next_line raw # read_lines (drop (length (next_line raw)) raw))"
  by pat_completeness auto
termination
  by (relation "measure length") (auto simp: next_line_Nil)

declare read_lines.simps [simp del]

lemma read_lines_complete: "concat (read_lines raw) = raw"
proof (induction raw rule: read_lines.induct)
  case (1 raw)
  show ?case
  proof (cases "raw = []")
    case False
    with 1 show ?thesis
      by (simp add: read_lines.simps [of raw] next_line_prefix)
  qed (simp add: read_lines.simps)
qed

definition rows_at :: "evidence_disk \<Rightarrow> pystr \<Rightarrow> bytes list" where
  "rows_at open_file path = (case open_file path of Inl e \<Rightarrow> [] | Inr f \<Rightarrow> read_lines (ef_bytes f))"

subsection \<open>The evidence\<close>

text \<open>\<^verbatim>\<open>ROOT / relative\<close> is \<open>root relative\<close>.\<close>

definition evidence_of_file ::
  "(bytes \<Rightarrow> pyval res) \<Rightarrow> evidence_disk \<Rightarrow> (pystr \<Rightarrow> pystr) \<Rightarrow> pystr \<Rightarrow> string \<Rightarrow> pystr \<Rightarrow> pystr \<Rightarrow> (fact \<times> evidence) res" where
  "evidence_of_file loads open_file root path target boot_id sdk_lock_sha256 =
     bindE (file_fact_of open_file True path) (\<lambda>(input_fact, raw).
     bindE (reraise is_value_error (Raise ValueError ''evidence is not JSON'') (loads raw)) (\<lambda>v.
     bindE (request_evidence loads (rows_at open_file) (\<lambda>relative. plain_fact open_file (root relative)) (plain_fact open_file)
       v target boot_id sdk_lock_sha256) (\<lambda>ev. Inr (input_fact, ev))))"

definition analyze_evidence ::
  "(bytes \<Rightarrow> pyval res) \<Rightarrow> evidence_disk \<Rightarrow> (pystr \<Rightarrow> pystr) \<Rightarrow> pystr option \<Rightarrow> log_file list \<Rightarrow> string \<Rightarrow> pystr \<Rightarrow> pystr \<Rightarrow>
     (capacity_report \<times> (fact \<times> fit_report) option) res" where
  "analyze_evidence loads open_file root path files target boot_id sdk_lock_sha256 =
     bindE (analyze files target boot_id sdk_lock_sha256) (\<lambda>report.
     bindE (log_files boot_id sdk_lock_sha256 files) (\<lambda>(st, _).
     (case path of
        None \<Rightarrow> Inr (report, None)
      | Some p \<Rightarrow>
          bindE (evidence_of_file loads open_file root p target boot_id sdk_lock_sha256) (\<lambda>(input_fact, ev).
          Inr (report, Some (input_fact, provided_request_fit ev (ls_previous_complete st)))))))"

text \<open>The exit status of \<^verbatim>\<open>main\<close>: what it says of the requests does not enter it.\<close>

definition capacity_exit :: "(capacity_report \<times> 'a) res \<Rightarrow> nat res" where
  "capacity_exit r = (case r of
      Inr (report, _) \<Rightarrow> Inr (if cr_numeric_gates_passed report then 0 else 1)
    | Inl e \<Rightarrow> if exc e = OSError \<or> is_value_error e then Inr 1 else Inl e)"

subsection \<open>The evidence is on the disk\<close>

definition on_disk :: "evidence_disk \<Rightarrow> fact \<Rightarrow> bool" where
  "on_disk open_file = (\<lambda>(path, sha, n). \<exists>f. open_file path = Inr f \<and> ef_regular f \<and> ef_before f = ef_after f \<and>
     sha = hex (sha256 (ef_bytes f)) \<and> n = int (length (ef_bytes f)))"

lemma file_fact_on_disk: "file_fact_of open_file capture path = Inr (entry, raw) \<Longrightarrow> on_disk open_file entry"
  by (auto simp: file_fact_of_def on_disk_def res_simps)

lemma plain_fact_on_disk: "plain_fact open_file path = Inr (sha, n) \<Longrightarrow> on_disk open_file (path, sha, n)"
  by (auto simp: plain_fact_def file_fact_of_def on_disk_def res_simps)

lemma two_texts_Inr:
  "(case (a, b) of (Some (PStr x), Some (PStr y)) \<Rightarrow> f x y | _ \<Rightarrow> Inl e) = Inr z \<Longrightarrow> \<exists>x y. f x y = Inr z"
  by (auto split: option.splits pyval.splits)

lemma reference_on_disk:
  assumes "reference (plain_fact open_file) v = Inr entry"
  shows "on_disk open_file entry"
proof -
  obtain d where "(case (map_of d (str ''path''), map_of d (str ''sha256'')) of
        (Some (PStr path), Some (PStr sha)) \<Rightarrow>
          refuse (\<not> hash_text sha) ''evidence reference''
          (bindE (plain_fact open_file path) (\<lambda>(actual, n). refuse (actual \<noteq> sha) ''evidence digest'' (Inr (path, actual, n))))
      | _ \<Rightarrow> Inl (Raise ValueError ''evidence reference'')) = Inr entry"
    using assms unfolding reference_def bindE_eq_Inr by blast
  from two_texts_Inr [OF this] show ?thesis
    by (auto simp: res_simps dest: plain_fact_on_disk)
qed

lemma sources_on_disk:
  assumes "check_sources (plain_fact open_file) v = Inr sources"
  shows "\<forall>entry \<in> set sources. on_disk open_file entry"
proof -
  obtain vs where run: "for_each (\<lambda>fs v. bindE (reference (plain_fact open_file) v) (\<lambda>f. Inr (fs @ [f]))) [] vs = Inr sources"
    using assms by (auto simp: check_sources_def res_simps split: pyval.splits)
  show ?thesis
    by (rule for_each_inv [OF run, where I = "\<lambda>_ fs. \<forall>entry \<in> set fs. on_disk open_file entry"])
       (auto simp: res_simps dest: reference_on_disk)
qed

text \<open>
  What accepted evidence refers to is on the disk: the evidence file itself, the complete signed firmware, the configuration and every source are regular
  files that did not change while they were read, with exactly the digest and size that are reported, and every source of the allocator recipe
  has the digest the recipe fixes.
\<close>

lemma evidence_is_on_disk:
  assumes "evidence_of_file loads open_file root path target boot_id sdk_lock_sha256 = Inr (input_fact, ev)"
  shows "on_disk open_file input_fact \<and> (\<forall>entry \<in> set (ev_signed_firmware ev # ev_config ev # ev_sources ev). on_disk open_file entry) \<and>
    (\<forall>(relative, expected) \<in> set REQUEST_RECIPE_INPUTS. \<exists>n. on_disk open_file (root (str relative), str expected, n))"
proof -
  obtain raw v where "file_fact_of open_file True path = Inr (input_fact, raw)"
    and ev: "request_evidence loads (rows_at open_file) (\<lambda>relative. plain_fact open_file (root relative)) (plain_fact open_file)
       v target boot_id sdk_lock_sha256 = Inr ev"
    using assms by (auto simp: evidence_of_file_def res_simps)
  moreover obtain inputs where recipe: "for_each (check_recipe_input (\<lambda>relative. plain_fact open_file (root relative))) [] REQUEST_RECIPE_INPUTS = Inr inputs"
    and facts: "on_disk open_file (ev_signed_firmware ev)" "on_disk open_file (ev_config ev)" "\<forall>entry \<in> set (ev_sources ev). on_disk open_file entry"
    using ev by (auto simp: request_evidence_def res_simps dest!: reference_on_disk sources_on_disk)
  moreover have "\<forall>(relative, expected) \<in> set REQUEST_RECIPE_INPUTS. \<exists>n. on_disk open_file (root (str relative), str expected, n)"
    by (rule for_each_inv [OF recipe, where I = "\<lambda>xs _. \<forall>(relative, expected) \<in> set xs. \<exists>n. on_disk open_file (root (str relative), str expected, n)"])
       (auto simp: check_recipe_input_def res_simps dest!: plain_fact_on_disk)
  ultimately show ?thesis
    by (auto dest: file_fact_on_disk)
qed

end
