(* ===== verification/Spec2Isabelle.thy ===== *)
theory Spec2Isabelle
  imports Ebcf_Config Candidate Nvs Receipts Capacity_Requests Observation Event_Publish Device_Control Migration_Run Package_Build_Run Resource_Report Observer_Run Mqtt_Lab Private_Files Evidence_Files
begin

text \<open>
  Verification of the host tools of the esp-base repository, the Python programs under \<^verbatim>\<open>src/tools\<close>.
  The repository is the firmware of a small device (C code under \<^verbatim>\<open>src/firmware\<close>) together with the tools
  that package it, migrate devices to its current flash layout, operate a device over its serial
  line or a broker, and judge its memory from UART logs.  The development is about the tools.

  \<^bold>\<open>The parts and how they interact.\<close>

  \<^item> Migration.  \<^verbatim>\<open>prepare_native_layout.py\<close> reads two backups of a device's 4 MiB flash, inspects the
    source according to the layout the operator names, and writes a candidate flash of the native layout.
    It uses \<^verbatim>\<open>preflight_v3_migration.py\<close> (backups, NVS records, configuration records) and
    \<^verbatim>\<open>archive_esp32_at.py\<close> (the archive of old AT regions).  The preflight is also a tool of its own.
  \<^item> Package.  \<^verbatim>\<open>build_identity.py\<close> gives a build its identity and reads it back from an image;
    \<^verbatim>\<open>build_package.py\<close> collects the inputs, builds a directory or checks a finished one, freezes what it decides in files
    written once, assembles the ZIP package and verifies it.  \<^verbatim>\<open>package_entry.py\<close> is the entry the Core calls: it does all
    of that for one run.  \<^verbatim>\<open>prepare_sdk.py\<close> applies the managed patches to a checkout of ESP-IDF, \<^verbatim>\<open>check_sdk.py\<close> checks
    it against the lock; the package build starts with this check.
  \<^item> Serial client.  \<^verbatim>\<open>device_control.py\<close> sends one JSON request per line and waits for the matching result.
  \<^item> Events.  \<^verbatim>\<open>business_event.py\<close> signs an event, \<^verbatim>\<open>business_event_publish.py\<close> publishes it once and waits
    until the device reports its completion.  \<^verbatim>\<open>mqtt_lab_check.py\<close> checks the laboratory application over an isolated broker.
  \<^item> Capacity.  \<^verbatim>\<open>analyze_capacity.py\<close> checks the formal capacity frames of a UART log and reports lower
    bounds of free memory; \<^verbatim>\<open>capacity_observation.py\<close> does so for the periodic observer.
    \<^verbatim>\<open>mqtt_resource_report.py\<close> groups the resource snapshots of a laboratory log and compares the phases;
    \<^verbatim>\<open>prepare_capacity_observer.py\<close> derives the laboratory source tree with the observer from a formal source.

  \<^bold>\<open>Theories.\<close>  Each theory names the functions it models in its own header; the definitions have the
  names of the source where HOL allows it.

  \<^item> \<open>Prelude\<close>: exceptions as values (\<open>res\<close>), \<open>require\<close>, \<open>bindE\<close>, \<open>for_each\<close>, Python slices, and the
    interface \<open>region_memory\<close> of a memory written by regions, interpreted on slices.
  \<^item> \<open>Octets\<close>, \<open>Digests\<close>, \<open>Sha256_Vector\<close>, \<open>Python_Values\<close>: the parts of the Python standard library the
    tools call: integers in bytes, the codecs (interface \<open>byte_codec\<close>), CRC-32, SHA-256, MD5 and HMAC (interface
    \<open>digest_function\<close>), dynamically typed values, UUID texts.
  \<^item> \<open>Device_Config\<close>, \<open>Ebcf_Config\<close>: the configuration object and the persisted record in its three
    versions, with the conversions (interface \<open>config_migration\<close>, interpreted on both).
  \<^item> \<open>Archive\<close>, \<open>Flash_Layout\<close>, \<open>Otadata\<close>, \<open>Image\<close>, \<open>Nvs\<close>, \<open>Receipts\<close>: what a flash holds: the archive
    of the AT regions, the layouts and partition tables, the boot selector in both readings, firmware images
    (interface \<open>self_delimiting\<close>), NVS records, and the operation records (interface \<open>terminal_receipt\<close>).
  \<^item> \<open>Candidate\<close>, \<open>Preflight\<close>, \<open>Migration\<close>, \<open>Migration_Run\<close>: the candidate flash, the read-only audit, the
    whole migration, and one concrete migration that is evaluated from end to end.
  \<^item> \<open>Private_Files\<close>: the files the migration tools leave, on a disk that may fail at any write, and the whole runs of
    the archive tool, the preflight and the migration around them.
  \<^item> \<open>Json_Text\<close>: the JSON texts the tools write, and typed access to what they read.
  \<^item> \<open>Build_Identity\<close>, \<open>Write_Once\<close>, \<open>Package\<close>, \<open>Package_Run\<close>, \<open>Build_Facts\<close>: the identity of a build and the image
    that carries it, the race of writers of one frozen file (a step relation), the verification of a package,
    one concrete package that is verified from end to end, and the facts of a compiled directory.
  \<^item> \<open>Sdk_Check\<close>, \<open>Package_Build\<close>, \<open>Package_Entry\<close>, \<open>Package_Build_Run\<close>: the managed SDK, the build and the assembly
    as actions on the build directory, the entry of the Core, and one concrete run of it from end to end.
  \<^item> \<open>Plain_Text\<close>: texts that have an encoding, and the length of JSON texts, for the concrete runs.
  \<^item> \<open>Serial_Port\<close>, \<open>Device_Control\<close>: the serial line and the commands of the client.
  \<^item> \<open>Business_Event\<close>, \<open>Event_Publish\<close>: the signed frame and the publication protocol.
  \<^item> \<open>Mqtt_Lab\<close>: the laboratory check, a run of it as a trace, and the plan it follows.
  \<^item> \<open>Capacity_Lines\<close>, \<open>Capacity_Frame\<close>, \<open>Capacity_Log\<close>, \<open>Capacity_Requests\<close>, \<open>Observation\<close>: one line, one
    frame (interface \<open>chained\<close> for laws of consecutive frames), the state machine over the logs, the fit of
    allocation requests, and the periodic observer.
  \<^item> \<open>Evidence_Files\<close>: the files of the request evidence and the exit status of the capacity analysis.
  \<^item> \<open>Resource_Report\<close>: the resource snapshots of the laboratory application and their report.
  \<^item> \<open>Observer_Source\<close>, \<open>Observer_Build\<close>, \<open>Observer_Run\<close>: the C source of the observer, the preparation of the
    laboratory tree from a tree of files, and one concrete preparation from end to end.

  \<^bold>\<open>State and effects.\<close>  A Python exception is \<open>Inl\<close> with its class and a tag for the raise site; the
  state of a loop is an explicit accumulator of \<open>for_each\<close> or \<open>foldl\<close>; dictionaries are association lists in
  insertion order.  What the tools meet outside the program is an argument: a file is the facts that
  \<^verbatim>\<open>fstat\<close> and \<^verbatim>\<open>read\<close> give about it (\<open>backup\<close>, \<open>in_file\<close>, \<open>file_facts\<close>, \<open>image_file\<close>, \<open>log_file\<close>); the serial
  line and the broker are lists of what each iteration of a waiting loop meets (\<open>rx\<close>, \<open>wx\<close>, \<open>tick\<close>), where an
  exhausted list is a passed deadline, so every run ends; \<^verbatim>\<open>json.loads\<close> is a parameter \<open>loads\<close>.  Code that is
  not in the repository is a parameter as well: the partition table parser and generator, the NVS parser
  and generator and the verifier \<^verbatim>\<open>espsecure\<close> are the fields of the record \<open>sdk\<close>; \<^verbatim>\<open>git\<close> is in \<open>sdk_env\<close>; the build system,
  the Core, the YAML and ELF readers are in \<open>host\<close>; what a disk does to a write is in \<open>disk\<close>.  A function that looks at the world twice takes two such records.

  \<^bold>\<open>What is proved.\<close>  For the migration: what \<^verbatim>\<open>prepare\<close> writes boots exactly the application file the operator gave on the
  same device and keeps its configuration, and the candidate flash is the last file it writes; the single steps (the candidate writes, the conversions, the
  receipts, the boot selector, the image parser, NVS reading, the archive) are proved by themselves and
  composed.  The one hypothesis about the SDK, that its NVS generator returns the size it was asked for, is what
  the tool relies on without a check of its own.  For the package: an accepted package is complete, bound to
  one source and one key, and its firmware is one complete image that carries the identity of the package; an image has
  only one identity; concurrent writers of a frozen file never disagree.  A checkout that passes the check is the managed SDK exactly,
  and preparing it is idempotent; a finished build binds its frozen inputs to the facts of its directory; no run of the assembly replaces
  a file of the build directory but the artifact it was asked for, and what it delivers is what was built, signed and frozen.  For the serial client: framing, termination of the write loop, and
  that a write command goes out at most once, to the named device, with checked content.  For events: the frame
  is unambiguous, is published at most once, and the exit status is honest, and with a cooperative broker the device's result is what the tool prints; the laboratory check publishes a prefix of its plan however it ends, and
  its report is backed by an answer of the device to every step.  For capacity: the rows of an accepted
  log are exactly those of a chain of consistent frames whose reported bounds never rise, and the gates and fits that are
  reported hold in every frame they speak about; a resource report that passes speaks about complete
  snapshots only, with every heap and stack bound met.  For the observer: the preparation only inserts the
  anchored blocks into the three sources it edits, and its receipt is the last file it writes.

  \<^bold>\<open>Bounds.\<close>  No theorem bounds the size of an input beyond what the code checks.  Recursions that are not
  structural (\<open>compare_loop\<close>, the SHA-256 block loop, \<open>decimal\<close>) are functions with termination proofs;
  there is no fuel.

  \<^bold>\<open>Not modelled.\<close>  The device firmware (C).  In the modelled tools: the
  temporary directories with the files in them (the copies of keys the migration makes for the signature check, the staging of a package), the opening and
  configuration of devices and input files (their facts are arguments), the mutual exclusion that \<^verbatim>\<open>flock\<close> gives, floating-point rounding of
  clock differences, the printing, and the argument parsers.
\<close>

end
